(* ===== verification/Prelude.thy ===== *)
theory Prelude
  imports Main "HOL-Library.AList"
begin

text \<open>
  Shared ground of the development.  It holds
  \<^item> the Go error values and the outcome of a call (a value, an error, a panic, or a
    call that never returns);
  \<^item> the state-passing combinators in which the store and the engine are written, one for
    each Go construct they use: sequencing with early return, \<open>_ = f()\<close>, \<open>if err := f()\<close>,
    \<open>for range\<close>, \<open>defer\<close> and error wrapping;
  \<^item> the reasoning principle for them: \<open>moves R m\<close> says that whatever \<open>m\<close> does, the state
    after it is related by \<open>R\<close> to the state before it; a preorder \<open>R\<close> (locale
    \<open>step_preorder\<close>) passes through every combinator;
  \<^item> Go maps as association lists, whose order stands for the order in which a
    \<open>range\<close> statement visits the entries.
\<close>

named_theorems moves_intros \<open>rules that push a state relation through the combinators\<close>
named_theorems run_simps \<open>unfolding equations of the combinators\<close>

section \<open>Errors and outcomes\<close>

datatype goerror =
    ErrEntityNotFound
  | Errorf string
  | Wrap string goerror

fun error_text :: "goerror \<Rightarrow> string" where
  "error_text ErrEntityNotFound = ''entity not found''"
| "error_text (Errorf m) = m"
| "error_text (Wrap m e) = m @ '': '' @ error_text e"

text \<open>\<open>errors.Is(err, ErrEntityNotFound)\<close> walks the chain of wrapped errors.\<close>

fun is_not_found :: "goerror \<Rightarrow> bool" where
  "is_not_found ErrEntityNotFound = True"
| "is_not_found (Errorf m) = False"
| "is_not_found (Wrap m e) = is_not_found e"

text \<open>
  What a Go call can do: return normally, return an error, panic, or never return (it blocks
  on a lock it already holds, or loops forever).
\<close>

datatype 'a outcome = Ok 'a | Err goerror | Panic string | Stuck

definition returns :: "'a outcome \<Rightarrow> bool" where
  "returns r \<longleftrightarrow> (case r of Ok _ \<Rightarrow> True | Err _ \<Rightarrow> True | Panic _ \<Rightarrow> False | Stuck \<Rightarrow> False)"

section \<open>State-passing combinators\<close>

type_synonym ('s, 'a) prog = "'s \<Rightarrow> 'a outcome \<times> 's"

definition ret :: "'a \<Rightarrow> ('s, 'a) prog" where
  "ret x = (\<lambda>s. (Ok x, s))"

definition throw :: "goerror \<Rightarrow> ('s, 'a) prog" where
  "throw e = (\<lambda>s. (Err e, s))"

definition panic :: "string \<Rightarrow> ('s, 'a) prog" where
  "panic m = (\<lambda>s. (Panic m, s))"

definition stuck :: "('s, 'a) prog" where
  "stuck = (\<lambda>s. (Stuck, s))"

definition gets :: "('s \<Rightarrow> 'a) \<Rightarrow> ('s, 'a) prog" where
  "gets f = (\<lambda>s. (Ok (f s), s))"

definition modify :: "('s \<Rightarrow> 's) \<Rightarrow> ('s, unit) prog" where
  "modify f = (\<lambda>s. (Ok (), f s))"

definition bnd :: "('s, 'a) prog \<Rightarrow> ('a \<Rightarrow> ('s, 'b) prog) \<Rightarrow> ('s, 'b) prog" where
  "bnd m f = (\<lambda>s. case m s of
      (Ok x, t) \<Rightarrow> f x t
    | (Err e, t) \<Rightarrow> (Err e, t)
    | (Panic p, t) \<Rightarrow> (Panic p, t)
    | (Stuck, t) \<Rightarrow> (Stuck, t))"

definition thn :: "('s, 'a) prog \<Rightarrow> ('s, 'b) prog \<Rightarrow> ('s, 'b) prog" where
  "thn m n = bnd m (\<lambda>_. n)"

text \<open>\<open>x, err := f()\<close> with \<open>err\<close> inspected by the caller.\<close>

definition attempt :: "('s, 'a) prog \<Rightarrow> ('s, goerror + 'a) prog" where
  "attempt m = (\<lambda>s. case m s of
      (Ok x, t) \<Rightarrow> (Ok (Inr x), t)
    | (Err e, t) \<Rightarrow> (Ok (Inl e), t)
    | (Panic p, t) \<Rightarrow> (Panic p, t)
    | (Stuck, t) \<Rightarrow> (Stuck, t))"

text \<open>\<open>_ = f()\<close>: the error is dropped, a panic is not.\<close>

definition ignore :: "('s, 'a) prog \<Rightarrow> ('s, unit) prog" where
  "ignore m = bnd (attempt m) (\<lambda>_. ret ())"

text \<open>\<open>if err := f(); err != nil { return fmt.Errorf("msg: %w", err) }\<close>.\<close>

definition wrap_err :: "string \<Rightarrow> ('s, 'a) prog \<Rightarrow> ('s, 'a) prog" where
  "wrap_err w m = (\<lambda>s. case m s of
      (Ok x, t) \<Rightarrow> (Ok x, t)
    | (Err e, t) \<Rightarrow> (Err (Wrap w e), t)
    | (Panic p, t) \<Rightarrow> (Panic p, t)
    | (Stuck, t) \<Rightarrow> (Stuck, t))"

definition when_true :: "bool \<Rightarrow> ('s, unit) prog \<Rightarrow> ('s, unit) prog" where
  "when_true c m = (if c then m else ret ())"

text \<open>\<open>defer d()\<close>: the deferred call runs when the body returns or panics; its error is lost.\<close>

definition deferring :: "('s, unit) prog \<Rightarrow> ('s, 'a) prog \<Rightarrow> ('s, 'a) prog" where
  "deferring d m = (\<lambda>s. case m s of
      (Stuck, t) \<Rightarrow> (Stuck, t)
    | (r, t) \<Rightarrow> (case d t of
         (Ok _, u) \<Rightarrow> (r, u)
       | (Err _, u) \<Rightarrow> (r, u)
       | (Panic p, u) \<Rightarrow> (Panic p, u)
       | (Stuck, u) \<Rightarrow> (Stuck, u)))"

text \<open>\<open>for _, x := range xs { ... }\<close> whose body may return an error from the function.\<close>

fun for_each :: "'a list \<Rightarrow> ('a \<Rightarrow> ('s, unit) prog) \<Rightarrow> ('s, unit) prog" where
  "for_each [] f = ret ()"
| "for_each (x # xs) f = thn (f x) (for_each xs f)"

text \<open>A range loop whose body may \<open>return\<close> a value from the function early.\<close>

fun for_find :: "'a list \<Rightarrow> ('a \<Rightarrow> ('s, 'b option) prog) \<Rightarrow> ('s, 'b option) prog" where
  "for_find [] f = ret None"
| "for_find (x # xs) f = bnd (f x) (\<lambda>r. case r of Some y \<Rightarrow> ret (Some y) | None \<Rightarrow> for_find xs f)"

lemma bnd_run [run_simps]:
  "bnd m f s = (case m s of
      (Ok x, t) \<Rightarrow> f x t
    | (Err e, t) \<Rightarrow> (Err e, t)
    | (Panic p, t) \<Rightarrow> (Panic p, t)
    | (Stuck, t) \<Rightarrow> (Stuck, t))"
  by (simp add: bnd_def)

lemmas base_run [run_simps] =
  ret_def throw_def panic_def stuck_def gets_def modify_def thn_def when_true_def
  attempt_def wrap_err_def ignore_def deferring_def

text \<open>
  The loop rule: \<open>J done s\<close> holds when the elements \<open>done\<close> have been handled, \<open>E\<close> describes the
  outcome of an iteration that leaves the loop.
\<close>

lemma for_each_rule:
  assumes run: "for_each xs f s = (r, t)"
    and start: "J [] s"
    and iter: "\<And>ys x zs s r t. xs = ys @ x # zs \<Longrightarrow> J ys s \<Longrightarrow> f x s = (r, t) \<Longrightarrow>
       (case r of Ok _ \<Rightarrow> J (ys @ [x]) t | _ \<Rightarrow> E r t)"
  shows "case r of Ok _ \<Rightarrow> J xs t | _ \<Rightarrow> E r t"
proof -
  have "case r of Ok _ \<Rightarrow> J (ys @ zs) t | _ \<Rightarrow> E r t"
    if "for_each zs f s = (r, t)" "xs = ys @ zs" "J ys s" for ys zs s
    using that
  proof (induction zs arbitrary: ys s)
    case Nil
    then show ?case by (auto simp: ret_def)
  next
    case (Cons z zs)
    obtain q u where zu: "f z s = (q, u)" by fastforce
    with iter Cons.prems have q: "case q of Ok _ \<Rightarrow> J (ys @ [z]) u | _ \<Rightarrow> E q u" by blast
    show ?case
    proof (cases q)
      case (Ok x)
      with Cons.prems zu have "for_each zs f u = (r, t)" by (simp add: thn_def bnd_def)
      moreover from q Ok have "J (ys @ [z]) u" by simp
      ultimately show ?thesis using Cons.IH [of u "ys @ [z]"] Cons.prems(2) by (cases r) simp_all
    qed (use Cons.prems zu q in \<open>auto simp: thn_def bnd_def\<close>)
  qed
  from this [of xs s "[]"] run start show ?thesis by (cases r) simp_all
qed

section \<open>Relations between the state before and the state after\<close>

definition moves :: "('s \<Rightarrow> 's \<Rightarrow> bool) \<Rightarrow> ('s, 'a) prog \<Rightarrow> bool" where
  "moves R m \<longleftrightarrow> (\<forall>s. R s (snd (m s)))"

lemma movesI: "(\<And>s. R s (snd (m s))) \<Longrightarrow> moves R m"
  by (simp add: moves_def)

lemma movesD: "moves R m \<Longrightarrow> R s (snd (m s))"
  by (simp add: moves_def)

lemma moves_result: "moves R m \<Longrightarrow> m s = (r, t) \<Longrightarrow> R s t"
  by (metis moves_def snd_conv)

lemma snd_attempt [simp]: "snd (attempt m s) = snd (m s)"
  by (auto simp: attempt_def split: prod.splits outcome.splits)

lemma snd_wrap_err [simp]: "snd (wrap_err w m s) = snd (m s)"
  by (auto simp: wrap_err_def split: prod.splits outcome.splits)

locale step_preorder =
  fixes R :: "'s \<Rightarrow> 's \<Rightarrow> bool"
  assumes R_refl: "R s s"
    and R_trans: "R s t \<Longrightarrow> R t u \<Longrightarrow> R s u"
begin

lemma moves_ret: "moves R (ret x)"
  by (simp add: moves_def ret_def R_refl)

lemma moves_throw: "moves R (throw e)"
  by (simp add: moves_def throw_def R_refl)

lemma moves_panic: "moves R (panic p)"
  by (simp add: moves_def panic_def R_refl)

lemma moves_stuck: "moves R stuck"
  by (simp add: moves_def stuck_def R_refl)

lemma moves_gets: "moves R (gets f)"
  by (simp add: moves_def gets_def R_refl)

lemma moves_modify: "(\<And>s. R s (f s)) \<Longrightarrow> moves R (modify f)"
  by (simp add: moves_def modify_def)

lemma moves_bnd:
  assumes m: "moves R m" and f: "\<And>x. moves R (f x)"
  shows "moves R (bnd m f)"
proof (rule movesI)
  fix s
  obtain r t where mt: "m s = (r, t)" by fastforce
  with m have st: "R s t" by (rule moves_result)
  have "R t (snd (f x t))" for x using f by (rule movesD)
  with st have "R s (snd (f x t))" for x by (blast intro: R_trans)
  with mt st show "R s (snd (bnd m f s))"
    by (cases r) (simp_all add: bnd_def)
qed

lemma moves_thn: "moves R m \<Longrightarrow> moves R n \<Longrightarrow> moves R (thn m n)"
  unfolding thn_def by (rule moves_bnd)

lemma moves_attempt: "moves R m \<Longrightarrow> moves R (attempt m)"
  by (simp add: moves_def)

lemma moves_ignore: "moves R m \<Longrightarrow> moves R (ignore m)"
  unfolding ignore_def by (intro moves_bnd moves_attempt moves_ret)

lemma moves_wrap_err: "moves R m \<Longrightarrow> moves R (wrap_err w m)"
  by (simp add: moves_def)

lemma moves_when_true: "(c \<Longrightarrow> moves R m) \<Longrightarrow> moves R (when_true c m)"
  by (simp add: when_true_def moves_ret)

lemma moves_deferring:
  assumes d: "moves R d" and m: "moves R m"
  shows "moves R (deferring d m)"
proof (rule movesI)
  fix s
  obtain r t where mt: "m s = (r, t)" by fastforce
  with m have st: "R s t" by (rule moves_result)
  obtain q u where du: "d t = (q, u)" by fastforce
  with d have "R t u" by (rule moves_result)
  with st have "R s u" by (rule R_trans)
  with mt du st show "R s (snd (deferring d m s))"
    by (cases r; cases q) (simp_all add: deferring_def)
qed

lemma moves_for_each: "(\<And>x. x \<in> set xs \<Longrightarrow> moves R (f x)) \<Longrightarrow> moves R (for_each xs f)"
  by (induction xs) (auto intro: moves_ret moves_thn)

lemma moves_for_find: "(\<And>x. x \<in> set xs \<Longrightarrow> moves R (f x)) \<Longrightarrow> moves R (for_find xs f)"
proof (induction xs)
  case Nil
  show ?case by (simp add: moves_ret)
next
  case (Cons x xs)
  then show ?case
    by (auto intro!: moves_bnd moves_ret split: option.split)
qed

lemma moves_if: "(c \<Longrightarrow> moves R m) \<Longrightarrow> (\<not> c \<Longrightarrow> moves R n) \<Longrightarrow> moves R (if c then m else n)"
  by simp

lemma moves_option: 
  "(x = None \<Longrightarrow> moves R m) \<Longrightarrow> (\<And>y. x = Some y \<Longrightarrow> moves R (f y)) \<Longrightarrow>
   moves R (case x of None \<Rightarrow> m | Some y \<Rightarrow> f y)"
  by (cases x) simp_all

lemma moves_sum: 
  "(\<And>y. x = Inl y \<Longrightarrow> moves R (f y)) \<Longrightarrow> (\<And>y. x = Inr y \<Longrightarrow> moves R (g y)) \<Longrightarrow>
   moves R (case x of Inl y \<Rightarrow> f y | Inr y \<Rightarrow> g y)"
  by (cases x) simp_all

lemma moves_prod: "(\<And>a b. x = (a, b) \<Longrightarrow> moves R (f a b)) \<Longrightarrow> moves R (case x of (a, b) \<Rightarrow> f a b)"
  by (cases x) simp

lemma moves_let: "moves R (f x) \<Longrightarrow> moves R (let y = x in f y)"
  by simp

lemmas moves_rules =
  moves_ret moves_throw moves_panic moves_stuck moves_gets moves_modify moves_bnd moves_thn
  moves_attempt moves_ignore moves_wrap_err moves_when_true moves_deferring moves_for_each
  moves_for_find moves_if moves_option moves_sum moves_prod moves_let

end

text \<open>A property of the state that every run keeps is the preorder of its preservation.\<close>

definition keeps :: "('s \<Rightarrow> bool) \<Rightarrow> 's \<Rightarrow> 's \<Rightarrow> bool" where
  "keeps I s t \<longleftrightarrow> (I s \<longrightarrow> I t)"

interpretation keeps: step_preorder "keeps I" for I :: "'s \<Rightarrow> bool"
  by unfold_locales (auto simp: keeps_def)

lemma keeps_result: "moves (keeps I) m \<Longrightarrow> I s \<Longrightarrow> m s = (r, t) \<Longrightarrow> I t"
  using moves_result keeps_def by metis

text \<open>The relation that leaves a projection of the state unchanged.\<close>

definition same :: "('s \<Rightarrow> 'b) \<Rightarrow> 's \<Rightarrow> 's \<Rightarrow> bool" where
  "same f s t \<longleftrightarrow> f t = f s"

interpretation same: step_preorder "same f" for f :: "'s \<Rightarrow> 'b"
  by unfold_locales (auto simp: same_def)

lemma same_result: "moves (same f) m \<Longrightarrow> m s = (r, t) \<Longrightarrow> f t = f s"
  using moves_result same_def by metis

section \<open>Go maps\<close>

text \<open>
  A Go map is an association list.  Writing a key (\<open>AList.update\<close>) replaces its entry or adds
  one, deleting (\<open>AList.delete\<close>) removes it, \<open>map_of\<close> reads it.  The list order is the
  order of iteration: Go leaves that order open, and so do the theorems, which hold for
  every order of the entries.
\<close>

type_synonym ('k, 'v) gomap = "('k \<times> 'v) list"

definition has_key :: "('k, 'v) gomap \<Rightarrow> 'k \<Rightarrow> bool" where
  "has_key m k \<longleftrightarrow> (map_of m k \<noteq> None)"

definition keys :: "('k, 'v) gomap \<Rightarrow> 'k list" where
  "keys m = map fst m"

lemma has_key_iff: "has_key m k \<longleftrightarrow> k \<in> set (keys m)"
  by (simp add: has_key_def keys_def map_of_eq_None_iff)

lemma map_of_update [simp]: "map_of (AList.update k v m) x = (if x = k then Some v else map_of m x)"
  by (simp add: update_conv')

lemma map_of_delete [simp]: "map_of (AList.delete k m) x = (if x = k then None else map_of m x)"
  by (simp add: delete_conv')

section \<open>Numbers in messages\<close>

definition digit_char :: "nat \<Rightarrow> char" where
  "digit_char d = char_of (48 + d)"

fun show_nat :: "nat \<Rightarrow> string" where
  "show_nat n = (if n < 10 then [digit_char n] else show_nat (n div 10) @ [digit_char (n mod 10)])"

declare show_nat.simps [simp del]

definition show_int :: "int \<Rightarrow> string" where
  "show_int i = (if i < 0 then CHR ''-'' # show_nat (nat (- i)) else show_nat (nat i))"

lemma digit_char_range: "d < 10 \<Longrightarrow> of_char (digit_char d) = 48 + d"
  by (simp add: digit_char_def)

lemma digit_char_inj: "a < 10 \<Longrightarrow> b < 10 \<Longrightarrow> digit_char a = digit_char b \<Longrightarrow> a = b"
  by (metis digit_char_range add_left_cancel)

lemma colon_not_digit: "d < 10 \<Longrightarrow> digit_char d \<noteq> CHR '':''"
  using digit_char_range [of d] by auto

lemma minus_not_digit: "d < 10 \<Longrightarrow> digit_char d \<noteq> CHR ''-''"
  using digit_char_range [of d] by auto

lemma show_nat_digits: "c \<in> set (show_nat n) \<Longrightarrow> \<exists>d<10. c = digit_char d"
proof (induction n rule: show_nat.induct)
  case (1 n)
  show ?case
  proof (cases "n < 10")
    case True
    with "1.prems" show ?thesis by (auto simp: show_nat.simps [of n])
  next
    case False
    with "1.prems" have "c \<in> set (show_nat (n div 10)) \<or> c = digit_char (n mod 10)"
      by (auto simp: show_nat.simps [of n])
    with False "1.IH" show ?thesis by force
  qed
qed

lemma show_nat_nonempty: "show_nat n \<noteq> []"
  by (subst show_nat.simps) simp

lemma show_nat_inj: "show_nat a = show_nat b \<Longrightarrow> a = b"
proof (induction a arbitrary: b rule: show_nat.induct)
  case (1 a)
  show ?case
  proof (cases "a < 10 \<or> b < 10")
    case True
    with "1.prems" show ?thesis
      by (auto simp: show_nat.simps [of a] show_nat.simps [of b] show_nat_nonempty
            show_nat_nonempty [symmetric]
          intro: digit_char_inj split: if_splits)
  next
    case False
    with "1.prems" have "show_nat (a div 10) = show_nat (b div 10)"
      and d: "digit_char (a mod 10) = digit_char (b mod 10)"
      by (simp_all add: show_nat.simps [of a] show_nat.simps [of b])
    with False "1.IH" have "a div 10 = b div 10" by simp
    moreover from d have "a mod 10 = b mod 10" by (intro digit_char_inj) simp_all
    ultimately show ?thesis by (metis div_mult_mod_eq)
  qed
qed

lemma colon_not_in_show_int: "CHR '':'' \<notin> set (show_int i)"
  by (auto simp: show_int_def dest!: show_nat_digits intro: colon_not_digit)
    (metis colon_not_digit)+

lemma show_int_inj: "show_int a = show_int b \<Longrightarrow> a = b"
proof -
  assume eq: "show_int a = show_int b"
  have neg: "show_nat n \<noteq> CHR ''-'' # w" for n w
    using show_nat_digits [of "CHR ''-''" n] minus_not_digit by (metis list.set_intros(1))
  from eq show "a = b"
    by (auto simp: show_int_def neg neg [symmetric] dest: show_nat_inj split: if_splits)
qed

end
