(* ===== verification/Models.thy ===== *)
theory Models
  imports Prelude
begin

text \<open>
  The data model of \<open>src/models.go\<close>: statuses, step types, workflow definitions and the
  records the store keeps (instances, steps, queue items, events, cancel requests, join
  states, human decisions, dead letters), and the JSON messages that flow between steps.

  A Go string type that the code compares with constants is a datatype with one
  constructor per constant and one for every other string.  \<open>*T\<close> is an option,
  \<open>time.Time\<close> and \<open>time.Duration\<close> are integers counting nanoseconds, \<open>int64\<close> identifiers and
  counters are integers.
\<close>

section \<open>Enumerations\<close>

datatype workflow_status =
    StatusPending | StatusRunning | StatusCompleted | StatusFailed | StatusRollingBack
  | StatusCancelling | StatusCancelled | StatusAborted | StatusDLQ

datatype step_status =
    StepStatusPending | StepStatusRunning | StepStatusCompleted | StepStatusFailed
  | StepStatusSkipped | StepStatusCompensation | StepStatusRolledBack
  | StepStatusWaitingDecision | StepStatusConfirmed | StepStatusRejected | StepStatusPaused
  | StepStatusOther string

datatype step_type =
    StepTypeTask | StepTypeParallel | StepTypeCondition | StepTypeFork | StepTypeJoin
  | StepTypeSavePoint | StepTypeHuman | StepTypeOther string

datatype join_strategy = JoinStrategyAll | JoinStrategyAny | JoinStrategyOther string

datatype human_decision =
    HumanDecisionConfirmed | HumanDecisionRejected | HumanDecisionOther string

datatype cancel_type = CancelTypeCancel | CancelTypeAbort

datatype retry_strategy =
    RetryStrategyFixed | RetryStrategyExponential | RetryStrategyLinear | RetryStrategyOther nat

definition PriorityLow :: int where "PriorityLow = 0"
definition PriorityLower :: int where "PriorityLower = 25"
definition PriorityNormal :: int where "PriorityNormal = 50"
definition PriorityHigher :: int where "PriorityHigher = 75"
definition PriorityHigh :: int where "PriorityHigh = 100"

lemmas priority_defs =
  PriorityLow_def PriorityLower_def PriorityNormal_def PriorityHigher_def PriorityHigh_def

fun workflow_status_text :: "workflow_status \<Rightarrow> string" where
  "workflow_status_text StatusPending = ''pending''"
| "workflow_status_text StatusRunning = ''running''"
| "workflow_status_text StatusCompleted = ''completed''"
| "workflow_status_text StatusFailed = ''failed''"
| "workflow_status_text StatusRollingBack = ''rolling_back''"
| "workflow_status_text StatusCancelling = ''cancelling''"
| "workflow_status_text StatusCancelled = ''cancelled''"
| "workflow_status_text StatusAborted = ''aborted''"
| "workflow_status_text StatusDLQ = ''dlq''"

fun step_status_text :: "step_status \<Rightarrow> string" where
  "step_status_text StepStatusPending = ''pending''"
| "step_status_text StepStatusRunning = ''running''"
| "step_status_text StepStatusCompleted = ''completed''"
| "step_status_text StepStatusFailed = ''failed''"
| "step_status_text StepStatusSkipped = ''skipped''"
| "step_status_text StepStatusCompensation = ''compensation''"
| "step_status_text StepStatusRolledBack = ''rolled_back''"
| "step_status_text StepStatusWaitingDecision = ''waiting_decision''"
| "step_status_text StepStatusConfirmed = ''confirmed''"
| "step_status_text StepStatusRejected = ''rejected''"
| "step_status_text StepStatusPaused = ''paused''"
| "step_status_text (StepStatusOther s) = s"

fun step_type_text :: "step_type \<Rightarrow> string" where
  "step_type_text StepTypeTask = ''task''"
| "step_type_text StepTypeParallel = ''parallel''"
| "step_type_text StepTypeCondition = ''condition''"
| "step_type_text StepTypeFork = ''fork''"
| "step_type_text StepTypeJoin = ''join''"
| "step_type_text StepTypeSavePoint = ''save_point''"
| "step_type_text StepTypeHuman = ''human''"
| "step_type_text (StepTypeOther s) = s"

fun join_strategy_text :: "join_strategy \<Rightarrow> string" where
  "join_strategy_text JoinStrategyAll = ''all''"
| "join_strategy_text JoinStrategyAny = ''any''"
| "join_strategy_text (JoinStrategyOther s) = s"

fun human_decision_text :: "human_decision \<Rightarrow> string" where
  "human_decision_text HumanDecisionConfirmed = ''confirmed''"
| "human_decision_text HumanDecisionRejected = ''rejected''"
| "human_decision_text (HumanDecisionOther s) = s"

fun cancel_type_text :: "cancel_type \<Rightarrow> string" where
  "cancel_type_text CancelTypeCancel = ''cancel''"
| "cancel_type_text CancelTypeAbort = ''abort''"

section \<open>JSON messages\<close>

text \<open>
  A \<open>json.RawMessage\<close> is empty, a text that is not JSON, or a JSON document, which stands for
  every text that parses to it; \<open>JTime\<close> is the RFC 3339 string of a point in time.
\<close>

datatype json =
    JNull
  | JBool bool
  | JInt int
  | JNumber string
  | JString string
  | JTime int
  | JArray "json list"
  | JObject "(string \<times> json) list"

datatype raw = RawNil | RawText string | RawJSON json

text \<open>
  \<open>json.Unmarshal(raw, &m)\<close> with \<open>m map[string]any\<close>.  The document \<open>null\<close> is accepted and leaves
  the map nil (\<open>None\<close>); anything but an object or \<open>null\<close> is an error.
\<close>

fun unmarshal_map :: "raw \<Rightarrow> goerror + (string, json) gomap option" where
  "unmarshal_map (RawJSON (JObject kvs)) = Inr (Some kvs)"
| "unmarshal_map (RawJSON JNull) = Inr None"
| "unmarshal_map (RawJSON _) = Inl (Errorf ''json: cannot unmarshal into map'')"
| "unmarshal_map RawNil = Inl (Errorf ''unexpected end of JSON input'')"
| "unmarshal_map (RawText _) = Inl (Errorf ''invalid character'')"

text \<open>
  How a raw message is encoded inside another document: a nil message is \<open>null\<close>, a text that
  is not JSON makes the encoder fail.
\<close>

fun marshal_raw :: "raw \<Rightarrow> goerror + json" where
  "marshal_raw RawNil = Inr JNull"
| "marshal_raw (RawText _) = Inl (Errorf ''json: error calling MarshalJSON for type json.RawMessage'')"
| "marshal_raw (RawJSON j) = Inr j"

fun marshal_raw_map :: "(string \<times> raw) list \<Rightarrow> goerror + (string \<times> json) list" where
  "marshal_raw_map [] = Inr []"
| "marshal_raw_map ((k, r) # rs) =
     (case marshal_raw r of
        Inl e \<Rightarrow> Inl e
      | Inr j \<Rightarrow> (case marshal_raw_map rs of Inl e \<Rightarrow> Inl e | Inr js \<Rightarrow> Inr ((k, j) # js)))"

definition json_strings :: "string list \<Rightarrow> json" where
  "json_strings xs = JArray (map JString xs)"

section \<open>Workflow definitions\<close>

record step_definition =
  sd_Name :: string
  sd_Type :: step_type
  sd_Handler :: string
  sd_MaxRetries :: int
  sd_Next :: "string list"
  sd_Prev :: string
  sd_Else :: string
  sd_OnFailure :: string
  sd_Condition :: string
  sd_Parallel :: "string list"
  sd_WaitFor :: "string list"
  sd_JoinStrategy :: join_strategy
  sd_Metadata :: "(string, json) gomap"
  sd_NoIdempotent :: bool
  sd_Delay :: int
  sd_RetryDelay :: int
  sd_RetryStrategy :: retry_strategy
  sd_Timeout :: int

type_synonym steps_map = "(string, step_definition) gomap"

record graph_definition =
  gd_Steps :: steps_map
  gd_Start :: string
  gd_DLQEnabled :: bool

record workflow_definition =
  wd_ID :: string
  wd_Name :: string
  wd_Version :: int
  wd_Definition :: graph_definition
  wd_CreatedAt :: int

abbreviation def_steps :: "workflow_definition \<Rightarrow> steps_map" where
  "def_steps d \<equiv> gd_Steps (wd_Definition d)"

abbreviation def_start :: "workflow_definition \<Rightarrow> string" where
  "def_start d \<equiv> gd_Start (wd_Definition d)"

text \<open>The zero value of \<open>StepDefinition\<close>, which a composite literal starts from.\<close>

definition zero_step :: step_definition where
  "zero_step = \<lparr>sd_Name = [], sd_Type = StepTypeOther [], sd_Handler = [], sd_MaxRetries = 0,
     sd_Next = [], sd_Prev = [], sd_Else = [], sd_OnFailure = [], sd_Condition = [],
     sd_Parallel = [], sd_WaitFor = [], sd_JoinStrategy = JoinStrategyOther [], sd_Metadata = [],
     sd_NoIdempotent = False, sd_Delay = 0, sd_RetryDelay = 0,
     sd_RetryStrategy = RetryStrategyFixed, sd_Timeout = 0\<rparr>"

section \<open>Runtime records\<close>

record workflow_instance =
  wi_ID :: int
  wi_WorkflowID :: string
  wi_Status :: workflow_status
  wi_Input :: raw
  wi_Output :: raw
  wi_Error :: "string option"
  wi_StartedAt :: "int option"
  wi_CompletedAt :: "int option"
  wi_CreatedAt :: int
  wi_UpdatedAt :: int

record workflow_step =
  ws_ID :: int
  ws_InstanceID :: int
  ws_StepName :: string
  ws_StepType :: step_type
  ws_Status :: step_status
  ws_Input :: raw
  ws_Output :: raw
  ws_Error :: "string option"
  ws_RetryCount :: int
  ws_MaxRetries :: int
  ws_CompensationRetryCount :: int
  ws_IdempotencyKey :: string
  ws_StartedAt :: "int option"
  ws_CompletedAt :: "int option"
  ws_CreatedAt :: int

text \<open>The composite literal with which the engine creates every step.\<close>

definition new_step :: "int \<Rightarrow> string \<Rightarrow> step_type \<Rightarrow> step_status \<Rightarrow> raw \<Rightarrow> int \<Rightarrow> workflow_step" where
  "new_step iid name ty st inp maxr =
     \<lparr>ws_ID = 0, ws_InstanceID = iid, ws_StepName = name, ws_StepType = ty, ws_Status = st,
      ws_Input = inp, ws_Output = RawNil, ws_Error = None, ws_RetryCount = 0,
      ws_MaxRetries = maxr, ws_CompensationRetryCount = 0, ws_IdempotencyKey = [],
      ws_StartedAt = None, ws_CompletedAt = None, ws_CreatedAt = 0\<rparr>"

record queue_item =
  qi_ID :: int
  qi_InstanceID :: int
  qi_StepID :: "int option"
  qi_ScheduledAt :: int
  qi_AttemptedAt :: "int option"
  qi_AttemptedBy :: "string option"
  qi_Priority :: int

record workflow_event =
  we_ID :: int
  we_InstanceID :: int
  we_StepID :: "int option"
  we_EventType :: string
  we_Payload :: json
  we_CreatedAt :: int

record cancel_request =
  cr_ID :: int
  cr_InstanceID :: int
  cr_RequestedBy :: string
  cr_CancelType :: cancel_type
  cr_Reason :: "string option"
  cr_CreatedAt :: int

record join_state =
  js_InstanceID :: int
  js_JoinStepName :: string
  js_WaitingFor :: "string list"
  js_Completed :: "string list"
  js_Failed :: "string list"
  js_JoinStrategy :: join_strategy
  js_IsReady :: bool
  js_CreatedAt :: int
  js_UpdatedAt :: int

record human_decision_record =
  hd_ID :: int
  hd_InstanceID :: int
  hd_StepID :: int
  hd_DecidedBy :: string
  hd_Decision :: human_decision
  hd_Comment :: "string option"
  hd_DecidedAt :: int
  hd_CreatedAt :: int

record dead_letter_record =
  dl_ID :: int
  dl_InstanceID :: int
  dl_WorkflowID :: string
  dl_StepID :: int
  dl_StepName :: string
  dl_StepType :: string
  dl_Input :: raw
  dl_Error :: "string option"
  dl_Reason :: string
  dl_CreatedAt :: int

record summary_stats =
  ss_TotalWorkflows :: nat
  ss_CompletedWorkflows :: nat
  ss_FailedWorkflows :: nat
  ss_RunningWorkflows :: nat
  ss_PendingWorkflows :: nat
  ss_ActiveWorkflows :: nat

record active_instance =
  ai_ID :: int
  ai_WorkflowID :: string
  ai_WorkflowName :: string
  ai_Status :: string
  ai_StartedAt :: int
  ai_UpdatedAt :: int
  ai_CurrentStep :: string
  ai_TotalSteps :: int
  ai_CompletedSteps :: int
  ai_RolledBackSteps :: int

record workflow_stats =
  wst_WorkflowName :: string
  wst_Version :: int
  wst_TotalInstances :: int
  wst_CompletedInstances :: int
  wst_FailedInstances :: int
  wst_RunningInstances :: int
  wst_AverageDuration :: int

record human_waiting_event =
  hw_InstanceID :: int
  hw_OutputData :: raw

section \<open>Texts of the enumerations\<close>

text \<open>The constants of an enumeration are pairwise different strings.\<close>

lemma workflow_status_text_inj: "workflow_status_text a = workflow_status_text b \<Longrightarrow> a = b"
  by (cases a; cases b) simp_all

end
