(* ===== verification/Memory_Store.thy ===== *)
theory Memory_Store
  imports Models Complex_Main
begin

text \<open>
  The in-memory implementation of the \<open>Store\<close> interface, \<open>src/memory_store.go\<close>: its state
  and one definition per operation.

  The record \<open>memory_store\<close> has the fields of the Go struct (less its mutex) and three
  that stand for the outside world: \<open>ms_clock\<close>, what the next \<open>time.Now()\<close> returns (the clock
  moves on by at least a nanosecond between two readings), and \<open>ms_uuid\<close>/\<open>ms_uuidCount\<close>, the stream
  of strings that \<open>uuid.NewString()\<close> returns.  The record is extensible: the engine state
  extends it, so the store operations act on the engine state as they are.

  Operations run one at a time, as the mutex makes them.  A call that takes the mutex while
  its own goroutine holds it never returns: \<open>stuck\<close>.
\<close>

record memory_store =
  ms_definitions :: "(string, workflow_definition) gomap"
  ms_instances :: "(int, workflow_instance) gomap"
  ms_steps :: "(int, workflow_step) gomap"
  ms_stepsByInstance :: "(int, int list) gomap"
  ms_queue :: "(int, queue_item) gomap"
  ms_events :: "workflow_event list"
  ms_eventsByInstance :: "(int, int list) gomap"
  ms_joinStates :: "(string, join_state) gomap"
  ms_cancelRequests :: "(int, cancel_request) gomap"
  ms_humanDecisions :: "(int, human_decision_record) gomap"
  ms_deadLetters :: "(int, dead_letter_record) gomap"
  ms_nextInstanceID :: int
  ms_nextStepID :: int
  ms_nextQueueID :: int
  ms_nextEventID :: int
  ms_nextCancelRequestID :: int
  ms_nextHumanDecisionID :: int
  ms_nextDeadLetterID :: int
  ms_agingEnabled :: bool
  ms_agingRate :: rat
  ms_clock :: int
  ms_uuid :: "nat \<Rightarrow> string"
  ms_uuidCount :: nat

type_synonym ('x, 'a) sprog = "('x memory_store_scheme, 'a) prog"

definition NewMemoryStore :: "int \<Rightarrow> (nat \<Rightarrow> string) \<Rightarrow> memory_store" where
  "NewMemoryStore now uuids =
     \<lparr>ms_definitions = [], ms_instances = [], ms_steps = [], ms_stepsByInstance = [],
      ms_queue = [], ms_events = [], ms_eventsByInstance = [], ms_joinStates = [],
      ms_cancelRequests = [], ms_humanDecisions = [], ms_deadLetters = [],
      ms_nextInstanceID = 1, ms_nextStepID = 1, ms_nextQueueID = 1, ms_nextEventID = 1,
      ms_nextCancelRequestID = 1, ms_nextHumanDecisionID = 1, ms_nextDeadLetterID = 1,
      ms_agingEnabled = True, ms_agingRate = 1 / 2,
      ms_clock = now, ms_uuid = uuids, ms_uuidCount = 0\<rparr>"

section \<open>The outside world\<close>

definition time_now :: "('x, int) sprog" where
  "time_now s = (Ok (ms_clock s), s\<lparr>ms_clock := ms_clock s + 1\<rparr>)"

definition new_uuid :: "('x, string) sprog" where
  "new_uuid s = (Ok (ms_uuid s (ms_uuidCount s)), s\<lparr>ms_uuidCount := Suc (ms_uuidCount s)\<rparr>)"

text \<open>\<open>xs[lo:hi]\<close>: out of range bounds panic.\<close>

definition go_slice :: "'a list \<Rightarrow> int \<Rightarrow> int \<Rightarrow> ('s, 'a list) prog" where
  "go_slice xs lo hi =
     (if 0 \<le> lo \<and> lo \<le> hi \<and> hi \<le> int (length xs)
      then ret (take (nat (hi - lo)) (drop (nat lo) xs))
      else panic ''slice bounds out of range'')"

section \<open>Aging controls and workflow definitions\<close>

definition SetAgingEnabled :: "bool \<Rightarrow> ('x, unit) sprog" where
  "SetAgingEnabled enabled = modify (\<lambda>s. s\<lparr>ms_agingEnabled := enabled\<rparr>)"

definition SetAgingRate :: "rat \<Rightarrow> ('x, unit) sprog" where
  "SetAgingRate rate = modify (\<lambda>s. s\<lparr>ms_agingRate := rate\<rparr>)"

definition put_definition :: "workflow_definition \<Rightarrow> ('x, unit) sprog" where
  "put_definition def =
     modify (\<lambda>s. s\<lparr>ms_definitions := AList.update (wd_ID def) def (ms_definitions s)\<rparr>)"

definition SaveWorkflowDefinition :: "workflow_definition \<Rightarrow> ('x, unit) sprog" where
  "SaveWorkflowDefinition def =
     bnd (gets ms_definitions) (\<lambda>defs.
     case map_of defs (wd_ID def) of
       Some existing \<Rightarrow>
         put_definition (def\<lparr>wd_ID := wd_ID existing, wd_CreatedAt := wd_CreatedAt existing\<rparr>)
     | None \<Rightarrow>
         bnd (if wd_ID def = [] then new_uuid else ret (wd_ID def)) (\<lambda>ident.
         bnd time_now (\<lambda>now.
         put_definition (def\<lparr>wd_ID := ident, wd_CreatedAt := now\<rparr>))))"

definition GetWorkflowDefinition :: "string \<Rightarrow> ('x, workflow_definition) sprog" where
  "GetWorkflowDefinition ident =
     bnd (gets ms_definitions) (\<lambda>defs.
     case map_of defs ident of
       None \<Rightarrow> throw ErrEntityNotFound
     | Some def \<Rightarrow> ret def)"

section \<open>Instances\<close>

definition put_instance :: "workflow_instance \<Rightarrow> ('x, unit) sprog" where
  "put_instance i =
     modify (\<lambda>s. s\<lparr>ms_instances := AList.update (wi_ID i) i (ms_instances s)\<rparr>)"

definition CreateInstance :: "string \<Rightarrow> raw \<Rightarrow> ('x, workflow_instance) sprog" where
  "CreateInstance workflowID input =
     bnd time_now (\<lambda>now.
     bnd (gets ms_nextInstanceID) (\<lambda>ident.
     let inst = \<lparr>wi_ID = ident, wi_WorkflowID = workflowID, wi_Status = StatusPending,
       wi_Input = input, wi_Output = RawNil, wi_Error = None, wi_StartedAt = None,
       wi_CompletedAt = None, wi_CreatedAt = now, wi_UpdatedAt = now\<rparr>
     in thn (put_instance inst)
       (thn (modify (\<lambda>s. s\<lparr>ms_nextInstanceID := ms_nextInstanceID s + 1\<rparr>))
       (ret inst))))"

definition GetInstance :: "int \<Rightarrow> ('x, workflow_instance) sprog" where
  "GetInstance instanceID =
     bnd (gets ms_instances) (\<lambda>is.
     case map_of is instanceID of
       None \<Rightarrow> throw ErrEntityNotFound
     | Some i \<Rightarrow> ret i)"

definition UpdateInstanceStatus ::
  "int \<Rightarrow> workflow_status \<Rightarrow> raw \<Rightarrow> string option \<Rightarrow> ('x, unit) sprog" where
  "UpdateInstanceStatus instanceID status output errMsg =
     bnd (GetInstance instanceID) (\<lambda>i0.
     bnd time_now (\<lambda>t1.
     let i1 = i0\<lparr>wi_Status := status, wi_Output := output, wi_Error := errMsg, wi_UpdatedAt := t1\<rparr>
     in
     bnd (if status = StatusCompleted \<or> status = StatusFailed \<or> status = StatusCancelled
          then bnd time_now (\<lambda>t2. ret (i1\<lparr>wi_CompletedAt := Some t2\<rparr>))
          else ret i1) (\<lambda>i2.
     bnd (if wi_StartedAt i2 = None \<and> status = StatusRunning
          then bnd time_now (\<lambda>t3. ret (i2\<lparr>wi_StartedAt := Some t3\<rparr>))
          else ret i2) (\<lambda>i3.
     modify (\<lambda>s. s\<lparr>ms_instances := AList.update instanceID i3 (ms_instances s)\<rparr>)))))"

section \<open>Steps\<close>

definition CreateStep :: "workflow_step \<Rightarrow> ('x, workflow_step) sprog" where
  "CreateStep st0 =
     bnd (if ws_IdempotencyKey st0 = [] then new_uuid else ret (ws_IdempotencyKey st0)) (\<lambda>key.
     bnd (gets ms_nextStepID) (\<lambda>ident.
     bnd time_now (\<lambda>now.
     let st = st0\<lparr>ws_IdempotencyKey := key, ws_ID := ident, ws_CreatedAt := now\<rparr>
     in thn (modify (\<lambda>s. s\<lparr>ms_nextStepID := ms_nextStepID s + 1,
          ms_steps := AList.update ident st (ms_steps s),
          ms_stepsByInstance := AList.update (ws_InstanceID st)
             ((case map_of (ms_stepsByInstance s) (ws_InstanceID st) of
                 None \<Rightarrow> [] | Some ids \<Rightarrow> ids) @ [ident]) (ms_stepsByInstance s)\<rparr>))
        (ret st))))"

definition GetStepByID :: "int \<Rightarrow> ('x, workflow_step) sprog" where
  "GetStepByID stepID =
     bnd (gets ms_steps) (\<lambda>sts.
     case map_of sts stepID of
       None \<Rightarrow> throw ErrEntityNotFound
     | Some st \<Rightarrow> ret st)"

definition put_step :: "int \<Rightarrow> workflow_step \<Rightarrow> ('x, unit) sprog" where
  "put_step stepID st = modify (\<lambda>s. s\<lparr>ms_steps := AList.update stepID st (ms_steps s)\<rparr>)"

definition UpdateStep :: "int \<Rightarrow> step_status \<Rightarrow> raw \<Rightarrow> string option \<Rightarrow> ('x, unit) sprog" where
  "UpdateStep stepID status output errMsg =
     bnd (GetStepByID stepID) (\<lambda>st0.
     bnd time_now (\<lambda>now.
     let st1 = st0\<lparr>ws_Status := status, ws_Output := output, ws_Error := errMsg\<rparr>;
         st2 = (if status = StepStatusCompleted \<or> status = StepStatusFailed \<or> status = StepStatusSkipped
                then st1\<lparr>ws_CompletedAt := Some now\<rparr> else st1);
         st3 = (if ws_StartedAt st2 = None \<and> status = StepStatusRunning
                then st2\<lparr>ws_StartedAt := Some now\<rparr> else st2);
         st4 = (if status = StepStatusFailed
                then st3\<lparr>ws_RetryCount := ws_RetryCount st3 + 1\<rparr> else st3)
     in put_step stepID st4))"

definition UpdateStepStatus :: "int \<Rightarrow> step_status \<Rightarrow> ('x, unit) sprog" where
  "UpdateStepStatus stepID status =
     bnd (GetStepByID stepID) (\<lambda>st. put_step stepID (st\<lparr>ws_Status := status\<rparr>))"

definition UpdateStepCompensationRetry :: "int \<Rightarrow> int \<Rightarrow> step_status \<Rightarrow> ('x, unit) sprog" where
  "UpdateStepCompensationRetry stepID retryCount status =
     bnd (GetStepByID stepID) (\<lambda>st.
     put_step stepID (st\<lparr>ws_CompensationRetryCount := retryCount, ws_Status := status\<rparr>))"

text \<open>The steps listed for an instance that exist, in creation order of the list.\<close>

definition steps_of :: "'x memory_store_scheme \<Rightarrow> int \<Rightarrow> workflow_step list" where
  "steps_of s instanceID =
     List.map_filter (map_of (ms_steps s))
       (case map_of (ms_stepsByInstance s) instanceID of None \<Rightarrow> [] | Some ids \<Rightarrow> ids)"

definition GetStepsByInstance :: "int \<Rightarrow> ('x, workflow_step list) sprog" where
  "GetStepsByInstance instanceID = gets (\<lambda>s. sort_key ws_CreatedAt (steps_of s instanceID))"

definition GetWorkflowSteps :: "int \<Rightarrow> ('x, workflow_step list) sprog" where
  "GetWorkflowSteps instanceID = GetStepsByInstance instanceID"

definition step_is_active :: "workflow_step \<Rightarrow> bool" where
  "step_is_active st \<longleftrightarrow> ws_Status st = StepStatusPending \<or> ws_Status st = StepStatusRunning \<or>
     ws_Status st = StepStatusWaitingDecision"

definition GetActiveStepsForUpdate :: "int \<Rightarrow> ('x, workflow_step list) sprog" where
  "GetActiveStepsForUpdate instanceID =
     gets (\<lambda>s. sort_key (\<lambda>st. - ws_CreatedAt st) (filter step_is_active (steps_of s instanceID)))"

definition GetHumanDecisionStepByInstanceID :: "int \<Rightarrow> ('x, workflow_step) sprog" where
  "GetHumanDecisionStepByInstanceID instanceID =
     bnd (gets (\<lambda>s. find (\<lambda>st. ws_StepType st = StepTypeHuman) (rev (steps_of s instanceID)))) (\<lambda>r.
     case r of None \<Rightarrow> throw ErrEntityNotFound | Some st \<Rightarrow> ret st)"

section \<open>The queue\<close>

definition EnqueueStep :: "int \<Rightarrow> int option \<Rightarrow> int \<Rightarrow> int \<Rightarrow> ('x, unit) sprog" where
  "EnqueueStep instanceID stepID priority delay =
     bnd time_now (\<lambda>now.
     modify (\<lambda>s.
       let item = \<lparr>qi_ID = ms_nextQueueID s, qi_InstanceID = instanceID, qi_StepID = stepID,
             qi_ScheduledAt = now + delay, qi_AttemptedAt = None, qi_AttemptedBy = None,
             qi_Priority = priority\<rparr>
       in s\<lparr>ms_queue := AList.update (qi_ID item) item (ms_queue s),
            ms_nextQueueID := ms_nextQueueID s + 1\<rparr>))"

text \<open>
  \<open>int(float64(priority) + waitTime*rate)\<close> truncates toward zero; the waiting time is in seconds.
  The floating-point operations are taken without rounding.
\<close>

definition trunc_rat :: "rat \<Rightarrow> int" where
  "trunc_rat r = (if 0 \<le> r then \<lfloor>r\<rfloor> else \<lceil>r\<rceil>)"

definition effective_priority :: "bool \<Rightarrow> rat \<Rightarrow> int \<Rightarrow> queue_item \<Rightarrow> int" where
  "effective_priority agingEnabled agingRate now item =
     (if agingEnabled \<and> agingRate > 0 then
        (let p = trunc_rat (of_int (qi_Priority item)
                   + (of_int (now - qi_ScheduledAt item) / 1000000000) * agingRate)
         in if p > 100 then 100 else p)
      else qi_Priority item)"

definition eligible :: "int \<Rightarrow> queue_item \<Rightarrow> bool" where
  "eligible now item \<longleftrightarrow> qi_AttemptedAt item = None \<and> \<not> now < qi_ScheduledAt item"

text \<open>One turn of the selection loop; its variables are \<open>selectedItem\<close> and \<open>maxPriority\<close>.\<close>

definition dequeue_turn :: "(queue_item \<Rightarrow> int) \<Rightarrow> int \<Rightarrow> queue_item \<Rightarrow>
    queue_item option \<times> int \<Rightarrow> queue_item option \<times> int" where
  "dequeue_turn prio now item acc =
     (if \<not> eligible now item then acc
      else let (sel, maxP) = acc; p = prio item in
        if p > maxP \<or>
           (p = maxP \<and> (case sel of None \<Rightarrow> False | Some b \<Rightarrow> qi_ScheduledAt item < qi_ScheduledAt b))
        then (Some item, p) else acc)"

definition dequeue_select :: "(queue_item \<Rightarrow> int) \<Rightarrow> int \<Rightarrow> queue_item list \<Rightarrow> queue_item option" where
  "dequeue_select prio now items = fst (fold (dequeue_turn prio now) items (None, -1))"

definition DequeueStep :: "string \<Rightarrow> ('x, queue_item option) sprog" where
  "DequeueStep workerID =
     bnd time_now (\<lambda>now.
     bnd (gets (\<lambda>s. dequeue_select (effective_priority (ms_agingEnabled s) (ms_agingRate s) now) now
                      (map snd (ms_queue s)))) (\<lambda>sel.
     case sel of
       None \<Rightarrow> ret None
     | Some item \<Rightarrow>
         let item' = item\<lparr>qi_AttemptedAt := Some now, qi_AttemptedBy := Some workerID\<rparr>
         in thn (modify (\<lambda>s. s\<lparr>ms_queue := AList.update (qi_ID item) item' (ms_queue s)\<rparr>))
            (ret (Some item'))))"

definition RemoveFromQueue :: "int \<Rightarrow> ('x, unit) sprog" where
  "RemoveFromQueue queueID = modify (\<lambda>s. s\<lparr>ms_queue := AList.delete queueID (ms_queue s)\<rparr>)"

definition ReleaseQueueItem :: "int \<Rightarrow> ('x, unit) sprog" where
  "ReleaseQueueItem queueID =
     bnd (gets ms_queue) (\<lambda>q.
     case map_of q queueID of
       None \<Rightarrow> throw ErrEntityNotFound
     | Some item \<Rightarrow> modify (\<lambda>s. s\<lparr>ms_queue := AList.update queueID
           (item\<lparr>qi_AttemptedAt := None, qi_AttemptedBy := None\<rparr>) (ms_queue s)\<rparr>))"

definition RescheduleAndReleaseQueueItem :: "int \<Rightarrow> int \<Rightarrow> ('x, unit) sprog" where
  "RescheduleAndReleaseQueueItem queueID delay =
     bnd (gets ms_queue) (\<lambda>q.
     case map_of q queueID of
       None \<Rightarrow> throw ErrEntityNotFound
     | Some item \<Rightarrow>
         bnd time_now (\<lambda>now.
         let newScheduledAt = (if now + delay < qi_ScheduledAt item then qi_ScheduledAt item
                               else now + delay)
         in modify (\<lambda>s. s\<lparr>ms_queue := AList.update queueID
              (item\<lparr>qi_ScheduledAt := newScheduledAt, qi_AttemptedAt := None,
                    qi_AttemptedBy := None\<rparr>) (ms_queue s)\<rparr>)))"

section \<open>Events\<close>

text \<open>The payload is what \<open>json.Marshal\<close> makes of it: a document or an error.\<close>

definition LogEvent :: "int \<Rightarrow> int option \<Rightarrow> string \<Rightarrow> goerror + json \<Rightarrow> ('x, unit) sprog" where
  "LogEvent instanceID stepID eventType payload =
     (case payload of
        Inl e \<Rightarrow> throw e
      | Inr doc \<Rightarrow>
          bnd time_now (\<lambda>now.
          modify (\<lambda>s.
            let ev = \<lparr>we_ID = ms_nextEventID s, we_InstanceID = instanceID, we_StepID = stepID,
                  we_EventType = eventType, we_Payload = doc, we_CreatedAt = now\<rparr>
            in s\<lparr>ms_events := ms_events s @ [ev],
                 ms_eventsByInstance := AList.update instanceID
                   ((case map_of (ms_eventsByInstance s) instanceID of
                       None \<Rightarrow> [] | Some ids \<Rightarrow> ids) @ [we_ID ev]) (ms_eventsByInstance s),
                 ms_nextEventID := ms_nextEventID s + 1\<rparr>)))"

definition GetWorkflowEvents :: "int \<Rightarrow> ('x, workflow_event list) sprog" where
  "GetWorkflowEvents instanceID =
     gets (\<lambda>s. sort_key we_CreatedAt
       (List.map_filter (\<lambda>ident. find (\<lambda>ev. we_ID ev = ident) (ms_events s))
         (case map_of (ms_eventsByInstance s) instanceID of None \<Rightarrow> [] | Some ids \<Rightarrow> ids)))"

end
