(* ===== verification/Join_State.thy ===== *)
theory Join_State
  imports Memory_Store
begin

text \<open>
  The join states of the memory store (\<open>src/memory_store.go\<close>): creation, the bookkeeping of
  completed and failed branches, the two operations that change what a join waits for, and
  the readiness rule.

  A join state keeps its lists by value here.  In the memory store they are slices, and \<open>WaitingFor\<close>
  is the very slice the caller passed; the theory \<open>Slice_Joins\<close> models the arrays behind them, shows
  that the two agree while no array is shared, and what happens when one is.
\<close>

definition joinStateKey :: "int \<Rightarrow> string \<Rightarrow> string" where
  "joinStateKey instanceID joinStepName = show_int instanceID @ '':'' @ joinStepName"

definition checkJoinReady :: "string list \<Rightarrow> string list \<Rightarrow> string list \<Rightarrow> join_strategy \<Rightarrow> bool" where
  "checkJoinReady waitingFor completed failed strategy =
     (if strategy = JoinStrategyAny then length completed > 0 \<or> length failed > 0
      else length completed + length failed \<ge> length waitingFor)"

definition put_join :: "string \<Rightarrow> join_state \<Rightarrow> ('x, unit) sprog" where
  "put_join key js = modify (\<lambda>s. s\<lparr>ms_joinStates := AList.update key js (ms_joinStates s)\<rparr>)"

definition CreateJoinState :: "int \<Rightarrow> string \<Rightarrow> string list \<Rightarrow> join_strategy \<Rightarrow> ('x, unit) sprog" where
  "CreateJoinState instanceID joinStepName waitingFor strategy0 =
     bnd (gets ms_joinStates) (\<lambda>js.
     if has_key js (joinStateKey instanceID joinStepName) then ret ()
     else
       let strategy = (if strategy0 = JoinStrategyOther [] then JoinStrategyAll else strategy0)
       in bnd time_now (\<lambda>now.
          put_join (joinStateKey instanceID joinStepName)
            \<lparr>js_InstanceID = instanceID, js_JoinStepName = joinStepName, js_WaitingFor = waitingFor,
             js_Completed = [], js_Failed = [], js_JoinStrategy = strategy, js_IsReady = False,
             js_CreatedAt = now, js_UpdatedAt = now\<rparr>))"

text \<open>The two branches of \<open>UpdateJoinState\<close>: add once to one list, drop the first occurrence in the other.\<close>

definition mark_success :: "string \<Rightarrow> join_state \<Rightarrow> join_state" where
  "mark_success completedStep js =
     js\<lparr>js_Completed := (if completedStep \<in> set (js_Completed js) then js_Completed js
                         else js_Completed js @ [completedStep]),
        js_Failed := remove1 completedStep (js_Failed js)\<rparr>"

definition mark_failure :: "string \<Rightarrow> join_state \<Rightarrow> join_state" where
  "mark_failure completedStep js =
     js\<lparr>js_Failed := (if completedStep \<in> set (js_Failed js) then js_Failed js
                      else js_Failed js @ [completedStep]),
        js_Completed := remove1 completedStep (js_Completed js)\<rparr>"

definition refresh_ready :: "int \<Rightarrow> join_state \<Rightarrow> join_state" where
  "refresh_ready now js =
     js\<lparr>js_IsReady := checkJoinReady (js_WaitingFor js) (js_Completed js) (js_Failed js) (js_JoinStrategy js),
        js_UpdatedAt := now\<rparr>"

definition UpdateJoinState :: "int \<Rightarrow> string \<Rightarrow> string \<Rightarrow> bool \<Rightarrow> ('x, bool) sprog" where
  "UpdateJoinState instanceID joinStepName completedStep success =
     bnd (gets ms_joinStates) (\<lambda>m.
     case map_of m (joinStateKey instanceID joinStepName) of
       None \<Rightarrow> throw ErrEntityNotFound
     | Some js \<Rightarrow>
         bnd time_now (\<lambda>now.
         let js' = refresh_ready now
               (if success then mark_success completedStep js else mark_failure completedStep js)
         in thn (put_join (joinStateKey instanceID joinStepName) js') (ret (js_IsReady js'))))"

definition GetJoinState :: "int \<Rightarrow> string \<Rightarrow> ('x, join_state) sprog" where
  "GetJoinState instanceID joinStepName =
     bnd (gets ms_joinStates) (\<lambda>m.
     case map_of m (joinStateKey instanceID joinStepName) of
       None \<Rightarrow> throw ErrEntityNotFound
     | Some js \<Rightarrow> ret js)"

text \<open>
  Both operations below hold the store's mutex when they call \<open>CreateJoinState\<close>, which takes it
  again: with no join state yet, the call blocks for ever.
\<close>

definition AddToJoinWaitFor :: "int \<Rightarrow> string \<Rightarrow> string \<Rightarrow> ('x, unit) sprog" where
  "AddToJoinWaitFor instanceID joinStepName stepToAdd =
     bnd (gets ms_joinStates) (\<lambda>m.
     case map_of m (joinStateKey instanceID joinStepName) of
       None \<Rightarrow> stuck
     | Some js \<Rightarrow>
         if stepToAdd \<in> set (js_WaitingFor js) then ret ()
         else bnd time_now (\<lambda>now.
           put_join (joinStateKey instanceID joinStepName)
             (refresh_ready now (js\<lparr>js_WaitingFor := js_WaitingFor js @ [stepToAdd]\<rparr>))))"

fun replace_first :: "'a \<Rightarrow> 'a \<Rightarrow> 'a list \<Rightarrow> 'a list option" where
  "replace_first x y [] = None"
| "replace_first x y (z # zs) =
     (if z = x then Some (y # zs) else map_option (Cons z) (replace_first x y zs))"

definition replace_or_append :: "string \<Rightarrow> string \<Rightarrow> string list \<Rightarrow> string list" where
  "replace_or_append virtualStep realStep ws =
     (case replace_first virtualStep realStep ws of Some ws' \<Rightarrow> ws' | None \<Rightarrow> ws @ [realStep])"

text \<open>
  The status of the first listed step with the given name decides which list it goes to, unless
  it is in one already.
\<close>

definition absorb_status :: "string \<Rightarrow> workflow_step list \<Rightarrow> join_state \<Rightarrow> join_state" where
  "absorb_status realStep sts js =
     (case find (\<lambda>st. ws_StepName st = realStep) sts of
        None \<Rightarrow> js
      | Some st \<Rightarrow>
          if realStep \<in> set (js_Completed js) \<or> realStep \<in> set (js_Failed js) then js
          else if ws_Status st = StepStatusCompleted
            then js\<lparr>js_Completed := js_Completed js @ [realStep]\<rparr>
          else if ws_Status st = StepStatusFailed \<or> ws_Status st = StepStatusRolledBack
            then js\<lparr>js_Failed := js_Failed js @ [realStep]\<rparr>
          else js)"

definition ReplaceInJoinWaitFor :: "int \<Rightarrow> string \<Rightarrow> string \<Rightarrow> string \<Rightarrow> ('x, unit) sprog" where
  "ReplaceInJoinWaitFor instanceID joinStepName virtualStep realStep =
     bnd (gets ms_joinStates) (\<lambda>m.
     case map_of m (joinStateKey instanceID joinStepName) of
       None \<Rightarrow> stuck
     | Some js \<Rightarrow>
         bnd (gets (\<lambda>s. steps_of s instanceID)) (\<lambda>sts.
         bnd time_now (\<lambda>now.
         put_join (joinStateKey instanceID joinStepName)
           (refresh_ready now (absorb_status realStep sts
             (js\<lparr>js_WaitingFor := replace_or_append virtualStep realStep (js_WaitingFor js)\<rparr>))))))"

end
