(* ===== verification/Store_Admin.thy ===== *)
theory Store_Admin
  imports Memory_Store "HOL-Library.List_Lexorder" "HOL-Library.Char_ord"
    "HOL-Library.Product_Lexorder"
begin

text \<open>
  The rest of the memory store (\<open>src/memory_store.go\<close>): cancel requests, human decisions, the
  dead letter queue, statistics, listings with pagination and the clean-up of old workflows.
\<close>

section \<open>Cancel requests and human decisions\<close>

definition CreateCancelRequest :: "cancel_request \<Rightarrow> ('x, unit) sprog" where
  "CreateCancelRequest req =
     bnd (gets ms_cancelRequests) (\<lambda>m.
     if has_key m (cr_InstanceID req) then ret ()
     else bnd (gets ms_nextCancelRequestID) (\<lambda>ident.
       bnd time_now (\<lambda>now.
       modify (\<lambda>s. s\<lparr>ms_nextCancelRequestID := ms_nextCancelRequestID s + 1,
         ms_cancelRequests := AList.update (cr_InstanceID req)
           (req\<lparr>cr_ID := ident, cr_CreatedAt := now\<rparr>) (ms_cancelRequests s)\<rparr>))))"

definition GetCancelRequest :: "int \<Rightarrow> ('x, cancel_request) sprog" where
  "GetCancelRequest instanceID =
     bnd (gets ms_cancelRequests) (\<lambda>m.
     case map_of m instanceID of None \<Rightarrow> throw ErrEntityNotFound | Some req \<Rightarrow> ret req)"

definition DeleteCancelRequest :: "int \<Rightarrow> ('x, unit) sprog" where
  "DeleteCancelRequest instanceID =
     modify (\<lambda>s. s\<lparr>ms_cancelRequests := AList.delete instanceID (ms_cancelRequests s)\<rparr>)"

definition CreateHumanDecision :: "human_decision_record \<Rightarrow> ('x, unit) sprog" where
  "CreateHumanDecision decision =
     bnd (gets ms_nextHumanDecisionID) (\<lambda>ident.
     bnd time_now (\<lambda>now.
     modify (\<lambda>s. s\<lparr>ms_nextHumanDecisionID := ms_nextHumanDecisionID s + 1,
       ms_humanDecisions := AList.update (hd_StepID decision)
         (decision\<lparr>hd_ID := ident, hd_CreatedAt := now\<rparr>) (ms_humanDecisions s)\<rparr>)))"

definition GetHumanDecision :: "int \<Rightarrow> ('x, human_decision_record) sprog" where
  "GetHumanDecision stepID =
     bnd (gets ms_humanDecisions) (\<lambda>m.
     case map_of m stepID of None \<Rightarrow> throw ErrEntityNotFound | Some d \<Rightarrow> ret d)"

section \<open>Dead letters\<close>

definition CreateDeadLetterRecord :: "dead_letter_record \<Rightarrow> ('x, unit) sprog" where
  "CreateDeadLetterRecord rec =
     bnd (gets ms_nextDeadLetterID) (\<lambda>ident.
     bnd time_now (\<lambda>now.
     modify (\<lambda>s. s\<lparr>ms_nextDeadLetterID := ms_nextDeadLetterID s + 1,
       ms_deadLetters := AList.update ident
         (rec\<lparr>dl_ID := ident, dl_CreatedAt := now\<rparr>) (ms_deadLetters s)\<rparr>)))"

definition GetDeadLetterByID :: "int \<Rightarrow> ('x, dead_letter_record) sprog" where
  "GetDeadLetterByID ident =
     bnd (gets ms_deadLetters) (\<lambda>m.
     case map_of m ident of None \<Rightarrow> throw ErrEntityNotFound | Some rec \<Rightarrow> ret rec)"

text \<open>Apply \<open>f\<close> to the stored steps that an instance lists.\<close>

fun update_listed :: "(workflow_step \<Rightarrow> workflow_step) \<Rightarrow> int list \<Rightarrow>
    (int, workflow_step) gomap \<Rightarrow> (int, workflow_step) gomap" where
  "update_listed f [] m = m"
| "update_listed f (i # is) m =
     update_listed f is (case map_of m i of None \<Rightarrow> m | Some st \<Rightarrow> AList.update i (f st) m)"

abbreviation listed_ids :: "'x memory_store_scheme \<Rightarrow> int \<Rightarrow> int list" where
  "listed_ids s instanceID \<equiv>
     (case map_of (ms_stepsByInstance s) instanceID of None \<Rightarrow> [] | Some ids \<Rightarrow> ids)"

definition reset_step :: "raw option \<Rightarrow> workflow_step \<Rightarrow> workflow_step" where
  "reset_step newInput st =
     st\<lparr>ws_Status := StepStatusPending,
        ws_Input := (case newInput of None \<Rightarrow> ws_Input st | Some inp \<Rightarrow> inp),
        ws_Error := None, ws_RetryCount := 0, ws_CompensationRetryCount := 0,
        ws_StartedAt := None, ws_CompletedAt := None\<rparr>"

definition resume_instance :: "workflow_instance \<Rightarrow> workflow_instance" where
  "resume_instance i =
     (if wi_Status i = StatusFailed \<or> wi_Status i = StatusDLQ
      then i\<lparr>wi_Status := StatusRunning, wi_Error := None\<rparr> else i)"

definition resume_join :: "workflow_step \<Rightarrow> workflow_step" where
  "resume_join st =
     (if ws_StepType st = StepTypeJoin \<and> ws_Status st = StepStatusPaused
      then st\<lparr>ws_Status := StepStatusPending\<rparr> else st)"

definition RequeueDeadLetter :: "int \<Rightarrow> raw option \<Rightarrow> ('x, unit) sprog" where
  "RequeueDeadLetter dlqID newInput =
     bnd (GetDeadLetterByID dlqID) (\<lambda>rec.
     bnd (GetStepByID (dl_StepID rec)) (\<lambda>st.
     thn (put_step (dl_StepID rec) (reset_step newInput st))
    (thn (modify (\<lambda>s. case map_of (ms_instances s) (dl_InstanceID rec) of
            None \<Rightarrow> s
          | Some i \<Rightarrow> s\<lparr>ms_instances :=
              AList.update (dl_InstanceID rec) (resume_instance i) (ms_instances s)\<rparr>))
    (thn (modify (\<lambda>s. s\<lparr>ms_steps :=
            update_listed resume_join (listed_ids s (dl_InstanceID rec)) (ms_steps s)\<rparr>))
     (modify (\<lambda>s. s\<lparr>ms_deadLetters := AList.delete dlqID (ms_deadLetters s)\<rparr>))))))"

definition pause_running :: "workflow_step \<Rightarrow> workflow_step" where
  "pause_running st =
     (if ws_Status st = StepStatusRunning then st\<lparr>ws_Status := StepStatusPaused\<rparr> else st)"

definition PauseActiveStepsAndClearQueue :: "int \<Rightarrow> ('x, unit) sprog" where
  "PauseActiveStepsAndClearQueue instanceID =
     thn (modify (\<lambda>s. s\<lparr>ms_steps :=
            update_listed pause_running (listed_ids s instanceID) (ms_steps s)\<rparr>))
     (modify (\<lambda>s. s\<lparr>ms_queue := filter (\<lambda>(i, item). qi_InstanceID item \<noteq> instanceID) (ms_queue s)\<rparr>))"

definition ListDeadLetters :: "int \<Rightarrow> int \<Rightarrow> ('x, dead_letter_record list \<times> int) sprog" where
  "ListDeadLetters offset limit =
     bnd (gets ms_deadLetters) (\<lambda>m.
     let total = int (length m);
         records = sort_key (\<lambda>r. - dl_CreatedAt r) (map snd m);
         start = min offset (int (length records));
         end = min (offset + limit) (int (length records))
     in if start < end
        then bnd (go_slice records start end) (\<lambda>page. ret (page, total))
        else ret ([], total))"

section \<open>Statistics and listings\<close>

definition count_instance :: "workflow_instance \<Rightarrow> summary_stats \<Rightarrow> summary_stats" where
  "count_instance i st0 =
     (let st1 = st0\<lparr>ss_TotalWorkflows := Suc (ss_TotalWorkflows st0)\<rparr>;
          st2 = (case wi_Status i of
             StatusCompleted \<Rightarrow> st1\<lparr>ss_CompletedWorkflows := Suc (ss_CompletedWorkflows st1)\<rparr>
           | StatusFailed \<Rightarrow> st1\<lparr>ss_FailedWorkflows := Suc (ss_FailedWorkflows st1)\<rparr>
           | StatusRunning \<Rightarrow> st1\<lparr>ss_RunningWorkflows := Suc (ss_RunningWorkflows st1)\<rparr>
           | StatusPending \<Rightarrow> st1\<lparr>ss_PendingWorkflows := Suc (ss_PendingWorkflows st1)\<rparr>
           | _ \<Rightarrow> st1)
      in if wi_Status i = StatusRunning \<or> wi_Status i = StatusPending
         then st2\<lparr>ss_ActiveWorkflows := Suc (ss_ActiveWorkflows st2)\<rparr> else st2)"

definition GetSummaryStats :: "('x, summary_stats) sprog" where
  "GetSummaryStats =
     gets (\<lambda>s. fold count_instance (map snd (ms_instances s))
       \<lparr>ss_TotalWorkflows = 0, ss_CompletedWorkflows = 0, ss_FailedWorkflows = 0,
        ss_RunningWorkflows = 0, ss_PendingWorkflows = 0, ss_ActiveWorkflows = 0\<rparr>)"

definition count_active_step :: "workflow_step \<Rightarrow> active_instance \<Rightarrow> active_instance" where
  "count_active_step st a0 =
     (let a1 = (if ws_Status st = StepStatusRunning then a0\<lparr>ai_CurrentStep := ws_StepName st\<rparr> else a0);
          a2 = (if ws_Status st = StepStatusCompleted
                then a1\<lparr>ai_CompletedSteps := ai_CompletedSteps a1 + 1\<rparr> else a1)
      in if ws_Status st = StepStatusRolledBack
         then a2\<lparr>ai_RolledBackSteps := ai_RolledBackSteps a2 + 1\<rparr> else a2)"

definition is_listed_active :: "workflow_instance \<Rightarrow> bool" where
  "is_listed_active i \<longleftrightarrow>
     wi_Status i = StatusRunning \<or> wi_Status i = StatusPending \<or> wi_Status i = StatusDLQ"

definition GetActiveInstances :: "('x, active_instance list) sprog" where
  "GetActiveInstances =
     gets (\<lambda>s. sort_key (\<lambda>a. - ai_StartedAt a)
       (map (\<lambda>i. fold count_active_step (steps_of s (wi_ID i))
              \<lparr>ai_ID = wi_ID i, ai_WorkflowID = wi_WorkflowID i,
               ai_WorkflowName = (case map_of (ms_definitions s) (wi_WorkflowID i) of
                                    None \<Rightarrow> [] | Some d \<Rightarrow> wd_Name d),
               ai_Status = workflow_status_text (wi_Status i), ai_StartedAt = wi_CreatedAt i,
               ai_UpdatedAt = wi_UpdatedAt i, ai_CurrentStep = [],
               ai_TotalSteps = int (length (listed_ids s (wi_ID i))),
               ai_CompletedSteps = 0, ai_RolledBackSteps = 0\<rparr>)
         (filter is_listed_active (map snd (ms_instances s)))))"

text \<open>Ordered by name, then by version from the newest; Go compares strings byte by byte.\<close>

definition GetWorkflowDefinitions :: "('x, workflow_definition list) sprog" where
  "GetWorkflowDefinitions =
     gets (\<lambda>s. sort_key (\<lambda>d. (wd_Name d, - wd_Version d)) (map snd (ms_definitions s)))"

definition by_created_desc :: "workflow_instance list \<Rightarrow> workflow_instance list" where
  "by_created_desc is = sort_key (\<lambda>i. - wi_CreatedAt i) is"

definition GetWorkflowInstances :: "string \<Rightarrow> ('x, workflow_instance list) sprog" where
  "GetWorkflowInstances workflowID =
     gets (\<lambda>s. by_created_desc (filter (\<lambda>i. wi_WorkflowID i = workflowID) (map snd (ms_instances s))))"

definition GetAllWorkflowInstances :: "('x, workflow_instance list) sprog" where
  "GetAllWorkflowInstances = gets (\<lambda>s. by_created_desc (map snd (ms_instances s)))"

text \<open>The common tail of the two paginated listings.\<close>

definition paginate :: "'a list \<Rightarrow> int \<Rightarrow> int \<Rightarrow> ('s, 'a list \<times> int) prog" where
  "paginate xs offset limit =
     (let total = int (length xs) in
      if offset \<ge> int (length xs) then ret ([], total)
      else bnd (go_slice xs offset (min (offset + limit) (int (length xs)))) (\<lambda>page. ret (page, total)))"

definition GetWorkflowInstancesPaginated ::
  "string \<Rightarrow> int \<Rightarrow> int \<Rightarrow> ('x, workflow_instance list \<times> int) sprog" where
  "GetWorkflowInstancesPaginated workflowID offset limit =
     bnd (GetWorkflowInstances workflowID) (\<lambda>is. paginate is offset limit)"

definition GetAllWorkflowInstancesPaginated ::
  "int \<Rightarrow> int \<Rightarrow> ('x, workflow_instance list \<times> int) sprog" where
  "GetAllWorkflowInstancesPaginated offset limit =
     bnd GetAllWorkflowInstances (\<lambda>is. paginate is offset limit)"

definition count_workflow :: "(string, workflow_definition) gomap \<Rightarrow> workflow_instance \<Rightarrow>
    (string, workflow_stats) gomap \<Rightarrow> (string, workflow_stats) gomap" where
  "count_workflow defs i m =
     (case map_of defs (wi_WorkflowID i) of
        None \<Rightarrow> m
      | Some def \<Rightarrow>
          let key = wd_Name def @ '':'' @ show_int (wd_Version def);
              w0 = (case map_of m key of
                      Some w \<Rightarrow> w
                    | None \<Rightarrow> \<lparr>wst_WorkflowName = wd_Name def, wst_Version = wd_Version def,
                        wst_TotalInstances = 0, wst_CompletedInstances = 0, wst_FailedInstances = 0,
                        wst_RunningInstances = 0, wst_AverageDuration = 0\<rparr>);
              w1 = w0\<lparr>wst_TotalInstances := wst_TotalInstances w0 + 1\<rparr>;
              w2 = (case wi_Status i of
                 StatusCompleted \<Rightarrow> w1\<lparr>wst_CompletedInstances := wst_CompletedInstances w1 + 1\<rparr>
               | StatusFailed \<Rightarrow> w1\<lparr>wst_FailedInstances := wst_FailedInstances w1 + 1\<rparr>
               | StatusRunning \<Rightarrow> w1\<lparr>wst_RunningInstances := wst_RunningInstances w1 + 1\<rparr>
               | _ \<Rightarrow> w1)
          in AList.update key w2 m)"

definition GetWorkflowStats :: "('x, workflow_stats list) sprog" where
  "GetWorkflowStats =
     gets (\<lambda>s. map snd (fold (count_workflow (ms_definitions s)) (map snd (ms_instances s)) []))"

section \<open>Clean-up\<close>

text \<open>\<open>AddDate(0, 0, -days)\<close> is taken as a shift by whole days of 24 hours.\<close>

definition day_ns :: int where
  "day_ns = 24 * 60 * 60 * 1000000000"

definition is_old :: "int \<Rightarrow> workflow_instance \<Rightarrow> bool" where
  "is_old cutoff i \<longleftrightarrow> (case wi_CompletedAt i of None \<Rightarrow> False | Some t \<Rightarrow> t < cutoff)"

definition delete_instance :: "int \<Rightarrow> 'x memory_store_scheme \<Rightarrow> 'x memory_store_scheme" where
  "delete_instance ident s =
     s\<lparr>ms_instances := AList.delete ident (ms_instances s),
       ms_stepsByInstance := AList.delete ident (ms_stepsByInstance s),
       ms_steps := filter (\<lambda>(i, st). ws_InstanceID st \<noteq> ident) (ms_steps s),
       ms_eventsByInstance := AList.delete ident (ms_eventsByInstance s),
       ms_cancelRequests := AList.delete ident (ms_cancelRequests s),
       ms_joinStates := filter (\<lambda>(k, js). js_InstanceID js \<noteq> ident) (ms_joinStates s)\<rparr>"

definition CleanupOldWorkflows :: "int \<Rightarrow> ('x, int) sprog" where
  "CleanupOldWorkflows daysToKeep =
     bnd time_now (\<lambda>now.
     bnd (gets (\<lambda>s. map fst (filter (\<lambda>(i, inst). is_old (now - daysToKeep * day_ns) inst) (ms_instances s)))) (\<lambda>old.
     thn (modify (\<lambda>s. fold delete_instance old s))
     (ret (int (length old)))))"

end
