(* ===== verification/Validation.thy ===== *)
theory Validation
  imports Models
begin

text \<open>
  Validation of workflow definitions, from \<open>src/builder.go\<close>: \<open>validateStepName\<close>,
  \<open>isVirtualStep\<close>, \<open>ValidateWorkflowDefinition\<close> and the depth-first search \<open>detectCycles\<close>.

  The search is recursive with two shared maps; here they are the state of the combinators, and
  the recursion depth is bounded by fuel.  One unit more than the number of steps is enough
  (lemma \<open>detectCycles_not_stuck\<close>), so the fuel never shows.  The search succeeds exactly when no
  cycle can be reached from the step it starts at.
\<close>

section \<open>Definitions\<close>

definition rootStepName :: string where
  "rootStepName = ''_root_''"

definition quote :: "string \<Rightarrow> string" where
  "quote s = CHR 0x22 # s @ [CHR 0x22]"

definition isVirtualStep :: "string \<Rightarrow> bool" where
  "isVirtualStep stepName \<longleftrightarrow> length stepName > 5 \<and> take 5 stepName = ''cond#''"

definition validateStepName :: "string \<Rightarrow> goerror option" where
  "validateStepName name =
     (if name = [] then Some (Errorf ''step name is required'')
      else if name = rootStepName then Some (Errorf ''step name cannot be _root_'')
      else if isVirtualStep name then Some (Errorf (''step name cannot start with '' @ [CHR 0x27] @ ''cond#'' @ [CHR 0x27]))
      else None)"

text \<open>All outgoing targets of a step, in the order in which they are collected.\<close>

definition outs :: "step_definition \<Rightarrow> string list" where
  "outs sd = sd_Next sd @ (if sd_OnFailure sd \<noteq> [] then [sd_OnFailure sd] else [])
     @ (if sd_Else sd \<noteq> [] then [sd_Else sd] else []) @ sd_Parallel sd @ sd_WaitFor sd"

text \<open>Targets that the search follows: named, not virtual, and defined.\<close>

definition followed :: "steps_map \<Rightarrow> string \<Rightarrow> bool" where
  "followed steps next \<longleftrightarrow> next \<noteq> [] \<and> \<not> isVirtualStep next \<and> has_key steps next"

record cycle_state =
  cs_visited :: "string list"
  cs_recStack :: "string list"

definition enter_step :: "string \<Rightarrow> (cycle_state, unit) prog" where
  "enter_step cur = modify (\<lambda>s. s\<lparr>cs_visited := cur # cs_visited s, cs_recStack := cur # cs_recStack s\<rparr>)"

definition leave_step :: "string \<Rightarrow> (cycle_state, unit) prog" where
  "leave_step cur = modify (\<lambda>s. s\<lparr>cs_recStack := removeAll cur (cs_recStack s)\<rparr>)"

text \<open>What the loop does with one target; \<open>rec\<close> is the recursive call.\<close>

definition visit_target :: "(string \<Rightarrow> (cycle_state, unit) prog) \<Rightarrow> steps_map \<Rightarrow> string \<Rightarrow> string \<Rightarrow>
    (cycle_state, unit) prog" where
  "visit_target rec steps current next =
     (if \<not> followed steps next then ret ()
      else bnd (gets (\<lambda>s. (next \<in> set (cs_visited s), next \<in> set (cs_recStack s)))) (\<lambda>(vis, onStack).
        if \<not> vis then rec next
        else if onStack then throw (Errorf (''cycle detected: '' @ current @ '' -> '' @ next))
        else ret ()))"

fun detectCycles :: "nat \<Rightarrow> steps_map \<Rightarrow> string \<Rightarrow> (cycle_state, unit) prog" where
  "detectCycles 0 steps current = stuck"
| "detectCycles (Suc fuel) steps current =
     thn (enter_step current)
     (case map_of steps current of
        None \<Rightarrow> leave_step current
      | Some step \<Rightarrow>
          thn (for_each (outs step) (visit_target (detectCycles fuel steps) steps current))
          (leave_step current))"

definition search_fuel :: "steps_map \<Rightarrow> nat" where
  "search_fuel steps = Suc (length steps)"

definition check_cycles :: "steps_map \<Rightarrow> string \<Rightarrow> unit outcome" where
  "check_cycles steps start =
     fst (detectCycles (search_fuel steps) steps start \<lparr>cs_visited = [], cs_recStack = []\<rparr>)"

text \<open>The checks of one step, in the order of the code; the first that fails is reported.\<close>

definition first_unknown :: "steps_map \<Rightarrow> bool \<Rightarrow> string list \<Rightarrow> string option" where
  "first_unknown steps skipVirtual names =
     find (\<lambda>n. \<not> (skipVirtual \<and> isVirtualStep n) \<and> \<not> has_key steps n) names"

definition check_step :: "string \<Rightarrow> steps_map \<Rightarrow> string \<times> step_definition \<Rightarrow> goerror option" where
  "check_step defName steps entry =
     (let stepName = fst entry; stepDef = snd entry; pre = ''def '' @ quote defName in
      case validateStepName stepName of
        Some e \<Rightarrow> Some (Wrap pre e)
      | None \<Rightarrow>
      case first_unknown steps False (sd_Next stepDef) of
        Some n \<Rightarrow> Some (Errorf (pre @ '': step '' @ quote stepName @ '' references unknown step: '' @ quote n))
      | None \<Rightarrow>
      if sd_OnFailure stepDef \<noteq> [] \<and> \<not> has_key steps (sd_OnFailure stepDef)
      then Some (Errorf (pre @ '': step '' @ quote stepName @ '' references unknown compensation step: ''
             @ quote (sd_OnFailure stepDef)))
      else if sd_Else stepDef \<noteq> [] \<and> \<not> has_key steps (sd_Else stepDef)
      then Some (Errorf (pre @ '': step '' @ quote stepName @ '' references unknown else step: ''
             @ quote (sd_Else stepDef)))
      else
      case first_unknown steps True (sd_Parallel stepDef) of
        Some n \<Rightarrow> Some (Errorf (pre @ '': step '' @ quote stepName @ '' references unknown parallel step: '' @ quote n))
      | None \<Rightarrow>
      case (if sd_Type stepDef = StepTypeJoin then first_unknown steps True (sd_WaitFor stepDef) else None) of
        Some n \<Rightarrow> Some (Errorf (pre @ '': join step '' @ quote stepName
             @ '' references unknown step in waitFor: '' @ quote n))
      | None \<Rightarrow>
      if sd_Type stepDef = StepTypeTask \<and> sd_Handler stepDef = []
      then Some (Errorf (pre @ '': task step '' @ quote stepName @ '' must have a handler''))
      else None)"

fun first_error :: "('a \<Rightarrow> goerror option) \<Rightarrow> 'a list \<Rightarrow> goerror option" where
  "first_error f [] = None"
| "first_error f (x # xs) = (case f x of Some e \<Rightarrow> Some e | None \<Rightarrow> first_error f xs)"

definition ValidateWorkflowDefinition :: "workflow_definition \<Rightarrow> unit outcome" where
  "ValidateWorkflowDefinition def =
     (case first_error (check_step (wd_Name def) (def_steps def)) (def_steps def) of
        Some e \<Rightarrow> Err e
      | None \<Rightarrow>
          (case check_cycles (def_steps def) (def_start def) of
             Err e \<Rightarrow> Err (Wrap (''def '' @ quote (wd_Name def)) e)
           | r \<Rightarrow> r))"

section \<open>The step graph\<close>

definition edge :: "steps_map \<Rightarrow> string \<Rightarrow> string \<Rightarrow> bool" where
  "edge steps a b \<longleftrightarrow> (\<exists>sd. map_of steps a = Some sd \<and> b \<in> set (outs sd) \<and> followed steps b)"

text \<open>Steps from which no infinite walk starts: the well-founded part of the graph.\<close>

inductive terminating :: "steps_map \<Rightarrow> string \<Rightarrow> bool" for steps where
  terminatingI: "(\<And>b. edge steps a b \<Longrightarrow> terminating steps b) \<Longrightarrow> terminating steps a"

lemma terminating_edge: "terminating steps a \<Longrightarrow> edge steps a b \<Longrightarrow> terminating steps b"
  by (erule terminating.cases) blast

lemma terminating_star: "(edge steps)\<^sup>*\<^sup>* a b \<Longrightarrow> terminating steps a \<Longrightarrow> terminating steps b"
  by (induction rule: rtranclp_induct) (auto intro: terminating_edge)

lemma terminating_no_cycle: "terminating steps a \<Longrightarrow> \<not> (edge steps)\<^sup>+\<^sup>+ a a"
proof (induction rule: terminating.induct)
  case (terminatingI a)
  show ?case
  proof
    assume "(edge steps)\<^sup>+\<^sup>+ a a"
    then obtain b where "edge steps a b" and "(edge steps)\<^sup>*\<^sup>* b a"
      by (meson tranclpD)
    then have "(edge steps)\<^sup>+\<^sup>+ b b" by (meson rtranclp_into_tranclp1)
    with terminatingI.IH \<open>edge steps a b\<close> show False by blast
  qed
qed

section \<open>The search keeps what it has seen\<close>

definition grows :: "cycle_state \<Rightarrow> cycle_state \<Rightarrow> bool" where
  "grows s t \<longleftrightarrow> set (cs_visited s) \<subseteq> set (cs_visited t)"

interpretation grows: step_preorder grows
  by unfold_locales (auto simp: grows_def)

lemma enter_grows: "moves grows (enter_step c)"
  by (auto simp: enter_step_def grows_def intro!: grows.moves_modify)

lemma leave_grows: "moves grows (leave_step c)"
  by (auto simp: leave_step_def grows_def intro!: grows.moves_modify)

lemma visit_target_run:
  "visit_target rec steps c n s =
     (if followed steps n then
        if n \<notin> set (cs_visited s) then rec n s
        else if n \<in> set (cs_recStack s)
          then (Err (Errorf (''cycle detected: '' @ c @ '' -> '' @ n)), s)
        else (Ok (), s)
      else (Ok (), s))"
  by (simp add: visit_target_def bnd_def gets_def ret_def throw_def)

lemma visit_target_grows: "(\<And>n. moves grows (rec n)) \<Longrightarrow> moves grows (visit_target rec steps c n)"
  unfolding visit_target_def
  by (intro grows.moves_if grows.moves_ret grows.moves_bnd grows.moves_gets grows.moves_prod
      grows.moves_throw)

lemma detectCycles_grows: "moves grows (detectCycles fuel steps c)"
proof (induction fuel arbitrary: c)
  case 0
  show ?case by (simp add: grows.moves_stuck)
next
  case (Suc fuel)
  then show ?case
    by (auto intro!: grows.moves_thn grows.moves_for_each enter_grows leave_grows visit_target_grows
        split: option.split)
qed

lemma enter_run: "enter_step c s =
    (Ok (), s\<lparr>cs_visited := c # cs_visited s, cs_recStack := c # cs_recStack s\<rparr>)"
  by (simp add: enter_step_def modify_def)

lemma leave_run: "leave_step c s = (Ok (), s\<lparr>cs_recStack := removeAll c (cs_recStack s)\<rparr>)"
  by (simp add: leave_step_def modify_def)

section \<open>The fuel is enough\<close>

definition unseen :: "steps_map \<Rightarrow> string list \<Rightarrow> nat" where
  "unseen steps vs = card (set (keys steps) - set vs)"

lemma unseen_mono: "set vs \<subseteq> set ws \<Longrightarrow> unseen steps ws \<le> unseen steps vs"
  unfolding unseen_def by (rule card_mono) auto

lemma unseen_Cons:
  assumes "c \<in> set (keys steps)" and "c \<notin> set vs"
  shows "unseen steps (c # vs) < unseen steps vs"
  unfolding unseen_def by (rule psubset_card_mono) (use assms in auto)

lemma unseen_bound: "unseen steps vs \<le> length steps"
proof -
  have "unseen steps vs \<le> card (set (keys steps))"
    unfolding unseen_def by (rule card_mono) auto
  also have "\<dots> \<le> length (keys steps)" by (rule card_length)
  finally show ?thesis by (simp add: keys_def)
qed

lemma detectCycles_not_stuck:
  "unseen steps (c # cs_visited s) < fuel \<Longrightarrow> fst (detectCycles fuel steps c s) \<noteq> Stuck"
proof (induction fuel arbitrary: c s)
  case 0
  then show ?case by simp
next
  case (Suc fuel)
  show ?case
  proof (cases "map_of steps c")
    case None
    then show ?thesis by (simp add: thn_def bnd_def enter_run leave_run)
  next
    case (Some sd)
    let ?f = "visit_target (detectCycles fuel steps) steps c"
    define u where "u = s\<lparr>cs_visited := c # cs_visited s, cs_recStack := c # cs_recStack s\<rparr>"
    obtain r t where rt: "for_each (outs sd) ?f u = (r, t)" by fastforce
    have "case r of Ok _ \<Rightarrow> grows u t | _ \<Rightarrow> r \<noteq> Stuck"
    proof (rule for_each_rule [OF rt, where J = "\<lambda>_. grows u"])
      show "grows u u" by (rule grows.R_refl)
    next
      fix ys n zs v q w
      assume v: "grows u v" and run: "?f n v = (q, w)"
      have "moves grows (?f n)" by (intro visit_target_grows detectCycles_grows)
      with run v have gw: "grows u w" by (blast intro: grows.R_trans moves_result)
      have "q \<noteq> Stuck"
      proof (cases "followed steps n \<and> n \<notin> set (cs_visited v)")
        case True
        then have "n \<in> set (keys steps)" by (simp add: followed_def has_key_iff)
        with True have "unseen steps (n # cs_visited v) < unseen steps (cs_visited v)"
          by (intro unseen_Cons) auto
        also have "\<dots> \<le> unseen steps (c # cs_visited s)"
          using v by (intro unseen_mono) (simp add: grows_def u_def)
        finally have "fst (detectCycles fuel steps n v) \<noteq> Stuck"
          using Suc.prems by (intro Suc.IH) simp
        with True run show ?thesis by (auto simp: visit_target_run)
      qed (use run in \<open>auto simp: visit_target_run split: if_splits\<close>)
      with gw show "case q of Ok _ \<Rightarrow> grows u w | _ \<Rightarrow> q \<noteq> Stuck" by (cases q) auto
    qed
    then have "r \<noteq> Stuck" by (cases r) auto
    with Some rt show ?thesis
      by (cases r) (simp_all add: thn_def [of "enter_step c"] bnd_def enter_run u_def [symmetric]
          thn_def [of _ "leave_step c"] leave_run)
  qed
qed

section \<open>What the search establishes\<close>

text \<open>
  Every step that has been left (visited and no longer on the stack) is terminating.  The
  reverse direction keeps that every step on the stack reaches the current one.
\<close>

definition left_ok :: "steps_map \<Rightarrow> cycle_state \<Rightarrow> bool" where
  "left_ok steps s \<longleftrightarrow> set (cs_recStack s) \<subseteq> set (cs_visited s) \<and>
     (\<forall>v \<in> set (cs_visited s) - set (cs_recStack s). terminating steps v)"

definition on_path :: "steps_map \<Rightarrow> string \<Rightarrow> cycle_state \<Rightarrow> bool" where
  "on_path steps c s \<longleftrightarrow> (\<forall>u \<in> set (cs_recStack s). (edge steps)\<^sup>*\<^sup>* u c)"

definition cycle_from :: "steps_map \<Rightarrow> string \<Rightarrow> bool" where
  "cycle_from steps a \<longleftrightarrow> (\<exists>b. (edge steps)\<^sup>*\<^sup>* a b \<and> (edge steps)\<^sup>+\<^sup>+ b b)"

lemma cycle_from_edge: "edge steps a b \<Longrightarrow> cycle_from steps b \<Longrightarrow> cycle_from steps a"
  unfolding cycle_from_def by (meson converse_rtranclp_into_rtranclp)

lemma terminating_no_cycle_from: "terminating steps a \<Longrightarrow> \<not> cycle_from steps a"
  unfolding cycle_from_def using terminating_star terminating_no_cycle by blast

text \<open>The outcome of one call, from a state in which its step has not been visited.\<close>

definition search_post :: "steps_map \<Rightarrow> string \<Rightarrow> cycle_state \<Rightarrow> unit outcome \<Rightarrow> cycle_state \<Rightarrow> bool" where
  "search_post steps c s r t \<longleftrightarrow>
     (case r of
        Ok _ \<Rightarrow> c \<in> set (cs_visited t) \<and> set (cs_recStack t) = set (cs_recStack s) \<and> left_ok steps t
      | Err _ \<Rightarrow> cycle_from steps c
      | _ \<Rightarrow> r = Stuck)"

lemma visit_target_post:
  assumes rec: "\<And>c s r t. rec c s = (r, t) \<Longrightarrow> left_ok steps s \<Longrightarrow> on_path steps c s \<Longrightarrow>
      c \<notin> set (cs_visited s) \<Longrightarrow> search_post steps c s r t"
    and sd: "map_of steps c = Some sd" and n: "n \<in> set (outs sd)"
    and ok: "left_ok steps v" and path: "on_path steps c v"
    and run: "visit_target rec steps c n v = (q, w)"
  shows "case q of
      Ok _ \<Rightarrow> set (cs_recStack w) = set (cs_recStack v) \<and> left_ok steps w \<and>
        (edge steps c n \<longrightarrow> terminating steps n)
    | Err _ \<Rightarrow> cycle_from steps c
    | _ \<Rightarrow> q = Stuck"
proof (cases "followed steps n")
  case False
  with run ok show ?thesis by (auto simp: visit_target_run edge_def)
next
  case fol: True
  with sd n have edge: "edge steps c n" by (auto simp: edge_def)
  show ?thesis
  proof (cases "n \<in> set (cs_visited v)")
    case True
    show ?thesis
    proof (cases "n \<in> set (cs_recStack v)")
      case True
      with path have "(edge steps)\<^sup>*\<^sup>* n c" by (simp add: on_path_def)
      with edge have "(edge steps)\<^sup>+\<^sup>+ c c" by (meson rtranclp_into_tranclp2)
      then have "cycle_from steps c" by (auto simp: cycle_from_def)
      with run fol True \<open>n \<in> set (cs_visited v)\<close> show ?thesis by (auto simp: visit_target_run)
    next
      case False
      with True ok have "terminating steps n" by (auto simp: left_ok_def)
      with run fol True False ok show ?thesis by (auto simp: visit_target_run)
    qed
  next
    case False
    with run fol have call: "rec n v = (q, w)" by (simp add: visit_target_run)
    from path edge have "on_path steps n v"
      by (auto simp: on_path_def intro: rtranclp.rtrancl_into_rtrancl)
    from rec [OF call ok this False] have post: "search_post steps n v q w" .
    show ?thesis
    proof (cases q)
      case (Ok x)
      with post have "n \<in> set (cs_visited w)" "set (cs_recStack w) = set (cs_recStack v)" "left_ok steps w"
        by (auto simp: search_post_def)
      moreover from False ok have "n \<notin> set (cs_recStack v)" by (auto simp: left_ok_def)
      ultimately have "terminating steps n" by (auto simp: left_ok_def)
      with Ok post show ?thesis by (simp add: search_post_def)
    next
      case (Err e)
      with post edge show ?thesis by (auto simp: search_post_def intro: cycle_from_edge)
    qed (use post in \<open>auto simp: search_post_def\<close>)
  qed
qed

lemma detectCycles_post:
  assumes "detectCycles fuel steps c s = (r, t)"
    and "left_ok steps s" and "on_path steps c s" and "c \<notin> set (cs_visited s)"
  shows "search_post steps c s r t"
  using assms
proof (induction fuel arbitrary: c s r t)
  case 0
  then show ?case by (auto simp: stuck_def search_post_def)
next
  case (Suc fuel)
  define u where "u = s\<lparr>cs_visited := c # cs_visited s, cs_recStack := c # cs_recStack s\<rparr>"
  have cfresh: "c \<notin> set (cs_recStack s)" using Suc.prems by (auto simp: left_ok_def)
  have uok: "left_ok steps u" using Suc.prems by (auto simp: left_ok_def u_def)
  have upath: "on_path steps c u" using Suc.prems by (auto simp: on_path_def u_def)
  show ?case
  proof (cases "map_of steps c")
    case None
    then have "terminating steps c" by (auto simp: edge_def intro: terminatingI)
    with None Suc.prems cfresh show ?thesis
      by (auto simp: thn_def bnd_def enter_run leave_run search_post_def left_ok_def)
  next
    case (Some sd)
    let ?f = "visit_target (detectCycles fuel steps) steps c"
    let ?J = "\<lambda>ys v. set (cs_recStack v) = set (cs_recStack u) \<and> left_ok steps v \<and> grows u v \<and>
        (\<forall>n \<in> set ys. edge steps c n \<longrightarrow> terminating steps n)"
    let ?E = "\<lambda>q w. (\<forall>e. q = Err e \<longrightarrow> cycle_from steps c) \<and> (\<forall>p. q \<noteq> Panic p)"
    obtain q w where qw: "for_each (outs sd) ?f u = (q, w)" by fastforce
    have loop: "case q of Ok _ \<Rightarrow> ?J (outs sd) w | _ \<Rightarrow> ?E q w"
    proof (rule for_each_rule [OF qw, where J = ?J])
      show "?J [] u" using uok by (simp add: grows.R_refl)
    next
      fix ys n zs v r' v'
      assume split: "outs sd = ys @ n # zs" and J: "?J ys v" and run: "?f n v = (r', v')"
      from split have n: "n \<in> set (outs sd)" by simp
      from J upath have path: "on_path steps c v" by (simp add: on_path_def)
      from J have okv: "left_ok steps v" by simp
      note target = visit_target_post [OF Suc.IH Some n okv path run, simplified]
      have "moves grows (?f n)" by (intro visit_target_grows detectCycles_grows)
      from moves_result [OF this run] have "grows v v'" .
      with J have "grows u v'" using grows.R_trans [of u v v'] by simp
      with target J show "case r' of Ok _ \<Rightarrow> ?J (ys @ [n]) v' | _ \<Rightarrow> ?E r' v'"
        by (cases r') auto
    qed
    show ?thesis
    proof (cases q)
      case (Ok x)
      with loop have w: "?J (outs sd) w" by simp
      have cterm: "terminating steps c"
      proof (rule terminatingI)
        fix b
        assume e: "edge steps c b"
        then have "b \<in> set (outs sd)" by (simp add: edge_def Some)
        with w e show "terminating steps b" by simp
      qed
      from Suc.prems(1) Some qw Ok have r: "r = Ok ()"
        and t: "t = w\<lparr>cs_recStack := removeAll c (cs_recStack w)\<rparr>"
        by (simp_all add: thn_def bnd_def enter_run leave_run u_def [symmetric])
      from w have "set (cs_recStack w) = insert c (set (cs_recStack s))" by (simp add: u_def)
      moreover from w have "c \<in> set (cs_visited w)" by (auto simp: grows_def u_def)
      ultimately show ?thesis
        using w cterm cfresh by (auto simp: r t search_post_def left_ok_def)
    qed (use loop Some qw Suc.prems in \<open>auto simp: thn_def bnd_def enter_run u_def [symmetric] search_post_def\<close>)
  qed
qed

lemma check_cycles_iff:
  "check_cycles steps start = Ok () \<longleftrightarrow> \<not> cycle_from steps start"
proof -
  define s0 where "s0 = \<lparr>cs_visited = [], cs_recStack = []\<rparr>"
  obtain r t where run: "detectCycles (search_fuel steps) steps start s0 = (r, t)" by fastforce
  have post: "search_post steps start s0 r t"
    by (rule detectCycles_post [OF run]) (simp_all add: s0_def left_ok_def on_path_def)
  have "unseen steps (start # cs_visited s0) < search_fuel steps"
    using unseen_bound by (simp add: search_fuel_def le_imp_less_Suc)
  from detectCycles_not_stuck [OF this] run have "r \<noteq> Stuck" by simp
  moreover have "terminating steps start" if "r = Ok ()"
    using that post by (auto simp: search_post_def left_ok_def s0_def)
  ultimately show ?thesis
    using post terminating_no_cycle_from run
    by (cases r) (auto simp: search_post_def check_cycles_def s0_def)
qed

lemma check_cycles_returns: "returns (check_cycles steps start)"
proof -
  define s0 where "s0 = \<lparr>cs_visited = [], cs_recStack = []\<rparr>"
  obtain r t where run: "detectCycles (search_fuel steps) steps start s0 = (r, t)" by fastforce
  have "search_post steps start s0 r t"
    by (rule detectCycles_post [OF run]) (simp_all add: s0_def left_ok_def on_path_def)
  moreover have "unseen steps (start # cs_visited s0) < search_fuel steps"
    using unseen_bound by (simp add: search_fuel_def le_imp_less_Suc)
  from detectCycles_not_stuck [OF this] run have "r \<noteq> Stuck" by simp
  ultimately show ?thesis
    using run by (cases r) (auto simp: check_cycles_def search_post_def returns_def s0_def)
qed

section \<open>What a valid definition is\<close>

text \<open>The declarative reading of the per-step checks.\<close>

definition resolves :: "steps_map \<Rightarrow> string list \<Rightarrow> bool" where
  "resolves steps names \<longleftrightarrow> (\<forall>n \<in> set names. has_key steps n)"

definition resolves_real :: "steps_map \<Rightarrow> string list \<Rightarrow> bool" where
  "resolves_real steps names \<longleftrightarrow> (\<forall>n \<in> set names. isVirtualStep n \<or> has_key steps n)"

definition valid_step :: "steps_map \<Rightarrow> string \<Rightarrow> step_definition \<Rightarrow> bool" where
  "valid_step steps name sd \<longleftrightarrow>
     name \<noteq> [] \<and> name \<noteq> rootStepName \<and> \<not> isVirtualStep name \<and>
     resolves steps (sd_Next sd) \<and>
     (sd_OnFailure sd \<noteq> [] \<longrightarrow> has_key steps (sd_OnFailure sd)) \<and>
     (sd_Else sd \<noteq> [] \<longrightarrow> has_key steps (sd_Else sd)) \<and>
     resolves_real steps (sd_Parallel sd) \<and>
     (sd_Type sd = StepTypeJoin \<longrightarrow> resolves_real steps (sd_WaitFor sd)) \<and>
     (sd_Type sd = StepTypeTask \<longrightarrow> sd_Handler sd \<noteq> [])"

definition valid_graph :: "workflow_definition \<Rightarrow> bool" where
  "valid_graph def \<longleftrightarrow>
     (\<forall>(name, sd) \<in> set (def_steps def). valid_step (def_steps def) name sd) \<and>
     \<not> cycle_from (def_steps def) (def_start def)"

lemma first_unknown_None:
  "first_unknown steps False names = None \<longleftrightarrow> resolves steps names"
  "first_unknown steps True names = None \<longleftrightarrow> resolves_real steps names"
  by (auto simp: first_unknown_def resolves_def resolves_real_def find_None_iff)

lemma validateStepName_None:
  "validateStepName name = None \<longleftrightarrow> name \<noteq> [] \<and> name \<noteq> rootStepName \<and> \<not> isVirtualStep name"
  by (simp add: validateStepName_def)

lemma check_step_None: "check_step d steps (name, sd) = None \<longleftrightarrow> valid_step steps name sd"
proof -
  have "valid_step steps name sd \<longleftrightarrow>
      validateStepName name = None \<and> first_unknown steps False (sd_Next sd) = None \<and>
      \<not> (sd_OnFailure sd \<noteq> [] \<and> \<not> has_key steps (sd_OnFailure sd)) \<and>
      \<not> (sd_Else sd \<noteq> [] \<and> \<not> has_key steps (sd_Else sd)) \<and>
      first_unknown steps True (sd_Parallel sd) = None \<and>
      (if sd_Type sd = StepTypeJoin then first_unknown steps True (sd_WaitFor sd) else None) = None \<and>
      \<not> (sd_Type sd = StepTypeTask \<and> sd_Handler sd = [])"
    by (auto simp: valid_step_def validateStepName_None first_unknown_None)
  then show ?thesis
    unfolding check_step_def Let_def fst_conv snd_conv by (simp split: option.split)
qed

lemma first_error_None: "first_error f xs = None \<longleftrightarrow> (\<forall>x \<in> set xs. f x = None)"
  by (induction xs) (auto split: option.split)

lemma Validate_Ok_iff:
  "ValidateWorkflowDefinition def = Ok () \<longleftrightarrow> valid_graph def"
proof -
  have "first_error (check_step (wd_Name def) (def_steps def)) (def_steps def) = None \<longleftrightarrow>
      (\<forall>(name, sd) \<in> set (def_steps def). valid_step (def_steps def) name sd)"
    by (auto simp: first_error_None check_step_None)
  then show ?thesis
    using check_cycles_iff [of "def_steps def" "def_start def"]
    by (auto simp: ValidateWorkflowDefinition_def valid_graph_def split: option.split outcome.split)
qed

lemma Validate_returns: "returns (ValidateWorkflowDefinition def)"
  using check_cycles_returns [of "def_steps def" "def_start def"]
  by (auto simp: ValidateWorkflowDefinition_def returns_def split: option.split outcome.splits)

lemma valid_definition_steps:
  assumes "ValidateWorkflowDefinition def = Ok ()" and "map_of (def_steps def) name = Some sd"
  shows "valid_step (def_steps def) name sd"
  using assms map_of_SomeD by (fastforce simp: Validate_Ok_iff valid_graph_def)

section \<open>Properties\<close>

text \<open>
  C14: validation of a workflow definition always returns, and it accepts a definition
  exactly when every step has a legal name, every reference of a step (next, compensation, else,
  parallel and, for a join, wait-for, where virtual steps are exempt) names a defined step,
  every task has a handler, and no cycle can be reached from the start step.
\<close>

theorem validation_exact:
  "returns (ValidateWorkflowDefinition def) \<and>
   (ValidateWorkflowDefinition def = Ok () \<longleftrightarrow> valid_graph def)"
  using Validate_Ok_iff Validate_returns by blast

text \<open>A definition that passes: a task followed by another.\<close>

definition two_tasks :: workflow_definition where
  "two_tasks = \<lparr>wd_ID = ''w-v1'', wd_Name = ''w'', wd_Version = 1,
     wd_Definition = \<lparr>gd_Steps =
       [(''a'', zero_step\<lparr>sd_Name := ''a'', sd_Type := StepTypeTask, sd_Handler := ''h'',
                 sd_Next := [''b''], sd_Prev := rootStepName\<rparr>),
        (''b'', zero_step\<lparr>sd_Name := ''b'', sd_Type := StepTypeTask, sd_Handler := ''h'',
                 sd_Prev := ''a''\<rparr>)],
       gd_Start = ''a'', gd_DLQEnabled = False\<rparr>, wd_CreatedAt = 0\<rparr>"

lemma two_tasks_valid: "ValidateWorkflowDefinition two_tasks = Ok ()"
  by code_simp

end
