(* ===== verification/Step_Graph.thy ===== *)
theory Step_Graph
  imports Validation
begin

text \<open>
  The walks over a workflow definition in \<open>src/engine.go\<close>: the nearest save point, ancestors
  along \<open>Prev\<close>, membership in a fork branch, the join of a branch, the condition a branch hangs
  off, reachability along \<open>Next\<close>, \<open>Else\<close> and \<open>Parallel\<close>, and the branch of a condition that was taken.

  The loops keep a map \<open>visited\<close> and stop at a step seen before.  Here \<open>visited\<close> is a list, and
  a loop terminates because every turn that goes on has visited one more defined step.
  The recursive search \<open>isStepReachableFrom\<close> threads \<open>visited\<close> and is bounded by fuel.
\<close>

section \<open>Walks along the previous-step links\<close>

lemma unseen_step [simp]:
  assumes "map_of steps cur = Some sd" and "cur \<notin> set visited"
  shows "unseen steps (cur # visited) < unseen steps visited"
  using assms by (intro unseen_Cons) (auto simp: has_key_iff [symmetric] has_key_def)

text \<open>
  A step without a previous step is looked through: the code continues with the first entry of
  the range loop that has one.
\<close>

definition look_through :: "steps_map \<Rightarrow> step_definition \<Rightarrow> step_definition" where
  "look_through steps stepDef =
     (if sd_Prev stepDef = []
      then (case find (\<lambda>(n, sd). sd_Prev sd \<noteq> []) steps of None \<Rightarrow> stepDef | Some (n, sd) \<Rightarrow> sd)
      else stepDef)"

function save_point_walk :: "steps_map \<Rightarrow> string list \<Rightarrow> string \<Rightarrow> string" where
  "save_point_walk steps visited stepName =
     (if stepName = [] \<or> stepName \<in> set visited then rootStepName
      else case map_of steps stepName of
        None \<Rightarrow> rootStepName
      | Some stepDef0 \<Rightarrow>
          let stepDef = look_through steps stepDef0 in
          if sd_Type stepDef = StepTypeSavePoint then stepName
          else save_point_walk steps (stepName # visited) (sd_Prev stepDef))"
  by pat_completeness auto
termination
  by (relation "measure (\<lambda>(steps, visited, stepName). unseen steps visited)") auto

declare save_point_walk.simps [simp del]

definition findNearestSavePoint :: "string \<Rightarrow> workflow_definition \<Rightarrow> string" where
  "findNearestSavePoint stepName def = save_point_walk (def_steps def) [] stepName"

function descendant_walk :: "steps_map \<Rightarrow> string \<Rightarrow> string list \<Rightarrow> string \<Rightarrow> bool" where
  "descendant_walk steps ancestor visited stepName =
     (if stepName = [] \<or> stepName \<in> set visited then False
      else case map_of steps stepName of
        None \<Rightarrow> False
      | Some stepDef \<Rightarrow>
          if stepName = ancestor then True
          else if sd_Prev stepDef \<noteq> []
            then descendant_walk steps ancestor (stepName # visited) (sd_Prev stepDef)
          else False)"
  by pat_completeness auto
termination
  by (relation "measure (\<lambda>(steps, ancestor, visited, stepName). unseen steps visited)") auto

declare descendant_walk.simps [simp del]

definition isStepDescendantOf :: "string \<Rightarrow> string \<Rightarrow> workflow_definition \<Rightarrow> bool" where
  "isStepDescendantOf stepName ancestorStepName def =
     descendant_walk (def_steps def) ancestorStepName [] stepName"

definition isStepInParallelBranch :: "string \<Rightarrow> step_definition \<Rightarrow> workflow_definition \<Rightarrow> bool" where
  "isStepInParallelBranch stepName forkStepDef def \<longleftrightarrow>
     stepName \<in> set (sd_Parallel forkStepDef) \<or>
     (\<exists>p \<in> set (sd_Parallel forkStepDef). isStepDescendantOf stepName p def)"

function condition_walk :: "steps_map \<Rightarrow> string list \<Rightarrow> string \<Rightarrow> string" where
  "condition_walk steps visited current =
     (if current = [] \<or> current = rootStepName \<or> current \<in> set visited then []
      else case map_of steps current of
        None \<Rightarrow> []
      | Some currentDef \<Rightarrow>
          if sd_Type currentDef = StepTypeCondition then current
          else condition_walk steps (current # visited) (sd_Prev currentDef))"
  by pat_completeness auto
termination
  by (relation "measure (\<lambda>(steps, visited, current). unseen steps visited)") auto

declare condition_walk.simps [simp del]

definition findConditionStepInBranch :: "step_definition \<Rightarrow> workflow_definition \<Rightarrow> string" where
  "findConditionStepInBranch stepDef def = condition_walk (def_steps def) [] (sd_Prev stepDef)"

section \<open>Forks and joins\<close>

text \<open>The first fork, in iteration order, whose \<open>Parallel\<close> list has the step; empty if none.\<close>

definition fork_with :: "steps_map \<Rightarrow> string \<Rightarrow> string" where
  "fork_with steps stepName =
     (case find (\<lambda>(n, sd). sd_Type sd = StepTypeFork \<and> stepName \<in> set (sd_Parallel sd)) steps of
        None \<Rightarrow> [] | Some (n, sd) \<Rightarrow> n)"

text \<open>\<open>range\<close> finds such a fork; its name may be empty, so the walks ask for the entry itself.\<close>

definition in_some_fork :: "steps_map \<Rightarrow> string \<Rightarrow> bool" where
  "in_some_fork steps stepName \<longleftrightarrow>
     (\<exists>(n, sd) \<in> set steps. sd_Type sd = StepTypeFork \<and> stepName \<in> set (sd_Parallel sd))"

function under_fork_walk :: "steps_map \<Rightarrow> string list \<Rightarrow> string \<Rightarrow> bool" where
  "under_fork_walk steps visited current =
     (if current = [] \<or> current = rootStepName \<or> current \<in> set visited then False
      else case map_of steps current of
        None \<Rightarrow> False
      | Some currentDef \<Rightarrow>
          if sd_Type currentDef = StepTypeFork then True
          else if in_some_fork steps current then True
          else under_fork_walk steps (current # visited) (sd_Prev currentDef))"
  by pat_completeness auto
termination
  by (relation "measure (\<lambda>(steps, visited, current). unseen steps visited)") auto

declare under_fork_walk.simps [simp del]

text \<open>\<open>forkStepName\<close> is the result of \<open>findForkStepForParallelStep\<close>, which reads the store.\<close>

definition isTerminalStepInForkBranch :: "string \<Rightarrow> string \<Rightarrow> workflow_definition \<Rightarrow> bool" where
  "isTerminalStepInForkBranch forkStepName stepName def =
     (case map_of (def_steps def) stepName of
        None \<Rightarrow> False
      | Some stepDef \<Rightarrow>
          if sd_Type stepDef = StepTypeJoin then False
          else if length (sd_Next stepDef) > 0 then False
          else if forkStepName \<noteq> [] then True
          else under_fork_walk (def_steps def) [] (sd_Prev stepDef))"

function fork_walk :: "steps_map \<Rightarrow> string list \<Rightarrow> string \<Rightarrow> string" where
  "fork_walk steps visited current =
     (if current = [] \<or> current = rootStepName \<or> current \<in> set visited then []
      else case map_of steps current of
        None \<Rightarrow> []
      | Some currentDef \<Rightarrow>
          if sd_Type currentDef = StepTypeFork then current
          else if fork_with steps current \<noteq> [] then fork_with steps current
          else fork_walk steps (current # visited) (sd_Prev currentDef))"
  by pat_completeness auto
termination
  by (relation "measure (\<lambda>(steps, visited, current). unseen steps visited)") auto

declare fork_walk.simps [simp del]

definition join_after :: "steps_map \<Rightarrow> string \<Rightarrow> string" where
  "join_after steps forkStepName =
     (case map_of steps forkStepName of
        None \<Rightarrow> []
      | Some forkStepDef \<Rightarrow>
          (case find (\<lambda>n. case map_of steps n of
                     None \<Rightarrow> False | Some sd \<Rightarrow> sd_Type sd = StepTypeJoin) (sd_Next forkStepDef) of
             None \<Rightarrow> [] | Some n \<Rightarrow> n))"

definition findJoinStepForForkBranch :: "string \<Rightarrow> string \<Rightarrow> workflow_definition \<Rightarrow> string" where
  "findJoinStepForForkBranch forkStepName0 stepName def =
     (let steps = def_steps def in
      if forkStepName0 \<noteq> [] then join_after steps forkStepName0
      else case map_of steps stepName of
        None \<Rightarrow> []
      | Some stepDef \<Rightarrow>
          let forkStepName = fork_walk steps [] (sd_Prev stepDef) in
          if forkStepName = [] then [] else join_after steps forkStepName)"

section \<open>Reachability\<close>

fun isStepReachableFrom :: "nat \<Rightarrow> steps_map \<Rightarrow> string \<Rightarrow> string \<Rightarrow> (string list, bool) prog" where
  "isStepReachableFrom 0 steps targetStep startStep = stuck"
| "isStepReachableFrom (Suc fuel) steps targetStep startStep =
     (if startStep = targetStep then ret True
      else bnd (gets (\<lambda>visited. startStep \<in> set visited)) (\<lambda>seen.
        if seen then ret False
        else thn (modify (\<lambda>visited. startStep # visited))
          (case map_of steps startStep of
             None \<Rightarrow> ret False
           | Some stepDef \<Rightarrow>
               bnd (for_find (sd_Next stepDef @ (if sd_Else stepDef \<noteq> [] then [sd_Else stepDef] else [])
                              @ sd_Parallel stepDef)
                     (\<lambda>n. bnd (isStepReachableFrom fuel steps targetStep n) (\<lambda>r.
                          ret (if r then Some () else None))))
                   (\<lambda>found. ret (found \<noteq> None)))))"

definition reach_fuel :: "steps_map \<Rightarrow> nat" where
  "reach_fuel steps = length steps + 2"

definition step_reachable :: "steps_map \<Rightarrow> string \<Rightarrow> string \<Rightarrow> bool" where
  "step_reachable steps targetStep startStep =
     (fst (isStepReachableFrom (reach_fuel steps) steps targetStep startStep []) = Ok True)"

definition is_fork_like :: "step_definition \<Rightarrow> bool" where
  "is_fork_like sd \<longleftrightarrow> sd_Type sd = StepTypeFork \<or> sd_Type sd = StepTypeParallel"

function branch_fork_walk :: "steps_map \<Rightarrow> string list \<Rightarrow> string \<Rightarrow> string" where
  "branch_fork_walk steps visited current =
     (if current = [] \<or> current = rootStepName \<or> current \<in> set visited then []
      else case map_of steps current of
        None \<Rightarrow> []
      | Some currentDef \<Rightarrow>
          if sd_Prev currentDef \<noteq> [] \<and> sd_Prev currentDef \<noteq> rootStepName \<and>
             (case map_of steps (sd_Prev currentDef) of
                None \<Rightarrow> False
              | Some prevDef \<Rightarrow> is_fork_like prevDef \<and>
                  (\<exists>p \<in> set (sd_Parallel prevDef). step_reachable steps current p))
          then sd_Prev currentDef
          else branch_fork_walk steps (current # visited) (sd_Prev currentDef))"
  by pat_completeness auto
termination
  by (relation "measure (\<lambda>(steps, visited, current). unseen steps visited)") auto

declare branch_fork_walk.simps [simp del]

definition findForkStepForStepInBranch :: "string \<Rightarrow> workflow_definition \<Rightarrow> string" where
  "findForkStepForStepInBranch stepName def =
     (if stepName = [] \<or> stepName = rootStepName then []
      else case find (\<lambda>(n, sd). is_fork_like sd \<and> stepName \<in> set (sd_Parallel sd)) (def_steps def) of
        Some (n, sd) \<Rightarrow> n
      | None \<Rightarrow> branch_fork_walk (def_steps def) [] stepName)"

section \<open>The executed branch of a condition\<close>

datatype executed_branch = BranchNext | BranchElse | BranchNone

definition was_executed :: "(string, workflow_step) gomap \<Rightarrow> string \<Rightarrow> bool" where
  "was_executed stepMap name =
     (case map_of stepMap name of
        None \<Rightarrow> False
      | Some st \<Rightarrow> ws_Status st = StepStatusCompleted \<or> ws_Status st = StepStatusFailed \<or>
          ws_Status st = StepStatusCompensation)"

definition determineExecutedBranch ::
  "step_definition \<Rightarrow> (string, workflow_step) gomap \<Rightarrow> executed_branch" where
  "determineExecutedBranch stepDef stepMap =
     (if \<exists>n \<in> set (sd_Next stepDef). was_executed stepMap n then BranchNext
      else if sd_Else stepDef \<noteq> [] \<and> was_executed stepMap (sd_Else stepDef) then BranchElse
      else BranchNone)"

end
