(* ===== verification/Engine_State.thy ===== *)
theory Engine_State
  imports Join_State Store_Admin Step_Graph
begin

text \<open>
  The state of the engine (\<open>src/engine.go\<close>, \<open>src/engine_opts.go\<close>, \<open>src/step_handler.go\<close>,
  \<open>src/execution_context.go\<close>, \<open>src/plugins.go\<close>) and its small operations: handler and plugin
  registration, cancel contexts, missing-handler cool-down and log throttling.

  The record \<open>engine\<close> extends the memory store, so a store operation acts on an engine
  state.  Code the engine only calls is in the state as functions: the step handlers, the
  plugin hooks, the template renderer and the random source.  A handler or a hook may answer
  differently each time, so it also sees what has been called before (\<open>en_calls\<close>, \<open>en_hookCalls\<close>).

  While a handler runs, other goroutines may file cancel or abort requests and the cancel worker
  may run: \<open>env_action\<close> lists what happened.  Apart from that, the operations of the engine run
  one after the other.
\<close>

section \<open>Handlers, hooks and the engine record\<close>

record exec_context =
  ec_instanceID :: int
  ec_stepName :: string
  ec_idempotencyKey :: string
  ec_retryCount :: int
  ec_variables :: "(string, json) gomap"

definition GetVariable :: "exec_context \<Rightarrow> string \<Rightarrow> json option" where
  "GetVariable c key = map_of (ec_variables c) key"

definition CloneData :: "exec_context \<Rightarrow> (string, json) gomap" where
  "CloneData c = ec_variables c"

record handler_call =
  hc_Handler :: string
  hc_Context :: exec_context
  hc_Input :: raw

datatype handler_result = Returns raw | Fails goerror | Panics string

datatype env_action =
    EnvCancel int string string
  | EnvAbort int string string
  | EnvCancelWorker

type_synonym handler =
  "handler_call list \<Rightarrow> exec_context \<Rightarrow> raw \<Rightarrow> handler_result \<times> env_action list"

record plugin =
  pl_Name :: string
  pl_Priority :: int
  pl_OnWorkflowStart :: "nat \<Rightarrow> workflow_instance \<Rightarrow> goerror option"
  pl_OnWorkflowComplete :: "nat \<Rightarrow> workflow_instance \<Rightarrow> goerror option"
  pl_OnWorkflowFailed :: "nat \<Rightarrow> workflow_instance \<Rightarrow> goerror option"
  pl_OnStepStart :: "nat \<Rightarrow> workflow_instance \<Rightarrow> workflow_step \<Rightarrow> goerror option"
  pl_OnStepComplete :: "nat \<Rightarrow> workflow_instance \<Rightarrow> workflow_step \<Rightarrow> goerror option"
  pl_OnStepFailed :: "nat \<Rightarrow> workflow_instance \<Rightarrow> workflow_step \<Rightarrow> goerror \<Rightarrow> goerror option"
  pl_OnRollbackStepChain :: "nat \<Rightarrow> int \<Rightarrow> string \<Rightarrow> int \<Rightarrow> goerror option"

record engine = memory_store +
  en_handlers :: "(string, handler) gomap"
  en_cancelContexts :: "(int, (int, nat) gomap) gomap"
  en_nextContext :: nat
  en_cancelled :: "nat list"
  en_isShuttingDown :: bool
  en_activeSteps :: int
  en_humanEvents :: "human_waiting_event list option"
  en_plugins :: "plugin list option"
  en_hookCalls :: nat
  en_missingHandlerCooldown :: int
  en_missingHandlerLogThrottle :: int
  en_missingHandlerJitterPct :: rat
  en_skipLogNextAllowed :: "(string, int) gomap"
  en_random :: "nat \<Rightarrow> rat"
  en_randomCount :: nat
  en_render :: "string \<Rightarrow> (string, json) gomap \<Rightarrow> goerror + string"
  en_calls :: "handler_call list"

type_synonym 'a eprog = "(engine, 'a) prog"

text \<open>\<open>NewEngine\<close> with its defaults and a memory store; the options then change single fields.\<close>

definition second_ns :: int where
  "second_ns = 1000000000"

definition NewEngine :: "int \<Rightarrow> (nat \<Rightarrow> string) \<Rightarrow> (nat \<Rightarrow> rat) \<Rightarrow>
    (string \<Rightarrow> (string, json) gomap \<Rightarrow> goerror + string) \<Rightarrow> (engine \<Rightarrow> engine) list \<Rightarrow> engine" where
  "NewEngine now uuids randoms render opts =
     fold (\<lambda>opt e. opt e) opts
       (memory_store.extend (NewMemoryStore now uuids)
         \<lparr>en_handlers = [], en_cancelContexts = [], en_nextContext = 0, en_cancelled = [],
          en_isShuttingDown = False, en_activeSteps = 0, en_humanEvents = None, en_plugins = None,
          en_hookCalls = 0, en_missingHandlerCooldown = second_ns,
          en_missingHandlerLogThrottle = 5 * second_ns, en_missingHandlerJitterPct = 1 / 5,
          en_skipLogNextAllowed = [], en_random = randoms, en_randomCount = 0,
          en_render = render, en_calls = []\<rparr>)"

definition WithMissingHandlerCooldown :: "int \<Rightarrow> engine \<Rightarrow> engine" where
  "WithMissingHandlerCooldown d e = e\<lparr>en_missingHandlerCooldown := d\<rparr>"

definition WithMissingHandlerLogThrottle :: "int \<Rightarrow> engine \<Rightarrow> engine" where
  "WithMissingHandlerLogThrottle d e = e\<lparr>en_missingHandlerLogThrottle := d\<rparr>"

definition WithMissingHandlerJitterPct :: "rat \<Rightarrow> engine \<Rightarrow> engine" where
  "WithMissingHandlerJitterPct pct e = e\<lparr>en_missingHandlerJitterPct := (if pct < 0 then 0 else pct)\<rparr>"

definition WithQueueAgingEnabled :: "bool \<Rightarrow> engine \<Rightarrow> engine" where
  "WithQueueAgingEnabled enabled e = snd (SetAgingEnabled enabled e)"

definition WithQueueAgingRate :: "rat \<Rightarrow> engine \<Rightarrow> engine" where
  "WithQueueAgingRate rate e = snd (SetAgingRate (if rate < 0 then 0 else rate) e)"

definition RegisterHandler :: "string \<Rightarrow> handler \<Rightarrow> unit eprog" where
  "RegisterHandler name h = modify (\<lambda>s. s\<lparr>en_handlers := AList.update name h (en_handlers s)\<rparr>)"

section \<open>Plugins\<close>

text \<open>
  \<open>sort.Slice\<close> by ascending priority after appending the new plugin.  It leaves open the order of plugins of
  equal priority; the model takes the order of registration, and no theorem rests on it.
\<close>

definition Register :: "plugin \<Rightarrow> plugin list \<Rightarrow> plugin list" where
  "Register p ps = sort_key pl_Priority (ps @ [p])"

definition RegisterPlugin :: "plugin \<Rightarrow> unit eprog" where
  "RegisterPlugin p = modify (\<lambda>s. s\<lparr>en_plugins :=
     Some (Register p (case en_plugins s of None \<Rightarrow> [] | Some ps \<Rightarrow> ps))\<rparr>)"

text \<open>Run the hooks in order and stop at the first error (\<open>ExecuteWorkflowStart\<close>, \<open>ExecuteStepStart\<close>).\<close>

fun run_hooks :: "(plugin \<Rightarrow> nat \<Rightarrow> goerror option) \<Rightarrow> plugin list \<Rightarrow> unit eprog" where
  "run_hooks hook [] = ret ()"
| "run_hooks hook (p # ps) =
     bnd (gets en_hookCalls) (\<lambda>n.
     thn (modify (\<lambda>s. s\<lparr>en_hookCalls := Suc (en_hookCalls s)\<rparr>))
     (case hook p n of
        Some e \<Rightarrow> throw (Wrap (''plugin '' @ pl_Name p @ '' failed'') e)
      | None \<Rightarrow> run_hooks hook ps))"

text \<open>Run every hook, errors are only logged (the other five executors).\<close>

fun run_hooks_all :: "(plugin \<Rightarrow> nat \<Rightarrow> goerror option) \<Rightarrow> plugin list \<Rightarrow> unit eprog" where
  "run_hooks_all hook [] = ret ()"
| "run_hooks_all hook (p # ps) =
     bnd (gets en_hookCalls) (\<lambda>n.
     thn (modify (\<lambda>s. s\<lparr>en_hookCalls := Suc (en_hookCalls s)\<rparr>))
     (run_hooks_all hook ps))"

definition with_plugins :: "(plugin list \<Rightarrow> unit eprog) \<Rightarrow> unit eprog" where
  "with_plugins f = bnd (gets en_plugins) (\<lambda>pm. case pm of None \<Rightarrow> ret () | Some ps \<Rightarrow> f ps)"

definition ExecuteWorkflowStart :: "workflow_instance \<Rightarrow> unit eprog" where
  "ExecuteWorkflowStart inst = with_plugins (run_hooks (\<lambda>p n. pl_OnWorkflowStart p n inst))"

definition ExecuteWorkflowComplete :: "workflow_instance \<Rightarrow> unit eprog" where
  "ExecuteWorkflowComplete inst = with_plugins (run_hooks_all (\<lambda>p n. pl_OnWorkflowComplete p n inst))"

definition ExecuteWorkflowFailed :: "workflow_instance \<Rightarrow> unit eprog" where
  "ExecuteWorkflowFailed inst = with_plugins (run_hooks_all (\<lambda>p n. pl_OnWorkflowFailed p n inst))"

definition ExecuteStepStart :: "workflow_instance \<Rightarrow> workflow_step \<Rightarrow> unit eprog" where
  "ExecuteStepStart inst st = with_plugins (run_hooks (\<lambda>p n. pl_OnStepStart p n inst st))"

definition ExecuteStepComplete :: "workflow_instance \<Rightarrow> workflow_step \<Rightarrow> unit eprog" where
  "ExecuteStepComplete inst st = with_plugins (run_hooks_all (\<lambda>p n. pl_OnStepComplete p n inst st))"

definition ExecuteStepFailed :: "workflow_instance \<Rightarrow> workflow_step \<Rightarrow> goerror \<Rightarrow> unit eprog" where
  "ExecuteStepFailed inst st e = with_plugins (run_hooks_all (\<lambda>p n. pl_OnStepFailed p n inst st e))"

definition ExecuteRollbackStepChain :: "int \<Rightarrow> string \<Rightarrow> int \<Rightarrow> unit eprog" where
  "ExecuteRollbackStepChain instanceID stepName depth =
     with_plugins (run_hooks_all (\<lambda>p n. pl_OnRollbackStepChain p n instanceID stepName depth))"

section \<open>Missing handlers\<close>

definition jitteredCooldown :: "int eprog" where
  "jitteredCooldown =
     bnd (gets (\<lambda>s. (en_missingHandlerCooldown s, en_missingHandlerJitterPct s))) (\<lambda>(base, pct).
     if base \<le> 0 then ret 0
     else if pct \<le> 0 then ret base
     else bnd (gets (\<lambda>s. en_random s (en_randomCount s))) (\<lambda>r.
       thn (modify (\<lambda>s. s\<lparr>en_randomCount := Suc (en_randomCount s)\<rparr>))
       (let delta = (r * 2 - 1) * pct;
            adj = of_int base * (1 + delta)
        in ret (trunc_rat (if adj < 1000000 then 1000000 else adj)))))"

definition shouldLogSkip :: "string \<Rightarrow> bool eprog" where
  "shouldLogSkip key =
     bnd (gets en_missingHandlerLogThrottle) (\<lambda>throttle.
     if throttle \<le> 0 then ret True
     else bnd time_now (\<lambda>now.
       bnd (gets en_skipLogNextAllowed) (\<lambda>m.
       if (case map_of m key of None \<Rightarrow> False | Some nxt \<Rightarrow> now < nxt) then ret False
       else thn (modify (\<lambda>s. s\<lparr>en_skipLogNextAllowed := AList.update key (now + throttle) m\<rparr>))
         (ret True))))"

section \<open>Cancel contexts\<close>

definition registerInstanceContext :: "int \<Rightarrow> int \<Rightarrow> nat \<Rightarrow> unit eprog" where
  "registerInstanceContext instanceID stepID cancel =
     modify (\<lambda>s. s\<lparr>en_cancelContexts := AList.update instanceID
       (AList.update stepID cancel
         (case map_of (en_cancelContexts s) instanceID of None \<Rightarrow> [] | Some m \<Rightarrow> m))
       (en_cancelContexts s)\<rparr>)"

definition unregisterInstanceContext :: "int \<Rightarrow> int \<Rightarrow> unit eprog" where
  "unregisterInstanceContext instanceID stepID =
     modify (\<lambda>s. case map_of (en_cancelContexts s) instanceID of
         None \<Rightarrow> s
       | Some m \<Rightarrow>
           let m' = AList.delete stepID m in
           s\<lparr>en_cancelContexts := (if m' = [] then AList.delete instanceID (en_cancelContexts s)
                                   else AList.update instanceID m' (en_cancelContexts s))\<rparr>)"

text \<open>\<open>context.WithCancel\<close>: a fresh context, cancelled when its number is in \<open>en_cancelled\<close>.\<close>

definition new_context :: "nat eprog" where
  "new_context s = (Ok (en_nextContext s), s\<lparr>en_nextContext := Suc (en_nextContext s)\<rparr>)"

definition cancel_contexts_of :: "int \<Rightarrow> unit eprog" where
  "cancel_contexts_of instanceID =
     modify (\<lambda>s. case map_of (en_cancelContexts s) instanceID of
         None \<Rightarrow> s
       | Some m \<Rightarrow> s\<lparr>en_cancelled := map snd m @ en_cancelled s,
                     en_cancelContexts := AList.delete instanceID (en_cancelContexts s)\<rparr>)"

definition processCancelRequests :: "unit eprog" where
  "processCancelRequests =
     bnd (gets (\<lambda>s. keys (en_cancelContexts s))) (\<lambda>instanceIDs.
     for_each instanceIDs (\<lambda>instanceID.
       bnd (attempt (GetCancelRequest instanceID)) (\<lambda>r.
       case r of Inl e \<Rightarrow> ret () | Inr req \<Rightarrow> cancel_contexts_of instanceID)))"

section \<open>Events\<close>

text \<open>\<open>_ = engine.store.LogEvent(...)\<close>\<close>

definition log_event :: "int \<Rightarrow> int option \<Rightarrow> string \<Rightarrow> (string \<times> json) list \<Rightarrow> unit eprog" where
  "log_event instanceID stepID eventType payload =
     ignore (LogEvent instanceID stepID eventType (Inr (JObject payload)))"

section \<open>Step pointers\<close>

text \<open>
  The engine passes steps as pointers.  A step read with \<open>GetStepsByInstance\<close> is a copy; one that
  \<open>GetStepByID\<close> returns, or that was just created, is the stored object itself, and later updates
  of the store show through it.
\<close>

datatype step_ref = StepCopy workflow_step | StepLive workflow_step

fun deref :: "'x memory_store_scheme \<Rightarrow> step_ref \<Rightarrow> workflow_step" where
  "deref s (StepCopy st) = st"
| "deref s (StepLive st) = (case map_of (ms_steps s) (ws_ID st) of None \<Rightarrow> st | Some cur \<Rightarrow> cur)"

fun ref_id :: "step_ref \<Rightarrow> int" where
  "ref_id (StepCopy st) = ws_ID st"
| "ref_id (StepLive st) = ws_ID st"

text \<open>\<open>step.Status = status\<close> through the pointer.\<close>

fun assign_status :: "step_ref \<Rightarrow> step_status \<Rightarrow> step_ref eprog" where
  "assign_status (StepCopy st) status = ret (StepCopy (st\<lparr>ws_Status := status\<rparr>))"
| "assign_status (StepLive st) status =
     thn (ignore (UpdateStepStatus (ws_ID st) status)) (ret (StepLive st))"

end
