(* ===== verification/Engine_Options.thy ===== *)
theory Engine_Options
  imports Engine_State
begin

text \<open>
  The options of \<open>src/engine_opts.go\<close> that choose the parts of an engine: store, transaction manager, plugin manager and
  intervals, with \<open>NewEngine\<close> as the function that applies them in their order to the defaults.  The engine state of the other
  theories has its memory store built in; here the store is a value of its own, so that an option can replace it.
  The two options on priority aging act on the store that the engine has when they are applied.

  The rest of a step's execution context (\<open>src/execution_context.go\<close>): the text of a variable, where the
  formatting of Go values is a parameter.
\<close>

section \<open>Options\<close>

record 's store_settings =
  so_SetAgingEnabled :: "bool \<Rightarrow> 's \<Rightarrow> 's"
  so_SetAgingRate :: "rat \<Rightarrow> 's \<Rightarrow> 's"

record ('s, 't) engine_config =
  cf_txManager :: 't
  cf_store :: 's
  cf_cancelWorkerInterval :: int
  cf_awaitPollInterval :: int
  cf_pluginManager :: "plugin list option"
  cf_missingHandlerCooldown :: int
  cf_missingHandlerLogThrottle :: int
  cf_missingHandlerJitterPct :: rat

type_synonym ('s, 't) engine_option = "('s, 't) engine_config \<Rightarrow> ('s, 't) engine_config"

definition defaultCancelWorkerInterval :: int where
  "defaultCancelWorkerInterval = 100 * 1000000"

definition defaultAwaitPollInterval :: int where
  "defaultAwaitPollInterval = 100 * 1000000"

definition NewEngine_config :: "'t \<Rightarrow> 's \<Rightarrow> ('s, 't) engine_option list \<Rightarrow> ('s, 't) engine_config" where
  "NewEngine_config txManager store opts =
     fold (\<lambda>opt c. opt c) opts
       \<lparr>cf_txManager = txManager, cf_store = store, cf_cancelWorkerInterval = defaultCancelWorkerInterval,
        cf_awaitPollInterval = defaultAwaitPollInterval, cf_pluginManager = None,
        cf_missingHandlerCooldown = second_ns, cf_missingHandlerLogThrottle = 5 * second_ns,
        cf_missingHandlerJitterPct = 1 / 5\<rparr>"

definition WithEngineCancelInterval :: "int \<Rightarrow> ('s, 't) engine_option" where
  "WithEngineCancelInterval interval c = c\<lparr>cf_cancelWorkerInterval := interval\<rparr>"

definition WithEngineAwaitPollInterval :: "int \<Rightarrow> ('s, 't) engine_option" where
  "WithEngineAwaitPollInterval interval c = c\<lparr>cf_awaitPollInterval := interval\<rparr>"

definition WithEngineTxManager :: "'t \<Rightarrow> ('s, 't) engine_option" where
  "WithEngineTxManager txManager c = c\<lparr>cf_txManager := txManager\<rparr>"

definition WithEngineStore :: "'s \<Rightarrow> ('s, 't) engine_option" where
  "WithEngineStore store c = c\<lparr>cf_store := store\<rparr>"

definition WithEnginePluginManager :: "plugin list option \<Rightarrow> ('s, 't) engine_option" where
  "WithEnginePluginManager pluginManager c = c\<lparr>cf_pluginManager := pluginManager\<rparr>"

definition config_QueueAgingEnabled :: "'s store_settings \<Rightarrow> bool \<Rightarrow> ('s, 't) engine_option" where
  "config_QueueAgingEnabled ops enabled c = c\<lparr>cf_store := so_SetAgingEnabled ops enabled (cf_store c)\<rparr>"

definition config_QueueAgingRate :: "'s store_settings \<Rightarrow> rat \<Rightarrow> ('s, 't) engine_option" where
  "config_QueueAgingRate ops rate c = c\<lparr>cf_store := so_SetAgingRate ops (if rate < 0 then 0 else rate) (cf_store c)\<rparr>"

text \<open>The settings of the memory store.\<close>

definition memory_settings :: "memory_store store_settings" where
  "memory_settings = \<lparr>so_SetAgingEnabled = \<lambda>b s. snd (SetAgingEnabled b s), so_SetAgingRate = \<lambda>r s. snd (SetAgingRate r s)\<rparr>"

section \<open>Execution contexts\<close>

definition GetVariableAsString :: "(json \<Rightarrow> string) \<Rightarrow> exec_context \<Rightarrow> string \<Rightarrow> string \<times> bool" where
  "GetVariableAsString sprint c key = (case GetVariable c key of None \<Rightarrow> ([], False) | Some v \<Rightarrow> (sprint v, True))"

section \<open>The order of the options\<close>

lemma NewEngine_config_append:
  "NewEngine_config tx s (xs @ ys) = fold (\<lambda>opt c. opt c) ys (NewEngine_config tx s xs)"
  by (simp add: NewEngine_config_def)

lemma WithEngineStore_last:
  "cf_store (NewEngine_config tx s (opts @ [WithEngineStore store])) = store"
  by (simp add: NewEngine_config_append WithEngineStore_def)

text \<open>
  The aging options depend on their place.  Given after \<open>WithEngineStore\<close> they set up the store that the engine uses, with a
  negative rate taken as 0; given before it they set up the default store, which is then thrown away, and the
  store that the engine uses keeps its own rate, whatever the options say.
\<close>

theorem aging_option_order:
  fixes store :: memory_store
  shows "ms_agingRate (cf_store (NewEngine_config tx s [WithEngineStore store, config_QueueAgingRate memory_settings rate])) = max 0 rate \<and>
    cf_store (NewEngine_config tx s (opts @ [config_QueueAgingRate memory_settings rate, WithEngineStore store])) = store"
  by (simp add: NewEngine_config_def WithEngineStore_def config_QueueAgingRate_def memory_settings_def SetAgingRate_def modify_def max_def)

end
