(* ===== verification/Engine_Join.thy ===== *)
theory Engine_Join
  imports Engine_State
begin

text \<open>
  The part of \<open>src/engine.go\<close> that keeps joins up to date: which fork a step belongs to, whether
  branches of a fork still have work, and the two notifications that update join states and
  create the join step when it is ready.
\<close>

section \<open>Fork lookup through the store\<close>

text \<open>The definition of the instance's workflow, as the helpers read it; any error is \<open>None\<close>.\<close>

definition instance_def :: "int \<Rightarrow> workflow_definition option eprog" where
  "instance_def instanceID =
     bnd (attempt (GetInstance instanceID)) (\<lambda>r.
     case r of
       Inl e \<Rightarrow> ret None
     | Inr inst \<Rightarrow>
         bnd (attempt (GetWorkflowDefinition (wi_WorkflowID inst))) (\<lambda>q.
         case q of Inl e \<Rightarrow> ret None | Inr def \<Rightarrow> ret (Some def)))"

definition findForkStepForParallelStep :: "int \<Rightarrow> string \<Rightarrow> string eprog" where
  "findForkStepForParallelStep instanceID parallelStepName =
     bnd (instance_def instanceID) (\<lambda>d.
     case d of None \<Rightarrow> ret [] | Some def \<Rightarrow> ret (fork_with (def_steps def) parallelStepName))"

definition isStepInForkBranch :: "int \<Rightarrow> string \<Rightarrow> bool eprog" where
  "isStepInForkBranch instanceID stepName =
     bnd (findForkStepForParallelStep instanceID stepName) (\<lambda>f. ret (f \<noteq> []))"

text \<open>
  The fork of a join: for the first waited-for step that exists, the fork it belongs to; the
  search goes on while that is empty.
\<close>

definition fork_of_join :: "int \<Rightarrow> string list \<Rightarrow> workflow_step list \<Rightarrow> string eprog" where
  "fork_of_join instanceID waitFor allSteps =
     bnd (for_find waitFor (\<lambda>w.
       if \<exists>st \<in> set allSteps. ws_StepName st = w
       then bnd (findForkStepForParallelStep instanceID w) (\<lambda>f. ret (if f \<noteq> [] then Some f else None))
       else ret None)) (\<lambda>r.
     ret (case r of None \<Rightarrow> [] | Some f \<Rightarrow> f))"

definition hasPendingStepsInParallelBranches ::
  "int \<Rightarrow> step_definition \<Rightarrow> workflow_step list \<Rightarrow> bool eprog" where
  "hasPendingStepsInParallelBranches instanceID joinStepDef allSteps =
     bnd (fork_of_join instanceID (sd_WaitFor joinStepDef) allSteps) (\<lambda>forkStepName.
     if forkStepName = [] then ret False
     else bnd (instance_def instanceID) (\<lambda>d.
       case d of
         None \<Rightarrow> ret False
       | Some def \<Rightarrow>
           (case map_of (def_steps def) forkStepName of
              None \<Rightarrow> ret False
            | Some forkStepDef \<Rightarrow>
                if sd_Type forkStepDef \<noteq> StepTypeFork then ret False
                else ret (\<exists>st \<in> set allSteps.
                  (ws_Status st = StepStatusPending \<or> ws_Status st = StepStatusRunning) \<and>
                  isStepInParallelBranch (ws_StepName st) forkStepDef def \<and>
                  ws_StepName st \<notin> set (sd_WaitFor joinStepDef)))))"

section \<open>Notifying joins\<close>

text \<open>The join step is created once; in the dead letter state it is created paused and not queued.\<close>

definition create_join_step ::
  "int \<Rightarrow> string \<Rightarrow> string \<Rightarrow> workflow_instance \<Rightarrow> workflow_step list \<Rightarrow> unit eprog" where
  "create_join_step instanceID joinStepName completedStepName inst readySteps =
     (if \<exists>st \<in> set readySteps. ws_StepName st = joinStepName then ret ()
      else
        let joinInput = (case find (\<lambda>st. ws_StepName st = completedStepName) readySteps of
                           None \<Rightarrow> RawNil | Some st \<Rightarrow> ws_Input st);
            ready = [(''join_step'', JString joinStepName)]
        in if wi_Status inst = StatusDLQ
           then bnd (wrap_err ''create join step''
                  (CreateStep (new_step instanceID joinStepName StepTypeJoin StepStatusPaused joinInput 0))) (\<lambda>st.
                log_event instanceID (Some (ws_ID st)) ''join_ready'' ready)
           else bnd (wrap_err ''create join step''
                  (CreateStep (new_step instanceID joinStepName StepTypeJoin StepStatusPending joinInput 0))) (\<lambda>st.
                thn (wrap_err ''enqueue join step''
                  (EnqueueStep instanceID (Some (ws_ID st)) PriorityNormal 0))
                (log_event instanceID (Some (ws_ID st)) ''join_ready'' ready)))"

text \<open>The common part of both notifications, from \<open>UpdateJoinState\<close> on.\<close>

definition update_join ::
  "int \<Rightarrow> string \<Rightarrow> step_definition \<Rightarrow> string \<Rightarrow> bool \<Rightarrow> workflow_instance \<Rightarrow> unit eprog" where
  "update_join instanceID joinStepName joinDef completedStepName success inst =
     bnd (wrap_err (''update join state for '' @ joinStepName)
       (UpdateJoinState instanceID joinStepName completedStepName success)) (\<lambda>ready0.
     bnd (if ready0 then
            bnd (GetStepsByInstance instanceID) (\<lambda>readySteps.
            bnd (hasPendingStepsInParallelBranches instanceID joinDef readySteps) (\<lambda>hasPending.
            if hasPending
            then thn (ignore (UpdateJoinState instanceID joinStepName completedStepName success))
                 (ret (False, readySteps))
            else ret (True, readySteps)))
          else ret (False, [])) (\<lambda>(isReady, readySteps).
     thn (log_event instanceID None ''join_updated''
       [(''join_step'', JString joinStepName), (''completed_step'', JString completedStepName),
        (''success'', JBool success), (''is_ready'', JBool isReady)])
     (if isReady then create_join_step instanceID joinStepName completedStepName inst readySteps
      else ret ())))"

definition notifyJoinStepsForStep :: "int \<Rightarrow> string \<Rightarrow> string \<Rightarrow> bool \<Rightarrow> unit eprog" where
  "notifyJoinStepsForStep instanceID joinStepName completedStepName success =
     bnd (GetInstance instanceID) (\<lambda>inst.
     bnd (GetWorkflowDefinition (wi_WorkflowID inst)) (\<lambda>def.
     case map_of (def_steps def) joinStepName of
       None \<Rightarrow> throw (Errorf (''join step '' @ joinStepName @ '' not found or not a join step''))
     | Some joinDef \<Rightarrow>
         if sd_Type joinDef \<noteq> StepTypeJoin
         then throw (Errorf (''join step '' @ joinStepName @ '' not found or not a join step''))
         else update_join instanceID joinStepName joinDef completedStepName success inst))"

text \<open>A join waits for a step if its join state says so, or if its definition does.\<close>

definition waits_for :: "int \<Rightarrow> string \<Rightarrow> step_definition \<Rightarrow> string \<Rightarrow> bool eprog" where
  "waits_for instanceID joinStepName joinDef completedStepName =
     bnd (attempt (GetJoinState instanceID joinStepName)) (\<lambda>r.
     ret ((case r of Inl e \<Rightarrow> False | Inr js \<Rightarrow> completedStepName \<in> set (js_WaitingFor js)) \<or>
          completedStepName \<in> set (sd_WaitFor joinDef)))"

definition notifyJoinSteps :: "int \<Rightarrow> string \<Rightarrow> bool \<Rightarrow> unit eprog" where
  "notifyJoinSteps instanceID completedStepName success =
     bnd (GetInstance instanceID) (\<lambda>inst.
     bnd (GetWorkflowDefinition (wi_WorkflowID inst)) (\<lambda>def.
     for_each (def_steps def) (\<lambda>(stepName, stepDef).
       if sd_Type stepDef \<noteq> StepTypeJoin then ret ()
       else bnd (waits_for instanceID stepName stepDef completedStepName) (\<lambda>waiting.
         if \<not> waiting then ret ()
         else update_join instanceID stepName stepDef completedStepName success inst))))"

end
