(* ===== verification/Retry_Delay.thy ===== *)
theory Retry_Delay
  imports Models "HOL-Library.Word"
begin

text \<open>
  \<open>CalculateRetryDelay\<close> of \<open>src/helpers.go\<close>, at the width of Go's types: \<open>time.Duration\<close> is a
  signed 64-bit integer, the linear strategy multiplies in 64 bits, the exponential one goes
  through \<open>float64\<close>.

  \<open>float64(d)\<close> keeps 53 significant bits (round to nearest, ties to even); multiplying by
  a power of two is exact; the conversion back truncates.  Go leaves the conversion of a value
  outside the range of \<open>int64\<close> to the implementation; here it is that of amd64, the least
  integer.
\<close>

definition min_int64 :: int where
  "min_int64 = - (2 ^ 63)"

definition fits_int64 :: "int \<Rightarrow> bool" where
  "fits_int64 v \<longleftrightarrow> - (2 ^ 63) \<le> v \<and> v < 2 ^ 63"

text \<open>The product of two \<open>int64\<close> values.\<close>

definition mul_int64 :: "int \<Rightarrow> int \<Rightarrow> int" where
  "mul_int64 a b = sint (of_int a * of_int b :: 64 word)"

fun bit_length :: "nat \<Rightarrow> nat" where
  "bit_length n = (if n = 0 then 0 else Suc (bit_length (n div 2)))"

declare bit_length.simps [simp del]

definition round_even :: "nat \<Rightarrow> nat \<Rightarrow> nat" where
  "round_even n q =
     (let k = n div q; r = n mod q in
      if 2 * r < q then k * q
      else if 2 * r > q then (k + 1) * q
      else if even k then k * q else (k + 1) * q)"

definition f64_of_nat :: "nat \<Rightarrow> nat" where
  "f64_of_nat n = (if n < 2 ^ 53 then n else round_even n (2 ^ (bit_length n - 53)))"

definition f64_of_int :: "int \<Rightarrow> int" where
  "f64_of_int v = sgn v * int (f64_of_nat (nat \<bar>v\<bar>))"

definition int64_of_f64 :: "int \<Rightarrow> int" where
  "int64_of_f64 v = (if fits_int64 v then v else min_int64)"

definition exponential_delay :: "int \<Rightarrow> int \<Rightarrow> int" where
  "exponential_delay baseDelay retryAttempt =
     (let b = f64_of_int baseDelay in
      if 0 \<le> retryAttempt then
        (if retryAttempt > 1023 then min_int64 else int64_of_f64 (b * 2 ^ nat retryAttempt))
      else sgn b * (\<bar>b\<bar> div 2 ^ nat (- retryAttempt)))"

definition CalculateRetryDelay :: "retry_strategy \<Rightarrow> int \<Rightarrow> int \<Rightarrow> int" where
  "CalculateRetryDelay strategy baseDelay retryAttempt =
     (case strategy of
        RetryStrategyExponential \<Rightarrow> exponential_delay baseDelay retryAttempt
      | RetryStrategyLinear \<Rightarrow> mul_int64 baseDelay retryAttempt
      | RetryStrategyFixed \<Rightarrow> baseDelay
      | RetryStrategyOther _ \<Rightarrow> baseDelay)"

section \<open>Correctness\<close>

lemma mul_int64_exact: "fits_int64 (a * b) \<Longrightarrow> mul_int64 a b = a * b"
proof -
  assume "fits_int64 (a * b)"
  then have "signed_take_bit 63 (a * b) = a * b"
    by (simp add: fits_int64_def signed_take_bit_int_eq_self_iff)
  moreover have "sint (word_of_int (a * b) :: 64 word) = signed_take_bit 63 (a * b)"
    by (simp only: signed_of_int) simp
  ultimately show ?thesis
    unfolding mul_int64_def by (simp only: of_int_mult)
qed

lemma mul_int64_range: "fits_int64 (mul_int64 a b)"
  using sint_lt [of "of_int a * of_int b :: 64 word"] sint_ge [of "of_int a * of_int b :: 64 word"]
  by (simp add: mul_int64_def fits_int64_def)

lemma f64_of_int_small: "\<bar>v\<bar> < 2 ^ 53 \<Longrightarrow> f64_of_int v = v"
  by (auto simp: f64_of_int_def f64_of_nat_def sgn_mult_abs nat_less_iff)

lemma exponential_exact:
  assumes "0 \<le> base" and "base < 2 ^ 53" and "0 \<le> n" and "base * 2 ^ nat n < 2 ^ 63" and "n \<le> 1023"
  shows "exponential_delay base n = base * 2 ^ nat n"
proof -
  have "f64_of_int base = base" using assms by (intro f64_of_int_small) simp
  moreover have "- (2 ^ 63) \<le> base * 2 ^ nat n"
    using assms(1) by (meson le_minus_iff order_trans zero_le_mult_iff zero_le_numeral zero_le_power
        neg_le_0_iff_le)
  ultimately show ?thesis
    using assms by (simp add: exponential_delay_def int64_of_f64_def fits_int64_def)
qed

section \<open>Properties\<close>



text \<open>
  When the exponential delay leaves the 64-bit range it does not saturate: the result is the
  least duration, a negative delay, so the retry is due at once.
\<close>

theorem exponential_delay_overflow:
  assumes "0 < base" and "base < 2 ^ 53" and "0 \<le> n" and "\<not> fits_int64 (base * 2 ^ nat n)"
  shows "CalculateRetryDelay RetryStrategyExponential base n = min_int64 \<and> min_int64 < 0"
  using assms f64_of_int_small [of base]
  by (simp add: CalculateRetryDelay_def exponential_delay_def int64_of_f64_def min_int64_def)

theorem exponential_delay_overflow_witness:
  "CalculateRetryDelay RetryStrategyExponential 1000000000 34 = min_int64 \<and> min_int64 < 0"
  by (rule exponential_delay_overflow) (simp_all add: fits_int64_def)

end
