(* ===== verification/Engine_Rollback.thy ===== *)
theory Engine_Rollback
  imports Engine_Join Retry_Delay
begin

text \<open>
  Rollback in \<open>src/engine.go\<close>: compensating one step, the traversal that rolls back a chain of
  steps to a save point, stopping the siblings of a failed fork branch, stopping all active
  steps, and queueing completed steps for compensation.

  The traversal shares a map of visited steps between its recursive calls; it is the
  second component of the state here, and fuel bounds the depth of the recursion.
\<close>

section \<open>Compensating one step\<close>

definition dead_letter :: "workflow_step \<Rightarrow> string \<Rightarrow> string option \<Rightarrow> string \<Rightarrow> dead_letter_record" where
  "dead_letter st workflowID errMsg reason =
     \<lparr>dl_ID = 0, dl_InstanceID = ws_InstanceID st, dl_WorkflowID = workflowID, dl_StepID = ws_ID st,
      dl_StepName = ws_StepName st, dl_StepType = step_type_text (ws_StepType st),
      dl_Input = ws_Input st, dl_Error = errMsg, dl_Reason = reason, dl_CreatedAt = 0\<rparr>"

definition compensation_delay :: "step_definition \<Rightarrow> int \<Rightarrow> int" where
  "compensation_delay onFailureStep newRetryCount =
     (let retryDelay = CalculateRetryDelay (sd_RetryStrategy onFailureStep) (sd_RetryDelay onFailureStep) newRetryCount
      in if retryDelay = 0 then sd_Delay onFailureStep else retryDelay)"

definition rollbackStep :: "workflow_step \<Rightarrow> workflow_definition \<Rightarrow> unit eprog" where
  "rollbackStep st def =
     (case map_of (def_steps def) (ws_StepName st) of
        None \<Rightarrow> throw (Errorf (''step definition not found: '' @ ws_StepName st))
      | Some stepDef \<Rightarrow>
      case map_of (def_steps def) (sd_OnFailure stepDef) of
        None \<Rightarrow>
          wrap_err ''update step status'' (UpdateStep (ws_ID st) StepStatusRolledBack (ws_Input st) None)
      | Some onFailureStep \<Rightarrow>
          if ws_CompensationRetryCount st \<ge> sd_MaxRetries onFailureStep then
            (let reason = ''compensation max retries exceeded'' in
             thn (wrap_err ''update step status'' (UpdateStep (ws_ID st) StepStatusFailed (ws_Input st) None))
            (thn (log_event (ws_InstanceID st) (Some (ws_ID st)) ''step_failed''
               [(''step_name'', JString (ws_StepName st)),
                (''step_type'', JString (step_type_text (ws_StepType st))), (''error'', JString reason)])
             (wrap_err ''create dead letter record''
               (CreateDeadLetterRecord (dead_letter st (wd_ID def) (ws_Error st) reason)))))
          else
            (let newRetryCount = ws_CompensationRetryCount st + 1 in
             thn (wrap_err ''update step compensation retry''
               (UpdateStepCompensationRetry (ws_ID st) newRetryCount StepStatusCompensation))
            (thn (wrap_err ''enqueue compensation step''
               (EnqueueStep (ws_InstanceID st) (Some (ws_ID st)) PriorityHigh
                 (compensation_delay onFailureStep newRetryCount)))
             (log_event (ws_InstanceID st) (Some (ws_ID st)) ''step_started''
               [(''step_name'', JString (ws_StepName st)),
                (''step_type'', JString (step_type_text (ws_StepType st))),
                (''retry_count'', JInt newRetryCount), (''reason'', JString ''compensation'')]))))"

section \<open>The rollback traversal\<close>

definition on_fst :: "('s, 'a) prog \<Rightarrow> ('s \<times> 'v, 'a) prog" where
  "on_fst m = (\<lambda>(s, v). case m s of (r, t) \<Rightarrow> (r, (t, v)))"

type_synonym step_map = "(string, workflow_step) gomap"

definition build_step_map :: "workflow_step list \<Rightarrow> step_map" where
  "build_step_map sts = fold (\<lambda>st m. AList.update (ws_StepName st) st m) sts []"

definition rollback_candidate :: "step_map \<Rightarrow> string \<Rightarrow> workflow_step option" where
  "rollback_candidate stepMap name =
     (case map_of stepMap name of
        None \<Rightarrow> None
      | Some st \<Rightarrow> if ws_Status st = StepStatusCompleted \<or> ws_Status st = StepStatusFailed
          then Some st else None)"

text \<open>The steps after the current one that a parallel branch goes on to.\<close>

definition branch_targets :: "step_definition \<Rightarrow> step_map \<Rightarrow> string \<Rightarrow> string list" where
  "branch_targets stepDef stepMap currentStep =
     (if sd_Type stepDef = StepTypeCondition then
        (case map_of stepMap currentStep of
           None \<Rightarrow> []
         | Some st \<Rightarrow>
             if ws_Status st = StepStatusCompleted then
               (case determineExecutedBranch stepDef stepMap of
                  BranchNext \<Rightarrow> sd_Next stepDef
                | BranchElse \<Rightarrow> (if sd_Else stepDef \<noteq> [] then [sd_Else stepDef] else [])
                | BranchNone \<Rightarrow> [])
             else [])
      else sd_Next stepDef)"

fun rollbackStepChainWithVisited :: "nat \<Rightarrow> int \<Rightarrow> string \<Rightarrow> workflow_definition \<Rightarrow> step_map \<Rightarrow>
    string \<Rightarrow> bool \<Rightarrow> int \<Rightarrow> (engine \<times> string list, unit) prog" where
  "rollbackStepChainWithVisited 0 instanceID savePointName def stepMap currentStep isParallel depth = stuck"
| "rollbackStepChainWithVisited (Suc fuel) instanceID savePointName def stepMap currentStep isParallel depth =
     thn (on_fst (ignore (ExecuteRollbackStepChain instanceID currentStep depth)))
     (bnd (gets (\<lambda>(s, visited). currentStep \<in> set visited)) (\<lambda>seen.
      if seen then ret ()
      else thn (modify (\<lambda>(s, visited). (s, currentStep # visited)))
       (if currentStep = savePointName then ret ()
        else case map_of (def_steps def) currentStep of
          None \<Rightarrow> throw (Errorf (''step definition not found: '' @ currentStep))
        | Some stepDef \<Rightarrow>
            thn (if is_fork_like stepDef
                 then for_each (sd_Parallel stepDef) (\<lambda>p.
                   rollbackStepChainWithVisited fuel instanceID savePointName def stepMap p True (depth + 1))
                 else ret ())
           (thn (if isParallel
                 then for_each (branch_targets stepDef stepMap currentStep) (\<lambda>n.
                   rollbackStepChainWithVisited fuel instanceID savePointName def stepMap n True (depth + 1))
                 else ret ())
           (thn (case rollback_candidate stepMap currentStep of
                   None \<Rightarrow> ret ()
                 | Some st \<Rightarrow> on_fst (wrap_err (''rollback step '' @ currentStep) (rollbackStep st def)))
            (if sd_Prev stepDef \<noteq> [] \<and> sd_Prev stepDef \<noteq> rootStepName \<and> \<not> isParallel
             then thn (case map_of (def_steps def) (sd_Prev stepDef) of
                         None \<Rightarrow> ret ()
                       | Some prevDef \<Rightarrow>
                           if is_fork_like prevDef
                           then for_each (sd_Parallel prevDef) (\<lambda>p.
                             rollbackStepChainWithVisited fuel instanceID savePointName def stepMap p True (depth + 1))
                           else ret ())
                  (rollbackStepChainWithVisited fuel instanceID savePointName def stepMap (sd_Prev stepDef) False (depth + 1))
             else ret ()))))))"

definition rollback_fuel :: "workflow_definition \<Rightarrow> nat" where
  "rollback_fuel def = length (def_steps def) + 2"

definition rollbackStepChain :: "int \<Rightarrow> string \<Rightarrow> string \<Rightarrow> workflow_definition \<Rightarrow> step_map \<Rightarrow>
    bool \<Rightarrow> int \<Rightarrow> unit eprog" where
  "rollbackStepChain instanceID currentStep savePointName def stepMap isParallel depth s =
     (case rollbackStepChainWithVisited (rollback_fuel def) instanceID savePointName def stepMap
             currentStep isParallel depth (s, []) of
        (r, (t, visited)) \<Rightarrow> (r, t))"

definition rollbackStepsToSavePoint :: "int \<Rightarrow> workflow_step \<Rightarrow> string \<Rightarrow> workflow_definition \<Rightarrow> unit eprog" where
  "rollbackStepsToSavePoint instanceID failedStep savePointName def =
     bnd (wrap_err ''get steps by instance'' (GetStepsByInstance instanceID)) (\<lambda>sts.
     let m = build_step_map sts;
         stepMap = (if has_key m (ws_StepName failedStep) then m
                    else AList.update (ws_StepName failedStep) failedStep m)
     in rollbackStepChain instanceID (ws_StepName failedStep) savePointName def stepMap False 0)"

definition rollbackToSavePointOrRoot :: "int \<Rightarrow> workflow_step \<Rightarrow> workflow_definition \<Rightarrow> unit eprog" where
  "rollbackToSavePointOrRoot instanceID failedStep def =
     rollbackStepsToSavePoint instanceID failedStep
       (findNearestSavePoint (ws_StepName failedStep) def) def"

section \<open>Stopping steps\<close>

definition stopParallelBranchesInFork :: "int \<Rightarrow> string \<Rightarrow> workflow_definition \<Rightarrow> unit eprog" where
  "stopParallelBranchesInFork instanceID failedStepName def =
     bnd (findForkStepForParallelStep instanceID failedStepName) (\<lambda>forkStepName.
     if forkStepName = [] then ret ()
     else case map_of (def_steps def) forkStepName of
       None \<Rightarrow> ret ()
     | Some forkStepDef \<Rightarrow>
         if sd_Type forkStepDef \<noteq> StepTypeFork then ret ()
         else bnd (wrap_err ''get steps'' (GetStepsByInstance instanceID)) (\<lambda>sts.
           for_each sts (\<lambda>st.
             if ws_StepName st = failedStepName then ret ()
             else if \<not> isStepInParallelBranch (ws_StepName st) forkStepDef def then ret ()
             else if ws_Status st \<noteq> StepStatusPending \<and> ws_Status st \<noteq> StepStatusRunning then ret ()
             else
               let skipMsg = ''Skipped due to parallel branch failure'' in
               bnd (attempt (UpdateStep (ws_ID st) StepStatusSkipped RawNil (Some skipMsg))) (\<lambda>r.
               case r of
                 Inl e \<Rightarrow> ret ()
               | Inr _ \<Rightarrow> log_event instanceID (Some (ws_ID st)) ''step_failed''
                   [(''step_name'', JString (ws_StepName st)),
                    (''reason'', JString ''parallel_branch_failure''),
                    (''message'', JString skipMsg)]))))"

definition stopActiveSteps :: "int \<Rightarrow> unit eprog" where
  "stopActiveSteps instanceID =
     bnd (wrap_err ''get active steps'' (GetActiveStepsForUpdate instanceID)) (\<lambda>sts.
     for_each sts (\<lambda>st.
       thn (wrap_err (''update step '' @ show_int (ws_ID st) @ '' status to skipped'')
         (UpdateStep (ws_ID st) StepStatusSkipped RawNil
           (Some ''Stopped due to workflow cancellation/abort'')))
       (log_event instanceID (Some (ws_ID st)) ''step_failed''
         [(''step_name'', JString (ws_StepName st)), (''reason'', JString ''workflow_stopped'')])))"

section \<open>Looking at the steps of an instance\<close>

definition any_step :: "(step_status \<Rightarrow> bool) \<Rightarrow> int \<Rightarrow> bool eprog" where
  "any_step P instanceID =
     bnd (attempt (GetStepsByInstance instanceID)) (\<lambda>r.
     ret (case r of Inl e \<Rightarrow> False | Inr sts \<Rightarrow> \<exists>st \<in> set sts. P (ws_Status st)))"

definition hasUnfinishedSteps :: "int \<Rightarrow> bool eprog" where
  "hasUnfinishedSteps instanceID =
     any_step (\<lambda>x. x = StepStatusPending \<or> x = StepStatusRunning \<or> x = StepStatusPaused) instanceID"

definition hasFailedOrRolledBackSteps :: "int \<Rightarrow> bool eprog" where
  "hasFailedOrRolledBackSteps instanceID =
     any_step (\<lambda>x. x = StepStatusFailed \<or> x = StepStatusRolledBack) instanceID"

definition hasStepsInCompensation :: "int \<Rightarrow> bool eprog" where
  "hasStepsInCompensation instanceID = any_step (\<lambda>x. x = StepStatusCompensation) instanceID"

section \<open>Compensation of completed steps\<close>

text \<open>The save point created last; on equal times the earlier one in the list stays.\<close>

definition later_save_point :: "workflow_step \<Rightarrow> workflow_step option \<Rightarrow> workflow_step option" where
  "later_save_point st acc =
     (if ws_StepType st = StepTypeSavePoint \<and>
         (case acc of None \<Rightarrow> True | Some b \<Rightarrow> ws_CreatedAt b < ws_CreatedAt st)
      then Some st else acc)"

definition last_save_point :: "workflow_step list \<Rightarrow> workflow_step option" where
  "last_save_point sts = fold later_save_point sts None"

definition after_save_point :: "workflow_step option \<Rightarrow> workflow_step \<Rightarrow> bool" where
  "after_save_point sp st =
     (case sp of None \<Rightarrow> True | Some b \<Rightarrow> ws_CreatedAt b < ws_CreatedAt st)"

definition has_compensation :: "workflow_definition \<Rightarrow> workflow_step \<Rightarrow> bool" where
  "has_compensation def st =
     (case map_of (def_steps def) (ws_StepName st) of
        None \<Rightarrow> False | Some stepDef \<Rightarrow> sd_OnFailure stepDef \<noteq> [])"

definition to_roll_back :: "workflow_step list \<Rightarrow> workflow_step list" where
  "to_roll_back sts =
     filter (\<lambda>st. ws_Status st = StepStatusCompleted \<and> after_save_point (last_save_point sts) st) sts"

definition mark_rolled_back :: "int \<Rightarrow> workflow_step \<Rightarrow> unit eprog" where
  "mark_rolled_back instanceID st =
     thn (ignore (UpdateStep (ws_ID st) StepStatusRolledBack (ws_Input st) None))
     (log_event instanceID (Some (ws_ID st)) ''step_completed''
       [(''step_name'', JString (ws_StepName st)), (''reason'', JString ''rolled_back_no_compensation'')])"

definition millisecond_ns :: int where
  "millisecond_ns = 1000000"

fun enqueue_compensations :: "int \<Rightarrow> int \<Rightarrow> workflow_step list \<Rightarrow> unit eprog" where
  "enqueue_compensations instanceID idx [] = ret ()"
| "enqueue_compensations instanceID idx (st # sts) =
     thn
     (bnd (attempt (UpdateStepCompensationRetry (ws_ID st) 0 StepStatusCompensation)) (\<lambda>r.
      case r of
        Inl e \<Rightarrow> ret ()
      | Inr _ \<Rightarrow>
          bnd (attempt (EnqueueStep instanceID (Some (ws_ID st)) PriorityHigh
            (millisecond_ns * (idx * 10)))) (\<lambda>q.
          case q of
            Inl e \<Rightarrow> ret ()
          | Inr _ \<Rightarrow> log_event instanceID (Some (ws_ID st)) ''step_started''
              [(''step_name'', JString (ws_StepName st)),
               (''reason'', JString ''enqueued_for_rollback_after_failure'')])))
     (enqueue_compensations instanceID (idx + 1) sts)"

definition enqueueCompletedStepsForRollback :: "int \<Rightarrow> unit eprog" where
  "enqueueCompletedStepsForRollback instanceID =
     bnd (wrap_err ''get steps by instance'' (GetStepsByInstance instanceID)) (\<lambda>sts.
     bnd (wrap_err ''get instance'' (GetInstance instanceID)) (\<lambda>inst.
     bnd (wrap_err ''get workflow definition'' (GetWorkflowDefinition (wi_WorkflowID inst))) (\<lambda>def.
     thn (for_each (filter (\<lambda>st. \<not> has_compensation def st) (to_roll_back sts))
            (mark_rolled_back instanceID))
     (enqueue_compensations instanceID 0
       (sort_key (\<lambda>st. - ws_CreatedAt st) (filter (has_compensation def) (to_roll_back sts)))))))"

end
