(* ===== verification/Engine_Exec.thy ===== *)
theory Engine_Exec
  imports Engine_Rollback
begin

text \<open>
  Execution of a single step in \<open>src/engine.go\<close>: the six kinds of steps, what happens on
  success and on failure, compensation, cancellation and completion of the workflow.
\<close>

section \<open>Cancel and abort requests\<close>

definition is_final :: "workflow_status \<Rightarrow> bool" where
  "is_final st \<longleftrightarrow> st = StatusCompleted \<or> st = StatusFailed \<or> st = StatusCancelled \<or> st = StatusAborted"

definition request_stop :: "cancel_type \<Rightarrow> string \<Rightarrow> int \<Rightarrow> string \<Rightarrow> string \<Rightarrow> unit eprog" where
  "request_stop kind event instanceID requestedBy reason =
     bnd (wrap_err ''get instance'' (GetInstance instanceID)) (\<lambda>inst.
     if is_final (wi_Status inst)
     then throw (Errorf (''workflow '' @ show_int instanceID @ '' is already in terminal state: ''
            @ workflow_status_text (wi_Status inst)))
     else thn (wrap_err ''create cancel request'' (CreateCancelRequest
            \<lparr>cr_ID = 0, cr_InstanceID = instanceID, cr_RequestedBy = requestedBy,
             cr_CancelType = kind, cr_Reason = Some reason, cr_CreatedAt = 0\<rparr>))
       (log_event instanceID None event
         [(''requested_by'', JString requestedBy), (''reason'', JString reason),
          (''cancel_type'', JString (cancel_type_text kind))]))"

definition CancelWorkflow :: "int \<Rightarrow> string \<Rightarrow> string \<Rightarrow> unit eprog" where
  "CancelWorkflow = request_stop CancelTypeCancel ''cancellation_started''"

definition AbortWorkflow :: "int \<Rightarrow> string \<Rightarrow> string \<Rightarrow> unit eprog" where
  "AbortWorkflow = request_stop CancelTypeAbort ''abort_started''"

section \<open>Calling a handler\<close>

fun run_env :: "env_action \<Rightarrow> unit eprog" where
  "run_env (EnvCancel i by why) = ignore (CancelWorkflow i by why)"
| "run_env (EnvAbort i by why) = ignore (AbortWorkflow i by why)"
| "run_env EnvCancelWorker = processCancelRequests"

text \<open>
  A registered handler is wrapped by \<open>wrapProcessPanicHandler\<close>: a panic of the handler becomes
  an error (whose text also has the stack trace, left out here).
\<close>

definition call_handler :: "string \<Rightarrow> handler \<Rightarrow> exec_context \<Rightarrow> raw \<Rightarrow> raw eprog" where
  "call_handler name h ctx input =
     bnd (gets en_calls) (\<lambda>calls.
     let answer = h calls ctx input in
     thn (modify (\<lambda>s. s\<lparr>en_calls := en_calls s @
       [\<lparr>hc_Handler = name, hc_Context = ctx, hc_Input = input\<rparr>]\<rparr>))
    (thn (for_each (snd answer) run_env)
     (case fst answer of
        Returns out \<Rightarrow> ret out
      | Fails e \<Rightarrow> throw e
      | Panics p \<Rightarrow> throw (Errorf (''panic in handler '' @ quote name @ '': '' @ p)))))"

section \<open>Queueing the next steps\<close>

definition enqueue_one :: "int \<Rightarrow> workflow_definition \<Rightarrow> raw \<Rightarrow> string \<Rightarrow> unit eprog" where
  "enqueue_one instanceID def input nextStepName =
     (case map_of (def_steps def) nextStepName of
        None \<Rightarrow> throw (Errorf (''step definition not found: '' @ nextStepName))
      | Some stepDef \<Rightarrow>
          bnd (wrap_err ''create step'' (CreateStep
            (new_step instanceID nextStepName (sd_Type stepDef) StepStatusPending input (sd_MaxRetries stepDef)))) (\<lambda>st.
          wrap_err ''enqueue step''
            (EnqueueStep instanceID (Some (ws_ID st)) PriorityNormal (sd_Delay stepDef))))"

definition enqueueNextSteps :: "int \<Rightarrow> string list \<Rightarrow> raw \<Rightarrow> unit eprog" where
  "enqueueNextSteps instanceID nextSteps input =
     bnd (wrap_err ''get instance'' (GetInstance instanceID)) (\<lambda>inst.
     if wi_Status inst = StatusDLQ then ret ()
     else bnd (wrap_err ''get workflow definition'' (GetWorkflowDefinition (wi_WorkflowID inst))) (\<lambda>def.
       for_each nextSteps (enqueue_one instanceID def input)))"

definition createFirstStep :: "workflow_instance \<Rightarrow> workflow_step eprog" where
  "createFirstStep inst =
     bnd (GetWorkflowDefinition (wi_WorkflowID inst)) (\<lambda>def.
     case map_of (def_steps def) (def_start def) of
       None \<Rightarrow> throw (Errorf (''start step definition not found: '' @ def_start def))
     | Some startStepDef \<Rightarrow>
         CreateStep (new_step (wi_ID inst) (def_start def) (sd_Type startStepDef) StepStatusPending
           (wi_Input inst) (sd_MaxRetries startStepDef)))"

section \<open>Completion\<close>

definition final_hook :: "(workflow_instance \<Rightarrow> unit eprog) \<Rightarrow> int \<Rightarrow> unit eprog" where
  "final_hook hook instanceID =
     bnd (gets en_plugins) (\<lambda>pm.
     case pm of
       None \<Rightarrow> ret ()
     | Some _ \<Rightarrow>
         bnd (attempt (GetInstance instanceID)) (\<lambda>r.
         case r of Inl e \<Rightarrow> ret () | Inr inst \<Rightarrow> ignore (hook inst)))"

definition failed_steps_msg :: string where
  "failed_steps_msg = ''workflow has failed or rolled back steps''"

definition fail_workflow :: "int \<Rightarrow> string \<Rightarrow> unit eprog" where
  "fail_workflow instanceID workflowID =
     thn (wrap_err ''update instance status to failed''
       (UpdateInstanceStatus instanceID StatusFailed RawNil (Some failed_steps_msg)))
    (thn (log_event instanceID None ''workflow_failed''
       [(''workflow_id'', JString workflowID), (''reason'', JString failed_steps_msg)])
     (final_hook ExecuteWorkflowFailed instanceID))"

definition completeWorkflow :: "workflow_instance \<Rightarrow> raw \<Rightarrow> unit eprog" where
  "completeWorkflow inst output =
     bnd (hasFailedOrRolledBackSteps (wi_ID inst)) (\<lambda>failed.
     if failed then
       thn (ignore (enqueueCompletedStepsForRollback (wi_ID inst)))
      (bnd (hasStepsInCompensation (wi_ID inst)) (\<lambda>inCompensation.
       if inCompensation
       then log_event (wi_ID inst) None ''workflow_failed''
         [(''workflow_id'', JString (wi_WorkflowID inst)), (''reason'', JString ''compensation_in_progress'')]
       else fail_workflow (wi_ID inst) (wi_WorkflowID inst)))
     else
       thn (wrap_err ''update instance status'' (UpdateInstanceStatus (wi_ID inst) StatusCompleted output None))
      (thn (log_event (wi_ID inst) None ''workflow_completed'' [(''workflow_id'', JString (wi_WorkflowID inst))])
       (final_hook ExecuteWorkflowComplete (wi_ID inst))))"

section \<open>The kinds of steps\<close>

definition executeTask :: "workflow_instance \<Rightarrow> workflow_step \<Rightarrow> step_definition \<Rightarrow> raw eprog" where
  "executeTask inst st stepDef =
     bnd (gets en_handlers) (\<lambda>hs.
     case map_of hs (sd_Handler stepDef) of
       None \<Rightarrow> throw (Errorf (''handler not found: '' @ sd_Handler stepDef))
     | Some h \<Rightarrow>
         call_handler (sd_Handler stepDef) h
           \<lparr>ec_instanceID = wi_ID inst, ec_stepName = ws_StepName st,
            ec_idempotencyKey = ws_IdempotencyKey st, ec_retryCount = ws_RetryCount st,
            ec_variables = sd_Metadata stepDef\<rparr> (ws_Input st))"

definition fork_branch :: "int \<Rightarrow> workflow_definition \<Rightarrow> raw \<Rightarrow> string \<Rightarrow> unit eprog" where
  "fork_branch instanceID def input parallelStepName =
     (case map_of (def_steps def) parallelStepName of
        None \<Rightarrow> throw (Errorf (''parallel step definition not found: '' @ parallelStepName))
      | Some parallelStepDef \<Rightarrow>
          bnd (wrap_err (''create fork step '' @ parallelStepName) (CreateStep
            (new_step instanceID parallelStepName (sd_Type parallelStepDef) StepStatusPending input
              (sd_MaxRetries parallelStepDef)))) (\<lambda>st.
          wrap_err (''enqueue fork step '' @ parallelStepName)
            (EnqueueStep instanceID (Some (ws_ID st)) PriorityNormal (sd_Delay parallelStepDef))))"

definition default_strategy :: "join_strategy \<Rightarrow> join_strategy" where
  "default_strategy strategy = (if strategy = JoinStrategyOther [] then JoinStrategyAll else strategy)"

definition fork_join_state :: "int \<Rightarrow> int \<Rightarrow> workflow_definition \<Rightarrow> step_definition \<Rightarrow> string \<Rightarrow> unit eprog" where
  "fork_join_state instanceID stepID def stepDef nextStepName =
     (case map_of (def_steps def) nextStepName of
        None \<Rightarrow> ret ()
      | Some nextStepDef \<Rightarrow>
          if sd_Type nextStepDef \<noteq> StepTypeJoin then ret ()
          else
            let strategy = default_strategy (sd_JoinStrategy nextStepDef);
                waitFor = (if length (sd_WaitFor nextStepDef) = 0 then sd_Parallel stepDef
                           else sd_WaitFor nextStepDef)
            in thn (wrap_err ''create join state'' (CreateJoinState instanceID nextStepName waitFor strategy))
               (log_event instanceID (Some stepID) ''join_state_created''
                 [(''join_step'', JString nextStepName), (''waiting_for'', json_strings waitFor),
                  (''strategy'', JString (join_strategy_text strategy))]))"

definition executeFork :: "workflow_instance \<Rightarrow> workflow_step \<Rightarrow> step_definition \<Rightarrow> raw eprog" where
  "executeFork inst st stepDef =
     thn (log_event (wi_ID inst) (Some (ws_ID st)) ''fork_started''
       [(''parallel_steps'', json_strings (sd_Parallel stepDef))])
    (bnd (wrap_err ''get workflow definition'' (GetWorkflowDefinition (wi_WorkflowID inst))) (\<lambda>def.
     thn (for_each (sd_Parallel stepDef) (fork_branch (wi_ID inst) def (ws_Input st)))
    (thn (for_each (sd_Next stepDef) (fork_join_state (wi_ID inst) (ws_ID st) def stepDef))
     (ret (RawJSON (JObject [(''status'', JString ''forked''),
        (''parallel_steps'', json_strings (sd_Parallel stepDef))]))))))"

text \<open>The outputs of the completed waited-for steps; a later step of the same name replaces an earlier one.\<close>

definition join_outputs :: "string list \<Rightarrow> workflow_step list \<Rightarrow> (string, raw) gomap" where
  "join_outputs waitingFor sts =
     fold (\<lambda>st m. AList.update (ws_StepName st) (ws_Output st) m)
       (filter (\<lambda>st. ws_StepName st \<in> set waitingFor \<and> ws_Status st = StepStatusCompleted) sts) []"

definition join_result :: "join_state \<Rightarrow> workflow_step list \<Rightarrow> string \<Rightarrow> goerror + json" where
  "join_result js sts status =
     (case marshal_raw_map (join_outputs (js_WaitingFor js) sts) of
        Inl e \<Rightarrow> Inl e
      | Inr outputs \<Rightarrow> Inr (JObject
          [(''completed'', json_strings (js_Completed js)), (''failed'', json_strings (js_Failed js)),
           (''strategy'', JString (join_strategy_text (js_JoinStrategy js))),
           (''outputs'', JObject outputs), (''status'', JString status)]))"

text \<open>\<open>%v\<close> of a slice of strings.\<close>

fun show_words :: "string list \<Rightarrow> string" where
  "show_words [] = []"
| "show_words [w] = w"
| "show_words (w # ws) = w @ '' '' @ show_words ws"

definition show_strings :: "string list \<Rightarrow> string" where
  "show_strings ws = ''['' @ show_words ws @ '']''"

definition executeJoin :: "workflow_instance \<Rightarrow> workflow_step \<Rightarrow> raw eprog" where
  "executeJoin inst st =
     bnd (wrap_err ''get join state'' (GetJoinState (wi_ID inst) (ws_StepName st))) (\<lambda>js.
     thn (log_event (wi_ID inst) (Some (ws_ID st)) ''join_check''
       [(''waiting_for'', json_strings (js_WaitingFor js)), (''completed'', json_strings (js_Completed js)),
        (''failed'', json_strings (js_Failed js)), (''is_ready'', JBool (js_IsReady js))])
    (if \<not> js_IsReady js
     then throw (Errorf (''join not ready: waiting for '' @ show_strings (js_WaitingFor js)))
     else bnd (wrap_err ''get steps'' (GetStepsByInstance (wi_ID inst))) (\<lambda>sts.
       if length (js_Failed js) > 0 \<and> js_JoinStrategy js = JoinStrategyAll
       then throw (Errorf (''join failed: '' @ show_nat (length (js_Failed js)) @ '' steps failed''))
       else
         let results = join_result js sts ''success'' in
         thn (ignore (LogEvent (wi_ID inst) (Some (ws_ID st)) ''join_completed'' results))
         (case results of Inl e \<Rightarrow> throw e | Inr doc \<Rightarrow> ret (RawJSON doc)))))"

text \<open>\<open>evaluateCondition\<close>: the rendered template is trimmed and read as a boolean (\<open>strconv.ParseBool\<close>).\<close>

definition is_space :: "char \<Rightarrow> bool" where
  "is_space c \<longleftrightarrow> c \<in> {CHR '' '', CHR 0x09, CHR 0x0A, CHR 0x0B, CHR 0x0C, CHR 0x0D}"

definition trim_space :: "string \<Rightarrow> string" where
  "trim_space s = rev (dropWhile is_space (rev (dropWhile is_space s)))"

definition parse_bool :: "string \<Rightarrow> bool option" where
  "parse_bool s =
     (if s \<in> {''1'', ''t'', ''T'', ''true'', ''TRUE'', ''True''} then Some True
      else if s \<in> {''0'', ''f'', ''F'', ''false'', ''FALSE'', ''False''} then Some False
      else None)"

definition condition_value :: "goerror + string \<Rightarrow> goerror + bool" where
  "condition_value rendered =
     (case rendered of
        Inl e \<Rightarrow> Inl e
      | Inr text \<Rightarrow>
          (case parse_bool (trim_space text) of
             Some b \<Rightarrow> Inr b
           | None \<Rightarrow> Inl (Errorf (''invalid condition output: '' @ quote (trim_space text)))))"

definition executeCondition :: "workflow_instance \<Rightarrow> workflow_step \<Rightarrow> step_definition \<Rightarrow> (raw \<times> bool) eprog" where
  "executeCondition inst st stepDef =
     bnd (gets en_render) (\<lambda>render.
     let inputData = (case unmarshal_map (ws_Input st) of Inr (Some m) \<Rightarrow> m | _ \<Rightarrow> []) in
     case condition_value (render (sd_Condition stepDef) inputData) of
       Inl e \<Rightarrow>
         thn (log_event (wi_ID inst) (Some (ws_ID st)) ''condition_check''
           [(''step_name'', JString (ws_StepName st)), (''error'', JString (error_text e))])
         (throw (Wrap ''evaluate condition'' e))
     | Inr result \<Rightarrow>
         thn (log_event (wi_ID inst) (Some (ws_ID st)) ''condition_check''
           [(''step_name'', JString (ws_StepName st)), (''result'', JBool result)])
         (ret (ws_Input st, result)))"

text \<open>
  The input object with entries added.  A text that is not a JSON object starts a fresh map; the
  document \<open>null\<close> leaves the Go map nil, and writing to a nil map panics.
\<close>

definition extend_input :: "raw \<Rightarrow> (string \<times> json) list \<Rightarrow> ('s, raw) prog" where
  "extend_input input entries =
     (case unmarshal_map input of
        Inl e \<Rightarrow> ret (RawJSON (JObject (fold (\<lambda>(k, v) m. AList.update k v m) entries [])))
      | Inr (Some m0) \<Rightarrow> ret (RawJSON (JObject (fold (\<lambda>(k, v) m. AList.update k v m) entries m0)))
      | Inr None \<Rightarrow> panic ''assignment to entry in nil map'')"

definition decision_status :: "human_decision \<Rightarrow> step_status" where
  "decision_status d =
     (case d of
        HumanDecisionConfirmed \<Rightarrow> StepStatusConfirmed
      | HumanDecisionRejected \<Rightarrow> StepStatusRejected
      | HumanDecisionOther _ \<Rightarrow> StepStatusOther [])"

definition decision_event :: "workflow_step \<Rightarrow> human_decision_record \<Rightarrow> (string \<times> json) list" where
  "decision_event st d =
     [(''step_name'', JString (ws_StepName st)), (''decision'', JString (human_decision_text (hd_Decision d))),
      (''decided_by'', JString (hd_DecidedBy d))]"

definition processHumanDecision ::
  "workflow_instance \<Rightarrow> workflow_step \<Rightarrow> human_decision_record \<Rightarrow> (raw \<times> bool) eprog" where
  "processHumanDecision inst st d =
     thn (case hd_Decision d of
            HumanDecisionConfirmed \<Rightarrow>
              log_event (wi_ID inst) (Some (ws_ID st)) ''step_completed'' (decision_event st d)
          | HumanDecisionRejected \<Rightarrow>
              thn (wrap_err ''update instance status''
                (UpdateInstanceStatus (wi_ID inst) StatusAborted RawNil (Some ''Step was rejected by human'')))
              (log_event (wi_ID inst) (Some (ws_ID st)) ''step_failed'' (decision_event st d))
          | HumanDecisionOther _ \<Rightarrow> ret ())
    (thn (wrap_err ''update step status'' (UpdateStepStatus (ws_ID st) (decision_status (hd_Decision d))))
    (bnd (extend_input (ws_Input st)
       ([(''status'', JString (human_decision_text (hd_Decision d))), (''decided_by'', JString (hd_DecidedBy d))]
        @ (case hd_Comment d of None \<Rightarrow> [] | Some c \<Rightarrow> [(''comment'', JString c)])
        @ [(''decided_at'', JTime (hd_DecidedAt d))])) (\<lambda>output.
     ret (output, decision_status (hd_Decision d) = StepStatusRejected))))"

definition send_waiting_event :: "human_waiting_event \<Rightarrow> unit eprog" where
  "send_waiting_event ev =
     modify (\<lambda>s. s\<lparr>en_humanEvents := map_option (\<lambda>evs. evs @ [ev]) (en_humanEvents s)\<rparr>)"

text \<open>The result is the output, whether the workflow was aborted, and the step pointer as left behind.\<close>

definition executeHuman ::
  "workflow_instance \<Rightarrow> step_ref \<Rightarrow> step_definition \<Rightarrow> (raw \<times> bool \<times> step_ref) eprog" where
  "executeHuman inst ref stepDef =
     bnd (gets (\<lambda>s. deref s ref)) (\<lambda>st.
     bnd (attempt (GetHumanDecision (ws_ID st))) (\<lambda>r.
     case r of
       Inr d \<Rightarrow> bnd (processHumanDecision inst st d) (\<lambda>(output, aborted). ret (output, aborted, ref))
     | Inl e \<Rightarrow>
         if \<not> is_not_found e then throw (Wrap ''get human decision'' e)
         else bnd (assign_status ref StepStatusWaitingDecision) (\<lambda>ref'.
           thn (wrap_err ''update step status to waiting_decision''
             (UpdateStepStatus (ws_ID st) StepStatusWaitingDecision))
          (thn (wrap_err ''enqueue step''
             (EnqueueStep (wi_ID inst) (Some (ws_ID st)) PriorityHigher (sd_Delay stepDef)))
          (thn (log_event (wi_ID inst) (Some (ws_ID st)) ''step_started''
             [(''step_name'', JString (ws_StepName st)), (''step_type'', JString (step_type_text (sd_Type stepDef))),
              (''reason'', JString ''waiting_for_human_decision'')])
          (bnd (extend_input (ws_Input st)
             [(''status'', JString ''waiting_decision''),
              (''message'', JString ''Step is waiting for human decision'')]) (\<lambda>output.
           thn (send_waiting_event \<lparr>hw_InstanceID = wi_ID inst, hw_OutputData = output\<rparr>)
           (ret (output, False, ref')))))))))"

end
