(* ===== verification/Engine_Flow.thy ===== *)
theory Engine_Flow
  imports Engine_Exec
begin

text \<open>
  Control flow around a step in \<open>src/engine.go\<close>: \<open>handleStepSuccess\<close>, \<open>handleStepFailure\<close>,
  \<open>handleCancellation\<close>, \<open>executeCompensationStep\<close> and \<open>executeStep\<close>.
\<close>

section \<open>Joins and finished steps\<close>

text \<open>
  In a condition branch the virtual step of the condition is replaced by the real one and the
  join is notified; every failure is only logged under \<open>event\<close>.
\<close>

definition settle_virtual :: "workflow_instance \<Rightarrow> workflow_step \<Rightarrow> string \<Rightarrow> bool \<Rightarrow> string \<Rightarrow> string \<Rightarrow> unit eprog" where
  "settle_virtual inst st event success conditionStepName joinStepName =
     (let virtualStep = ''cond#'' @ conditionStepName;
          name = (''step_name'', JString (ws_StepName st))
      in bnd (attempt (ReplaceInJoinWaitFor (wi_ID inst) joinStepName virtualStep (ws_StepName st))) (\<lambda>r.
         case r of
           Inl e \<Rightarrow> log_event (wi_ID inst) (Some (ws_ID st)) event
             [name, (''error'', JString (''Failed to replace virtual step in join waitFor: '' @ error_text e))]
         | Inr _ \<Rightarrow>
             thn (log_event (wi_ID inst) (Some (ws_ID st)) event
               [name, (''message'', JString (''Replaced virtual step '' @ virtualStep @ '' with '' @ ws_StepName st
                  @ '' in join '' @ joinStepName @ (if success then [] else '' (failed)'')))])
            (bnd (attempt (notifyJoinStepsForStep (wi_ID inst) joinStepName (ws_StepName st) success)) (\<lambda>q.
             case q of
               Inl e \<Rightarrow> log_event (wi_ID inst) (Some (ws_ID st)) event
                 [name, (''error'', JString (''Failed to notify join after virtual step replacement: '' @ error_text e))]
             | Inr _ \<Rightarrow> ret ()))))"

text \<open>Outside a condition branch, a terminal step of a fork branch is added to what its join waits for.\<close>

definition settle_terminal :: "workflow_instance \<Rightarrow> workflow_step \<Rightarrow> workflow_definition \<Rightarrow> string \<Rightarrow> unit eprog" where
  "settle_terminal inst st def joinStepName =
     (let name = (''step_name'', JString (ws_StepName st))
      in bnd (attempt (GetJoinState (wi_ID inst) joinStepName)) (\<lambda>r.
         case r of
           Inr js \<Rightarrow>
             if ws_StepName st \<notin> set (js_WaitingFor js) \<and> \<not> (\<exists>w \<in> set (js_WaitingFor js). isVirtualStep w)
             then bnd (attempt (AddToJoinWaitFor (wi_ID inst) joinStepName (ws_StepName st))) (\<lambda>q.
               case q of
                 Inl e \<Rightarrow> log_event (wi_ID inst) (Some (ws_ID st)) ''step_completed''
                   [name, (''error'', JString (''Failed to add step to join waitFor: '' @ error_text e))]
               | Inr _ \<Rightarrow> log_event (wi_ID inst) (Some (ws_ID st)) ''step_completed''
                   [name, (''message'', JString (''Added terminal step to join '' @ joinStepName @ '' waitFor''))])
             else ret ()
         | Inl e \<Rightarrow>
             (case map_of (def_steps def) joinStepName of
                None \<Rightarrow> ret ()
              | Some joinStepDef \<Rightarrow>
                  bnd (attempt (CreateJoinState (wi_ID inst) joinStepName [ws_StepName st]
                    (default_strategy (sd_JoinStrategy joinStepDef)))) (\<lambda>q.
                  case q of
                    Inl e \<Rightarrow> log_event (wi_ID inst) (Some (ws_ID st)) ''step_completed''
                      [name, (''error'', JString (''Failed to create join state: '' @ error_text e))]
                  | Inr _ \<Rightarrow> ret ()))))"

definition join_of_branch :: "int \<Rightarrow> string \<Rightarrow> workflow_definition \<Rightarrow> string eprog" where
  "join_of_branch instanceID stepName def =
     bnd (findForkStepForParallelStep instanceID stepName) (\<lambda>f.
     ret (findJoinStepForForkBranch f stepName def))"

definition settle_join_success :: "workflow_instance \<Rightarrow> workflow_step \<Rightarrow> step_definition \<Rightarrow> workflow_definition \<Rightarrow> unit eprog" where
  "settle_join_success inst st stepDef def =
     (let conditionStepName = findConditionStepInBranch stepDef def in
      if conditionStepName \<noteq> [] then
        bnd (join_of_branch (wi_ID inst) (ws_StepName st) def) (\<lambda>joinStepName.
        if joinStepName \<noteq> [] then settle_virtual inst st ''step_completed'' True conditionStepName joinStepName
        else ret ())
      else
        bnd (findForkStepForParallelStep (wi_ID inst) (ws_StepName st)) (\<lambda>f.
        if isTerminalStepInForkBranch f (ws_StepName st) def then
          bnd (join_of_branch (wi_ID inst) (ws_StepName st) def) (\<lambda>joinStepName.
          if joinStepName \<noteq> [] then settle_terminal inst st def joinStepName else ret ())
        else ret ()))"

definition settle_join_failure :: "workflow_instance \<Rightarrow> workflow_step \<Rightarrow> step_definition \<Rightarrow> workflow_definition \<Rightarrow> unit eprog" where
  "settle_join_failure inst st stepDef def =
     (let conditionStepName = findConditionStepInBranch stepDef def in
      if conditionStepName \<noteq> [] then
        bnd (join_of_branch (wi_ID inst) (ws_StepName st) def) (\<lambda>joinStepName.
        if joinStepName \<noteq> [] then settle_virtual inst st ''step_failed'' False conditionStepName joinStepName
        else ret ())
      else ret ())"

section \<open>Success\<close>

definition enqueue_unless_join :: "int \<Rightarrow> workflow_definition \<Rightarrow> raw \<Rightarrow> string \<Rightarrow> unit eprog" where
  "enqueue_unless_join instanceID def output nextStepName =
     (case map_of (def_steps def) nextStepName of
        None \<Rightarrow> throw (Errorf (''next step definition not found: '' @ nextStepName))
      | Some nextStepDef \<Rightarrow>
          if sd_Type nextStepDef = StepTypeJoin then ret ()
          else enqueueNextSteps instanceID [nextStepName] output)"

definition handleStepSuccess ::
  "workflow_instance \<Rightarrow> step_ref \<Rightarrow> step_definition \<Rightarrow> raw \<Rightarrow> bool \<Rightarrow> unit eprog" where
  "handleStepSuccess inst ref stepDef output next =
     bnd (gets (\<lambda>s. deref s ref)) (\<lambda>st.
     if sd_Type stepDef = StepTypeHuman \<and> ws_Status st = StepStatusWaitingDecision then ret ()
     else
       thn (wrap_err ''update step'' (UpdateStep (ws_ID st) StepStatusCompleted output None))
      (thn (log_event (wi_ID inst) (Some (ws_ID st)) ''step_completed'' [(''step_name'', JString (ws_StepName st))])
      (bnd (attempt (GetWorkflowDefinition (wi_WorkflowID inst))) (\<lambda>d.
       thn (case d of Inl e \<Rightarrow> ret () | Inr def \<Rightarrow> settle_join_success inst st stepDef def)
      (thn (wrap_err ''notify join steps'' (notifyJoinSteps (wi_ID inst) (ws_StepName st) True))
       (if (next \<and> length (sd_Next stepDef) = 0) \<or> (\<not> next \<and> sd_Else stepDef = [])
        then bnd (hasUnfinishedSteps (wi_ID inst)) (\<lambda>unfinished.
          if \<not> unfinished then completeWorkflow inst output else ret ())
        else
          bnd (case d of
                 Inr def \<Rightarrow> ret def
               | Inl e \<Rightarrow> wrap_err ''get workflow definition'' (GetWorkflowDefinition (wi_WorkflowID inst))) (\<lambda>def.
          if next then for_each (sd_Next stepDef) (enqueue_unless_join (wi_ID inst) def output)
          else enqueueNextSteps (wi_ID inst) [sd_Else stepDef] output)))))))"

section \<open>Failure\<close>

definition may_retry :: "workflow_step \<Rightarrow> step_definition \<Rightarrow> bool" where
  "may_retry st stepDef \<longleftrightarrow>
     (ws_RetryCount st = 0 \<and> sd_MaxRetries stepDef > 0) \<or>
     (ws_RetryCount st > 0 \<and> ws_RetryCount st < ws_MaxRetries st \<and> \<not> sd_NoIdempotent stepDef)"

definition retry_step :: "workflow_instance \<Rightarrow> step_ref \<Rightarrow> step_definition \<Rightarrow> string \<Rightarrow> unit eprog" where
  "retry_step inst ref stepDef errMsg =
     thn (wrap_err ''update step'' (UpdateStep (ref_id ref) StepStatusFailed RawNil (Some errMsg)))
    (bnd (gets (\<lambda>s. deref s ref)) (\<lambda>st.
     thn (log_event (wi_ID inst) (Some (ws_ID st)) ''step_retry''
       [(''step_name'', JString (ws_StepName st)), (''retry_count'', JInt (ws_RetryCount st + 1)),
        (''error'', JString errMsg)])
     (EnqueueStep (wi_ID inst) (Some (ws_ID st)) PriorityHigh (sd_Delay stepDef))))"

definition to_dead_letter :: "workflow_instance \<Rightarrow> workflow_step \<Rightarrow> workflow_definition \<Rightarrow> string \<Rightarrow> unit eprog" where
  "to_dead_letter inst st def errMsg =
     thn (wrap_err ''update step (paused)'' (UpdateStep (ws_ID st) StepStatusPaused RawNil (Some errMsg)))
    (thn (log_event (wi_ID inst) (Some (ws_ID st)) ''step_failed''
       [(''step_name'', JString (ws_StepName st)), (''error'', JString errMsg), (''reason'', JString ''dlq'')])
    (thn (wrap_err ''notify join steps'' (notifyJoinSteps (wi_ID inst) (ws_StepName st) False))
    (thn (wrap_err ''create dead letter record'' (CreateDeadLetterRecord
       (dead_letter st (wd_ID def) (Some errMsg) ''dlq enabled: rollback/compensation skipped'')))
    (thn (wrap_err ''freeze instance for dlq'' (PauseActiveStepsAndClearQueue (wi_ID inst)))
     (wrap_err ''update instance status to dlq''
       (UpdateInstanceStatus (wi_ID inst) StatusDLQ RawNil (Some errMsg)))))))"

definition roll_back_failure :: "workflow_instance \<Rightarrow> workflow_step \<Rightarrow> workflow_definition \<Rightarrow> unit eprog" where
  "roll_back_failure inst st def =
     thn (bnd (isStepInForkBranch (wi_ID inst) (ws_StepName st)) (\<lambda>inFork.
          if inFork then ignore (stopParallelBranchesInFork (wi_ID inst) (ws_StepName st) def) else ret ()))
     (bnd (attempt (rollbackToSavePointOrRoot (wi_ID inst) st def)) (\<lambda>r.
      case r of
        Inr _ \<Rightarrow> ret ()
      | Inl e \<Rightarrow> log_event (wi_ID inst) (Some (ws_ID st)) ''step_failed''
          [(''step_name'', JString (ws_StepName st)), (''error'', JString (''rollback failed: '' @ error_text e))]))"

definition fail_step :: "workflow_instance \<Rightarrow> workflow_step \<Rightarrow> step_definition \<Rightarrow> string \<Rightarrow> unit eprog" where
  "fail_step inst st stepDef errMsg =
     thn (wrap_err ''update step'' (UpdateStep (ws_ID st) StepStatusFailed RawNil (Some errMsg)))
    (thn (log_event (wi_ID inst) (Some (ws_ID st)) ''step_failed''
       [(''step_name'', JString (ws_StepName st)), (''error'', JString errMsg)])
    (bnd (attempt (GetWorkflowDefinition (wi_WorkflowID inst))) (\<lambda>d1.
     thn (case d1 of Inl e \<Rightarrow> ret () | Inr def \<Rightarrow> settle_join_failure inst st stepDef def)
    (thn (wrap_err ''notify join steps'' (notifyJoinSteps (wi_ID inst) (ws_StepName st) False))
    (bnd (case d1 of Inr def \<Rightarrow> ret (Inr def)
                   | Inl e \<Rightarrow> attempt (GetWorkflowDefinition (wi_WorkflowID inst))) (\<lambda>d2.
     thn (case d2 of Inl e \<Rightarrow> ret () | Inr def \<Rightarrow> roll_back_failure inst st def)
    (thn (wrap_err ''update instance status''
       (UpdateInstanceStatus (wi_ID inst) StatusFailed RawNil (Some errMsg)))
     (final_hook ExecuteWorkflowFailed (wi_ID inst)))))))))"

definition handleStepFailure ::
  "workflow_instance \<Rightarrow> step_ref \<Rightarrow> step_definition \<Rightarrow> goerror \<Rightarrow> unit eprog" where
  "handleStepFailure inst ref stepDef stepErr =
     bnd (gets (\<lambda>s. deref s ref)) (\<lambda>st.
     let errMsg = error_text stepErr in
     if may_retry st stepDef then retry_step inst ref stepDef errMsg
     else bnd (attempt (GetWorkflowDefinition (wi_WorkflowID inst))) (\<lambda>d.
       case d of
         Inr def \<Rightarrow> if gd_DLQEnabled (wd_Definition def) then to_dead_letter inst st def errMsg
                    else fail_step inst st stepDef errMsg
       | Inl e \<Rightarrow> fail_step inst st stepDef errMsg))"

section \<open>Cancellation\<close>

definition last_completed :: "workflow_step list \<Rightarrow> workflow_step option" where
  "last_completed sts = find (\<lambda>st. ws_Status st = StepStatusCompleted) (rev sts)"

definition cancel_rollback :: "workflow_instance \<Rightarrow> workflow_step \<Rightarrow> cancel_request \<Rightarrow> string \<Rightarrow> unit eprog" where
  "cancel_rollback inst st req reason =
     bnd (wrap_err ''get workflow definition'' (GetWorkflowDefinition (wi_WorkflowID inst))) (\<lambda>def.
     bnd (wrap_err ''get steps'' (GetStepsByInstance (wi_ID inst))) (\<lambda>sts.
     case last_completed sts of
       None \<Rightarrow> ret ()
     | Some lastCompletedStep \<Rightarrow>
         bnd (attempt (rollbackStepChain (wi_ID inst) (ws_StepName lastCompletedStep) rootStepName def
           (build_step_map sts) False 0)) (\<lambda>r.
         case r of
           Inr _ \<Rightarrow> ret ()
         | Inl e \<Rightarrow>
             thn (log_event (wi_ID inst) (Some (ws_ID st)) ''workflow_cancelled''
               [(''requested_by'', JString (cr_RequestedBy req)), (''reason'', JString reason),
                (''error'', JString (''rollback failed: '' @ error_text e))])
            (thn (ignore (UpdateInstanceStatus (wi_ID inst) StatusFailed RawNil
               (Some (''cancellation rollback failed: '' @ error_text e))))
            (thn (ignore (DeleteCancelRequest (wi_ID inst)))
             (throw (Wrap ''rollback failed'' e)))))))"

definition handleCancellation :: "workflow_instance \<Rightarrow> workflow_step \<Rightarrow> cancel_request \<Rightarrow> unit eprog" where
  "handleCancellation inst st req =
     thn (wrap_err ''stop active steps'' (stopActiveSteps (wi_ID inst)))
    (let reason = (case cr_Reason req of None \<Rightarrow> [] | Some r \<Rightarrow> r);
         entry = [(''requested_by'', JString (cr_RequestedBy req)), (''reason'', JString reason)]
     in thn
      (if cr_CancelType req = CancelTypeCancel then
         thn (wrap_err ''update instance status to cancelling''
           (UpdateInstanceStatus (wi_ID inst) StatusCancelling RawNil None))
        (thn (cancel_rollback inst st req reason)
        (thn (wrap_err ''update instance status to cancelled''
           (UpdateInstanceStatus (wi_ID inst) StatusCancelled RawNil
             (Some (''Cancelled by '' @ cr_RequestedBy req @ '': '' @ reason))))
         (log_event (wi_ID inst) (Some (ws_ID st)) ''workflow_cancelled'' entry)))
       else
         thn (wrap_err ''update instance status to aborted''
           (UpdateInstanceStatus (wi_ID inst) StatusAborted RawNil
             (Some (''Aborted by '' @ cr_RequestedBy req @ '': '' @ reason))))
         (log_event (wi_ID inst) (Some (ws_ID st)) ''workflow_aborted'' entry))
      (ignore (DeleteCancelRequest (wi_ID inst))))"

section \<open>Compensation\<close>

definition settle_compensation :: "workflow_instance \<Rightarrow> int \<Rightarrow> unit eprog" where
  "settle_compensation inst instanceID =
     bnd (hasUnfinishedSteps instanceID) (\<lambda>unfinished.
     if unfinished then ret ()
     else bnd (hasStepsInCompensation instanceID) (\<lambda>inComp.
       if inComp then ret ()
       else bnd (hasFailedOrRolledBackSteps instanceID) (\<lambda>failed.
         if failed then fail_workflow instanceID (wi_WorkflowID inst) else ret ())))"

definition compensation_failed :: "workflow_step \<Rightarrow> step_definition \<Rightarrow> goerror \<Rightarrow> unit eprog" where
  "compensation_failed st onFailureStep e =
     (if ws_CompensationRetryCount st < sd_MaxRetries onFailureStep then
        (let newRetryCount = ws_CompensationRetryCount st + 1 in
         thn (wrap_err ''update compensation retry''
           (UpdateStepCompensationRetry (ws_ID st) newRetryCount StepStatusCompensation))
        (thn (wrap_err ''enqueue compensation retry''
           (EnqueueStep (ws_InstanceID st) (Some (ws_ID st)) PriorityHigh
             (compensation_delay onFailureStep newRetryCount)))
         (log_event (ws_InstanceID st) (Some (ws_ID st)) ''step_failed''
           [(''step_name'', JString (ws_StepName st)), (''step_type'', JString (step_type_text (ws_StepType st))),
            (''error'', JString (error_text e)), (''retry_count'', JInt newRetryCount),
            (''reason'', JString ''compensation_retry'')])))
      else
        thn (wrap_err ''update step status''
          (UpdateStep (ws_ID st) StepStatusFailed (ws_Input st) (Some (error_text e))))
        (log_event (ws_InstanceID st) (Some (ws_ID st)) ''step_failed''
          [(''step_name'', JString (ws_StepName st)), (''step_type'', JString (step_type_text (ws_StepType st))),
           (''error'', JString ''compensation max retries exceeded'')]))"

definition executeCompensationStep :: "workflow_instance \<Rightarrow> workflow_step \<Rightarrow> unit eprog" where
  "executeCompensationStep inst st =
     bnd (wrap_err ''get workflow definition'' (GetWorkflowDefinition (wi_WorkflowID inst))) (\<lambda>def.
     case map_of (def_steps def) (ws_StepName st) of
       None \<Rightarrow> throw (Errorf (''step definition not found: '' @ ws_StepName st))
     | Some stepDef \<Rightarrow>
     case map_of (def_steps def) (sd_OnFailure stepDef) of
       None \<Rightarrow>
         wrap_err ''update step status'' (UpdateStep (ws_ID st) StepStatusRolledBack (ws_Input st) None)
     | Some onFailureStep \<Rightarrow>
         bnd (gets en_handlers) (\<lambda>hs.
         case map_of hs (sd_Handler onFailureStep) of
           None \<Rightarrow>
             wrap_err ''update step status'' (UpdateStep (ws_ID st) StepStatusRolledBack (ws_Input st) None)
         | Some h \<Rightarrow>
             bnd (attempt (call_handler (sd_Handler onFailureStep) h
               \<lparr>ec_instanceID = ws_InstanceID st, ec_stepName = ws_StepName st,
                ec_idempotencyKey = ws_IdempotencyKey st, ec_retryCount = ws_CompensationRetryCount st,
                ec_variables = AList.update ''reason'' (JString ''compensation'') (sd_Metadata onFailureStep)\<rparr>
               (ws_Input st))) (\<lambda>r.
             case r of
               Inl e \<Rightarrow> compensation_failed st onFailureStep e
             | Inr _ \<Rightarrow>
                 thn (wrap_err ''update step status''
                   (UpdateStep (ws_ID st) StepStatusRolledBack (ws_Input st) None))
                (thn (log_event (ws_InstanceID st) (Some (ws_ID st)) ''step_completed''
                   [(''step_name'', JString (ws_StepName st)),
                    (''step_type'', JString (step_type_text (ws_StepType st))),
                    (''retry_count'', JInt (ws_CompensationRetryCount st)),
                    (''reason'', JString ''compensation_success'')])
                 (settle_compensation inst (ws_InstanceID st))))))"

section \<open>Executing a step\<close>

text \<open>What a step type computes: output, whether to go on with \<open>Next\<close>, whether the workflow was aborted.\<close>

definition execute_by_type ::
  "workflow_instance \<Rightarrow> step_ref \<Rightarrow> step_definition \<Rightarrow> (raw \<times> bool \<times> bool \<times> step_ref) eprog" where
  "execute_by_type inst ref stepDef =
     bnd (gets (\<lambda>s. deref s ref)) (\<lambda>st.
     case sd_Type stepDef of
       StepTypeTask \<Rightarrow> bnd (executeTask inst st stepDef) (\<lambda>out. ret (out, True, False, ref))
     | StepTypeFork \<Rightarrow> bnd (executeFork inst st stepDef) (\<lambda>out. ret (out, True, False, ref))
     | StepTypeJoin \<Rightarrow> bnd (executeJoin inst st) (\<lambda>out. ret (out, True, False, ref))
     | StepTypeParallel \<Rightarrow> bnd (executeFork inst st stepDef) (\<lambda>out. ret (out, True, False, ref))
     | StepTypeSavePoint \<Rightarrow> ret (ws_Input st, True, False, ref)
     | StepTypeCondition \<Rightarrow> bnd (executeCondition inst st stepDef) (\<lambda>(out, next). ret (out, next, False, ref))
     | StepTypeHuman \<Rightarrow> bnd (executeHuman inst ref stepDef) (\<lambda>(out, aborted, ref'). ret (out, True, aborted, ref'))
     | StepTypeOther t \<Rightarrow> throw (Errorf (''unsupported step type: '' @ t)))"

definition pending_request :: "int \<Rightarrow> cancel_request option eprog" where
  "pending_request instanceID =
     bnd (attempt (GetCancelRequest instanceID)) (\<lambda>r.
     ret (case r of Inl e \<Rightarrow> None | Inr req \<Rightarrow> Some req))"

definition after_execution ::
  "workflow_instance \<Rightarrow> step_ref \<Rightarrow> step_definition \<Rightarrow> goerror + (raw \<times> bool \<times> bool \<times> step_ref) \<Rightarrow> unit eprog" where
  "after_execution inst ref stepDef res =
     (case res of
        Inl stepErr \<Rightarrow>
          bnd (gets (\<lambda>s. deref s ref)) (\<lambda>st.
          thn (ignore (ExecuteStepFailed inst st stepErr))
          (handleStepFailure inst ref stepDef stepErr))
      | Inr (output, next, aborted, ref') \<Rightarrow>
          bnd (gets (\<lambda>s. deref s ref')) (\<lambda>st.
          thn (ignore (ExecuteStepComplete inst st))
          (handleStepSuccess inst ref' stepDef output next)))"

definition run_step_body :: "workflow_instance \<Rightarrow> step_ref \<Rightarrow> step_definition \<Rightarrow> nat \<Rightarrow> unit eprog" where
  "run_step_body inst ref stepDef ctx =
     bnd (gets (\<lambda>s. deref s ref)) (\<lambda>st.
     bnd (pending_request (wi_ID inst)) (\<lambda>cancelReq.
     case cancelReq of
       Some req \<Rightarrow> handleCancellation inst st req
     | None \<Rightarrow>
         thn (wrap_err ''update step status'' (UpdateStep (ws_ID st) StepStatusRunning RawNil None))
        (thn (log_event (wi_ID inst) (Some (ws_ID st)) ''step_started''
           [(''step_name'', JString (ws_StepName st)), (''step_type'', JString (step_type_text (sd_Type stepDef)))])
        (bnd (attempt (execute_by_type inst ref stepDef)) (\<lambda>res.
         if (case res of Inr (_, _, aborted, _) \<Rightarrow> aborted | Inl _ \<Rightarrow> False) then ret ()
         else bnd (gets (\<lambda>s. ctx \<in> set (en_cancelled s))) (\<lambda>cancelled.
           bnd (if cancelled then pending_request (wi_ID inst) else ret None) (\<lambda>req2.
           case req2 of
             Some req \<Rightarrow> handleCancellation inst st req
           | None \<Rightarrow> after_execution inst ref stepDef res)))))))"

definition executeStep :: "workflow_instance \<Rightarrow> step_ref \<Rightarrow> unit eprog" where
  "executeStep inst ref =
     (if wi_Status inst = StatusDLQ then ret ()
      else bnd (wrap_err ''get workflow definition'' (GetWorkflowDefinition (wi_WorkflowID inst))) (\<lambda>def.
        bnd (gets (\<lambda>s. deref s ref)) (\<lambda>st.
        case map_of (def_steps def) (ws_StepName st) of
          None \<Rightarrow> throw (Errorf (''step definition not found: '' @ ws_StepName st))
        | Some stepDef \<Rightarrow>
            thn (wrap_err ''plugin hook OnStepStart failed'' (ExecuteStepStart inst st))
           (bnd new_context (\<lambda>ctx.
            thn (registerInstanceContext (wi_ID inst) (ws_ID st) ctx)
            (deferring (unregisterInstanceContext (wi_ID inst) (ws_ID st))
              (run_step_body inst ref stepDef ctx)))))))"

end
