(* ===== verification/Engine_Api.thy ===== *)
theory Engine_Api
  imports Engine_Flow
begin

text \<open>
  The public operations of the engine (\<open>src/engine.go\<close>): registering and starting workflows,
  waiting for the result, the worker's \<open>ExecuteNext\<close>, human decisions, requeueing dead letters,
  shutdown and the two queries; and the worker's turn (\<open>src/worker.go\<close>).

  \<open>MemoryTxManager\<close> (\<open>src/memory_tx_manager.go\<close>) calls the function it is given and nothing else, so a
  transaction is its body: an error leaves the writes made before it in place.
\<close>

section \<open>Registration and start\<close>

definition ReadCommitted :: "('s, 'a) prog \<Rightarrow> ('s, 'a) prog" where
  "ReadCommitted fn = fn"

definition validateDefinition :: "workflow_definition \<Rightarrow> unit outcome" where
  "validateDefinition def =
     (if wd_Name def = [] then Err (Errorf ''workflow name is required'')
      else if def_start def = [] then Err (Errorf ''start step is required'')
      else if length (def_steps def) = 0 then Err (Errorf ''at least one step is required'')
      else if \<not> has_key (def_steps def) (def_start def)
        then Err (Errorf (''start step not found: '' @ def_start def))
      else ValidateWorkflowDefinition def)"

text \<open>A pure function that may fail, called from stateful code.\<close>

definition lift_outcome :: "'a outcome \<Rightarrow> ('s, 'a) prog" where
  "lift_outcome r = (\<lambda>s. (r, s))"

definition RegisterWorkflow :: "workflow_definition \<Rightarrow> unit eprog" where
  "RegisterWorkflow def =
     thn (wrap_err ''invalid workflow definition'' (lift_outcome (validateDefinition def)))
     (SaveWorkflowDefinition def)"

definition RequeueFromDLQ :: "int \<Rightarrow> raw option \<Rightarrow> unit eprog" where
  "RequeueFromDLQ dlqID newInput =
     ReadCommitted (wrap_err ''requeue dead letter'' (RequeueDeadLetter dlqID newInput))"

definition Start :: "string \<Rightarrow> raw \<Rightarrow> int eprog" where
  "Start workflowID input =
     ReadCommitted
    (bnd (wrap_err ''get workflow definition'' (GetWorkflowDefinition workflowID)) (\<lambda>def.
     thn (wrap_err ''invalid workflow definition'' (lift_outcome (validateDefinition def)))
    (bnd (wrap_err ''create instance'' (CreateInstance workflowID input)) (\<lambda>inst.
     thn (wrap_err ''plugin hook failed'' (ExecuteWorkflowStart inst))
    (thn (log_event (wi_ID inst) None ''workflow_started'' [(''workflow_id'', JString workflowID)])
    (thn (wrap_err ''update status'' (UpdateInstanceStatus (wi_ID inst) StatusRunning RawNil None))
    (if def_start def = [] then throw (Errorf ''no start step defined'')
     else thn (wrap_err ''enqueue start step'' (enqueueNextSteps (wi_ID inst) [def_start def] input))
       (ret (wi_ID inst)))))))))"

section \<open>Waiting for the result\<close>

definition isTerminalStatus :: "workflow_status \<Rightarrow> bool" where
  "isTerminalStatus st =
     (case st of
        StatusCompleted \<Rightarrow> True | StatusFailed \<Rightarrow> True | StatusCancelled \<Rightarrow> True
      | StatusAborted \<Rightarrow> True | StatusDLQ \<Rightarrow> True | _ \<Rightarrow> False)"

record start_await_result =
  ar_InstanceID :: int
  ar_Status :: workflow_status
  ar_Output :: raw
  ar_Error :: "string option"

text \<open>
  The waiting loop selects among three channels.  A schedule lists what it receives, each entry
  with what the other goroutines did before; with the schedule used up the call still waits.
\<close>

datatype await_event = CtxDone goerror | ShutdownClosed | Tick

fun awaitCompletion :: "(unit eprog \<times> await_event) list \<Rightarrow> int \<Rightarrow> start_await_result eprog" where
  "awaitCompletion [] instanceID = stuck"
| "awaitCompletion ((others, ev) # evs) instanceID =
     thn others
     (case ev of
        CtxDone e \<Rightarrow> throw e
      | ShutdownClosed \<Rightarrow>
          bnd (gets en_isShuttingDown) (\<lambda>closed.
          if closed then throw (Errorf ''engine shutdown'') else awaitCompletion evs instanceID)
      | Tick \<Rightarrow>
          bnd (wrap_err ''get instance'' (GetInstance instanceID)) (\<lambda>inst.
          if isTerminalStatus (wi_Status inst)
          then ret \<lparr>ar_InstanceID = wi_ID inst, ar_Status = wi_Status inst,
                    ar_Output = wi_Output inst, ar_Error = wi_Error inst\<rparr>
          else awaitCompletion evs instanceID))"

definition StartAwait ::
  "(unit eprog \<times> await_event) list \<Rightarrow> string \<Rightarrow> raw \<Rightarrow> start_await_result eprog" where
  "StartAwait evs workflowID input =
     bnd (wrap_err ''start workflow'' (Start workflowID input)) (\<lambda>instanceID.
     awaitCompletion evs instanceID)"

section \<open>Shutdown\<close>

definition isShutdown :: "bool eprog" where
  "isShutdown = gets en_isShuttingDown"

definition defaultShutdownTimeout :: int where
  "defaultShutdownTimeout = 5 * second_ns"

text \<open>
  \<open>drained\<close> tells whether the active steps finish within the timeout; \<open>show_duration\<close> is
  \<open>time.Duration.String\<close>, of which only the message uses the result.
\<close>

definition Shutdown :: "(int \<Rightarrow> string) \<Rightarrow> bool \<Rightarrow> int option \<Rightarrow> unit eprog" where
  "Shutdown show_duration drained timeoutOpt =
     bnd isShutdown (\<lambda>again.
     if again then ret ()
     else thn (modify (\<lambda>s. s\<lparr>en_isShuttingDown := True\<rparr>))
       (let timeout0 = (case timeoutOpt of None \<Rightarrow> 0 | Some d \<Rightarrow> d);
            timeout = (if timeout0 = 0 then defaultShutdownTimeout else timeout0)
        in bnd (gets en_activeSteps) (\<lambda>active.
           if active = 0 \<or> drained then ret ()
           else throw (Errorf (''shutdown timeout after '' @ show_duration timeout)))))"

section \<open>The worker's turn\<close>

text \<open>
  A queue item without local handler goes back to the queue, later by the cool-down, and the
  skip is logged unless that happened recently.
\<close>

definition release_missing :: "string \<Rightarrow> string \<Rightarrow> queue_item \<Rightarrow> workflow_instance \<Rightarrow> workflow_step \<Rightarrow> unit eprog" where
  "release_missing prefix msg item inst st =
     bnd jitteredCooldown (\<lambda>delay.
     thn (if delay > 0
          then wrap_err ''reschedule queue item'' (RescheduleAndReleaseQueueItem (qi_ID item) delay)
          else wrap_err ''release queue item'' (ReleaseQueueItem (qi_ID item)))
    (bnd (shouldLogSkip (prefix @ show_int (wi_ID inst) @ '':'' @ ws_StepName st)) (\<lambda>log.
     if log then log_event (wi_ID inst) None ''step_skipped_missing_handler''
       [(''step_name'', JString (ws_StepName st)), (''message'', JString msg)]
     else ret ())))"

text \<open>The step of a queue item: a new first step, or a copy of the stored one.\<close>

definition item_step :: "queue_item \<Rightarrow> workflow_instance \<Rightarrow> step_ref eprog" where
  "item_step item inst =
     (case qi_StepID item of
        None \<Rightarrow> bnd (wrap_err ''create first step'' (createFirstStep inst)) (\<lambda>st. ret (StepLive st))
      | Some stepID \<Rightarrow>
          bnd (wrap_err ''get steps'' (GetStepsByInstance (wi_ID inst))) (\<lambda>sts.
          case find (\<lambda>st. ws_ID st = stepID) sts of
            None \<Rightarrow> throw (Errorf (''step not found: '' @ show_int stepID))
          | Some st \<Rightarrow> ret (StepCopy st)))"

definition has_handler :: "string \<Rightarrow> bool eprog" where
  "has_handler name = gets (\<lambda>s. has_key (en_handlers s) name)"

text \<open>Below, the result tells whether the item is to be removed from the queue (\<open>removeFromQueue\<close>).\<close>

definition run_compensation_item :: "queue_item \<Rightarrow> workflow_instance \<Rightarrow> workflow_step \<Rightarrow> bool eprog" where
  "run_compensation_item item inst st =
     bnd (wrap_err ''get workflow definition'' (GetWorkflowDefinition (wi_WorkflowID inst))) (\<lambda>def.
     case map_of (def_steps def) (ws_StepName st) of
       None \<Rightarrow> throw (Errorf (''step definition not found: '' @ ws_StepName st))
     | Some stepDef \<Rightarrow>
         bnd (if sd_OnFailure stepDef = [] then ret True
              else case map_of (def_steps def) (sd_OnFailure stepDef) of
                None \<Rightarrow> ret True
              | Some onFailDef \<Rightarrow> has_handler (sd_Handler onFailDef)) (\<lambda>has.
         if has then thn (executeCompensationStep inst st) (ret True)
         else thn (release_missing ''comp-skip:'' ''no local compensation handler registered; rescheduled''
                item inst st)
              (ret False)))"

definition run_step_item :: "queue_item \<Rightarrow> workflow_instance \<Rightarrow> step_ref \<Rightarrow> workflow_step \<Rightarrow> bool eprog" where
  "run_step_item item inst ref st =
     bnd (wrap_err ''get workflow definition'' (GetWorkflowDefinition (wi_WorkflowID inst))) (\<lambda>def.
     case map_of (def_steps def) (ws_StepName st) of
       None \<Rightarrow> throw (Errorf (''step definition not found: '' @ ws_StepName st))
     | Some stepDef \<Rightarrow>
         bnd (if ws_StepType st = StepTypeTask then has_handler (sd_Handler stepDef) else ret True) (\<lambda>has.
         if has then thn (executeStep inst ref) (ret True)
         else thn (release_missing ''task-skip:'' ''no local handler registered; rescheduled'' item inst st)
              (ret False)))"

definition run_item :: "queue_item \<Rightarrow> bool eprog" where
  "run_item item =
     bnd (wrap_err ''get instance'' (GetInstance (qi_InstanceID item))) (\<lambda>inst.
     if wi_Status inst = StatusDLQ
     then thn (log_event (wi_ID inst) None ''step_failed''
            [(''message'', JString ''instance in DLQ state, skipping queued item'')]) (ret True)
     else bnd (item_step item inst) (\<lambda>ref.
       bnd (gets (\<lambda>s. deref s ref)) (\<lambda>st.
       if ws_Status st = StepStatusSkipped \<or> ws_Status st = StepStatusPaused \<or>
          ws_Status st = StepStatusRolledBack
       then thn (wrap_err ''remove step from queue'' (RemoveFromQueue (ws_ID st))) (ret True)
       else if ws_Status st = StepStatusCompensation then run_compensation_item item inst st
       else run_step_item item inst ref st)))"

text \<open>The two deferred calls: the item leaves the queue unless it was released, the step counter drops.\<close>

definition finish_item :: "queue_item \<Rightarrow> bool eprog \<Rightarrow> unit eprog" where
  "finish_item item body =
     thn (modify (\<lambda>s. s\<lparr>en_activeSteps := en_activeSteps s + 1\<rparr>))
     (deferring (modify (\<lambda>s. s\<lparr>en_activeSteps := en_activeSteps s - 1\<rparr>))
       (\<lambda>s. case body s of
          (Ok remove, t) \<Rightarrow> if remove then RemoveFromQueue (qi_ID item) t else (Ok (), t)
        | (Err e, t) \<Rightarrow> (Err e, snd (RemoveFromQueue (qi_ID item) t))
        | (Panic p, t) \<Rightarrow> (Panic p, snd (RemoveFromQueue (qi_ID item) t))
        | (Stuck, t) \<Rightarrow> (Stuck, t)))"

definition ExecuteNext :: "string \<Rightarrow> bool eprog" where
  "ExecuteNext workerID =
     bnd isShutdown (\<lambda>down.
     if down then ret True
     else ReadCommitted
      (bnd isShutdown (\<lambda>down.
       if down then ret True
       else bnd (wrap_err ''dequeue step'' (DequeueStep workerID)) (\<lambda>sel.
         case sel of
           None \<Rightarrow> ret True
         | Some item \<Rightarrow>
             bnd isShutdown (\<lambda>down.
             if down then thn (ignore (ReleaseQueueItem (qi_ID item))) (ret True)
             else thn (finish_item item (run_item item)) (ret False))))))"

definition processNext :: "string \<Rightarrow> bool eprog" where
  "processNext workerID = ExecuteNext workerID"

section \<open>Human decisions\<close>

definition continueWorkflowAfterHumanDecision :: "workflow_instance \<Rightarrow> step_ref \<Rightarrow> unit eprog" where
  "continueWorkflowAfterHumanDecision inst ref =
     bnd (wrap_err ''get workflow definition'' (GetWorkflowDefinition (wi_WorkflowID inst))) (\<lambda>def.
     bnd (gets (\<lambda>s. deref s ref)) (\<lambda>st.
     case map_of (def_steps def) (ws_StepName st) of
       None \<Rightarrow> throw (Errorf (''step definition not found: '' @ ws_StepName st))
     | Some stepDef \<Rightarrow>
         handleStepSuccess inst ref stepDef
           (RawJSON (JObject [(''status'', JString ''confirmed'')])) True))"

definition resume_after_decision :: "step_ref \<Rightarrow> int \<Rightarrow> human_decision \<Rightarrow> unit eprog" where
  "resume_after_decision ref instanceID decision =
     (if decision = HumanDecisionConfirmed then
        bnd (wrap_err ''get instance'' (GetInstance instanceID)) (\<lambda>inst.
        thn (if wi_Status inst = StatusPending
             then wrap_err ''update instance status'' (UpdateInstanceStatus instanceID StatusRunning RawNil None)
             else ret ())
        (continueWorkflowAfterHumanDecision inst ref))
      else UpdateInstanceStatus instanceID StatusAborted RawNil None)"

definition MakeHumanDecision :: "int \<Rightarrow> string \<Rightarrow> human_decision \<Rightarrow> string option \<Rightarrow> unit eprog" where
  "MakeHumanDecision stepID decidedBy decision comment =
     ReadCommitted
    (bnd (wrap_err ''get step'' (GetStepByID stepID)) (\<lambda>st.
     if ws_StepType st \<noteq> StepTypeHuman
     then throw (Errorf (''step '' @ show_int stepID @ '' is not a human step''))
     else if ws_Status st \<noteq> StepStatusWaitingDecision
     then throw (Errorf (''step '' @ show_int stepID @ '' is not waiting for decision (current status: ''
            @ step_status_text (ws_Status st) @ '')''))
     else
       bnd time_now (\<lambda>now.
       thn (wrap_err ''create human decision'' (CreateHumanDecision
         \<lparr>hd_ID = 0, hd_InstanceID = ws_InstanceID st, hd_StepID = stepID, hd_DecidedBy = decidedBy,
          hd_Decision = decision, hd_Comment = comment, hd_DecidedAt = now, hd_CreatedAt = 0\<rparr>))
      (thn (wrap_err ''update step status'' (UpdateStepStatus stepID (decision_status decision)))
      (thn (log_event (ws_InstanceID st) (Some stepID) ''step_completed''
         [(''step_name'', JString (ws_StepName st)), (''decision'', JString (human_decision_text decision)),
          (''decided_by'', JString decidedBy)])
       (resume_after_decision (StepLive st) (ws_InstanceID st) decision))))))"

section \<open>Queries\<close>

definition GetStatus :: "int \<Rightarrow> workflow_status eprog" where
  "GetStatus instanceID =
     bnd (wrap_err ''get instance'' (GetInstance instanceID)) (\<lambda>inst. ret (wi_Status inst))"

definition GetSteps :: "int \<Rightarrow> workflow_step list eprog" where
  "GetSteps instanceID = GetStepsByInstance instanceID"

definition HumanDecisionWaitingEvents :: "human_waiting_event list eprog" where
  "HumanDecisionWaitingEvents =
     thn (modify (\<lambda>s. if en_humanEvents s = None then s\<lparr>en_humanEvents := Some []\<rparr> else s))
     (gets (\<lambda>s. case en_humanEvents s of None \<Rightarrow> [] | Some evs \<Rightarrow> evs))"

end
