(* ===== verification/Engine_Frame.thy ===== *)
theory Engine_Frame
  imports Engine_Api
begin

text \<open>
  The interface between the engine and its store, for reasoning about a whole run.  The engine
  changes its state only through the writing operations of the store and through a few fields of its
  own.  The locale \<open>engine_frame\<close> takes a preorder \<open>R\<close> on states that every one of these respects, and
  shows that every operation of the engine does.  An invariant of the store, or a statement on what a
  run never loses, is then proved once per store operation and holds for the engine.
\<close>

definition on_first :: "('s \<Rightarrow> 's \<Rightarrow> bool) \<Rightarrow> 's \<times> 'v \<Rightarrow> 's \<times> 'v \<Rightarrow> bool" where
  "on_first R x y \<longleftrightarrow> R (fst x) (fst y)"

locale engine_frame = step_preorder R + lifted: step_preorder "on_first R :: engine \<times> string list \<Rightarrow> engine \<times> string list \<Rightarrow> bool"
  for R :: "engine \<Rightarrow> engine \<Rightarrow> bool" +
  assumes time_now: "moves R time_now"
    and CreateInstance: "moves R (CreateInstance workflowID input)"
    and UpdateInstanceStatus: "moves R (UpdateInstanceStatus instanceID wstatus output errMsg)"
    and CreateStep: "moves R (CreateStep st)"
    and UpdateStep: "moves R (UpdateStep stepID sstatus output errMsg)"
    and UpdateStepStatus: "moves R (UpdateStepStatus stepID sstatus)"
    and UpdateStepCompensationRetry: "moves R (UpdateStepCompensationRetry stepID retryCount sstatus)"
    and EnqueueStep: "moves R (EnqueueStep instanceID sid priority delay)"
    and DequeueStep: "moves R (DequeueStep workerID)"
    and RemoveFromQueue: "moves R (RemoveFromQueue queueID)"
    and ReleaseQueueItem: "moves R (ReleaseQueueItem queueID)"
    and RescheduleAndReleaseQueueItem: "moves R (RescheduleAndReleaseQueueItem queueID delay)"
    and LogEvent: "moves R (LogEvent instanceID sid eventType payload)"
    and CreateJoinState: "moves R (CreateJoinState instanceID joinStep waitFor strategy)"
    and UpdateJoinState: "moves R (UpdateJoinState instanceID joinStep stepName success)"
    and AddToJoinWaitFor: "moves R (AddToJoinWaitFor instanceID joinStep stepName)"
    and ReplaceInJoinWaitFor: "moves R (ReplaceInJoinWaitFor instanceID joinStep virtualStep stepName)"
    and CreateCancelRequest: "moves R (CreateCancelRequest req)"
    and DeleteCancelRequest: "moves R (DeleteCancelRequest instanceID)"
    and CreateHumanDecision: "moves R (CreateHumanDecision decision)"
    and CreateDeadLetterRecord: "moves R (CreateDeadLetterRecord rec)"
    and PauseActiveStepsAndClearQueue: "moves R (PauseActiveStepsAndClearQueue instanceID)"
    and engine_fields:
      "R s (s\<lparr>en_cancelContexts := cs\<rparr>)" "R s (s\<lparr>en_nextContext := n\<rparr>)"
      "R s (s\<lparr>en_cancelled := xs\<rparr>)" "R s (s\<lparr>en_isShuttingDown := b\<rparr>)"
      "R s (s\<lparr>en_activeSteps := i\<rparr>)" "R s (s\<lparr>en_humanEvents := evs\<rparr>)"
      "R s (s\<lparr>en_hookCalls := n\<rparr>)" "R s (s\<lparr>en_skipLogNextAllowed := sk\<rparr>)"
      "R s (s\<lparr>en_randomCount := n\<rparr>)" "R s (s\<lparr>en_calls := hcs\<rparr>)"
begin

lemmas writes =
  time_now CreateInstance UpdateInstanceStatus CreateStep UpdateStep UpdateStepStatus UpdateStepCompensationRetry
  EnqueueStep DequeueStep RemoveFromQueue ReleaseQueueItem RescheduleAndReleaseQueueItem LogEvent
  CreateJoinState UpdateJoinState AddToJoinWaitFor ReplaceInJoinWaitFor CreateCancelRequest
  DeleteCancelRequest CreateHumanDecision CreateDeadLetterRecord PauseActiveStepsAndClearQueue

lemmas flow = moves_ret moves_throw moves_panic moves_stuck moves_gets moves_bnd moves_thn
  moves_attempt moves_ignore moves_wrap_err moves_when_true moves_deferring moves_for_each
  moves_for_find moves_if moves_option moves_sum moves_prod moves_let

lemma reads:
  "moves R (GetWorkflowDefinition w)" "moves R (GetInstance i)" "moves R (GetStepByID i)"
  "moves R (GetStepsByInstance i)" "moves R (GetActiveStepsForUpdate i)" "moves R (GetJoinState i n)"
  "moves R (GetCancelRequest i)" "moves R (GetHumanDecision i)"
  unfolding GetWorkflowDefinition_def GetInstance_def GetStepByID_def GetStepsByInstance_def
    GetActiveStepsForUpdate_def GetJoinState_def GetCancelRequest_def GetHumanDecision_def
  by (intro flow)+

lemma hooks: "moves R (run_hooks h ps)" "moves R (run_hooks_all h ps)"
  by (induction ps) (simp_all, (intro flow moves_modify engine_fields | simp)+)

lemma with_plugins: "(\<And>ps. moves R (f ps)) \<Longrightarrow> moves R (with_plugins f)"
  unfolding with_plugins_def by (intro flow) simp_all

lemma plugin_hooks:
  "moves R (ExecuteWorkflowStart i)" "moves R (ExecuteWorkflowComplete i)" "moves R (ExecuteWorkflowFailed i)"
  "moves R (ExecuteStepStart i st)" "moves R (ExecuteStepComplete i st)" "moves R (ExecuteStepFailed i st e)"
  "moves R (ExecuteRollbackStepChain k n d)"
  unfolding ExecuteWorkflowStart_def ExecuteWorkflowComplete_def ExecuteWorkflowFailed_def
    ExecuteStepStart_def ExecuteStepComplete_def ExecuteStepFailed_def ExecuteRollbackStepChain_def
  by (intro with_plugins hooks)+

lemma log_event: "moves R (log_event i sid n payload)"
  unfolding log_event_def by (intro flow writes)

lemma assign_status: "moves R (assign_status ref st)"
  by (cases ref) (simp_all, (intro flow writes)+)

lemmas basics = flow reads writes plugin_hooks log_event assign_status

lemma instance_def: "moves R (instance_def i)"
  unfolding instance_def_def by (intro basics)

lemma findForkStepForParallelStep: "moves R (findForkStepForParallelStep i n)"
  unfolding findForkStepForParallelStep_def by (intro basics instance_def)

lemma isStepInForkBranch: "moves R (isStepInForkBranch i n)"
  unfolding isStepInForkBranch_def by (intro basics findForkStepForParallelStep)

lemma fork_of_join: "moves R (fork_of_join i ws sts)"
  unfolding fork_of_join_def by (intro basics findForkStepForParallelStep)

lemma hasPendingStepsInParallelBranches: "moves R (hasPendingStepsInParallelBranches i sd sts)"
  unfolding hasPendingStepsInParallelBranches_def by (intro basics instance_def fork_of_join)

lemma create_join_step: "moves R (create_join_step i j n inst sts)"
  unfolding create_join_step_def by (intro basics)

lemma update_join: "moves R (update_join i j sd n ok inst)"
  unfolding update_join_def by (intro basics create_join_step hasPendingStepsInParallelBranches)

lemma notifyJoinStepsForStep: "moves R (notifyJoinStepsForStep i j n ok)"
  unfolding notifyJoinStepsForStep_def by (intro basics update_join)

lemma notifyJoinSteps: "moves R (notifyJoinSteps i n ok)"
  unfolding notifyJoinSteps_def waits_for_def by (intro basics update_join)


lemma on_fst: "moves R m \<Longrightarrow> moves (on_first R) (on_fst m)"
  by (auto simp: moves_def on_fst_def on_first_def split: prod.split) (metis snd_conv)

lemma rollbackStep: "moves R (rollbackStep st def)"
  unfolding rollbackStep_def by (intro basics)

lemmas lifted_flow = lifted.moves_ret lifted.moves_throw lifted.moves_stuck lifted.moves_gets lifted.moves_bnd
  lifted.moves_thn lifted.moves_for_each lifted.moves_if lifted.moves_option

lemma rollbackStepChainWithVisited:
  "moves (on_first R) (rollbackStepChainWithVisited fuel i sp def m n par d)"
proof (induction fuel arbitrary: n par d)
  case 0
  show ?case by (simp add: lifted.moves_stuck)
next
  case (Suc fuel)
  have mark: "moves (on_first R) (modify (\<lambda>(s, visited). (s, n # visited)))"
    by (intro lifted.moves_modify) (auto simp: on_first_def R_refl)
  show ?case
    unfolding rollbackStepChainWithVisited.simps
    by (intro lifted_flow on_fst basics rollbackStep Suc mark)
qed

lemma rollbackStepChain: "moves R (rollbackStepChain i n sp def m par d)"
proof (rule movesI)
  fix s
  have "on_first R (s, []) (snd (rollbackStepChainWithVisited (rollback_fuel def) i sp def m n par d (s, [])))"
    by (rule movesD [OF rollbackStepChainWithVisited])
  then show "R s (snd (rollbackStepChain i n sp def m par d s))"
    by (auto simp: rollbackStepChain_def on_first_def split: prod.split)
qed

lemma rollbackStepsToSavePoint: "moves R (rollbackStepsToSavePoint i st sp def)"
  unfolding rollbackStepsToSavePoint_def by (intro basics rollbackStepChain)

lemma rollbackToSavePointOrRoot: "moves R (rollbackToSavePointOrRoot i st def)"
  unfolding rollbackToSavePointOrRoot_def by (rule rollbackStepsToSavePoint)

lemma stopParallelBranchesInFork: "moves R (stopParallelBranchesInFork i n def)"
  unfolding stopParallelBranchesInFork_def by (intro basics findForkStepForParallelStep)

lemma stopActiveSteps: "moves R (stopActiveSteps i)"
  unfolding stopActiveSteps_def by (intro basics)

lemma any_step: "moves R (any_step P i)"
  unfolding any_step_def by (intro basics)

lemma step_tests: "moves R (hasUnfinishedSteps i)" "moves R (hasFailedOrRolledBackSteps i)" "moves R (hasStepsInCompensation i)"
  unfolding hasUnfinishedSteps_def hasFailedOrRolledBackSteps_def hasStepsInCompensation_def by (rule any_step)+

lemma mark_rolled_back: "moves R (mark_rolled_back i st)"
  unfolding mark_rolled_back_def by (intro basics)

lemma enqueue_compensations: "moves R (enqueue_compensations i k sts)"
  by (induction sts arbitrary: k) (simp_all add: moves_ret, intro basics)

lemma enqueueCompletedStepsForRollback: "moves R (enqueueCompletedStepsForRollback i)"
  unfolding enqueueCompletedStepsForRollback_def by (intro basics mark_rolled_back enqueue_compensations)

lemma request_stop: "moves R (request_stop k ev i by why)"
  unfolding request_stop_def by (intro basics)

lemma CancelWorkflow: "moves R (CancelWorkflow i by why)"
  unfolding CancelWorkflow_def by (rule request_stop)

lemma AbortWorkflow: "moves R (AbortWorkflow i by why)"
  unfolding AbortWorkflow_def by (rule request_stop)

lemma cancel_contexts_of: "moves R (cancel_contexts_of i)"
proof -
  have "R s (s\<lparr>en_cancelled := xs, en_cancelContexts := cs\<rparr>)" for s xs cs
    by (rule R_trans [OF engine_fields(3) engine_fields(1)])
  then show ?thesis
    unfolding cancel_contexts_of_def by (intro moves_modify) (simp add: R_refl split: option.split)
qed

lemma processCancelRequests: "moves R processCancelRequests"
  unfolding processCancelRequests_def by (intro basics cancel_contexts_of)

lemma registerInstanceContext: "moves R (registerInstanceContext i sid c)"
  unfolding registerInstanceContext_def by (intro moves_modify engine_fields)

lemma unregisterInstanceContext: "moves R (unregisterInstanceContext i sid)"
  unfolding unregisterInstanceContext_def
  by (intro moves_modify) (simp add: R_refl engine_fields Let_def split: option.split)

lemma new_context: "moves R new_context"
  by (rule movesI) (simp add: new_context_def engine_fields)

lemma run_env: "moves R (run_env a)"
  by (cases a) (simp_all, (intro basics CancelWorkflow AbortWorkflow processCancelRequests)+)

lemma call_handler: "moves R (call_handler n h c inp)"
  unfolding call_handler_def Let_def
  by (intro basics run_env moves_modify engine_fields) (simp add: basics split: handler_result.split)

lemma enqueue_one: "moves R (enqueue_one i def inp n)"
  unfolding enqueue_one_def by (intro basics)

lemma enqueueNextSteps: "moves R (enqueueNextSteps i ns inp)"
  unfolding enqueueNextSteps_def by (intro basics enqueue_one)

lemma createFirstStep: "moves R (createFirstStep inst)"
  unfolding createFirstStep_def by (intro basics)

lemma final_hook: "(\<And>i. moves R (h i)) \<Longrightarrow> moves R (final_hook h i)"
  unfolding final_hook_def by (intro basics)

lemma fail_workflow: "moves R (fail_workflow i w)"
  unfolding fail_workflow_def by (intro basics final_hook)

lemma completeWorkflow: "moves R (completeWorkflow inst out)"
  unfolding completeWorkflow_def
  by (intro basics step_tests enqueueCompletedStepsForRollback fail_workflow final_hook)

lemma executeTask: "moves R (executeTask inst st sd)"
  unfolding executeTask_def by (intro basics call_handler)

lemma executeFork: "moves R (executeFork inst st sd)"
  unfolding executeFork_def fork_branch_def fork_join_state_def Let_def by (intro basics)

lemma executeJoin: "moves R (executeJoin inst st)"
  unfolding executeJoin_def Let_def by (intro basics)

lemma executeCondition: "moves R (executeCondition inst st sd)"
  unfolding executeCondition_def Let_def by (intro basics)

lemma extend_input: "moves R (extend_input inp es)"
  unfolding extend_input_def by (intro basics)

lemma processHumanDecision: "moves R (processHumanDecision inst st d)"
  unfolding processHumanDecision_def
  by (cases "hd_Decision d") (simp_all, (intro basics extend_input)+)

lemma send_waiting_event: "moves R (send_waiting_event ev)"
  unfolding send_waiting_event_def by (intro moves_modify engine_fields)

lemma executeHuman: "moves R (executeHuman inst ref sd)"
  unfolding executeHuman_def by (intro basics processHumanDecision extend_input send_waiting_event)


lemma join_of_branch: "moves R (join_of_branch i n def)"
  unfolding join_of_branch_def by (intro basics findForkStepForParallelStep)

lemma settle_virtual: "moves R (settle_virtual inst st ev ok c j)"
  unfolding settle_virtual_def Let_def by (intro basics notifyJoinStepsForStep)

lemma settle_terminal: "moves R (settle_terminal inst st def j)"
  unfolding settle_terminal_def Let_def by (intro basics)

lemma settle_join_success: "moves R (settle_join_success inst st sd def)"
  unfolding settle_join_success_def Let_def
  by (intro basics join_of_branch settle_virtual settle_terminal findForkStepForParallelStep)

lemma settle_join_failure: "moves R (settle_join_failure inst st sd def)"
  unfolding settle_join_failure_def Let_def by (intro basics join_of_branch settle_virtual)

lemma enqueue_unless_join: "moves R (enqueue_unless_join i def out n)"
  unfolding enqueue_unless_join_def by (intro basics enqueueNextSteps)

lemma handleStepSuccess: "moves R (handleStepSuccess inst ref sd out next)"
  unfolding handleStepSuccess_def
  by (intro basics settle_join_success notifyJoinSteps step_tests completeWorkflow enqueue_unless_join
      enqueueNextSteps)

lemma retry_step: "moves R (retry_step inst ref sd msg)"
  unfolding retry_step_def by (intro basics)

lemma to_dead_letter: "moves R (to_dead_letter inst st def msg)"
  unfolding to_dead_letter_def by (intro basics notifyJoinSteps)

lemma roll_back_failure: "moves R (roll_back_failure inst st def)"
  unfolding roll_back_failure_def
  by (intro basics isStepInForkBranch stopParallelBranchesInFork rollbackToSavePointOrRoot)

lemma fail_step: "moves R (fail_step inst st sd msg)"
  unfolding fail_step_def
  by (intro basics settle_join_failure notifyJoinSteps roll_back_failure final_hook)

lemma handleStepFailure: "moves R (handleStepFailure inst ref sd e)"
  unfolding handleStepFailure_def Let_def by (intro basics retry_step to_dead_letter fail_step)

lemma cancel_rollback: "moves R (cancel_rollback inst st req why)"
  unfolding cancel_rollback_def by (intro basics rollbackStepChain)

lemma handleCancellation: "moves R (handleCancellation inst st req)"
  unfolding handleCancellation_def Let_def by (intro basics stopActiveSteps cancel_rollback)

lemma settle_compensation: "moves R (settle_compensation inst i)"
  unfolding settle_compensation_def by (intro basics step_tests fail_workflow)

lemma compensation_failed: "moves R (compensation_failed st sd e)"
  unfolding compensation_failed_def Let_def by (intro basics)

lemma executeCompensationStep: "moves R (executeCompensationStep inst st)"
  unfolding executeCompensationStep_def
  by (intro basics call_handler compensation_failed settle_compensation)

lemma execute_by_type: "moves R (execute_by_type inst ref sd)"
  unfolding execute_by_type_def
  by (cases "sd_Type sd")
    (simp_all, (intro basics executeTask executeFork executeJoin executeCondition executeHuman)+)

lemma after_execution: "moves R (after_execution inst ref sd res)"
  unfolding after_execution_def by (intro basics handleStepFailure handleStepSuccess)

lemma run_step_body: "moves R (run_step_body inst ref sd ctx)"
  unfolding run_step_body_def pending_request_def
  by (intro basics handleCancellation execute_by_type after_execution)

lemma executeStep: "moves R (executeStep inst ref)"
  unfolding executeStep_def
  by (intro basics new_context registerInstanceContext unregisterInstanceContext run_step_body)

lemma lift_outcome: "moves R (lift_outcome r)"
  by (simp add: moves_def lift_outcome_def R_refl)

lemma Start: "moves R (Start w inp)"
  unfolding Start_def ReadCommitted_def by (intro basics lift_outcome enqueueNextSteps)

lemma jitteredCooldown: "moves R jitteredCooldown"
  unfolding jitteredCooldown_def Let_def by (intro basics moves_modify engine_fields)

lemma shouldLogSkip: "moves R (shouldLogSkip k)"
  unfolding shouldLogSkip_def by (intro basics moves_modify engine_fields)

lemma release_missing: "moves R (release_missing p m item inst st)"
  unfolding release_missing_def by (intro basics jitteredCooldown shouldLogSkip)

lemma item_step: "moves R (item_step item inst)"
  unfolding item_step_def by (intro basics createFirstStep)

lemma run_item: "moves R (run_item item)"
  unfolding run_item_def run_compensation_item_def run_step_item_def has_handler_def
  by (intro basics item_step release_missing executeCompensationStep executeStep)

lemma finish_item: "moves R body \<Longrightarrow> moves R (finish_item item body)"
proof -
  assume body: "moves R body"
  have "moves R (\<lambda>s. case body s of
          (Ok remove, t) \<Rightarrow> if remove then RemoveFromQueue (qi_ID item) t else (Ok (), t)
        | (Err e, t) \<Rightarrow> (Err e, snd (RemoveFromQueue (qi_ID item) t))
        | (Panic p, t) \<Rightarrow> (Panic p, snd (RemoveFromQueue (qi_ID item) t))
        | (Stuck, t) \<Rightarrow> (Stuck, t))" (is "moves R ?n")
  proof (rule movesI)
    fix s
    obtain r t where rt: "body s = (r, t)" by fastforce
    with body have st: "R s t" by (rule moves_result)
    have "R t (snd (RemoveFromQueue (qi_ID item) t))" by (rule movesD [OF RemoveFromQueue])
    with st have "R s (snd (RemoveFromQueue (qi_ID item) t))" by (rule R_trans)
    with st rt show "R s (snd (?n s))" by (cases r) simp_all
  qed
  then show ?thesis
    unfolding finish_item_def by (intro moves_thn moves_deferring moves_modify engine_fields)
qed

lemma ExecuteNext: "moves R (ExecuteNext w)"
  unfolding ExecuteNext_def ReadCommitted_def isShutdown_def by (intro basics finish_item run_item)

lemma MakeHumanDecision: "moves R (MakeHumanDecision sid by d c)"
  unfolding MakeHumanDecision_def ReadCommitted_def resume_after_decision_def
    continueWorkflowAfterHumanDecision_def
  by (intro basics handleStepSuccess)

lemma Shutdown: "moves R (Shutdown sh dr t)"
  unfolding Shutdown_def isShutdown_def Let_def by (intro basics moves_modify engine_fields)

lemma HumanDecisionWaitingEvents: "moves R HumanDecisionWaitingEvents"
  unfolding HumanDecisionWaitingEvents_def
  by (intro flow moves_modify) (simp add: R_refl engine_fields)

end
end
