(* ===== verification/Store_Invariant.thy ===== *)
theory Store_Invariant
  imports Join_State Store_Admin
begin

text \<open>
  The invariant of the memory store and its preservation by every operation that writes: each
  table has one entry per key and files a record under its own identifier, identifiers come from the
  counters, the index of steps by instance lists exactly the stored steps of the instance in the order
  of their creation, the event log is numbered without gaps, and every join state keeps its two
  lists free of duplicates, disjoint, and its readiness flag sound.
\<close>

section \<open>Tables\<close>

text \<open>A table files every value under its own key; a numbered table takes the keys from a counter.\<close>

definition keyed :: "('v \<Rightarrow> 'k) \<Rightarrow> ('k, 'v) gomap \<Rightarrow> bool" where
  "keyed key m \<longleftrightarrow> distinct (keys m) \<and> (\<forall>k v. map_of m k = Some v \<longrightarrow> key v = k)"

definition numbered :: "('v \<Rightarrow> int) \<Rightarrow> int \<Rightarrow> (int, 'v) gomap \<Rightarrow> bool" where
  "numbered key next m \<longleftrightarrow> keyed key m \<and> 1 \<le> next \<and> (\<forall>k. has_key m k \<longrightarrow> 1 \<le> k \<and> k < next)"

lemma keys_update: "distinct (keys m) \<Longrightarrow> distinct (keys (AList.update k v m))"
  by (simp add: keys_def distinct_update)

lemma keys_delete: "distinct (keys m) \<Longrightarrow> distinct (keys (AList.delete k m))"
  by (simp add: keys_def distinct_delete)

lemma keys_filter: "distinct (keys m) \<Longrightarrow> distinct (keys (filter P m))"
  by (simp add: keys_def distinct_map_filter)

lemma map_of_filter_iff:
  "distinct (keys m) \<Longrightarrow> map_of (filter P m) k = Some v \<longleftrightarrow> map_of m k = Some v \<and> P (k, v)"
  by (simp add: keys_def distinct_map_filter map_of_eq_Some_iff)

lemma keyed_Nil: "keyed key []" 
  by (simp add: keyed_def keys_def)

lemma keyed_update: "keyed key m \<Longrightarrow> key v = k \<Longrightarrow> keyed key (AList.update k v m)"
  by (simp add: keyed_def keys_update)

lemma keyed_delete: "keyed key m \<Longrightarrow> keyed key (AList.delete k m)"
  by (simp add: keyed_def keys_delete)

lemma keyed_filter: "keyed key m \<Longrightarrow> keyed key (filter P m)"
  by (auto simp: keyed_def keys_filter map_of_filter_iff)

lemma keyed_entry: "keyed key m \<Longrightarrow> v \<in> set (map snd m) \<Longrightarrow> map_of m (key v) = Some v"
  by (fastforce simp: keyed_def keys_def dest: map_of_is_SomeI)

lemma numbered_Nil: "numbered key 1 []"
  by (simp add: numbered_def keyed_Nil has_key_def)

lemma numbered_update:
  "numbered key n m \<Longrightarrow> has_key m k \<Longrightarrow> key v = k \<Longrightarrow> numbered key n (AList.update k v m)"
  by (auto simp: numbered_def keyed_update has_key_def)

lemma numbered_insert: "numbered key n m \<Longrightarrow> key v = n \<Longrightarrow> numbered key (n + 1) (AList.update n v m)"
  by (force simp: numbered_def keyed_update has_key_def)

lemma numbered_delete: "numbered key n m \<Longrightarrow> numbered key n (AList.delete k m)"
  by (auto simp: numbered_def keyed_delete has_key_def)

lemma numbered_filter: "numbered key n m \<Longrightarrow> numbered key n (filter P m)"
  by (auto simp: numbered_def keyed_filter has_key_def keyed_def keys_filter map_of_filter_iff)

lemma numbered_distinct: "numbered key n m \<Longrightarrow> distinct (keys m)"
  by (simp add: numbered_def keyed_def)

lemma numbered_key: "numbered key n m \<Longrightarrow> map_of m k = Some v \<Longrightarrow> key v = k"
  by (simp add: numbered_def keyed_def)

section \<open>The parts of the invariant\<close>

definition steps_ok :: "(int, workflow_step) gomap \<Rightarrow> int \<Rightarrow> int \<Rightarrow> bool" where
  "steps_ok m next clock \<longleftrightarrow> numbered ws_ID next m \<and>
     (\<forall>i st. map_of m i = Some st \<longrightarrow> ws_CreatedAt st < clock) \<and>
     (\<forall>i j st su. map_of m i = Some st \<longrightarrow> map_of m j = Some su \<longrightarrow> i < j \<longrightarrow>
        ws_CreatedAt st < ws_CreatedAt su)"

definition listing_ok :: "(int, int list) gomap \<Rightarrow> (int, workflow_step) gomap \<Rightarrow> bool" where
  "listing_ok idx m \<longleftrightarrow> distinct (keys idx) \<and>
     (\<forall>i. let ids = (case map_of idx i of None \<Rightarrow> [] | Some ids \<Rightarrow> ids) in
        sorted_wrt (<) ids \<and>
        (\<forall>k. k \<in> set ids \<longleftrightarrow> (\<exists>st. map_of m k = Some st \<and> ws_InstanceID st = i)))"

definition join_ok :: "join_state \<Rightarrow> bool" where
  "join_ok js \<longleftrightarrow> distinct (js_Completed js) \<and> distinct (js_Failed js) \<and>
     set (js_Completed js) \<inter> set (js_Failed js) = {} \<and>
     (js_IsReady js \<longrightarrow>
        checkJoinReady (js_WaitingFor js) (js_Completed js) (js_Failed js) (js_JoinStrategy js))"

definition joins_ok :: "(string, join_state) gomap \<Rightarrow> bool" where
  "joins_ok m \<longleftrightarrow> keyed (\<lambda>js. joinStateKey (js_InstanceID js) (js_JoinStepName js)) m \<and>
     (\<forall>k js. map_of m k = Some js \<longrightarrow> join_ok js)"

definition events_ok :: "workflow_event list \<Rightarrow> int \<Rightarrow> bool" where
  "events_ok evs next \<longleftrightarrow> next = int (length evs) + 1 \<and> (\<forall>n<length evs. we_ID (evs ! n) = int n + 1)"

definition wf_store :: "'x memory_store_scheme \<Rightarrow> bool" where
  "wf_store s \<longleftrightarrow>
     keyed wd_ID (ms_definitions s) \<and>
     numbered wi_ID (ms_nextInstanceID s) (ms_instances s) \<and>
     steps_ok (ms_steps s) (ms_nextStepID s) (ms_clock s) \<and>
     listing_ok (ms_stepsByInstance s) (ms_steps s) \<and>
     numbered qi_ID (ms_nextQueueID s) (ms_queue s) \<and>
     events_ok (ms_events s) (ms_nextEventID s) \<and>
     joins_ok (ms_joinStates s) \<and>
     keyed cr_InstanceID (ms_cancelRequests s) \<and>
     keyed hd_StepID (ms_humanDecisions s) \<and>
     numbered dl_ID (ms_nextDeadLetterID s) (ms_deadLetters s)"

text \<open>What no update of a step changes.\<close>

definition same_identity :: "workflow_step \<Rightarrow> workflow_step \<Rightarrow> bool" where
  "same_identity st su \<longleftrightarrow> ws_ID su = ws_ID st \<and> ws_InstanceID su = ws_InstanceID st \<and>
     ws_StepName su = ws_StepName st \<and> ws_StepType su = ws_StepType st \<and>
     ws_MaxRetries su = ws_MaxRetries st \<and> ws_IdempotencyKey su = ws_IdempotencyKey st \<and>
     ws_CreatedAt su = ws_CreatedAt st"

lemma steps_ok_clock: "steps_ok m n c \<Longrightarrow> c \<le> d \<Longrightarrow> steps_ok m n d"
  by (force simp: steps_ok_def)

lemma steps_ok_update:
  assumes ok: "steps_ok m n c" and old: "map_of m i = Some st" and same: "same_identity st su"
  shows "steps_ok (AList.update i su m) n c"
proof -
  have "numbered ws_ID n (AList.update i su m)"
    using ok old same by (intro numbered_update) (auto simp: steps_ok_def numbered_def keyed_def same_identity_def has_key_def)
  moreover have "ws_CreatedAt su = ws_CreatedAt st" using same by (simp add: same_identity_def)
  ultimately show ?thesis using ok old unfolding steps_ok_def by auto
qed

lemma listing_ok_update:
  assumes ok: "listing_ok idx m" and old: "map_of m i = Some st" and same: "same_identity st su"
  shows "listing_ok idx (AList.update i su m)"
proof -
  have "(\<exists>x. map_of (AList.update i su m) k = Some x \<and> ws_InstanceID x = j) \<longleftrightarrow>
        (\<exists>x. map_of m k = Some x \<and> ws_InstanceID x = j)" for k j
    using old same by (auto simp: same_identity_def)
  with ok show ?thesis by (simp only: listing_ok_def Let_def) blast
qed

lemma steps_ok_insert:
  assumes ok: "steps_ok m n c" and st: "ws_ID st = n" "c \<le> ws_CreatedAt st" "ws_CreatedAt st < d"
  shows "steps_ok (AList.update n st m) (n + 1) d"
proof -
  from ok have old: "map_of m i = Some su \<Longrightarrow> i < n \<and> ws_CreatedAt su < c" for i su
    by (auto simp: steps_ok_def numbered_def has_key_def)
  then have fresh: "map_of m n = None" by (metis less_irrefl not_None_eq)
  from ok st have "numbered ws_ID (n + 1) (AList.update n st m)"
    by (intro numbered_insert) (simp_all add: steps_ok_def)
  moreover have "map_of (AList.update n st m) i = Some su \<Longrightarrow> ws_CreatedAt su < d" for i su
    using st by (auto dest!: old split: if_splits)
  moreover have "map_of (AList.update n st m) i = Some su \<Longrightarrow> map_of (AList.update n st m) j = Some sv \<Longrightarrow>
      i < j \<Longrightarrow> ws_CreatedAt su < ws_CreatedAt sv" for i j su sv
    using st ok by (auto dest: old simp: steps_ok_def split: if_splits)
  ultimately show ?thesis by (simp add: steps_ok_def)
qed


lemma listing_ok_insert:
  assumes ok: "listing_ok idx m" and fresh: "\<And>k su. map_of m k = Some su \<Longrightarrow> k < n"
    and inst: "ws_InstanceID st = i"
  shows "listing_ok (AList.update i ((case map_of idx i of None \<Rightarrow> [] | Some ids \<Rightarrow> ids) @ [n]) idx)
    (AList.update n st m)"
proof -
  from ok have mem: "k \<in> set (case map_of idx i of None \<Rightarrow> [] | Some ids \<Rightarrow> ids) \<longleftrightarrow>
      (\<exists>su. map_of m k = Some su \<and> ws_InstanceID su = i)" for i k
    by (simp add: listing_ok_def Let_def)
  from ok have sorted: "sorted_wrt (<) (case map_of idx i of None \<Rightarrow> [] | Some ids \<Rightarrow> ids)" for i
    by (simp add: listing_ok_def Let_def)
  have none: "map_of m n = None" using fresh by (metis less_irrefl not_None_eq)
  have "k \<in> set (case map_of idx i of None \<Rightarrow> [] | Some ids \<Rightarrow> ids) \<Longrightarrow> k < n" for i k
    using mem fresh by blast
  with ok mem sorted none inst show ?thesis
    unfolding listing_ok_def Let_def
    by (auto simp: sorted_wrt_append keys_update)
qed

lemma events_ok_append: "events_ok evs n \<Longrightarrow> we_ID ev = n \<Longrightarrow> events_ok (evs @ [ev]) (n + 1)"
  by (auto simp: events_ok_def nth_append less_Suc_eq)

lemma joins_ok_update: "joins_ok m \<Longrightarrow> join_ok js \<Longrightarrow>
    k = joinStateKey (js_InstanceID js) (js_JoinStepName js) \<Longrightarrow> joins_ok (AList.update k js m)"
  by (auto simp: joins_ok_def keyed_update)

lemma joins_ok_filter: "joins_ok m \<Longrightarrow> joins_ok (filter P m)"
  by (auto simp: joins_ok_def keyed_filter map_of_filter_iff keyed_def keys_filter)

lemma join_ok_refresh: "join_ok js \<Longrightarrow> join_ok (refresh_ready now js)"
  by (simp add: join_ok_def refresh_ready_def)

text \<open>Refreshing repairs the readiness flag, so the lists alone matter before it.\<close>

definition lists_ok :: "join_state \<Rightarrow> bool" where
  "lists_ok js \<longleftrightarrow> distinct (js_Completed js) \<and> distinct (js_Failed js) \<and>
     set (js_Completed js) \<inter> set (js_Failed js) = {}"

lemma refresh_lists: "lists_ok js \<Longrightarrow> join_ok (refresh_ready now js)"
  by (simp add: join_ok_def lists_ok_def refresh_ready_def)

lemma join_ok_lists: "join_ok js \<Longrightarrow> lists_ok js"
  by (simp add: join_ok_def lists_ok_def)

lemma mark_success_lists: "lists_ok js \<Longrightarrow> lists_ok (mark_success n js)"
  by (auto simp: lists_ok_def mark_success_def)

lemma mark_failure_lists: "lists_ok js \<Longrightarrow> lists_ok (mark_failure n js)"
  by (auto simp: lists_ok_def mark_failure_def)

lemma absorb_lists: "lists_ok js \<Longrightarrow> lists_ok (absorb_status n sts js)"
  by (auto simp: lists_ok_def absorb_status_def split: option.split)

lemma join_fields [simp]:
  "js_InstanceID (refresh_ready now js) = js_InstanceID js" "js_JoinStepName (refresh_ready now js) = js_JoinStepName js"
  "js_InstanceID (mark_success n js) = js_InstanceID js" "js_JoinStepName (mark_success n js) = js_JoinStepName js"
  "js_InstanceID (mark_failure n js) = js_InstanceID js" "js_JoinStepName (mark_failure n js) = js_JoinStepName js"
  "js_InstanceID (absorb_status n sts js) = js_InstanceID js"
  "js_JoinStepName (absorb_status n sts js) = js_JoinStepName js"
  by (auto simp: refresh_ready_def mark_success_def mark_failure_def absorb_status_def split: option.split)

section \<open>Every operation keeps the store well-formed\<close>

lemma keepsI: "(\<And>s. I s \<Longrightarrow> I (snd (m s))) \<Longrightarrow> moves (keeps I) m"
  by (simp add: moves_def keeps_def)

lemma wf_time: "wf_store s \<Longrightarrow> ms_clock s \<le> c \<Longrightarrow> wf_store (s\<lparr>ms_clock := c\<rparr>)"
  by (auto simp: wf_store_def intro: steps_ok_clock)

lemma wf_time_now: "moves (keeps wf_store) time_now"
  by (rule keepsI) (simp add: time_now_def wf_time)

lemma wf_CreateInstance: "moves (keeps wf_store) (CreateInstance w inp)"
  by (rule keepsI)
    (auto simp: CreateInstance_def Let_def run_simps time_now_def put_instance_def wf_store_def
      intro: steps_ok_clock numbered_insert)

lemma wf_UpdateInstanceStatus: "moves (keeps wf_store) (UpdateInstanceStatus i ws out err)"
proof (rule keepsI)
  fix s :: "'x memory_store_scheme"
  assume wf: "wf_store s"
  then have "has_key (ms_instances s) i \<Longrightarrow> wi_ID inst = i \<Longrightarrow> ms_clock s \<le> c \<Longrightarrow>
      wf_store (s\<lparr>ms_clock := c, ms_instances := AList.update i inst (ms_instances s)\<rparr>)" for inst c
    by (auto simp: wf_store_def intro: steps_ok_clock numbered_update)
  moreover from wf have "map_of (ms_instances s) i = Some inst \<Longrightarrow> wi_ID inst = i" for inst
    by (simp add: wf_store_def numbered_def keyed_def)
  ultimately show "wf_store (snd (UpdateInstanceStatus i ws out err s))"
    using wf by (auto simp: UpdateInstanceStatus_def GetInstance_def run_simps time_now_def Let_def
        has_key_def split: option.split)
qed

lemma wf_put_step:
  "wf_store s \<Longrightarrow> map_of (ms_steps s) i = Some st \<Longrightarrow> same_identity st su \<Longrightarrow> ms_clock s \<le> c \<Longrightarrow>
   wf_store (s\<lparr>ms_clock := c, ms_steps := AList.update i su (ms_steps s)\<rparr>)"
  by (auto simp: wf_store_def intro: steps_ok_update listing_ok_update steps_ok_clock)

lemma wf_put_step_now:
  "wf_store s \<Longrightarrow> map_of (ms_steps s) i = Some st \<Longrightarrow> same_identity st su \<Longrightarrow>
   wf_store (s\<lparr>ms_steps := AList.update i su (ms_steps s)\<rparr>)"
  using wf_put_step [of s i st su "ms_clock s"] by simp

lemma wf_CreateStep: "moves (keeps wf_store) (CreateStep st)"
proof (rule keepsI)
  fix s :: "'x memory_store_scheme"
  assume wf: "wf_store s"
  then have "map_of (ms_steps s) k = Some su \<Longrightarrow> k < ms_nextStepID s" for k su
    by (auto simp: wf_store_def steps_ok_def numbered_def has_key_def)
  with wf show "wf_store (snd (CreateStep st s))"
    by (auto simp: CreateStep_def run_simps new_uuid_def time_now_def Let_def wf_store_def
        intro: steps_ok_insert listing_ok_insert)
qed

lemma wf_UpdateStep: "moves (keeps wf_store) (UpdateStep i ss out err)"
  by (rule keepsI)
    (auto simp: UpdateStep_def GetStepByID_def put_step_def run_simps time_now_def Let_def same_identity_def
      intro: wf_put_step split: option.split)

lemma wf_UpdateStepStatus: "moves (keeps wf_store) (UpdateStepStatus i ss)"
  by (rule keepsI)
    (auto simp: UpdateStepStatus_def GetStepByID_def put_step_def run_simps same_identity_def
      intro: wf_put_step_now split: option.split)

lemma wf_UpdateStepCompensationRetry: "moves (keeps wf_store) (UpdateStepCompensationRetry i n ss)"
  by (rule keepsI)
    (auto simp: UpdateStepCompensationRetry_def GetStepByID_def put_step_def run_simps same_identity_def
      intro: wf_put_step_now split: option.split)


lemma wf_EnqueueStep: "moves (keeps wf_store) (EnqueueStep i sid p d)"
  by (rule keepsI)
    (auto simp: EnqueueStep_def run_simps time_now_def Let_def wf_store_def
      intro: steps_ok_clock numbered_insert)

lemma wf_put_queue:
  "wf_store s \<Longrightarrow> has_key (ms_queue s) k \<Longrightarrow> qi_ID item = k \<Longrightarrow> ms_clock s \<le> c \<Longrightarrow>
   wf_store (s\<lparr>ms_clock := c, ms_queue := AList.update k item (ms_queue s)\<rparr>)"
  by (auto simp: wf_store_def intro: steps_ok_clock numbered_update)

lemma dequeue_select_mem: "dequeue_select prio now items = Some item \<Longrightarrow> item \<in> set items"
proof -
  have "fst (fold (dequeue_turn prio now) items acc) = Some item \<Longrightarrow> item \<in> set items \<or> fst acc = Some item" for acc
  proof (induction items arbitrary: acc)
    case (Cons x xs)
    then have "item \<in> set xs \<or> fst (dequeue_turn prio now x acc) = Some item" by simp
    moreover have "fst (dequeue_turn prio now x acc) = Some item \<Longrightarrow> item = x \<or> fst acc = Some item"
      by (cases acc) (auto simp: dequeue_turn_def Let_def split: if_splits)
    ultimately show ?case by auto
  qed simp
  from this [of "(None, -1)"] show "dequeue_select prio now items = Some item \<Longrightarrow> item \<in> set items"
    by (simp add: dequeue_select_def)
qed

lemma wf_DequeueStep: "moves (keeps wf_store) (DequeueStep w)"
proof (rule keepsI)
  fix s :: "'x memory_store_scheme"
  assume wf: "wf_store s"
  have "has_key (ms_queue s) (qi_ID item)" if "dequeue_select p now (map snd (ms_queue s)) = Some item" for p now item
    using wf keyed_entry [OF _ dequeue_select_mem [OF that]]
    by (simp add: wf_store_def numbered_def has_key_def)
  with wf show "wf_store (snd (DequeueStep w s))"
    by (auto simp: DequeueStep_def run_simps time_now_def Let_def intro: wf_put_queue wf_time split: option.split)
qed

lemma wf_RemoveFromQueue: "moves (keeps wf_store) (RemoveFromQueue k)"
  by (rule keepsI) (simp add: RemoveFromQueue_def run_simps wf_store_def numbered_delete)

lemma wf_queue_id: "wf_store s \<Longrightarrow> map_of (ms_queue s) k = Some item \<Longrightarrow> qi_ID item = k"
  by (simp add: wf_store_def numbered_def keyed_def)

lemma wf_ReleaseQueueItem: "moves (keeps wf_store) (ReleaseQueueItem k)"
proof (rule keepsI)
  fix s :: "'x memory_store_scheme"
  assume wf: "wf_store s"
  then have "has_key (ms_queue s) k \<Longrightarrow> qi_ID item = k \<Longrightarrow>
      wf_store (s\<lparr>ms_queue := AList.update k item (ms_queue s)\<rparr>)" for item
    using wf_put_queue [of s k item "ms_clock s"] by simp
  with wf show "wf_store (snd (ReleaseQueueItem k s))"
    by (auto simp: ReleaseQueueItem_def run_simps wf_queue_id has_key_def split: option.split)
qed

lemma wf_RescheduleAndReleaseQueueItem: "moves (keeps wf_store) (RescheduleAndReleaseQueueItem k d)"
  by (rule keepsI)
    (auto simp: RescheduleAndReleaseQueueItem_def run_simps time_now_def Let_def wf_queue_id has_key_def
      intro: wf_put_queue split: option.split)

lemma wf_LogEvent: "moves (keeps wf_store) (LogEvent i sid n payload)"
  by (rule keepsI)
    (auto simp: LogEvent_def run_simps time_now_def Let_def wf_store_def
      intro: steps_ok_clock events_ok_append split: sum.split)

lemma wf_put_join:
  "wf_store s \<Longrightarrow> join_ok js \<Longrightarrow> k = joinStateKey (js_InstanceID js) (js_JoinStepName js) \<Longrightarrow> ms_clock s \<le> c \<Longrightarrow>
   wf_store (s\<lparr>ms_clock := c, ms_joinStates := AList.update k js (ms_joinStates s)\<rparr>)"
  by (auto simp: wf_store_def intro: steps_ok_clock joins_ok_update)

lemma wf_join_state:
  assumes "wf_store s" "map_of (ms_joinStates s) k = Some js"
  shows "lists_ok js" "joinStateKey (js_InstanceID js) (js_JoinStepName js) = k"
  using assms by (auto simp: wf_store_def joins_ok_def keyed_def join_ok_lists)

lemma wf_CreateJoinState: "moves (keeps wf_store) (CreateJoinState i j ws strat)"
  by (rule keepsI)
    (auto simp: CreateJoinState_def run_simps time_now_def put_join_def Let_def join_ok_def
      intro!: wf_put_join)

lemma wf_UpdateJoinState: "moves (keeps wf_store) (UpdateJoinState i j n ok)"
  by (rule keepsI)
    (auto simp: UpdateJoinState_def run_simps time_now_def put_join_def Let_def wf_join_state
      intro!: wf_put_join refresh_lists mark_success_lists mark_failure_lists split: option.split)

lemma wf_AddToJoinWaitFor: "moves (keeps wf_store) (AddToJoinWaitFor i j n)"
  by (rule keepsI)
    (auto simp: AddToJoinWaitFor_def run_simps time_now_def put_join_def Let_def
      intro!: wf_put_join refresh_lists dest: wf_join_state simp: lists_ok_def split: option.split)

lemma wf_ReplaceInJoinWaitFor: "moves (keeps wf_store) (ReplaceInJoinWaitFor i j v n)"
  by (rule keepsI)
    (auto simp: ReplaceInJoinWaitFor_def run_simps time_now_def put_join_def Let_def
      intro!: wf_put_join refresh_lists absorb_lists dest: wf_join_state simp: lists_ok_def split: option.split)

lemma wf_CreateCancelRequest: "moves (keeps wf_store) (CreateCancelRequest req)"
  by (rule keepsI)
    (auto simp: CreateCancelRequest_def run_simps time_now_def wf_store_def
      intro: steps_ok_clock keyed_update)

lemma wf_DeleteCancelRequest: "moves (keeps wf_store) (DeleteCancelRequest i)"
  by (rule keepsI) (simp add: DeleteCancelRequest_def run_simps wf_store_def keyed_delete)

lemma wf_CreateHumanDecision: "moves (keeps wf_store) (CreateHumanDecision d)"
  by (rule keepsI)
    (auto simp: CreateHumanDecision_def run_simps time_now_def wf_store_def
      intro: steps_ok_clock keyed_update)

lemma wf_CreateDeadLetterRecord: "moves (keeps wf_store) (CreateDeadLetterRecord r)"
  by (rule keepsI)
    (auto simp: CreateDeadLetterRecord_def run_simps time_now_def wf_store_def
      intro: steps_ok_clock numbered_insert)


lemma wf_update_listed:
  assumes f: "\<And>st. same_identity st (f st)" and wf: "wf_store s"
  shows "wf_store (s\<lparr>ms_steps := update_listed f ids (ms_steps s)\<rparr>)"
  using wf
proof (induction ids arbitrary: s)
  case (Cons i ids)
  show ?case
  proof (cases "map_of (ms_steps s) i")
    case None
    with Cons show ?thesis by simp
  next
    case (Some st)
    from Cons.prems Some f have "wf_store (s\<lparr>ms_steps := AList.update i (f st) (ms_steps s)\<rparr>)"
      by (rule wf_put_step_now)
    from Cons.IH [OF this] Some show ?thesis by simp
  qed
qed simp

lemma identity_kept: "same_identity st (reset_step inp st)" "same_identity st (resume_join st)"
  "same_identity st (pause_running st)"
  by (simp_all add: same_identity_def reset_step_def resume_join_def pause_running_def)

lemma wf_PauseActiveStepsAndClearQueue: "moves (keeps wf_store) (PauseActiveStepsAndClearQueue i)"
proof -
  have "wf_store s \<Longrightarrow> wf_store (s\<lparr>ms_queue := filter P (ms_queue s)\<rparr>)" for s :: "'x memory_store_scheme" and P
    by (simp add: wf_store_def numbered_filter)
  then show ?thesis
    unfolding PauseActiveStepsAndClearQueue_def
    by (intro keeps.moves_thn keepsI) (simp_all add: modify_def wf_update_listed identity_kept)
qed

lemma bnd_thn_assoc: "bnd m (\<lambda>x. thn (f x) n) = thn (bnd m f) n"
  by (auto simp: thn_def bnd_def fun_eq_iff split: prod.split outcome.split)

lemma wf_RequeueDeadLetter: "moves (keeps wf_store) (RequeueDeadLetter k inp)"
proof -
  have reset: "moves (keeps wf_store) (bnd (GetStepByID i) (\<lambda>st. put_step i (reset_step inp st)))" for i
    by (rule keepsI)
      (auto simp: GetStepByID_def put_step_def run_simps identity_kept intro: wf_put_step_now split: option.split)
  have inst: "wf_store s \<Longrightarrow> wf_store (case map_of (ms_instances s) i of None \<Rightarrow> s
      | Some inst \<Rightarrow> s\<lparr>ms_instances := AList.update i (resume_instance inst) (ms_instances s)\<rparr>)"
    for s :: "'x memory_store_scheme" and i
    by (auto simp: wf_store_def has_key_def resume_instance_def numbered_key
        intro!: numbered_update split: option.split)
  have joins: "wf_store s \<Longrightarrow> wf_store (s\<lparr>ms_steps := update_listed resume_join ids (ms_steps s)\<rparr>)"
    for s :: "'x memory_store_scheme" and ids
    by (intro wf_update_listed identity_kept)
  have "wf_store s \<Longrightarrow> wf_store (s\<lparr>ms_deadLetters := AList.delete k (ms_deadLetters s)\<rparr>)" for s :: "'x memory_store_scheme"
    by (simp add: wf_store_def numbered_delete)
  with reset inst joins show ?thesis
    unfolding RequeueDeadLetter_def GetDeadLetterByID_def bnd_thn_assoc
    by (intro keeps.moves_bnd keeps.moves_thn keeps.moves_gets keeps.moves_option keeps.moves_throw
        keeps.moves_ret reset keepsI) (simp_all add: modify_def)
qed

lemma wf_SaveWorkflowDefinition: "moves (keeps wf_store) (SaveWorkflowDefinition def)"
  by (rule keepsI)
    (auto simp: SaveWorkflowDefinition_def put_definition_def run_simps new_uuid_def time_now_def wf_store_def
      keyed_def intro: steps_ok_clock keyed_update [unfolded keyed_def] keys_update split: option.split)

lemma listing_ok_delete:
  "listing_ok idx m \<Longrightarrow> distinct (keys m) \<Longrightarrow>
   listing_ok (AList.delete i idx) (filter (\<lambda>(k, st). ws_InstanceID st \<noteq> i) m)"
  by (auto simp: listing_ok_def Let_def keys_delete map_of_filter_iff)

lemma steps_ok_filter: "steps_ok m n c \<Longrightarrow> steps_ok (filter P m) n c"
  by (auto simp: steps_ok_def numbered_filter map_of_filter_iff numbered_distinct)

lemma steps_ok_distinct: "steps_ok m n c \<Longrightarrow> distinct (keys m)"
  by (auto simp: steps_ok_def dest: numbered_distinct)

lemma wf_delete_instance: "wf_store s \<Longrightarrow> wf_store (delete_instance i s)"
  by (auto simp: wf_store_def delete_instance_def numbered_delete steps_ok_filter joins_ok_filter keyed_delete
      intro!: listing_ok_delete intro: steps_ok_distinct)

lemma wf_CleanupOldWorkflows: "moves (keeps wf_store) (CleanupOldWorkflows days)"
proof -
  have "wf_store s \<Longrightarrow> wf_store (fold delete_instance old s)" for s :: "'x memory_store_scheme" and old
    by (induction old arbitrary: s) (simp_all add: wf_delete_instance)
  then show ?thesis
    unfolding CleanupOldWorkflows_def
    by (intro keeps.moves_bnd keeps.moves_thn keeps.moves_gets keeps.moves_ret wf_time_now keepsI)
      (simp_all add: modify_def)
qed

lemma wf_NewMemoryStore: "wf_store (NewMemoryStore now uuids)"
  by (simp add: wf_store_def NewMemoryStore_def keyed_Nil numbered_Nil steps_ok_def listing_ok_def events_ok_def
      joins_ok_def keys_def)

end
