(* ===== verification/System.thy ===== *)
theory System
  imports Engine_Frame Store_Invariant
begin

text \<open>
  The engine as a whole: a transition for every public operation, for the cancel worker's turn, for
  the clean-up of old workflows and for the passing of time; the states reachable from a new engine;
  the store invariant in every reachable state, and what a run of the engine never loses.
\<close>

section \<open>What a run never loses\<close>

definition steps_grow :: "(int, workflow_step) gomap \<Rightarrow> (int, workflow_step) gomap \<Rightarrow> bool" where
  "steps_grow m m' \<longleftrightarrow>
     (\<forall>i st. map_of m i = Some st \<longrightarrow> (\<exists>su. map_of m' i = Some su \<and> same_identity st su))"

definition instances_grow :: "(int, workflow_instance) gomap \<Rightarrow> (int, workflow_instance) gomap \<Rightarrow> bool" where
  "instances_grow m m' \<longleftrightarrow>
     (\<forall>i a. map_of m i = Some a \<longrightarrow> (\<exists>b. map_of m' i = Some b \<and> wi_WorkflowID b = wi_WorkflowID a \<and>
        wi_Input b = wi_Input a \<and> wi_CreatedAt b = wi_CreatedAt a))"

definition grows :: "'x memory_store_scheme \<Rightarrow> 'x memory_store_scheme \<Rightarrow> bool" where
  "grows s t \<longleftrightarrow> ms_clock s \<le> ms_clock t \<and> (\<exists>evs. ms_events t = ms_events s @ evs) \<and>
     steps_grow (ms_steps s) (ms_steps t) \<and> instances_grow (ms_instances s) (ms_instances t)"

lemma steps_grow_refl [simp]: "steps_grow m m"
  by (simp add: steps_grow_def same_identity_def)

lemma instances_grow_refl [simp]: "instances_grow m m"
  by (simp add: instances_grow_def)

lemma same_identity_trans: "same_identity st su \<Longrightarrow> same_identity su sv \<Longrightarrow> same_identity st sv"
  by (simp add: same_identity_def)

lemma steps_grow_trans: "steps_grow m m' \<Longrightarrow> steps_grow m' m'' \<Longrightarrow> steps_grow m m''"
  unfolding steps_grow_def by (meson same_identity_trans)

lemma instances_grow_trans: "instances_grow m m' \<Longrightarrow> instances_grow m' m'' \<Longrightarrow> instances_grow m m''"
  unfolding instances_grow_def by fastforce

lemma grows_refl: "grows s s"
  by (simp add: grows_def)

lemma grows_trans: "grows s t \<Longrightarrow> grows t u \<Longrightarrow> grows s u"
  unfolding grows_def by (metis append_assoc instances_grow_trans order_trans steps_grow_trans)

lemma steps_grow_update: "map_of m i = Some st \<Longrightarrow> same_identity st su \<Longrightarrow> steps_grow m (AList.update i su m)"
  by (auto simp: steps_grow_def same_identity_def)

lemma steps_grow_insert: "map_of m i = None \<Longrightarrow> steps_grow m (AList.update i su m)"
  by (auto simp: steps_grow_def same_identity_def)

lemma steps_grow_listed: "(\<And>st. same_identity st (f st)) \<Longrightarrow> steps_grow m (update_listed f ids m)"
proof (induction ids arbitrary: m)
  case (Cons i ids)
  show ?case
  proof (cases "map_of m i")
    case (Some st)
    with Cons.prems have "steps_grow m (AList.update i (f st) m)" by (intro steps_grow_update)
    with Some Cons show ?thesis by (auto intro: steps_grow_trans)
  qed (use Cons in simp)
qed simp

lemma instances_grow_insert: "map_of m i = None \<Longrightarrow> instances_grow m (AList.update i a m)"
  by (auto simp: instances_grow_def)

lemma wf_fresh:
  assumes "wf_store s"
  shows "map_of (ms_steps s) (ms_nextStepID s) = None" "map_of (ms_instances s) (ms_nextInstanceID s) = None"
  using assms by (auto simp: wf_store_def steps_ok_def numbered_def has_key_def)

section \<open>The store operations\<close>

text \<open>Where the store is well-formed, it stays so and loses nothing.\<close>

definition sound_step :: "'x memory_store_scheme \<Rightarrow> 'x memory_store_scheme \<Rightarrow> bool" where
  "sound_step s t \<longleftrightarrow> (wf_store s \<longrightarrow> wf_store t \<and> grows s t)"

lemma sound_moves:
  assumes "moves (keeps wf_store) m" and "\<And>s. wf_store s \<Longrightarrow> grows s (snd (m s))"
  shows "moves sound_step m"
  using assms by (simp add: moves_def keeps_def sound_step_def)

interpretation sound: step_preorder sound_step
  by unfold_locales (auto simp: sound_step_def intro: grows_refl grows_trans)

lemma sound_CreateInstance: "moves sound_step (CreateInstance w inp)"
  by (rule sound_moves [OF wf_CreateInstance])
    (simp add: CreateInstance_def Let_def run_simps time_now_def put_instance_def grows_def
      instances_grow_insert wf_fresh)

lemma sound_UpdateInstanceStatus: "moves sound_step (UpdateInstanceStatus i ws out err)"
  by (rule sound_moves [OF wf_UpdateInstanceStatus])
    (auto simp: UpdateInstanceStatus_def GetInstance_def run_simps time_now_def Let_def grows_def
      instances_grow_def split: option.split)

lemma sound_CreateStep: "moves sound_step (CreateStep st)"
  by (rule sound_moves [OF wf_CreateStep])
    (simp add: CreateStep_def Let_def run_simps time_now_def new_uuid_def grows_def steps_grow_insert wf_fresh)

lemma sound_UpdateStep: "moves sound_step (UpdateStep i ss out err)"
  by (rule sound_moves [OF wf_UpdateStep])
    (auto simp: UpdateStep_def GetStepByID_def put_step_def run_simps time_now_def Let_def grows_def
      same_identity_def intro!: steps_grow_update split: option.split)

lemma sound_UpdateStepStatus: "moves sound_step (UpdateStepStatus i ss)"
  by (rule sound_moves [OF wf_UpdateStepStatus])
    (auto simp: UpdateStepStatus_def GetStepByID_def put_step_def run_simps grows_def
      same_identity_def intro!: steps_grow_update split: option.split)

lemma sound_UpdateStepCompensationRetry: "moves sound_step (UpdateStepCompensationRetry i n ss)"
  by (rule sound_moves [OF wf_UpdateStepCompensationRetry])
    (auto simp: UpdateStepCompensationRetry_def GetStepByID_def put_step_def run_simps grows_def
      same_identity_def intro!: steps_grow_update split: option.split)

lemma sound_queue:
  "moves sound_step (EnqueueStep i sid p d)" "moves sound_step (DequeueStep w)"
  "moves sound_step (RemoveFromQueue k)" "moves sound_step (ReleaseQueueItem k)"
  "moves sound_step (RescheduleAndReleaseQueueItem k d)"
  by (rule sound_moves [OF wf_EnqueueStep] sound_moves [OF wf_DequeueStep] sound_moves [OF wf_RemoveFromQueue]
        sound_moves [OF wf_ReleaseQueueItem] sound_moves [OF wf_RescheduleAndReleaseQueueItem],
      simp add: EnqueueStep_def DequeueStep_def RemoveFromQueue_def ReleaseQueueItem_def
        RescheduleAndReleaseQueueItem_def run_simps time_now_def Let_def grows_def split: option.split)+

lemma sound_LogEvent: "moves sound_step (LogEvent i sid n payload)"
  by (rule sound_moves [OF wf_LogEvent])
    (simp add: LogEvent_def run_simps time_now_def Let_def grows_def split: sum.split)

lemma sound_joins:
  "moves sound_step (CreateJoinState i j ws strat)" "moves sound_step (UpdateJoinState i j n ok)"
  "moves sound_step (AddToJoinWaitFor i j n)" "moves sound_step (ReplaceInJoinWaitFor i j v n)"
  by (rule sound_moves [OF wf_CreateJoinState] sound_moves [OF wf_UpdateJoinState]
        sound_moves [OF wf_AddToJoinWaitFor] sound_moves [OF wf_ReplaceInJoinWaitFor],
      simp add: CreateJoinState_def UpdateJoinState_def AddToJoinWaitFor_def ReplaceInJoinWaitFor_def
        put_join_def run_simps time_now_def Let_def grows_def split: option.split)+

lemma sound_records:
  "moves sound_step (CreateCancelRequest req)" "moves sound_step (DeleteCancelRequest i)"
  "moves sound_step (CreateHumanDecision d)" "moves sound_step (CreateDeadLetterRecord r)"
  by (rule sound_moves [OF wf_CreateCancelRequest] sound_moves [OF wf_DeleteCancelRequest]
        sound_moves [OF wf_CreateHumanDecision] sound_moves [OF wf_CreateDeadLetterRecord],
      simp add: CreateCancelRequest_def DeleteCancelRequest_def CreateHumanDecision_def
        CreateDeadLetterRecord_def run_simps time_now_def grows_def)+

lemma sound_PauseActiveStepsAndClearQueue: "moves sound_step (PauseActiveStepsAndClearQueue i)"
  by (rule sound_moves [OF wf_PauseActiveStepsAndClearQueue])
    (simp add: PauseActiveStepsAndClearQueue_def run_simps grows_def steps_grow_listed identity_kept)

lemma sound_time_now: "moves sound_step time_now"
  by (rule sound_moves [OF wf_time_now]) (simp add: time_now_def grows_def)


lemma sound_RequeueDeadLetter: "moves sound_step (RequeueDeadLetter k inp)"
proof (rule sound_moves [OF wf_RequeueDeadLetter])
  fix s :: "'x memory_store_scheme"
  have "instances_grow m (AList.update i (resume_instance a) m)" if "map_of m i = Some a" for m i a
    using that by (auto simp: instances_grow_def resume_instance_def)
  moreover have "steps_grow m (update_listed resume_join ids (AList.update i (reset_step inp st) m))"
    if "map_of m i = Some st" for m i st ids
    using that steps_grow_trans [OF steps_grow_update steps_grow_listed] identity_kept by blast
  ultimately show "grows s (snd (RequeueDeadLetter k inp s))"
    by (simp add: RequeueDeadLetter_def GetDeadLetterByID_def GetStepByID_def put_step_def run_simps grows_def
        split: option.split)
qed

lemma sound_SaveWorkflowDefinition: "moves sound_step (SaveWorkflowDefinition def)"
  by (rule sound_moves [OF wf_SaveWorkflowDefinition])
    (simp add: SaveWorkflowDefinition_def put_definition_def run_simps new_uuid_def time_now_def grows_def
      split: option.split)

interpretation frame: engine_frame sound_step
proof unfold_locales
  show "on_first sound_step x x" for x :: "engine \<times> string list"
    by (simp add: on_first_def sound.R_refl)
  show "on_first sound_step x y \<Longrightarrow> on_first sound_step y z \<Longrightarrow> on_first sound_step x z"
    for x y z :: "engine \<times> string list"
    by (auto simp: on_first_def intro: sound.R_trans)
qed (fact sound_time_now sound_CreateInstance sound_UpdateInstanceStatus sound_CreateStep sound_UpdateStep
    sound_UpdateStepStatus sound_UpdateStepCompensationRetry sound_queue sound_LogEvent sound_joins
    sound_records sound_PauseActiveStepsAndClearQueue |
    simp add: sound_step_def wf_store_def grows_def)+

section \<open>Transitions\<close>

inductive engine_step :: "engine \<Rightarrow> engine \<Rightarrow> bool" where
  time_passes: "0 \<le> d \<Longrightarrow> engine_step s (s\<lparr>ms_clock := ms_clock s + d\<rparr>)"
| RegisterHandler: "engine_step s (snd (RegisterHandler name h s))"
| RegisterPlugin: "engine_step s (snd (RegisterPlugin p s))"
| RegisterWorkflow: "engine_step s (snd (RegisterWorkflow def s))"
| Start: "engine_step s (snd (Start workflowID input s))"
| ExecuteNext: "engine_step s (snd (ExecuteNext workerID s))"
| MakeHumanDecision: "engine_step s (snd (MakeHumanDecision stepID decidedBy decision comment s))"
| CancelWorkflow: "engine_step s (snd (CancelWorkflow instanceID requestedBy reason s))"
| AbortWorkflow: "engine_step s (snd (AbortWorkflow instanceID requestedBy reason s))"
| RequeueFromDLQ: "engine_step s (snd (RequeueFromDLQ dlqID newInput s))"
| processCancelRequests: "engine_step s (snd (processCancelRequests s))"
| Shutdown: "engine_step s (snd (Shutdown show_duration drained timeoutOpt s))"
| HumanDecisionWaitingEvents: "engine_step s (snd (HumanDecisionWaitingEvents s))"

inductive reachable :: "engine \<Rightarrow> bool" where
  new: "reachable (NewEngine now uuids randoms render [])"
| step: "reachable s \<Longrightarrow> engine_step s t \<Longrightarrow> reachable t"
| cleanup: "reachable s \<Longrightarrow> reachable (snd (CleanupOldWorkflows daysToKeep s))"

lemma sound_RegisterWorkflow: "moves sound_step (RegisterWorkflow def)"
  unfolding RegisterWorkflow_def by (intro frame.flow frame.lift_outcome sound_SaveWorkflowDefinition)

lemma sound_RequeueFromDLQ: "moves sound_step (RequeueFromDLQ k inp)"
  unfolding RequeueFromDLQ_def ReadCommitted_def by (intro frame.flow sound_RequeueDeadLetter)

lemmas sound_operations =
  frame.Start frame.ExecuteNext frame.MakeHumanDecision frame.CancelWorkflow frame.AbortWorkflow
  frame.processCancelRequests frame.Shutdown frame.HumanDecisionWaitingEvents
  sound_RegisterWorkflow sound_RequeueFromDLQ

lemma engine_step_sound: "engine_step s t \<Longrightarrow> sound_step s t"
proof (induction rule: engine_step.induct)
  case (time_passes d s)
  then show ?case by (auto simp: sound_step_def grows_def intro: wf_time)
next
  case (RegisterHandler s name h)
  show ?case by (simp add: sound_step_def RegisterHandler_def modify_def wf_store_def grows_def)
next
  case (RegisterPlugin s p)
  show ?case by (simp add: sound_step_def RegisterPlugin_def modify_def wf_store_def grows_def)
qed (rule movesD, rule sound_operations)+

lemma wf_NewEngine: "wf_store (NewEngine now uuids randoms render [])"
  using wf_NewMemoryStore [of now uuids]
  by (simp add: NewEngine_def wf_store_def memory_store.defs NewMemoryStore_def)

lemma reachable_wf: "reachable s \<Longrightarrow> wf_store s"
proof (induction rule: reachable.induct)
  case (new now uuids randoms render)
  show ?case by (rule wf_NewEngine)
next
  case (step s t)
  then show ?case using engine_step_sound by (auto simp: sound_step_def)
next
  case (cleanup s daysToKeep)
  then show ?case using movesD [OF wf_CleanupOldWorkflows] by (auto simp: keeps_def)
qed

end
