(* ===== verification/Store_Laws.thy ===== *)
theory Store_Laws
  imports Store_Invariant
begin

text \<open>
  What the remaining operations of the memory store do: listings and pages, statistics, dead letters and
  the clean-up of old workflows.
\<close>

section \<open>The steps of an instance\<close>

lemma listed_steps_exist:
  assumes "wf_store s" and "k \<in> set (listed_ids s i)"
  shows "\<exists>st. map_of (ms_steps s) k = Some st \<and> ws_InstanceID st = i \<and> ws_ID st = k"
proof -
  from assms obtain st where "map_of (ms_steps s) k = Some st" "ws_InstanceID st = i"
    by (auto simp: wf_store_def listing_ok_def Let_def)
  with assms(1) show ?thesis by (auto simp: wf_store_def steps_ok_def dest: numbered_key)
qed

lemma steps_of_ids:
  assumes "wf_store s"
  shows "map ws_ID (steps_of s i) = listed_ids s i"
proof -
  have "map ws_ID (List.map_filter (map_of (ms_steps s)) ids) = ids" if "set ids \<subseteq> set (listed_ids s i)" for ids
    using that
  proof (induction ids)
    case (Cons k ids)
    with listed_steps_exist [OF assms, of k i] show ?case by (auto simp: List.map_filter_simps)
  qed (simp add: List.map_filter_simps)
  then show ?thesis by (simp add: steps_of_def)
qed

lemma mem_map_filter: "y \<in> set (List.map_filter f xs) \<longleftrightarrow> (\<exists>x \<in> set xs. f x = Some y)"
  by (induction xs) (auto simp: List.map_filter_simps split: option.splits)

lemma steps_of_set:
  assumes "wf_store s"
  shows "set (steps_of s i) = {st. map_of (ms_steps s) (ws_ID st) = Some st \<and> ws_InstanceID st = i}"
proof -
  have mem: "k \<in> set (listed_ids s i) \<longleftrightarrow> (\<exists>st. map_of (ms_steps s) k = Some st \<and> ws_InstanceID st = i)" for k
    using assms by (simp add: wf_store_def listing_ok_def Let_def)
  have "map_of (ms_steps s) k = Some st \<Longrightarrow> ws_ID st = k" for k st
    using assms by (auto simp: wf_store_def steps_ok_def dest: numbered_key)
  moreover have "st \<in> set (steps_of s i) \<longleftrightarrow> (\<exists>k. map_of (ms_steps s) k = Some st \<and> ws_InstanceID st = i)" for st
    unfolding steps_of_def mem_map_filter using mem by (metis option.inject)
  ultimately show ?thesis by blast
qed

lemma steps_of_sorted:
  assumes "wf_store s"
  shows "sorted_wrt (\<lambda>a b. ws_CreatedAt a < ws_CreatedAt b) (steps_of s i)"
proof -
  have "sorted_wrt (\<lambda>a b. ws_ID a < ws_ID b) (steps_of s i)"
    using assms steps_of_ids [OF assms, of i] sorted_wrt_map [of "(<)" ws_ID "steps_of s i"]
    by (simp add: wf_store_def listing_ok_def Let_def)
  then show ?thesis
  proof (rule sorted_wrt_mono_rel [rotated])
    fix a b
    assume "a \<in> set (steps_of s i)" "b \<in> set (steps_of s i)" "ws_ID a < ws_ID b"
    with steps_of_set [OF assms] have "map_of (ms_steps s) (ws_ID a) = Some a" "map_of (ms_steps s) (ws_ID b) = Some b"
      by auto
    with \<open>ws_ID a < ws_ID b\<close> assms show "ws_CreatedAt a < ws_CreatedAt b"
      unfolding wf_store_def steps_ok_def by blast
  qed
qed

lemma GetStepsByInstance_run: "wf_store s \<Longrightarrow> GetStepsByInstance i s = (Ok (steps_of s i), s)"
proof -
  assume "wf_store s"
  then have "sorted_wrt (\<lambda>a b. ws_CreatedAt a \<le> ws_CreatedAt b) (steps_of s i)"
    using steps_of_sorted [of s i] by (auto elim: sorted_wrt_mono_rel [rotated])
  then have "sort_key ws_CreatedAt (steps_of s i) = steps_of s i"
    by (intro sort_key_id_if_sorted) (simp add: sorted_map)
  then show ?thesis by (simp add: GetStepsByInstance_def gets_def)
qed

section \<open>Listed steps under an update\<close>

lemma map_of_update_listed:
  "distinct ids \<Longrightarrow> map_of (update_listed f ids m) k = (if k \<in> set ids then map_option f (map_of m k) else map_of m k)"
proof (induction ids arbitrary: m)
  case (Cons i ids)
  then show ?case by (cases "map_of m i") auto
qed simp

lemma listed_distinct: "wf_store s \<Longrightarrow> distinct (listed_ids s i)"
  by (auto simp: wf_store_def listing_ok_def Let_def dest: strict_sorted_iff [THEN iffD1])

lemma listed_iff:
  "wf_store s \<Longrightarrow> k \<in> set (listed_ids s i) \<longleftrightarrow> (\<exists>st. map_of (ms_steps s) k = Some st \<and> ws_InstanceID st = i)"
  by (simp add: wf_store_def listing_ok_def Let_def)

text \<open>Updating the listed steps of an instance is updating the steps of the instance.\<close>

lemma map_of_update_instance:
  assumes "wf_store s"
  shows "map_of (update_listed f (listed_ids s i) (ms_steps s)) k =
    (case map_of (ms_steps s) k of
       None \<Rightarrow> None
     | Some st \<Rightarrow> Some (if ws_InstanceID st = i then f st else st))"
  using listed_iff [OF assms, of k i] listed_distinct [OF assms]
  by (cases "map_of (ms_steps s) k") (auto simp: map_of_update_listed)

section \<open>Pages\<close>

lemma paginate_run:
  assumes "0 \<le> offset" and "0 \<le> limit"
  shows "paginate xs offset limit s = (Ok (take (nat limit) (drop (nat offset) xs), int (length xs)), s)"
proof (cases "int (length xs) \<le> offset")
  case True
  then show ?thesis by (simp add: paginate_def run_simps)
next
  case False
  have "take (nat (min (offset + limit) (int (length xs)) - offset)) (drop (nat offset) xs) =
      take (nat limit) (drop (nat offset) xs)"
    using assms False by (cases "offset + limit \<le> int (length xs)") auto
  with False assms show ?thesis by (simp add: paginate_def run_simps go_slice_def)
qed

section \<open>Statistics\<close>

definition with_status :: "workflow_status list \<Rightarrow> workflow_instance list \<Rightarrow> nat" where
  "with_status sts is = length (filter (\<lambda>i. wi_Status i \<in> set sts) is)"

lemma count_instance_fold:
  "fold count_instance is st =
     \<lparr>ss_TotalWorkflows = ss_TotalWorkflows st + length is,
      ss_CompletedWorkflows = ss_CompletedWorkflows st + with_status [StatusCompleted] is,
      ss_FailedWorkflows = ss_FailedWorkflows st + with_status [StatusFailed] is,
      ss_RunningWorkflows = ss_RunningWorkflows st + with_status [StatusRunning] is,
      ss_PendingWorkflows = ss_PendingWorkflows st + with_status [StatusPending] is,
      ss_ActiveWorkflows = ss_ActiveWorkflows st + with_status [StatusRunning, StatusPending] is\<rparr>"
proof (induction "is" arbitrary: st)
  case (Cons i "is")
  show ?case
    by (simp only: fold_simps Cons.IH, cases "wi_Status i")
      (simp_all add: count_instance_def with_status_def Let_def)
qed (simp add: with_status_def)

section \<open>Clean-up\<close>

definition doomed :: "int \<Rightarrow> 'x memory_store_scheme \<Rightarrow> int \<Rightarrow> bool" where
  "doomed days s i \<longleftrightarrow>
     (case map_of (ms_instances s) i of None \<Rightarrow> False | Some a \<Rightarrow> is_old (ms_clock s - days * day_ns) a)"

lemma map_of_filter_value:
  assumes "distinct (keys m)"
  shows "map_of (filter (\<lambda>(a, v). P v) m) k = (case map_of m k of None \<Rightarrow> None | Some v \<Rightarrow> if P v then Some v else None)"
    (is "?x = ?y")
proof -
  have "?x = Some v \<longleftrightarrow> ?y = Some v" for v
    using map_of_filter_iff [OF assms, of "\<lambda>(a, v). P v" k v] by (simp split: option.split) blast
  then show ?thesis by (metis not_None_eq)
qed

lemma fold_delete_instance:
  "wf_store s \<Longrightarrow>
   map_of (ms_instances (fold delete_instance old s)) i = (if i \<in> set old then None else map_of (ms_instances s) i) \<and>
   map_of (ms_steps (fold delete_instance old s)) k =
     (case map_of (ms_steps s) k of None \<Rightarrow> None | Some st \<Rightarrow> if ws_InstanceID st \<in> set old then None else Some st) \<and>
   map_of (ms_joinStates (fold delete_instance old s)) j =
     (case map_of (ms_joinStates s) j of None \<Rightarrow> None | Some js \<Rightarrow> if js_InstanceID js \<in> set old then None else Some js) \<and>
   ms_queue (fold delete_instance old s) = ms_queue s"
proof (induction old arbitrary: s)
  case (Cons x old)
  have "distinct (keys (ms_steps s))" "distinct (keys (ms_joinStates s))"
    using Cons.prems by (auto simp: wf_store_def joins_ok_def keyed_def intro: steps_ok_distinct)
  with Cons.IH [OF wf_delete_instance [OF Cons.prems]] show ?case
    by (simp add: delete_instance_def map_of_filter_value split: option.split)
qed (simp split: option.split)

section \<open>Properties\<close>

definition small_store :: memory_store where
  "small_store = snd (thn (CreateInstance ''w'' RawNil) (CreateStep (new_step 1 ''a'' StepTypeTask StepStatusRunning RawNil 0))
     (NewMemoryStore 0 (\<lambda>_. [])))"

lemma small_store_wf: "wf_store small_store"
  using movesD [OF keeps.moves_thn [OF wf_CreateInstance [of "''w''" RawNil]
      wf_CreateStep [of "new_step 1 ''a'' StepTypeTask StepStatusRunning RawNil 0"]], of "NewMemoryStore 0 (\<lambda>_. [])"]
    wf_NewMemoryStore [of 0 "\<lambda>_. []"]
  by (simp add: keeps_def small_store_def)

text \<open>
  \<open>GetStepsByInstance\<close> returns exactly the stored steps of the instance, each once, strictly in the order
  of their creation, and changes nothing.
\<close>

theorem instance_steps_exact:
  assumes "wf_store s"
  shows "\<exists>sts. GetStepsByInstance i s = (Ok sts, s) \<and> distinct (map ws_ID sts) \<and>
    sorted_wrt (\<lambda>a b. ws_CreatedAt a < ws_CreatedAt b) sts \<and>
    set sts = {st. map_of (ms_steps s) (ws_ID st) = Some st \<and> ws_InstanceID st = i}"
  using GetStepsByInstance_run [OF assms] steps_of_sorted [OF assms] steps_of_set [OF assms]
    steps_of_ids [OF assms] listed_distinct [OF assms]
  by auto

theorem instance_steps_exact_witness:
  "\<exists>sts. GetStepsByInstance 1 small_store = (Ok sts, small_store) \<and> distinct (map ws_ID sts) \<and>
    sorted_wrt (\<lambda>a b. ws_CreatedAt a < ws_CreatedAt b) sts \<and>
    set sts = {st. map_of (ms_steps small_store) (ws_ID st) = Some st \<and> ws_InstanceID st = 1}"
  by (rule instance_steps_exact [OF small_store_wf])

text \<open>
  Freezing an instance for the dead letter queue pauses exactly its running steps, takes exactly its items
  out of the queue, and changes neither the steps nor the queue items of other instances.
\<close>

theorem pause_exact:
  assumes "wf_store s"
  shows "\<exists>t. PauseActiveStepsAndClearQueue i s = (Ok (), t) \<and>
    (\<forall>k. map_of (ms_steps t) k = (case map_of (ms_steps s) k of
        None \<Rightarrow> None
      | Some st \<Rightarrow> Some (if ws_InstanceID st = i \<and> ws_Status st = StepStatusRunning
                         then st\<lparr>ws_Status := StepStatusPaused\<rparr> else st))) \<and>
    (\<forall>k. map_of (ms_queue t) k = (case map_of (ms_queue s) k of
        None \<Rightarrow> None
      | Some item \<Rightarrow> if qi_InstanceID item \<noteq> i then Some item else None))"
proof -
  have "distinct (keys (ms_queue s))" using assms by (auto simp: wf_store_def dest: numbered_distinct)
  with map_of_update_instance [OF assms, of pause_running i] show ?thesis
    by (auto simp: PauseActiveStepsAndClearQueue_def run_simps map_of_filter_value pause_running_def
        split: option.split)
qed

theorem pause_exact_witness:
  "\<exists>t. PauseActiveStepsAndClearQueue 1 small_store = (Ok (), t) \<and>
    (\<forall>k. map_of (ms_steps t) k = (case map_of (ms_steps small_store) k of
        None \<Rightarrow> None
      | Some st \<Rightarrow> Some (if ws_InstanceID st = 1 \<and> ws_Status st = StepStatusRunning
                         then st\<lparr>ws_Status := StepStatusPaused\<rparr> else st))) \<and>
    (\<forall>k. map_of (ms_queue t) k = (case map_of (ms_queue small_store) k of
        None \<Rightarrow> None
      | Some item \<Rightarrow> if qi_InstanceID item \<noteq> 1 then Some item else None))"
  by (rule pause_exact [OF small_store_wf])

text \<open>
  Clean-up deletes exactly the instances that completed before the cut-off, with their steps and join
  states, reports how many, and keeps everything else; the queue is not touched.
\<close>

theorem cleanup_exact:
  assumes wf: "wf_store s"
  shows "\<exists>t. CleanupOldWorkflows days s = (Ok (int (card {i. doomed days s i})), t) \<and>
    (\<forall>i. map_of (ms_instances t) i = (if doomed days s i then None else map_of (ms_instances s) i)) \<and>
    (\<forall>k. map_of (ms_steps t) k = (case map_of (ms_steps s) k of
        None \<Rightarrow> None | Some st \<Rightarrow> if doomed days s (ws_InstanceID st) then None else Some st)) \<and>
    (\<forall>j. map_of (ms_joinStates t) j = (case map_of (ms_joinStates s) j of
        None \<Rightarrow> None | Some js \<Rightarrow> if doomed days s (js_InstanceID js) then None else Some js)) \<and>
    ms_queue t = ms_queue s"
proof -
  define old where "old = map fst (filter (\<lambda>(i, a). is_old (ms_clock s - days * day_ns) a) (ms_instances s))"
  have dist: "distinct (keys (ms_instances s))" using wf by (auto simp: wf_store_def dest: numbered_distinct)
  have "i \<in> set old \<longleftrightarrow>
      map_of (filter (\<lambda>(i, a). is_old (ms_clock s - days * day_ns) a) (ms_instances s)) i \<noteq> None" for i
    by (simp add: old_def map_of_eq_None_iff)
  then have old: "set old = {i. doomed days s i}"
    by (auto simp: map_of_filter_value [OF dist] doomed_def split: option.splits if_splits)
  moreover have "distinct old" using dist by (simp add: old_def keys_def distinct_map_filter)
  ultimately have len: "length old = card {i. doomed days s i}" by (metis distinct_card)
  have wf': "wf_store (s\<lparr>ms_clock := ms_clock s + 1\<rparr>)" using wf by (simp add: wf_time)
  have mem: "i \<in> set old \<longleftrightarrow> doomed days s i" for i using old by blast
  have "CleanupOldWorkflows days s =
      (Ok (int (card {i. doomed days s i})), fold delete_instance old (s\<lparr>ms_clock := ms_clock s + 1\<rparr>))"
    using len by (simp add: CleanupOldWorkflows_def run_simps time_now_def old_def)
  with fold_delete_instance [OF wf', of old, unfolded mem] show ?thesis by simp
qed

theorem cleanup_exact_witness:
  "\<exists>n t. CleanupOldWorkflows 0 small_store = (Ok n, t) \<and> ms_queue t = ms_queue small_store"
  using cleanup_exact [OF small_store_wf, of 0] by blast

text \<open>
  Pagination.  For an offset and a limit that are not negative, both paginated listings return the slice
  of the full listing and its length and never panic.
\<close>

theorem pages_exact:
  assumes "0 \<le> offset" and "0 \<le> limit"
  shows "\<exists>all. GetAllWorkflowInstances s = (Ok all, s) \<and>
    GetAllWorkflowInstancesPaginated offset limit s =
      (Ok (take (nat limit) (drop (nat offset) all), int (length all)), s) \<and>
    GetWorkflowInstancesPaginated w offset limit s =
      (let own = filter (\<lambda>i. wi_WorkflowID i = w) all
       in (Ok (take (nat limit) (drop (nat offset) own), int (length own)), s))"
  by (simp add: paginate_run [OF assms] GetAllWorkflowInstancesPaginated_def GetWorkflowInstancesPaginated_def run_simps
      GetAllWorkflowInstances_def GetWorkflowInstances_def by_created_desc_def filter_sort)

theorem pages_exact_witness:
  "\<exists>all. GetAllWorkflowInstances small_store = (Ok all, small_store) \<and>
    GetAllWorkflowInstancesPaginated 0 10 small_store =
      (Ok (take (nat 10) (drop (nat 0) all), int (length all)), small_store) \<and>
    GetWorkflowInstancesPaginated ''w'' 0 10 small_store =
      (let own = filter (\<lambda>i. wi_WorkflowID i = ''w'') all
       in (Ok (take (nat 10) (drop (nat 0) own), int (length own)), small_store))"
  by (rule pages_exact) simp_all

text \<open>
  The summary counts every instance once in the total, completed, failed, running and pending instances
  each by their status, and as active the running and pending ones together.
\<close>

theorem summary_exact:
  "GetSummaryStats s = (let is = map snd (ms_instances s) in
     (Ok \<lparr>ss_TotalWorkflows = length is, ss_CompletedWorkflows = with_status [StatusCompleted] is,
          ss_FailedWorkflows = with_status [StatusFailed] is, ss_RunningWorkflows = with_status [StatusRunning] is,
          ss_PendingWorkflows = with_status [StatusPending] is,
          ss_ActiveWorkflows = with_status [StatusRunning, StatusPending] is\<rparr>, s))"
  by (simp add: GetSummaryStats_def gets_def count_instance_fold Let_def)

text \<open>
  Requeueing a dead letter resets its step and its instance and deletes the record, but leaves the queue
  as it is: no worker will pick up the step again.
\<close>

theorem requeue_leaves_queue:
  assumes wf: "wf_store s" and rec: "map_of (ms_deadLetters s) k = Some rec"
    and st: "map_of (ms_steps s) (dl_StepID rec) = Some st"
  shows "\<exists>t su. RequeueDeadLetter k newInput s = (Ok (), t) \<and> ms_queue t = ms_queue s \<and>
    map_of (ms_deadLetters t) k = None \<and> map_of (ms_steps t) (dl_StepID rec) = Some su \<and>
    ws_Status su = StepStatusPending \<and> ws_RetryCount su = 0 \<and> ws_Error su = None \<and>
    ws_Input su = (case newInput of None \<Rightarrow> ws_Input st | Some inp \<Rightarrow> inp)"
proof -
  define s1 where "s1 = s\<lparr>ms_steps := AList.update (dl_StepID rec) (reset_step newInput st) (ms_steps s)\<rparr>"
  have wf1: "wf_store s1" unfolding s1_def using wf st identity_kept(1) by (rule wf_put_step_now)
  have "map_of (update_listed resume_join (listed_ids s1 (dl_InstanceID rec)) (ms_steps s1)) (dl_StepID rec) =
      Some (if ws_InstanceID st = dl_InstanceID rec then resume_join (reset_step newInput st) else reset_step newInput st)"
    using map_of_update_instance [OF wf1, of resume_join "dl_InstanceID rec" "dl_StepID rec"]
    by (simp add: s1_def reset_step_def)
  then show ?thesis
    using rec st
    by (auto simp: RequeueDeadLetter_def GetDeadLetterByID_def GetStepByID_def put_step_def run_simps s1_def
        reset_step_def resume_join_def split: option.split)
qed


definition letter_store :: memory_store where
  "letter_store = snd (CreateDeadLetterRecord \<lparr>dl_ID = 0, dl_InstanceID = 1, dl_WorkflowID = ''w'', dl_StepID = 1,
     dl_StepName = ''a'', dl_StepType = ''task'', dl_Input = RawNil, dl_Error = None, dl_Reason = [], dl_CreatedAt = 0\<rparr>
     small_store)"

lemma letter_store_wf: "wf_store letter_store"
  unfolding letter_store_def
  using movesD [OF wf_CreateDeadLetterRecord, of small_store] small_store_wf by (simp add: keeps_def)

theorem requeue_leaves_queue_witness:
  "\<exists>t. RequeueDeadLetter 1 None letter_store = (Ok (), t) \<and> ms_queue t = ms_queue letter_store"
proof -
  obtain rec st where "map_of (ms_deadLetters letter_store) 1 = Some rec" "map_of (ms_steps letter_store) (dl_StepID rec) = Some st"
    by (simp add: letter_store_def CreateDeadLetterRecord_def small_store_def CreateInstance_def CreateStep_def
        put_instance_def new_uuid_def time_now_def NewMemoryStore_def run_simps Let_def new_step_def)
  from requeue_leaves_queue [OF letter_store_wf this, of None] show ?thesis by blast
qed

end
