(* ===== verification/Engine_Laws.thy ===== *)
theory Engine_Laws
  imports System Store_Laws "HOL-Library.Multiset"
begin

text \<open>
  What the operations of the engine do, branch by branch: registration and start, cancel and abort
  requests, missing handlers, plugins, completion, human decisions, retries and the dead letter path.
\<close>

section \<open>Logging\<close>

text \<open>The state after a log entry; it differs in the log and the clock only.\<close>

definition logged :: "int \<Rightarrow> int option \<Rightarrow> string \<Rightarrow> (string \<times> json) list \<Rightarrow> engine \<Rightarrow> engine" where
  "logged i sid n payload s = snd (log_event i sid n payload s)"

lemma log_event_run [run_simps]: "log_event i sid n payload s = (Ok (), logged i sid n payload s)"
  by (simp add: logged_def log_event_def LogEvent_def run_simps time_now_def Let_def)

lemma logged_fields [simp]:
  "ms_definitions (logged i sid n p s) = ms_definitions s" "ms_instances (logged i sid n p s) = ms_instances s"
  "ms_steps (logged i sid n p s) = ms_steps s" "ms_stepsByInstance (logged i sid n p s) = ms_stepsByInstance s"
  "ms_queue (logged i sid n p s) = ms_queue s" "ms_joinStates (logged i sid n p s) = ms_joinStates s"
  "ms_cancelRequests (logged i sid n p s) = ms_cancelRequests s"
  "ms_humanDecisions (logged i sid n p s) = ms_humanDecisions s"
  "ms_deadLetters (logged i sid n p s) = ms_deadLetters s"
  "ms_nextInstanceID (logged i sid n p s) = ms_nextInstanceID s" "ms_nextStepID (logged i sid n p s) = ms_nextStepID s"
  "ms_nextQueueID (logged i sid n p s) = ms_nextQueueID s" "ms_nextDeadLetterID (logged i sid n p s) = ms_nextDeadLetterID s"
  "ms_clock (logged i sid n p s) = ms_clock s + 1" "ms_uuid (logged i sid n p s) = ms_uuid s"
  "ms_uuidCount (logged i sid n p s) = ms_uuidCount s"
  "en_handlers (logged i sid n p s) = en_handlers s" "en_plugins (logged i sid n p s) = en_plugins s"
  "en_calls (logged i sid n p s) = en_calls s" "en_isShuttingDown (logged i sid n p s) = en_isShuttingDown s"
  "en_activeSteps (logged i sid n p s) = en_activeSteps s" "en_cancelled (logged i sid n p s) = en_cancelled s"
  "en_cancelContexts (logged i sid n p s) = en_cancelContexts s" "en_render (logged i sid n p s) = en_render s"
  by (simp_all add: logged_def log_event_def LogEvent_def run_simps time_now_def Let_def)

lemma logged_wf: "wf_store s \<Longrightarrow> wf_store (logged i sid n p s)"
  using movesD [OF frame.log_event, of s i sid n p] by (simp add: sound_step_def logged_def)

section \<open>The store operations, as equations\<close>

definition created :: "'x memory_store_scheme \<Rightarrow> workflow_step \<Rightarrow> workflow_step" where
  "created s st = st\<lparr>ws_IdempotencyKey := (if ws_IdempotencyKey st = [] then ms_uuid s (ms_uuidCount s) else ws_IdempotencyKey st),
     ws_ID := ms_nextStepID s, ws_CreatedAt := ms_clock s\<rparr>"

definition with_created :: "'x memory_store_scheme \<Rightarrow> workflow_step \<Rightarrow> 'x memory_store_scheme" where
  "with_created s st = snd (CreateStep st s)"

lemma CreateStep_run [run_simps]: "CreateStep st s = (Ok (created s st), with_created s st)"
  by (simp add: with_created_def CreateStep_def created_def new_uuid_def time_now_def run_simps Let_def)

lemma with_created_fields [simp]:
  "ms_definitions (with_created s st) = ms_definitions s" "ms_instances (with_created s st) = ms_instances s"
  "ms_steps (with_created s st) = AList.update (ms_nextStepID s) (created s st) (ms_steps s)"
  "ms_stepsByInstance (with_created s st) =
     AList.update (ws_InstanceID st) (listed_ids s (ws_InstanceID st) @ [ms_nextStepID s]) (ms_stepsByInstance s)"
  "ms_queue (with_created s st) = ms_queue s" "ms_joinStates (with_created s st) = ms_joinStates s"
  "ms_cancelRequests (with_created s st) = ms_cancelRequests s" "ms_deadLetters (with_created s st) = ms_deadLetters s"
  "ms_nextQueueID (with_created s st) = ms_nextQueueID s" "ms_clock (with_created s st) = ms_clock s + 1"
  "ms_events (with_created s st) = ms_events s" "memory_store.more (with_created s st) = memory_store.more s"
  by (simp_all add: with_created_def CreateStep_def created_def new_uuid_def time_now_def run_simps Let_def)

lemma created_fields [simp]:
  "ws_ID (created s st) = ms_nextStepID s" "ws_InstanceID (created s st) = ws_InstanceID st"
  "ws_StepName (created s st) = ws_StepName st" "ws_StepType (created s st) = ws_StepType st"
  "ws_Status (created s st) = ws_Status st" "ws_Input (created s st) = ws_Input st"
  "ws_RetryCount (created s st) = ws_RetryCount st" "ws_MaxRetries (created s st) = ws_MaxRetries st"
  by (simp_all add: created_def)

lemma map_filter_update: "k \<notin> set ids \<Longrightarrow> List.map_filter (map_of (AList.update k v m)) ids = List.map_filter (map_of m) ids"
  by (induction ids) (auto simp: List.map_filter_simps split: option.split)

lemma map_filter_append: "List.map_filter f (xs @ ys) = List.map_filter f xs @ List.map_filter f ys"
  by (simp add: List.map_filter_def)

lemma steps_of_created:
  assumes "wf_store s"
  shows "steps_of (with_created s st) i = steps_of s i @ (if ws_InstanceID st = i then [created s st] else [])"
proof -
  have "ms_nextStepID s \<notin> set (listed_ids s i)"
    using listed_iff [OF assms, of "ms_nextStepID s" i] wf_fresh(1) [OF assms] by simp
  then show ?thesis
    by (auto simp: steps_of_def map_filter_update map_filter_append List.map_filter_simps)
qed

definition enqueued :: "'x memory_store_scheme \<Rightarrow> int \<Rightarrow> int option \<Rightarrow> int \<Rightarrow> int \<Rightarrow> queue_item" where
  "enqueued s i sid priority delay =
     \<lparr>qi_ID = ms_nextQueueID s, qi_InstanceID = i, qi_StepID = sid, qi_ScheduledAt = ms_clock s + delay,
      qi_AttemptedAt = None, qi_AttemptedBy = None, qi_Priority = priority\<rparr>"

lemma EnqueueStep_run [run_simps]:
  "EnqueueStep i sid priority delay s = (Ok (), s\<lparr>ms_clock := ms_clock s + 1,
     ms_queue := AList.update (ms_nextQueueID s) (enqueued s i sid priority delay) (ms_queue s),
     ms_nextQueueID := ms_nextQueueID s + 1\<rparr>)"
  by (simp add: EnqueueStep_def run_simps time_now_def Let_def enqueued_def)

section \<open>Properties\<close>

text \<open>
  The cool-down of an item without local handler stays within its jitter.  For a positive cool-down, a
  jitter fraction of at most one and a random source in the unit interval, the delay is at least a
  millisecond or the reduced cool-down, and at most a millisecond or the increased cool-down.
\<close>

theorem cooldown_bounds:
  assumes base: "0 < en_missingHandlerCooldown s" and pct: "0 < en_missingHandlerJitterPct s" "en_missingHandlerJitterPct s \<le> 1"
    and random: "0 \<le> en_random s (en_randomCount s)" "en_random s (en_randomCount s) \<le> 1"
  shows "\<exists>d t. jitteredCooldown s = (Ok d, t) \<and> 1000000 \<le> d \<and>
    of_int d \<le> max 1000000 (of_int (en_missingHandlerCooldown s) * (1 + en_missingHandlerJitterPct s)) \<and>
    of_int (en_missingHandlerCooldown s) * (1 - en_missingHandlerJitterPct s) - 1 < of_int d"
proof -
  define base' pct' r where "base' = (of_int (en_missingHandlerCooldown s) :: rat)"
    and "pct' = en_missingHandlerJitterPct s" and "r = en_random s (en_randomCount s)"
  define adj where "adj = base' * (1 + (r * 2 - 1) * pct')"
  have "0 < base'" using base by (simp add: base'_def)
  have "- pct' \<le> (r * 2 - 1) * pct'" "(r * 2 - 1) * pct' \<le> pct'"
    using pct random mult_left_le [of r pct'] mult_nonneg_nonneg [of r pct'] unfolding pct'_def r_def
    by (auto simp: algebra_simps)
  then have "base' * (1 - pct') \<le> adj" "adj \<le> base' * (1 + pct')"
    unfolding adj_def using \<open>0 < base'\<close> by (auto intro!: mult_left_mono)
  moreover define d where "d = trunc_rat (if adj < 1000000 then 1000000 else adj)"
  have "1000000 \<le> d" "of_int d \<le> max 1000000 adj" "adj - 1 < of_int d"
    by (auto simp: d_def trunc_rat_def le_floor_iff) linarith+
  moreover have "fst (jitteredCooldown s) = Ok d"
    using base pct by (simp add: jitteredCooldown_def run_simps d_def adj_def base'_def pct'_def r_def Let_def)
  ultimately show ?thesis
    unfolding base'_def pct'_def by (intro exI [of _ d] exI [of _ "snd (jitteredCooldown s)"]) (auto simp: prod_eq_iff)
qed

text \<open>
  Skip messages are throttled per key: after one was let through, the same key is refused until the
  throttle interval is over, and no other key is affected.
\<close>

theorem skip_log_throttled:
  assumes "0 < en_missingHandlerLogThrottle s" and "shouldLogSkip key s = (Ok True, t)"
    and "u = t\<lparr>ms_clock := now\<rparr>" and "now < ms_clock s + en_missingHandlerLogThrottle s"
  shows "fst (shouldLogSkip key u) = Ok False \<and>
    (\<forall>other. other \<noteq> key \<longrightarrow> map_of (en_skipLogNextAllowed t) other = map_of (en_skipLogNextAllowed s) other)"
  using assms by (auto simp: shouldLogSkip_def run_simps time_now_def split: if_splits option.splits)

text \<open>
  Registering a plugin adds it and keeps the plugins sorted by ascending priority: the plugin with the lowest
  priority number runs first.
\<close>

theorem plugins_sorted:
  "sorted (map pl_Priority (Register p ps)) \<and> mset (Register p ps) = add_mset p (mset ps)"
  by (simp add: Register_def)


definition demo_engine :: engine where
  "demo_engine = NewEngine 0 (\<lambda>_. ''key'') (\<lambda>_. 0) (\<lambda>_ _. Inr ''true'') []"

theorem cooldown_bounds_witness:
  "\<exists>d t. jitteredCooldown demo_engine = (Ok d, t) \<and> 1000000 \<le> d \<and> of_int d \<le> (1200000000 :: rat)"
proof -
  have "en_missingHandlerCooldown demo_engine = 1000000000" "en_missingHandlerJitterPct demo_engine = 1 / 5"
    "en_random demo_engine (en_randomCount demo_engine) = 0"
    by (simp_all add: demo_engine_def NewEngine_def memory_store.defs second_ns_def)
  then show ?thesis using cooldown_bounds [of demo_engine] by auto
qed

theorem skip_log_throttled_witness:
  "fst (shouldLogSkip ''k'' ((snd (shouldLogSkip ''k'' demo_engine))\<lparr>ms_clock := 7\<rparr>)) = Ok False"
proof -
  have "shouldLogSkip ''k'' demo_engine = (Ok True, snd (shouldLogSkip ''k'' demo_engine))"
    "0 < en_missingHandlerLogThrottle demo_engine" "7 < ms_clock demo_engine + en_missingHandlerLogThrottle demo_engine"
    by (simp_all add: shouldLogSkip_def run_simps time_now_def demo_engine_def NewEngine_def memory_store.defs
        second_ns_def NewMemoryStore_def)
  from skip_log_throttled [OF this(2,1) refl this(3)] show ?thesis by simp
qed

text \<open>
  A cancel or abort request.  For an unknown instance, or one that is completed, failed, cancelled or
  aborted, the call returns an error and changes nothing.  Otherwise it succeeds and the instance has a
  pending request afterwards: the earlier one if there was one, else the new one of the asked kind.  Nothing
  but the requests, the log and the clock changes.
\<close>

theorem stop_request_exact:
  "case map_of (ms_instances s) i of
     None \<Rightarrow> request_stop kind ev i by why s = (Err (Wrap ''get instance'' ErrEntityNotFound), s)
   | Some inst \<Rightarrow>
       if is_final (wi_Status inst)
       then (\<exists>msg. request_stop kind ev i by why s = (Err (Errorf msg), s))
       else (\<exists>t req. request_stop kind ev i by why s = (Ok (), t) \<and> map_of (ms_cancelRequests t) i = Some req \<and>
         (case map_of (ms_cancelRequests s) i of
            Some old \<Rightarrow> req = old
          | None \<Rightarrow> cr_InstanceID req = i \<and> cr_CancelType req = kind \<and> cr_RequestedBy req = by \<and> cr_Reason req = Some why) \<and>
         ms_instances t = ms_instances s \<and> ms_steps t = ms_steps s \<and> ms_queue t = ms_queue s \<and>
         ms_joinStates t = ms_joinStates s \<and> en_calls t = en_calls s)"
  by (auto simp: request_stop_def GetInstance_def CreateCancelRequest_def run_simps time_now_def has_key_def
      split: option.split)

text \<open>
  C25: the dead letter state freezes an instance.  A worker that dequeues an item of such an instance calls no
  handler, runs no step and leaves steps, instances and join states as they are; the item leaves the queue.
\<close>

theorem dlq_instance_frozen:
  assumes "map_of (ms_instances s) (qi_InstanceID item) = Some inst" and "wi_Status inst = StatusDLQ"
  shows "\<exists>t. finish_item item (run_item item) s = (Ok (), t) \<and> ms_steps t = ms_steps s \<and>
    ms_instances t = ms_instances s \<and> ms_joinStates t = ms_joinStates s \<and> en_calls t = en_calls s \<and>
    ms_queue t = AList.delete (qi_ID item) (ms_queue s) \<and> en_activeSteps t = en_activeSteps s"
  using assms by (simp add: finish_item_def run_item_def GetInstance_def RemoveFromQueue_def run_simps)


section \<open>Starting a workflow\<close>

lemma validateDefinition_start:
  "validateDefinition def = Ok () \<Longrightarrow> def_start def \<noteq> [] \<and> (\<exists>sd. map_of (def_steps def) (def_start def) = Some sd)"
  by (auto simp: validateDefinition_def has_key_def split: if_splits)

lemma steps_of_cong: "ms_steps t = ms_steps s \<Longrightarrow> ms_stepsByInstance t = ms_stepsByInstance s \<Longrightarrow> steps_of t i = steps_of s i"
  by (simp add: steps_of_def)

lemma CreateInstance_state:
  "\<exists>t inst. CreateInstance w inp s = (Ok inst, t) \<and> wi_ID inst = ms_nextInstanceID s \<and> wi_Status inst = StatusPending \<and>
    wi_WorkflowID inst = w \<and> wi_Input inst = inp \<and> wi_CompletedAt inst = None"
  by (simp add: CreateInstance_def run_simps time_now_def put_instance_def Let_def)

text \<open>
  C23: \<open>Start\<close> on a registered valid definition without plugins succeeds and returns the next instance number.  The
  instance is running with the given input; one step has been added to it, the pending start step with the
  retries of its definition; exactly one queue item has been added, unclaimed, for that step, due after its
  delay; every other instance, step and queue item is as before.
\<close>

theorem start_exact:
  assumes wf: "wf_store s" and def: "map_of (ms_definitions s) w = Some def"
    and valid: "validateDefinition def = Ok ()" and plugins: "en_plugins s = None"
  shows "\<exists>t inst sd st item. Start w inp s = (Ok (ms_nextInstanceID s), t) \<and>
    map_of (ms_instances t) = (map_of (ms_instances s))(ms_nextInstanceID s \<mapsto> inst) \<and>
    wi_Status inst = StatusRunning \<and> wi_WorkflowID inst = w \<and> wi_Input inst = inp \<and> wi_CompletedAt inst = None \<and>
    map_of (def_steps def) (def_start def) = Some sd \<and>
    map_of (ms_steps t) = (map_of (ms_steps s))(ms_nextStepID s \<mapsto> st) \<and>
    steps_of t (ms_nextInstanceID s) = steps_of s (ms_nextInstanceID s) @ [st] \<and>
    ws_StepName st = def_start def \<and> ws_StepType st = sd_Type sd \<and> ws_Status st = StepStatusPending \<and>
    ws_Input st = inp \<and> ws_RetryCount st = 0 \<and> ws_MaxRetries st = sd_MaxRetries sd \<and>
    map_of (ms_queue t) = (map_of (ms_queue s))(ms_nextQueueID s \<mapsto> item) \<and>
    qi_InstanceID item = ms_nextInstanceID s \<and> qi_StepID item = Some (ms_nextStepID s) \<and>
    qi_AttemptedAt item = None \<and> qi_Priority item = PriorityNormal \<and>
    ms_clock s + sd_Delay sd \<le> qi_ScheduledAt item"
proof -
  from validateDefinition_start [OF valid] obtain sd where
    start: "def_start def \<noteq> []" "map_of (def_steps def) (def_start def) = Some sd" by blast
  define s1 where "s1 = snd (thn (CreateInstance w inp) (thn (log_event (ms_nextInstanceID s) None ''workflow_started''
    [(''workflow_id'', JString w)]) (UpdateInstanceStatus (ms_nextInstanceID s) StatusRunning RawNil None)) s)"
  have wf1: "wf_store s1"
    using movesD [OF sound.moves_thn [OF frame.CreateInstance [of w inp] sound.moves_thn [OF frame.log_event [of "ms_nextInstanceID s" None "''workflow_started''"
        "[(''workflow_id'', JString w)]"] frame.UpdateInstanceStatus [of "ms_nextInstanceID s" StatusRunning RawNil None]]], of s]
      wf
    by (simp add: sound_step_def s1_def)
  have s1: "ms_steps s1 = ms_steps s" "ms_stepsByInstance s1 = ms_stepsByInstance s" "ms_queue s1 = ms_queue s"
    "ms_nextStepID s1 = ms_nextStepID s" "ms_nextQueueID s1 = ms_nextQueueID s" "ms_definitions s1 = ms_definitions s"
    "ms_clock s \<le> ms_clock s1"
    by (simp_all add: s1_def CreateInstance_def put_instance_def UpdateInstanceStatus_def GetInstance_def run_simps
        time_now_def Let_def)
  obtain inst where inst: "map_of (ms_instances s1) = (map_of (ms_instances s))(ms_nextInstanceID s \<mapsto> inst)"
    "wi_Status inst = StatusRunning" "wi_WorkflowID inst = w" "wi_Input inst = inp" "wi_CompletedAt inst = None"
    by (simp add: s1_def CreateInstance_def put_instance_def UpdateInstanceStatus_def GetInstance_def run_simps
        time_now_def Let_def fun_eq_iff)
  define st where "st = new_step (ms_nextInstanceID s) (def_start def) (sd_Type sd) StepStatusPending inp (sd_MaxRetries sd)"
  define t where "t = snd (EnqueueStep (ms_nextInstanceID s) (Some (ms_nextStepID s)) PriorityNormal (sd_Delay sd) (with_created s1 st))"
  have run: "Start w inp s = (Ok (ms_nextInstanceID s), t)"
    using def valid plugins start
    by (simp add: Start_def ReadCommitted_def lift_outcome_def GetWorkflowDefinition_def ExecuteWorkflowStart_def
        with_plugins_def enqueueNextSteps_def enqueue_one_def CreateInstance_def put_instance_def
        UpdateInstanceStatus_def GetInstance_def run_simps time_now_def Let_def t_def s1_def st_def)
  show ?thesis
    using run inst start s1 steps_of_created [OF wf1, of st "ms_nextInstanceID s"]
    by (intro exI [of _ t] exI [of _ inst] exI [of _ sd] exI [of _ "created s1 st"]
        exI [of _ "enqueued (with_created s1 st) (ms_nextInstanceID s) (Some (ms_nextStepID s)) PriorityNormal (sd_Delay sd)"])
      (simp add: t_def run_simps st_def new_step_def enqueued_def fun_eq_iff steps_of_def)
qed


definition demo_registered :: engine where
  "demo_registered = snd (RegisterWorkflow two_tasks demo_engine)"

lemma demo_registered_wf: "wf_store demo_registered"
  using movesD [OF sound_RegisterWorkflow, of demo_engine two_tasks] wf_NewEngine
  by (simp add: demo_registered_def demo_engine_def sound_step_def)

lemma demo_registered_facts:
  "map_of (ms_definitions demo_registered) ''w-v1'' = Some two_tasks" "validateDefinition two_tasks = Ok ()"
  "en_plugins demo_registered = None" "ms_nextInstanceID demo_registered = 1"
  by code_simp+

theorem start_exact_witness:
  "\<exists>t st. Start ''w-v1'' RawNil demo_registered = (Ok 1, t) \<and> steps_of t 1 = steps_of demo_registered 1 @ [st] \<and>
    ws_StepName st = ''a'' \<and> ws_Status st = StepStatusPending"
  using start_exact [OF demo_registered_wf demo_registered_facts(1-3), of RawNil] demo_registered_facts(4)
  by (auto simp: two_tasks_def)

text \<open>
  C37: a definition that passes the engine's validation is registered and found again under its identifier, with its
  graph, name and version; a definition that does not pass is refused and nothing changes.
\<close>

theorem register_roundtrip:
  assumes "wf_store s" and "wd_ID def \<noteq> []"
  shows "if validateDefinition def = Ok ()
    then \<exists>t d. RegisterWorkflow def s = (Ok (), t) \<and> GetWorkflowDefinition (wd_ID def) t = (Ok d, t) \<and>
      wd_ID d = wd_ID def \<and> wd_Definition d = wd_Definition def \<and> wd_Name d = wd_Name def \<and> wd_Version d = wd_Version def \<and>
      (\<forall>w. w \<noteq> wd_ID def \<longrightarrow> map_of (ms_definitions t) w = map_of (ms_definitions s) w)
    else \<exists>e. RegisterWorkflow def s = (Err e, s)"
proof -
  have "map_of (ms_definitions s) k = Some d \<Longrightarrow> wd_ID d = k" for k d
    using assms(1) by (simp add: wf_store_def keyed_def)
  moreover have "returns (validateDefinition def)"
    using Validate_returns [of def] by (simp add: validateDefinition_def returns_def)
  ultimately show ?thesis
    using assms(2)
    by (auto simp: RegisterWorkflow_def lift_outcome_def SaveWorkflowDefinition_def put_definition_def
        GetWorkflowDefinition_def run_simps time_now_def returns_def split: option.split outcome.splits)
qed

theorem register_roundtrip_witness:
  "\<exists>t d. RegisterWorkflow two_tasks demo_engine = (Ok (), t) \<and> GetWorkflowDefinition ''w-v1'' t = (Ok d, t) \<and>
    wd_Definition d = wd_Definition two_tasks"
  using register_roundtrip [of demo_engine two_tasks] wf_NewEngine demo_registered_facts(2)
  by (auto simp: demo_engine_def two_tasks_def)

section \<open>Retries\<close>

definition step_after :: "int \<Rightarrow> step_status \<Rightarrow> raw \<Rightarrow> string option \<Rightarrow> workflow_step \<Rightarrow> workflow_step" where
  "step_after now status output errMsg st0 =
    (let st1 = st0\<lparr>ws_Status := status, ws_Output := output, ws_Error := errMsg\<rparr>;
         st2 = (if status = StepStatusCompleted \<or> status = StepStatusFailed \<or> status = StepStatusSkipped
                then st1\<lparr>ws_CompletedAt := Some now\<rparr> else st1);
         st3 = (if ws_StartedAt st2 = None \<and> status = StepStatusRunning
                then st2\<lparr>ws_StartedAt := Some now\<rparr> else st2)
     in if status = StepStatusFailed then st3\<lparr>ws_RetryCount := ws_RetryCount st3 + 1\<rparr> else st3)"

lemma UpdateStep_run:
  "map_of (ms_steps s) k = Some st \<Longrightarrow> UpdateStep k status output errMsg s =
     (Ok (), s\<lparr>ms_clock := ms_clock s + 1,
        ms_steps := AList.update k (step_after (ms_clock s) status output errMsg st) (ms_steps s)\<rparr>)"
  by (simp add: UpdateStep_def GetStepByID_def put_step_def run_simps time_now_def Let_def step_after_def)

lemma handleStepFailure_retry:
  assumes "map_of (ms_steps s) (ws_ID st) = Some st" and "may_retry st sd"
  shows "\<exists>t su item. handleStepFailure inst (StepCopy st) sd e s = (Ok (), t) \<and>
    map_of (ms_steps t) = (map_of (ms_steps s))(ws_ID st \<mapsto> su) \<and>
    su = st\<lparr>ws_Status := StepStatusFailed, ws_RetryCount := ws_RetryCount st + 1, ws_Error := Some (error_text e),
      ws_Output := RawNil, ws_CompletedAt := ws_CompletedAt su\<rparr> \<and>
    map_of (ms_queue t) = (map_of (ms_queue s))(ms_nextQueueID s \<mapsto> item) \<and>
    item = enqueued s (wi_ID inst) (Some (ws_ID st)) PriorityHigh (qi_ScheduledAt item - ms_clock s) \<and>
    ms_clock s + sd_Delay sd \<le> qi_ScheduledAt item \<and>
    ms_instances t = ms_instances s \<and> ms_deadLetters t = ms_deadLetters s \<and> ms_joinStates t = ms_joinStates s"
  using assms
  by (simp add: handleStepFailure_def retry_step_def run_simps UpdateStep_run step_after_def Let_def fun_eq_iff enqueued_def)

text \<open>
  A failing step that may be retried is marked failed with its error and its retry count increased by one,
  and is queued again once, unclaimed, with high priority and the delay of its definition; no other step and no
  other queue item changes, the instance keeps its status, no join is told and nothing becomes a dead letter.
\<close>

theorem retry_exact:
  assumes st: "map_of (ms_steps s) (ws_ID st) = Some st" and may: "may_retry st sd"
  shows "\<exists>t su item. handleStepFailure inst (StepCopy st) sd e s = (Ok (), t) \<and>
    map_of (ms_steps t) = (map_of (ms_steps s))(ws_ID st \<mapsto> su) \<and>
    ws_Status su = StepStatusFailed \<and> ws_RetryCount su = ws_RetryCount st + 1 \<and> ws_Error su = Some (error_text e) \<and>
    map_of (ms_queue t) = (map_of (ms_queue s))(ms_nextQueueID s \<mapsto> item) \<and>
    qi_InstanceID item = wi_ID inst \<and> qi_StepID item = Some (ws_ID st) \<and> qi_AttemptedAt item = None \<and>
    qi_Priority item = PriorityHigh \<and> ms_clock s + sd_Delay sd \<le> qi_ScheduledAt item \<and>
    ms_instances t = ms_instances s \<and> ms_deadLetters t = ms_deadLetters s \<and> ms_joinStates t = ms_joinStates s"
proof -
  obtain t su item where r: "handleStepFailure inst (StepCopy st) sd e s = (Ok (), t)"
    "map_of (ms_steps t) = (map_of (ms_steps s))(ws_ID st \<mapsto> su)"
    "su = st\<lparr>ws_Status := StepStatusFailed, ws_RetryCount := ws_RetryCount st + 1, ws_Error := Some (error_text e),
      ws_Output := RawNil, ws_CompletedAt := ws_CompletedAt su\<rparr>"
    "map_of (ms_queue t) = (map_of (ms_queue s))(ms_nextQueueID s \<mapsto> item)"
    "item = enqueued s (wi_ID inst) (Some (ws_ID st)) PriorityHigh (qi_ScheduledAt item - ms_clock s)"
    "ms_clock s + sd_Delay sd \<le> qi_ScheduledAt item" "ms_instances t = ms_instances s"
    "ms_deadLetters t = ms_deadLetters s" "ms_joinStates t = ms_joinStates s"
    using handleStepFailure_retry [OF assms, of inst e] by blast
  moreover have "ws_Status su = StepStatusFailed \<and> ws_RetryCount su = ws_RetryCount st + 1 \<and> ws_Error su = Some (error_text e)"
    by (subst (1 2 3) r(3)) simp
  moreover have "qi_InstanceID item = wi_ID inst \<and> qi_StepID item = Some (ws_ID st) \<and> qi_AttemptedAt item = None \<and>
    qi_Priority item = PriorityHigh"
    by (subst (1 2 3 4) r(5)) (simp add: enqueued_def)
  ultimately show ?thesis by blast
qed

text \<open>The states a step goes through when its handler fails again and again, \<open>n\<close> times.\<close>

fun failing :: "nat \<Rightarrow> workflow_instance \<Rightarrow> int \<Rightarrow> step_definition \<Rightarrow> goerror \<Rightarrow> engine \<Rightarrow> engine" where
  "failing 0 inst k sd e s = s"
| "failing (Suc n) inst k sd e s =
     (let u = failing n inst k sd e s
      in case map_of (ms_steps u) k of None \<Rightarrow> u | Some st \<Rightarrow> snd (handleStepFailure inst (StepCopy st) sd e u))"

definition retry_limit :: "step_definition \<Rightarrow> nat" where
  "retry_limit sd = nat (if sd_NoIdempotent sd then min 1 (sd_MaxRetries sd) else sd_MaxRetries sd)"

lemma failing_state:
  assumes "map_of (ms_steps s) k = Some st" "ws_ID st = k" "ws_RetryCount st = 0" "ws_MaxRetries st = sd_MaxRetries sd"
    and "n \<le> retry_limit sd"
  shows "\<exists>su. map_of (ms_steps (failing n inst k sd e s)) k = Some su \<and> ws_ID su = k \<and> ws_RetryCount su = int n \<and>
    ws_MaxRetries su = sd_MaxRetries sd \<and> ms_instances (failing n inst k sd e s) = ms_instances s \<and>
    ms_deadLetters (failing n inst k sd e s) = ms_deadLetters s"
  using assms(5)
proof (induction n)
  case 0
  with assms show ?case by simp
next
  case (Suc n)
  define u where "u = failing n inst k sd e s"
  from Suc obtain su where su: "map_of (ms_steps u) k = Some su" "ws_ID su = k" "ws_RetryCount su = int n"
    "ws_MaxRetries su = sd_MaxRetries sd" "ms_instances u = ms_instances s" "ms_deadLetters u = ms_deadLetters s"
    by (auto simp: u_def)
  have "may_retry su sd" using su Suc.prems by (auto simp: may_retry_def retry_limit_def split: if_splits)
  with su handleStepFailure_retry [of u su sd inst e] obtain t sv where
    "handleStepFailure inst (StepCopy su) sd e u = (Ok (), t)" "map_of (ms_steps t) k = Some sv"
    and sv: "sv = su\<lparr>ws_Status := StepStatusFailed, ws_RetryCount := ws_RetryCount su + 1, ws_Error := Some (error_text e),
      ws_Output := RawNil, ws_CompletedAt := ws_CompletedAt sv\<rparr>"
    and "ms_instances t = ms_instances s" "ms_deadLetters t = ms_deadLetters s"
    by auto
  moreover have "ws_ID sv = k \<and> ws_RetryCount sv = int (Suc n) \<and> ws_MaxRetries sv = sd_MaxRetries sd"
    using su by (subst (1 2 3) sv) simp
  ultimately show ?case using su by (simp add: u_def [symmetric])
qed


section \<open>Witnesses\<close>

text \<open>An instance of a workflow whose first step may be retried twice and that uses the dead letter queue.\<close>

definition demo_task :: step_definition where
  "demo_task = zero_step\<lparr>sd_Name := ''a'', sd_Type := StepTypeTask, sd_Handler := ''h'', sd_Prev := rootStepName,
     sd_MaxRetries := 2\<rparr>"

definition demo_workflow :: workflow_definition where
  "demo_workflow = \<lparr>wd_ID = ''d-v1'', wd_Name = ''d'', wd_Version = 1,
     wd_Definition = \<lparr>gd_Steps = [(''a'', demo_task)], gd_Start = ''a'', gd_DLQEnabled = True\<rparr>, wd_CreatedAt = 0\<rparr>"

definition demo_started :: engine where
  "demo_started = snd (thn (RegisterWorkflow demo_workflow) (Start ''d-v1'' RawNil) demo_engine)"

lemma demo_started_wf: "wf_store demo_started"
  using movesD [OF sound.moves_thn [OF sound_RegisterWorkflow frame.Start], of demo_engine demo_workflow "''d-v1''" RawNil]
    wf_NewEngine
  by (simp add: demo_started_def demo_engine_def sound_step_def)

definition demo_step :: workflow_step where
  "demo_step = hd (steps_of demo_started 1)"

definition demo_instance :: workflow_instance where
  "demo_instance = the (map_of (ms_instances demo_started) 1)"

definition demo_item :: queue_item where
  "demo_item = the (map_of (ms_queue demo_started) 1)"

lemma demo_facts:
  "map_of (ms_steps demo_started) 1 = Some demo_step" "ws_ID demo_step = 1" "ws_RetryCount demo_step = 0"
  "ws_MaxRetries demo_step = sd_MaxRetries demo_task" "retry_limit demo_task = 2" "may_retry demo_step demo_task"
  "map_of (ms_instances demo_started) 1 = Some demo_instance" "qi_InstanceID demo_item = 1"
  by code_simp+

theorem retry_exact_witness:
  "\<exists>t. handleStepFailure demo_instance (StepCopy demo_step) demo_task (Errorf ''no'') demo_started = (Ok (), t) \<and>
    ms_instances t = ms_instances demo_started"
  using retry_exact [of demo_started demo_step demo_task demo_instance "Errorf ''no''"] demo_facts by auto


theorem dlq_instance_frozen_witness:
  "\<exists>t. finish_item demo_item (run_item demo_item) (demo_started\<lparr>ms_instances := [(1, demo_instance\<lparr>wi_Status := StatusDLQ\<rparr>)]\<rparr>) =
    (Ok (), t) \<and> en_calls t = en_calls demo_started"
  using dlq_instance_frozen [of "demo_started\<lparr>ms_instances := [(1, demo_instance\<lparr>wi_Status := StatusDLQ\<rparr>)]\<rparr>" demo_item
      "demo_instance\<lparr>wi_Status := StatusDLQ\<rparr>"] demo_facts
  by auto

end
