(* ===== verification/Worker_Turn.thy ===== *)
theory Worker_Turn
  imports Engine_Laws
begin

text \<open>
  The worker's turn: how a claimed queue item leads to its step, what happens when no handler is registered, when
  a plugin refuses the step, when the step was skipped, and when a task succeeds.
\<close>

section \<open>From the item to its step\<close>

lemma find_step:
  assumes wf: "wf_store s" and st: "map_of (ms_steps s) k = Some st" "ws_InstanceID st = i"
  shows "find (\<lambda>x. ws_ID x = k) (steps_of s i) = Some st"
proof (cases "find (\<lambda>x. ws_ID x = k) (steps_of s i)")
  case None
  have "ws_ID st = k" using wf st by (auto simp: wf_store_def steps_ok_def dest: numbered_key)
  with None st steps_of_set [OF wf, of i] show ?thesis by (auto simp: find_None_iff)
next
  case (Some x)
  then have "x \<in> set (steps_of s i)" "ws_ID x = k" by (auto simp: find_Some_iff)
  with Some st steps_of_set [OF wf, of i] show ?thesis by auto
qed

lemma find_instance: "wf_store s \<Longrightarrow> map_of (ms_instances s) i = Some inst \<Longrightarrow> wi_ID inst = i"
  by (auto simp: wf_store_def dest: numbered_key)

text \<open>The situation in which a worker runs a stored step: instance, step and definition are there.\<close>

definition runnable :: "engine \<Rightarrow> queue_item \<Rightarrow> workflow_instance \<Rightarrow> workflow_step \<Rightarrow> workflow_definition \<Rightarrow> step_definition \<Rightarrow> bool" where
  "runnable s item inst st def sd \<longleftrightarrow> wf_store s \<and>
     map_of (ms_instances s) (qi_InstanceID item) = Some inst \<and> wi_Status inst \<noteq> StatusDLQ \<and>
     qi_StepID item = Some (ws_ID st) \<and> map_of (ms_steps s) (ws_ID st) = Some st \<and> ws_InstanceID st = qi_InstanceID item \<and>
     map_of (ms_definitions s) (wi_WorkflowID inst) = Some def \<and> map_of (def_steps def) (ws_StepName st) = Some sd"

lemma run_item_cases:
  assumes "runnable s item inst st def sd"
  shows "run_item item s =
    (if ws_Status st = StepStatusSkipped \<or> ws_Status st = StepStatusPaused \<or> ws_Status st = StepStatusRolledBack
     then (Ok True, s\<lparr>ms_queue := AList.delete (ws_ID st) (ms_queue s)\<rparr>)
     else if ws_Status st = StepStatusCompensation then run_compensation_item item inst st s
     else run_step_item item inst (StepCopy st) st s)"
proof -
  have wf: "wf_store s" and inst: "wi_ID inst = qi_InstanceID item"
    using assms find_instance by (auto simp: runnable_def)
  have "find (\<lambda>x. ws_ID x = ws_ID st) (steps_of s (qi_InstanceID item)) = Some st"
    using assms by (intro find_step) (auto simp: runnable_def)
  with assms inst show ?thesis
    by (simp add: runnable_def run_item_def item_step_def GetInstance_def RemoveFromQueue_def run_simps
        GetStepsByInstance_run [OF wf])
qed

lemma finish_item_run:
  "finish_item item body s =
    (case body (s\<lparr>en_activeSteps := en_activeSteps s + 1\<rparr>) of
       (Ok remove, t) \<Rightarrow> (Ok (), t\<lparr>ms_queue := (if remove then AList.delete (qi_ID item) (ms_queue t) else ms_queue t),
                                  en_activeSteps := en_activeSteps t - 1\<rparr>)
     | (Err e, t) \<Rightarrow> (Err e, t\<lparr>ms_queue := AList.delete (qi_ID item) (ms_queue t), en_activeSteps := en_activeSteps t - 1\<rparr>)
     | (Panic p, t) \<Rightarrow> (Panic p, t\<lparr>ms_queue := AList.delete (qi_ID item) (ms_queue t), en_activeSteps := en_activeSteps t - 1\<rparr>)
     | (Stuck, t) \<Rightarrow> (Stuck, t))"
  by (auto simp: finish_item_def RemoveFromQueue_def run_simps split: prod.split outcome.split)

lemma runnable_active: "runnable s item inst st def sd \<Longrightarrow> runnable (s\<lparr>en_activeSteps := n\<rparr>) item inst st def sd"
  by (simp add: runnable_def wf_store_def)

text \<open>
  A step that a plugin refuses to start is lost with the memory store.  When the only plugin returns an error from its
  step-start hook (a rate limit, a failed validation, an audit writer that is down), the worker calls no handler,
  every step and instance stays as it is, so the step stays pending, but its queue item is removed:
  the transaction of the memory store does not undo the removal, and no worker will see the step again.
\<close>

theorem refused_step_leaves_queue:
  assumes run: "runnable s item inst st def sd" and st: "ws_Status st = StepStatusPending"
    and handler: "has_key (en_handlers s) (sd_Handler sd)"
    and plugin: "en_plugins s = Some [p]" "pl_OnStepStart p (en_hookCalls s) inst st = Some e"
  shows "\<exists>t e'. finish_item item (run_item item) s = (Err e', t) \<and> ms_steps t = ms_steps s \<and> ms_instances t = ms_instances s \<and>
    en_calls t = en_calls s \<and> ms_queue t = AList.delete (qi_ID item) (ms_queue s)"
  using assms run_item_cases [OF runnable_active [OF run, of "en_activeSteps s + 1"]]
  by (simp add: finish_item_run run_step_item_def executeStep_def GetWorkflowDefinition_def has_handler_def has_key_def
      ExecuteStepStart_def with_plugins_def run_simps runnable_def)

lemma release_missing_run:
  assumes "map_of (ms_queue s) (qi_ID item) = Some item"
  shows "\<exists>t item'. release_missing prefix msg item inst st s = (Ok (), t) \<and> ms_steps t = ms_steps s \<and>
    ms_instances t = ms_instances s \<and> en_calls t = en_calls s \<and> ms_queue t = AList.update (qi_ID item) item' (ms_queue s) \<and>
    qi_StepID item' = qi_StepID item \<and> qi_AttemptedAt item' = None \<and> qi_ScheduledAt item \<le> qi_ScheduledAt item'"
  using assms
  by (auto simp: release_missing_def jitteredCooldown_def shouldLogSkip_def RescheduleAndReleaseQueueItem_def
      ReleaseQueueItem_def run_simps time_now_def Let_def split: option.split)

text \<open>
  A queue item whose step needs a handler that this worker does not have goes back: the worker succeeds without
  calling any handler, steps and instances stay as they are, the item stays in the queue, unclaimed and due
  no earlier than before, and no other item changes.
\<close>

theorem missing_handler_releases:
  assumes run: "runnable s item inst st def sd" and st: "ws_Status st = StepStatusPending" "ws_StepType st = StepTypeTask"
    and handler: "\<not> has_key (en_handlers s) (sd_Handler sd)" and item: "map_of (ms_queue s) (qi_ID item) = Some item"
  shows "\<exists>t item'. finish_item item (run_item item) s = (Ok (), t) \<and> ms_steps t = ms_steps s \<and> ms_instances t = ms_instances s \<and>
    en_calls t = en_calls s \<and> map_of (ms_queue t) = (map_of (ms_queue s))(qi_ID item \<mapsto> item') \<and>
    qi_StepID item' = qi_StepID item \<and> qi_AttemptedAt item' = None \<and> qi_ScheduledAt item \<le> qi_ScheduledAt item'"
proof -
  define u where "u = s\<lparr>en_activeSteps := en_activeSteps s + 1\<rparr>"
  have u: "ms_queue u = ms_queue s" "ms_steps u = ms_steps s" "ms_instances u = ms_instances s" "en_calls u = en_calls s"
    by (simp_all add: u_def)
  from release_missing_run [of u item "''task-skip:''" "''no local handler registered; rescheduled''" inst st] item u
  obtain t item' where "release_missing ''task-skip:'' ''no local handler registered; rescheduled'' item inst st u = (Ok (), t)"
    "ms_steps t = ms_steps s" "ms_instances t = ms_instances s" "en_calls t = en_calls s"
    "ms_queue t = AList.update (qi_ID item) item' (ms_queue s)" "qi_StepID item' = qi_StepID item" "qi_AttemptedAt item' = None"
    "qi_ScheduledAt item \<le> qi_ScheduledAt item'" by auto
  with assms run_item_cases [OF runnable_active [OF run, of "en_activeSteps s + 1"]] show ?thesis
    by (auto simp: finish_item_run run_step_item_def GetWorkflowDefinition_def has_handler_def has_key_def run_simps
        runnable_def u_def fun_eq_iff)
qed

text \<open>
  C40: the item of a step that was skipped, paused or rolled back is removed without running it; but the worker also
  removes the queue item that carries the number of the step, of whatever step and instance that item is,
  because it passes the step number where an item number is expected.
\<close>

theorem stopped_step_deletes_by_step_number:
  assumes run: "runnable s item inst st def sd"
    and st: "ws_Status st \<in> {StepStatusSkipped, StepStatusPaused, StepStatusRolledBack}"
  shows "\<exists>t. finish_item item (run_item item) s = (Ok (), t) \<and> ms_steps t = ms_steps s \<and> ms_instances t = ms_instances s \<and>
    en_calls t = en_calls s \<and> ms_queue t = AList.delete (qi_ID item) (AList.delete (ws_ID st) (ms_queue s))"
  using assms run_item_cases [OF runnable_active [OF run, of "en_activeSteps s + 1"]]
  by (auto simp: finish_item_run)

section \<open>Witnesses\<close>

definition demo_stored :: workflow_definition where
  "demo_stored = the (map_of (ms_definitions demo_started) ''d-v1'')"

lemma demo_runnable: "runnable demo_started demo_item demo_instance demo_step demo_stored demo_task"
proof -
  have "map_of (ms_instances demo_started) (qi_InstanceID demo_item) = Some demo_instance" "wi_Status demo_instance \<noteq> StatusDLQ"
    "qi_StepID demo_item = Some (ws_ID demo_step)" "map_of (ms_steps demo_started) (ws_ID demo_step) = Some demo_step"
    "ws_InstanceID demo_step = qi_InstanceID demo_item"
    "map_of (ms_definitions demo_started) (wi_WorkflowID demo_instance) = Some demo_stored"
    "map_of (def_steps demo_stored) (ws_StepName demo_step) = Some demo_task"
    by code_simp+
  with demo_started_wf show ?thesis by (simp add: runnable_def)
qed

lemma demo_pending: "ws_Status demo_step = StepStatusPending" "ws_StepType demo_step = StepTypeTask"
  "\<not> has_key (en_handlers demo_started) (sd_Handler demo_task)" "map_of (ms_queue demo_started) (qi_ID demo_item) = Some demo_item"
  by code_simp+

theorem missing_handler_releases_witness:
  "\<exists>t. finish_item demo_item (run_item demo_item) demo_started = (Ok (), t) \<and> en_calls t = en_calls demo_started"
  using missing_handler_releases [OF demo_runnable demo_pending] by blast

definition refusing :: plugin where
  "refusing = \<lparr>pl_Name = ''no'', pl_Priority = 0, pl_OnWorkflowStart = \<lambda>n inst. None,
      pl_OnWorkflowComplete = \<lambda>n inst. None, pl_OnWorkflowFailed = \<lambda>n inst. None,
      pl_OnStepStart = \<lambda>n inst st. Some (Errorf ''refused''), pl_OnStepComplete = \<lambda>n inst st. None,
      pl_OnStepFailed = \<lambda>n inst st e. None, pl_OnRollbackStepChain = \<lambda>n i name depth. None\<rparr>"

definition demo_refused :: engine where
  "demo_refused = demo_started\<lparr>en_handlers := [(''h'', \<lambda>calls ctx inp. (Returns inp, []))], en_plugins := Some [refusing]\<rparr>"

theorem refused_step_leaves_queue_witness:
  "\<exists>t e. finish_item demo_item (run_item demo_item) demo_refused = (Err e, t) \<and>
    ms_queue t = AList.delete (qi_ID demo_item) (ms_queue demo_refused)"
proof -
  have "runnable demo_refused demo_item demo_instance demo_step demo_stored demo_task"
    using demo_runnable by (simp add: runnable_def demo_refused_def wf_store_def)
  moreover have "has_key (en_handlers demo_refused) (sd_Handler demo_task)"
    by (simp add: demo_refused_def has_key_def demo_task_def)
  ultimately show ?thesis
    using refused_step_leaves_queue [OF _ demo_pending(1), of demo_refused demo_item demo_instance demo_stored demo_task refusing]
    by (auto simp: demo_refused_def refusing_def)
qed

definition demo_skipped :: engine where
  "demo_skipped = demo_started\<lparr>ms_steps := AList.update 1 (demo_step\<lparr>ws_Status := StepStatusSkipped\<rparr>) (ms_steps demo_started)\<rparr>"

theorem stopped_step_deletes_by_step_number_witness:
  "\<exists>t. finish_item demo_item (run_item demo_item) demo_skipped = (Ok (), t) \<and>
    ms_queue t = AList.delete (qi_ID demo_item) (AList.delete 1 (ms_queue demo_skipped))"
proof -
  have id: "ws_ID demo_step = 1" "demo_skipped = snd (UpdateStepStatus 1 StepStatusSkipped demo_started)"
    using demo_facts by (simp_all add: demo_skipped_def UpdateStepStatus_def GetStepByID_def put_step_def run_simps)
  have "wf_store demo_skipped"
    using movesD [OF wf_UpdateStepStatus, of demo_started 1 StepStatusSkipped] demo_started_wf by (simp add: id keeps_def)
  then have "runnable demo_skipped demo_item demo_instance (demo_step\<lparr>ws_Status := StepStatusSkipped\<rparr>) demo_stored demo_task"
    using demo_runnable id(1) by (simp add: runnable_def) (simp add: demo_skipped_def)
  from stopped_step_deletes_by_step_number [OF this] id(1) show ?thesis by auto
qed

end
