(* ===== verification/Work_Queue.thy ===== *)
theory Work_Queue
  imports Store_Invariant
begin

text \<open>
  The queue of the memory store: which item \<open>DequeueStep\<close> picks, for every order in which the map is
  visited, and the contract the workers rely on.  The locale \<open>claim_queue\<close> states that contract (an
  item is handed out only while nobody holds it, and comes back only when released), its client lemma
  says that no item is handed out twice, and the memory store is an instance.
\<close>

section \<open>The choice\<close>

text \<open>Higher effective priority first, then the earlier schedule.\<close>

definition beats :: "(queue_item \<Rightarrow> int) \<Rightarrow> queue_item \<Rightarrow> queue_item \<Rightarrow> bool" where
  "beats prio a b \<longleftrightarrow> prio b < prio a \<or> (prio b = prio a \<and> qi_ScheduledAt a \<le> qi_ScheduledAt b)"

definition best_of :: "(queue_item \<Rightarrow> int) \<Rightarrow> int \<Rightarrow> queue_item list \<Rightarrow> queue_item option \<times> int \<Rightarrow> bool" where
  "best_of prio now items acc \<longleftrightarrow>
     (case fst acc of
        None \<Rightarrow> snd acc = -1 \<and> (\<forall>x \<in> set items. eligible now x \<longrightarrow> prio x < 0)
      | Some b \<Rightarrow> snd acc = prio b \<and> 0 \<le> prio b \<and> b \<in> set items \<and> eligible now b \<and>
          (\<forall>x \<in> set items. eligible now x \<longrightarrow> beats prio b x))"

lemma dequeue_turn_best: "best_of prio now items acc \<Longrightarrow> best_of prio now (items @ [x]) (dequeue_turn prio now x acc)"
  by (cases acc; cases "fst acc") (auto simp: best_of_def dequeue_turn_def beats_def Let_def)

lemma dequeue_fold_best: "best_of prio now items (fold (dequeue_turn prio now) items (None, -1))"
proof (induction items rule: rev_induct)
  case Nil
  show ?case by (simp add: best_of_def)
next
  case (snoc x xs)
  then show ?case by (simp add: dequeue_turn_best)
qed

lemma dequeue_select_None:
  "dequeue_select prio now items = None \<longleftrightarrow> (\<forall>x \<in> set items. eligible now x \<longrightarrow> prio x < 0)"
  using dequeue_fold_best [of prio now items]
  by (auto simp: best_of_def dequeue_select_def split: option.splits)

lemma dequeue_select_Some:
  assumes "dequeue_select prio now items = Some b"
  shows "b \<in> set items" "eligible now b" "0 \<le> prio b" "\<And>x. x \<in> set items \<Longrightarrow> eligible now x \<Longrightarrow> beats prio b x"
  using dequeue_fold_best [of prio now items] assms
  by (auto simp: best_of_def dequeue_select_def)

definition store_priority :: "'x memory_store_scheme \<Rightarrow> queue_item \<Rightarrow> int" where
  "store_priority s = effective_priority (ms_agingEnabled s) (ms_agingRate s) (ms_clock s)"

definition claim :: "string \<Rightarrow> int \<Rightarrow> queue_item \<Rightarrow> queue_item" where
  "claim workerID now item = item\<lparr>qi_AttemptedAt := Some now, qi_AttemptedBy := Some workerID\<rparr>"

definition dequeued :: "'x memory_store_scheme \<Rightarrow> string \<Rightarrow> queue_item \<Rightarrow> 'x memory_store_scheme" where
  "dequeued s workerID item =
     s\<lparr>ms_clock := ms_clock s + 1,
       ms_queue := AList.update (qi_ID item) (claim workerID (ms_clock s) item) (ms_queue s)\<rparr>"

lemma DequeueStep_run:
  "DequeueStep workerID s =
     (case dequeue_select (store_priority s) (ms_clock s) (map snd (ms_queue s)) of
        None \<Rightarrow> (Ok None, s\<lparr>ms_clock := ms_clock s + 1\<rparr>)
      | Some item \<Rightarrow> (Ok (Some (claim workerID (ms_clock s) item)), dequeued s workerID item))"
  by (simp add: DequeueStep_def run_simps time_now_def Let_def store_priority_def claim_def dequeued_def
      split: option.split)

lemma effective_priority_cap: "qi_Priority item \<le> 100 \<Longrightarrow> effective_priority en rate now item \<le> 100"
  by (simp add: effective_priority_def Let_def)

lemma trunc_rat_ge: "of_int n \<le> r \<Longrightarrow> 0 \<le> r \<Longrightarrow> n \<le> trunc_rat r"
  by (simp add: trunc_rat_def le_floor_iff)

lemma effective_priority_aged:
  assumes "0 < rate" and "of_int (100 - qi_Priority item) \<le> of_int (now - qi_ScheduledAt item) / 1000000000 * rate"
  shows "effective_priority True rate now item = 100"
proof -
  have "of_int 100 \<le> of_int (qi_Priority item) + of_int (now - qi_ScheduledAt item) / 1000000000 * rate"
    using assms(2) by simp
  then have "100 \<le> trunc_rat (of_int (qi_Priority item) + of_int (now - qi_ScheduledAt item) / 1000000000 * rate)"
    by (intro trunc_rat_ge) simp_all
  with assms(1) show ?thesis by (simp add: effective_priority_def Let_def)
qed


section \<open>The contract of the workers\<close>

datatype 'p queue_op = Put 'p | Take string | Release int | Remove int

text \<open>The identifiers handed out during a sequence of operations, in order.\<close>

fun handed_out :: "('p \<Rightarrow> 's \<Rightarrow> 's) \<Rightarrow> (string \<Rightarrow> 's \<Rightarrow> int option \<times> 's) \<Rightarrow> (int \<Rightarrow> 's \<Rightarrow> 's) \<Rightarrow> (int \<Rightarrow> 's \<Rightarrow> 's) \<Rightarrow>
    'p queue_op list \<Rightarrow> 's \<Rightarrow> int list" where
  "handed_out put tk rel rem [] s = []"
| "handed_out put tk rel rem (Put x # ops) s = handed_out put tk rel rem ops (put x s)"
| "handed_out put tk rel rem (Take w # ops) s =
     (case tk w s of
        (None, t) \<Rightarrow> handed_out put tk rel rem ops t
      | (Some k, t) \<Rightarrow> k # handed_out put tk rel rem ops t)"
| "handed_out put tk rel rem (Release k # ops) s = handed_out put tk rel rem ops (rel k s)"
| "handed_out put tk rel rem (Remove k # ops) s = handed_out put tk rel rem ops (rem k s)"

locale claim_queue =
  fixes ok :: "'s \<Rightarrow> bool"
    and known :: "'s \<Rightarrow> int \<Rightarrow> bool"
    and pending :: "'s \<Rightarrow> int \<Rightarrow> bool"
    and put :: "'p \<Rightarrow> 's \<Rightarrow> 's"
    and tk :: "string \<Rightarrow> 's \<Rightarrow> int option \<times> 's"
    and rel rem :: "int \<Rightarrow> 's \<Rightarrow> 's"
  assumes ok_put: "ok s \<Longrightarrow> ok (put x s)"
    and ok_take: "ok s \<Longrightarrow> ok (snd (tk w s))"
    and ok_release: "ok s \<Longrightarrow> ok (rel k s)"
    and ok_remove: "ok s \<Longrightarrow> ok (rem k s)"
    and put_known: "ok s \<Longrightarrow> known s k \<Longrightarrow> known (put x s) k \<and> pending (put x s) k = pending s k"
    and take_known: "ok s \<Longrightarrow> known s k \<Longrightarrow> known (snd (tk w s)) k"
    and take_Some: "ok s \<Longrightarrow> tk w s = (Some k, t) \<Longrightarrow> pending s k \<and> \<not> pending t k"
    and take_other: "ok s \<Longrightarrow> tk w s = (r, t) \<Longrightarrow> r \<noteq> Some k \<Longrightarrow> pending t k = pending s k"
    and release_known: "ok s \<Longrightarrow> known s k \<Longrightarrow> known (rel j s) k"
    and release_other: "ok s \<Longrightarrow> j \<noteq> k \<Longrightarrow> pending (rel j s) k = pending s k"
    and remove_known: "ok s \<Longrightarrow> known s k \<Longrightarrow> known (rem j s) k"
    and remove_pending: "ok s \<Longrightarrow> pending (rem j s) k \<Longrightarrow> pending s k"
begin

lemma handed_out_bound:
  assumes "ok s" and "known s k"
  shows "count_list (handed_out put tk rel rem ops s) k \<le>
    count_list ops (Release k) + (if pending s k then 1 else 0)"
  using assms
proof (induction ops arbitrary: s)
  case (Cons op ops)
  note IH = Cons.IH and ok = Cons.prems(1) and kn = Cons.prems(2)
  show ?case
  proof (cases op)
    case (Put x)
    with IH [of "put x s"] ok_put [OF ok] put_known [OF ok kn] show ?thesis by simp
  next
    case (Take w)
    obtain r t where rt: "tk w s = (r, t)" by fastforce
    with IH [of t] ok_take [OF ok, of w] take_known [OF ok kn, of w]
    have bound: "count_list (handed_out put tk rel rem ops t) k \<le>
        count_list ops (Release k) + (if pending t k then 1 else 0)" by simp
    show ?thesis
    proof (cases "r = Some k")
      case True
      with take_Some [OF ok] rt have "pending s k" "\<not> pending t k" by auto
      with bound True rt Take show ?thesis by simp
    next
      case False
      with take_other [OF ok rt] bound rt Take show ?thesis by (cases r) auto
    qed
  next
    case (Release j)
    with IH [of "rel j s"] ok_release [OF ok] release_known [OF ok kn, of j] release_other [OF ok, of j k]
    show ?thesis by (cases "j = k") (auto split: if_splits)
  next
    case (Remove j)
    with IH [of "rem j s"] ok_remove [OF ok] remove_known [OF ok kn, of j] remove_pending [OF ok, of j k]
    show ?thesis by (auto split: if_splits)
  qed
qed simp

end

text \<open>The memory store behind the contract.\<close>

definition unclaimed :: "'x memory_store_scheme \<Rightarrow> int \<Rightarrow> bool" where
  "unclaimed s k \<longleftrightarrow> (case map_of (ms_queue s) k of None \<Rightarrow> False | Some item \<Rightarrow> qi_AttemptedAt item = None)"

definition issued :: "'x memory_store_scheme \<Rightarrow> int \<Rightarrow> bool" where
  "issued s k \<longleftrightarrow> k < ms_nextQueueID s"

definition enqueue_op :: "int \<times> int option \<times> int \<times> int \<Rightarrow> 'x memory_store_scheme \<Rightarrow> 'x memory_store_scheme" where
  "enqueue_op = (\<lambda>(i, sid, p, d) s. snd (EnqueueStep i sid p d s))"

definition dequeue_op :: "string \<Rightarrow> 'x memory_store_scheme \<Rightarrow> int option \<times> 'x memory_store_scheme" where
  "dequeue_op w s =
     (case DequeueStep w s of
        (Ok (Some item), t) \<Rightarrow> (Some (qi_ID item), t)
      | (_, t) \<Rightarrow> (None, t))"

definition release_op :: "int \<Rightarrow> 'x memory_store_scheme \<Rightarrow> 'x memory_store_scheme" where
  "release_op k s = snd (ReleaseQueueItem k s)"

definition reschedule_op :: "int \<Rightarrow> int \<Rightarrow> 'x memory_store_scheme \<Rightarrow> 'x memory_store_scheme" where
  "reschedule_op delay k s = snd (RescheduleAndReleaseQueueItem k delay s)"

definition remove_op :: "int \<Rightarrow> 'x memory_store_scheme \<Rightarrow> 'x memory_store_scheme" where
  "remove_op k s = snd (RemoveFromQueue k s)"

lemmas queue_op_defs = enqueue_op_def dequeue_op_def release_op_def reschedule_op_def remove_op_def

lemma dequeue_op_run:
  "dequeue_op w s =
     (case dequeue_select (store_priority s) (ms_clock s) (map snd (ms_queue s)) of
        None \<Rightarrow> (None, s\<lparr>ms_clock := ms_clock s + 1\<rparr>)
      | Some item \<Rightarrow> (Some (qi_ID item), dequeued s w item))"
  by (simp add: dequeue_op_def DequeueStep_run claim_def split: option.split)

lemma snd_dequeue_op: "snd (dequeue_op w s) = snd (DequeueStep w s)"
  by (simp add: dequeue_op_run DequeueStep_run split: option.split)

lemma queue_ops_wf:
  assumes "wf_store s"
  shows "wf_store (enqueue_op x s)" "wf_store (snd (dequeue_op w s))" "wf_store (release_op k s)"
    "wf_store (reschedule_op d k s)" "wf_store (remove_op k s)"
  using assms
    movesD [OF wf_EnqueueStep [of "fst x" "fst (snd x)" "fst (snd (snd x))" "snd (snd (snd x))"], of s]
    movesD [OF wf_DequeueStep, of s w] movesD [OF wf_ReleaseQueueItem, of s k]
    movesD [OF wf_RescheduleAndReleaseQueueItem, of s k d] movesD [OF wf_RemoveFromQueue, of s k]
  by (simp_all add: enqueue_op_def release_op_def reschedule_op_def remove_op_def snd_dequeue_op keeps_def
      case_prod_unfold)

lemma wf_queue_entry: "wf_store s \<Longrightarrow> item \<in> set (map snd (ms_queue s)) \<Longrightarrow> map_of (ms_queue s) (qi_ID item) = Some item"
  by (rule keyed_entry) (simp_all add: wf_store_def numbered_def)

lemma enqueue_contract:
  "issued s k \<Longrightarrow> issued (enqueue_op x s) k \<and> unclaimed (enqueue_op x s) k = unclaimed s k"
  by (cases x) (simp add: enqueue_op_def issued_def unclaimed_def EnqueueStep_def run_simps time_now_def Let_def)

lemma dequeue_contract:
  assumes "wf_store s" and "dequeue_op w s = (r, t)"
  shows "issued s k \<Longrightarrow> issued t k" "r = Some k \<Longrightarrow> unclaimed s k \<and> \<not> unclaimed t k"
    "r \<noteq> Some k \<Longrightarrow> unclaimed t k = unclaimed s k"
proof -
  have entry: "map_of (ms_queue s) (qi_ID item) = Some item" "qi_AttemptedAt item = None"
    if "dequeue_select p now (map snd (ms_queue s)) = Some item" for p now item
    using wf_queue_entry [OF assms(1) dequeue_select_Some(1) [OF that]] dequeue_select_Some(2) [OF that]
    by (simp_all add: eligible_def)
  show "issued s k \<Longrightarrow> issued t k" "r = Some k \<Longrightarrow> unclaimed s k \<and> \<not> unclaimed t k"
    "r \<noteq> Some k \<Longrightarrow> unclaimed t k = unclaimed s k"
    using assms(2) entry
    by (auto simp: dequeue_op_run dequeued_def claim_def issued_def unclaimed_def split: option.splits)
qed

lemma release_contract:
  "issued s k \<Longrightarrow> issued (release_op j s) k" "j \<noteq> k \<Longrightarrow> unclaimed (release_op j s) k = unclaimed s k"
  "issued s k \<Longrightarrow> issued (reschedule_op d j s) k" "j \<noteq> k \<Longrightarrow> unclaimed (reschedule_op d j s) k = unclaimed s k"
  by (auto simp: release_op_def reschedule_op_def issued_def unclaimed_def ReleaseQueueItem_def
      RescheduleAndReleaseQueueItem_def run_simps time_now_def Let_def split: option.split)

lemma remove_contract:
  "issued s k \<Longrightarrow> issued (remove_op j s) k" "unclaimed (remove_op j s) k \<Longrightarrow> unclaimed s k"
  by (auto simp: remove_op_def issued_def unclaimed_def RemoveFromQueue_def run_simps split: if_splits)

lemma dequeue_laws:
  "wf_store s \<Longrightarrow> issued s k \<Longrightarrow> issued (snd (dequeue_op w s)) k"
  "wf_store s \<Longrightarrow> dequeue_op w s = (Some k, t) \<Longrightarrow> unclaimed s k \<and> \<not> unclaimed t k"
  "wf_store s \<Longrightarrow> dequeue_op w s = (r, t) \<Longrightarrow> r \<noteq> Some k \<Longrightarrow> unclaimed t k = unclaimed s k"
  using dequeue_contract by (metis surjective_pairing)+

lemmas queue_laws = queue_ops_wf enqueue_contract dequeue_laws release_contract remove_contract

interpretation mq: claim_queue wf_store issued unclaimed enqueue_op dequeue_op release_op remove_op
  by unfold_locales (rule queue_laws; assumption)+

interpretation mqr: claim_queue wf_store issued unclaimed enqueue_op dequeue_op "reschedule_op delay" remove_op
  for delay
  by unfold_locales (rule queue_laws; assumption)+

section \<open>Properties\<close>

text \<open>A queue with two items of different priority, for the examples.\<close>

definition demo_queue :: memory_store where
  "demo_queue =
     snd (thn (EnqueueStep 1 (Some 1) PriorityNormal 0) (EnqueueStep 1 (Some 2) PriorityHigh 0)
       (NewMemoryStore 0 (\<lambda>_. [])))"

lemma demo_queue_wf: "wf_store demo_queue"
  unfolding demo_queue_def
  using movesD [OF keeps.moves_thn [OF wf_EnqueueStep [of 1 "Some 1" PriorityNormal 0]
      wf_EnqueueStep [of 1 "Some 2" PriorityHigh 0]], of "NewMemoryStore 0 (\<lambda>_. [])"]
    wf_NewMemoryStore [of 0 "\<lambda>_. []"]
  by (simp add: keeps_def)

text \<open>
  C15: \<open>DequeueStep\<close> always returns.  If no item is due, unclaimed and of non-negative effective
  priority, it returns nothing and changes only the clock.  Otherwise it returns a stored item that is
  due and unclaimed, that no other such item beats (higher effective priority, or the same and an
  earlier schedule), whatever the order in which the map is visited, and marks exactly that item as
  claimed by the worker.
\<close>

theorem dequeue_picks_best:
  assumes "wf_store s"
  shows "(DequeueStep w s = (Ok None, s\<lparr>ms_clock := ms_clock s + 1\<rparr>) \<and>
      (\<forall>x \<in> set (map snd (ms_queue s)). eligible (ms_clock s) x \<longrightarrow> store_priority s x < 0)) \<or>
    (\<exists>item. DequeueStep w s = (Ok (Some (claim w (ms_clock s) item)), dequeued s w item) \<and>
      map_of (ms_queue s) (qi_ID item) = Some item \<and> eligible (ms_clock s) item \<and>
      0 \<le> store_priority s item \<and>
      (\<forall>x \<in> set (map snd (ms_queue s)). eligible (ms_clock s) x \<longrightarrow> beats (store_priority s) item x))"
proof (cases "dequeue_select (store_priority s) (ms_clock s) (map snd (ms_queue s))")
  case None
  then show ?thesis using dequeue_select_None [of "store_priority s" "ms_clock s" "map snd (ms_queue s)"]
    by (simp add: DequeueStep_run)
next
  case (Some item)
  with wf_queue_entry [OF assms dequeue_select_Some(1)] dequeue_select_Some [OF Some] show ?thesis
    by (simp add: DequeueStep_run) blast
qed

theorem dequeue_picks_best_witness:
  "(DequeueStep ''w'' demo_queue = (Ok None, demo_queue\<lparr>ms_clock := ms_clock demo_queue + 1\<rparr>) \<and>
      (\<forall>x \<in> set (map snd (ms_queue demo_queue)). eligible (ms_clock demo_queue) x \<longrightarrow>
         store_priority demo_queue x < 0)) \<or>
    (\<exists>item. DequeueStep ''w'' demo_queue = (Ok (Some (claim ''w'' (ms_clock demo_queue) item)), dequeued demo_queue ''w'' item) \<and>
      map_of (ms_queue demo_queue) (qi_ID item) = Some item \<and> eligible (ms_clock demo_queue) item \<and>
      0 \<le> store_priority demo_queue item \<and>
      (\<forall>x \<in> set (map snd (ms_queue demo_queue)). eligible (ms_clock demo_queue) x \<longrightarrow>
         beats (store_priority demo_queue) item x))"
  by (rule dequeue_picks_best [OF demo_queue_wf])

text \<open>
  Aging rules out starvation.  With aging on, once an item of priority at most 100 has waited long
  enough to reach the cap of 100, the next \<open>DequeueStep\<close> returns an item, and one that was not scheduled
  later: new items of high priority cannot overtake it.
\<close>

theorem dequeue_no_starvation:
  assumes wf: "wf_store s" and aging: "ms_agingEnabled s" "0 < ms_agingRate s"
    and capped: "\<forall>x \<in> set (map snd (ms_queue s)). qi_Priority x \<le> 100"
    and item: "map_of (ms_queue s) k = Some item" "eligible (ms_clock s) item"
    and waited: "of_int (100 - qi_Priority item) \<le>
      of_int (ms_clock s - qi_ScheduledAt item) / 1000000000 * ms_agingRate s"
  shows "\<exists>got t. DequeueStep w s = (Ok (Some got), t) \<and> qi_ScheduledAt got \<le> qi_ScheduledAt item"
proof -
  have mem: "item \<in> set (map snd (ms_queue s))" using map_of_SomeD [OF item(1)] by force
  have top: "store_priority s item = 100"
    using effective_priority_aged [OF aging(2) waited] aging(1) by (simp add: store_priority_def)
  show ?thesis
  proof (cases "dequeue_select (store_priority s) (ms_clock s) (map snd (ms_queue s))")
    case None
    with mem item(2) have "store_priority s item < 0" by (simp only: dequeue_select_None)
    with top show ?thesis by simp
  next
    case (Some got)
    note best = dequeue_select_Some [OF Some]
    have "store_priority s got \<le> 100"
      unfolding store_priority_def using capped best(1) by (intro effective_priority_cap) blast
    with best(4) [OF mem item(2)] top have "qi_ScheduledAt got \<le> qi_ScheduledAt item"
      by (auto simp: beats_def)
    with Some show ?thesis by (simp add: DequeueStep_run claim_def)
  qed
qed

text \<open>The same queue, 200 seconds later.\<close>

definition aged_queue :: memory_store where
  "aged_queue = demo_queue\<lparr>ms_clock := 200000000000\<rparr>"

theorem dequeue_no_starvation_witness:
  "\<exists>got t. DequeueStep ''w'' aged_queue = (Ok (Some got), t) \<and> qi_ScheduledAt got \<le> 0"
proof -
  have "ms_clock demo_queue = 2" by code_simp
  then have "wf_store aged_queue" unfolding aged_queue_def by (intro wf_time demo_queue_wf) simp
  moreover have "map_of (ms_queue aged_queue) 1 = Some \<lparr>qi_ID = 1, qi_InstanceID = 1, qi_StepID = Some 1,
      qi_ScheduledAt = 0, qi_AttemptedAt = None, qi_AttemptedBy = None, qi_Priority = 50\<rparr>"
    by code_simp
  moreover have "ms_agingEnabled aged_queue" "ms_agingRate aged_queue = 1 / 2" "ms_clock aged_queue = 200000000000"
    "map qi_Priority (map snd (ms_queue aged_queue)) = [50, 100]" by code_simp+
  ultimately show ?thesis
    using dequeue_no_starvation [of aged_queue 1 _ "''w''"] by (auto simp: eligible_def)
qed

text \<open>
  C16: no double delivery.  In any sequence of enqueues, dequeues by any workers, releases and removals, an
  item that has been issued is handed out at most once more than it is released in between.
\<close>

theorem handed_out_once:
  assumes "wf_store s" and "issued s k"
  shows "count_list (handed_out enqueue_op dequeue_op release_op remove_op ops s) k \<le> count_list ops (Release k) + 1"
  using mq.handed_out_bound [OF assms, of ops] by (simp split: if_splits)

theorem handed_out_once_witness:
  "count_list (handed_out enqueue_op dequeue_op release_op remove_op
     [Take ''w1'', Take ''w2'', Release 2, Take ''w3''] demo_queue) 2 \<le> 2"
  using handed_out_once [of demo_queue 2 "[Take ''w1'', Take ''w2'', Release 2, Take ''w3'']"] demo_queue_wf
  by (simp add: issued_def demo_queue_def run_simps EnqueueStep_def time_now_def NewMemoryStore_def Let_def)

end
