(* ===== verification/Turns.thy ===== *)
theory Turns
  imports Worker_Turn Work_Queue
begin

text \<open>
  The turn of a worker, for the theories on whole runs: the worker claims a due item of an instance that runs undisturbed
  (no plugins, no stop requests), executes its step, and removes the item.  What the step does is left open; the theory
  has what a task does up to the answer of its handler, and what the success of any step leads to.
\<close>

section \<open>An undisturbed instance\<close>

text \<open>The instance and the definition of a workflow in a state.\<close>

definition knows :: "engine \<Rightarrow> workflow_instance \<Rightarrow> workflow_definition \<Rightarrow> bool" where
  "knows s inst def \<longleftrightarrow> map_of (ms_instances s) (wi_ID inst) = Some inst \<and> wi_Status inst = StatusRunning \<and>
     map_of (ms_definitions s) (wi_WorkflowID inst) = Some def"

lemma knows_fields:
  "ms_instances t = ms_instances s \<Longrightarrow> ms_definitions t = ms_definitions s \<Longrightarrow> knows t inst def = knows s inst def"
  by (simp add: knows_def)

text \<open>No plugin, no request to stop, not shutting down.\<close>

definition quiet :: "engine \<Rightarrow> bool" where
  "quiet s \<longleftrightarrow> en_plugins s = None \<and> ms_cancelRequests s = [] \<and> \<not> en_isShuttingDown s"

lemma for_each_skip: "(\<And>x. x \<in> set xs \<Longrightarrow> f x s = (Ok (), s)) \<Longrightarrow> for_each xs f s = (Ok (), s)"
  by (induction xs) (simp_all add: run_simps)

lemma store_priority_nonneg:
  assumes "qi_ScheduledAt item \<le> ms_clock s" "0 \<le> qi_Priority item"
  shows "0 \<le> store_priority s item"
proof -
  have "0 \<le> of_int (ms_clock s - qi_ScheduledAt item) / 1000000000 * r" if "0 < r" for r :: rat
    using assms(1) that by simp
  then show ?thesis
    using assms(2) by (auto simp: store_priority_def effective_priority_def Let_def intro!: trunc_rat_ge add_nonneg_nonneg)
qed

lemma step_after_fields [simp]:
  "ws_ID (step_after now ss out err st) = ws_ID st" "ws_InstanceID (step_after now ss out err st) = ws_InstanceID st"
  "ws_StepName (step_after now ss out err st) = ws_StepName st" "ws_StepType (step_after now ss out err st) = ws_StepType st"
  "ws_Status (step_after now ss out err st) = ss" "ws_Output (step_after now ss out err st) = out"
  "ws_MaxRetries (step_after now ss out err st) = ws_MaxRetries st"
  "ws_CompensationRetryCount (step_after now ss out err st) = ws_CompensationRetryCount st"
  "ws_RetryCount (step_after now ss out err st) = (if ss = StepStatusFailed then ws_RetryCount st + 1 else ws_RetryCount st)"
  by (simp_all add: step_after_def Let_def)

definition step_names :: "engine \<Rightarrow> int \<Rightarrow> string list" where
  "step_names s i = map ws_StepName (steps_of s i)"

lemma step_names_update:
  assumes "map_of (ms_steps t) = (map_of (ms_steps s))(k \<mapsto> su)" "map_of (ms_steps s) k = Some st" "ws_StepName su = ws_StepName st"
    "ms_stepsByInstance t = ms_stepsByInstance s"
  shows "step_names t i = step_names s i"
proof -
  have "map ws_StepName (List.map_filter (map_of (ms_steps t)) ids) = map ws_StepName (List.map_filter (map_of (ms_steps s)) ids)" for ids
    using assms(1-3) by (induction ids) (auto simp: map_filter_simps split: option.split)
  then show ?thesis using assms(4) by (simp add: step_names_def steps_of_def)
qed

section \<open>From the item to the execution of its step\<close>

text \<open>
  The worker claims the item and the step starts in the state \<open>u\<close>, which differs from \<open>s\<close> in the claim, the clock and the count of
  active steps.
\<close>

definition started_from :: "engine \<Rightarrow> queue_item \<Rightarrow> engine \<Rightarrow> bool" where
  "started_from s item u \<longleftrightarrow> ms_queue u = AList.update (qi_ID item) item (ms_queue s) \<and> ms_steps u = ms_steps s \<and>
     ms_instances u = ms_instances s \<and> ms_definitions u = ms_definitions s \<and> ms_cancelRequests u = ms_cancelRequests s \<and>
     ms_nextQueueID u = ms_nextQueueID s \<and> ms_nextStepID u = ms_nextStepID s \<and> ms_stepsByInstance u = ms_stepsByInstance s \<and>
     ms_joinStates u = ms_joinStates s \<and> en_handlers u = en_handlers s \<and> en_plugins u = en_plugins s \<and>
     en_isShuttingDown u = en_isShuttingDown s \<and> en_calls u = en_calls s \<and> ms_clock s \<le> ms_clock u \<and>
     qi_ID item < ms_nextQueueID s \<and> wf_store u"

definition picks :: "engine \<Rightarrow> queue_item \<Rightarrow> bool" where
  "picks s item \<longleftrightarrow> dequeue_select (store_priority s) (ms_clock s) (map snd (ms_queue s)) = Some item"

lemma claim_fields [simp]: "qi_ID (claim wk now item) = qi_ID item" "qi_InstanceID (claim wk now item) = qi_InstanceID item"
  "qi_StepID (claim wk now item) = qi_StepID item"
  by (simp_all add: claim_def)

lemma queue_key: "wf_store s \<Longrightarrow> (k, item) \<in> set (ms_queue s) \<Longrightarrow> k = qi_ID item \<and> map_of (ms_queue s) k = Some item \<and> k < ms_nextQueueID s"
proof -
  assume wf: "wf_store s" and k: "(k, item) \<in> set (ms_queue s)"
  then have "distinct (map fst (ms_queue s))" by (simp add: wf_store_def numbered_def keyed_def keys_def)
  with k have "map_of (ms_queue s) k = Some item" by (rule map_of_is_SomeI [rotated])
  with wf show ?thesis by (auto simp: wf_store_def numbered_def keyed_def has_key_def)
qed

lemma turn_executes:
  assumes wf: "wf_store s" and quiet: "quiet s" and inst: "map_of (ms_instances s) (wi_ID inst) = Some inst" "wi_Status inst \<noteq> StatusDLQ"
    "map_of (ms_definitions s) (wi_WorkflowID inst) = Some def"
    and item0: "picks s item0" "qi_InstanceID item0 = wi_ID inst" "qi_StepID item0 = Some (ws_ID st)"
    and st: "map_of (ms_steps s) (ws_ID st) = Some st" "ws_InstanceID st = wi_ID inst" "ws_Status st \<in> {StepStatusPending, StepStatusFailed}"
    and sd: "map_of (def_steps def) (ws_StepName st) = Some sd" "ws_StepType st = StepTypeTask \<Longrightarrow> has_key (en_handlers s) (sd_Handler sd)"
  obtains item u where "started_from s item u" "qi_ID item = qi_ID item0"
    "\<And>v. executeStep inst (StepCopy st) u = (Ok (), v) \<Longrightarrow>
       ExecuteNext wk s = (Ok False, v\<lparr>ms_queue := AList.delete (qi_ID item) (ms_queue v), en_activeSteps := en_activeSteps v - 1\<rparr>)"
proof -
  define item where "item = claim wk (ms_clock s) item0"
  define s1 where "s1 = dequeued s wk item0"
  define u where "u = s1\<lparr>en_activeSteps := en_activeSteps s1 + 1\<rparr>"
  have deq: "DequeueStep wk s = (Ok (Some item), s1)" using item0(1) by (simp add: DequeueStep_run picks_def item_def s1_def)
  have ids: "qi_ID item = qi_ID item0" "qi_InstanceID item = wi_ID inst" "qi_StepID item = Some (ws_ID st)"
    using item0 by (simp_all add: item_def claim_def)
  obtain k where k: "(k, item0) \<in> set (ms_queue s)" using dequeue_select_Some(1) [OF item0(1) [unfolded picks_def]] by auto
  have "qi_ID item < ms_nextQueueID s" using queue_key [OF wf k] by (simp add: ids)
  moreover have "wf_store s1" using movesD [OF wf_DequeueStep, of s wk] wf deq by (simp add: keeps_def)
  ultimately have u: "started_from s item u"
    by (simp add: started_from_def u_def s1_def ids dequeued_def wf_store_def item_def)
  have "runnable u item inst st def sd"
    using u ids st sd inst by (simp add: runnable_def started_from_def)
  from run_item_cases [OF this] st(3) have item_run: "run_item item u = run_step_item item inst (StepCopy st) st u" by auto
  have "ExecuteNext wk s = (Ok False, v\<lparr>ms_queue := AList.delete (qi_ID item) (ms_queue v), en_activeSteps := en_activeSteps v - 1\<rparr>)"
    if v: "executeStep inst (StepCopy st) u = (Ok (), v)" for v
  proof -
    have "run_item item u = (Ok True, v)"
      using item_run sd inst u v
      by (simp add: run_step_item_def has_handler_def has_key_def GetWorkflowDefinition_def run_simps started_from_def)
    then have "finish_item item (run_item item) s1 = (Ok (), v\<lparr>ms_queue := AList.delete (qi_ID item) (ms_queue v),
        en_activeSteps := en_activeSteps v - 1\<rparr>)"
      by (simp add: finish_item_run u_def)
    moreover have "\<not> en_isShuttingDown s" "\<not> en_isShuttingDown s1" using quiet by (simp_all add: quiet_def s1_def dequeued_def)
    ultimately show ?thesis
      using deq by (simp add: ExecuteNext_def isShutdown_def ReadCommitted_def run_simps)
  qed
  then show thesis using that [of item u] u ids(1) by blast
qed

section \<open>Executing a step\<close>

text \<open>The state in which the work of the step begins.\<close>

definition begun_state :: "workflow_instance \<Rightarrow> workflow_step \<Rightarrow> step_definition \<Rightarrow> engine \<Rightarrow> engine" where
  "begun_state inst st sd s =
     (let u = snd (registerInstanceContext (wi_ID inst) (ws_ID st) (en_nextContext s)
               (s\<lparr>en_nextContext := Suc (en_nextContext s)\<rparr>))
      in logged (wi_ID inst) (Some (ws_ID st)) ''step_started''
               [(''step_name'', JString (ws_StepName st)), (''step_type'', JString (step_type_text (sd_Type sd)))]
               (snd (UpdateStep (ws_ID st) StepStatusRunning RawNil None u)))"

lemma executeStep_run:
  assumes def: "knows s inst def" and st: "map_of (ms_steps s) (ws_ID st) = Some st"
    and sd: "map_of (def_steps def) (ws_StepName st) = Some sd" and quiet: "quiet s"
    and run: "attempt (execute_by_type inst (StepCopy st) sd) (begun_state inst st sd s) = (Ok res, v)"
      "\<not> (case res of Inr (_, _, aborted, _) \<Rightarrow> aborted | Inl _ \<Rightarrow> False)" and v: "ms_cancelRequests v = []"
  shows "executeStep inst (StepCopy st) s =
    deferring (unregisterInstanceContext (wi_ID inst) (ws_ID st)) (after_execution inst (StepCopy st) sd res) v"
  using def st sd quiet run v
  by (simp add: executeStep_def begun_state_def Let_def knows_def GetWorkflowDefinition_def ExecuteStepStart_def
        with_plugins_def new_context_def registerInstanceContext_def run_step_body_def pending_request_def
        GetCancelRequest_def UpdateStep_run quiet_def run_simps deferring_def split: prod.split)

lemma unregister_state:
  "\<exists>cs. unregisterInstanceContext i k u = (Ok (), u\<lparr>en_cancelContexts := cs\<rparr>)"
  by (cases "map_of (en_cancelContexts u) i")
    (auto simp: unregisterInstanceContext_def modify_def Let_def intro: exI [of _ "en_cancelContexts u"])

lemma begun_fields:
  assumes u: "started_from s item u" and st: "map_of (ms_steps s) (ws_ID st) = Some st" and b: "b = begun_state inst st sd u"
  shows "ms_queue b = ms_queue u" "ms_instances b = ms_instances s" "ms_definitions b = ms_definitions s"
    "ms_cancelRequests b = ms_cancelRequests s" "ms_nextQueueID b = ms_nextQueueID s" "ms_nextStepID b = ms_nextStepID s"
    "ms_stepsByInstance b = ms_stepsByInstance s" "ms_joinStates b = ms_joinStates s"
    "en_handlers b = en_handlers s" "en_plugins b = en_plugins s" "en_isShuttingDown b = en_isShuttingDown s" "en_calls b = en_calls s"
    "ms_steps b = AList.update (ws_ID st) (step_after (ms_clock u) StepStatusRunning RawNil None st) (ms_steps s)" "ms_clock s \<le> ms_clock b"
  using u st by (simp_all add: b begun_state_def Let_def registerInstanceContext_def modify_def UpdateStep_run started_from_def)

lemma wf_engine_fields [simp]:
  "wf_store (s\<lparr>en_calls := c\<rparr>) = wf_store s" "wf_store (s\<lparr>en_nextContext := n\<rparr>) = wf_store s"
  "wf_store (s\<lparr>en_cancelContexts := cs\<rparr>) = wf_store s"
  by (simp_all add: wf_store_def)

lemma wf_UpdateStep_state: "wf_store s \<Longrightarrow> wf_store (snd (UpdateStep k status out err s))"
  using movesD [OF wf_UpdateStep, of s k status out err] by (simp add: keeps_def)

lemma wf_begun: "started_from s item u \<Longrightarrow> wf_store (begun_state inst st sd u)"
  by (simp add: started_from_def begun_state_def Let_def registerInstanceContext_def modify_def logged_wf wf_UpdateStep_state)

lemma with_created_engine [simp]:
  "en_calls (with_created s st) = en_calls s" "en_handlers (with_created s st) = en_handlers s"
  "en_plugins (with_created s st) = en_plugins s" "en_isShuttingDown (with_created s st) = en_isShuttingDown s"
  by (simp_all add: with_created_def CreateStep_def new_uuid_def time_now_def run_simps Let_def)

lemma wf_ExecuteNext: "wf_store s \<Longrightarrow> ExecuteNext wk s = (r, t) \<Longrightarrow> wf_store t"
  using movesD [OF frame.ExecuteNext, of s wk] by (simp add: sound_step_def)

section \<open>Tasks\<close>

definition task_context :: "workflow_instance \<Rightarrow> workflow_step \<Rightarrow> step_definition \<Rightarrow> exec_context" where
  "task_context inst st sd =
     \<lparr>ec_instanceID = wi_ID inst, ec_stepName = ws_StepName st, ec_idempotencyKey = ws_IdempotencyKey st,
      ec_retryCount = ws_RetryCount st, ec_variables = sd_Metadata sd\<rparr>"

definition called_state :: "workflow_instance \<Rightarrow> workflow_step \<Rightarrow> step_definition \<Rightarrow> engine \<Rightarrow> engine" where
  "called_state inst st sd s =
     (let b = begun_state inst st sd s
      in b\<lparr>en_calls := en_calls b @ [\<lparr>hc_Handler = sd_Handler sd, hc_Context = task_context inst st sd, hc_Input = ws_Input st\<rparr>]\<rparr>)"

text \<open>What the engine does with the answer of the handler; a panic of the handler counts as an error.\<close>

definition settle_answer :: "workflow_instance \<Rightarrow> workflow_step \<Rightarrow> step_definition \<Rightarrow> handler_result \<Rightarrow> unit eprog" where
  "settle_answer inst st sd answer =
     (case answer of
        Returns out \<Rightarrow> handleStepSuccess inst (StepCopy st) sd out True
      | Fails e \<Rightarrow> handleStepFailure inst (StepCopy st) sd e
      | Panics p \<Rightarrow> handleStepFailure inst (StepCopy st) sd (Errorf (''panic in handler '' @ quote (sd_Handler sd) @ '': '' @ p)))"

lemma begun_kept [simp]:
  "map_of (ms_steps s) (ws_ID st) = Some st \<Longrightarrow> en_handlers (begun_state inst st sd s) = en_handlers s"
  "map_of (ms_steps s) (ws_ID st) = Some st \<Longrightarrow> en_calls (begun_state inst st sd s) = en_calls s"
  "map_of (ms_steps s) (ws_ID st) = Some st \<Longrightarrow> en_plugins (begun_state inst st sd s) = en_plugins s"
  "map_of (ms_steps s) (ws_ID st) = Some st \<Longrightarrow> ms_cancelRequests (begun_state inst st sd s) = ms_cancelRequests s"
  by (simp_all add: begun_state_def Let_def registerInstanceContext_def modify_def UpdateStep_run)

lemma executeStep_task:
  assumes def: "sd_Type sd = StepTypeTask" "knows s inst def" and st: "map_of (ms_steps s) (ws_ID st) = Some st"
    and sd: "map_of (def_steps def) (ws_StepName st) = Some sd" and quiet: "quiet s"
    and h: "map_of (en_handlers s) (sd_Handler sd) = Some h"
      "h (en_calls s) (task_context inst st sd) (ws_Input st) = (answer, [])"
  shows "executeStep inst (StepCopy st) s =
    deferring (unregisterInstanceContext (wi_ID inst) (ws_ID st)) (settle_answer inst st sd answer) (called_state inst st sd s)"
proof -
  define res where "res = (case answer of Returns out \<Rightarrow> Inr (out, True, False, StepCopy st) | Fails e \<Rightarrow> Inl e
    | Panics p \<Rightarrow> Inl (Errorf (''panic in handler '' @ quote (sd_Handler sd) @ '': '' @ p)))"
  have "attempt (execute_by_type inst (StepCopy st) sd) (begun_state inst st sd s) = (Ok res, called_state inst st sd s)"
    using def(1) st h
    by (simp add: execute_by_type_def executeTask_def call_handler_def run_simps task_context_def called_state_def res_def Let_def
        split: handler_result.split)
  moreover have "after_execution inst (StepCopy st) sd res (called_state inst st sd s) = settle_answer inst st sd answer (called_state inst st sd s)"
    using st quiet
    by (simp add: after_execution_def settle_answer_def res_def ExecuteStepComplete_def ExecuteStepFailed_def with_plugins_def run_simps
        called_state_def Let_def quiet_def split: handler_result.split)
  ultimately show ?thesis
    using executeStep_run [OF def(2) st sd quiet] st quiet
    by (simp add: deferring_def res_def called_state_def Let_def quiet_def split: handler_result.splits)
qed

text \<open>The state in which the answer is settled.\<close>

lemma called_fields:
  assumes u: "started_from s item u" and st: "map_of (ms_steps s) (ws_ID st) = Some st" and c: "c = called_state inst st sd u"
  shows "ms_queue c = ms_queue u" "ms_instances c = ms_instances s" "ms_definitions c = ms_definitions s"
    "ms_cancelRequests c = ms_cancelRequests s" "ms_nextQueueID c = ms_nextQueueID s" "ms_stepsByInstance c = ms_stepsByInstance s"
    "en_handlers c = en_handlers s" "en_plugins c = en_plugins s" "en_isShuttingDown c = en_isShuttingDown s"
    "en_calls c = en_calls s @ [\<lparr>hc_Handler = sd_Handler sd, hc_Context = task_context inst st sd, hc_Input = ws_Input st\<rparr>]"
    "ms_steps c = AList.update (ws_ID st) (step_after (ms_clock u) StepStatusRunning RawNil None st) (ms_steps s)"
    "ms_joinStates c = ms_joinStates s" "ms_clock s \<le> ms_clock c"
  using begun_fields [OF u st refl, of inst sd] by (simp_all add: c called_state_def Let_def)

lemma wf_called: "started_from s item u \<Longrightarrow> wf_store (called_state inst st sd u)"
  by (simp add: called_state_def Let_def wf_begun)

lemma deferring_unregister:
  "body v = (Ok (), x) \<Longrightarrow> \<exists>cs. deferring (unregisterInstanceContext i k) body v = (Ok (), x\<lparr>en_cancelContexts := cs\<rparr>)"
  using unregister_state [of i k x] by (auto simp: deferring_def)

text \<open>The whole turn on a task: the worker claims the item, calls the handler of the step, and settles its answer.\<close>

lemma turn_calls:
  assumes wf: "wf_store s" and quiet: "quiet s" and knows: "knows s inst def"
    and item0: "picks s item0" "qi_InstanceID item0 = wi_ID inst" "qi_StepID item0 = Some (ws_ID st)"
    and st: "map_of (ms_steps s) (ws_ID st) = Some st" "ws_InstanceID st = wi_ID inst" "ws_Status st \<in> {StepStatusPending, StepStatusFailed}"
    and sd: "map_of (def_steps def) (ws_StepName st) = Some sd" "sd_Type sd = StepTypeTask"
    and h: "map_of (en_handlers s) (sd_Handler sd) = Some h" "h (en_calls s) (task_context inst st sd) (ws_Input st) = (answer, [])"
  obtains item u where "started_from s item u" "qi_ID item = qi_ID item0"
    "\<And>v. settle_answer inst st sd answer (called_state inst st sd u) = (Ok (), v) \<Longrightarrow>
       \<exists>cs. ExecuteNext wk s = (Ok False, v\<lparr>en_cancelContexts := cs, ms_queue := AList.delete (qi_ID item) (ms_queue v),
         en_activeSteps := en_activeSteps v - 1\<rparr>)"
proof -
  obtain item u where u: "started_from s item u" "qi_ID item = qi_ID item0"
    and run: "\<And>v. executeStep inst (StepCopy st) u = (Ok (), v) \<Longrightarrow>
       ExecuteNext wk s = (Ok False, v\<lparr>ms_queue := AList.delete (qi_ID item) (ms_queue v), en_activeSteps := en_activeSteps v - 1\<rparr>)"
  proof (rule turn_executes [OF wf quiet _ _ _ item0 st sd(1), where wk = wk])
    show "has_key (en_handlers s) (sd_Handler sd)" using h(1) by (simp add: has_key_def)
  qed (use knows in \<open>auto simp: knows_def\<close>)
  have exec: "executeStep inst (StepCopy st) u = deferring (unregisterInstanceContext (wi_ID inst) (ws_ID st))
      (settle_answer inst st sd answer) (called_state inst st sd u)"
    using knows st sd quiet h u(1)
    by (intro executeStep_task [where h = h]) (simp_all add: knows_def quiet_def started_from_def)
  have "\<exists>cs. ExecuteNext wk s = (Ok False, v\<lparr>en_cancelContexts := cs, ms_queue := AList.delete (qi_ID item) (ms_queue v),
         en_activeSteps := en_activeSteps v - 1\<rparr>)"
    if v: "settle_answer inst st sd answer (called_state inst st sd u) = (Ok (), v)" for v
    using deferring_unregister [where body = "settle_answer inst st sd answer", OF v, of "wi_ID inst" "ws_ID st"] run by (auto simp: exec)
  then show thesis using that u by blast
qed

section \<open>The success of a step\<close>

definition completed_state :: "workflow_instance \<Rightarrow> workflow_step \<Rightarrow> raw \<Rightarrow> engine \<Rightarrow> engine" where
  "completed_state inst st out s =
     logged (wi_ID inst) (Some (ws_ID st)) ''step_completed'' [(''step_name'', JString (ws_StepName st))]
       (snd (UpdateStep (ws_ID st) StepStatusCompleted out None s))"

lemma handleStepSuccess_run:
  assumes def: "knows s inst def" and st: "map_of (ms_steps s) (ws_ID st) = Some su" and sd: "sd_Type sd \<noteq> StepTypeHuman"
    and run: "settle_join_success inst st sd def (completed_state inst st out s) = (Ok (), w)"
      "notifyJoinSteps (wi_ID inst) (ws_StepName st) True w = (Ok (), x)"
  shows "handleStepSuccess inst (StepCopy st) sd out True s =
    (if sd_Next sd = [] then bnd (hasUnfinishedSteps (wi_ID inst)) (\<lambda>unfinished.
       if \<not> unfinished then completeWorkflow inst out else ret ()) x
     else for_each (sd_Next sd) (enqueue_unless_join (wi_ID inst) def out) x)"
  using def sd run(2) run(1) [unfolded completed_state_def UpdateStep_run [OF st] snd_conv]
  by (simp add: handleStepSuccess_def GetWorkflowDefinition_def run_simps UpdateStep_run [OF st] knows_def)

lemma after_task_fields:
  assumes u: "started_from s item u" and st: "map_of (ms_steps s) (ws_ID st) = Some st"
    and w: "w = completed_state inst st out (called_state inst st sd u)"
  shows "ms_queue w = ms_queue u" "ms_instances w = ms_instances s" "ms_definitions w = ms_definitions s"
    "ms_cancelRequests w = ms_cancelRequests s" "ms_nextQueueID w = ms_nextQueueID s" "ms_stepsByInstance w = ms_stepsByInstance s"
    "en_handlers w = en_handlers s" "en_plugins w = en_plugins s" "en_isShuttingDown w = en_isShuttingDown s"
    "en_calls w = en_calls s @ [\<lparr>hc_Handler = sd_Handler sd, hc_Context = task_context inst st sd, hc_Input = ws_Input st\<rparr>]"
    "\<exists>su. map_of (ms_steps w) = (map_of (ms_steps s))(ws_ID st \<mapsto> su) \<and> ws_Status su = StepStatusCompleted \<and>
      ws_CompensationRetryCount su = ws_CompensationRetryCount st \<and> ws_StepName su = ws_StepName st \<and>
      ws_Output su = out \<and> ws_InstanceID su = ws_InstanceID st \<and> ws_ID su = ws_ID st"
    "ms_joinStates w = ms_joinStates s" "ms_clock s \<le> ms_clock w" "wf_store w"
  using called_fields [OF u st refl, of inst sd] wf_called [OF u, of inst st sd]
  by (simp_all add: w completed_state_def UpdateStep_run fun_eq_iff logged_wf)
    (use wf_UpdateStep_state [OF wf_called [OF u, of inst st sd], of "ws_ID st" StepStatusCompleted out None] in \<open>simp add: UpdateStep_run logged_wf\<close>)

end
