(* ===== verification/Linear_Run.thy ===== *)
theory Linear_Run
  imports Turns
begin

text \<open>
  From start to completion: a workflow that is a chain of tasks, run by one worker whose handlers succeed.
\<close>

section \<open>Definitions without joins, forks and conditions\<close>

definition all_tasks :: "workflow_definition \<Rightarrow> bool" where
  "all_tasks def \<longleftrightarrow> (\<forall>(n, sd) \<in> set (def_steps def). sd_Type sd = StepTypeTask)"

lemma all_tasksD: "all_tasks def \<Longrightarrow> map_of (def_steps def) n = Some sd \<Longrightarrow> sd_Type sd = StepTypeTask"
  by (auto simp: all_tasks_def dest: map_of_SomeD)

lemma no_condition: "all_tasks def \<Longrightarrow> condition_walk (def_steps def) visited n = []"
proof (induction "def_steps def" visited n rule: condition_walk.induct)
  case (1 visited n)
  then show ?case by (subst condition_walk.simps) (auto dest: all_tasksD split: option.split)
qed

lemma no_fork: "all_tasks def \<Longrightarrow> fork_with (def_steps def) n = []"
proof -
  assume "all_tasks def"
  then have "find (\<lambda>(m, sd). sd_Type sd = StepTypeFork \<and> n \<in> set (sd_Parallel sd)) (def_steps def) = None"
    by (auto simp: find_None_iff all_tasks_def)
  then show ?thesis by (simp add: fork_with_def)
qed

lemma no_fork_above: "all_tasks def \<Longrightarrow> \<not> under_fork_walk (def_steps def) visited n"
proof (induction "def_steps def" visited n rule: under_fork_walk.induct)
  case (1 visited n)
  have "\<not> in_some_fork (def_steps def) m" for m using "1.prems" by (auto simp: in_some_fork_def all_tasks_def)
  with 1 show ?case by (subst under_fork_walk.simps) (auto dest: all_tasksD split: option.split)
qed

lemma settle_join_success_tasks:
  assumes "all_tasks def" "knows s inst def" "map_of (def_steps def) (ws_StepName st) = Some sd"
  shows "settle_join_success inst st sd def s = (Ok (), s)"
  using assms no_condition [of def] no_fork [of def] no_fork_above [of def]
  by (simp add: settle_join_success_def findConditionStepInBranch_def findForkStepForParallelStep_def instance_def_def
      GetInstance_def GetWorkflowDefinition_def isTerminalStepInForkBranch_def run_simps knows_def)

lemma notifyJoinSteps_tasks:
  assumes "all_tasks def" "knows s inst def"
  shows "notifyJoinSteps (wi_ID inst) n ok s = (Ok (), s)"
proof -
  have "for_each (def_steps def) (\<lambda>(stepName, stepDef).
       if sd_Type stepDef \<noteq> StepTypeJoin then ret ()
       else bnd (waits_for (wi_ID inst) stepName stepDef n) (\<lambda>waiting.
         if \<not> waiting then ret ()
         else update_join (wi_ID inst) stepName stepDef n ok inst)) s = (Ok (), s)"
    using assms(1) by (intro for_each_skip) (auto simp: all_tasks_def ret_def)
  with assms(2) show ?thesis
    by (simp add: notifyJoinSteps_def GetInstance_def GetWorkflowDefinition_def run_simps knows_def)
qed

section \<open>Success of a task\<close>

lemma handleStepSuccess_next:
  assumes def: "all_tasks def" "knows s inst def" and st: "map_of (ms_steps s) (ws_ID st) = Some su"
    and sd: "map_of (def_steps def) (ws_StepName st) = Some sd" "sd_Next sd = [n]" "map_of (def_steps def) n = Some sd'"
  shows "handleStepSuccess inst (StepCopy st) sd out True s =
    enqueue_one (wi_ID inst) def out n (completed_state inst st out s)"
proof -
  have w: "knows (completed_state inst st out s) inst def"
    using def(2) st by (simp add: completed_state_def knows_def UpdateStep_run)
  have "sd_Type sd = StepTypeTask" "sd_Type sd' = StepTypeTask" using def(1) sd by (auto dest: all_tasksD)
  then show ?thesis
    using handleStepSuccess_run [OF def(2) st _ settle_join_success_tasks [OF def(1) w sd(1)] notifyJoinSteps_tasks [OF def(1) w]] w sd
    by (simp add: GetWorkflowDefinition_def GetInstance_def enqueue_unless_join_def enqueueNextSteps_def run_simps knows_def
        split: prod.split outcome.split)
qed

lemma handleStepSuccess_last:
  assumes def: "all_tasks def" "knows s inst def" and st: "map_of (ms_steps s) (ws_ID st) = Some su"
    and sd: "map_of (def_steps def) (ws_StepName st) = Some sd" "sd_Next sd = []"
  shows "handleStepSuccess inst (StepCopy st) sd out True s =
    bnd (hasUnfinishedSteps (wi_ID inst)) (\<lambda>unfinished.
      if \<not> unfinished then completeWorkflow inst out else ret ()) (completed_state inst st out s)"
proof -
  have w: "knows (completed_state inst st out s) inst def"
    using def(2) st by (simp add: completed_state_def knows_def UpdateStep_run)
  have "sd_Type sd = StepTypeTask" using def(1) sd by (auto dest: all_tasksD)
  then show ?thesis
    using handleStepSuccess_run [OF def(2) st _ settle_join_success_tasks [OF def(1) w sd(1)] notifyJoinSteps_tasks [OF def(1) w]] sd(2)
    by simp
qed

section \<open>One turn of the worker\<close>

text \<open>The handlers of the steps \<open>ns\<close> succeed, whatever they are called with; the handler of the step \<open>n\<close> fails or panics.\<close>

definition answers :: "engine \<Rightarrow> workflow_definition \<Rightarrow> string \<Rightarrow> (handler_result \<Rightarrow> bool) \<Rightarrow> bool" where
  "answers s def n P \<longleftrightarrow> (\<forall>sd. map_of (def_steps def) n = Some sd \<longrightarrow> (\<exists>h. map_of (en_handlers s) (sd_Handler sd) = Some h \<and>
     (\<forall>calls ctx inp. \<exists>answer. h calls ctx inp = (answer, []) \<and> P answer)))"

definition is_success :: "handler_result \<Rightarrow> bool" where
  "is_success answer \<longleftrightarrow> (\<exists>out. answer = Returns out)"

definition willing :: "engine \<Rightarrow> workflow_definition \<Rightarrow> string list \<Rightarrow> bool" where
  "willing s def ns \<longleftrightarrow> (\<forall>n \<in> set ns. answers s def n is_success)"

text \<open>
  The instance stands at the step \<open>n\<close>, after \<open>r\<close> failed attempts: this step waits and its item is the only one in the queue,
  unclaimed and due; the other steps of the instance, created before it, are \<open>past\<close>, and completed.
\<close>

definition only_item :: "int \<Rightarrow> workflow_step \<Rightarrow> engine \<Rightarrow> bool" where
  "only_item i st s \<longleftrightarrow> (\<exists>item. ms_queue s = [(qi_ID item, item)] \<and> qi_InstanceID item = i \<and> qi_StepID item = Some (ws_ID st) \<and>
     qi_AttemptedAt item = None \<and> qi_ScheduledAt item \<le> ms_clock s \<and> 0 \<le> qi_Priority item)"

definition attempted :: "workflow_definition \<Rightarrow> string \<Rightarrow> nat \<Rightarrow> workflow_step \<Rightarrow> bool" where
  "attempted def n r st \<longleftrightarrow> ws_StepName st = n \<and> ws_RetryCount st = int r \<and>
     ws_Status st = (if r = 0 then StepStatusPending else StepStatusFailed) \<and> ws_CompensationRetryCount st = 0 \<and>
     (\<forall>sd. map_of (def_steps def) n = Some sd \<longrightarrow> ws_StepType st = sd_Type sd \<and> ws_MaxRetries st = sd_MaxRetries sd)"

definition others_done :: "engine \<Rightarrow> int \<Rightarrow> int \<Rightarrow> bool" where
  "others_done s i k \<longleftrightarrow> (\<forall>j su. map_of (ms_steps s) j = Some su \<and> ws_InstanceID su = i \<and> j \<noteq> k \<longrightarrow>
     ws_Status su = StepStatusCompleted \<and> ws_CompensationRetryCount su = 0)"

definition stands_at :: "workflow_definition \<Rightarrow> workflow_instance \<Rightarrow> string list \<Rightarrow> string \<Rightarrow> nat \<Rightarrow> engine \<Rightarrow> bool" where
  "stands_at def inst past n r s \<longleftrightarrow> wf_store s \<and> quiet s \<and> knows s inst def \<and> step_names s (wi_ID inst) = past @ [n] \<and>
     (\<exists>st. only_item (wi_ID inst) st s \<and> map_of (ms_steps s) (ws_ID st) = Some st \<and> ws_InstanceID st = wi_ID inst \<and>
        attempted def n r st \<and> others_done s (wi_ID inst) (ws_ID st))"

lemma picks_only:
  assumes "ms_queue s = [(qi_ID item, item)]" "qi_AttemptedAt item = None" "qi_ScheduledAt item \<le> ms_clock s" "0 \<le> qi_Priority item"
  shows "picks s item"
  using assms store_priority_nonneg [of item s]
  by (simp add: picks_def dequeue_select_def dequeue_turn_def eligible_def Let_def)

text \<open>The worker's turn on such a state: it claims the item, calls the handler of the step, and settles its answer.\<close>

lemma turn_runs_step:
  assumes def: "all_tasks def" and at: "stands_at def inst past n r s" and sd: "map_of (def_steps def) n = Some sd"
    and ans: "answers s def n P"
  obtains st item u answer where
    "map_of (ms_steps s) (ws_ID st) = Some st" "ws_InstanceID st = wi_ID inst" "attempted def n r st"
    "others_done s (wi_ID inst) (ws_ID st)" "started_from s item u" "ms_queue u = [(qi_ID item, item)]" "P answer"
    "\<And>v. settle_answer inst st sd answer (called_state inst st sd u) = (Ok (), v) \<Longrightarrow>
       \<exists>cs. ExecuteNext wk s = (Ok False, v\<lparr>en_cancelContexts := cs, ms_queue := AList.delete (qi_ID item) (ms_queue v),
         en_activeSteps := en_activeSteps v - 1\<rparr>)"
proof -
  from at obtain st item0 where st: "map_of (ms_steps s) (ws_ID st) = Some st" "ws_InstanceID st = wi_ID inst" "attempted def n r st"
      "others_done s (wi_ID inst) (ws_ID st)"
    and item0: "ms_queue s = [(qi_ID item0, item0)]" "qi_InstanceID item0 = wi_ID inst" "qi_StepID item0 = Some (ws_ID st)"
      "qi_AttemptedAt item0 = None" "qi_ScheduledAt item0 \<le> ms_clock s" "0 \<le> qi_Priority item0"
    and wf: "wf_store s" and quiet: "quiet s" and knows: "knows s inst def"
    unfolding stands_at_def only_item_def by blast
  from st(3) have step: "ws_StepName st = n" "ws_Status st \<in> {StepStatusPending, StepStatusFailed}" by (auto simp: attempted_def)
  have task: "sd_Type sd = StepTypeTask" using all_tasksD [OF def sd] .
  from ans sd obtain h where h: "map_of (en_handlers s) (sd_Handler sd) = Some h"
    "\<And>calls ctx inp. \<exists>answer. h calls ctx inp = (answer, []) \<and> P answer" by (auto simp: answers_def)
  then obtain answer where answer: "h (en_calls s) (task_context inst st sd) (ws_Input st) = (answer, [])" "P answer" by blast
  obtain item u where u: "started_from s item u" "qi_ID item = qi_ID item0"
    and run: "\<And>v. settle_answer inst st sd answer (called_state inst st sd u) = (Ok (), v) \<Longrightarrow>
       \<exists>cs. ExecuteNext wk s = (Ok False, v\<lparr>en_cancelContexts := cs, ms_queue := AList.delete (qi_ID item) (ms_queue v),
         en_activeSteps := en_activeSteps v - 1\<rparr>)"
    using turn_calls [OF wf quiet knows picks_only [OF item0(1,4-6)] item0(2,3) st(1,2) step(2) _ task h(1) answer(1), of wk] sd step(1) by blast
  have "ms_queue u = [(qi_ID item, item)]" using u item0(1) by (simp add: started_from_def)
  then show thesis using that [of st item u answer] st u answer(2) run by blast
qed

definition call_of :: "workflow_instance \<Rightarrow> string \<Rightarrow> step_definition \<Rightarrow> handler_call \<Rightarrow> bool" where
  "call_of inst n sd c \<longleftrightarrow> hc_Handler c = sd_Handler sd \<and> ec_stepName (hc_Context c) = n \<and> ec_instanceID (hc_Context c) = wi_ID inst"

lemma turn_next:
  assumes def: "all_tasks def" and at: "stands_at def inst past n r s" and sd: "map_of (def_steps def) n = Some sd"
    and ans: "answers s def n is_success"
    and nxt: "sd_Next sd = [m]" "map_of (def_steps def) m = Some sd'" "sd_Delay sd' \<le> 0"
  shows "\<exists>t c. ExecuteNext wk s = (Ok False, t) \<and> stands_at def inst (past @ [n]) m 0 t \<and> en_handlers t = en_handlers s \<and>
    en_calls t = en_calls s @ [c] \<and> call_of inst n sd c"
proof -
  obtain st item u answer where st: "map_of (ms_steps s) (ws_ID st) = Some st" "ws_InstanceID st = wi_ID inst" "attempted def n r st"
    and others: "others_done s (wi_ID inst) (ws_ID st)" and u: "started_from s item u" and q: "ms_queue u = [(qi_ID item, item)]" and "is_success answer"
    and run: "\<And>v. settle_answer inst st sd answer (called_state inst st sd u) = (Ok (), v) \<Longrightarrow>
       \<exists>cs. ExecuteNext wk s = (Ok False, v\<lparr>en_cancelContexts := cs, ms_queue := AList.delete (qi_ID item) (ms_queue v),
         en_activeSteps := en_activeSteps v - 1\<rparr>)"
    by (rule turn_runs_step [OF def at sd ans, of wk]) blast
  then obtain out where out: "answer = Returns out" by (auto simp: is_success_def)
  have name: "ws_StepName st = n" "ws_CompensationRetryCount st = 0" using st(3) by (simp_all add: attempted_def)
  from at have parts: "wf_store s" "quiet s" "knows s inst def" "step_names s (wi_ID inst) = past @ [n]" by (simp_all add: stands_at_def)
  define w where "w = completed_state inst st out (called_state inst st sd u)"
  note w = after_task_fields [OF u st(1) w_def]
  from w(11) obtain su where su: "map_of (ms_steps w) = (map_of (ms_steps s))(ws_ID st \<mapsto> su)" "ws_Status su = StepStatusCompleted"
    "ws_CompensationRetryCount su = 0" "ws_StepName su = ws_StepName st" "ws_InstanceID su = ws_InstanceID st" using name by auto
  have wfw: "wf_store w" by (rule w(14))
  define ns where "ns = new_step (wi_ID inst) m StepTypeTask StepStatusPending out (sd_MaxRetries sd')"
  have task: "sd_Type sd' = StepTypeTask" using all_tasksD [OF def nxt(2)] .
  have succ: "settle_answer inst st sd answer (called_state inst st sd u) = enqueue_one (wi_ID inst) def out m w"
    unfolding w_def settle_answer_def out handler_result.case
    using called_fields [OF u st(1) refl, of inst sd] parts(3) st name sd nxt
    by (intro handleStepSuccess_next [OF def]) (simp_all add: knows_def)
  define v where "v = snd (enqueue_one (wi_ID inst) def out m w)"
  have v: "enqueue_one (wi_ID inst) def out m w = (Ok (), v)"
    "v = (with_created w ns)\<lparr>ms_clock := ms_clock w + 2,
       ms_queue := AList.update (ms_nextQueueID w) (enqueued (with_created w ns) (wi_ID inst) (Some (ms_nextStepID w)) PriorityNormal (sd_Delay sd'))
         (ms_queue w), ms_nextQueueID := ms_nextQueueID w + 1\<rparr>"
    using nxt task by (simp_all add: v_def enqueue_one_def run_simps ns_def)
  from run [OF succ [unfolded v(1)]] obtain cs where
    t: "ExecuteNext wk s = (Ok False, v\<lparr>en_cancelContexts := cs, ms_queue := AList.delete (qi_ID item) (ms_queue v),
         en_activeSteps := en_activeSteps v - 1\<rparr>)" (is "_ = (_, ?t)") by blast
  have rows: "map_of (ms_steps ?t) k = (if k = ms_nextStepID w then Some (created w ns)
      else if k = ws_ID st then Some su else map_of (ms_steps s) k)" for k
    using su by (simp add: v(2))
  have "steps_of ?t (wi_ID inst) = steps_of w (wi_ID inst) @ [created w ns]"
    using steps_of_created [OF wfw, of ns "wi_ID inst"] steps_of_cong [of ?t "with_created w ns"]
    by (simp add: v(2) ns_def new_step_def)
  then have names: "step_names ?t (wi_ID inst) = (past @ [n]) @ [m]"
    using step_names_update [OF su(1) st(1) su(4) w(6), of "wi_ID inst"] parts(4)
    by (simp add: step_names_def ns_def new_step_def)
  have "stands_at def inst (past @ [n]) m 0 ?t"
    unfolding stands_at_def
  proof (intro conjI exI [of _ "created w ns"] names wf_ExecuteNext [OF parts(1) t])
    have "qi_ID item < ms_nextQueueID s" using u by (simp add: started_from_def)
    then show "only_item (wi_ID inst) (created w ns) ?t"
      using w q nxt(3) by (simp add: only_item_def v(2) enqueued_def PriorityNormal_def)
    show "others_done ?t (wi_ID inst) (ws_ID (created w ns))"
      using rows others su unfolding others_done_def by auto
  qed (use parts w rows nxt task in \<open>simp_all add: quiet_def knows_def v(2) ns_def new_step_def attempted_def created_def\<close>)
  moreover have "en_calls ?t = en_calls s @ [\<lparr>hc_Handler = sd_Handler sd, hc_Context = task_context inst st sd, hc_Input = ws_Input st\<rparr>]"
    "en_handlers ?t = en_handlers s" using w by (simp_all add: v(2) with_created_engine)
  ultimately show ?thesis using t name by (auto simp: call_of_def task_context_def)
qed

lemma any_step_run: "wf_store s \<Longrightarrow> any_step P i s = (Ok (\<exists>st \<in> set (steps_of s i). P (ws_Status st)), s)"
  by (simp add: any_step_def GetStepsByInstance_run run_simps)

lemma all_completed_steps:
  assumes "wf_store s" and "\<And>k su. map_of (ms_steps s) k = Some su \<Longrightarrow> ws_InstanceID su = i \<Longrightarrow> ws_Status su = StepStatusCompleted"
  shows "hasUnfinishedSteps i s = (Ok False, s)" "hasFailedOrRolledBackSteps i s = (Ok False, s)"
  using assms(2) steps_of_set [OF assms(1), of i]
  by (force simp: hasUnfinishedSteps_def hasFailedOrRolledBackSteps_def any_step_run [OF assms(1)])+

lemma completeWorkflow_run:
  assumes "wf_store s" "knows s inst def" "en_plugins s = None"
    and "\<And>k su. map_of (ms_steps s) k = Some su \<Longrightarrow> ws_InstanceID su = wi_ID inst \<Longrightarrow> ws_Status su = StepStatusCompleted"
  shows "\<exists>t fin. completeWorkflow inst out s = (Ok (), t) \<and> map_of (ms_instances t) (wi_ID inst) = Some fin \<and>
    wi_Status fin = StatusCompleted \<and> wi_Output fin = out \<and> wi_WorkflowID fin = wi_WorkflowID inst \<and>
    ms_queue t = ms_queue s \<and> ms_steps t = ms_steps s \<and> ms_stepsByInstance t = ms_stepsByInstance s \<and> en_calls t = en_calls s"
  using assms(2,3) all_completed_steps(2) [OF assms(1,4)]
  by (simp add: completeWorkflow_def UpdateInstanceStatus_def GetInstance_def final_hook_def run_simps time_now_def Let_def knows_def)

lemma turn_last:
  assumes def: "all_tasks def" and at: "stands_at def inst past n r s" and sd: "map_of (def_steps def) n = Some sd" "sd_Next sd = []"
    and ans: "answers s def n is_success"
  shows "\<exists>t c fin. ExecuteNext wk s = (Ok False, t) \<and> ms_queue t = [] \<and> en_calls t = en_calls s @ [c] \<and> call_of inst n sd c \<and>
    map_of (ms_instances t) (wi_ID inst) = Some fin \<and> wi_Status fin = StatusCompleted \<and> wi_WorkflowID fin = wi_WorkflowID inst \<and>
    (\<forall>su \<in> set (steps_of t (wi_ID inst)). ws_Status su = StepStatusCompleted)"
proof -
  obtain st item u answer where st: "map_of (ms_steps s) (ws_ID st) = Some st" "ws_InstanceID st = wi_ID inst" "attempted def n r st"
    and others: "others_done s (wi_ID inst) (ws_ID st)" and u: "started_from s item u" and q: "ms_queue u = [(qi_ID item, item)]" and "is_success answer"
    and run: "\<And>v. settle_answer inst st sd answer (called_state inst st sd u) = (Ok (), v) \<Longrightarrow>
       \<exists>cs. ExecuteNext wk s = (Ok False, v\<lparr>en_cancelContexts := cs, ms_queue := AList.delete (qi_ID item) (ms_queue v),
         en_activeSteps := en_activeSteps v - 1\<rparr>)"
    by (rule turn_runs_step [OF def at sd(1) ans, of wk]) blast
  then obtain out where out: "answer = Returns out" by (auto simp: is_success_def)
  have name: "ws_StepName st = n" using st(3) by (simp add: attempted_def)
  from at have parts: "wf_store s" "quiet s" "knows s inst def" by (simp_all add: stands_at_def)
  define w where "w = completed_state inst st out (called_state inst st sd u)"
  note w = after_task_fields [OF u st(1) w_def]
  from w(11) obtain su where su: "map_of (ms_steps w) = (map_of (ms_steps s))(ws_ID st \<mapsto> su)" "ws_Status su = StepStatusCompleted" by auto
  have wfw: "wf_store w" by (rule w(14))
  have finished: "ws_Status x = StepStatusCompleted" if "map_of (ms_steps w) k = Some x" "ws_InstanceID x = wi_ID inst" for k x
    using that others su by (auto simp: others_done_def split: if_splits)
  have knw: "knows w inst def" "en_plugins w = None" using parts w by (simp_all add: knows_def quiet_def)
  obtain v fin where v: "completeWorkflow inst out w = (Ok (), v)" "map_of (ms_instances v) (wi_ID inst) = Some fin"
    "wi_Status fin = StatusCompleted" "wi_WorkflowID fin = wi_WorkflowID inst" "ms_queue v = ms_queue w"
    "ms_steps v = ms_steps w" "ms_stepsByInstance v = ms_stepsByInstance w" "en_calls v = en_calls w"
    using completeWorkflow_run [of w inst def out, OF wfw knw] finished by blast
  have "settle_answer inst st sd answer (called_state inst st sd u) =
      bnd (hasUnfinishedSteps (wi_ID inst)) (\<lambda>unfinished. if \<not> unfinished then completeWorkflow inst out else ret ()) w"
    unfolding w_def settle_answer_def out handler_result.case
    using called_fields [OF u st(1) refl, of inst sd] parts(3) st name sd
    by (intro handleStepSuccess_last [OF def]) (simp_all add: knows_def)
  moreover have "hasUnfinishedSteps (wi_ID inst) w = (Ok False, w)" using all_completed_steps(1) [OF wfw] finished by blast
  ultimately have "settle_answer inst st sd answer (called_state inst st sd u) = (Ok (), v)" using v(1) by (simp add: bnd_run)
  from run [OF this] obtain cs where
    t: "ExecuteNext wk s = (Ok False, v\<lparr>en_cancelContexts := cs, ms_queue := AList.delete (qi_ID item) (ms_queue v),
         en_activeSteps := en_activeSteps v - 1\<rparr>)" (is "_ = (_, ?t)") by blast
  have "steps_of ?t (wi_ID inst) = steps_of w (wi_ID inst)" using v by (simp add: steps_of_def)
  then have "\<forall>x \<in> set (steps_of ?t (wi_ID inst)). ws_Status x = StepStatusCompleted"
    using steps_of_set [OF wfw] finished by auto
  moreover have "ms_queue ?t = []"
    "en_calls ?t = en_calls s @ [\<lparr>hc_Handler = sd_Handler sd, hc_Context = task_context inst st sd, hc_Input = ws_Input st\<rparr>]"
    using v w q by simp_all
  ultimately show ?thesis using t v(2-4) name by (auto simp: call_of_def task_context_def)
qed

section \<open>The whole run\<close>

fun chain :: "workflow_definition \<Rightarrow> string list \<Rightarrow> bool" where
  "chain def [] \<longleftrightarrow> False"
| "chain def [n] \<longleftrightarrow> (\<exists>sd. map_of (def_steps def) n = Some sd \<and> sd_Next sd = [])"
| "chain def (n # m # ns) \<longleftrightarrow> (\<exists>sd sd'. map_of (def_steps def) n = Some sd \<and> sd_Next sd = [m] \<and>
     map_of (def_steps def) m = Some sd' \<and> sd_Delay sd' \<le> 0) \<and> chain def (m # ns)"

fun worker_turns :: "nat \<Rightarrow> string \<Rightarrow> engine \<Rightarrow> engine" where
  "worker_turns 0 wk s = s"
| "worker_turns (Suc k) wk s = worker_turns k wk (snd (ExecuteNext wk s))"

definition completed_run :: "workflow_instance \<Rightarrow> string list \<Rightarrow> engine \<Rightarrow> engine \<Rightarrow> bool" where
  "completed_run inst ns s t \<longleftrightarrow> ms_queue t = [] \<and>
     (\<exists>calls. en_calls t = en_calls s @ calls \<and> map (\<lambda>c. ec_stepName (hc_Context c)) calls = ns \<and>
        (\<forall>c \<in> set calls. ec_instanceID (hc_Context c) = wi_ID inst)) \<and>
     (\<exists>fin. map_of (ms_instances t) (wi_ID inst) = Some fin \<and> wi_Status fin = StatusCompleted \<and> wi_WorkflowID fin = wi_WorkflowID inst) \<and>
     (\<forall>su \<in> set (steps_of t (wi_ID inst)). ws_Status su = StepStatusCompleted)"

lemma completed_run_Cons:
  assumes "completed_run inst ns t u" "en_calls t = en_calls s @ [c]" "ec_instanceID (hc_Context c) = wi_ID inst" "ec_stepName (hc_Context c) = n"
  shows "completed_run inst (n # ns) s u"
proof -
  from assms(1) obtain calls where "en_calls u = en_calls t @ calls" "map (\<lambda>c. ec_stepName (hc_Context c)) calls = ns"
    "\<forall>c \<in> set calls. ec_instanceID (hc_Context c) = wi_ID inst" by (auto simp: completed_run_def)
  with assms have "\<exists>cs. en_calls u = en_calls s @ cs \<and> map (\<lambda>c. ec_stepName (hc_Context c)) cs = n # ns \<and>
      (\<forall>c \<in> set cs. ec_instanceID (hc_Context c) = wi_ID inst)" by (intro exI [of _ "c # calls"]) simp
  with assms(1) show ?thesis unfolding completed_run_def by presburger
qed

lemma chain_runs:
  assumes def: "all_tasks def"
  shows "stands_at def inst past n 0 s \<Longrightarrow> willing s def (n # ns) \<Longrightarrow> chain def (n # ns) \<Longrightarrow> completed_run inst (n # ns) s (worker_turns (length (n # ns)) wk s)"
proof (induction ns arbitrary: n s past)
  case Nil
  then obtain sd where sd: "map_of (def_steps def) n = Some sd" "sd_Next sd = []" by auto
  have "answers s def n is_success" using Nil.prems(2) by (simp add: willing_def)
  from turn_last [OF def Nil.prems(1) sd this, of wk] obtain t c fin where
    "ExecuteNext wk s = (Ok False, t)" "ms_queue t = []" "en_calls t = en_calls s @ [c]" "call_of inst n sd c"
    "map_of (ms_instances t) (wi_ID inst) = Some fin" "wi_Status fin = StatusCompleted" "wi_WorkflowID fin = wi_WorkflowID inst"
    "\<forall>su \<in> set (steps_of t (wi_ID inst)). ws_Status su = StepStatusCompleted" by blast
  then show ?case by (auto simp: completed_run_def call_of_def)
next
  case (Cons m ns)
  then obtain sd sd' where sd: "map_of (def_steps def) n = Some sd" "sd_Next sd = [m]"
    "map_of (def_steps def) m = Some sd'" "sd_Delay sd' \<le> 0" and rest: "chain def (m # ns)" by auto
  have "answers s def n is_success" using Cons.prems(2) by (simp add: willing_def)
  from turn_next [OF def Cons.prems(1) sd(1) this sd(2-4), of wk] obtain t c where
    t: "ExecuteNext wk s = (Ok False, t)" "stands_at def inst (past @ [n]) m 0 t" "en_calls t = en_calls s @ [c]" "call_of inst n sd c"
    and "en_handlers t = en_handlers s" by blast
  then have will: "willing t def (m # ns)" using Cons.prems(2) by (simp add: willing_def answers_def)
  from completed_run_Cons [OF Cons.IH [OF t(2) will rest] t(3)] t(1,4) show ?case by (simp add: call_of_def)
qed

lemma Start_stands:
  assumes wf: "wf_store s" and quiet: "quiet s" and queue: "ms_queue s = []"
    and unused: "steps_of s (ms_nextInstanceID s) = []"
    and reg: "map_of (ms_definitions s) w = Some def" "validateDefinition def = Ok ()"
    and start: "map_of (def_steps def) (def_start def) = Some sd" "sd_Delay sd \<le> 0"
  shows "\<exists>t inst. Start w inp s = (Ok (ms_nextInstanceID s), t) \<and> wi_ID inst = ms_nextInstanceID s \<and> wi_WorkflowID inst = w \<and>
    stands_at def inst [] (def_start def) 0 t \<and> en_calls t = en_calls s \<and> en_handlers t = en_handlers s \<and> ms_joinStates t = ms_joinStates s"
proof -
  have "def_start def \<noteq> []" using validateDefinition_start [OF reg(2)] by blast
  obtain r t where rt: "Start w inp s = (r, t)" by fastforce
  have wft: "wf_store t" using movesD [OF frame.Start, of s w inp] wf rt by (simp add: sound_step_def)
  have none: "\<not> (\<exists>k su. map_of (ms_steps s) k = Some su \<and> ws_InstanceID su = ms_nextInstanceID s)"
  proof
    assume "\<exists>k su. map_of (ms_steps s) k = Some su \<and> ws_InstanceID su = ms_nextInstanceID s"
    then obtain k su where k: "map_of (ms_steps s) k = Some su" "ws_InstanceID su = ms_nextInstanceID s" by blast
    from find_step [OF wf k] unused show False by simp
  qed
  define inst st where "inst = the (map_of (ms_instances t) (ms_nextInstanceID s))"
    and "st = the (map_of (ms_steps t) (ms_nextStepID s))"
  note defs = Start_def ReadCommitted_def lift_outcome_def GetWorkflowDefinition_def ExecuteWorkflowStart_def
    with_plugins_def enqueueNextSteps_def enqueue_one_def CreateInstance_def put_instance_def
    UpdateInstanceStatus_def GetInstance_def time_now_def Let_def
  have t: "t = snd (Start w inp s)" "r = fst (Start w inp s)" using rt by simp_all
  have "r = Ok (ms_nextInstanceID s)" "en_calls t = en_calls s" "quiet t" "en_handlers t = en_handlers s" "ms_joinStates t = ms_joinStates s"
    using reg quiet start \<open>def_start def \<noteq> []\<close> by (simp_all add: t defs run_simps quiet_def)
  moreover have inst: "wi_ID inst = ms_nextInstanceID s" "wi_WorkflowID inst = w" "knows t inst def"
    using reg quiet start \<open>def_start def \<noteq> []\<close> by (simp_all add: inst_def t defs run_simps quiet_def knows_def)
  moreover have st: "ws_ID st = ms_nextStepID s" "map_of (ms_steps t) = (map_of (ms_steps s))(ms_nextStepID s \<mapsto> st)"
    "ws_InstanceID st = ms_nextInstanceID s" "attempted def (def_start def) 0 st"
    using reg quiet start \<open>def_start def \<noteq> []\<close>
    by (simp_all add: st_def t defs run_simps quiet_def new_step_def fun_eq_iff attempted_def created_def)
  moreover have "only_item (wi_ID inst) st t"
    using reg quiet start \<open>def_start def \<noteq> []\<close> queue st(1) inst(1)
    by (simp add: only_item_def) (simp add: t defs run_simps quiet_def enqueued_def PriorityNormal_def)
  moreover have "others_done t (wi_ID inst) (ws_ID st)" using st inst none by (auto simp: others_done_def split: if_splits)
  moreover have "set (steps_of t (wi_ID inst)) = {st}"
    using st inst none by (auto simp: steps_of_set [OF wft] split: if_splits)
  then have "steps_of t (wi_ID inst) = [st]"
    using steps_of_sorted [OF wft, of "wi_ID inst"] by (cases "steps_of t (wi_ID inst)") (auto simp: set_eq_iff, (metis list.set_intros(1) neq_Nil_conv order_less_irrefl)+)
  then have "step_names t (wi_ID inst) = [] @ [def_start def]" using st(4) by (simp add: step_names_def attempted_def)
  ultimately show ?thesis
    unfolding stands_at_def using rt wft by (intro exI [of _ t] exI [of _ inst] conjI exI [of _ st]) auto
qed

text \<open>
  C2: a chain of tasks runs to completion.  Take a well-formed store with an empty queue, no plugins and no stop requests, a
  registered valid definition whose steps are tasks linked into a chain without delays, and handlers that succeed.
  After \<open>Start\<close> and as many worker turns as the chain has steps, the instance is completed, the queue is
  empty, every step of the instance is completed, and the handlers were called once for each step of the
  chain, in the order of the chain.
\<close>

theorem linear_workflow_completes:
  assumes wf: "wf_store s" and quiet: "quiet s" and willing: "willing s def (def_start def # ns)" and queue: "ms_queue s = []"
    and unused: "steps_of s (ms_nextInstanceID s) = []"
    and reg: "map_of (ms_definitions s) w = Some def" "validateDefinition def = Ok ()" and def: "all_tasks def"
    and chain: "chain def (def_start def # ns)"
    and start: "map_of (def_steps def) (def_start def) = Some sd" "sd_Delay sd \<le> 0"
  shows "\<exists>t inst. Start w inp s = (Ok (ms_nextInstanceID s), t) \<and> wi_ID inst = ms_nextInstanceID s \<and> wi_WorkflowID inst = w \<and>
    completed_run inst (def_start def # ns) s (worker_turns (length (def_start def # ns)) wk t)"
proof -
  from Start_stands [OF wf quiet queue unused reg start, of inp] obtain t inst where
    t: "Start w inp s = (Ok (ms_nextInstanceID s), t)" "wi_ID inst = ms_nextInstanceID s" "wi_WorkflowID inst = w"
      "stands_at def inst [] (def_start def) 0 t" "en_calls t = en_calls s" "en_handlers t = en_handlers s" by blast
  have "willing t def (def_start def # ns)" using willing t(6) by (simp add: willing_def answers_def)
  from chain_runs [OF def t(4) this chain, of wk] t(5)
  have "completed_run inst (def_start def # ns) s (worker_turns (length (def_start def # ns)) wk t)"
    by (simp add: completed_run_def)
  with t show ?thesis by blast
qed

definition demo_linear :: engine where
  "demo_linear = demo_registered\<lparr>en_handlers := [(''h'', \<lambda>calls ctx inp. (Returns inp, []))]\<rparr>"

theorem linear_workflow_completes_witness:
  "\<exists>t inst. Start ''w-v1'' RawNil demo_linear = (Ok 1, t) \<and> wi_ID inst = 1 \<and>
    completed_run inst [''a'', ''b''] demo_linear (worker_turns 2 ''worker'' t)"
proof -
  have "wf_store demo_linear" using demo_registered_wf by (simp add: demo_linear_def wf_store_def)
  moreover have "ms_queue demo_linear = []" "steps_of demo_linear 1 = []" "ms_nextInstanceID demo_linear = 1"
    "ms_cancelRequests demo_linear = []" "\<not> en_isShuttingDown demo_linear" "en_plugins demo_linear = None"
    by code_simp+
  moreover have "willing demo_linear two_tasks (def_start two_tasks # [''b''])"
    by (auto simp: willing_def answers_def is_success_def demo_linear_def two_tasks_def zero_step_def)
  moreover have "map_of (ms_definitions demo_linear) ''w-v1'' = Some two_tasks"
    using demo_registered_facts by (simp add: demo_linear_def)
  moreover have "all_tasks two_tasks" "chain two_tasks (def_start two_tasks # [''b''])" "def_start two_tasks = ''a''"
    by (simp_all add: all_tasks_def two_tasks_def zero_step_def)
  moreover obtain sd where "map_of (def_steps two_tasks) (def_start two_tasks) = Some sd" "sd_Delay sd \<le> 0"
    by (simp add: two_tasks_def zero_step_def)
  ultimately show ?thesis
    using linear_workflow_completes [of demo_linear two_tasks "[''b'']" "''w-v1''" sd RawNil "''worker''"] demo_registered_facts(2)
    by (auto simp: quiet_def numeral_2_eq_2)
qed

end
