(* ===== verification/Builder.thy ===== *)
theory Builder
  imports Validation
begin

text \<open>
  The workflow builder of \<open>src/builder.go\<close> and its options (\<open>src/builder_opts.go\<close>).

  A builder is a record with the fields of the Go struct; the methods, which mutate it and
  return it, are functions from builders to builders.  A branch or else function is a
  function on builders.  A sub-builder is kept for \<open>Build\<close> as a \<open>sub_builder\<close>: the fields
  \<open>Build\<close> reads, with its own sub-builders.  Step options are functions on step
  definitions, as in Go.
\<close>

section \<open>Options\<close>

type_synonym step_option = "step_definition \<Rightarrow> step_definition"

definition WithStepMaxRetries :: "int \<Rightarrow> step_option" where
  "WithStepMaxRetries maxRetries sd =
     (if sd_NoIdempotent sd then sd else sd\<lparr>sd_MaxRetries := maxRetries\<rparr>)"

definition WithStepMetadata :: "(string, json) gomap \<Rightarrow> step_option" where
  "WithStepMetadata metadata sd = sd\<lparr>sd_Metadata := metadata\<rparr>"

definition WithStepNoIdempotent :: step_option where
  "WithStepNoIdempotent sd = sd\<lparr>sd_NoIdempotent := True, sd_MaxRetries := 1\<rparr>"

definition WithStepDelay :: "int \<Rightarrow> step_option" where
  "WithStepDelay delay sd = sd\<lparr>sd_Delay := delay\<rparr>"

definition WithStepRetryDelay :: "int \<Rightarrow> step_option" where
  "WithStepRetryDelay retryDelay sd = sd\<lparr>sd_RetryDelay := retryDelay\<rparr>"

definition WithStepTimeout :: "int \<Rightarrow> step_option" where
  "WithStepTimeout timeout sd = sd\<lparr>sd_Timeout := timeout\<rparr>"

definition WithStepRetryStrategy :: "retry_strategy \<Rightarrow> step_option" where
  "WithStepRetryStrategy strategy sd = sd\<lparr>sd_RetryStrategy := strategy\<rparr>"

definition apply_opts :: "('a \<Rightarrow> 'a) list \<Rightarrow> 'a \<Rightarrow> 'a" where
  "apply_opts opts x = fold (\<lambda>opt y. opt y) opts x"

section \<open>The builder\<close>

definition defaultMaxRetries :: int where
  "defaultMaxRetries = 3"

datatype sub_builder = SubBuilder
  (sb_name: string) (sb_version: int) (sb_steps: steps_map) (sb_startStep: string)
  (sb_dlqEnabled: bool) (sb_err: "goerror option") (sb_subs: "sub_builder list")

record builder =
  b_name :: string
  b_version :: int
  b_steps :: steps_map
  b_startStep :: string
  b_currentStep :: string
  b_nestingLevel :: int
  b_subBuilders :: "sub_builder list"
  b_defaultMaxRetries :: int
  b_dlqEnabled :: bool
  b_err :: "goerror option"

definition WithBuilderMaxRetries :: "int \<Rightarrow> builder \<Rightarrow> builder" where
  "WithBuilderMaxRetries maxRetries b = b\<lparr>b_defaultMaxRetries := maxRetries\<rparr>"

definition WithDLQEnabled :: "bool \<Rightarrow> builder \<Rightarrow> builder" where
  "WithDLQEnabled enabled b = b\<lparr>b_dlqEnabled := enabled\<rparr>"

definition fresh_builder :: "string \<Rightarrow> int \<Rightarrow> int \<Rightarrow> int \<Rightarrow> builder" where
  "fresh_builder name version maxRetries level =
     \<lparr>b_name = name, b_version = version, b_steps = [], b_startStep = [], b_currentStep = [],
      b_nestingLevel = level, b_subBuilders = [], b_defaultMaxRetries = maxRetries,
      b_dlqEnabled = False, b_err = None\<rparr>"

definition NewBuilder :: "string \<Rightarrow> int \<Rightarrow> (builder \<Rightarrow> builder) list \<Rightarrow> builder" where
  "NewBuilder name version opts = apply_opts opts (fresh_builder name version defaultMaxRetries 1)"

definition freeze :: "builder \<Rightarrow> sub_builder" where
  "freeze b = SubBuilder (b_name b) (b_version b) (b_steps b) (b_startStep b)
     (b_dlqEnabled b) (b_err b) (b_subBuilders b)"

definition fail_with :: "goerror \<Rightarrow> builder \<Rightarrow> builder" where
  "fail_with e b = b\<lparr>b_err := Some e\<rparr>"

text \<open>\<open>builder.steps[name] = step\<close>.\<close>

definition put_sd :: "string \<Rightarrow> step_definition \<Rightarrow> builder \<Rightarrow> builder" where
  "put_sd name sd b = b\<lparr>b_steps := AList.update name sd (b_steps b)\<rparr>"

text \<open>Update the step the pointer \<open>builder.steps[name]\<close> refers to.\<close>

definition modify_sd :: "string \<Rightarrow> (step_definition \<Rightarrow> step_definition) \<Rightarrow> builder \<Rightarrow> builder" where
  "modify_sd name f b =
     (case map_of (b_steps b) name of None \<Rightarrow> b | Some sd \<Rightarrow> put_sd name (f sd) b)"

text \<open>\<open>if currentStep != "" && currentStep != name { steps[currentStep].Next = append(..., name) }\<close>\<close>

definition link_next :: "string \<Rightarrow> builder \<Rightarrow> builder" where
  "link_next name b =
     (if b_currentStep b \<noteq> [] \<and> b_currentStep b \<noteq> name
      then modify_sd (b_currentStep b) (\<lambda>sd. sd\<lparr>sd_Next := sd_Next sd @ [name]\<rparr>) b else b)"

text \<open>\<open>if startStep == "" { startStep = name; step.Prev = rootStepName }\<close>\<close>

definition claim_start :: "string \<Rightarrow> builder \<Rightarrow> builder" where
  "claim_start name b =
     (if b_startStep b = []
      then (modify_sd name (\<lambda>sd. sd\<lparr>sd_Prev := rootStepName\<rparr>) b)\<lparr>b_startStep := name\<rparr> else b)"

definition set_current :: "string \<Rightarrow> builder \<Rightarrow> builder" where
  "set_current name b = b\<lparr>b_currentStep := name\<rparr>"

definition Step :: "string \<Rightarrow> string \<Rightarrow> step_option list \<Rightarrow> builder \<Rightarrow> builder" where
  "Step name handler opts b =
     (if b_err b \<noteq> None then b
      else if has_key (b_steps b) name
      then fail_with (Errorf (''step '' @ quote name @ '' already exists'')) b
      else
        let step = apply_opts opts (zero_step\<lparr>sd_Name := name, sd_Type := StepTypeTask,
              sd_Handler := handler, sd_MaxRetries := b_defaultMaxRetries b, sd_Next := [],
              sd_Prev := b_currentStep b, sd_RetryStrategy := RetryStrategyFixed\<rparr>)
        in set_current name (link_next name (claim_start name (put_sd name step b))))"

definition Then :: "string \<Rightarrow> string \<Rightarrow> step_option list \<Rightarrow> builder \<Rightarrow> builder" where
  "Then name handler opts b = Step name handler opts b"

definition OnFailure :: "string \<Rightarrow> string \<Rightarrow> step_option list \<Rightarrow> builder \<Rightarrow> builder" where
  "OnFailure name handler opts b =
     (if b_err b \<noteq> None then b
      else if b_currentStep b = []
      then fail_with (Errorf (''OnFailure '' @ quote name @ '' called with no step'')) b
      else
        let compensation = apply_opts opts (zero_step\<lparr>sd_Name := name, sd_Type := StepTypeTask,
              sd_Handler := handler, sd_MaxRetries := b_defaultMaxRetries b, sd_Prev := [],
              sd_RetryStrategy := RetryStrategyFixed\<rparr>)
        in modify_sd (b_currentStep b) (\<lambda>sd. sd\<lparr>sd_OnFailure := name\<rparr>) (put_sd name compensation b))"

definition NewTask :: "string \<Rightarrow> string \<Rightarrow> step_option list \<Rightarrow> step_definition" where
  "NewTask name handler opts =
     apply_opts opts (zero_step\<lparr>sd_Name := name, sd_Handler := handler, sd_Type := StepTypeTask,
       sd_Prev := [], sd_MaxRetries := defaultMaxRetries, sd_RetryStrategy := RetryStrategyFixed\<rparr>)"

definition JoinStep :: "string \<Rightarrow> string list \<Rightarrow> join_strategy \<Rightarrow> builder \<Rightarrow> builder" where
  "JoinStep name waitFor strategy0 b =
     (if b_err b \<noteq> None then b
      else if b_currentStep b = []
      then fail_with (Errorf (''JoinStep '' @ quote name @ '' called with no step'')) b
      else if name = [] then fail_with (Errorf ''JoinStep called with no name'') b
      else
        let strategy = (if strategy0 = JoinStrategyOther [] then JoinStrategyAll else strategy0);
            step = zero_step\<lparr>sd_Name := name, sd_Type := StepTypeJoin, sd_WaitFor := waitFor,
              sd_JoinStrategy := strategy, sd_Prev := b_currentStep b\<rparr>
        in set_current name (link_next name (put_sd name step b)))"

text \<open>The task loop of \<open>Parallel\<close>; \<open>i\<close> is the index of the task.\<close>

fun add_tasks :: "string \<Rightarrow> nat \<Rightarrow> step_definition list \<Rightarrow> builder \<Rightarrow> builder" where
  "add_tasks name i [] b = b"
| "add_tasks name i (task # tasks) b =
     (if sd_Name task = []
      then fail_with (Errorf (''tasks['' @ show_nat i @ ''] in parallel '' @ quote name
             @ '' missing step name'')) b
      else if sd_Handler task = []
      then fail_with (Errorf (''tasks['' @ show_nat i @ ''] in parallel '' @ quote name
             @ '' missing step handler'')) b
      else if has_key (b_steps b) (sd_Name task)
      then fail_with (Errorf (''duplicate step '' @ quote (sd_Name task) @ '' in parallel '' @ quote name)) b
      else add_tasks name (Suc i) tasks
        (modify_sd name (\<lambda>sd. sd\<lparr>sd_Parallel := sd_Parallel sd @ [sd_Name task]\<rparr>)
          (put_sd (sd_Name task) (task\<lparr>sd_Prev := name\<rparr>) b)))"

definition Parallel :: "string \<Rightarrow> step_definition list \<Rightarrow> builder \<Rightarrow> builder" where
  "Parallel name tasks b =
     (if b_err b \<noteq> None then b
      else if has_key (b_steps b) name
      then fail_with (Errorf (''duplicate parallel step '' @ quote name)) b
      else
        let step = zero_step\<lparr>sd_Name := name, sd_Type := StepTypeParallel, sd_Prev := b_currentStep b\<rparr>;
            b1 = add_tasks name 0 tasks (link_next name (put_sd name step b))
        in if b_err b1 \<noteq> None then b1
           else
             let joinStepName = name @ ''_join'';
                 b2 = modify_sd name (\<lambda>sd. sd\<lparr>sd_Next := sd_Next sd @ [joinStepName]\<rparr>) b1;
                 par = (case map_of (b_steps b2) name of None \<Rightarrow> [] | Some sd \<Rightarrow> sd_Parallel sd)
             in JoinStep joinStepName par JoinStrategyAll b2)"

section \<open>Build\<close>

definition build_id :: "string \<Rightarrow> int \<Rightarrow> string" where
  "build_id name version = name @ ''-v'' @ show_int version"

fun build_sub :: "sub_builder \<Rightarrow> workflow_definition outcome"
and build_subs :: "sub_builder list \<Rightarrow> unit outcome" where
  "build_sub (SubBuilder name version steps startStep dlqEnabled err subs) =
     (case err of
        Some e \<Rightarrow> Err e
      | None \<Rightarrow>
          if name = [] then Err (Errorf ''workflow name is required'')
          else if startStep = []
          then Err (Errorf (''builder '' @ quote name @ '': at least one step is required''))
          else
            let def = \<lparr>wd_ID = build_id name version, wd_Name = name, wd_Version = version,
                  wd_Definition = \<lparr>gd_Steps = steps, gd_Start = startStep, gd_DLQEnabled = dlqEnabled\<rparr>,
                  wd_CreatedAt = 0\<rparr>
            in (case ValidateWorkflowDefinition def of
                  Ok _ \<Rightarrow> (case build_subs subs of
                      Ok _ \<Rightarrow> Ok def | Err e \<Rightarrow> Err e | Panic p \<Rightarrow> Panic p | Stuck \<Rightarrow> Stuck)
                | Err e \<Rightarrow> Err e | Panic p \<Rightarrow> Panic p | Stuck \<Rightarrow> Stuck))"
| "build_subs [] = Ok ()"
| "build_subs (sub # subs) =
     (case build_sub sub of
        Ok _ \<Rightarrow> build_subs subs | Err e \<Rightarrow> Err e | Panic p \<Rightarrow> Panic p | Stuck \<Rightarrow> Stuck)"

definition Build :: "builder \<Rightarrow> workflow_definition outcome" where
  "Build b = build_sub (freeze b)"

section \<open>Fork, join and condition\<close>

text \<open>Merging the steps of a branch into the builder; the branch's start step hangs off the fork.\<close>

fun merge_branch :: "string \<Rightarrow> string \<Rightarrow> steps_map \<Rightarrow> builder \<Rightarrow> builder" where
  "merge_branch name start [] b = b"
| "merge_branch name start ((stepName, stepDef) # rest) b =
     (if has_key (b_steps b) stepName
      then fail_with (Errorf (''duplicate step '' @ quote stepName @ '' in fork flow '' @ quote name)) b
      else merge_branch name start rest
        (put_sd stepName (if stepName = start then stepDef\<lparr>sd_Prev := name\<rparr> else stepDef) b))"

fun add_branches :: "string \<Rightarrow> nat \<Rightarrow> (builder \<Rightarrow> builder) list \<Rightarrow> builder \<Rightarrow> builder" where
  "add_branches name i [] b = b"
| "add_branches name i (branchFn # fns) b =
     (let sub = branchFn (fresh_builder (b_name b @ ''_branch_'' @ show_nat (i + 1)) (b_version b)
                  (b_defaultMaxRetries b) (b_nestingLevel b + 1))
      in if b_startStep sub = []
         then fail_with (Errorf (''Fork '' @ quote name @ '': branch '' @ show_nat (i + 1) @ '' has no steps'')) b
         else case Build sub of
           Ok _ \<Rightarrow>
             let b1 = merge_branch name (b_startStep sub) (b_steps sub)
                        (b\<lparr>b_subBuilders := b_subBuilders b @ [freeze sub]\<rparr>)
             in if b_err b1 \<noteq> None then b1
                else add_branches name (Suc i) fns
                  (modify_sd name (\<lambda>sd. sd\<lparr>sd_Parallel := sd_Parallel sd @ [b_startStep sub]\<rparr>) b1)
         | Err e \<Rightarrow> fail_with (Errorf (''invalid branch '' @ show_nat (i + 1) @ '' for Fork '' @ quote name
                      @ '': '' @ error_text e)) b
         | _ \<Rightarrow> b)"

definition Fork :: "string \<Rightarrow> (builder \<Rightarrow> builder) list \<Rightarrow> builder \<Rightarrow> builder" where
  "Fork name branches b =
     (if b_err b \<noteq> None then b
      else if length branches < 2
      then fail_with (Errorf (''ForkFlow '' @ quote name @ '' called with count of branches < 2'')) b
      else
        let step = zero_step\<lparr>sd_Name := name, sd_Type := StepTypeFork, sd_Prev := b_currentStep b\<rparr>;
            b1 = add_branches name 0 branches (link_next name (claim_start name (put_sd name step b)))
        in if b_err b1 \<noteq> None then b1 else set_current name b1)"

text \<open>
  The two branch traversals.  \<open>visited\<close> is the state; fuel bounds the depth.
\<close>

fun traverseBranchForCondition :: "nat \<Rightarrow> steps_map \<Rightarrow> string \<Rightarrow> (string list, string) prog" where
  "traverseBranchForCondition 0 steps stepName = stuck"
| "traverseBranchForCondition (Suc fuel) steps stepName =
     (if stepName = [] then ret []
      else bnd (gets (\<lambda>visited. stepName \<in> set visited)) (\<lambda>seen.
        if seen then ret []
        else thn (modify (\<lambda>visited. stepName # visited))
          (case map_of steps stepName of
             None \<Rightarrow> ret []
           | Some stepDef \<Rightarrow>
               if sd_Type stepDef = StepTypeCondition then ret stepName
               else bnd (for_find (sd_Next stepDef) (\<lambda>n.
                      bnd (traverseBranchForCondition fuel steps n) (\<lambda>r.
                      ret (if r \<noteq> [] then Some r else None)))) (\<lambda>found.
                 case found of
                   Some r \<Rightarrow> ret r
                 | None \<Rightarrow>
                     if sd_Else stepDef \<noteq> [] then traverseBranchForCondition fuel steps (sd_Else stepDef)
                     else ret []))))"

text \<open>A loop that gathers the results of its iterations.\<close>

fun for_collect :: "'a list \<Rightarrow> ('a \<Rightarrow> ('s, 'b list) prog) \<Rightarrow> ('s, 'b list) prog" where
  "for_collect [] f = ret []"
| "for_collect (x # xs) f = bnd (f x) (\<lambda>r. bnd (for_collect xs f) (\<lambda>rs. ret (r @ rs)))"

fun traverseBranchForTerminal :: "nat \<Rightarrow> steps_map \<Rightarrow> string \<Rightarrow> (string list, string list) prog" where
  "traverseBranchForTerminal 0 steps stepName = stuck"
| "traverseBranchForTerminal (Suc fuel) steps stepName =
     (if stepName = [] then ret []
      else bnd (gets (\<lambda>visited. stepName \<in> set visited)) (\<lambda>seen.
        if seen then ret []
        else thn (modify (\<lambda>visited. stepName # visited))
          (case map_of steps stepName of
             None \<Rightarrow> ret []
           | Some stepDef \<Rightarrow>
               if sd_Next stepDef = [] then ret [stepName]
               else bnd (for_collect (sd_Next stepDef) (traverseBranchForTerminal fuel steps)) (\<lambda>ts.
                 if sd_Else stepDef \<noteq> []
                 then bnd (traverseBranchForTerminal fuel steps (sd_Else stepDef)) (\<lambda>es. ret (ts @ es))
                 else ret ts))))"

definition traverse_fuel :: "steps_map \<Rightarrow> nat" where
  "traverse_fuel steps = length steps + 2"

definition findFirstConditionInBranch :: "steps_map \<Rightarrow> string \<Rightarrow> string" where
  "findFirstConditionInBranch steps startStepName =
     (case fst (traverseBranchForCondition (traverse_fuel steps) steps startStepName []) of
        Ok r \<Rightarrow> r | _ \<Rightarrow> [])"

definition findTerminalStepInBranch :: "steps_map \<Rightarrow> string \<Rightarrow> string" where
  "findTerminalStepInBranch steps startStepName =
     (case fst (traverseBranchForTerminal (traverse_fuel steps) steps startStepName []) of
        Ok (t # ts) \<Rightarrow> t | _ \<Rightarrow> startStepName)"

text \<open>What \<open>Join\<close> waits for in one branch of the fork before it.\<close>

definition branch_wait :: "steps_map \<Rightarrow> string \<Rightarrow> string" where
  "branch_wait steps branchStartStep =
     (let conditionStepName = findFirstConditionInBranch steps branchStartStep in
      if conditionStepName \<noteq> [] then ''cond#'' @ conditionStepName
      else let terminalStep = findTerminalStepInBranch steps branchStartStep in
        if terminalStep \<noteq> [] then terminalStep else branchStartStep)"

definition Join :: "string \<Rightarrow> join_strategy \<Rightarrow> builder \<Rightarrow> builder" where
  "Join name strategy0 b =
     (if b_err b \<noteq> None then b
      else if b_currentStep b = []
      then fail_with (Errorf (''Join '' @ quote name @ '' called with no step'')) b
      else if name = [] then fail_with (Errorf ''Join called with no name'') b
      else
        let strategy = (if strategy0 = JoinStrategyOther [] then JoinStrategyAll else strategy0) in
        case map_of (b_steps b) (b_currentStep b) of
          None \<Rightarrow> fail_with (Errorf (''previous step '' @ quote (b_currentStep b) @ '' not found'')) b
        | Some prevStep \<Rightarrow>
            let waitFor = (if sd_Type prevStep = StepTypeFork \<or> sd_Type prevStep = StepTypeParallel
                  then map (branch_wait (b_steps b)) (sd_Parallel prevStep)
                  else [b_currentStep b]);
                step = zero_step\<lparr>sd_Name := name, sd_Type := StepTypeJoin, sd_WaitFor := waitFor,
                  sd_JoinStrategy := strategy, sd_Prev := b_currentStep b\<rparr>
            in set_current name (link_next name (put_sd name step b)))"

definition ForkJoin :: "string \<Rightarrow> (builder \<Rightarrow> builder) list \<Rightarrow> string \<Rightarrow> join_strategy \<Rightarrow> builder \<Rightarrow> builder" where
  "ForkJoin forkName branches joinName joinStrategy b =
     (if b_err b \<noteq> None then b else Join joinName joinStrategy (Fork forkName branches b))"

definition SavePoint :: "string \<Rightarrow> builder \<Rightarrow> builder" where
  "SavePoint name b =
     (if b_err b \<noteq> None then b
      else if name = [] then fail_with (Errorf ''SavePoint called with no name'') b
      else if b_nestingLevel b > 1
      then fail_with (Errorf (''SavePoint '' @ quote name @ '' called from within a subflow'')) b
      else
        let step = zero_step\<lparr>sd_Name := name, sd_Type := StepTypeSavePoint, sd_Prev := b_currentStep b\<rparr>
        in set_current name (link_next name (put_sd name step b)))"

definition merge_else :: "steps_map \<Rightarrow> builder \<Rightarrow> builder" where
  "merge_else subSteps b = fold (\<lambda>(n, sd). put_sd (sd_Name sd) sd) subSteps b"

definition Condition :: "string \<Rightarrow> string \<Rightarrow> (builder \<Rightarrow> builder) option \<Rightarrow> builder \<Rightarrow> builder" where
  "Condition name expr elseBranch b =
     (if b_err b \<noteq> None then b
      else if name = [] then fail_with (Errorf ''Condition called with no name'') b
      else if expr = [] then fail_with (Errorf ''Condition called with no expression'') b
      else if b_currentStep b = []
      then fail_with (Errorf (''Condition '' @ quote name @ '' called with no step'')) b
      else
        let step = zero_step\<lparr>sd_Name := name, sd_Condition := expr, sd_Type := StepTypeCondition,
              sd_Prev := b_currentStep b\<rparr>;
            b1 = put_sd name step b;
            b2 = (case elseBranch of
                None \<Rightarrow> b1
              | Some fn \<Rightarrow>
                  let sub = fn (fresh_builder (b_name b @ ''_branch_else'') (b_version b)
                              (b_defaultMaxRetries b) (b_nestingLevel b))
                  in if b_startStep sub = []
                     then fail_with (Errorf (''Condition '' @ quote name @ '': else branch has no steps'')) b1
                     else case Build sub of
                       Ok _ \<Rightarrow>
                         let start = b_startStep sub;
                             subSteps = map (\<lambda>(n, sd). (n, if n = start then sd\<lparr>sd_Prev := name\<rparr> else sd)) (b_steps sub);
                             b3 = modify_sd name (\<lambda>sd. sd\<lparr>sd_Else := start\<rparr>) b1;
                             b4 = (case map_of subSteps start of None \<Rightarrow> b3 | Some sd \<Rightarrow> put_sd start sd b3);
                             b5 = merge_else subSteps b4
                         in b5\<lparr>b_subBuilders := b_subBuilders b5 @ [freeze sub]\<rparr>
                     | Err e \<Rightarrow> fail_with (Wrap (''invalid else branch for Condition '' @ quote name) e) b1
                     | _ \<Rightarrow> b1)
        in if b_err b2 \<noteq> None then b2 else set_current name (link_next name b2))"

definition minute_ns :: int where
  "minute_ns = 60 * 1000000000"

definition WaitHumanConfirm :: "string \<Rightarrow> step_option list \<Rightarrow> builder \<Rightarrow> builder" where
  "WaitHumanConfirm name opts b =
     (if b_err b \<noteq> None then b
      else if name = [] then fail_with (Errorf ''WaitHumanConfirm called with no name'') b
      else
        let step = apply_opts opts (zero_step\<lparr>sd_Name := name, sd_Type := StepTypeHuman,
              sd_MaxRetries := b_defaultMaxRetries b, sd_Prev := b_currentStep b,
              sd_Delay := minute_ns, sd_RetryStrategy := RetryStrategyFixed\<rparr>)
        in set_current name (link_next name (put_sd name step b)))"

end
