(* ===== verification/Builder_Laws.thy ===== *)
theory Builder_Laws
  imports Linear_Run Builder
begin

text \<open>
  What the builder builds: a row of tasks becomes a valid definition that is the chain of these tasks, so that it runs to completion;
  and how \<open>Parallel\<close> places its join.
\<close>

section \<open>A row of tasks\<close>

definition row :: "string \<Rightarrow> string \<Rightarrow> string \<Rightarrow> string list \<Rightarrow> step_definition" where
  "row p n h nxt = zero_step\<lparr>sd_Name := n, sd_Type := StepTypeTask, sd_Handler := h, sd_MaxRetries := defaultMaxRetries, sd_Next := nxt,
     sd_Prev := p, sd_RetryStrategy := RetryStrategyFixed\<rparr>"

fun rows :: "string \<Rightarrow> (string \<times> string) list \<Rightarrow> steps_map" where
  "rows p [] = []"
| "rows p ((n, h) # ts) = (n, row p n h (map fst (take 1 ts))) # rows n ts"

definition add_steps :: "(string \<times> string) list \<Rightarrow> builder \<Rightarrow> builder" where
  "add_steps ts b = fold (\<lambda>(n, h). Step n h []) ts b"

lemma rows_keys [simp]: "map fst (rows p ts) = map fst ts"
  by (induction ts arbitrary: p) auto

lemma rows_names [simp]: "fst ` set (rows p ts) = fst ` set ts"
  using rows_keys [of p ts] by (metis list.set_map)

lemma rows_snoc:
  "ts \<noteq> [] \<Longrightarrow> distinct (map fst ts) \<Longrightarrow> n \<notin> set (map fst ts) \<Longrightarrow> c = fst (last ts) \<Longrightarrow>
   \<exists>sd. map_of (rows p ts) c = Some sd \<and> sd_Next sd = [] \<and>
     AList.update c (sd\<lparr>sd_Next := [n]\<rparr>) (rows p ts @ [(n, row c n h [])]) = rows p (ts @ [(n, h)])"
proof (induction ts arbitrary: p)
  case (Cons t ts)
  obtain a g where t: "t = (a, g)" by fastforce
  show ?case
  proof (cases ts)
    case Nil
    with Cons.prems t show ?thesis by (simp add: row_def)
  next
    case (Cons u us)
    then have "c \<in> set (map fst ts)" using Cons.prems(4) by (cases ts rule: rev_cases) auto
    with Cons.prems(2) t have "a \<noteq> c" by auto
    moreover from Cons.IH [of a] Cons.prems Cons obtain sd where "map_of (rows a ts) c = Some sd" "sd_Next sd = []"
      "AList.update c (sd\<lparr>sd_Next := [n]\<rparr>) (rows a ts @ [(n, row c n h [])]) = rows a (ts @ [(n, h)])" by auto
    ultimately show ?thesis using t Cons by simp
  qed
qed simp

lemma update_new: "k \<notin> set (map fst m) \<Longrightarrow> AList.update k v m = m @ [(k, v)]"
  by (induction m) auto

lemma add_steps_rows:
  "ts \<noteq> [] \<Longrightarrow> distinct (map fst ts) \<Longrightarrow> [] \<notin> set (map fst ts) \<Longrightarrow>
   add_steps ts (NewBuilder name v []) = (NewBuilder name v [])\<lparr>b_steps := rows rootStepName ts, b_startStep := fst (hd ts), b_currentStep := fst (last ts)\<rparr>"
proof (induction ts rule: rev_induct)
  case (snoc x ts)
  obtain n h where x: "x = (n, h)" by fastforce
  have step: "add_steps (ts @ [x]) b = Step n h [] (add_steps ts b)" for b by (simp add: add_steps_def x)
  show ?case
  proof (cases "ts = []")
    case True
    with snoc.prems x show ?thesis
      by (simp add: step add_steps_def Step_def NewBuilder_def apply_opts_def fresh_builder_def has_key_def set_current_def link_next_def
          claim_start_def modify_sd_def put_sd_def row_def Let_def)
  next
    case False
    define c where "c = fst (last ts)"
    have "c \<in> set (map fst ts)" "fst (hd ts) \<in> set (map fst ts)" using False by (simp_all add: c_def)
    moreover have "n \<notin> set (map fst ts)" "[] \<notin> set (map fst ts)" using snoc.prems x by auto
    ultimately have cn: "c \<noteq> n" "n \<notin> set (map fst (rows rootStepName ts))" "c \<noteq> []" "fst (hd ts) \<noteq> []" unfolding rows_keys by metis+
    from rows_snoc [OF False _ _ c_def, of n rootStepName h] snoc.prems x obtain sd where sd: "map_of (rows rootStepName ts) c = Some sd" "sd_Next sd = []"
      "AList.update c (sd\<lparr>sd_Next := [n]\<rparr>) (rows rootStepName ts @ [(n, row c n h [])]) = rows rootStepName (ts @ [(n, h)])" by auto
    have "map_of (rows rootStepName ts) n = None" using cn(2) unfolding map_of_eq_None_iff by simp
    with snoc.IH [OF False] snoc.prems cn sd False show ?thesis
      by (simp add: step [unfolded x] x Step_def NewBuilder_def apply_opts_def fresh_builder_def has_key_def set_current_def link_next_def
          c_def [symmetric] claim_start_def modify_sd_def put_sd_def row_def Let_def update_new del: map_of_eq_Some_iff)
  qed
qed simp

text \<open>The definition that such a builder builds.\<close>

definition row_definition :: "string \<Rightarrow> int \<Rightarrow> (string \<times> string) list \<Rightarrow> workflow_definition" where
  "row_definition name v ts = \<lparr>wd_ID = build_id name v, wd_Name = name, wd_Version = v,
     wd_Definition = \<lparr>gd_Steps = rows rootStepName ts, gd_Start = fst (hd ts), gd_DLQEnabled = False\<rparr>, wd_CreatedAt = 0\<rparr>"

definition proper_tasks :: "(string \<times> string) list \<Rightarrow> bool" where
  "proper_tasks ts \<longleftrightarrow> ts \<noteq> [] \<and> distinct (map fst ts) \<and> (\<forall>(n, h) \<in> set ts. validateStepName n = None \<and> h \<noteq> [])"

lemma rows_entry: "(n, sd) \<in> set (rows p ts) \<Longrightarrow> \<exists>q h nxt. (n, h) \<in> set ts \<and> sd = row q n h nxt \<and> set nxt \<subseteq> set (map fst ts)"
proof (induction ts arbitrary: p)
  case (Cons t ts)
  obtain m g where t: "t = (m, g)" by fastforce
  have sub: "set (map fst (take 1 ts)) \<subseteq> set (map fst ts)" using set_take_subset [of 1 ts] by auto
  from Cons.prems t consider "n = m" "sd = row p m g (map fst (take 1 ts))" | "(n, sd) \<in> set (rows m ts)" by auto
  then show ?case
  proof cases
    case 1
    with t sub show ?thesis by (intro exI [of _ p] exI [of _ g] exI [of _ "map fst (take 1 ts)"]) auto
  next
    case 2
    from Cons.IH [OF this] obtain q h nxt where "(n, h) \<in> set ts" "sd = row q n h nxt" "set nxt \<subseteq> set (map fst ts)" by blast
    then show ?thesis by (intro exI [of _ q] exI [of _ h] exI [of _ nxt]) auto
  qed
qed simp

lemma rows_terminate:
  "ts \<noteq> [] \<Longrightarrow> \<forall>(n, sd) \<in> set (rows p ts). map_of steps n = Some sd \<Longrightarrow> terminating steps (fst (hd ts))"
proof (induction ts arbitrary: p)
  case (Cons t ts)
  obtain n h where t: "t = (n, h)" by fastforce
  show ?case
  proof (rule terminatingI)
    fix b
    assume "edge steps (fst (hd (t # ts))) b"
    with Cons.prems(2) t have "b \<in> set (map fst (take 1 ts))" by (auto simp: edge_def outs_def row_def zero_step_def)
    then show "terminating steps b" using Cons.IH [of n] Cons.prems(2) t by (cases ts) auto
  qed
qed simp

lemma rows_chain:
  "ts \<noteq> [] \<Longrightarrow> \<forall>(n, sd) \<in> set (rows p ts). map_of (def_steps def) n = Some sd \<Longrightarrow> chain def (map fst ts)"
proof (induction ts arbitrary: p)
  case (Cons t ts)
  obtain n h where t: "t = (n, h)" by fastforce
  show ?case
  proof (cases ts)
    case Nil
    with Cons.prems t show ?thesis by (simp add: row_def)
  next
    case (Cons u us)
    obtain m g where "u = (m, g)" by fastforce
    with Cons.IH [of n] Cons.prems t Cons show ?thesis by (auto simp: row_def zero_step_def)
  qed
qed simp

lemma row_definition_valid:
  assumes ts: "proper_tasks ts" and name: "wd_Name d \<noteq> []" and d: "wd_Definition d = wd_Definition (row_definition name v ts)"
  shows "ValidateWorkflowDefinition d = Ok ()" "validateDefinition d = Ok ()" "all_tasks d" "chain d (map fst ts)"
    "(n, h) \<in> set ts \<Longrightarrow> \<exists>sd. map_of (def_steps d) n = Some sd \<and> sd_Handler sd = h \<and> sd_Delay sd = 0"
proof -
  let ?r = "rows rootStepName ts"
  have graph: "def_steps d = ?r" "def_start d = fst (hd ts)" using d by (simp_all add: row_definition_def)
  have dist: "distinct (map fst ?r)" using ts by (simp add: proper_tasks_def)
  then have look: "\<forall>(n, sd) \<in> set ?r. map_of ?r n = Some sd" by (auto intro: map_of_is_SomeI)
  have ne: "ts \<noteq> []" using ts by (simp add: proper_tasks_def)
  have keys: "has_key ?r n" if "n \<in> set (map fst ts)" for n using that by (simp add: has_key_iff keys_def)
  have "valid_step ?r n sd" if "(n, sd) \<in> set ?r" for n sd
  proof -
    from rows_entry [OF that] obtain q h nxt where *: "(n, h) \<in> set ts" "sd = row q n h nxt" "set nxt \<subseteq> set (map fst ts)" by blast
    then have "resolves ?r nxt" using keys unfolding resolves_def by blast
    with * ts show ?thesis by (auto simp: valid_step_def proper_tasks_def row_def zero_step_def validateStepName_None resolves_real_def)
  qed
  moreover have "\<not> cycle_from ?r (fst (hd ts))" by (rule terminating_no_cycle_from [OF rows_terminate [OF ne look]])
  ultimately show valid: "ValidateWorkflowDefinition d = Ok ()" by (auto simp: Validate_Ok_iff valid_graph_def graph)
  have "fst (hd ts) \<in> set (map fst ts)" "?r \<noteq> []" "fst (hd ts) \<noteq> []"
    using ne ts by (auto simp: neq_Nil_conv proper_tasks_def validateStepName_None)
  with valid keys [of "fst (hd ts)"] ts name show "validateDefinition d = Ok ()"
    by (auto simp: validateDefinition_def graph proper_tasks_def validateStepName_None)
  show "all_tasks d" by (auto simp: all_tasks_def graph row_def dest!: rows_entry)
  show "chain d (map fst ts)" using rows_chain [OF ne, of rootStepName d] look by (simp add: graph)
  assume n: "(n, h) \<in> set ts"
  then have "n \<in> fst ` set ?r" by force
  then obtain sd where sd: "(n, sd) \<in> set ?r" by (metis imageE prod.collapse)
  from rows_entry [OF this] obtain q g nxt where g: "(n, g) \<in> set ts" "sd = row q n g nxt" by blast
  with n ts have "g = h" by (auto simp: proper_tasks_def dest: eq_key_imp_eq_value)
  with sd g look show "\<exists>sd. map_of (def_steps d) n = Some sd \<and> sd_Handler sd = h \<and> sd_Delay sd = 0" by (auto simp: graph row_def zero_step_def)
qed

lemma register_run:
  assumes "wf_store s" "wd_ID def \<noteq> []" "validateDefinition def = Ok ()"
  shows "\<exists>t d. RegisterWorkflow def s = (Ok (), t) \<and> map_of (ms_definitions t) (wd_ID def) = Some d \<and> wd_Definition d = wd_Definition def \<and>
    wd_Name d = wd_Name def \<and> ms_queue t = ms_queue s \<and> ms_nextInstanceID t = ms_nextInstanceID s \<and> ms_steps t = ms_steps s \<and>
    ms_stepsByInstance t = ms_stepsByInstance s \<and> ms_cancelRequests t = ms_cancelRequests s \<and> en_plugins t = en_plugins s \<and>
    en_isShuttingDown t = en_isShuttingDown s \<and> en_handlers t = en_handlers s \<and> en_calls t = en_calls s"
proof -
  have "map_of (ms_definitions s) k = Some d \<Longrightarrow> wd_ID d = k" for k d using assms(1) by (simp add: wf_store_def keyed_def)
  with assms(2,3) show ?thesis
    by (auto simp: RegisterWorkflow_def lift_outcome_def SaveWorkflowDefinition_def put_definition_def run_simps time_now_def split: option.split)
qed

text \<open>
  C3: from the builder to the end of the run.  A builder that is given a row of tasks, with distinct legal names and a handler each, builds a
  definition; an engine with an empty queue, no plugins and no stop requests accepts it; and when the handlers succeed, the workflow
  that \<open>Start\<close> creates from it is completed after as many worker turns as there are tasks, which were called once each, in the order
  in which they were given to the builder.
\<close>

theorem built_row_completes:
  assumes ts: "proper_tasks ts" and name: "name \<noteq> []"
    and s: "wf_store s" "quiet s" "ms_queue s = []" "steps_of s (ms_nextInstanceID s) = []"
    and handlers: "\<forall>h \<in> snd ` set ts. \<exists>f. map_of (en_handlers s) h = Some f \<and> (\<forall>calls ctx inp. \<exists>out. f calls ctx inp = (Returns out, []))"
  shows "\<exists>def t u inst. Build (add_steps ts (NewBuilder name v [])) = Ok def \<and> RegisterWorkflow def s = (Ok (), t) \<and>
    Start (build_id name v) inp t = (Ok (ms_nextInstanceID s), u) \<and> wi_ID inst = ms_nextInstanceID s \<and>
    completed_run inst (map fst ts) s (worker_turns (length ts) wk u)"
proof -
  define def where "def = row_definition name v ts"
  have "wd_Name def \<noteq> []" using name by (simp add: def_def row_definition_def)
  note valid = row_definition_valid [OF ts this, where name = name and v = v, folded def_def, OF refl]
  have build: "Build (add_steps ts (NewBuilder name v [])) = Ok def"
  proof -
    have "ts \<noteq> []" "distinct (map fst ts)" "[] \<notin> set (map fst ts)" "fst (hd ts) \<noteq> []"
      using ts by (auto simp: proper_tasks_def validateStepName_None neq_Nil_conv)
    with add_steps_rows [of ts name v] name valid(1) show ?thesis
      by (simp add: Build_def freeze_def NewBuilder_def apply_opts_def fresh_builder_def def_def row_definition_def Let_def)
  qed
  have id: "wd_ID def = build_id name v" "build_id name v \<noteq> []" by (simp_all add: def_def row_definition_def build_id_def)
  from register_run [OF s(1) _ valid(2)] id s(2-4) obtain t d where t: "RegisterWorkflow def s = (Ok (), t)"
    and reg: "map_of (ms_definitions t) (build_id name v) = Some d" "wd_Definition d = wd_Definition def" "wd_Name d = wd_Name def"
      "ms_queue t = []" "ms_nextInstanceID t = ms_nextInstanceID s" "steps_of t (ms_nextInstanceID s) = []" "quiet t" "en_handlers t = en_handlers s" "en_calls t = en_calls s"
    by (auto simp: steps_of_def quiet_def)
  have wf: "wf_store t" using movesD [OF sound_RegisterWorkflow, of s def] s(1) t by (simp add: sound_step_def)
  have "wd_Name d \<noteq> []" using reg(3) name by (simp add: def_def row_definition_def)
  note dvalid = row_definition_valid [OF ts this, where name = name and v = v, folded def_def, OF reg(2)]
  have first: "ts = (fst (hd ts), snd (hd ts)) # tl ts" "(fst (hd ts), snd (hd ts)) \<in> set ts" "def_start d = fst (hd ts)"
    using ts reg(2) by (auto simp: proper_tasks_def def_def row_definition_def)
  from dvalid(5) [OF first(2)] obtain sd where sd: "map_of (def_steps d) (def_start d) = Some sd" "sd_Delay sd \<le> 0" by (auto simp: first(3))
  from Start_stands [OF wf reg(7,4) _ reg(1) dvalid(2) sd, of inp] reg(5,6) obtain u inst where
    u: "Start (build_id name v) inp t = (Ok (ms_nextInstanceID s), u)" "wi_ID inst = ms_nextInstanceID s" "stands_at d inst [] (fst (hd ts)) 0 u"
      "en_calls u = en_calls s" "en_handlers u = en_handlers s" using reg(8,9) by (auto simp: first(3))
  have "answers u d n is_success" if "(n, h) \<in> set ts" for n h
  proof -
    from dvalid(5) [OF that] obtain sd where "map_of (def_steps d) n = Some sd" "sd_Handler sd = h" by blast
    moreover from that have "h \<in> snd ` set ts" by force
    with handlers obtain f where "map_of (en_handlers s) h = Some f" "\<forall>calls ctx inp. \<exists>out. f calls ctx inp = (Returns out, [])" by blast
    ultimately show ?thesis using u(5) by (simp add: answers_def is_success_def) blast
  qed
  then have "willing u d (map fst ts)" by (auto simp: willing_def)
  moreover have "map fst ts = fst (hd ts) # map fst (tl ts)" "length ts = length (fst (hd ts) # map fst (tl ts))" using first(2) by (cases ts; simp)+
  ultimately have "completed_run inst (map fst ts) u (worker_turns (length ts) wk u)"
    using chain_runs [OF dvalid(3) u(3), of "map fst (tl ts)" wk] dvalid(4) by simp
  with u build t show ?thesis by (auto simp: completed_run_def)
qed

theorem built_row_completes_witness:
  "\<exists>def t u inst. Build (add_steps [(''pay'', ''h''), (''ship'', ''h'')] (NewBuilder ''order'' 1 [])) = Ok def \<and> RegisterWorkflow def demo_linear = (Ok (), t) \<and>
    Start ''order-v1'' RawNil t = (Ok 1, u) \<and> wi_ID inst = 1 \<and> completed_run inst [''pay'', ''ship''] demo_linear (worker_turns 2 ''worker'' u)"
proof -
  have "wf_store demo_linear" using demo_registered_wf by (simp add: demo_linear_def wf_store_def)
  moreover have "ms_queue demo_linear = []" "steps_of demo_linear 1 = []" "ms_nextInstanceID demo_linear = 1"
    "ms_cancelRequests demo_linear = []" "\<not> en_isShuttingDown demo_linear" "en_plugins demo_linear = None"
    "proper_tasks [(''pay'', ''h''), (''ship'', ''h'')]" "build_id ''order'' 1 = ''order-v1''"
    by code_simp+
  moreover have "map_of (en_handlers demo_linear) ''h'' = Some (\<lambda>calls ctx inp. (Returns inp, []))" by (simp add: demo_linear_def)
  ultimately show ?thesis
    using built_row_completes [of "[(''pay'', ''h''), (''ship'', ''h'')]" "''order''" demo_linear 1 RawNil "''worker''"]
    by (auto simp: quiet_def numeral_2_eq_2)
qed

section \<open>Parallel\<close>

lemma modify_sd_fields [simp]: "b_currentStep (modify_sd n f b) = b_currentStep b" "b_err (modify_sd n f b) = b_err b"
  by (simp_all add: modify_sd_def put_sd_def split: option.split)

lemma put_sd_fields [simp]: "b_currentStep (put_sd n sd b) = b_currentStep b" "b_err (put_sd n sd b) = b_err b"
  by (simp_all add: put_sd_def)

lemma link_next_fields [simp]: "b_currentStep (link_next n b) = b_currentStep b" "b_err (link_next n b) = b_err b"
  by (simp_all add: link_next_def)

lemma add_tasks_current [simp]: "b_currentStep (add_tasks name i tasks b) = b_currentStep b"
  by (induction tasks arbitrary: i b) (simp_all add: fail_with_def)

lemma join_linked: "map_of (b_steps (link_next n (put_sd n sd b))) n = Some sd"
  by (auto simp: link_next_def modify_sd_def put_sd_def split: option.split)

text \<open>
  \<open>Parallel\<close> does not make its step the current one before it calls \<open>JoinStep\<close>.  So it always fails as the first call on a builder, whatever
  its tasks are, and after a step \<open>p\<close> the join that it adds has \<open>p\<close>, not the parallel step, as its previous step.
\<close>

theorem parallel_is_never_first: "b_currentStep b = [] \<Longrightarrow> b_err (Parallel name tasks b) \<noteq> None"
  by (simp add: Parallel_def JoinStep_def fail_with_def Let_def)

theorem parallel_join_bypasses:
  assumes "b_err (Parallel name tasks b) = None"
  shows "\<exists>sd. map_of (b_steps (Parallel name tasks b)) (name @ ''_join'') = Some sd \<and> sd_Prev sd = b_currentStep b"
  using assms
  by (simp add: Parallel_def JoinStep_def fail_with_def Let_def split: if_splits) (simp add: set_current_def join_linked)

end
