(* ===== verification/In_Flight.thy ===== *)
theory In_Flight
  imports Turns
begin

text \<open>
  The steps of an instance while several of them are under way: which names are completed, which one a worker has in hand, which wait,
  and the queue, which has one due item for each step that waits.  The order in which the queue hands them out is left open.
\<close>

section \<open>The queue and the pending steps of an instance\<close>

definition due_item :: "int \<Rightarrow> int \<Rightarrow> queue_item \<Rightarrow> bool" where
  "due_item i c item \<longleftrightarrow> qi_InstanceID item = i \<and> qi_AttemptedAt item = None \<and> qi_ScheduledAt item \<le> c \<and> 0 \<le> qi_Priority item"

definition pending_in :: "int \<Rightarrow> (int \<rightharpoonup> workflow_step) \<Rightarrow> int \<Rightarrow> bool" where
  "pending_in i M k \<longleftrightarrow> (\<exists>st. M k = Some st \<and> ws_InstanceID st = i \<and> ws_Status st = StepStatusPending)"

text \<open>Every queue item is unclaimed and due and belongs to a pending step of the instance, one item for each.\<close>

definition matched :: "int \<Rightarrow> int \<Rightarrow> (int \<rightharpoonup> workflow_step) \<Rightarrow> (int \<rightharpoonup> queue_item) \<Rightarrow> bool" where
  "matched i c M Q \<longleftrightarrow>
     (\<forall>q item. Q q = Some item \<longrightarrow> due_item i c item \<and> (\<exists>k. qi_StepID item = Some k \<and> pending_in i M k)) \<and>
     (\<forall>q q' item item'. Q q = Some item \<and> Q q' = Some item' \<and> qi_StepID item = qi_StepID item' \<longrightarrow> q = q') \<and>
     (\<forall>k. pending_in i M k \<longrightarrow> (\<exists>q item. Q q = Some item \<and> qi_StepID item = Some k))"

lemma matchedD:
  assumes "matched i c M Q"
  shows "Q q = Some item \<Longrightarrow> due_item i c item" "Q q = Some item \<Longrightarrow> \<exists>k. qi_StepID item = Some k \<and> pending_in i M k"
    "Q q = Some item \<Longrightarrow> Q q' = Some item' \<Longrightarrow> qi_StepID item = qi_StepID item' \<Longrightarrow> q = q'"
    "pending_in i M k \<Longrightarrow> \<exists>q item. Q q = Some item \<and> qi_StepID item = Some k"
  using assms unfolding matched_def by blast+

lemma matchedI:
  assumes "\<And>q item. Q q = Some item \<Longrightarrow> due_item i c item \<and> (\<exists>k. qi_StepID item = Some k \<and> pending_in i M k)"
    "\<And>q q' item item'. Q q = Some item \<Longrightarrow> Q q' = Some item' \<Longrightarrow> qi_StepID item = qi_StepID item' \<Longrightarrow> q = q'"
    "\<And>k. pending_in i M k \<Longrightarrow> \<exists>q item. Q q = Some item \<and> qi_StepID item = Some k"
  shows "matched i c M Q"
  using assms unfolding matched_def by blast

lemma matched_later: "matched i c M Q \<Longrightarrow> c \<le> d \<Longrightarrow> matched i d M Q"
  by (force simp: matched_def due_item_def)

lemma matched_cong: "(\<And>k. pending_in i M' k = pending_in i M k) \<Longrightarrow> matched i c M' Q = matched i c M Q"
  by (simp add: matched_def)

lemma matched_remove:
  assumes m: "matched i c M Q" and q: "Q q = Some item" "qi_StepID item = Some k" and su: "ws_Status su \<noteq> StepStatusPending"
  shows "matched i c (M(k \<mapsto> su)) (Q(q := None))"
proof (rule matchedI)
  have pend: "pending_in i (M(k \<mapsto> su)) l \<longleftrightarrow> pending_in i M l \<and> l \<noteq> k" for l using su by (auto simp: pending_in_def)
  fix q' item'
  assume *: "(Q(q := None)) q' = Some item'"
  then have Q': "Q q' = Some item'" "q' \<noteq> q" by (auto split: if_splits)
  then have "qi_StepID item' \<noteq> Some k" using matchedD(3) [OF m q(1), of q' item'] q(2) by auto
  with matchedD(1,2) [OF m Q'(1)] show "due_item i c item' \<and> (\<exists>l. qi_StepID item' = Some l \<and> pending_in i (M(k \<mapsto> su)) l)"
    by (auto simp: pend)
next
  fix q1 q2 item1 item2
  assume "(Q(q := None)) q1 = Some item1" "(Q(q := None)) q2 = Some item2" "qi_StepID item1 = qi_StepID item2"
  then show "q1 = q2" using matchedD(3) [OF m] by (auto split: if_splits)
next
  fix l
  assume "pending_in i (M(k \<mapsto> su)) l"
  then have l: "pending_in i M l" "l \<noteq> k" using su by (auto simp: pending_in_def split: if_splits)
  from matchedD(4) [OF m l(1)] obtain q' item' where "Q q' = Some item'" "qi_StepID item' = Some l" by blast
  with q l(2) show "\<exists>q' item'. (Q(q := None)) q' = Some item' \<and> qi_StepID item' = Some l"
    by (intro exI [of _ q'] exI [of _ item']) auto
qed

lemma matched_add:
  assumes m: "matched i c M Q" and new: "M k = None" "Q q = None"
    and sn: "ws_Status sn = StepStatusPending" "ws_InstanceID sn = i" and item: "due_item i c item" "qi_StepID item = Some k"
  shows "matched i c (M(k \<mapsto> sn)) (Q(q \<mapsto> item))"
proof (rule matchedI)
  have pend: "pending_in i (M(k \<mapsto> sn)) l \<longleftrightarrow> pending_in i M l \<or> l = k" for l using new sn by (auto simp: pending_in_def)
  fix q' item'
  assume "(Q(q \<mapsto> item)) q' = Some item'"
  then show "due_item i c item' \<and> (\<exists>l. qi_StepID item' = Some l \<and> pending_in i (M(k \<mapsto> sn)) l)"
    using matchedD(1,2) [OF m, of q' item'] item pend by (cases "q' = q") auto
next
  have none: "qi_StepID item' \<noteq> Some k" if "Q q' = Some item'" for q' item'
    using matchedD(2) [OF m that] new(1) by (auto simp: pending_in_def)
  fix q1 q2 item1 item2
  assume "(Q(q \<mapsto> item)) q1 = Some item1" "(Q(q \<mapsto> item)) q2 = Some item2" "qi_StepID item1 = qi_StepID item2"
  then show "q1 = q2" using matchedD(3) [OF m] none item(2) by (auto split: if_splits)
next
  fix l
  assume "pending_in i (M(k \<mapsto> sn)) l"
  then consider "l = k" | "pending_in i M l" by (auto simp: pending_in_def split: if_splits)
  then show "\<exists>q' item'. (Q(q \<mapsto> item)) q' = Some item' \<and> qi_StepID item' = Some l"
  proof cases
    case 1
    with item show ?thesis by auto
  next
    case 2
    from matchedD(4) [OF m this] obtain q' item' where "Q q' = Some item'" "qi_StepID item' = Some l" by blast
    with new(2) show ?thesis by (intro exI [of _ q'] exI [of _ item']) auto
  qed
qed

section \<open>The names of the steps\<close>

definition has_document :: "raw \<Rightarrow> bool" where
  "has_document r \<longleftrightarrow> (\<exists>doc. marshal_raw r = Inr doc)"

text \<open>The steps named in \<open>C\<close> are completed, those in \<open>R\<close> run, those in \<open>P\<close> wait; there is one step of each name, of the type
  that \<open>T\<close> gives.\<close>

definition standing :: "(string \<Rightarrow> step_type) \<Rightarrow> string set \<Rightarrow> string set \<Rightarrow> string set \<Rightarrow> workflow_step \<Rightarrow> bool" where
  "standing T C R P st \<longleftrightarrow>
     ws_StepType st = T (ws_StepName st) \<and>
     (ws_Status st = StepStatusCompleted \<and> ws_StepName st \<in> C \<and> has_document (ws_Output st) \<or>
      ws_Status st = StepStatusRunning \<and> ws_StepName st \<in> R \<or>
      ws_Status st = StepStatusPending \<and> ws_StepName st \<in> P)"

definition named_steps :: "int \<Rightarrow> (string \<Rightarrow> step_type) \<Rightarrow> string set \<Rightarrow> string set \<Rightarrow> string set \<Rightarrow> (int \<rightharpoonup> workflow_step) \<Rightarrow> bool" where
  "named_steps i T C R P M \<longleftrightarrow> C \<inter> R = {} \<and> C \<inter> P = {} \<and> R \<inter> P = {} \<and>
     (\<forall>k st. M k = Some st \<and> ws_InstanceID st = i \<longrightarrow> standing T C R P st) \<and>
     (\<forall>k k' st st'. M k = Some st \<and> M k' = Some st' \<and> ws_InstanceID st = i \<and> ws_InstanceID st' = i \<and> ws_StepName st = ws_StepName st' \<longrightarrow> k = k') \<and>
     (\<forall>n \<in> C \<union> R \<union> P. \<exists>k st. M k = Some st \<and> ws_InstanceID st = i \<and> ws_StepName st = n)"

lemma named_stepsD:
  assumes "named_steps i T C R P M"
  shows "C \<inter> R = {}" "C \<inter> P = {}" "R \<inter> P = {}" "M k = Some st \<Longrightarrow> ws_InstanceID st = i \<Longrightarrow> standing T C R P st"
    "M k = Some st \<Longrightarrow> M k' = Some st' \<Longrightarrow> ws_InstanceID st = i \<Longrightarrow> ws_InstanceID st' = i \<Longrightarrow> ws_StepName st = ws_StepName st' \<Longrightarrow> k = k'"
    "n \<in> C \<union> R \<union> P \<Longrightarrow> \<exists>k st. M k = Some st \<and> ws_InstanceID st = i \<and> ws_StepName st = n"
  using assms unfolding named_steps_def by blast+

lemma named_stepsI:
  assumes "C \<inter> R = {}" "C \<inter> P = {}" "R \<inter> P = {}" "\<And>k st. M k = Some st \<Longrightarrow> ws_InstanceID st = i \<Longrightarrow> standing T C R P st"
    "\<And>k k' st st'. M k = Some st \<Longrightarrow> M k' = Some st' \<Longrightarrow> ws_InstanceID st = i \<Longrightarrow> ws_InstanceID st' = i \<Longrightarrow> ws_StepName st = ws_StepName st' \<Longrightarrow> k = k'"
    "\<And>n. n \<in> C \<union> R \<union> P \<Longrightarrow> \<exists>k st. M k = Some st \<and> ws_InstanceID st = i \<and> ws_StepName st = n"
  shows "named_steps i T C R P M"
  using assms unfolding named_steps_def by blast

text \<open>A step changes its status, or a new one appears.\<close>

lemma named_steps_move:
  assumes names: "named_steps i T C R P M" and old: "M k = Some st" "ws_InstanceID st = i"
    and su: "ws_InstanceID su = i" "ws_StepName su = ws_StepName st" "standing T C' R' P' su"
    and sets: "C' \<union> R' \<union> P' = C \<union> R \<union> P" "C' \<inter> R' = {}" "C' \<inter> P' = {}" "R' \<inter> P' = {}"
    and same: "C' - {ws_StepName st} = C - {ws_StepName st}" "R' - {ws_StepName st} = R - {ws_StepName st}"
      "P' - {ws_StepName st} = P - {ws_StepName st}"
  shows "named_steps i T C' R' P' (M(k \<mapsto> su))"
proof -
  have "standing T C' R' P' x" if x: "(M(k \<mapsto> su)) l = Some x" "ws_InstanceID x = i" for l x
  proof (cases "l = k")
    case True
    with x su show ?thesis by simp
  next
    case False
    with x have M: "M l = Some x" by simp
    with False x(2) old named_stepsD(5) [OF names M old(1)] have "ws_StepName x \<noteq> ws_StepName st" by auto
    with named_stepsD(4) [OF names M x(2)] same show ?thesis unfolding standing_def by blast
  qed
  moreover have "l = l'" if "(M(k \<mapsto> su)) l = Some x" "(M(k \<mapsto> su)) l' = Some x'" "ws_InstanceID x = i" "ws_InstanceID x' = i"
    "ws_StepName x = ws_StepName x'" for l l' x x'
    using that named_stepsD(5) [OF names] old su by (auto split: if_splits)
  moreover have "\<exists>l x. (M(k \<mapsto> su)) l = Some x \<and> ws_InstanceID x = i \<and> ws_StepName x = n" if "n \<in> C' \<union> R' \<union> P'" for n
  proof -
    from that sets(1) have "n \<in> C \<union> R \<union> P" by simp
    from named_stepsD(6) [OF names this] obtain l x where x: "M l = Some x" "ws_InstanceID x = i" "ws_StepName x = n" by blast
    then show ?thesis using old su by (cases "l = k") auto
  qed
  ultimately show ?thesis using sets(2-4) by (rule named_stepsI [rotated 3])
qed

lemma named_steps_add:
  assumes names: "named_steps i T C R P M" and new: "M k = None" "ws_StepName sn \<notin> C \<union> R \<union> P"
    and sn: "ws_InstanceID sn = i" "ws_Status sn = StepStatusPending" "ws_StepType sn = T (ws_StepName sn)"
  shows "named_steps i T C R (insert (ws_StepName sn) P) (M(k \<mapsto> sn))"
proof -
  have other: "ws_StepName x \<noteq> ws_StepName sn" if "M l = Some x" "ws_InstanceID x = i" for l x
    using named_stepsD(4) [OF names that] new(2) by (auto simp: standing_def)
  have "standing T C R (insert (ws_StepName sn) P) x" if "(M(k \<mapsto> sn)) l = Some x" "ws_InstanceID x = i" for l x
    using that named_stepsD(4) [OF names, of l x] sn by (auto simp: standing_def split: if_splits)
  moreover have "l = l'" if "(M(k \<mapsto> sn)) l = Some x" "(M(k \<mapsto> sn)) l' = Some x'" "ws_InstanceID x = i" "ws_InstanceID x' = i"
    "ws_StepName x = ws_StepName x'" for l l' x x'
  proof (cases "l = k \<or> l' = k")
    case True
    with that other [of l x] other [of l' x'] show ?thesis by (metis fun_upd_apply option.inject)
  next
    case False
    with that show ?thesis by (intro named_stepsD(5) [OF names, of l x l' x']) simp_all
  qed
  moreover have "\<exists>l x. (M(k \<mapsto> sn)) l = Some x \<and> ws_InstanceID x = i \<and> ws_StepName x = n" if "n \<in> C \<union> R \<union> insert (ws_StepName sn) P" for n
  proof (cases "n = ws_StepName sn")
    case True
    then show ?thesis using sn by (intro exI [of _ k] exI [of _ sn]) simp
  next
    case False
    with that named_stepsD(6) [OF names, of n] obtain l x where "M l = Some x" "ws_InstanceID x = i" "ws_StepName x = n" by blast
    with new(1) show ?thesis by (intro exI [of _ l] exI [of _ x]) auto
  qed
  moreover have "C \<inter> insert (ws_StepName sn) P = {}" "R \<inter> insert (ws_StepName sn) P = {}" using named_stepsD(1-3) [OF names] new(2) by blast+
  ultimately show ?thesis using named_stepsD(1) [OF names] by (intro named_stepsI)
qed

section \<open>The state of the engine\<close>

text \<open>The items in \<open>busy\<close> are claimed by a worker.\<close>

definition flight :: "int \<Rightarrow> (string \<Rightarrow> step_type) \<Rightarrow> string set \<Rightarrow> string set \<Rightarrow> string set \<Rightarrow> int set \<Rightarrow> engine \<Rightarrow> bool" where
  "flight i T C R P busy s \<longleftrightarrow> wf_store s \<and> named_steps i T C R P (map_of (ms_steps s)) \<and>
     matched i (ms_clock s) (map_of (ms_steps s)) (map_of (ms_queue s) |` (- busy)) \<and> (\<forall>q \<in> busy. q < ms_nextQueueID s)"

lemma flightD:
  assumes "flight i T C R P busy s"
  shows "wf_store s" "named_steps i T C R P (map_of (ms_steps s))"
    "matched i (ms_clock s) (map_of (ms_steps s)) (map_of (ms_queue s) |` (- busy))" "q \<in> busy \<Longrightarrow> q < ms_nextQueueID s"
  using assms by (simp_all add: flight_def)

lemma flight_free: "flight i T C R P {} s \<Longrightarrow> matched i (ms_clock s) (map_of (ms_steps s)) (map_of (ms_queue s))"
  by (simp add: flight_def restrict_map_def)

lemma flight_cong:
  assumes "flight i T C R P busy s" "wf_store t" "ms_steps t = ms_steps s" "ms_queue t = ms_queue s" "ms_nextQueueID t = ms_nextQueueID s"
    "ms_clock s \<le> ms_clock t"
  shows "flight i T C R P busy t"
  using assms matched_later by (auto simp: flight_def)

lemma flight_logged: "flight i T C R P busy s \<Longrightarrow> flight i T C R P busy (logged j sid n p s)"
  by (frule flightD(1), erule flight_cong) (simp_all add: logged_wf)

text \<open>A pending step is created and queued: for the next step, for a branch of a fork, for a join that is ready.\<close>

definition spawn :: "int \<Rightarrow> string \<Rightarrow> step_type \<Rightarrow> raw \<Rightarrow> int \<Rightarrow> int \<Rightarrow> engine \<Rightarrow> engine" where
  "spawn i n ty inp maxr delay s =
     snd (EnqueueStep i (Some (ms_nextStepID s)) PriorityNormal delay (with_created s (new_step i n ty StepStatusPending inp maxr)))"

lemma enqueue_one_spawns:
  "map_of (def_steps def) n = Some sd \<Longrightarrow>
   enqueue_one i def inp n s = (Ok (), spawn i n (sd_Type sd) inp (sd_MaxRetries sd) (sd_Delay sd) s)"
  by (simp add: enqueue_one_def spawn_def run_simps created_def)

lemma fork_branch_spawns:
  "map_of (def_steps def) n = Some sd \<Longrightarrow>
   fork_branch i def inp n s = (Ok (), spawn i n (sd_Type sd) inp (sd_MaxRetries sd) (sd_Delay sd) s)"
  by (simp add: fork_branch_def spawn_def run_simps created_def)

text \<open>What stays the same, besides steps, queue and join states.\<close>

definition same_frame :: "engine \<Rightarrow> engine \<Rightarrow> bool" where
  "same_frame s t \<longleftrightarrow> ms_instances t = ms_instances s \<and> ms_definitions t = ms_definitions s \<and> ms_cancelRequests t = ms_cancelRequests s \<and>
     en_handlers t = en_handlers s \<and> en_plugins t = en_plugins s \<and> en_isShuttingDown t = en_isShuttingDown s \<and> en_calls t = en_calls s"

lemma same_frame_refl [simp]: "same_frame s s"
  by (simp add: same_frame_def)

lemma same_frame_trans: "same_frame s t \<Longrightarrow> same_frame t u \<Longrightarrow> same_frame s u"
  by (simp add: same_frame_def)

lemma same_frame_keeps: "same_frame s t \<Longrightarrow> quiet t = quiet s" "same_frame s t \<Longrightarrow> knows t inst def = knows s inst def"
  by (simp_all add: same_frame_def quiet_def knows_def)

lemma same_frame_logged [simp]: "same_frame s (logged j sid n p t) = same_frame s t"
  by (simp add: same_frame_def)

lemma spawn_frame [simp]: "same_frame t (spawn i n ty inp maxr delay s) = same_frame t s"
  "ms_joinStates (spawn i n ty inp maxr delay s) = ms_joinStates s"
  by (simp_all add: spawn_def same_frame_def run_simps)

lemma wf_spawn: "wf_store s \<Longrightarrow> wf_store (spawn i n ty inp maxr delay s)"
proof -
  assume "wf_store s"
  then have "wf_store (with_created s (new_step i n ty StepStatusPending inp maxr))"
    using movesD [OF wf_CreateStep, of s] by (simp add: keeps_def with_created_def)
  with movesD [OF wf_EnqueueStep] show ?thesis unfolding spawn_def keeps_def by blast
qed

lemma flight_spawn:
  assumes s: "flight i T C R P busy s" and n: "n \<notin> C \<union> R \<union> P" and delay: "delay \<le> 0" and ty: "ty = T n"
  shows "flight i T C R (insert n P) busy (spawn i n ty inp maxr delay s)"
proof -
  define sn where "sn = created s (new_step i n ty StepStatusPending inp maxr)"
  define item where "item = enqueued (with_created s (new_step i n ty StepStatusPending inp maxr)) i (Some (ms_nextStepID s)) PriorityNormal delay"
  let ?t = "spawn i n ty inp maxr delay s"
  have sn: "ws_InstanceID sn = i" "ws_Status sn = StepStatusPending" "ws_StepName sn = n" "ws_StepType sn = T n" by (simp_all add: sn_def new_step_def ty)
  have fresh: "map_of (ms_steps s) (ms_nextStepID s) = None" using wf_fresh(1) [OF flightD(1) [OF s]] by (simp add: has_key_def)
  have "\<not> has_key (ms_queue s) (ms_nextQueueID s)" using flightD(1) [OF s] by (auto simp: wf_store_def numbered_def)
  then have slot: "(map_of (ms_queue s) |` (- busy)) (ms_nextQueueID s) = None" by (simp add: has_key_def restrict_map_def)
  have t: "map_of (ms_steps ?t) = (map_of (ms_steps s))(ms_nextStepID s \<mapsto> sn)" "ms_nextQueueID ?t = ms_nextQueueID s + 1"
    "map_of (ms_queue ?t) = (map_of (ms_queue s))(ms_nextQueueID s \<mapsto> item)" "ms_clock ?t = ms_clock s + 2"
    by (simp_all add: spawn_def run_simps sn_def item_def fun_eq_iff)
  have "ms_nextQueueID s \<notin> busy" using flightD(4) [OF s] by blast
  then have q: "map_of (ms_queue ?t) |` (- busy) = (map_of (ms_queue s) |` (- busy))(ms_nextQueueID s \<mapsto> item)"
    by (auto simp: t restrict_map_def fun_eq_iff)
  have "due_item i (ms_clock ?t) item" "qi_StepID item = Some (ms_nextStepID s)"
    using delay by (simp_all add: due_item_def item_def enqueued_def t PriorityNormal_def)
  then have "matched i (ms_clock ?t) (map_of (ms_steps ?t)) (map_of (ms_queue ?t) |` (- busy))"
    unfolding q t(1) using matched_later [OF flightD(3) [OF s], of "ms_clock ?t"] fresh slot sn
    by (intro matched_add) (simp_all add: t)
  moreover have "named_steps i T C R (insert n P) (map_of (ms_steps ?t))"
    unfolding t(1) using named_steps_add [OF flightD(2) [OF s] fresh, of sn] n sn by simp
  ultimately show ?thesis
    using wf_spawn [OF flightD(1) [OF s]] flightD(4) [OF s] by (fastforce simp: flight_def t)
qed

section \<open>A turn of the worker\<close>

lemma flight_pick:
  assumes s: "flight i T C {} P {} s" and P: "P \<noteq> {}"
  obtains item st where "picks s item" "map_of (ms_queue s) (qi_ID item) = Some item" "qi_InstanceID item = i" "qi_StepID item = Some (ws_ID st)"
    "map_of (ms_steps s) (ws_ID st) = Some st" "ws_InstanceID st = i" "ws_Status st = StepStatusPending" "ws_StepName st \<in> P"
    "ws_StepType st = T (ws_StepName st)"
proof -
  note match = flight_free [OF s]
  from P named_stepsD(6) [OF flightD(2) [OF s]] obtain k st n where k: "map_of (ms_steps s) k = Some st" "ws_InstanceID st = i"
    "ws_StepName st = n" "n \<in> P" by blast
  with named_stepsD(2,4) [OF flightD(2) [OF s]] have "pending_in i (map_of (ms_steps s)) k" by (fastforce simp: pending_in_def standing_def)
  from matchedD(4) [OF match this] obtain q item where q: "map_of (ms_queue s) q = Some item" by blast
  from matchedD(1) [OF match q] have "due_item i (ms_clock s) item" .
  with map_of_SomeD [OF q] have "item \<in> set (map snd (ms_queue s))" "eligible (ms_clock s) item" "0 \<le> store_priority s item"
    by (force simp: due_item_def eligible_def intro: store_priority_nonneg)+
  then have "dequeue_select (store_priority s) (ms_clock s) (map snd (ms_queue s)) \<noteq> None"
    using dequeue_select_None [of "store_priority s" "ms_clock s" "map snd (ms_queue s)"] by fastforce
  then obtain best where best: "picks s best" by (auto simp: picks_def)
  then obtain kb where "(kb, best) \<in> set (ms_queue s)" using dequeue_select_Some(1) [OF best [unfolded picks_def]] by auto
  then have b: "map_of (ms_queue s) (qi_ID best) = Some best" using queue_key [OF flightD(1) [OF s]] by blast
  from matchedD(2) [OF match b] obtain l where l: "qi_StepID best = Some l" "pending_in i (map_of (ms_steps s)) l" by blast
  then obtain su where su: "map_of (ms_steps s) l = Some su" "ws_InstanceID su = i" "ws_Status su = StepStatusPending" by (auto simp: pending_in_def)
  have "ws_ID su = l" using flightD(1) [OF s] su(1) by (auto simp: wf_store_def steps_ok_def dest: numbered_key)
  moreover have "ws_StepName su \<in> P" "ws_StepType su = T (ws_StepName su)" using named_stepsD(4) [OF flightD(2) [OF s] su(1,2)] su(3) by (simp_all add: standing_def)
  moreover have "qi_InstanceID best = i" using matchedD(1) [OF match b] by (simp add: due_item_def)
  ultimately show thesis using that best b l su by blast
qed

lemma flight_begun:
  assumes s: "flight i T C {} P {} s" and item: "map_of (ms_queue s) (qi_ID item) = Some item0" "qi_StepID item0 = Some (ws_ID st)"
    and st: "map_of (ms_steps s) (ws_ID st) = Some st" "ws_InstanceID st = i" "ws_Status st = StepStatusPending"
    and u: "started_from s item u" and b: "b = begun_state inst st sd u"
  shows "flight i T C {ws_StepName st} (P - {ws_StepName st}) {qi_ID item} b"
proof -
  define su where "su = step_after (ms_clock u) StepStatusRunning RawNil None st"
  note match = flight_free [OF s]
  have name: "ws_StepName st \<in> P" using named_stepsD(4) [OF flightD(2) [OF s] st(1,2)] st(3) by (simp add: standing_def)
  note f = begun_fields [OF u st(1) b]
  have steps: "map_of (ms_steps b) = (map_of (ms_steps s))(ws_ID st \<mapsto> su)" by (simp add: f su_def fun_eq_iff)
  have queue: "map_of (ms_queue b) |` (- {qi_ID item}) = (map_of (ms_queue s))(qi_ID item := None)"
    using u by (auto simp: f started_from_def restrict_map_def fun_eq_iff)
  have ty: "ws_StepType st = T (ws_StepName st)" using named_stepsD(4) [OF flightD(2) [OF s] st(1,2)] by (simp add: standing_def)
  have "named_steps i T C {ws_StepName st} (P - {ws_StepName st}) (map_of (ms_steps b))"
    unfolding steps using name named_stepsD(1-3) [OF flightD(2) [OF s]] st(2) ty
    by (intro named_steps_move [OF flightD(2) [OF s] st(1,2)]) (auto simp: su_def standing_def)
  moreover have "matched i (ms_clock b) (map_of (ms_steps b)) (map_of (ms_queue b) |` (- {qi_ID item}))"
    unfolding steps queue using matched_later [OF match f(14)] item by (intro matched_remove) (simp_all add: su_def)
  moreover have "qi_ID item < ms_nextQueueID b" using u f by (simp add: started_from_def)
  ultimately show ?thesis using wf_begun [OF u] b by (simp add: flight_def)
qed

lemma flight_called: "flight i T C R P busy (begun_state inst st sd u) \<Longrightarrow> flight i T C R P busy (called_state inst st sd u)"
  by (frule flightD(1), erule flight_cong) (simp_all add: called_state_def Let_def)

lemma flight_completed:
  assumes s: "flight i T C {n} P busy s" and x: "map_of (ms_steps s) (ws_ID st) = Some x" "ws_InstanceID x = i" "ws_StepName x = n"
    and out: "has_document out" and w: "w = completed_state inst st out s"
  shows "flight i T (insert n C) {} P busy w"
proof -
  define su where "su = step_after (ms_clock s) StepStatusCompleted out None x"
  have steps: "map_of (ms_steps w) = (map_of (ms_steps s))(ws_ID st \<mapsto> su)"
    by (simp add: w completed_state_def UpdateStep_run [OF x(1)] su_def fun_eq_iff)
  have rest: "ms_queue w = ms_queue s" "ms_nextQueueID w = ms_nextQueueID s" "ms_clock s \<le> ms_clock w"
    by (simp_all add: w completed_state_def UpdateStep_run [OF x(1)])
  have wf: "wf_store w" using flightD(1) [OF s] by (simp add: w completed_state_def logged_wf wf_UpdateStep_state)
  have run: "ws_Status x = StepStatusRunning" "ws_StepType x = T (ws_StepName x)"
    using named_stepsD(4) [OF flightD(2) [OF s] x(1,2)] named_stepsD(1-3) [OF flightD(2) [OF s]] x(3) by (auto simp: standing_def)
  have "named_steps i T (insert n C) {} P (map_of (ms_steps w))"
    unfolding steps using named_stepsD(1-3) [OF flightD(2) [OF s]] x out run(2)
    by (intro named_steps_move [OF flightD(2) [OF s] x(1,2)]) (auto simp: su_def standing_def)
  moreover have "pending_in i (map_of (ms_steps w)) k = pending_in i (map_of (ms_steps s)) k" for k
    using x(1) run(1) by (auto simp: steps pending_in_def su_def)
  from matched_cong [OF this, of "ms_clock s" "map_of (ms_queue s) |` (- busy)"] flightD(3) [OF s]
  have "matched i (ms_clock s) (map_of (ms_steps w)) (map_of (ms_queue w) |` (- busy))" by (simp only: rest)
  then have "matched i (ms_clock w) (map_of (ms_steps w)) (map_of (ms_queue w) |` (- busy))" using rest(3) by (rule matched_later)
  ultimately show ?thesis using wf rest flightD(4) [OF s] by (simp add: flight_def)
qed

lemma wf_end: "wf_store v \<Longrightarrow> wf_store (v\<lparr>en_cancelContexts := cs, ms_queue := AList.delete q (ms_queue v), en_activeSteps := n\<rparr>)"
  by (simp add: wf_store_def numbered_delete)

lemma flight_end:
  assumes "flight i T C R P {q} v"
  shows "flight i T C R P {} (v\<lparr>en_cancelContexts := cs, ms_queue := AList.delete q (ms_queue v), en_activeSteps := n\<rparr>)"
proof -
  have "map_of (AList.delete q (ms_queue v)) = map_of (ms_queue v) |` (- {q})" by (auto simp: delete_conv' restrict_map_def fun_eq_iff)
  then show ?thesis using flightD [OF assms] wf_end by (simp add: flight_def)
qed

lemma flight_over: "flight i T C {} {} {} s \<Longrightarrow> ms_queue s = [] \<and> (\<forall>st \<in> set (steps_of s i). ws_Status st = StepStatusCompleted)"
proof -
  assume s: "flight i T C {} {} {} s"
  note match = flight_free [OF s]
  have all: "ws_Status st = StepStatusCompleted" if "map_of (ms_steps s) k = Some st" "ws_InstanceID st = i" for k st
    using named_stepsD(4) [OF flightD(2) [OF s] that] by (simp add: standing_def)
  then have "\<not> pending_in i (map_of (ms_steps s)) k" for k by (auto simp: pending_in_def)
  then have "map_of (ms_queue s) q = None" for q using matchedD(2) [OF match] by (metis not_None_eq)
  then have "ms_queue s = []" by (metis map_of_eq_empty_iff ext)
  with all show ?thesis by (auto simp: steps_of_set [OF flightD(1) [OF s]])
qed

text \<open>The turn on a step without a handler, whose execution succeeds.\<close>

lemma turn_succeeds:
  assumes wf: "wf_store s" and quiet: "quiet s" and knows: "knows s inst def"
    and item0: "picks s item0" "qi_InstanceID item0 = wi_ID inst" "qi_StepID item0 = Some (ws_ID st)"
    and st: "map_of (ms_steps s) (ws_ID st) = Some st" "ws_InstanceID st = wi_ID inst" "ws_Status st = StepStatusPending"
    and sd: "map_of (def_steps def) (ws_StepName st) = Some sd" "ws_StepType st \<noteq> StepTypeTask"
  obtains item u where "started_from s item u" "qi_ID item = qi_ID item0"
    "\<And>out v x. execute_by_type inst (StepCopy st) sd (begun_state inst st sd u) = (Ok (out, True, False, StepCopy st), v) \<Longrightarrow> same_frame (begun_state inst st sd u) v \<Longrightarrow>
       handleStepSuccess inst (StepCopy st) sd out True v = (Ok (), x) \<Longrightarrow>
       \<exists>cs. ExecuteNext wk s = (Ok False, x\<lparr>en_cancelContexts := cs, ms_queue := AList.delete (qi_ID item) (ms_queue x),
         en_activeSteps := en_activeSteps x - 1\<rparr>)"
proof -
  obtain item u where u: "started_from s item u" "qi_ID item = qi_ID item0"
    and run: "\<And>v. executeStep inst (StepCopy st) u = (Ok (), v) \<Longrightarrow>
       ExecuteNext wk s = (Ok False, v\<lparr>ms_queue := AList.delete (qi_ID item) (ms_queue v), en_activeSteps := en_activeSteps v - 1\<rparr>)"
    by (rule turn_executes [OF wf quiet _ _ _ item0 st(1,2) _ sd(1), where wk = wk]) (use knows st sd in \<open>auto simp: knows_def\<close>)
  have ku: "knows u inst def" "quiet u" "map_of (ms_steps u) (ws_ID st) = Some st" using u(1) knows quiet st by (simp_all add: started_from_def knows_def quiet_def)
  have "\<exists>cs. ExecuteNext wk s = (Ok False, x\<lparr>en_cancelContexts := cs, ms_queue := AList.delete (qi_ID item) (ms_queue x),
         en_activeSteps := en_activeSteps x - 1\<rparr>)"
    if v: "execute_by_type inst (StepCopy st) sd (begun_state inst st sd u) = (Ok (out, True, False, StepCopy st), v)" "same_frame (begun_state inst st sd u) v"
      and x: "handleStepSuccess inst (StepCopy st) sd out True v = (Ok (), x)" for out v x
  proof -
    have kept: "en_plugins v = None" "ms_cancelRequests v = []" using v(2) ku by (simp_all add: same_frame_def quiet_def)
    have "attempt (execute_by_type inst (StepCopy st) sd) (begun_state inst st sd u) = (Ok (Inr (out, True, False, StepCopy st)), v)"
      using v(1) by (simp add: run_simps)
    from executeStep_run [OF ku(1,3) sd(1) ku(2) this] kept
    have exec: "executeStep inst (StepCopy st) u = deferring (unregisterInstanceContext (wi_ID inst) (ws_ID st))
        (after_execution inst (StepCopy st) sd (Inr (out, True, False, StepCopy st))) v" by simp
    have "after_execution inst (StepCopy st) sd (Inr (out, True, False, StepCopy st)) v = (Ok (), x)"
      using x kept by (simp add: after_execution_def ExecuteStepComplete_def with_plugins_def run_simps)
    from deferring_unregister [where body = "after_execution inst (StepCopy st) sd (Inr (out, True, False, StepCopy st))", OF this] run exec
    show ?thesis by fastforce
  qed
  then show thesis using that u by blast
qed

end
