(* ===== verification/Fork_Shape.thy ===== *)
theory Fork_Shape
  imports Linear_Run In_Flight
begin

text \<open>
  A fork into branches that are rows of tasks, and its join: the shape of the definition, how far the branches are, and
  what the engine does about the join when a step ends.
\<close>

section \<open>The shape of the workflow\<close>

definition kinds_ok :: "workflow_definition \<Rightarrow> string \<Rightarrow> string \<Rightarrow> bool" where
  "kinds_ok def f j \<longleftrightarrow> distinct (map fst (def_steps def)) \<and>
     (\<forall>(n, sd) \<in> set (def_steps def). sd_Type sd \<noteq> StepTypeCondition \<and> (sd_Type sd = StepTypeFork \<longrightarrow> n = f) \<and> (sd_Type sd = StepTypeJoin \<longrightarrow> n = j))"

definition fork_step_ok :: "workflow_definition \<Rightarrow> string \<Rightarrow> string \<Rightarrow> string list list \<Rightarrow> bool" where
  "fork_step_ok def f j brs \<longleftrightarrow> (\<exists>fd. map_of (def_steps def) f = Some fd \<and> sd_Type fd = StepTypeFork \<and> sd_Parallel fd = map hd brs \<and>
     sd_Next fd = [j] \<and> sd_Delay fd \<le> 0)"

definition join_step_ok :: "workflow_definition \<Rightarrow> string \<Rightarrow> string list list \<Rightarrow> bool" where
  "join_step_ok def j brs \<longleftrightarrow> (\<exists>jd. map_of (def_steps def) j = Some jd \<and> sd_Type jd = StepTypeJoin \<and> sd_WaitFor jd = map last brs \<and>
     default_strategy (sd_JoinStrategy jd) = JoinStrategyAll \<and> sd_Next jd = [])"

definition branch_step_ok :: "workflow_definition \<Rightarrow> string list \<Rightarrow> nat \<Rightarrow> bool" where
  "branch_step_ok def br p \<longleftrightarrow> (\<exists>sd. map_of (def_steps def) (br ! p) = Some sd \<and> sd_Type sd = StepTypeTask \<and> sd_Delay sd \<le> 0 \<and>
     sd_Next sd = (if Suc p < length br then [br ! Suc p] else []))"

definition fork_shape :: "workflow_definition \<Rightarrow> string \<Rightarrow> string \<Rightarrow> string list list \<Rightarrow> bool" where
  "fork_shape def f j brs \<longleftrightarrow> kinds_ok def f j \<and> fork_step_ok def f j brs \<and> join_step_ok def j brs \<and>
     brs \<noteq> [] \<and> [] \<notin> set brs \<and> distinct (f # j # concat brs) \<and> (\<forall>br \<in> set brs. \<forall>p < length br. branch_step_ok def br p)"

lemma step_ok_code [code]:
  "fork_step_ok def f j brs \<longleftrightarrow> (case map_of (def_steps def) f of None \<Rightarrow> False
    | Some fd \<Rightarrow> sd_Type fd = StepTypeFork \<and> sd_Parallel fd = map hd brs \<and> sd_Next fd = [j] \<and> sd_Delay fd \<le> 0)"
  "join_step_ok def j brs \<longleftrightarrow> (case map_of (def_steps def) j of None \<Rightarrow> False
    | Some jd \<Rightarrow> sd_Type jd = StepTypeJoin \<and> sd_WaitFor jd = map last brs \<and> default_strategy (sd_JoinStrategy jd) = JoinStrategyAll \<and> sd_Next jd = [])"
  "branch_step_ok def br p \<longleftrightarrow> (case map_of (def_steps def) (br ! p) of None \<Rightarrow> False
    | Some sd \<Rightarrow> sd_Type sd = StepTypeTask \<and> sd_Delay sd \<le> 0 \<and> sd_Next sd = (if Suc p < length br then [br ! Suc p] else []))"
  by (simp_all add: fork_step_ok_def join_step_ok_def branch_step_ok_def split: option.split)

definition type_in :: "workflow_definition \<Rightarrow> string \<Rightarrow> step_type" where
  "type_in def n = (case map_of (def_steps def) n of Some sd \<Rightarrow> sd_Type sd | None \<Rightarrow> StepTypeTask)"

lemma kinds_okD:
  assumes "kinds_ok def f j" "map_of (def_steps def) n = Some sd"
  shows "sd_Type sd \<noteq> StepTypeCondition" "sd_Type sd = StepTypeFork \<Longrightarrow> n = f" "sd_Type sd = StepTypeJoin \<Longrightarrow> n = j"
  using assms(1) map_of_SomeD [OF assms(2)] by (auto simp: kinds_ok_def)

lemma fork_shapeD:
  assumes "fork_shape def f j brs"
  shows "kinds_ok def f j" "fork_step_ok def f j brs" "join_step_ok def j brs" "brs \<noteq> []" "[] \<notin> set brs" "distinct (concat brs)"
    "f \<noteq> j" "f \<notin> set (concat brs)" "j \<notin> set (concat brs)" "b < length brs \<Longrightarrow> p < length (brs ! b) \<Longrightarrow> branch_step_ok def (brs ! b) p"
  using assms by (auto simp: fork_shape_def)

section \<open>Positions in the branches\<close>

text \<open>\<open>k b\<close> is the number of steps of the branch \<open>b\<close> that are completed.\<close>

definition ended :: "string \<Rightarrow> string list list \<Rightarrow> (nat \<Rightarrow> nat) \<Rightarrow> string set" where
  "ended f brs k = insert f (\<Union>b < length brs. set (take (k b) (brs ! b)))"

definition waiting :: "string list list \<Rightarrow> (nat \<Rightarrow> nat) \<Rightarrow> string set" where
  "waiting brs k = (\<Union>b < length brs. if k b < length (brs ! b) then {brs ! b ! k b} else {})"

definition finished :: "string list list \<Rightarrow> (nat \<Rightarrow> nat) \<Rightarrow> string set" where
  "finished brs k = (\<Union>b < length brs. if k b = length (brs ! b) then {last (brs ! b)} else {})"

definition in_range :: "string list list \<Rightarrow> (nat \<Rightarrow> nat) \<Rightarrow> bool" where
  "in_range brs k \<longleftrightarrow> (\<forall>b < length brs. k b \<le> length (brs ! b))"

definition all_in :: "string list list \<Rightarrow> (nat \<Rightarrow> nat) \<Rightarrow> bool" where
  "all_in brs k \<longleftrightarrow> (\<forall>b < length brs. k b = length (brs ! b))"

lemma branch_names_unique:
  assumes "distinct (concat brs)" "b < length brs" "c < length brs" "p < length (brs ! b)" "q < length (brs ! c)" "brs ! b ! p = brs ! c ! q"
  shows "b = c \<and> p = q"
proof -
  have apart: "set (brs ! b) \<inter> set (brs ! c) = {}" if "distinct (concat brs)" "b < c" "c < length brs" for b c
    using that
  proof (induction brs arbitrary: b c)
    case (Cons br brs)
    then show ?case by (cases b; cases c) (auto dest!: nth_mem)
  qed simp
  have "b = c"
  proof (rule ccontr)
    assume "b \<noteq> c"
    then consider "b < c" | "c < b" by linarith
    then have "set (brs ! b) \<inter> set (brs ! c) = {}" using apart [OF assms(1)] assms(2,3) by cases blast+
    with assms(4-6) show False by (metis disjoint_iff nth_mem)
  qed
  moreover have "distinct (brs ! b)" using assms(1,2) by (auto simp: distinct_concat_iff)
  ultimately show ?thesis using assms by (simp add: nth_eq_iff_index_eq)
qed

lemma branch_name_in: "b < length brs \<Longrightarrow> p < length (brs ! b) \<Longrightarrow> brs ! b ! p \<in> set (concat brs)"
  by (auto intro!: bexI [of _ "brs ! b"])

lemma UN_at: "b \<in> I \<Longrightarrow> (\<Union>c \<in> I. F c ((k(b := v)) c)) = F b v \<union> (\<Union>c \<in> I - {b}. F c (k c))"
  by (auto split: if_splits)

lemma UN_here: "b \<in> I \<Longrightarrow> (\<Union>c \<in> I. F c (k c)) = F b (k b) \<union> (\<Union>c \<in> I - {b}. F c (k c))"
  by auto

lemma ended_step:
  assumes "b < length brs" "k b < length (brs ! b)"
  shows "ended f brs (k(b := Suc (k b))) = insert (brs ! b ! k b) (ended f brs k)"
  using assms UN_at [of b "{..<length brs}" "\<lambda>b v. set (take v (brs ! b))" k "Suc (k b)"]
    UN_here [of b "{..<length brs}" "\<lambda>b v. set (take v (brs ! b))" k]
  unfolding ended_def by (simp add: take_Suc_conv_app_nth insert_commute)

lemma waiting_step:
  assumes d: "distinct (concat brs)" and b: "b < length brs" "k b < length (brs ! b)"
  shows "waiting brs (k(b := Suc (k b))) = (waiting brs k - {brs ! b ! k b}) \<union> (if Suc (k b) < length (brs ! b) then {brs ! b ! Suc (k b)} else {})"
proof -
  define F where "F = (\<lambda>b v. if v < length (brs ! b) then {brs ! b ! v} else {})"
  have "brs ! c ! k c \<noteq> brs ! b ! k b" if "c < length brs" "k c < length (brs ! c)" "c \<noteq> b" for c
    using branch_names_unique [OF d that(1) b(1) that(2) b(2)] that(3) by blast
  then have "brs ! b ! k b \<notin> (\<Union>c \<in> {..<length brs} - {b}. F c (k c))" by (fastforce simp: F_def split: if_splits)
  moreover have "waiting brs l = (\<Union>c < length brs. F c (l c))" for l by (simp add: waiting_def F_def)
  moreover have "F b (k b) = {brs ! b ! k b}" using b(2) by (simp add: F_def)
  ultimately have "waiting brs (k(b := Suc (k b))) = F b (Suc (k b)) \<union> (waiting brs k - {brs ! b ! k b})"
    using UN_at [of b "{..<length brs}" F k "Suc (k b)"] UN_here [of b "{..<length brs}" F k] b(1) by simp
  then show ?thesis by (simp add: F_def Un_commute)
qed

lemma finished_step:
  assumes b: "b < length brs" "k b < length (brs ! b)"
  shows "finished brs (k(b := Suc (k b))) = finished brs k \<union> (if Suc (k b) = length (brs ! b) then {brs ! b ! k b} else {})"
proof -
  define F where "F = (\<lambda>b v. if v = length (brs ! b) then {last (brs ! b)} else {})"
  have "last (brs ! b) = brs ! b ! k b" if "Suc (k b) = length (brs ! b)" using that by (metis diff_Suc_1 last_conv_nth list.size(3) nat.distinct(1))
  then have "F b (Suc (k b)) = (if Suc (k b) = length (brs ! b) then {brs ! b ! k b} else {})" by (simp add: F_def)
  moreover have "finished brs l = (\<Union>c < length brs. F c (l c))" for l by (simp add: finished_def F_def)
  moreover have "F b (k b) = {}" using b(2) by (simp add: F_def)
  ultimately show ?thesis
    using UN_at [of b "{..<length brs}" F k "Suc (k b)"] UN_here [of b "{..<length brs}" F k] b(1) by auto
qed

lemma next_name_fresh:
  assumes "distinct (concat brs)" "b < length brs" "Suc (k b) < length (brs ! b)" "f \<notin> set (concat brs)"
  shows "brs ! b ! Suc (k b) \<notin> ended f brs k \<union> waiting brs k"
proof -
  have "brs ! b ! Suc (k b) \<noteq> f" using branch_name_in [OF assms(2,3)] assms(4) by auto
  moreover have "brs ! b ! Suc (k b) \<noteq> brs ! c ! p" if "c < length brs" "p < length (brs ! c)" "p \<le> k c" for c p
    using branch_names_unique [OF assms(1,2) that(1) assms(3) that(2)] that(3) by auto
  ultimately show ?thesis by (auto simp: ended_def waiting_def in_set_conv_nth split: if_splits) (metis less_imp_le)+
qed

section \<open>What the engine looks up in the definition\<close>

lemma no_condition_kind: "kinds_ok def f j \<Longrightarrow> condition_walk (def_steps def) visited n = []"
proof (induction "def_steps def" visited n rule: condition_walk.induct)
  case (1 visited n)
  then show ?case by (subst condition_walk.simps) (auto dest: kinds_okD(1) split: option.split)
qed

lemma fork_with_kind: "kinds_ok def f j \<Longrightarrow> fork_with (def_steps def) n \<in> {[], f}"
  by (auto simp: fork_with_def kinds_ok_def find_Some_iff dest!: nth_mem split: option.split)

lemma fork_walk_kind: "kinds_ok def f j \<Longrightarrow> fork_walk (def_steps def) visited n \<in> {[], f}"
proof (induction "def_steps def" visited n rule: fork_walk.induct)
  case (1 visited n)
  with fork_with_kind [of def f j n] show ?case by (subst fork_walk.simps) (auto dest: kinds_okD(2) split: option.split)
qed

lemma join_of_branch_kind:
  assumes "fork_shape def f j brs" "knows s inst def"
  shows "\<exists>n \<in> {[], j}. join_of_branch (wi_ID inst) m def s = (Ok n, s)"
proof -
  from fork_shapeD(2,3) [OF assms(1)] have "join_after (def_steps def) f = j"
    by (auto simp: fork_step_ok_def join_step_ok_def join_after_def)
  with fork_with_kind [OF fork_shapeD(1) [OF assms(1)], of m] fork_walk_kind [OF fork_shapeD(1) [OF assms(1)], of "[]"] assms(2)
  show ?thesis
    by (auto simp: join_of_branch_def findForkStepForParallelStep_def instance_def_def GetInstance_def GetWorkflowDefinition_def
        findJoinStepForForkBranch_def run_simps knows_def Let_def split: option.split)
qed

text \<open>
  The join has counted the branches that are finished, and is ready when all are.
\<close>

definition tally :: "int \<Rightarrow> string \<Rightarrow> string list list \<Rightarrow> (nat \<Rightarrow> nat) \<Rightarrow> engine \<Rightarrow> bool" where
  "tally i j brs k s \<longleftrightarrow> (\<exists>js. map_of (ms_joinStates s) (joinStateKey i j) = Some js \<and> js_WaitingFor js = map last brs \<and>
     js_JoinStrategy js = JoinStrategyAll \<and> js_Failed js = [] \<and> distinct (js_Completed js) \<and> set (js_Completed js) = finished brs k \<and>
     (js_IsReady js \<longleftrightarrow> all_in brs k))"

lemma settle_join_success_branch:
  assumes shape: "fork_shape def f j brs" and s: "knows s inst def" "tally (wi_ID inst) j brs k s"
    and sd: "sd_Next sd = [] \<longrightarrow> ws_StepName st \<in> set (map last brs)" "map_of (def_steps def) (ws_StepName st) = Some sd"
  shows "settle_join_success inst st sd def s = (Ok (), s)"
proof -
  from join_of_branch_kind [OF shape s(1), of "ws_StepName st"] obtain n where
    n: "join_of_branch (wi_ID inst) (ws_StepName st) def s = (Ok n, s)" "n = [] \<or> n = j" by blast
  from s(2) obtain js where "map_of (ms_joinStates s) (joinStateKey (wi_ID inst) j) = Some js" "js_WaitingFor js = map last brs"
    by (auto simp: tally_def)
  with n sd s(1) no_condition_kind [OF fork_shapeD(1) [OF shape]] show ?thesis
    by (auto simp: settle_join_success_def findConditionStepInBranch_def findForkStepForParallelStep_def instance_def_def GetInstance_def
        GetWorkflowDefinition_def run_simps knows_def isTerminalStepInForkBranch_def settle_terminal_def GetJoinState_def Let_def)
qed

section \<open>Notifying the join\<close>

lemma for_each_append: "for_each xs f s = (Ok (), t) \<Longrightarrow> for_each (xs @ ys) f s = for_each ys f t"
  by (induction xs arbitrary: s) (auto simp: run_simps split: prod.splits outcome.splits)

lemma for_each_one:
  assumes "x \<in> set xs" "distinct xs" "\<And>y s. y \<in> set xs \<Longrightarrow> y \<noteq> x \<Longrightarrow> f y s = (Ok (), s)" "f x s = (Ok (), t)"
  shows "for_each xs f s = (Ok (), t)"
proof -
  obtain as bs where xs: "xs = as @ x # bs" using assms(1) by (meson split_list)
  have "for_each as f s = (Ok (), s)" "for_each bs f t = (Ok (), t)" using assms(2,3) xs by (auto intro!: for_each_skip)
  then show ?thesis using for_each_append [of as f s s "x # bs"] assms(4) by (simp add: xs run_simps)
qed

lemma notifyJoinSteps_shape:
  assumes shape: "fork_shape def f j brs" and s: "knows s inst def" "tally (wi_ID inst) j brs k s"
    and upd: "n \<in> set (map last brs) \<Longrightarrow> (\<And>jd. map_of (def_steps def) j = Some jd \<Longrightarrow> update_join (wi_ID inst) j jd n ok inst s = (Ok (), t))"
    and skip: "n \<notin> set (map last brs) \<Longrightarrow> t = s"
  shows "notifyJoinSteps (wi_ID inst) n ok s = (Ok (), t)"
proof -
  from fork_shapeD(3) [OF shape] obtain jd where jd: "map_of (def_steps def) j = Some jd" "sd_Type jd = StepTypeJoin" "sd_WaitFor jd = map last brs"
    by (auto simp: join_step_ok_def)
  have dist: "distinct (map fst (def_steps def))" using fork_shapeD(1) [OF shape] by (simp add: kinds_ok_def)
  let ?body = "\<lambda>(stepName, stepDef). if sd_Type stepDef \<noteq> StepTypeJoin then ret ()
       else bnd (waits_for (wi_ID inst) stepName stepDef n) (\<lambda>waiting.
         if \<not> waiting then ret () else update_join (wi_ID inst) stepName stepDef n ok inst)"
  from s(2) obtain js where "map_of (ms_joinStates s) (joinStateKey (wi_ID inst) j) = Some js" "js_WaitingFor js = map last brs"
    by (auto simp: tally_def)
  with jd(2,3) have "waits_for (wi_ID inst) j jd n s = (Ok (n \<in> set (map last brs)), s)"
    by (simp add: waits_for_def GetJoinState_def run_simps)
  then have here: "?body (j, jd) s = (Ok (), t)" using jd(1,2) upd skip by (cases "n \<in> set (map last brs)") (simp_all add: run_simps)
  have "?body y u = (Ok (), u)" if "y \<in> set (def_steps def)" "y \<noteq> (j, jd)" for y u
  proof -
    obtain m sd where y: "y = (m, sd)" by fastforce
    with that(1) dist have "map_of (def_steps def) m = Some sd" by (auto intro: map_of_is_SomeI)
    with kinds_okD(3) [OF fork_shapeD(1) [OF shape] this] that(2) jd(1) y show ?thesis by (auto simp: run_simps)
  qed
  from for_each_one [where f = ?body, OF map_of_SomeD [OF jd(1)] _ this here] dist
  have "for_each (def_steps def) ?body s = (Ok (), t)" by (simp add: distinct_map)
  with s(1) show ?thesis by (simp add: notifyJoinSteps_def GetInstance_def GetWorkflowDefinition_def run_simps knows_def)
qed

lemma for_find_reads:
  assumes "\<And>x. \<exists>r. f x s = (Ok r, s)"
  shows "\<exists>r. for_find xs f s = (Ok r, s)"
proof (induction xs)
  case (Cons x xs)
  from assms [of x] obtain r where "f x s = (Ok r, s)" by blast
  with Cons show ?case by (cases r) (simp_all add: run_simps)
qed (simp add: run_simps)

lemma no_pending_in_branches:
  assumes "\<And>st. st \<in> set sts \<Longrightarrow> ws_Status st = StepStatusCompleted"
  shows "hasPendingStepsInParallelBranches i jd sts s = (Ok False, s)"
proof -
  have fork: "\<exists>n. findForkStepForParallelStep i m s = (Ok n, s)" for m
    by (auto simp: findForkStepForParallelStep_def instance_def_def GetInstance_def GetWorkflowDefinition_def run_simps split: option.split)
  have "\<exists>r. (if \<exists>st \<in> set sts. ws_StepName st = w then bnd (findForkStepForParallelStep i w) (\<lambda>f. ret (if f \<noteq> [] then Some f else None))
      else ret None) s = (Ok r, s)" for w
    using fork [of w] by (auto simp: run_simps)
  from for_find_reads [where f = "\<lambda>w. if \<exists>st \<in> set sts. ws_StepName st = w then bnd (findForkStepForParallelStep i w) (\<lambda>f. ret (if f \<noteq> [] then Some f else None))
      else ret None" and xs = "sd_WaitFor jd", OF this] have "\<exists>n. fork_of_join i (sd_WaitFor jd) sts s = (Ok n, s)"
    unfolding fork_of_join_def by (auto simp: bnd_run ret_def)
  with assms show ?thesis
    by (auto simp: hasPendingStepsInParallelBranches_def instance_def_def GetInstance_def GetWorkflowDefinition_def run_simps split: option.split)
qed

lemma all_in_finished:
  assumes "distinct (concat brs)" "[] \<notin> set brs" "in_range brs k"
  shows "finished brs k \<subseteq> set (map last brs)" "finished brs k = set (map last brs) \<longleftrightarrow> all_in brs k" "distinct (map last brs)"
proof -
  have last: "last (brs ! b) = brs ! b ! (length (brs ! b) - 1)" "length (brs ! b) - 1 < length (brs ! b)" if "b < length brs" for b
    using that assms(2) by (metis last_conv_nth nth_mem, metis diff_less length_greater_0_conv nth_mem zero_less_one)
  have same: "b = c" if "b < length brs" "c < length brs" "last (brs ! b) = last (brs ! c)" for b c
    using branch_names_unique [OF assms(1) that(1,2) last(2) [OF that(1)] last(2) [OF that(2)]] last(1) that by simp
  show "finished brs k \<subseteq> set (map last brs)" by (auto simp: finished_def split: if_splits)
  show "distinct (map last brs)" using same by (auto simp: distinct_conv_nth)
  have in_iff: "last (brs ! b) \<in> finished brs k \<longleftrightarrow> k b = length (brs ! b)" if "b < length brs" for b
    using that same by (auto simp: finished_def split: if_splits)
  have "set (map last brs) \<subseteq> finished brs k \<longleftrightarrow> all_in brs k"
  proof
    assume sub: "set (map last brs) \<subseteq> finished brs k"
    have "last (brs ! b) \<in> finished brs k" if "b < length brs" for b using sub nth_mem [OF that] by auto
    with in_iff show "all_in brs k" by (simp add: all_in_def)
  next
    assume all: "all_in brs k"
    have "last br \<in> finished brs k" if br: "br \<in> set brs" for br
    proof -
      obtain b where "b < length brs" "br = brs ! b" using br by (auto simp: in_set_conv_nth)
      with in_iff all show ?thesis by (simp add: all_in_def)
    qed
    then show "set (map last brs) \<subseteq> finished brs k" by auto
  qed
  then show "finished brs k = set (map last brs) \<longleftrightarrow> all_in brs k" using \<open>finished brs k \<subseteq> set (map last brs)\<close> by blast
qed

lemma tally_update:
  assumes tally: "tally i j brs k s" and n: "finished brs k' = insert n (finished brs k)" and brs: "distinct (concat brs)" "[] \<notin> set brs" "in_range brs k'"
  shows "\<exists>t. UpdateJoinState i j n True s = (Ok (all_in brs k'), t) \<and> tally i j brs k' t \<and> same_frame s t \<and>
    (\<forall>T C R P busy. flight i T C R P busy s \<longrightarrow> flight i T C R P busy t)"
proof -
  from tally obtain js where js: "map_of (ms_joinStates s) (joinStateKey i j) = Some js" "js_WaitingFor js = map last brs"
     "js_JoinStrategy js = JoinStrategyAll" "js_Failed js = []" "distinct (js_Completed js)" "set (js_Completed js) = finished brs k"
    by (auto simp: tally_def)
  define js' where "js' = refresh_ready (ms_clock s) (mark_success n js)"
  define t where "t = s\<lparr>ms_clock := ms_clock s + 1, ms_joinStates := AList.update (joinStateKey i j) js' (ms_joinStates s)\<rparr>"
  note all = all_in_finished [OF brs]
  have f: "js_WaitingFor js' = map last brs" "js_JoinStrategy js' = JoinStrategyAll" "js_Failed js' = []" "distinct (js_Completed js')"
    "set (js_Completed js') = finished brs k'"
    using js n by (auto simp: js'_def refresh_ready_def mark_success_def)
  have "length (js_Completed js') = card (finished brs k')" using f(4,5) distinct_card by fastforce
  moreover have "length brs \<le> card (finished brs k') \<longleftrightarrow> finished brs k' = set (map last brs)"
    using card_seteq [OF _ all(1)] distinct_card [OF all(3)] by auto
  ultimately have ready: "js_IsReady js' = all_in brs k'"
    using f all(2) by (simp add: js'_def refresh_ready_def checkJoinReady_def)
  have run: "UpdateJoinState i j n True s = (Ok (all_in brs k'), t)"
    using js(1) ready by (simp add: UpdateJoinState_def run_simps time_now_def put_join_def Let_def js'_def t_def)
  have "wf_store t" if "wf_store s" using movesD [OF wf_UpdateJoinState, of s i j n True] that run by (simp add: keeps_def)
  then have "flight i T C R P busy t" if "flight i T C R P busy s" for T C R P busy
    using flight_cong [OF that, of t] flightD(1) [OF that] by (simp add: t_def)
  moreover have "tally i j brs k' t" using f ready by (simp add: tally_def t_def)
  moreover have "same_frame s t" by (simp add: same_frame_def t_def)
  ultimately show ?thesis using run by blast
qed

definition stage :: "string \<Rightarrow> string list list \<Rightarrow> (nat \<Rightarrow> nat) \<Rightarrow> string set" where
  "stage j brs k = waiting brs k \<union> (if all_in brs k then {j} else {})"

lemma waiting_all_in: "all_in brs k \<Longrightarrow> waiting brs k = {}"
  by (auto simp: waiting_def all_in_def)

lemma stage_nonempty: "in_range brs k \<Longrightarrow> stage j brs k \<noteq> {}"
  by (fastforce simp: stage_def waiting_def all_in_def in_range_def le_less split: if_splits)

lemma ended_names: "ended f brs k \<subseteq> insert f (set (concat brs))"
  by (auto simp: ended_def dest!: in_set_takeD)

lemma join_created:
  assumes s: "flight i T C {} {} busy s" "j \<notin> C" and inst: "wi_Status inst \<noteq> StatusDLQ" and ty: "T j = StepTypeJoin"
  shows "\<exists>t. create_join_step i j n inst (steps_of s i) s = (Ok (), t) \<and> flight i T C {} {j} busy t \<and> same_frame s t \<and>
    ms_joinStates t = ms_joinStates s"
proof -
  have "ws_StepName st \<noteq> j" if "st \<in> set (steps_of s i)" for st
    using that named_stepsD(4) [OF flightD(2) [OF s(1)]] s(2) by (auto simp: steps_of_set [OF flightD(1) [OF s(1)]] standing_def)
  then have none: "\<not> (\<exists>st \<in> set (steps_of s i). ws_StepName st = j)" by blast
  define inp where "inp = (case find (\<lambda>st. ws_StepName st = n) (steps_of s i) of None \<Rightarrow> RawNil | Some st \<Rightarrow> ws_Input st)"
  define t where "t = logged i (Some (ms_nextStepID s)) ''join_ready'' [(''join_step'', JString j)] (spawn i j StepTypeJoin inp 0 0 s)"
  have "create_join_step i j n inst (steps_of s i) s = (Ok (), t)"
    using none inst by (simp add: create_join_step_def run_simps t_def spawn_def inp_def Let_def)
  moreover have "flight i T C {} {j} busy t"
    unfolding t_def using flight_spawn [OF s(1), of j 0 StepTypeJoin] s(2) ty by (intro flight_logged) simp
  ultimately show ?thesis by (auto simp: t_def)
qed

lemma notify_branch_end:
  assumes shape: "fork_shape def f j brs" and s: "knows s inst def" "tally (wi_ID inst) j brs k s"
    and fl: "flight (wi_ID inst) (type_in def) (ended f brs k') {} (waiting brs k') busy s"
    and n: "n \<in> set (map last brs)" "finished brs k' = insert n (finished brs k)" and k': "in_range brs k'"
  shows "\<exists>t. notifyJoinSteps (wi_ID inst) n True s = (Ok (), t) \<and> flight (wi_ID inst) (type_in def) (ended f brs k') {} (stage j brs k') busy t \<and>
    tally (wi_ID inst) j brs k' t \<and> same_frame s t"
proof -
  let ?i = "wi_ID inst"
  from tally_update [OF s(2) n(2) fork_shapeD(6,5) [OF shape] k'] fl obtain u where
    u: "UpdateJoinState ?i j n True s = (Ok (all_in brs k'), u)" "tally ?i j brs k' u" "same_frame s u"
      "flight ?i (type_in def) (ended f brs k') {} (waiting brs k') busy u" by blast
  have wf: "wf_store u" using flightD(1) [OF u(4)] .
  define log where "log = logged ?i None ''join_updated'' [(''join_step'', JString j), (''completed_step'', JString n),
      (''success'', JBool True), (''is_ready'', JBool (all_in brs k'))] u"
  have log: "tally ?i j brs k' log" "same_frame s log" "flight ?i (type_in def) (ended f brs k') {} (waiting brs k') busy log"
    using u flight_logged [OF u(4)] by (simp_all add: log_def tally_def)
  have steps: "steps_of log ?i = steps_of u ?i" by (simp add: log_def steps_of_def)
  have "\<exists>t. (\<forall>jd. update_join ?i j jd n True inst s = (Ok (), t)) \<and> flight ?i (type_in def) (ended f brs k') {} (stage j brs k') busy t \<and>
    tally ?i j brs k' t \<and> same_frame s t"
  proof (cases "all_in brs k'")
    case False
    then have "update_join ?i j jd n True inst s = (Ok (), log)" for jd using u(1) by (simp add: update_join_def run_simps log_def)
    with log False show ?thesis by (intro exI [of _ log]) (simp add: stage_def)
  next
    case True
    have "j \<notin> ended f brs k'" using fork_shapeD(7,9) [OF shape] ended_names [of f brs k'] by auto
    moreover have "type_in def j = StepTypeJoin" using fork_shapeD(3) [OF shape] by (auto simp: join_step_ok_def type_in_def)
    ultimately obtain t where
      t: "create_join_step ?i j n inst (steps_of u ?i) log = (Ok (), t)" "flight ?i (type_in def) (ended f brs k') {} {j} busy t" "same_frame log t"
        "ms_joinStates t = ms_joinStates log"
      using join_created [of ?i "type_in def" "ended f brs k'" busy log j inst n] log(3) True s(1)
      by (auto simp: waiting_all_in steps knows_def)
    have "ws_Status st = StepStatusCompleted" if "st \<in> set (steps_of u ?i)" for st
      using that named_stepsD(4) [OF flightD(2) [OF u(4)]] True by (auto simp: steps_of_set [OF wf] standing_def waiting_all_in)
    from no_pending_in_branches [OF this] have "update_join ?i j jd n True inst s = (Ok (), t)" for jd
      using u(1) True t(1) by (simp add: update_join_def run_simps log_def GetStepsByInstance_run [OF wf])
    with t log True show ?thesis
      by (intro exI [of _ t]) (auto simp: stage_def waiting_all_in tally_def intro: same_frame_trans)
  qed
  then obtain t where t: "\<forall>jd. update_join ?i j jd n True inst s = (Ok (), t)" "flight ?i (type_in def) (ended f brs k') {} (stage j brs k') busy t"
    "tally ?i j brs k' t" "same_frame s t" by blast
  have "notifyJoinSteps ?i n True s = (Ok (), t)" using t(1) n(1) by (intro notifyJoinSteps_shape [OF shape s]) auto
  with t show ?thesis by blast
qed

end
