(* ===== verification/Fork_Run.thy ===== *)
theory Fork_Run
  imports Fork_Shape Builder
begin

text \<open>
  A fork from start to the end of its join: branches that are rows of tasks whose handlers succeed.  The queue decides in which order
  the steps of the branches run; whatever it is, each branch runs in its own order, the join step is created by the
  last branch that ends, and the workflow completes.
\<close>

section \<open>A turn on a branch\<close>

lemma flight_unfinished: "flight i T C R P busy s \<Longrightarrow> P \<noteq> {} \<Longrightarrow> hasUnfinishedSteps i s = (Ok True, s)"
proof -
  assume s: "flight i T C R P busy s" and "P \<noteq> {}"
  then obtain n where n: "n \<in> P" by blast
  with named_stepsD(6) [OF flightD(2) [OF s], of n] obtain k st where st: "map_of (ms_steps s) k = Some st" "ws_InstanceID st = i"
    "ws_StepName st = n" by blast
  with named_stepsD(2-4) [OF flightD(2) [OF s]] n have "ws_Status st = StepStatusPending" by (fastforce simp: standing_def)
  moreover have "ws_ID st = k" using flightD(1) [OF s] st(1) by (auto simp: wf_store_def steps_ok_def dest: numbered_key)
  then have "st \<in> set (steps_of s i)" using st steps_of_set [OF flightD(1) [OF s]] by auto
  ultimately show ?thesis by (auto simp: hasUnfinishedSteps_def any_step_run [OF flightD(1) [OF s]])
qed

definition gives_document :: "handler_result \<Rightarrow> bool" where
  "gives_document answer \<longleftrightarrow> (\<exists>out. answer = Returns out \<and> has_document out)"

definition forked :: "workflow_definition \<Rightarrow> workflow_instance \<Rightarrow> string \<Rightarrow> string \<Rightarrow> string list list \<Rightarrow> (nat \<Rightarrow> nat) \<Rightarrow> engine \<Rightarrow> bool" where
  "forked def inst f j brs k s \<longleftrightarrow> flight (wi_ID inst) (type_in def) (ended f brs k) {} (stage j brs k) {} s \<and> quiet s \<and> knows s inst def \<and>
     tally (wi_ID inst) j brs k s \<and> in_range brs k"

lemma last_name_iff:
  assumes shape: "fork_shape def f j brs" and b: "b < length brs" "p < length (brs ! b)"
  shows "brs ! b ! p \<in> set (map last brs) \<longleftrightarrow> Suc p = length (brs ! b)"
proof
  assume "brs ! b ! p \<in> set (map last brs)"
  then obtain a where a: "a < length brs" "brs ! b ! p = last (brs ! a)" by (auto simp: in_set_conv_nth)
  then have "brs ! a \<noteq> []" using fork_shapeD(5) [OF shape] nth_mem by metis
  then have "length (brs ! a) - 1 < length (brs ! a)" "brs ! b ! p = brs ! a ! (length (brs ! a) - 1)" using a(2) by (simp_all add: last_conv_nth)
  from branch_names_unique [OF fork_shapeD(6) [OF shape] b(1) a(1) b(2) this] b(2) show "Suc p = length (brs ! b)" by auto
next
  assume "Suc p = length (brs ! b)"
  then have "brs ! b ! p = last (brs ! b)" using b(2) by (metis diff_Suc_1 last_conv_nth list.size(3) nat.distinct(1))
  then show "brs ! b ! p \<in> set (map last brs)" using b(1) by simp
qed

text \<open>What follows the completion of a branch step: the next step of the branch, or the notification of the join.\<close>

lemma branch_step_success:
  assumes shape: "fork_shape def f j brs" and b: "b < length brs" "k b < length (brs ! b)" and k: "in_range brs k"
    and sd: "map_of (def_steps def) (brs ! b ! k b) = Some sd" and k': "k' = k(b := Suc (k b))"
    and c: "knows c inst def" "map_of (ms_steps c) (ws_ID st) = Some x" "ws_StepName st = brs ! b ! k b"
    and w: "w = completed_state inst st out c" "flight (wi_ID inst) (type_in def) (ended f brs k') {} (waiting brs k - {brs ! b ! k b}) busy w"
      "tally (wi_ID inst) j brs k w"
  shows "\<exists>t. handleStepSuccess inst (StepCopy st) sd out True c = (Ok (), t) \<and> flight (wi_ID inst) (type_in def) (ended f brs k') {} (stage j brs k') busy t \<and>
    tally (wi_ID inst) j brs k' t \<and> same_frame w t"
proof -
  let ?i = "wi_ID inst" and ?n = "brs ! b ! k b"
  have knows: "knows w inst def" using c(1,2) by (simp add: w(1) completed_state_def knows_def UpdateStep_run)
  from fork_shapeD(10) [OF shape b] sd have sd': "sd_Type sd = StepTypeTask"
    "sd_Next sd = (if Suc (k b) < length (brs ! b) then [brs ! b ! Suc (k b)] else [])" by (auto simp: branch_step_ok_def)
  have k'_range: "in_range brs k'" using k b by (auto simp: k' in_range_def)
  note last_iff = last_name_iff [OF shape b]
  have settle: "settle_join_success inst st sd def w = (Ok (), w)"
    using sd'(2) last_iff b c(3) sd by (intro settle_join_success_branch [OF shape knows w(3)]) (auto split: if_splits)
  note step = handleStepSuccess_run [OF c(1,2), of sd, folded w(1)]
  show ?thesis
  proof (cases "Suc (k b) < length (brs ! b)")
    case True
    let ?m = "brs ! b ! Suc (k b)"
    from fork_shapeD(10) [OF shape b(1) True] obtain md where md: "map_of (def_steps def) ?m = Some md" "sd_Type md = StepTypeTask" "sd_Delay md \<le> 0"
      by (auto simp: branch_step_ok_def)
    define t where "t = spawn ?i ?m (sd_Type md) out (sd_MaxRetries md) (sd_Delay md) w"
    have quiet: "notifyJoinSteps ?i (ws_StepName st) True w = (Ok (), w)"
      using last_iff True c(3) by (intro notifyJoinSteps_shape [OF shape knows w(3)]) auto
    have "handleStepSuccess inst (StepCopy st) sd out True c = (Ok (), t)"
      using step [OF _ settle [unfolded w(1)] quiet [unfolded w(1)]] sd' True md knows
      by (simp add: w(1) [symmetric] enqueue_unless_join_def enqueueNextSteps_def GetInstance_def GetWorkflowDefinition_def knows_def
          enqueue_one_spawns [OF md(1)] t_def run_simps)
    moreover have "?m \<notin> ended f brs k' \<union> {} \<union> (waiting brs k - {?n})"
      using next_name_fresh [where k = k, OF fork_shapeD(6) [OF shape] b(1) True fork_shapeD(8) [OF shape]] ended_step [where k = k and f = f, OF b]
        branch_names_unique [OF fork_shapeD(6) [OF shape] b(1) b(1) True b(2)] by (auto simp: k')
    then have "flight ?i (type_in def) (ended f brs k') {} (insert ?m (waiting brs k - {?n})) busy t"
      unfolding t_def using md by (intro flight_spawn [OF w(2)]) (simp_all add: type_in_def)
    moreover have "\<not> all_in brs k'" using b True by (auto simp: all_in_def k')
    then have "stage j brs k' = insert ?m (waiting brs k - {?n})" using waiting_step [where k = k, OF fork_shapeD(6) [OF shape] b] True by (simp add: stage_def k')
    moreover have "tally ?i j brs k' t"
      using w(3) finished_step [where k = k, OF b] True \<open>\<not> all_in brs k'\<close> b by (auto simp: tally_def t_def k' all_in_def)
    ultimately show ?thesis by (intro exI [of _ t]) (simp add: t_def)
  next
    case False
    then have last: "Suc (k b) = length (brs ! b)" using b(2) by simp
    have "waiting brs k' = waiting brs k - {?n}" "finished brs k' = insert ?n (finished brs k)"
      using waiting_step [where k = k, OF fork_shapeD(6) [OF shape] b] finished_step [where k = k, OF b] last by (simp_all add: k')
    with notify_branch_end [OF shape knows w(3) _ _ _ k'_range, where busy = busy and n = ?n] w(2) last_iff last obtain t where
      t: "notifyJoinSteps ?i ?n True w = (Ok (), t)" "flight ?i (type_in def) (ended f brs k') {} (stage j brs k') busy t" "tally ?i j brs k' t" "same_frame w t"
      by auto
    have "hasUnfinishedSteps ?i t = (Ok True, t)" by (rule flight_unfinished [OF t(2) stage_nonempty [OF k'_range]])
    then have "handleStepSuccess inst (StepCopy st) sd out True c = (Ok (), t)"
      using step [OF _ settle [unfolded w(1)] t(1) [folded c(3), unfolded w(1)]] sd' last by (simp add: bnd_run ret_def)
    with t show ?thesis by blast
  qed
qed

lemma branch_turn:
  assumes shape: "fork_shape def f j brs" and s: "forked def inst f j brs k s" "\<not> all_in brs k"
    and ans: "\<forall>n \<in> set (concat brs). answers s def n gives_document"
  shows "\<exists>t b c. ExecuteNext wk s = (Ok False, t) \<and> b < length brs \<and> k b < length (brs ! b) \<and> forked def inst f j brs (k(b := Suc (k b))) t \<and>
    en_handlers t = en_handlers s \<and> en_calls t = en_calls s @ [c] \<and> ec_stepName (hc_Context c) = brs ! b ! k b \<and> ec_instanceID (hc_Context c) = wi_ID inst"
proof -
  let ?i = "wi_ID inst"
  from s have fl: "flight ?i (type_in def) (ended f brs k) {} (waiting brs k) {} s" and rest: "quiet s" "knows s inst def" "tally ?i j brs k s" "in_range brs k"
    and "waiting brs k \<noteq> {}"
    using stage_nonempty [of brs k j] by (auto simp: forked_def stage_def)
  from flight_pick [OF fl this(6)] obtain item0 st where item0: "picks s item0" "map_of (ms_queue s) (qi_ID item0) = Some item0"
      "qi_InstanceID item0 = ?i" "qi_StepID item0 = Some (ws_ID st)"
    and st: "map_of (ms_steps s) (ws_ID st) = Some st" "ws_InstanceID st = ?i" "ws_Status st = StepStatusPending" "ws_StepName st \<in> waiting brs k" by blast
  then obtain b where b: "b < length brs" "k b < length (brs ! b)" and name: "ws_StepName st = brs ! b ! k b"
    by (auto simp: waiting_def split: if_splits)
  from fork_shapeD(10) [OF shape b] obtain sd where sd: "map_of (def_steps def) (ws_StepName st) = Some sd" "sd_Type sd = StepTypeTask"
    by (auto simp: branch_step_ok_def name)
  from ans branch_name_in [OF b] sd(1) name obtain h where h: "map_of (en_handlers s) (sd_Handler sd) = Some h"
    "\<And>calls ctx inp. \<exists>answer. h calls ctx inp = (answer, []) \<and> gives_document answer" unfolding answers_def by metis
  then obtain out where out: "h (en_calls s) (task_context inst st sd) (ws_Input st) = (Returns out, [])" "has_document out"
    by (metis gives_document_def)
  obtain item u where u: "started_from s item u" "qi_ID item = qi_ID item0"
    and run: "\<And>v. settle_answer inst st sd (Returns out) (called_state inst st sd u) = (Ok (), v) \<Longrightarrow>
       \<exists>cs. ExecuteNext wk s = (Ok False, v\<lparr>en_cancelContexts := cs, ms_queue := AList.delete (qi_ID item) (ms_queue v),
         en_activeSteps := en_activeSteps v - 1\<rparr>)"
    using turn_calls [OF flightD(1) [OF fl] rest(1,2) item0(1,3,4) st(1,2) _ sd h(1) out(1), of wk] st(3) by blast
  define c w where "c = called_state inst st sd u" and "w = completed_state inst st out c"
  note cf = called_fields [OF u(1) st(1) c_def] and wf = after_task_fields [OF u(1) st(1) w_def [unfolded c_def]]
  have "flight ?i (type_in def) (ended f brs k) {ws_StepName st} (waiting brs k - {ws_StepName st}) {qi_ID item} c"
    unfolding c_def using flight_begun [OF fl _ item0(4) st(1-3) u(1) refl] item0(2) u(2) by (intro flight_called) simp
  then have "flight ?i (type_in def) (ended f brs (k(b := Suc (k b)))) {} (waiting brs k - {ws_StepName st}) {qi_ID item} w"
    using flight_completed [OF _ _ _ _ out(2) w_def] cf(11) st ended_step [where k = k and f = f, OF b] name by simp
  from branch_step_success [OF shape b rest(4) sd(1) [unfolded name] refl _ _ name w_def this [unfolded name]] cf wf(12) rest(2,3) st
  obtain v where v: "handleStepSuccess inst (StepCopy st) sd out True c = (Ok (), v)"
    "flight ?i (type_in def) (ended f brs (k(b := Suc (k b)))) {} (stage j brs (k(b := Suc (k b)))) {qi_ID item} v" "tally ?i j brs (k(b := Suc (k b))) v" "same_frame w v"
    by (auto simp: knows_def tally_def)
  from run v(1) obtain cs where t: "ExecuteNext wk s = (Ok False, v\<lparr>en_cancelContexts := cs, ms_queue := AList.delete (qi_ID item) (ms_queue v),
         en_activeSteps := en_activeSteps v - 1\<rparr>)" (is "_ = (_, ?t)") by (auto simp: settle_answer_def c_def)
  have "forked def inst f j brs (k(b := Suc (k b))) ?t"
    using flight_end [OF v(2)] v(3,4) wf rest b by (auto simp: forked_def quiet_def knows_def same_frame_def tally_def in_range_def)
  moreover have "en_handlers ?t = en_handlers s" "en_calls ?t = en_calls s @ [\<lparr>hc_Handler = sd_Handler sd, hc_Context = task_context inst st sd, hc_Input = ws_Input st\<rparr>]"
    using v(4) wf by (simp_all add: same_frame_def)
  ultimately show ?thesis using t b by (intro exI [of _ ?t] exI [of _ b]) (auto simp: task_context_def name)
qed

section \<open>The turns on the fork and on the join\<close>

lemma spawn_rows: "wf_store s \<Longrightarrow> map_of (ms_steps s) k = Some x \<Longrightarrow> map_of (ms_steps (spawn i n ty inp maxr delay s)) k = Some x"
  using wf_fresh(1) [of s] by (auto simp: spawn_def run_simps)

lemma spawn_branches:
  assumes "\<And>n. n \<in> set ns \<Longrightarrow> \<exists>sd. map_of (def_steps def) n = Some sd \<and> sd_Delay sd \<le> 0"
  shows "flight i (type_in def) C R P busy s \<Longrightarrow> distinct ns \<Longrightarrow> set ns \<inter> (C \<union> R \<union> P) = {} \<Longrightarrow>
    \<exists>t. for_each ns (fork_branch i def inp) s = (Ok (), t) \<and> flight i (type_in def) C R (P \<union> set ns) busy t \<and> same_frame s t \<and>
      ms_joinStates t = ms_joinStates s \<and> (\<forall>k x. map_of (ms_steps s) k = Some x \<longrightarrow> map_of (ms_steps t) k = Some x)"
  using assms
proof (induction ns arbitrary: s P)
  case (Cons n ns)
  from Cons.prems(4) [of n] obtain sd where sd: "map_of (def_steps def) n = Some sd" "sd_Delay sd \<le> 0" by auto
  let ?u = "spawn i n (sd_Type sd) inp (sd_MaxRetries sd) (sd_Delay sd) s"
  have "flight i (type_in def) C R (insert n P) busy ?u"
    using Cons.prems(2,3) sd by (intro flight_spawn [OF Cons.prems(1)]) (auto simp: type_in_def)
  from Cons.IH [OF this] Cons.prems obtain t where t: "for_each ns (fork_branch i def inp) ?u = (Ok (), t)"
    "flight i (type_in def) C R (insert n P \<union> set ns) busy t" "same_frame ?u t" "ms_joinStates t = ms_joinStates ?u"
    "\<forall>k x. map_of (ms_steps ?u) k = Some x \<longrightarrow> map_of (ms_steps t) k = Some x" by auto
  have "same_frame s t" by (rule same_frame_trans [OF _ t(3)]) simp
  moreover have "map_of (ms_steps t) k = Some x" if "map_of (ms_steps s) k = Some x" for k x
    using t(5) spawn_rows [OF flightD(1) [OF Cons.prems(1)] that] by blast
  ultimately show ?case using t by (simp add: run_simps fork_branch_spawns [OF sd(1)])
qed (simp add: run_simps)

lemma zero_positions:
  assumes "fork_shape def f j brs"
  shows "ended f brs (\<lambda>_. 0) = {f}" "stage j brs (\<lambda>_. 0) = set (map hd brs)" "finished brs (\<lambda>_. 0) = {}" "\<not> all_in brs (\<lambda>_. 0)" "in_range brs (\<lambda>_. 0)"
proof -
  have ne: "brs ! b \<noteq> []" if "b < length brs" for b using fork_shapeD(5) [OF assms] nth_mem [OF that] by metis
  have "0 < length brs" using fork_shapeD(4) [OF assms] by simp
  with ne show ni: "\<not> all_in brs (\<lambda>_. 0)" by (auto simp: all_in_def)
  show "ended f brs (\<lambda>_. 0) = {f}" "in_range brs (\<lambda>_. 0)" by (auto simp: ended_def in_range_def)
  show "finished brs (\<lambda>_. 0) = {}" using ne by (auto simp: finished_def)
  have "set brs = (\<lambda>b. brs ! b) ` {..<length brs}" by (auto simp: in_set_conv_nth)
  with ne have "waiting brs (\<lambda>_. 0) = hd ` set brs" by (simp add: waiting_def image_image hd_conv_nth) blast
  with ni show "stage j brs (\<lambda>_. 0) = set (map hd brs)" by (simp add: stage_def)
qed

lemma stands_flight:
  assumes at: "stands_at def inst [] f 0 s" and sd: "map_of (def_steps def) f = Some fd"
  shows "flight (wi_ID inst) (type_in def) {} {} {f} {} s"
proof -
  from at obtain st item where wf: "wf_store s" and names: "step_names s (wi_ID inst) = [f]"
    and st: "map_of (ms_steps s) (ws_ID st) = Some st" "ws_InstanceID st = wi_ID inst" "ws_StepName st = f" "ws_Status st = StepStatusPending" "ws_StepType st = sd_Type fd"
    and item: "ms_queue s = [(qi_ID item, item)]" "qi_StepID item = Some (ws_ID st)" "due_item (wi_ID inst) (ms_clock s) item"
    using sd by (auto simp: stands_at_def only_item_def attempted_def due_item_def)
  have id: "ws_ID x = k" if "map_of (ms_steps s) k = Some x" for k x using wf that by (auto simp: wf_store_def steps_ok_def dest: numbered_key)
  from names obtain y where "steps_of s (wi_ID inst) = [y]" by (auto simp: step_names_def)
  moreover have "st \<in> set (steps_of s (wi_ID inst))" using steps_of_set [OF wf, of "wi_ID inst"] st(1,2) by simp
  ultimately have only: "set (steps_of s (wi_ID inst)) = {st}" by simp
  have rows: "k = ws_ID st \<and> x = st" if "map_of (ms_steps s) k = Some x" "ws_InstanceID x = wi_ID inst" for k x
  proof -
    have "x \<in> set (steps_of s (wi_ID inst))" using that id [OF that(1)] steps_of_set [OF wf, of "wi_ID inst"] by simp
    with only id [OF that(1)] show ?thesis by simp
  qed
  have "standing (type_in def) {} {} {f} st" using st sd by (simp add: standing_def type_in_def)
  then have "standing (type_in def) {} {} {f} x" if "map_of (ms_steps s) k = Some x" "ws_InstanceID x = wi_ID inst" for k x using rows [OF that] by simp
  moreover have "k = k'" if "map_of (ms_steps s) k = Some x" "map_of (ms_steps s) k' = Some x'" "ws_InstanceID x = wi_ID inst" "ws_InstanceID x' = wi_ID inst"
    for k k' x x' using rows [OF that(1,3)] rows [OF that(2,4)] by simp
  ultimately have "named_steps (wi_ID inst) (type_in def) {} {} {f} (map_of (ms_steps s))" using st by (intro named_stepsI) blast+
  moreover have pend: "pending_in (wi_ID inst) (map_of (ms_steps s)) k \<longleftrightarrow> k = ws_ID st" for k
    using rows [of k] st unfolding pending_in_def by blast
  have "matched (wi_ID inst) (ms_clock s) (map_of (ms_steps s)) (map_of (ms_queue s))"
    using item by (intro matchedI) (auto simp: pend split: if_splits)
  ultimately show ?thesis using wf by (simp add: flight_def restrict_map_def)
qed

lemma branch_heads:
  assumes shape: "fork_shape def f j brs"
  shows "distinct (map hd brs)" "f \<notin> set (map hd brs)" "n \<in> set (map hd brs) \<Longrightarrow> \<exists>sd. map_of (def_steps def) n = Some sd \<and> sd_Delay sd \<le> 0"
proof -
  have heads: "hd (brs ! b) = brs ! b ! 0" "0 < length (brs ! b)" if "b < length brs" for b
  proof -
    have "brs ! b \<noteq> []" using fork_shapeD(5) [OF shape] nth_mem [OF that] by metis
    then show "hd (brs ! b) = brs ! b ! 0" "0 < length (brs ! b)" by (simp_all add: hd_conv_nth)
  qed
  have "b = c" if "b < length brs" "c < length brs" "hd (brs ! b) = hd (brs ! c)" for b c
    using branch_names_unique [OF fork_shapeD(6) [OF shape] that(1,2) heads(2) [OF that(1)] heads(2) [OF that(2)]] heads(1) that by simp
  then show "distinct (map hd brs)" by (auto simp: distinct_conv_nth)
  have "hd br \<in> set (concat brs)" if "br \<in> set brs" for br using that fork_shapeD(5) [OF shape] hd_in_set by (metis UN_I set_concat)
  then show "f \<notin> set (map hd brs)" using fork_shapeD(8) [OF shape] by auto
  assume "n \<in> set (map hd brs)"
  then obtain b where b: "b < length brs" "n = hd (brs ! b)" by (auto simp: in_set_conv_nth)
  from fork_shapeD(10) [OF shape b(1) heads(2) [OF b(1)]] b heads(1) [OF b(1)]
  show "\<exists>sd. map_of (def_steps def) n = Some sd \<and> sd_Delay sd \<le> 0" by (auto simp: branch_step_ok_def)
qed

lemma executeFork_run:
  assumes shape: "fork_shape def f j brs" and fd: "map_of (def_steps def) f = Some fd"
    and s: "knows s inst def" "flight (wi_ID inst) (type_in def) {} {f} {} busy s" "\<not> has_key (ms_joinStates s) (joinStateKey (wi_ID inst) j)"
  shows "\<exists>doc t. executeFork inst st fd s = (Ok (RawJSON doc), t) \<and> flight (wi_ID inst) (type_in def) {} {f} (set (map hd brs)) busy t \<and>
    same_frame s t \<and> tally (wi_ID inst) j brs (\<lambda>_. 0) t \<and> (\<forall>k x. map_of (ms_steps s) k = Some x \<longrightarrow> map_of (ms_steps t) k = Some x)"
proof -
  let ?i = "wi_ID inst"
  from fork_shapeD(2,3) [OF shape] fd obtain jd where fork: "sd_Parallel fd = map hd brs" "sd_Next fd = [j]"
    and jd: "map_of (def_steps def) j = Some jd" "sd_Type jd = StepTypeJoin" "sd_WaitFor jd = map last brs" "default_strategy (sd_JoinStrategy jd) = JoinStrategyAll"
    by (auto simp: fork_step_ok_def join_step_ok_def)
  define l where "l = logged ?i (Some (ws_ID st)) ''fork_started'' [(''parallel_steps'', json_strings (map hd brs))] s"
  have "flight ?i (type_in def) {} {f} {} busy l" unfolding l_def by (rule flight_logged [OF s(2)])
  then obtain u where u: "for_each (map hd brs) (fork_branch ?i def (ws_Input st)) l = (Ok (), u)" "flight ?i (type_in def) {} {f} (set (map hd brs)) busy u"
      "same_frame l u" "ms_joinStates u = ms_joinStates l" "\<forall>k x. map_of (ms_steps l) k = Some x \<longrightarrow> map_of (ms_steps u) k = Some x"
    using spawn_branches [of "map hd brs" def ?i "{}" "{f}" "{}" busy l "ws_Input st"] branch_heads [OF shape] by auto
  define js where "js = \<lparr>js_InstanceID = ?i, js_JoinStepName = j, js_WaitingFor = map last brs, js_Completed = [], js_Failed = [],
      js_JoinStrategy = JoinStrategyAll, js_IsReady = False, js_CreatedAt = ms_clock u, js_UpdatedAt = ms_clock u\<rparr>"
  define v where "v = u\<lparr>ms_clock := ms_clock u + 1, ms_joinStates := AList.update (joinStateKey ?i j) js (ms_joinStates u)\<rparr>"
  define t where "t = logged ?i (Some (ws_ID st)) ''join_state_created'' [(''join_step'', JString j), (''waiting_for'', json_strings (map last brs)),
      (''strategy'', JString (join_strategy_text JoinStrategyAll))] v"
  have create: "CreateJoinState ?i j (map last brs) JoinStrategyAll u = (Ok (), v)"
    using s(3) u(4) by (simp add: CreateJoinState_def run_simps time_now_def put_join_def Let_def v_def js_def l_def)
  have "wf_store v" using movesD [OF wf_CreateJoinState, of u ?i j "map last brs" JoinStrategyAll] flightD(1) [OF u(2)] create by (simp add: keeps_def)
  then have "flight ?i (type_in def) {} {f} (set (map hd brs)) busy v" by (rule flight_cong [OF u(2)]) (simp_all add: v_def)
  then have "flight ?i (type_in def) {} {f} (set (map hd brs)) busy t" unfolding t_def by (rule flight_logged)
  moreover have "same_frame s t" using u(3) by (simp add: t_def v_def l_def same_frame_def)
  moreover have "tally ?i j brs (\<lambda>_. 0) t" using zero_positions(3,4) [OF shape] by (simp add: tally_def t_def v_def js_def)
  moreover have "map_of (ms_steps t) k = Some x" if "map_of (ms_steps s) k = Some x" for k x using that u(5) by (simp add: t_def v_def l_def)
  moreover have "executeFork inst st fd s = (Ok (RawJSON (JObject [(''status'', JString ''forked''), (''parallel_steps'', json_strings (sd_Parallel fd))])), t)"
    using s(1) u(1) [unfolded l_def] create fork jd fork_shapeD(4) [OF shape]
    by (simp add: executeFork_def run_simps GetWorkflowDefinition_def knows_def fork_join_state_def Let_def t_def)
  ultimately show ?thesis by blast
qed

lemma settle_join_success_join:
  assumes shape: "fork_shape def f j brs" and s: "knows s inst def" and sd: "map_of (def_steps def) (ws_StepName st) = Some sd" "sd_Type sd = StepTypeJoin"
  shows "settle_join_success inst st sd def s = (Ok (), s)"
  using s sd no_condition_kind [OF fork_shapeD(1) [OF shape]]
  by (simp add: settle_join_success_def findConditionStepInBranch_def findForkStepForParallelStep_def instance_def_def GetInstance_def
      GetWorkflowDefinition_def run_simps knows_def isTerminalStepInForkBranch_def)

lemma not_a_last_name: "fork_shape def f j brs \<Longrightarrow> f \<notin> set (map last brs)" "fork_shape def f j brs \<Longrightarrow> j \<notin> set (map last brs)"
  using fork_shapeD(5,8,9) [of def f j brs] last_in_set by (metis (no_types, lifting) UN_I imageE list.set_map set_concat)+

text \<open>The turn on the only step that waits, when it has no handler and a join need not be told of it.\<close>

lemma single_turn:
  assumes shape: "fork_shape def f j brs" and fl: "flight (wi_ID inst) (type_in def) C {} {n} {} s" and rest: "quiet s" "knows s inst def"
    and sd: "map_of (def_steps def) n = Some sd" "sd_Type sd \<noteq> StepTypeTask" "sd_Type sd \<noteq> StepTypeHuman" "n \<notin> set (map last brs)"
    and exec: "\<And>st b q. ws_StepName st = n \<Longrightarrow> flight (wi_ID inst) (type_in def) C {n} {} {q} b \<Longrightarrow> knows b inst def \<Longrightarrow> ms_joinStates b = ms_joinStates s \<Longrightarrow>
      \<exists>doc v. execute_by_type inst (StepCopy st) sd b = (Ok (RawJSON doc, True, False, StepCopy st), v) \<and>
        flight (wi_ID inst) (type_in def) C {n} P {q} v \<and> same_frame b v \<and> tally (wi_ID inst) j brs k v \<and>
        (\<forall>l x. map_of (ms_steps b) l = Some x \<longrightarrow> map_of (ms_steps v) l = Some x)"
    and settle: "\<And>st w. ws_StepName st = n \<Longrightarrow> knows w inst def \<Longrightarrow> tally (wi_ID inst) j brs k w \<Longrightarrow> settle_join_success inst st sd def w = (Ok (), w)"
  obtains doc q w where "flight (wi_ID inst) (type_in def) (insert n C) {} P {q} w" "same_frame s w" "tally (wi_ID inst) j brs k w"
    "\<And>t. (if sd_Next sd = [] then bnd (hasUnfinishedSteps (wi_ID inst)) (\<lambda>unfinished. if \<not> unfinished then completeWorkflow inst (RawJSON doc) else ret ()) w
        else for_each (sd_Next sd) (enqueue_unless_join (wi_ID inst) def (RawJSON doc)) w) = (Ok (), t) \<Longrightarrow>
      \<exists>cs. ExecuteNext wk s = (Ok False, t\<lparr>en_cancelContexts := cs, ms_queue := AList.delete q (ms_queue t), en_activeSteps := en_activeSteps t - 1\<rparr>)"
proof -
  let ?i = "wi_ID inst"
  from flight_pick [OF fl] obtain item0 st where item0: "picks s item0" "map_of (ms_queue s) (qi_ID item0) = Some item0"
      "qi_InstanceID item0 = ?i" "qi_StepID item0 = Some (ws_ID st)"
    and st: "map_of (ms_steps s) (ws_ID st) = Some st" "ws_InstanceID st = ?i" "ws_Status st = StepStatusPending" "ws_StepName st = n" "ws_StepType st = type_in def n"
    by (metis insert_not_empty singletonD)
  have sdt: "map_of (def_steps def) (ws_StepName st) = Some sd" "ws_StepType st \<noteq> StepTypeTask" using st sd by (simp_all add: type_in_def)
  obtain item u where u: "started_from s item u" "qi_ID item = qi_ID item0"
    and run: "\<And>out v x. execute_by_type inst (StepCopy st) sd (begun_state inst st sd u) = (Ok (out, True, False, StepCopy st), v) \<Longrightarrow> same_frame (begun_state inst st sd u) v \<Longrightarrow>
       handleStepSuccess inst (StepCopy st) sd out True v = (Ok (), x) \<Longrightarrow>
       \<exists>cs. ExecuteNext wk s = (Ok False, x\<lparr>en_cancelContexts := cs, ms_queue := AList.delete (qi_ID item) (ms_queue x),
         en_activeSteps := en_activeSteps x - 1\<rparr>)"
    by (rule turn_succeeds [OF flightD(1) [OF fl] rest item0(1,3,4) st(1-3) sdt, of wk]) blast
  define b where "b = begun_state inst st sd u"
  note bf = begun_fields [OF u(1) st(1) b_def]
  have "flight ?i (type_in def) C {n} {} {qi_ID item} b" "knows b inst def" "same_frame s b"
    using flight_begun [OF fl _ item0(4) st(1-3) u(1) b_def] item0(2) u(2) st(4) bf rest(2) by (simp_all add: knows_def same_frame_def)
  from exec [OF st(4) this(1,2) bf(8)] this(3) obtain doc v where v: "execute_by_type inst (StepCopy st) sd b = (Ok (RawJSON doc, True, False, StepCopy st), v)"
      "flight ?i (type_in def) C {n} P {qi_ID item} v" "same_frame b v" "same_frame s v" "tally ?i j brs k v"
      "\<forall>l x. map_of (ms_steps b) l = Some x \<longrightarrow> map_of (ms_steps v) l = Some x" using same_frame_trans by blast
  from v(6) bf(13) obtain x where x: "map_of (ms_steps v) (ws_ID st) = Some x" "ws_InstanceID x = ?i" "ws_StepName x = n" using st by simp
  define w where "w = completed_state inst st (RawJSON doc) v"
  have wf: "same_frame v w" "ms_joinStates w = ms_joinStates v" by (simp_all add: w_def completed_state_def UpdateStep_run [OF x(1)] same_frame_def)
  have kv: "knows v inst def" using same_frame_keeps(2) [OF v(4)] rest(2) by simp
  have kw: "knows w inst def" "tally ?i j brs k w" "same_frame s w"
    using kv v(4,5) wf same_frame_trans by (auto simp: same_frame_keeps tally_def)
  have "notifyJoinSteps ?i (ws_StepName st) True w = (Ok (), w)"
    using st(4) sd(4) by (intro notifyJoinSteps_shape [OF shape kw(1,2)]) simp_all
  note success = handleStepSuccess_run [OF kv x(1) sd(3) settle [OF st(4) kw(1,2), unfolded w_def] this [unfolded w_def], folded w_def]
  have "flight ?i (type_in def) (insert n C) {} P {qi_ID item} w" using flight_completed [OF v(2) x _ w_def] by (simp add: has_document_def)
  from that [OF this kw(3,2)] run [OF v(1) [unfolded b_def] v(3) [unfolded b_def], unfolded success] show thesis by blast
qed

lemma update_documents:
  "\<forall>(n, r) \<in> set m. has_document r \<Longrightarrow> has_document v \<Longrightarrow> \<forall>(n, r) \<in> set (AList.update k v m). has_document r"
  by (induction m) auto

lemma marshal_documents: "\<forall>(n, r) \<in> set m. has_document r \<Longrightarrow> \<exists>docs. marshal_raw_map m = Inr docs"
  by (induction m) (auto simp: has_document_def split: sum.split)

lemma join_outputs_documents:
  assumes "\<And>st. st \<in> set sts \<Longrightarrow> ws_Status st = StepStatusCompleted \<Longrightarrow> has_document (ws_Output st)"
  shows "\<exists>docs. marshal_raw_map (join_outputs ws sts) = Inr docs"
proof -
  have "\<forall>(n, r) \<in> set (fold (\<lambda>st m. AList.update (ws_StepName st) (ws_Output st) m) xs m). has_document r"
    if "\<And>st. st \<in> set xs \<Longrightarrow> has_document (ws_Output st)" "\<forall>(n, r) \<in> set m. has_document r" for xs m
    using that
  proof (induction xs arbitrary: m)
    case (Cons x xs)
    have "\<forall>(n, r) \<in> set (AList.update (ws_StepName x) (ws_Output x) m). has_document r" using Cons.prems by (intro update_documents) simp_all
    with Cons show ?case by simp
  qed simp
  from this [of "filter (\<lambda>st. ws_StepName st \<in> set ws \<and> ws_Status st = StepStatusCompleted) sts" "[]"] assms
  show ?thesis unfolding join_outputs_def by (intro marshal_documents) auto
qed

lemma LogEvent_document: "LogEvent i sid n (Inr (JObject payload)) s = (Ok (), logged i sid n payload s)"
  by (simp add: logged_def log_event_def LogEvent_def run_simps time_now_def Let_def)

lemma executeJoin_run:
  assumes s: "flight (wi_ID inst) T C {j} {} busy s" "tally (wi_ID inst) j brs k s" "all_in brs k" and st: "ws_StepName st = j"
  shows "\<exists>doc t. executeJoin inst st s = (Ok (RawJSON doc), t) \<and> flight (wi_ID inst) T C {j} {} busy t \<and> same_frame s t \<and>
    ms_steps t = ms_steps s \<and> ms_joinStates t = ms_joinStates s"
proof -
  let ?i = "wi_ID inst"
  from s(2,3) obtain js where js: "map_of (ms_joinStates s) (joinStateKey ?i j) = Some js" "js_Failed js = []" "js_IsReady js" by (auto simp: tally_def)
  define l where "l = logged ?i (Some (ws_ID st)) ''join_check'' [(''waiting_for'', json_strings (js_WaitingFor js)),
      (''completed'', json_strings (js_Completed js)), (''failed'', json_strings (js_Failed js)), (''is_ready'', JBool (js_IsReady js))] s"
  have fl: "flight ?i T C {j} {} busy l" unfolding l_def by (rule flight_logged [OF s(1)])
  have "has_document (ws_Output x)" if "x \<in> set (steps_of l ?i)" "ws_Status x = StepStatusCompleted" for x
    using that named_stepsD(4) [OF flightD(2) [OF fl], of "ws_ID x" x] by (auto simp: steps_of_set [OF flightD(1) [OF fl]] standing_def)
  from join_outputs_documents [where sts = "steps_of l ?i" and ws = "js_WaitingFor js", OF this] obtain fields where
    "join_result js (steps_of l ?i) ''success'' = Inr (JObject fields)" by (auto simp: join_result_def)
  then have "executeJoin inst st s = (Ok (RawJSON (JObject fields)), logged ?i (Some (ws_ID st)) ''join_completed'' fields l)"
    using js st GetStepsByInstance_run [OF flightD(1) [OF fl], of ?i] unfolding l_def
    by (simp add: executeJoin_def GetJoinState_def Let_def LogEvent_document run_simps)
  with flight_logged [OF fl] show ?thesis by (auto simp: l_def)
qed

lemma fork_turn:
  assumes shape: "fork_shape def f j brs" and at: "stands_at def inst [] f 0 s" and fresh: "\<not> has_key (ms_joinStates s) (joinStateKey (wi_ID inst) j)"
  shows "\<exists>t. ExecuteNext wk s = (Ok False, t) \<and> forked def inst f j brs (\<lambda>_. 0) t \<and> en_handlers t = en_handlers s \<and> en_calls t = en_calls s"
proof -
  let ?i = "wi_ID inst" and ?k = "\<lambda>_. 0 :: nat"
  from fork_shapeD(2,3) [OF shape] obtain fd jd where fd: "map_of (def_steps def) f = Some fd" "sd_Type fd = StepTypeFork" "sd_Next fd = [j]"
    and jd: "map_of (def_steps def) j = Some jd" "sd_Type jd = StepTypeJoin" by (auto simp: fork_step_ok_def join_step_ok_def)
  note fl = stands_flight [OF at fd(1)]
  have rest: "quiet s" "knows s inst def" using at by (simp_all add: stands_at_def)
  obtain doc q w where w: "flight ?i (type_in def) (insert f {}) {} (set (map hd brs)) {q} w" "same_frame s w" "tally ?i j brs ?k w"
    and run: "\<And>t. (if sd_Next fd = [] then bnd (hasUnfinishedSteps ?i) (\<lambda>unfinished. if \<not> unfinished then completeWorkflow inst (RawJSON doc) else ret ()) w
        else for_each (sd_Next fd) (enqueue_unless_join ?i def (RawJSON doc)) w) = (Ok (), t) \<Longrightarrow>
      \<exists>cs. ExecuteNext wk s = (Ok False, t\<lparr>en_cancelContexts := cs, ms_queue := AList.delete q (ms_queue t), en_activeSteps := en_activeSteps t - 1\<rparr>)"
  proof (rule single_turn [OF shape fl rest fd(1), of "set (map hd brs)" ?k wk])
    fix st :: workflow_step and b :: engine and q :: int
    assume b: "ws_StepName st = f" "flight ?i (type_in def) {} {f} {} {q} b" "knows b inst def" "ms_joinStates b = ms_joinStates s"
    from executeFork_run [OF shape fd(1) b(3,2), of st] fresh b(4) show "\<exists>doc v. execute_by_type inst (StepCopy st) fd b = (Ok (RawJSON doc, True, False, StepCopy st), v) \<and>
        flight ?i (type_in def) {} {f} (set (map hd brs)) {q} v \<and> same_frame b v \<and> tally ?i j brs ?k v \<and>
        (\<forall>l x. map_of (ms_steps b) l = Some x \<longrightarrow> map_of (ms_steps v) l = Some x)"
      using fd(2) by (auto simp: execute_by_type_def run_simps)
  next
    fix st :: workflow_step and w :: engine
    assume "ws_StepName st = f" "knows w inst def" "tally ?i j brs ?k w"
    then show "settle_join_success inst st fd def w = (Ok (), w)" using fd by (intro settle_join_success_branch [OF shape]) simp_all
  qed (use fd not_a_last_name [OF shape] in auto)
  have "for_each [j] (enqueue_unless_join ?i def (RawJSON doc)) w = (Ok (), w)" using jd by (simp add: enqueue_unless_join_def run_simps)
  with run [of w] fd(3) obtain cs where
    t: "ExecuteNext wk s = (Ok False, w\<lparr>en_cancelContexts := cs, ms_queue := AList.delete q (ms_queue w), en_activeSteps := en_activeSteps w - 1\<rparr>)" by auto
  then show ?thesis
    using flight_end [OF w(1)] w(2,3) rest zero_positions [OF shape] by (auto simp: forked_def quiet_def knows_def same_frame_def tally_def)
qed

lemma join_turn:
  assumes shape: "fork_shape def f j brs" and s: "forked def inst f j brs k s" "all_in brs k"
  shows "\<exists>t fin. ExecuteNext wk s = (Ok False, t) \<and> ms_queue t = [] \<and> en_calls t = en_calls s \<and>
    map_of (ms_instances t) (wi_ID inst) = Some fin \<and> wi_Status fin = StatusCompleted \<and> wi_WorkflowID fin = wi_WorkflowID inst \<and>
    (\<forall>su \<in> set (steps_of t (wi_ID inst)). ws_Status su = StepStatusCompleted)"
proof -
  let ?i = "wi_ID inst"
  from fork_shapeD(3) [OF shape] obtain jd where jd: "map_of (def_steps def) j = Some jd" "sd_Type jd = StepTypeJoin" "sd_Next jd = []"
    by (auto simp: join_step_ok_def)
  from s have fl: "flight ?i (type_in def) (ended f brs k) {} {j} {} s" and rest: "quiet s" "knows s inst def" and tally: "tally ?i j brs k s"
    by (auto simp: forked_def stage_def waiting_all_in)
  obtain doc q w where w: "flight ?i (type_in def) (insert j (ended f brs k)) {} {} {q} w" "same_frame s w"
    and run: "\<And>t. (if sd_Next jd = [] then bnd (hasUnfinishedSteps ?i) (\<lambda>unfinished. if \<not> unfinished then completeWorkflow inst (RawJSON doc) else ret ()) w
        else for_each (sd_Next jd) (enqueue_unless_join ?i def (RawJSON doc)) w) = (Ok (), t) \<Longrightarrow>
      \<exists>cs. ExecuteNext wk s = (Ok False, t\<lparr>en_cancelContexts := cs, ms_queue := AList.delete q (ms_queue t), en_activeSteps := en_activeSteps t - 1\<rparr>)"
  proof (rule single_turn [OF shape fl rest jd(1), of "{}" k wk])
    fix st :: workflow_step and b :: engine and q :: int
    assume b: "ws_StepName st = j" "flight ?i (type_in def) (ended f brs k) {j} {} {q} b" "ms_joinStates b = ms_joinStates s"
    with tally have "tally ?i j brs k b" by (simp add: tally_def)
    from executeJoin_run [OF b(2) this s(2) b(1)] show "\<exists>doc v. execute_by_type inst (StepCopy st) jd b = (Ok (RawJSON doc, True, False, StepCopy st), v) \<and>
        flight ?i (type_in def) (ended f brs k) {j} {} {q} v \<and> same_frame b v \<and> tally ?i j brs k v \<and>
        (\<forall>l x. map_of (ms_steps b) l = Some x \<longrightarrow> map_of (ms_steps v) l = Some x)"
      using jd(2) b(3) tally by (auto simp: execute_by_type_def run_simps tally_def)
  next
    fix st :: workflow_step and w :: engine
    assume "ws_StepName st = j" "knows w inst def"
    then show "settle_join_success inst st jd def w = (Ok (), w)" using jd by (intro settle_join_success_join [OF shape]) simp_all
  qed (use jd not_a_last_name [OF shape] in auto)
  from flight_over [OF flight_end [OF w(1), where n = 0]] have over: "AList.delete q (ms_queue w) = []" by simp
  have all: "ws_Status y = StepStatusCompleted" if "map_of (ms_steps w) n = Some y" "ws_InstanceID y = ?i" for n y
    using named_stepsD(4) [OF flightD(2) [OF w(1)] that] by (simp add: standing_def)
  have kw: "knows w inst def" "en_plugins w = None" using same_frame_keeps [OF w(2)] rest by (simp_all add: quiet_def)
  obtain t fin where t: "completeWorkflow inst (RawJSON doc) w = (Ok (), t)" "map_of (ms_instances t) ?i = Some fin" "wi_Status fin = StatusCompleted"
    "wi_WorkflowID fin = wi_WorkflowID inst" "ms_queue t = ms_queue w" "ms_steps t = ms_steps w" "ms_stepsByInstance t = ms_stepsByInstance w" "en_calls t = en_calls w"
    using completeWorkflow_run [where out = "RawJSON doc", OF flightD(1) [OF w(1)] kw] all by blast
  with run [of t] jd(3) all_completed_steps(1) [of w ?i, OF flightD(1) [OF w(1)]] all obtain cs where
    r: "ExecuteNext wk s = (Ok False, t\<lparr>en_cancelContexts := cs, ms_queue := AList.delete q (ms_queue t), en_activeSteps := en_activeSteps t - 1\<rparr>)" (is "_ = (_, ?t)")
    by (auto simp: bnd_run)
  have "steps_of ?t ?i = steps_of w ?i" using t by (simp add: steps_of_def)
  then have "\<forall>y \<in> set (steps_of ?t ?i). ws_Status y = StepStatusCompleted" using steps_of_set [OF flightD(1) [OF w(1)]] all by auto
  with r t over w(2) show ?thesis by (intro exI [of _ ?t] exI [of _ fin]) (simp add: same_frame_def)
qed

section \<open>The whole run\<close>

text \<open>One turn each of the workers in the list.\<close>

fun turns_by :: "string list \<Rightarrow> engine \<Rightarrow> engine" where
  "turns_by [] s = s"
| "turns_by (wk # wks) s = turns_by wks (snd (ExecuteNext wk s))"

definition remaining :: "string list list \<Rightarrow> (nat \<Rightarrow> nat) \<Rightarrow> nat" where
  "remaining brs k = (\<Sum>b < length brs. length (brs ! b) - k b)"

lemma remaining_step:
  assumes "b < length brs" "k b < length (brs ! b)"
  shows "remaining brs k = Suc (remaining brs (k(b := Suc (k b))))"
proof -
  have "(\<Sum>c < length brs. length (brs ! c) - l c) = (length (brs ! b) - l b) + (\<Sum>c \<in> {..<length brs} - {b}. length (brs ! c) - l c)" for l
    using assms(1) by (simp add: sum.remove)
  from this [of k] this [of "k(b := Suc (k b))"] show ?thesis using assms(2) by (simp add: remaining_def)
qed

lemma remaining_zero: "remaining brs (\<lambda>_. 0) = length (concat brs)"
  by (simp add: remaining_def length_concat sum_list_sum_nth atLeast0LessThan)

lemma remaining_none: "in_range brs k \<Longrightarrow> remaining brs k = 0 \<longleftrightarrow> all_in brs k"
  by (auto simp: remaining_def all_in_def in_range_def intro: order_antisym)

lemma branches_run:
  assumes shape: "fork_shape def f j brs"
  shows "forked def inst f j brs k s \<Longrightarrow> \<forall>n \<in> set (concat brs). answers s def n gives_document \<Longrightarrow> length wks = Suc (remaining brs k) \<Longrightarrow>
    \<exists>ns. completed_run inst ns s (turns_by wks s) \<and> set ns \<subseteq> set (concat brs) \<and> (\<forall>b < length brs. filter (\<lambda>n. n \<in> set (brs ! b)) ns = drop (k b) (brs ! b))"
proof (induction wks arbitrary: s k)
  case (Cons wk wks)
  have range: "in_range brs k" using Cons.prems(1) by (simp add: forked_def)
  show ?case
  proof (cases "all_in brs k")
    case True
    with remaining_none [OF range] Cons.prems(3) have "wks = []" by simp
    moreover from join_turn [OF shape Cons.prems(1) True, of wk] have "completed_run inst [] s (snd (ExecuteNext wk s))"
      by (auto simp: completed_run_def)
    ultimately show ?thesis using True by (intro exI [of _ "[]"]) (simp add: all_in_def)
  next
    case False
    from branch_turn [OF shape Cons.prems(1) False Cons.prems(2), of wk] obtain t b c where t: "ExecuteNext wk s = (Ok False, t)"
      "b < length brs" "k b < length (brs ! b)" "forked def inst f j brs (k(b := Suc (k b))) t" "en_handlers t = en_handlers s" "en_calls t = en_calls s @ [c]"
      "ec_stepName (hc_Context c) = brs ! b ! k b" "ec_instanceID (hc_Context c) = wi_ID inst" by blast
    have "length wks = Suc (remaining brs (k(b := Suc (k b))))" using remaining_step [where k = k, OF t(2,3)] Cons.prems(3) by simp
    moreover have "\<forall>n \<in> set (concat brs). answers t def n gives_document" using Cons.prems(2) t(5) by (simp add: answers_def)
    ultimately obtain ns where ns: "completed_run inst ns t (turns_by wks t)" "set ns \<subseteq> set (concat brs)"
      "\<forall>a < length brs. filter (\<lambda>n. n \<in> set (brs ! a)) ns = drop ((k(b := Suc (k b))) a) (brs ! a)" using Cons.IH [OF t(4)] by blast
    let ?n = "brs ! b ! k b"
    have "?n \<in> set (brs ! a) \<longleftrightarrow> a = b" if "a < length brs" for a
      using branch_names_unique [OF fork_shapeD(6) [OF shape] t(2) that t(3)] t(3) by (metis in_set_conv_nth)
    with ns(3) t(2,3) have "filter (\<lambda>n. n \<in> set (brs ! a)) (?n # ns) = drop (k a) (brs ! a)" if "a < length brs" for a
      using that by (simp add: Cons_nth_drop_Suc)
    moreover have "completed_run inst (?n # ns) s (turns_by (wk # wks) s)"
      using completed_run_Cons [OF ns(1) t(6,8,7)] t(1) by simp
    moreover have "set (?n # ns) \<subseteq> set (concat brs)" using ns(2) branch_name_in [OF t(2,3)] by auto
    ultimately show ?thesis by blast
  qed
qed simp

text \<open>
  C5: a fork whose branches are rows of tasks runs to the end of its join.  Take a well-formed store with an empty queue, no plugins and no stop
  requests, a registered valid definition that starts with a fork into rows of tasks without delays, followed by a join that waits for
  the last task of every row, and handlers that return documents.  After \<open>Start\<close>, let workers take as many turns as there are tasks, and two:
  one for the fork, one for the join.  In whatever order the queue hands out the items and whichever worker takes which turn, the
  instance is completed, the queue is empty, every step is completed, and the tasks of each row were called once each in the order of the row.
\<close>

theorem fork_join_completes:
  assumes wf: "wf_store s" and quiet: "quiet s" and queue: "ms_queue s = []"
    and unused: "steps_of s (ms_nextInstanceID s) = []" "\<not> has_key (ms_joinStates s) (joinStateKey (ms_nextInstanceID s) j)"
    and reg: "map_of (ms_definitions s) w = Some def" "validateDefinition def = Ok ()" and shape: "fork_shape def (def_start def) j brs"
    and ans: "\<forall>n \<in> set (concat brs). answers s def n gives_document" and turns: "length wks = length (concat brs) + 2"
  shows "\<exists>t inst ns. Start w inp s = (Ok (ms_nextInstanceID s), t) \<and> wi_ID inst = ms_nextInstanceID s \<and> wi_WorkflowID inst = w \<and>
    completed_run inst ns s (turns_by wks t) \<and> set ns \<subseteq> set (concat brs) \<and> (\<forall>br \<in> set brs. filter (\<lambda>n. n \<in> set br) ns = br)"
proof -
  from fork_shapeD(2) [OF shape] obtain fd where fd: "map_of (def_steps def) (def_start def) = Some fd" "sd_Delay fd \<le> 0" by (auto simp: fork_step_ok_def)
  from Start_stands [OF wf quiet queue unused(1) reg fd, of inp] obtain t inst where
    t: "Start w inp s = (Ok (ms_nextInstanceID s), t)" "wi_ID inst = ms_nextInstanceID s" "wi_WorkflowID inst = w"
      "stands_at def inst [] (def_start def) 0 t" "en_calls t = en_calls s" "en_handlers t = en_handlers s" "ms_joinStates t = ms_joinStates s" by blast
  from turns obtain wk wks' where wks: "wks = wk # wks'" "length wks' = Suc (remaining brs (\<lambda>_. 0))"
    by (cases wks) (simp_all add: remaining_zero)
  from fork_turn [OF shape t(4), of wk] unused(2) t(2,7) obtain u where
    u: "ExecuteNext wk t = (Ok False, u)" "forked def inst (def_start def) j brs (\<lambda>_. 0) u" "en_handlers u = en_handlers t" "en_calls u = en_calls t" by auto
  have "\<forall>n \<in> set (concat brs). answers u def n gives_document" using ans u(3) t(6) by (simp add: answers_def)
  from branches_run [OF shape u(2) this wks(2)] obtain ns where ns: "completed_run inst ns u (turns_by wks' u)" "set ns \<subseteq> set (concat brs)"
    "\<forall>b < length brs. filter (\<lambda>n. n \<in> set (brs ! b)) ns = drop 0 (brs ! b)" by auto
  have "completed_run inst ns s (turns_by wks t)" using ns(1) u(1,4) t(5) by (simp add: completed_run_def wks)
  moreover have "\<forall>br \<in> set brs. filter (\<lambda>n. n \<in> set br) ns = br" using ns(3) by (auto simp: in_set_conv_nth)
  ultimately show ?thesis using t(1-3) ns(2) by blast
qed

definition demo_fork :: builder where
  "demo_fork = ForkJoin ''f'' [\<lambda>b. Then ''a2'' ''h'' [] (Step ''a1'' ''h'' [] b), Step ''b1'' ''h'' []] ''j'' JoinStrategyAll (NewBuilder ''w'' 1 [])"

definition demo_fork_def :: workflow_definition where
  "demo_fork_def = (case Build demo_fork of Ok d \<Rightarrow> d | _ \<Rightarrow> two_tasks)"

definition demo_forked :: engine where
  "demo_forked = (snd (RegisterWorkflow demo_fork_def demo_engine))\<lparr>en_handlers := [(''h'', \<lambda>calls ctx inp. (Returns (RawJSON JNull), []))]\<rparr>"

lemma demo_fork_facts: "Build demo_fork = Ok demo_fork_def" "validateDefinition demo_fork_def = Ok ()"
  "fork_shape demo_fork_def (def_start demo_fork_def) ''j'' [[''a1'', ''a2''], [''b1'']]"
  "map (\<lambda>n. map_option sd_Handler (map_of (def_steps demo_fork_def) n)) [''a1'', ''a2'', ''b1''] = [Some ''h'', Some ''h'', Some ''h'']"
  by code_simp+

lemma demo_forked_facts: "map_of (ms_definitions demo_forked) ''w-v1'' = Some demo_fork_def" "ms_queue demo_forked = []" "steps_of demo_forked 1 = []"
  "ms_nextInstanceID demo_forked = 1" "ms_cancelRequests demo_forked = []" "\<not> en_isShuttingDown demo_forked" "en_plugins demo_forked = None"
  "ms_joinStates demo_forked = []"
  by code_simp+

theorem fork_join_completes_witness:
  "Build demo_fork = Ok demo_fork_def \<and> (\<exists>t inst ns. Start ''w-v1'' RawNil demo_forked = (Ok 1, t) \<and> wi_ID inst = 1 \<and>
    completed_run inst ns demo_forked (turns_by [''x'', ''y'', ''x'', ''x'', ''y''] t) \<and>
    filter (\<lambda>n. n \<in> {''a1'', ''a2''}) ns = [''a1'', ''a2''] \<and> filter (\<lambda>n. n = ''b1'') ns = [''b1''])"
proof -
  have "wf_store demo_forked"
    using movesD [OF sound_RegisterWorkflow, of demo_engine demo_fork_def] wf_NewEngine by (simp add: demo_forked_def demo_engine_def sound_step_def wf_store_def)
  moreover have "quiet demo_forked" using demo_forked_facts by (simp add: quiet_def)
  moreover have "answers demo_forked demo_fork_def n gives_document" if "n \<in> set (concat [[''a1'', ''a2''], [''b1'']])" for n
    using that demo_fork_facts(4) by (auto simp: answers_def gives_document_def has_document_def demo_forked_def)
  ultimately show ?thesis
    using fork_join_completes [of demo_forked "''j''" "''w-v1''" demo_fork_def "[[''a1'', ''a2''], [''b1'']]" "[''x'', ''y'', ''x'', ''x'', ''y'']" RawNil]
      demo_fork_facts demo_forked_facts by (auto simp: has_key_def)
qed

end
