(* ===== verification/Graph_Walks.thy ===== *)
theory Graph_Walks
  imports Step_Graph "HOL-Library.Transitive_Closure_Table"
begin

text \<open>
  What the walks of \<open>Step_Graph\<close> compute.  The loops along the previous-step links are searches in one
  reference list, the chain of a step: its predecessors in order of distance.  The recursive search
  decides reachability, and its fuel is enough.
\<close>

section \<open>The chain of predecessors\<close>

definition prev_link :: "steps_map \<Rightarrow> string \<Rightarrow> string \<Rightarrow> bool" where
  "prev_link steps a b \<longleftrightarrow> (\<exists>sd. map_of steps a = Some sd \<and> sd_Prev sd = b \<and> b \<noteq> [])"

function prev_chain :: "steps_map \<Rightarrow> string list \<Rightarrow> string \<Rightarrow> string list" where
  "prev_chain steps visited n =
     (if n = [] \<or> n \<in> set visited then []
      else case map_of steps n of
        None \<Rightarrow> []
      | Some sd \<Rightarrow> n # prev_chain steps (n # visited) (sd_Prev sd))"
  by pat_completeness auto
termination
  by (relation "measure (\<lambda>(steps, visited, n). unseen steps visited)") auto

declare prev_chain.simps [simp del]

definition step_chain :: "workflow_definition \<Rightarrow> string \<Rightarrow> string list" where
  "step_chain def n = prev_chain (def_steps def) [] n"

lemma prev_chain_sound: "m \<in> set (prev_chain steps visited n) \<Longrightarrow> has_key steps m \<and> m \<noteq> [] \<and> (prev_link steps)\<^sup>*\<^sup>* n m"
proof (induction steps visited n rule: prev_chain.induct)
  case (1 steps visited n)
  show ?case
  proof (cases "map_of steps n")
    case None
    with "1.prems" show ?thesis by (simp add: prev_chain.simps [of steps visited n] split: if_splits)
  next
    case (Some sd)
    with "1.prems" have n: "n \<noteq> []" "n \<notin> set visited"
      and m: "m = n \<or> m \<in> set (prev_chain steps (n # visited) (sd_Prev sd))"
      by (auto simp: prev_chain.simps [of steps visited n] split: if_splits)
    from m show ?thesis
    proof
      assume "m = n"
      with n Some show ?thesis by (simp add: has_key_def)
    next
      assume m': "m \<in> set (prev_chain steps (n # visited) (sd_Prev sd))"
      then have "sd_Prev sd \<noteq> []" by (auto simp: prev_chain.simps [of steps "n # visited"] split: if_splits)
      with Some have "prev_link steps n (sd_Prev sd)" by (simp add: prev_link_def)
      moreover have "has_key steps m \<and> m \<noteq> [] \<and> (prev_link steps)\<^sup>*\<^sup>* (sd_Prev sd) m"
        using "1.IH" n Some m' by simp
      ultimately show ?thesis by (meson converse_rtranclp_into_rtranclp)
    qed
  qed
qed

lemma prev_chain_complete:
  assumes "rtrancl_path (prev_link steps) n path m" and "distinct (n # path)"
    and "set (n # path) \<inter> set visited = {}" and "has_key steps m" and "n \<noteq> []"
  shows "m \<in> set (prev_chain steps visited n)"
  using assms
proof (induction arbitrary: visited rule: rtrancl_path.induct)
  case (base x)
  then obtain sd where "map_of steps x = Some sd" by (auto simp: has_key_def)
  with base show ?case by (simp add: prev_chain.simps [of steps visited x])
next
  case (step x y ys z)
  from step.hyps(1) obtain sd where sd: "map_of steps x = Some sd" "sd_Prev sd = y" "y \<noteq> []"
    by (auto simp: prev_link_def)
  have "z \<in> set (prev_chain steps (x # visited) y)"
    using step.prems sd by (intro step.IH) auto
  with sd step.prems show ?case by (simp add: prev_chain.simps [of steps visited x])
qed

lemma step_chain_set: "n \<noteq> [] \<Longrightarrow> set (step_chain def n) = {m. has_key (def_steps def) m \<and> (prev_link (def_steps def))\<^sup>*\<^sup>* n m}"
proof (intro set_eqI iffI)
  fix m
  assume n: "n \<noteq> []" and m: "m \<in> {m. has_key (def_steps def) m \<and> (prev_link (def_steps def))\<^sup>*\<^sup>* n m}"
  then obtain path where "rtrancl_path (prev_link (def_steps def)) n path m"
    by (auto simp: rtranclp_eq_rtrancl_path)
  then obtain path' where "rtrancl_path (prev_link (def_steps def)) n path' m" "distinct (n # path')"
    by (rule rtrancl_path_distinct)
  with m n show "m \<in> set (step_chain def n)"
    unfolding step_chain_def by (intro prev_chain_complete) auto
qed (auto simp: step_chain_def dest: prev_chain_sound)

section \<open>The walks are searches in the chain\<close>

lemma descendant_walk_chain: "descendant_walk steps a visited n \<longleftrightarrow> a \<in> set (prev_chain steps visited n)"
proof (induction steps visited n rule: prev_chain.induct)
  case (1 steps visited n)
  have empty: "prev_chain steps vs [] = []" for vs by (simp add: prev_chain.simps)
  show ?case
    using "1.IH"
    by (auto simp: descendant_walk.simps [of steps a visited n] prev_chain.simps [of steps visited n] empty
        split: option.split)
qed

definition first_in :: "(string \<Rightarrow> bool) \<Rightarrow> string list \<Rightarrow> string" where
  "first_in P ns = (case find P ns of None \<Rightarrow> [] | Some n \<Rightarrow> n)"

definition has_type :: "steps_map \<Rightarrow> step_type \<Rightarrow> string \<Rightarrow> bool" where
  "has_type steps ty n = (case map_of steps n of None \<Rightarrow> False | Some sd \<Rightarrow> sd_Type sd = ty)"

lemma condition_walk_chain:
  "\<not> has_key steps rootStepName \<Longrightarrow>
   condition_walk steps visited n = first_in (has_type steps StepTypeCondition) (prev_chain steps visited n)"
proof (induction steps visited n rule: prev_chain.induct)
  case (1 steps visited n)
  then show ?case
    by (auto simp: condition_walk.simps [of steps visited n] prev_chain.simps [of steps visited n] first_in_def
        has_type_def has_key_def split: option.split)
qed

lemma under_fork_walk_chain:
  "\<not> has_key steps rootStepName \<Longrightarrow>
   under_fork_walk steps visited n \<longleftrightarrow>
     (\<exists>m \<in> set (prev_chain steps visited n). has_type steps StepTypeFork m \<or> in_some_fork steps m)"
proof (induction steps visited n rule: prev_chain.induct)
  case (1 steps visited n)
  show ?case
  proof (cases "map_of steps n")
    case None
    then show ?thesis
      by (auto simp: under_fork_walk.simps [of steps visited n] prev_chain.simps [of steps visited n])
  next
    case (Some sd)
    then have "has_type steps StepTypeFork n \<longleftrightarrow> sd_Type sd = StepTypeFork" by (simp add: has_type_def)
    moreover have "n \<noteq> rootStepName" using Some "1.prems" by (auto simp: has_key_def)
    ultimately show ?thesis using Some 1
      by (auto simp: under_fork_walk.simps [of steps visited n] prev_chain.simps [of steps visited n])
  qed
qed

text \<open>Where every step has a previous step, no step is looked through.\<close>

lemma save_point_walk_chain:
  assumes "\<not> has_key steps rootStepName" and "\<And>n sd. map_of steps n = Some sd \<Longrightarrow> sd_Prev sd \<noteq> []"
  shows "save_point_walk steps visited n =
    (case find (has_type steps StepTypeSavePoint) (prev_chain steps visited n) of
       None \<Rightarrow> rootStepName | Some m \<Rightarrow> m)"
  using assms
proof (induction steps visited n rule: prev_chain.induct)
  case (1 steps visited n)
  show ?case
  proof (cases "map_of steps n")
    case None
    then show ?thesis
      by (simp add: save_point_walk.simps [of steps visited n] prev_chain.simps [of steps visited n])
  next
    case (Some sd)
    with "1.prems" have "look_through steps sd = sd" by (simp add: look_through_def)
    with Some 1 show ?thesis
      by (auto simp: save_point_walk.simps [of steps visited n] prev_chain.simps [of steps visited n] has_type_def)
  qed
qed


section \<open>Reachability\<close>

definition forward :: "step_definition \<Rightarrow> string list" where
  "forward sd = sd_Next sd @ (if sd_Else sd \<noteq> [] then [sd_Else sd] else []) @ sd_Parallel sd"

definition leads_to :: "steps_map \<Rightarrow> string \<Rightarrow> string \<Rightarrow> bool" where
  "leads_to steps a b \<longleftrightarrow> (\<exists>sd. map_of steps a = Some sd \<and> b \<in> set (forward sd))"

text \<open>
  What a search from the steps \<open>ns\<close> guarantees that turns \<open>visited\<close> into \<open>visited'\<close>: if it finds nothing, the
  starting points were visited and everything newly visited is not the target and has its successors visited.
\<close>

definition search_result :: "steps_map \<Rightarrow> string \<Rightarrow> string list \<Rightarrow> string list \<Rightarrow> bool \<Rightarrow> string list \<Rightarrow> bool" where
  "search_result steps target ns visited found visited' \<longleftrightarrow>
     set visited \<subseteq> set visited' \<and>
     (if found then (\<exists>n \<in> set ns. (leads_to steps)\<^sup>*\<^sup>* n target)
      else (\<forall>n \<in> set ns. n \<noteq> target \<and> n \<in> set visited') \<and>
        (\<forall>x \<in> set visited' - set visited. x \<noteq> target \<and> (\<forall>y. leads_to steps x y \<longrightarrow> y \<in> set visited')))"

definition searches :: "steps_map \<Rightarrow> string \<Rightarrow> (string \<Rightarrow> (string list, bool) prog) \<Rightarrow> nat \<Rightarrow> bool" where
  "searches steps target f k \<longleftrightarrow>
     (\<forall>n visited. unseen steps visited \<le> k \<longrightarrow>
        (\<exists>b visited'. f n visited = (Ok b, visited') \<and> search_result steps target [n] visited b visited'))"

lemma search_result_Cons:
  assumes "search_result steps target [n] visited False v" and "search_result steps target ns v found w"
  shows "search_result steps target (n # ns) visited found w"
proof (cases found)
  case True
  with assms show ?thesis by (auto simp: search_result_def)
next
  case False
  then have sub: "set visited \<subseteq> set v" "set v \<subseteq> set w"
    and new: "\<forall>x \<in> set v - set visited. x \<noteq> target \<and> (\<forall>y. leads_to steps x y \<longrightarrow> y \<in> set v)"
      "\<forall>x \<in> set w - set v. x \<noteq> target \<and> (\<forall>y. leads_to steps x y \<longrightarrow> y \<in> set w)"
    and ns: "\<forall>m \<in> set (n # ns). m \<noteq> target \<and> m \<in> set w"
    using assms by (auto simp: search_result_def)
  then have "\<forall>x \<in> set w - set visited. x \<noteq> target \<and> (\<forall>y. leads_to steps x y \<longrightarrow> y \<in> set w)" by blast
  with sub ns False show ?thesis by (auto simp: search_result_def)
qed

lemma search_loop:
  assumes "searches steps target f k" and "unseen steps visited \<le> k"
  shows "\<exists>r visited'. for_find ns (\<lambda>n. bnd (f n) (\<lambda>r. ret (if r then Some () else None))) visited = (Ok r, visited') \<and>
    search_result steps target ns visited (r \<noteq> None) visited'"
  using assms(2)
proof (induction ns arbitrary: visited)
  case Nil
  show ?case by (simp add: ret_def search_result_def)
next
  case (Cons n ns)
  from assms(1) Cons.prems obtain b v where b: "f n visited = (Ok b, v)" "search_result steps target [n] visited b v"
    unfolding searches_def by blast
  show ?case
  proof (cases b)
    case True
    with b show ?thesis by (simp add: run_simps search_result_def)
  next
    case False
    with b have "set visited \<subseteq> set v" by (simp add: search_result_def)
    with Cons.prems have "unseen steps v \<le> k" by (meson unseen_mono order_trans)
    from Cons.IH [OF this] obtain r w where
      r: "for_find ns (\<lambda>n. bnd (f n) (\<lambda>r. ret (if r then Some () else None))) v = (Ok r, w)"
      "search_result steps target ns v (r \<noteq> None) w" by blast
    moreover have "search_result steps target (n # ns) visited (r \<noteq> None) w"
      using search_result_Cons [of steps target n visited v ns "r \<noteq> None" w] b(2) r(2) False by simp
    moreover have "for_find (n # ns) (\<lambda>n. bnd (f n) (\<lambda>r. ret (if r then Some () else None))) visited =
        for_find ns (\<lambda>n. bnd (f n) (\<lambda>r. ret (if r then Some () else None))) v"
      using b False by (simp add: bnd_run ret_def)
    ultimately show ?thesis by auto
  qed
qed

lemma search_result_enter:
  assumes sd: "map_of steps n = Some sd" and n: "n \<noteq> target" "n \<notin> set visited"
    and found: "search_result steps target (forward sd) (n # visited) found w"
  shows "search_result steps target [n] visited found w"
proof (cases found)
  case True
  with found obtain m where "m \<in> set (forward sd)" "(leads_to steps)\<^sup>*\<^sup>* m target"
    by (auto simp: search_result_def)
  moreover from this sd have "leads_to steps n m" by (auto simp: leads_to_def)
  ultimately have "(leads_to steps)\<^sup>*\<^sup>* n target" by (meson converse_rtranclp_into_rtranclp)
  with True found show ?thesis by (simp add: search_result_def)
next
  case False
  with found have all: "\<forall>m \<in> set (forward sd). m \<in> set w" and sub: "n \<in> set w" "set visited \<subseteq> set w"
    and new: "\<forall>x \<in> set w - set (n # visited). x \<noteq> target \<and> (\<forall>y. leads_to steps x y \<longrightarrow> y \<in> set w)"
    by (auto simp: search_result_def)
  have "\<forall>y. leads_to steps n y \<longrightarrow> y \<in> set w" using all sd by (auto simp: leads_to_def)
  with n new have "\<forall>x \<in> set w - set visited. x \<noteq> target \<and> (\<forall>y. leads_to steps x y \<longrightarrow> y \<in> set w)"
    by (metis Diff_iff set_ConsD)
  with sub n False show ?thesis by (simp add: search_result_def)
qed

lemma isStepReachableFrom_step:
  assumes rec: "\<And>k'. k = Suc k' \<Longrightarrow> searches steps target (isStepReachableFrom k steps target) k'"
  shows "searches steps target (isStepReachableFrom (Suc k) steps target) k"
  unfolding searches_def
proof (intro allI impI)
  fix n visited
  assume fuel: "unseen steps visited \<le> k"
  show "\<exists>b v. isStepReachableFrom (Suc k) steps target n visited = (Ok b, v) \<and>
      search_result steps target [n] visited b v"
  proof (cases "n = target \<or> n \<in> set visited \<or> map_of steps n = None")
    case True
    then consider "n = target" | "n \<noteq> target" "n \<in> set visited" | "n \<noteq> target" "n \<notin> set visited" "map_of steps n = None"
      by (cases "n = target"; cases "n \<in> set visited") auto
    then show ?thesis
      by cases (auto simp: run_simps search_result_def leads_to_def intro: exI [where x = False])
  next
    case False
    then obtain sd where sd: "map_of steps n = Some sd" and n: "n \<noteq> target" "n \<notin> set visited" by auto
    then have less: "unseen steps (n # visited) < unseen steps visited" by simp
    with fuel obtain k' where k: "k = Suc k'" by (cases k) auto
    with less fuel have "unseen steps (n # visited) \<le> k'" by simp
    from search_loop [OF rec [OF k] this, of "forward sd"] obtain r v where
      loop: "for_find (forward sd) (\<lambda>n. bnd (isStepReachableFrom k steps target n)
        (\<lambda>r. ret (if r then Some () else None))) (n # visited) = (Ok r, v)"
      and res: "search_result steps target (forward sd) (n # visited) (r \<noteq> None) v" by blast
    have "isStepReachableFrom (Suc k) steps target n visited = (Ok (r \<noteq> None), v)"
      using sd n loop by (simp add: run_simps forward_def)
    with search_result_enter [OF sd n res] show ?thesis by blast
  qed
qed

lemma isStepReachableFrom_searches: "searches steps target (isStepReachableFrom (Suc k) steps target) k"
proof (induction k)
  case 0
  show ?case by (rule isStepReachableFrom_step) simp
next
  case (Suc k)
  then show ?case by (intro isStepReachableFrom_step) (simp only: nat.inject)
qed

lemma isStepReachableFrom_decides:
  "\<exists>v. isStepReachableFrom (reach_fuel steps) steps target start [] = (Ok ((leads_to steps)\<^sup>*\<^sup>* start target), v)"
proof -
  have "unseen steps [] \<le> length steps + 1" using unseen_bound [of steps "[]"] by simp
  then obtain b v where run: "isStepReachableFrom (reach_fuel steps) steps target start [] = (Ok b, v)"
    and res: "search_result steps target [start] [] b v"
    using isStepReachableFrom_searches [of steps target "length steps + 1"]
    unfolding searches_def reach_fuel_def add_2_eq_Suc' Suc_eq_plus1 [symmetric] by blast
  have "b \<longleftrightarrow> (leads_to steps)\<^sup>*\<^sup>* start target"
  proof (cases b)
    case False
    have "x \<in> set v" if "(leads_to steps)\<^sup>*\<^sup>* start x" for x
      using that by induction (use res False in \<open>auto simp: search_result_def\<close>)
    moreover have "target \<notin> set v" using res False by (auto simp: search_result_def)
    ultimately show ?thesis using False by blast
  qed (use res in \<open>simp add: search_result_def\<close>)
  with run show ?thesis by simp
qed

section \<open>Properties\<close>

lemma valid_no_root:
  assumes "ValidateWorkflowDefinition def = Ok ()"
  shows "\<not> has_key (def_steps def) rootStepName"
proof
  assume "has_key (def_steps def) rootStepName"
  then obtain sd where "map_of (def_steps def) rootStepName = Some sd" by (auto simp: has_key_def)
  from valid_definition_steps [OF assms this] show False by (simp add: valid_step_def)
qed

text \<open>
  \<open>isStepDescendantOf\<close> decides whether a step has a given ancestor: it returns true exactly when the
  ancestor is a defined step that can be reached from the step along the previous-step links, on
  every definition, also one whose links form a cycle.
\<close>

theorem descendant_exact:
  "isStepDescendantOf n a def \<longleftrightarrow>
     n \<noteq> [] \<and> has_key (def_steps def) a \<and> (prev_link (def_steps def))\<^sup>*\<^sup>* n a"
proof (cases "n = []")
  case True
  then show ?thesis by (simp add: isStepDescendantOf_def descendant_walk.simps)
next
  case False
  with step_chain_set [OF False, of def] show ?thesis
    by (simp add: isStepDescendantOf_def descendant_walk_chain step_chain_def)
qed

text \<open>
  C33: \<open>isStepReachableFrom\<close> always returns (the bound on its recursion is never met), and it returns whether
  the target can be reached from the start step along next, else and parallel links.
\<close>

theorem reachability_exact:
  "\<exists>v. isStepReachableFrom (reach_fuel steps) steps target start [] = (Ok ((leads_to steps)\<^sup>*\<^sup>* start target), v)"
  by (rule isStepReachableFrom_decides)

text \<open>
  In a validated definition whose steps all have a previous step, a rollback stops at the right place:
  \<open>findNearestSavePoint\<close> returns the first save point among the step and its predecessors in order of
  distance, and the root marker if there is none.
\<close>

theorem nearest_save_point_exact:
  assumes valid: "ValidateWorkflowDefinition def = Ok ()"
    and linked: "\<forall>(n, sd) \<in> set (def_steps def). sd_Prev sd \<noteq> []"
  shows "findNearestSavePoint n def =
    (case find (has_type (def_steps def) StepTypeSavePoint) (step_chain def n) of
       None \<Rightarrow> rootStepName | Some m \<Rightarrow> m)"
proof -
  have "\<not> has_key (def_steps def) rootStepName" using valid by (rule valid_no_root)
  moreover have "sd_Prev sd \<noteq> []" if "map_of (def_steps def) m = Some sd" for m sd
    using linked map_of_SomeD [OF that] by auto
  ultimately show ?thesis
    unfolding findNearestSavePoint_def step_chain_def by (rule save_point_walk_chain)
qed

theorem nearest_save_point_exact_witness:
  "findNearestSavePoint ''b'' two_tasks =
    (case find (has_type (def_steps two_tasks) StepTypeSavePoint) (step_chain two_tasks ''b'') of
       None \<Rightarrow> rootStepName | Some m \<Rightarrow> m)"
  by (rule nearest_save_point_exact [OF two_tasks_valid]) (simp add: two_tasks_def rootStepName_def)

text \<open>
  In a validated definition, the condition a step's branch hangs off is the nearest one:
  \<open>findConditionStepInBranch\<close> returns the first condition step on the chain of predecessors, the empty
  name if there is none.
\<close>

theorem condition_of_branch_exact:
  assumes valid: "ValidateWorkflowDefinition def = Ok ()"
  shows "findConditionStepInBranch sd def =
    first_in (has_type (def_steps def) StepTypeCondition) (step_chain def (sd_Prev sd))"
proof -
  have "\<not> has_key (def_steps def) rootStepName" using valid by (rule valid_no_root)
  then show ?thesis unfolding findConditionStepInBranch_def step_chain_def by (rule condition_walk_chain)
qed

theorem condition_of_branch_exact_witness:
  "findConditionStepInBranch zero_step two_tasks =
    first_in (has_type (def_steps two_tasks) StepTypeCondition) (step_chain two_tasks (sd_Prev zero_step))"
  by (rule condition_of_branch_exact [OF two_tasks_valid])

end
