(* ===== verification/Rollback_Walk.thy ===== *)
theory Rollback_Walk
  imports Engine_Laws Graph_Walks
begin

text \<open>
  The rollback traversal of \<open>Engine_Rollback\<close>: it returns, it compensates no step twice and touches only completed
  and failed steps; without forks it is a loop over the predecessors of the failed step up to the save point.
\<close>

section \<open>The traversal always returns\<close>

definition halts :: "('s, 'a) prog \<Rightarrow> bool" where
  "halts m \<longleftrightarrow> (\<forall>s. fst (m s) \<noteq> Stuck)"

lemma halts_basic: "halts (ret x)" "halts (throw e)" "halts (gets f)" "halts (modify g)" "halts (panic p)"
  by (simp_all add: halts_def run_simps)

lemma halts_bnd: "halts m \<Longrightarrow> (\<And>x. halts (f x)) \<Longrightarrow> halts (bnd m f)"
  by (auto simp: halts_def bnd_def split: prod.split outcome.split) (metis fst_conv)

lemma halts_thn: "halts m \<Longrightarrow> halts n \<Longrightarrow> halts (thn m n)"
  unfolding thn_def by (rule halts_bnd)

lemma halts_wrap: "halts m \<Longrightarrow> halts (wrap_err w m)" "halts m \<Longrightarrow> halts (attempt m)"
  by (auto simp: halts_def wrap_err_def attempt_def split: prod.split outcome.split) (metis fst_conv)+

lemma halts_ignore: "halts m \<Longrightarrow> halts (ignore m)"
  unfolding ignore_def by (intro halts_bnd halts_wrap halts_basic)

lemma halts_cases:
  "(c \<Longrightarrow> halts m) \<Longrightarrow> (\<not> c \<Longrightarrow> halts n) \<Longrightarrow> halts (if c then m else n)"
  "(halts m) \<Longrightarrow> (\<And>y. halts (f y)) \<Longrightarrow> halts (case x of None \<Rightarrow> m | Some y \<Rightarrow> f y)"
  "halts (g z) \<Longrightarrow> halts (let y = z in g y)"
  by (auto split: option.split)

lemma halts_on_fst: "halts m \<Longrightarrow> halts (on_fst m)"
  by (auto simp: halts_def on_fst_def split: prod.split) (metis fst_conv)

lemmas halts_rules = halts_basic halts_bnd halts_thn halts_wrap halts_ignore halts_cases halts_on_fst

lemma halts_store:
  "halts (UpdateStep k ss out err)" "halts (UpdateStepCompensationRetry k c ss)" "halts (EnqueueStep i sid p d)"
  "halts (CreateDeadLetterRecord r)" "halts (log_event i sid n payload)" "halts (GetStepsByInstance i)"
  by (simp_all add: halts_def UpdateStep_def UpdateStepCompensationRetry_def GetStepByID_def EnqueueStep_def
      CreateDeadLetterRecord_def GetStepsByInstance_def put_step_def run_simps time_now_def Let_def split: option.split)

lemma halts_hooks: "halts (run_hooks_all h ps)"
  by (induction ps) (simp_all add: halts_rules)

lemma halts_ExecuteRollbackStepChain: "halts (ExecuteRollbackStepChain i n d)"
  unfolding ExecuteRollbackStepChain_def with_plugins_def by (intro halts_rules halts_hooks)

lemma halts_rollbackStep: "halts (rollbackStep st def)"
  unfolding rollbackStep_def by (intro halts_rules halts_store)

text \<open>The visited map only grows.\<close>

definition visits :: "'s \<times> string list \<Rightarrow> 's \<times> string list \<Rightarrow> bool" where
  "visits x y \<longleftrightarrow> set (snd x) \<subseteq> set (snd y)"

interpretation visits: step_preorder "visits :: 's \<times> string list \<Rightarrow> 's \<times> string list \<Rightarrow> bool"
  by unfold_locales (auto simp: visits_def)

lemma visits_on_fst: "moves visits (on_fst m)"
  by (auto simp: moves_def on_fst_def visits_def split: prod.split)

lemma visits_mark: "moves visits (modify (\<lambda>(s, visited). (s, n # visited)))"
  by (auto simp: moves_def modify_def visits_def split: prod.split)

lemmas visits_flow = visits.moves_ret visits.moves_throw visits.moves_stuck visits.moves_gets visits.moves_bnd
  visits.moves_thn visits.moves_for_each visits.moves_if visits.moves_option

lemma visits_rollback: "moves visits (rollbackStepChainWithVisited fuel i sp def m n par d)"
proof (induction fuel arbitrary: n par d)
  case 0
  show ?case by (simp add: visits.moves_stuck)
next
  case (Suc fuel)
  show ?case
    unfolding rollbackStepChainWithVisited.simps by (intro visits_flow visits_on_fst visits_mark Suc)
qed

text \<open>A loop whose body returns while less than \<open>k\<close> steps are unvisited.\<close>

definition halts_at :: "steps_map \<Rightarrow> nat \<Rightarrow> (engine \<times> string list, 'a) prog \<Rightarrow> bool" where
  "halts_at steps k m \<longleftrightarrow> (\<forall>s. unseen steps (snd s) < k \<longrightarrow> fst (m s) \<noteq> Stuck)"

lemma halts_at_halts: "halts m \<Longrightarrow> halts_at steps k m"
  by (simp add: halts_at_def halts_def)

lemma halts_at_bnd:
  assumes "halts_at steps k m" "moves visits m" "\<And>x. halts_at steps k (f x)"
  shows "halts_at steps k (bnd m f)"
  unfolding halts_at_def
proof (intro allI impI)
  fix s :: "engine \<times> string list" assume s: "unseen steps (snd s) < k"
  obtain r t where rt: "m s = (r, t)" by (cases "m s")
  with assms(1) s have "r \<noteq> Stuck" unfolding halts_at_def by (metis fst_conv)
  moreover from assms(2) rt have "visits s t" by (rule moves_result)
  then have "unseen steps (snd t) < k" using s unseen_mono [of "snd s" "snd t" steps] by (simp add: visits_def)
  ultimately show "fst (bnd m f s) \<noteq> Stuck"
    using assms(3) rt by (cases r) (simp_all add: bnd_def halts_at_def del: split_paired_All)
qed

lemma halts_at_thn:
  "halts_at steps k m \<Longrightarrow> moves visits m \<Longrightarrow> halts_at steps k n \<Longrightarrow> halts_at steps k (thn m n)"
  unfolding thn_def by (rule halts_at_bnd)

lemma halts_at_for_each:
  "(\<And>x. halts_at steps k (f x)) \<Longrightarrow> (\<And>x. moves visits (f x)) \<Longrightarrow> halts_at steps k (for_each xs f)"
  by (induction xs) (auto intro: halts_at_thn halts_at_halts halts_basic)

lemma halts_at_if: "(c \<Longrightarrow> halts_at steps k m) \<Longrightarrow> (\<not> c \<Longrightarrow> halts_at steps k n) \<Longrightarrow> halts_at steps k (if c then m else n)"
  by simp

lemma halts_at_option:
  "halts_at steps k m \<Longrightarrow> (\<And>y. halts_at steps k (f y)) \<Longrightarrow> halts_at steps k (case x of None \<Rightarrow> m | Some y \<Rightarrow> f y)"
  by (cases x) auto

lemmas halts_at_rules = halts_at_bnd halts_at_thn halts_at_for_each halts_at_if halts_at_option

text \<open>What a visit does with a step it has not seen, with \<open>rec\<close> for the recursive calls.\<close>

definition rollback_work :: "(string \<Rightarrow> bool \<Rightarrow> (engine \<times> string list, unit) prog) \<Rightarrow> workflow_definition \<Rightarrow> step_map \<Rightarrow>
    string \<Rightarrow> bool \<Rightarrow> step_definition \<Rightarrow> (engine \<times> string list, unit) prog" where
  "rollback_work rec def m n par sd =
     thn (if is_fork_like sd then for_each (sd_Parallel sd) (\<lambda>p. rec p True) else ret ())
    (thn (if par then for_each (branch_targets sd m n) (\<lambda>p. rec p True) else ret ())
    (thn (case rollback_candidate m n of
            None \<Rightarrow> ret ()
          | Some st \<Rightarrow> on_fst (wrap_err (''rollback step '' @ n) (rollbackStep st def)))
     (if sd_Prev sd \<noteq> [] \<and> sd_Prev sd \<noteq> rootStepName \<and> \<not> par
      then thn (case map_of (def_steps def) (sd_Prev sd) of
                  None \<Rightarrow> ret ()
                | Some prevDef \<Rightarrow> if is_fork_like prevDef then for_each (sd_Parallel prevDef) (\<lambda>p. rec p True) else ret ())
           (rec (sd_Prev sd) False)
      else ret ())))"

lemma rollback_run:
  "rollbackStepChainWithVisited (Suc fuel) i sp def m n par d (s, v) =
     (case ignore (ExecuteRollbackStepChain i n d) s of
        (Ok _, t) \<Rightarrow>
          if n \<in> set v then (Ok (), (t, v))
          else if n = sp then (Ok (), (t, n # v))
          else (case map_of (def_steps def) n of
            None \<Rightarrow> (Err (Errorf (''step definition not found: '' @ n)), (t, n # v))
          | Some sd \<Rightarrow> rollback_work (\<lambda>p par. rollbackStepChainWithVisited fuel i sp def m p par (d + 1)) def m n par sd (t, n # v))
      | (Err e, t) \<Rightarrow> (Err e, (t, v)) | (Panic p, t) \<Rightarrow> (Panic p, (t, v)) | (Stuck, t) \<Rightarrow> (Stuck, (t, v)))"
  by (auto simp: thn_def bnd_run on_fst_def gets_def modify_def ret_def throw_def rollback_work_def
      split: prod.split outcome.split option.split)

lemma visits_work: "(\<And>p b. moves visits (rec p b)) \<Longrightarrow> moves visits (rollback_work rec def m n par sd)"
  unfolding rollback_work_def by (intro visits_flow visits_on_fst)

lemma work_halts_at:
  assumes "\<And>p b. halts_at steps k (rec p b)" and "\<And>p b. moves visits (rec p b)"
  shows "halts_at steps k (rollback_work rec def m n par sd)"
  unfolding rollback_work_def
  by (intro halts_at_rules visits_flow visits_on_fst assms halts_at_halts halts_rules halts_rollbackStep)

lemma rollback_halts_at: "halts_at (def_steps def) fuel (rollbackStepChainWithVisited fuel i sp def m n par d)"
proof (induction fuel arbitrary: n par d)
  case 0
  show ?case by (simp add: halts_at_def)
next
  case (Suc fuel)
  let ?rec = "\<lambda>p par. rollbackStepChainWithVisited fuel i sp def m p par (d + 1)"
  have work: "halts_at (def_steps def) fuel (rollback_work ?rec def m n par sd)" for sd
    by (intro work_halts_at Suc visits_rollback)
  have hook: "fst (ignore (ExecuteRollbackStepChain i n d) s) \<noteq> Stuck" for s
    using halts_ignore [OF halts_ExecuteRollbackStepChain] by (auto simp: halts_def)
  show ?case
    unfolding halts_at_def
  proof (intro allI impI)
    fix x :: "engine \<times> string list"
    assume x: "unseen (def_steps def) (snd x) < Suc fuel"
    obtain s v where sv: "x = (s, v)" by fastforce
    show "fst (rollbackStepChainWithVisited (Suc fuel) i sp def m n par d x) \<noteq> Stuck"
    proof (cases "n \<in> set v \<or> n = sp \<or> map_of (def_steps def) n = None")
      case True
      with hook [of s] show ?thesis by (auto simp: sv rollback_run simp del: rollbackStepChainWithVisited.simps split: prod.split outcome.split)
    next
      case False
      then obtain sd where sd: "map_of (def_steps def) n = Some sd" "n \<notin> set v" "n \<noteq> sp" by auto
      then have "unseen (def_steps def) (n # v) < fuel" using x sv unseen_step [OF sd(1,2)] by (simp del: unseen_step)
      with work have "fst (rollback_work ?rec def m n par sd (t, n # v)) \<noteq> Stuck" for t
        by (simp add: halts_at_def)
      with sd hook [of s] show ?thesis by (auto simp: sv rollback_run simp del: rollbackStepChainWithVisited.simps split: prod.split outcome.split)
    qed
  qed
qed

lemma rollbackStepChain_halts: "halts (rollbackStepChain i n sp def m par d)"
proof -
  have "unseen (def_steps def) [] < rollback_fuel def"
    using unseen_bound [of "def_steps def" "[]"] by (simp add: rollback_fuel_def)
  then have "fst (rollbackStepChainWithVisited (rollback_fuel def) i sp def m n par d (s, [])) \<noteq> Stuck" for s
    using rollback_halts_at [of def "rollback_fuel def"] by (simp add: halts_at_def)
  then show ?thesis
    by (auto simp: halts_def rollbackStepChain_def split: prod.split) (metis fst_conv)
qed

section \<open>Without forks the traversal is a loop\<close>

definition roll_back_one :: "workflow_definition \<Rightarrow> step_map \<Rightarrow> string \<Rightarrow> unit eprog" where
  "roll_back_one def m n =
     (case rollback_candidate m n of
        None \<Rightarrow> ret () | Some st \<Rightarrow> wrap_err (''rollback step '' @ n) (rollbackStep st def))"

lemma plugins_kept: "moves (same en_plugins) (roll_back_one def m n)"
proof -
  have "moves (same en_plugins) (UpdateStep k ss out err)" "moves (same en_plugins) (UpdateStepCompensationRetry k c ss)"
    "moves (same en_plugins) (EnqueueStep i sid p d)" "moves (same en_plugins) (CreateDeadLetterRecord r)"
    "moves (same en_plugins) (log_event i sid n payload)" for k ss out err c i sid p d r n payload
    by (simp_all add: moves_def same_def UpdateStep_def UpdateStepCompensationRetry_def GetStepByID_def EnqueueStep_def
      CreateDeadLetterRecord_def put_step_def run_simps time_now_def Let_def split: option.split)
  then show ?thesis
    unfolding roll_back_one_def rollbackStep_def
    by (intro same.moves_option same.moves_ret same.moves_throw same.moves_if same.moves_let same.moves_thn same.moves_wrap_err)
qed

lemma work_linear:
  assumes "\<not> is_fork_like sd" and "\<And>prevDef. map_of (def_steps def) (sd_Prev sd) = Some prevDef \<Longrightarrow> \<not> is_fork_like prevDef"
  shows "rollback_work rec def m n False sd (s, v) =
    (case roll_back_one def m n s of
       (Ok _, t) \<Rightarrow> if sd_Prev sd \<noteq> [] \<and> sd_Prev sd \<noteq> rootStepName then rec (sd_Prev sd) False (t, v) else (Ok (), (t, v))
     | (Err e, t) \<Rightarrow> (Err e, (t, v)) | (Panic p, t) \<Rightarrow> (Panic p, (t, v)) | (Stuck, t) \<Rightarrow> (Stuck, (t, v)))"
  using assms
  by (auto simp: rollback_work_def roll_back_one_def thn_def bnd_run ret_def on_fst_def
      split: option.split prod.split outcome.split)

lemma prev_chain_empty [simp]: "prev_chain steps v [] = []"
  by (simp add: prev_chain.simps)

lemma rollback_linear:
  assumes no_forks: "\<And>k sd. map_of (def_steps def) k = Some sd \<Longrightarrow> \<not> is_fork_like sd"
    and linked: "\<And>k sd. map_of (def_steps def) k = Some sd \<Longrightarrow>
      sd_Prev sd = [] \<or> sd_Prev sd = rootStepName \<or> has_key (def_steps def) (sd_Prev sd)"
    and root: "\<not> has_key (def_steps def) rootStepName"
  shows "unseen (def_steps def) v < fuel \<Longrightarrow> has_key (def_steps def) n \<Longrightarrow> n \<noteq> [] \<Longrightarrow> en_plugins s = None \<Longrightarrow>
    \<exists>v'. rollbackStepChainWithVisited fuel i sp def m n False d (s, v) =
      (case for_each (takeWhile (\<lambda>k. k \<noteq> sp) (prev_chain (def_steps def) v n)) (roll_back_one def m) s of
         (r, t) \<Rightarrow> (r, (t, v')))"
proof (induction fuel arbitrary: n v s d)
  case (Suc fuel)
  note [simp del] = rollbackStepChainWithVisited.simps
  from Suc.prems obtain sd where sd: "map_of (def_steps def) n = Some sd" by (auto simp: has_key_def)
  have hook: "ignore (ExecuteRollbackStepChain i n d) s = (Ok (), s)"
    using Suc.prems by (simp add: ExecuteRollbackStepChain_def with_plugins_def run_simps)
  show ?case
  proof (cases "n \<in> set v \<or> n = sp")
    case True
    with sd hook show ?thesis
      by (auto simp: rollback_run prev_chain.simps [of _ v n] ret_def Suc.prems)
  next
    case False
    then have chain: "prev_chain (def_steps def) v n = n # prev_chain (def_steps def) (n # v) (sd_Prev sd)"
      using Suc.prems sd by (simp add: prev_chain.simps [of _ v n])
    have fuel: "unseen (def_steps def) (n # v) < fuel"
      using False Suc.prems unseen_step [OF sd, of v] by (simp del: unseen_step)
    obtain r t where one: "roll_back_one def m n s = (r, t)" by fastforce
    have t: "en_plugins t = None" using same_result [OF plugins_kept one] Suc.prems by simp
    have step: "rollbackStepChainWithVisited (Suc fuel) i sp def m n False d (s, v) =
        (case r of Ok _ \<Rightarrow> if sd_Prev sd \<noteq> [] \<and> sd_Prev sd \<noteq> rootStepName
             then rollbackStepChainWithVisited fuel i sp def m (sd_Prev sd) False (d + 1) (t, n # v) else (Ok (), (t, n # v))
         | Err e \<Rightarrow> (Err e, (t, n # v)) | Panic p \<Rightarrow> (Panic p, (t, n # v)) | Stuck \<Rightarrow> (Stuck, (t, n # v)))"
      using False hook sd one no_forks by (simp add: rollback_run work_linear split: outcome.split)
    show ?thesis
    proof (cases "\<exists>x. r = Ok x \<and> sd_Prev sd \<noteq> [] \<and> sd_Prev sd \<noteq> rootStepName")
      case True
      with linked [OF sd] have "has_key (def_steps def) (sd_Prev sd)" "sd_Prev sd \<noteq> []" by auto
      from Suc.IH [OF fuel this t, of "d + 1"] True False one show ?thesis
        by (auto simp: step chain thn_def bnd_run)
    next
      case no: False
      then have "prev_chain (def_steps def) (n # v) (sd_Prev sd) = []" if "r = Ok x" for x
        using that root by (auto simp: prev_chain.simps [of _ "n # v"] has_key_def)
      with no False one show ?thesis by (cases r) (auto simp: step chain thn_def bnd_run ret_def)
    qed
  qed
qed simp

lemma rollbackStepChain_linear:
  assumes no_forks: "\<forall>(k, sd) \<in> set (def_steps def). \<not> is_fork_like sd"
    and linked: "\<forall>(k, sd) \<in> set (def_steps def). sd_Prev sd = [] \<or> sd_Prev sd = rootStepName \<or> has_key (def_steps def) (sd_Prev sd)"
    and names: "\<not> has_key (def_steps def) rootStepName" "has_key (def_steps def) n" "n \<noteq> []"
    and plugins: "en_plugins s = None"
  shows "rollbackStepChain i n sp def m False d s =
    for_each (takeWhile (\<lambda>k. k \<noteq> sp) (step_chain def n)) (roll_back_one def m) s"
proof -
  have "unseen (def_steps def) [] < rollback_fuel def"
    using unseen_bound [of "def_steps def" "[]"] by (simp add: rollback_fuel_def)
  moreover have "\<not> is_fork_like sd" "sd_Prev sd = [] \<or> sd_Prev sd = rootStepName \<or> has_key (def_steps def) (sd_Prev sd)"
    if "map_of (def_steps def) k = Some sd" for k sd
    using map_of_SomeD [OF that] no_forks linked by auto
  ultimately obtain v where "rollbackStepChainWithVisited (rollback_fuel def) i sp def m n False d (s, []) =
      (case for_each (takeWhile (\<lambda>k. k \<noteq> sp) (prev_chain (def_steps def) [] n)) (roll_back_one def m) s of
         (r, t) \<Rightarrow> (r, (t, v)))"
    using rollback_linear [of def "[]" "rollback_fuel def" n s i sp m d] names plugins by blast
  then show ?thesis by (simp add: rollbackStepChain_def step_chain_def split: prod.split)
qed


section \<open>No step is compensated twice\<close>

definition queued :: "'x memory_store_scheme \<Rightarrow> int \<Rightarrow> nat" where
  "queued s k = length (filter (\<lambda>(q, item). qi_StepID item = Some k) (ms_queue s))"

lemma queued_update:
  "length (filter (\<lambda>(q, item). qi_StepID item = Some k) (AList.update j x q)) \<le>
     length (filter (\<lambda>(q, item). qi_StepID item = Some k) q) + (if qi_StepID x = Some k then 1 else 0)"
  by (induction q) (auto split: if_splits)

lemma enqueued_step [simp]: "qi_StepID (enqueued s i sid p d) = sid"
  by (simp add: enqueued_def)

lemma queued_enqueued:
  "ms_queue t = AList.update j (enqueued u i (Some k) p d) (ms_queue s) \<Longrightarrow>
   queued t l \<le> queued s l + (if k = l then 1 else 0)"
  using queued_update [of l j "enqueued u i (Some k) p d" "ms_queue s"] by (auto simp: queued_def)

lemma hook_same: "moves (same (\<lambda>s. (ms_steps s, ms_queue s))) (ignore (ExecuteRollbackStepChain i n d))"
proof -
  have "moves (same (\<lambda>s. (ms_steps s, ms_queue s))) (run_hooks_all h ps)" for h ps
    by (induction ps) (simp_all add: moves_def same_def run_simps)
  then show ?thesis
    unfolding ExecuteRollbackStepChain_def with_plugins_def
    by (intro same.moves_ignore same.moves_bnd same.moves_gets same.moves_option same.moves_ret)
qed

text \<open>The steps of the map that carry the number \<open>k\<close> under one of the names.\<close>

definition named :: "step_map \<Rightarrow> string list \<Rightarrow> int \<Rightarrow> nat" where
  "named m v k = card {n \<in> set v. \<exists>st. map_of m n = Some st \<and> ws_ID st = k}"

definition candidate :: "step_map \<Rightarrow> int \<Rightarrow> bool" where
  "candidate m k \<longleftrightarrow> (\<exists>n st. rollback_candidate m n = Some st \<and> ws_ID st = k)"

definition settled :: "step_map \<Rightarrow> engine \<Rightarrow> engine \<Rightarrow> bool" where
  "settled m s t \<longleftrightarrow> (\<forall>k. map_of (ms_steps t) k = map_of (ms_steps s) k \<or>
     (candidate m k \<and> (\<exists>su. map_of (ms_steps t) k = Some su \<and>
        ws_Status su \<in> {StepStatusRolledBack, StepStatusFailed, StepStatusCompensation})))"

lemma settled_refl: "settled m s s"
  by (simp add: settled_def)

lemma settled_trans: "settled m s t \<Longrightarrow> settled m t u \<Longrightarrow> settled m s u"
  unfolding settled_def by metis

text \<open>
  \<open>spends \<delta>\<close> allows each step number \<open>k\<close> as many new queue items as new names were visited for it, and
  \<open>\<delta> k\<close> more.
\<close>

definition spends :: "step_map \<Rightarrow> (int \<Rightarrow> nat) \<Rightarrow> engine \<times> string list \<Rightarrow> engine \<times> string list \<Rightarrow> bool" where
  "spends m \<delta> x y \<longleftrightarrow> settled m (fst x) (fst y) \<and> set (snd x) \<subseteq> set (snd y) \<and>
     (\<forall>k. queued (fst y) k + named m (snd x) k \<le> queued (fst x) k + named m (snd y) k + \<delta> k)"

lemma spends_compose:
  assumes "spends m \<delta> x y" "spends m \<epsilon> y z"
  shows "spends m (\<lambda>k. \<delta> k + \<epsilon> k) x z"
proof -
  have "queued (fst z) k + named m (snd x) k \<le> queued (fst x) k + named m (snd z) k + (\<delta> k + \<epsilon> k)" for k
  proof -
    have "queued (fst y) k + named m (snd x) k \<le> queued (fst x) k + named m (snd y) k + \<delta> k"
      "queued (fst z) k + named m (snd y) k \<le> queued (fst y) k + named m (snd z) k + \<epsilon> k"
      using assms by (simp_all add: spends_def)
    then show ?thesis by linarith
  qed
  with assms show ?thesis unfolding spends_def by (blast intro: settled_trans)
qed

interpretation spends: step_preorder "spends m (\<lambda>k. 0)"
proof
  show "spends m (\<lambda>k. 0) x x" for x by (simp add: spends_def settled_refl)
  show "spends m (\<lambda>k. 0) x y \<Longrightarrow> spends m (\<lambda>k. 0) y z \<Longrightarrow> spends m (\<lambda>k. 0) x z" for x y z
    using spends_compose [of m "\<lambda>k. 0" x y "\<lambda>k. 0" z] by simp
qed

lemma moves_thn_compose:
  assumes "moves S m" "moves T n" "\<And>x y z. S x y \<Longrightarrow> T y z \<Longrightarrow> U x z" "\<And>x y. S x y \<Longrightarrow> U x y"
  shows "moves U (thn m n)"
proof (rule movesI)
  fix s
  obtain r t where rt: "m s = (r, t)" by fastforce
  then have "S s t" by (rule moves_result [OF assms(1)])
  moreover have "T t (snd (n t))" by (rule movesD [OF assms(2)])
  ultimately show "U s (snd (thn m n s))" using assms(3,4) rt by (cases r) (auto simp: thn_def bnd_def)
qed

lemma spends_weaken: "spends m (\<lambda>k. 0) x y \<Longrightarrow> spends m \<delta> x y"
  unfolding spends_def by (auto intro: trans_le_add1)

lemma spends_free: "moves (spends m (\<lambda>k. 0)) p \<Longrightarrow> moves (spends m \<delta>) p"
  by (simp add: moves_def spends_weaken)

definition one_of :: "step_map \<Rightarrow> string \<Rightarrow> int \<Rightarrow> nat" where
  "one_of m n k = (case map_of m n of None \<Rightarrow> 0 | Some st \<Rightarrow> if ws_ID st = k then 1 else 0)"

lemma queued_same: "ms_queue t = ms_queue s \<Longrightarrow> queued t k = queued s k"
  by (simp add: queued_def)

lemma spends_on_fst:
  "spends m \<delta> (s, v) (t, v) \<longleftrightarrow> settled m s t \<and> (\<forall>k. queued t k \<le> queued s k + \<delta> k)"
  by (simp add: spends_def)

lemma rollbackStep_spends:
  assumes "rollback_candidate m n = Some st"
  shows "moves (spends m (one_of m n)) (on_fst (wrap_err w (rollbackStep st def)))"
proof (rule movesI)
  fix x :: "engine \<times> string list"
  obtain s v where x: "x = (s, v)" by fastforce
  define t where "t = snd (rollbackStep st def s)"
  have id: "candidate m (ws_ID st)" "one_of m n = (\<lambda>k. if ws_ID st = k then 1 else 0)"
    using assms by (auto simp: candidate_def one_of_def rollback_candidate_def fun_eq_iff split: option.splits if_splits)
  have "settled m s t"
    using id(1)
    by (auto simp: t_def settled_def rollbackStep_def UpdateStep_def UpdateStepCompensationRetry_def GetStepByID_def
        CreateDeadLetterRecord_def put_step_def run_simps time_now_def Let_def split: option.split)
  moreover have "ms_queue t = ms_queue s \<or>
      (\<exists>j (u :: engine) i p d. ms_queue t = AList.update j (enqueued u i (Some (ws_ID st)) p d) (ms_queue s))"
    by (auto simp: t_def rollbackStep_def UpdateStep_def UpdateStepCompensationRetry_def GetStepByID_def
        CreateDeadLetterRecord_def put_step_def run_simps time_now_def Let_def split: option.split) blast
  then have "queued t k \<le> queued s k + one_of m n k" for k
    unfolding id(2) by (elim disjE exE) (rule queued_same [THEN eq_imp_le, THEN trans_le_add1], assumption, rule queued_enqueued)
  ultimately have "spends m (one_of m n) (s, v) (t, v)" by (simp add: spends_on_fst)
  then show "spends m (one_of m n) x (snd (on_fst (wrap_err w (rollbackStep st def)) x))"
    by (auto simp: x on_fst_def t_def wrap_err_def split: prod.splits outcome.splits)
qed

lemma work_spends:
  assumes "\<And>p b. moves (spends m (\<lambda>k. 0)) (rec p b)"
  shows "moves (spends m (one_of m n)) (rollback_work rec def m n par sd)"
proof -
  note flow = spends.moves_ret spends.moves_for_each spends.moves_if spends.moves_option spends.moves_thn
  have then_free: "spends m \<delta> x y \<Longrightarrow> spends m (\<lambda>k. 0) y z \<Longrightarrow> spends m \<delta> x z"
    and free_then: "spends m (\<lambda>k. 0) x y \<Longrightarrow> spends m \<delta> y z \<Longrightarrow> spends m \<delta> x z" for \<delta> x y z
    using spends_compose [of m \<delta> x y "\<lambda>k. 0" z] spends_compose [of m "\<lambda>k. 0" x y \<delta> z] by simp_all
  have rest: "moves (spends m (\<lambda>k. 0)) (if sd_Prev sd \<noteq> [] \<and> sd_Prev sd \<noteq> rootStepName \<and> \<not> par
      then thn (case map_of (def_steps def) (sd_Prev sd) of
                  None \<Rightarrow> ret ()
                | Some prevDef \<Rightarrow> if is_fork_like prevDef then for_each (sd_Parallel prevDef) (\<lambda>p. rec p True) else ret ())
           (rec (sd_Prev sd) False)
      else ret ())"
    by (intro flow assms)
  have cand: "moves (spends m (one_of m n)) (case rollback_candidate m n of
            None \<Rightarrow> ret ()
          | Some st \<Rightarrow> on_fst (wrap_err (''rollback step '' @ n) (rollbackStep st def)))"
    by (cases "rollback_candidate m n") (simp_all add: rollbackStep_spends spends_free spends.moves_ret)
  have last: "moves (spends m (one_of m n)) (thn (case rollback_candidate m n of
            None \<Rightarrow> ret ()
          | Some st \<Rightarrow> on_fst (wrap_err (''rollback step '' @ n) (rollbackStep st def)))
     (if sd_Prev sd \<noteq> [] \<and> sd_Prev sd \<noteq> rootStepName \<and> \<not> par
      then thn (case map_of (def_steps def) (sd_Prev sd) of
                  None \<Rightarrow> ret ()
                | Some prevDef \<Rightarrow> if is_fork_like prevDef then for_each (sd_Parallel prevDef) (\<lambda>p. rec p True) else ret ())
           (rec (sd_Prev sd) False)
      else ret ()))"
    by (rule moves_thn_compose [OF cand rest]) (auto intro: then_free)
  have loops: "moves (spends m (\<lambda>k. 0)) (if is_fork_like sd then for_each (sd_Parallel sd) (\<lambda>p. rec p True) else ret ())"
    "moves (spends m (\<lambda>k. 0)) (if par then for_each (branch_targets sd m n) (\<lambda>p. rec p True) else ret ())"
    by (intro flow assms)+
  have inner: "moves (spends m (one_of m n)) (thn (if par then for_each (branch_targets sd m n) (\<lambda>p. rec p True) else ret ()) p)"
    if "moves (spends m (one_of m n)) p" for p
    by (rule moves_thn_compose [OF loops(2) that]) (auto intro: free_then spends_weaken)
  show ?thesis
    unfolding rollback_work_def
    by (rule moves_thn_compose [OF loops(1) inner [OF last]]) (auto intro: free_then spends_weaken)
qed

lemma named_Cons:
  assumes "n \<notin> set v"
  shows "named m (n # v) k = named m v k + one_of m n k"
proof -
  have "{x \<in> set (n # v). \<exists>st. map_of m x = Some st \<and> ws_ID st = k} =
      {x \<in> set v. \<exists>st. map_of m x = Some st \<and> ws_ID st = k} \<union> (if one_of m n k = 1 then {n} else {})"
    by (auto simp: one_of_def split: option.splits if_splits)
  then show ?thesis
    using assms by (auto simp: named_def one_of_def split: option.splits if_splits)
qed

lemma rollback_spends: "moves (spends m (\<lambda>k. 0)) (rollbackStepChainWithVisited fuel i sp def m n par d)"
proof (induction fuel arbitrary: n par d)
  case 0
  show ?case by (simp add: spends.moves_stuck)
next
  case (Suc fuel)
  note [simp del] = rollbackStepChainWithVisited.simps
  let ?rec = "\<lambda>p par. rollbackStepChainWithVisited fuel i sp def m p par (d + 1)"
  show ?case
  proof (rule movesI)
    fix x :: "engine \<times> string list"
    obtain s v where x: "x = (s, v)" by fastforce
    obtain r t where rt: "ignore (ExecuteRollbackStepChain i n d) s = (r, t)" by fastforce
    have "moves (same (\<lambda>s. (ms_steps s, ms_queue s))) (ignore (ExecuteRollbackStepChain i n d))"
      by (rule hook_same)
    from same_result [OF this rt] have t: "ms_steps t = ms_steps s" "ms_queue t = ms_queue s" by simp_all
    have q: "queued t k = queued s k" for k using t by (simp add: queued_def)
    have "spends m (\<lambda>k. 0) (s, v) (t, v)" using t q by (simp add: spends_def settled_def)
    moreover have mark: "spends m (\<lambda>k. 0) (s, v) (t, n # v)" if "n \<notin> set v"
      using t q that by (auto simp: spends_def settled_def named_Cons)
    moreover have "spends m (\<lambda>k. 0) (s, v) (snd (rollback_work ?rec def m n par sd (t, n # v)))" if "n \<notin> set v" for sd
    proof -
      have w: "spends m (one_of m n) (t, n # v) (snd (rollback_work ?rec def m n par sd (t, n # v)))"
        by (rule movesD [OF work_spends [OF Suc]])
      show ?thesis
        using w t q that by (auto simp: spends_def settled_def named_Cons)
    qed
    ultimately show "spends m (\<lambda>k. 0) x (snd (rollbackStepChainWithVisited (Suc fuel) i sp def m n par d x))"
      by (auto simp: x rollback_run rt split: outcome.split option.split)
  qed
qed

lemma rollbackStepChain_spends:
  "rollbackStepChain i n sp def m par d s = (r, t) \<Longrightarrow> \<exists>v. spends m (\<lambda>k. 0) (s, []) (t, v)"
  using movesD [OF rollback_spends, of m "(s, [])" "rollback_fuel def" i sp def n par d]
  by (auto simp: rollbackStepChain_def split: prod.splits)

text \<open>The map of the steps of an instance: each stored step under its own name, the latest of that name.\<close>

lemma build_step_map_entry: "map_of (build_step_map sts) n = Some st \<Longrightarrow> st \<in> set sts \<and> ws_StepName st = n"
proof -
  have "map_of (fold (\<lambda>st m. AList.update (ws_StepName st) st m) sts m) n = Some st \<Longrightarrow>
      (st \<in> set sts \<and> ws_StepName st = n) \<or> map_of m n = Some st" for m
    by (induction sts arbitrary: m) (fastforce split: if_splits)+
  from this [of "[]"] show "map_of (build_step_map sts) n = Some st \<Longrightarrow> st \<in> set sts \<and> ws_StepName st = n"
    by (simp add: build_step_map_def)
qed

lemma named_le_one:
  assumes "\<And>n st. map_of m n = Some st \<Longrightarrow> map_of steps (ws_ID st) = Some st \<and> ws_StepName st = n"
  shows "named m v k \<le> 1"
proof -
  have "{n \<in> set v. \<exists>st. map_of m n = Some st \<and> ws_ID st = k} \<subseteq> ws_StepName ` set_option (map_of steps k)"
    using assms by force
  then have "named m v k \<le> card (ws_StepName ` set_option (map_of steps k))"
    unfolding named_def by (rule card_mono [rotated]) simp
  also have "\<dots> \<le> 1" by (cases "map_of steps k") simp_all
  finally show ?thesis .
qed

text \<open>
  C8: rolling back after a failure returns, and is careful.  For a well-formed store and a stored failed step, the
  rollback to the nearest save point never hangs, whatever the definition looks like; no step gets more than one
  new queue item, so no step is compensated twice; a step it changes was completed or failed and is then
  rolled back, failed or in compensation; every other step stays as it is.
\<close>

theorem rollback_once:
  assumes wf: "wf_store s" and failed: "map_of (ms_steps s) (ws_ID st) = Some st"
  shows "\<exists>r t. rollbackToSavePointOrRoot i st def s = (r, t) \<and> r \<noteq> Stuck \<and>
    (\<forall>k. queued t k \<le> queued s k + 1 \<and>
      (map_of (ms_steps t) k = map_of (ms_steps s) k \<or>
       (\<exists>su sv. map_of (ms_steps s) k = Some su \<and> ws_Status su \<in> {StepStatusCompleted, StepStatusFailed} \<and>
          map_of (ms_steps t) k = Some sv \<and>
          ws_Status sv \<in> {StepStatusRolledBack, StepStatusFailed, StepStatusCompensation})))"
proof -
  define m0 where "m0 = build_step_map (steps_of s i)"
  define m where "m = (if has_key m0 (ws_StepName st) then m0 else AList.update (ws_StepName st) st m0)"
  have entry: "map_of (ms_steps s) (ws_ID su) = Some su \<and> ws_StepName su = n" if "map_of m n = Some su" for n su
    using that failed steps_of_set [OF wf, of i] build_step_map_entry [of "steps_of s i" n su]
    by (auto simp: m_def m0_def split: if_splits)
  obtain r t where rt: "rollbackStepChain i (ws_StepName st) (findNearestSavePoint (ws_StepName st) def) def m False 0 s = (r, t)"
    by fastforce
  have run: "rollbackToSavePointOrRoot i st def s = (r, t)"
    using rt by (simp add: rollbackToSavePointOrRoot_def rollbackStepsToSavePoint_def bnd_run wrap_err_def
        GetStepsByInstance_run [OF wf] Let_def m0_def [symmetric] m_def split: if_splits)
  have "r \<noteq> Stuck" using rollbackStepChain_halts rt by (metis fst_conv halts_def)
  moreover obtain v where v: "spends m (\<lambda>k. 0) (s, []) (t, v)" using rollbackStepChain_spends [OF rt] by blast
  have "queued t k \<le> queued s k + 1" for k
  proof -
    have "named m v k \<le> 1" using named_le_one [of m "ms_steps s" v k] entry by blast
    moreover have "queued t k \<le> queued s k + named m v k"
      using v by (auto simp: spends_def named_def dest: spec [of _ k])
    ultimately show ?thesis by linarith
  qed
  moreover have "\<exists>su. map_of (ms_steps s) k = Some su \<and> ws_Status su \<in> {StepStatusCompleted, StepStatusFailed}"
    if "candidate m k" for k
    using that entry by (auto simp: candidate_def rollback_candidate_def split: option.splits if_splits)
  then have "map_of (ms_steps t) k = map_of (ms_steps s) k \<or>
       (\<exists>su sv. map_of (ms_steps s) k = Some su \<and> ws_Status su \<in> {StepStatusCompleted, StepStatusFailed} \<and>
          map_of (ms_steps t) k = Some sv \<and>
          ws_Status sv \<in> {StepStatusRolledBack, StepStatusFailed, StepStatusCompensation})" for k
    using v unfolding spends_def settled_def fst_conv by meson
  ultimately show ?thesis using run by blast
qed


theorem rollback_once_witness:
  "\<exists>r t. rollbackToSavePointOrRoot 1 demo_step demo_workflow demo_started = (r, t) \<and> r \<noteq> Stuck \<and>
    queued t 1 \<le> queued demo_started 1 + 1"
proof -
  have "wf_store demo_started" by (rule demo_started_wf)
  from rollback_once [OF this, of demo_step 1 demo_workflow] demo_facts show ?thesis by auto
qed

end
