(* ===== verification/Saga_Run.thy ===== *)
theory Saga_Run
  imports Linear_Run Rollback_Walk
begin

text \<open>
  A saga from start to the last compensation: a row of tasks whose last one fails for good.  The failing step is
  retried as often as its definition allows, then the steps that have run are rolled back, and the workers run the queued
  compensations, latest step first.
\<close>

section \<open>Rows of steps\<close>

fun row :: "workflow_definition \<Rightarrow> string \<Rightarrow> string list \<Rightarrow> bool" where
  "row def p [] \<longleftrightarrow> True"
| "row def p (n # ns) \<longleftrightarrow> (\<exists>sd. map_of (def_steps def) n = Some sd \<and> sd_Prev sd = p \<and> sd_Delay sd \<le> 0 \<and>
     (ns \<noteq> [] \<longrightarrow> sd_Next sd = [hd ns])) \<and> row def n ns"

lemma row_last: "row def p (xs @ [a, b]) \<Longrightarrow> \<exists>sd. map_of (def_steps def) b = Some sd \<and> sd_Prev sd = a"
  by (induction xs arbitrary: p) auto

lemma row_butlast: "row def p (xs @ [a, b]) \<Longrightarrow> row def p (xs @ [a])"
  by (induction xs arbitrary: p) (auto simp: hd_append split: if_splits)

lemma row_delay: "row def p ns \<Longrightarrow> n \<in> set ns \<Longrightarrow> map_of (def_steps def) n = Some sd \<Longrightarrow> sd_Delay sd \<le> 0"
  by (induction ns arbitrary: p) auto

lemma row_mem: "row def p ns \<Longrightarrow> n \<in> set ns \<Longrightarrow> has_key (def_steps def) n"
  by (induction ns arbitrary: p) (auto simp: has_key_def)

lemma prev_chain_row:
  assumes root: "\<not> has_key (def_steps def) rootStepName"
  shows "row def rootStepName (past @ [n]) \<Longrightarrow> [] \<notin> set (past @ [n]) \<Longrightarrow> distinct (past @ [n]) \<Longrightarrow> set v \<inter> set (past @ [n]) = {} \<Longrightarrow>
    prev_chain (def_steps def) v n = n # rev past"
proof (induction past arbitrary: n v rule: rev_induct)
  case Nil
  with root show ?case by (auto simp: prev_chain.simps [of _ v n] prev_chain.simps [of _ "n # v" rootStepName] has_key_def)
next
  case (snoc p past)
  from row_last [of def rootStepName past p n] snoc.prems(1) obtain sd where sd: "map_of (def_steps def) n = Some sd" "sd_Prev sd = p" by auto
  have "row def rootStepName (past @ [p])" using row_butlast snoc.prems(1) by simp
  then have "prev_chain (def_steps def) (n # v) p = p # rev past" using snoc.prems by (intro snoc.IH) auto
  with sd snoc.prems show ?case by (auto simp: prev_chain.simps [of _ v n])
qed

lemma step_chain_row:
  assumes "\<not> has_key (def_steps def) rootStepName" "row def rootStepName (past @ [n])" "[] \<notin> set (past @ [n])" "distinct (past @ [n])"
  shows "step_chain def n = n # rev past"
  unfolding step_chain_def using assms by (intro prev_chain_row) auto

lemma find_in: "find P xs = Some x \<Longrightarrow> x \<in> set xs"
  by (auto simp: find_Some_iff)

lemma no_save_point: "all_tasks def \<Longrightarrow> findNearestSavePoint n def = rootStepName"
proof -
  assume def: "all_tasks def"
  have "save_point_walk steps v n = rootStepName" if "steps = def_steps def" for steps v n
    using that
  proof (induction steps v n rule: save_point_walk.induct)
    case (1 steps v n)
    have "sd_Type (look_through steps sd) = StepTypeTask" if "map_of steps n = Some sd" for sd
      using that def "1.prems" by (auto simp: look_through_def dest: all_tasksD dest!: find_in split: option.split) (auto simp: all_tasks_def)
    with 1 show ?case by (subst save_point_walk.simps) (auto simp: Let_def split: option.split)
  qed
  then show ?thesis by (simp add: findNearestSavePoint_def)
qed

section \<open>Retries\<close>

abbreviation is_failure :: "handler_result \<Rightarrow> bool" where
  "is_failure answer \<equiv> \<not> is_success answer"

lemma settle_failure: "is_failure answer \<Longrightarrow> \<exists>e. settle_answer inst st sd answer = handleStepFailure inst (StepCopy st) sd e"
  by (cases answer) (auto simp: settle_answer_def is_success_def)

lemma attempted_may_retry:
  "attempted def n r st \<Longrightarrow> map_of (def_steps def) n = Some sd \<Longrightarrow> may_retry st sd \<longleftrightarrow> r < retry_limit sd"
  by (auto simp: attempted_def may_retry_def retry_limit_def split: if_splits)

lemma turn_retry:
  assumes def: "all_tasks def" and at: "stands_at def inst past n r s" and sd: "map_of (def_steps def) n = Some sd"
    and ans: "answers s def n is_failure" and lim: "r < retry_limit sd" and delay: "sd_Delay sd \<le> 0"
  shows "\<exists>t c. ExecuteNext wk s = (Ok False, t) \<and> stands_at def inst past n (Suc r) t \<and> en_handlers t = en_handlers s \<and>
    en_calls t = en_calls s @ [c] \<and> call_of inst n sd c"
proof -
  obtain st item u answer where st: "map_of (ms_steps s) (ws_ID st) = Some st" "ws_InstanceID st = wi_ID inst" "attempted def n r st"
    and others: "others_done s (wi_ID inst) (ws_ID st)" and u: "started_from s item u" and q: "ms_queue u = [(qi_ID item, item)]" and "is_failure answer"
    and run: "\<And>v. settle_answer inst st sd answer (called_state inst st sd u) = (Ok (), v) \<Longrightarrow>
       \<exists>cs. ExecuteNext wk s = (Ok False, v\<lparr>en_cancelContexts := cs, ms_queue := AList.delete (qi_ID item) (ms_queue v),
         en_activeSteps := en_activeSteps v - 1\<rparr>)"
    by (rule turn_runs_step [OF def at sd ans, of wk]) blast
  then obtain e where e: "settle_answer inst st sd answer = handleStepFailure inst (StepCopy st) sd e" using settle_failure by blast
  from at have parts: "wf_store s" "quiet s" "knows s inst def" "step_names s (wi_ID inst) = past @ [n]" by (simp_all add: stands_at_def)
  define c where "c = called_state inst st sd u"
  note c = called_fields [OF u st(1) c_def]
  define v where "v = snd (handleStepFailure inst (StepCopy st) sd e c)"
  have may: "may_retry st sd" using attempted_may_retry [OF st(3) sd] lim by simp
  have v: "handleStepFailure inst (StepCopy st) sd e c = (Ok (), v)"
    using may c st by (simp add: v_def handleStepFailure_def retry_step_def Let_def run_simps UpdateStep_run)
  define su where "su = the (map_of (ms_steps v) (ws_ID st))"
  have fields: "ms_instances v = ms_instances s" "ms_definitions v = ms_definitions s" "ms_cancelRequests v = ms_cancelRequests s"
    "ms_stepsByInstance v = ms_stepsByInstance s" "en_handlers v = en_handlers s" "en_plugins v = en_plugins s"
    "en_isShuttingDown v = en_isShuttingDown s" "en_calls v = en_calls c"
    "map_of (ms_steps v) = (map_of (ms_steps s))(ws_ID st \<mapsto> su)" "attempted def n (Suc r) su" "ws_ID su = ws_ID st"
    "ws_InstanceID su = wi_ID inst"
    using may c st sd by (auto simp: v_def su_def handleStepFailure_def retry_step_def Let_def run_simps UpdateStep_run attempted_def)
  have id: "qi_ID item < ms_nextQueueID s" using u by (simp add: started_from_def)
  have "\<exists>new. ms_queue v = [(qi_ID item, item), (qi_ID new, new)] \<and> qi_ID new = ms_nextQueueID s \<and> qi_InstanceID new = wi_ID inst \<and>
      qi_StepID new = Some (ws_ID st) \<and> qi_AttemptedAt new = None \<and> qi_ScheduledAt new \<le> ms_clock v \<and> 0 \<le> qi_Priority new"
    using may c q st id delay
    by (simp add: v_def handleStepFailure_def retry_step_def Let_def run_simps UpdateStep_run enqueued_def PriorityHigh_def)
  then obtain new where new: "ms_queue v = [(qi_ID item, item), (qi_ID new, new)]" "qi_ID new \<noteq> qi_ID item" "qi_InstanceID new = wi_ID inst"
      "qi_StepID new = Some (ws_ID st)" "qi_AttemptedAt new = None" "qi_ScheduledAt new \<le> ms_clock v" "0 \<le> qi_Priority new"
    using u by (auto simp: started_from_def)
  from run e v obtain cs where
    t: "ExecuteNext wk s = (Ok False, v\<lparr>en_cancelContexts := cs, ms_queue := AList.delete (qi_ID item) (ms_queue v),
         en_activeSteps := en_activeSteps v - 1\<rparr>)" (is "_ = (_, ?t)") by (auto simp: c_def)
  have "ws_StepName su = ws_StepName st" using fields(10) st(3) by (simp add: attempted_def)
  then have names: "step_names ?t (wi_ID inst) = past @ [n]"
    using step_names_update [of ?t s "ws_ID st" su st "wi_ID inst"] fields st(1) parts(4) by simp
  have "stands_at def inst past n (Suc r) ?t"
    unfolding stands_at_def
  proof (intro conjI exI [of _ su] names wf_ExecuteNext [OF parts(1) t])
    show "only_item (wi_ID inst) su ?t" using new fields by (auto simp: only_item_def)
    show "others_done ?t (wi_ID inst) (ws_ID su)" using fields others by (auto simp: others_done_def)
  qed (use parts fields in \<open>simp_all add: quiet_def knows_def\<close>)
  moreover have "en_calls ?t = en_calls s @ [\<lparr>hc_Handler = sd_Handler sd, hc_Context = task_context inst st sd, hc_Input = ws_Input st\<rparr>]"
    "en_handlers ?t = en_handlers s" using c fields by simp_all
  ultimately show ?thesis using t st(3) by (auto simp: call_of_def task_context_def attempted_def)
qed

section \<open>Rolling back the steps of a row\<close>

definition compensation :: "workflow_definition \<Rightarrow> string \<Rightarrow> step_definition option" where
  "compensation def n = (case map_of (def_steps def) n of None \<Rightarrow> None | Some sd \<Rightarrow> map_of (def_steps def) (sd_OnFailure sd))"

definition to_compensate :: "workflow_definition \<Rightarrow> string list \<Rightarrow> string list" where
  "to_compensate def ns = filter (\<lambda>n. compensation def n \<noteq> None) ns"

text \<open>The compensation of a step may be tried, at once, and its handler succeeds.\<close>

definition compensable :: "engine \<Rightarrow> workflow_definition \<Rightarrow> string \<Rightarrow> bool" where
  "compensable s def n \<longleftrightarrow> (\<forall>c. compensation def n = Some c \<longrightarrow> 0 < sd_MaxRetries c \<and> compensation_delay c 1 = 0 \<and>
     (\<exists>h. map_of (en_handlers s) (sd_Handler c) = Some h \<and> (\<forall>calls ctx inp. \<exists>answer. h calls ctx inp = (answer, []) \<and> is_success answer)))"

definition awaits :: "int \<Rightarrow> int \<Rightarrow> queue_item \<Rightarrow> bool" where
  "awaits i k item \<longleftrightarrow> qi_InstanceID item = i \<and> qi_StepID item = Some k \<and> qi_AttemptedAt item = None \<and> qi_Priority item = PriorityHigh"

definition rolled_status :: "workflow_definition \<Rightarrow> string \<Rightarrow> step_status" where
  "rolled_status def n = (if compensation def n = None then StepStatusRolledBack else StepStatusCompensation)"

definition kept :: "engine \<Rightarrow> engine \<Rightarrow> bool" where
  "kept s t \<longleftrightarrow> ms_instances t = ms_instances s \<and> ms_definitions t = ms_definitions s \<and> ms_stepsByInstance t = ms_stepsByInstance s \<and>
     ms_cancelRequests t = ms_cancelRequests s \<and> en_handlers t = en_handlers s \<and> en_plugins t = en_plugins s \<and>
     en_isShuttingDown t = en_isShuttingDown s \<and> en_calls t = en_calls s"

definition queue_bounded :: "engine \<Rightarrow> bool" where
  "queue_bounded s \<longleftrightarrow> (\<forall>(j, item) \<in> set (ms_queue s). j < ms_nextQueueID s)"

text \<open>What the loop over the names \<open>ns\<close> has done between \<open>s\<close> and \<open>t\<close>; the step of a name is found in \<open>m\<close>.\<close>

definition step_id :: "step_map \<Rightarrow> string \<Rightarrow> int" where
  "step_id m n = ws_ID (the (map_of m n))"

definition scheduled_within :: "int \<Rightarrow> int \<Rightarrow> queue_item list \<Rightarrow> bool" where
  "scheduled_within a b items \<longleftrightarrow> sorted_wrt (<) (map qi_ScheduledAt items) \<and> (\<forall>x \<in> set items. a \<le> qi_ScheduledAt x \<and> qi_ScheduledAt x < b)"

lemma scheduled_within_append:
  "scheduled_within a b xs \<Longrightarrow> scheduled_within b c ys \<Longrightarrow> a \<le> b \<Longrightarrow> b \<le> c \<Longrightarrow> scheduled_within a c (xs @ ys)"
  by (fastforce simp: scheduled_within_def sorted_wrt_append)

definition rolled :: "workflow_definition \<Rightarrow> int \<Rightarrow> step_map \<Rightarrow> string list \<Rightarrow> engine \<Rightarrow> engine \<Rightarrow> bool" where
  "rolled def i m ns s t \<longleftrightarrow> kept s t \<and> queue_bounded t \<and> ms_clock s \<le> ms_clock t \<and> ms_nextQueueID s \<le> ms_nextQueueID t \<and>
     (\<exists>items. ms_queue t = ms_queue s @ map (\<lambda>x. (qi_ID x, x)) items \<and> scheduled_within (ms_clock s) (ms_clock t) items \<and>
        (\<forall>x \<in> set items. ms_nextQueueID s \<le> qi_ID x) \<and>
        list_all2 (\<lambda>n. awaits i (step_id m n)) (to_compensate def ns) items) \<and>
     (\<forall>n \<in> set ns. \<exists>su. map_of (ms_steps t) (step_id m n) = Some su \<and> ws_ID su = step_id m n \<and> ws_InstanceID su = i \<and> ws_StepName su = n \<and>
        ws_Status su = rolled_status def n) \<and>
     (\<forall>k. k \<notin> step_id m ` set ns \<longrightarrow> map_of (ms_steps t) k = map_of (ms_steps s) k)"

definition rollable :: "workflow_definition \<Rightarrow> int \<Rightarrow> step_map \<Rightarrow> engine \<Rightarrow> string \<Rightarrow> bool" where
  "rollable def i m s n \<longleftrightarrow> (\<exists>st. map_of m n = Some st \<and> map_of (ms_steps s) (ws_ID st) = Some st \<and> ws_StepName st = n \<and>
     ws_InstanceID st = i \<and> ws_Status st \<in> {StepStatusCompleted, StepStatusFailed} \<and> ws_CompensationRetryCount st = 0) \<and>
     has_key (def_steps def) n \<and> compensable s def n"

lemma fresh_update: "k \<notin> fst ` set xs \<Longrightarrow> AList.update k v xs = xs @ [(k, v)]"
  by (induction xs) auto

lemma roll_back_one_run:
  assumes "rollable def i m s n" "queue_bounded s"
  shows "\<exists>t. roll_back_one def m n s = (Ok (), t) \<and> rolled def i m [n] s t"
proof -
  from assms(1) obtain st sd where st: "map_of m n = Some st" "map_of (ms_steps s) (ws_ID st) = Some st" "ws_StepName st = n"
     "ws_InstanceID st = i" "ws_Status st \<in> {StepStatusCompleted, StepStatusFailed}" "ws_CompensationRetryCount st = 0"
    and sd: "map_of (def_steps def) n = Some sd" and comp: "compensable s def n" by (auto simp: rollable_def has_key_def)
  have cand: "rollback_candidate m n = Some st" using st by (auto simp: rollback_candidate_def)
  have new: "ms_nextQueueID s \<notin> fst ` set (ms_queue s)" using assms(2) by (fastforce simp: queue_bounded_def)
  show ?thesis
  proof (cases "map_of (def_steps def) (sd_OnFailure sd)")
    case None
    then show ?thesis
      using st sd cand assms(2)
      by (simp add: roll_back_one_def rollbackStep_def run_simps UpdateStep_run rolled_def kept_def queue_bounded_def to_compensate_def
          compensation_def step_id_def rolled_status_def scheduled_within_def)
  next
    case (Some c)
    then have "0 < sd_MaxRetries c" "compensation_delay c 1 = 0" using comp sd by (auto simp: compensable_def compensation_def)
    then show ?thesis
      using st sd cand assms(2) Some
      by (auto simp: roll_back_one_def rollbackStep_def run_simps UpdateStepCompensationRetry_def GetStepByID_def put_step_def Let_def
          rolled_def kept_def queue_bounded_def to_compensate_def compensation_def step_id_def rolled_status_def scheduled_within_def
          fresh_update [OF new] enqueued_def)
        (rule exI [of _ "[enqueued s i (Some (ws_ID st)) PriorityHigh 0]"], simp add: enqueued_def awaits_def)+
  qed
qed

lemma rolled_append:
  assumes "rolled def i m xs s t" "rolled def i m ys t u" "step_id m ` set xs \<inter> step_id m ` set ys = {}"
  shows "rolled def i m (xs @ ys) s u"
proof -
  from assms(1) obtain a where a: "ms_queue t = ms_queue s @ map (\<lambda>x. (qi_ID x, x)) a" "scheduled_within (ms_clock s) (ms_clock t) a"
    "list_all2 (\<lambda>n. awaits i (step_id m n)) (to_compensate def xs) a" "ms_clock s \<le> ms_clock t" "ms_nextQueueID s \<le> ms_nextQueueID t"
    "\<forall>x \<in> set a. ms_nextQueueID s \<le> qi_ID x" by (auto simp: rolled_def)
  from assms(2) obtain b where b: "ms_queue u = ms_queue t @ map (\<lambda>x. (qi_ID x, x)) b" "scheduled_within (ms_clock t) (ms_clock u) b"
    "list_all2 (\<lambda>n. awaits i (step_id m n)) (to_compensate def ys) b" "ms_clock t \<le> ms_clock u" "ms_nextQueueID t \<le> ms_nextQueueID u"
    "\<forall>x \<in> set b. ms_nextQueueID t \<le> qi_ID x" by (auto simp: rolled_def)
  have "\<exists>items. ms_queue u = ms_queue s @ map (\<lambda>x. (qi_ID x, x)) items \<and> scheduled_within (ms_clock s) (ms_clock u) items \<and>
        (\<forall>x \<in> set items. ms_nextQueueID s \<le> qi_ID x) \<and> list_all2 (\<lambda>n. awaits i (step_id m n)) (to_compensate def (xs @ ys)) items"
    using a b by (intro exI [of _ "a @ b"]) (auto simp: scheduled_within_append to_compensate_def list_all2_appendI)
  moreover have "\<exists>su. map_of (ms_steps u) (step_id m n) = Some su \<and> ws_ID su = step_id m n \<and> ws_InstanceID su = i \<and> ws_StepName su = n \<and>
        ws_Status su = rolled_status def n" if "n \<in> set (xs @ ys)" for n
  proof (cases "n \<in> set ys")
    case False
    with that assms(3) have n: "n \<in> set xs" "step_id m n \<notin> step_id m ` set ys" by auto
    then have "map_of (ms_steps u) (step_id m n) = map_of (ms_steps t) (step_id m n)" using assms(2) unfolding rolled_def by blast
    with n assms(1) show ?thesis by (simp add: rolled_def)
  qed (use assms(2) in \<open>simp add: rolled_def\<close>)
  moreover have "map_of (ms_steps u) k = map_of (ms_steps s) k" if "k \<notin> step_id m ` set (xs @ ys)" for k
  proof -
    have "k \<notin> step_id m ` set xs" "k \<notin> step_id m ` set ys" using that by auto
    then show ?thesis using assms(1,2) unfolding rolled_def by metis
  qed
  moreover have "kept s u" using assms(1,2) by (simp add: rolled_def kept_def)
  ultimately show ?thesis
    using assms(2) a(4,5) b(4,5) unfolding rolled_def by (meson order_trans)
qed

lemma rollable_kept:
  assumes "rolled def i m ns s t" "rollable def i m s n" "step_id m n \<notin> step_id m ` set ns"
  shows "rollable def i m t n"
proof -
  from assms(2) obtain st where st: "map_of m n = Some st" "map_of (ms_steps s) (ws_ID st) = Some st" "ws_StepName st = n"
    "ws_InstanceID st = i" "ws_Status st \<in> {StepStatusCompleted, StepStatusFailed}" "ws_CompensationRetryCount st = 0"
    by (auto simp: rollable_def)
  then have "map_of (ms_steps t) (ws_ID st) = Some st" using assms(1,3) by (auto simp: rolled_def step_id_def)
  moreover have "compensable t def n" using assms(1,2) by (simp add: rollable_def rolled_def kept_def compensable_def)
  ultimately show ?thesis using st assms(2) unfolding rollable_def by blast
qed

lemma roll_back_row:
  assumes "\<And>n. n \<in> set ns \<Longrightarrow> rollable def i m s n" "queue_bounded s" "distinct (map (step_id m) ns)"
  shows "\<exists>t. for_each ns (roll_back_one def m) s = (Ok (), t) \<and> rolled def i m ns s t"
  using assms
proof (induction ns arbitrary: s)
  case Nil
  then show ?case by (simp add: run_simps rolled_def kept_def to_compensate_def scheduled_within_def)
next
  case (Cons n ns)
  from roll_back_one_run [OF Cons.prems(1) [of n] Cons.prems(2)] obtain t where
    t: "roll_back_one def m n s = (Ok (), t)" "rolled def i m [n] s t" by auto
  have "rollable def i m t k" if "k \<in> set ns" for k
  proof (rule rollable_kept [OF t(2) Cons.prems(1)])
    have "step_id m n \<noteq> step_id m k" using that Cons.prems(3) by (metis distinct.simps(2) imageI list.set_map list.simps(9))
    then show "step_id m k \<notin> step_id m ` set [n]" by simp
  qed (use that in simp)
  moreover have "queue_bounded t" using t(2) by (simp add: rolled_def)
  ultimately obtain u where u: "for_each ns (roll_back_one def m) t = (Ok (), u)" "rolled def i m ns t u"
    using Cons.IH [of t] Cons.prems(3) by auto
  have "rolled def i m ([n] @ ns) s u" using t(2) u(2) Cons.prems(3) by (intro rolled_append [of def i m "[n]" s t]) auto
  with t(1) u(1) show ?case by (simp add: run_simps)
qed

text \<open>The map of the steps of an instance whose steps have different names.\<close>

lemma build_step_map_distinct:
  "distinct (map ws_StepName sts) \<Longrightarrow> x \<in> set sts \<Longrightarrow> map_of (build_step_map sts) (ws_StepName x) = Some x"
proof (induction sts rule: rev_induct)
  case (snoc y sts)
  have "build_step_map (sts @ [y]) = AList.update (ws_StepName y) y (build_step_map sts)" by (simp add: build_step_map_def)
  with snoc show ?case by auto (metis imageI)
qed simp

lemma step_map_ids:
  assumes wf: "wf_store s" and names: "distinct (step_names s i)"
  shows "distinct (map (step_id (build_step_map (steps_of s i))) (step_names s i))"
    "n \<in> set (step_names s i) \<Longrightarrow> \<exists>st. map_of (build_step_map (steps_of s i)) n = Some st \<and> map_of (ms_steps s) (ws_ID st) = Some st \<and>
       ws_StepName st = n \<and> ws_InstanceID st = i"
    "map_of (ms_steps s) k = Some su \<Longrightarrow> ws_InstanceID su = i \<Longrightarrow>
       ws_StepName su \<in> set (step_names s i) \<and> step_id (build_step_map (steps_of s i)) (ws_StepName su) = k"
proof -
  note entry = build_step_map_distinct [OF names [unfolded step_names_def]]
  have "map (step_id (build_step_map (steps_of s i))) (step_names s i) = map ws_ID (steps_of s i)"
    using entry by (simp add: step_names_def step_id_def)
  then show "distinct (map (step_id (build_step_map (steps_of s i))) (step_names s i))"
    using wf by (auto simp: steps_of_ids wf_store_def listing_ok_def Let_def dest: strict_sorted_iff [THEN iffD1])
  show "\<exists>st. map_of (build_step_map (steps_of s i)) n = Some st \<and> map_of (ms_steps s) (ws_ID st) = Some st \<and>
       ws_StepName st = n \<and> ws_InstanceID st = i" if "n \<in> set (step_names s i)"
    using that entry steps_of_set [OF wf, of i] by (auto simp: step_names_def)
  show "ws_StepName su \<in> set (step_names s i) \<and> step_id (build_step_map (steps_of s i)) (ws_StepName su) = k"
    if su: "map_of (ms_steps s) k = Some su" "ws_InstanceID su = i"
  proof -
    have k: "ws_ID su = k" using wf su(1) by (auto simp: wf_store_def steps_ok_def dest: numbered_key)
    then have "su \<in> set (steps_of s i)" using su steps_of_set [OF wf, of i] by auto
    with entry k show ?thesis by (simp add: step_names_def step_id_def)
  qed
qed

text \<open>A definition of a saga that stands in a row: its steps are tasks, its links lead to defined steps, names are in order.\<close>

definition saga_row :: "workflow_definition \<Rightarrow> string list \<Rightarrow> bool" where
  "saga_row def ns \<longleftrightarrow> all_tasks def \<and> row def rootStepName ns \<and> [] \<notin> set ns \<and> distinct ns \<and> \<not> has_key (def_steps def) rootStepName \<and>
     (\<forall>(k, sd) \<in> set (def_steps def). sd_Prev sd = [] \<or> sd_Prev sd = rootStepName \<or> has_key (def_steps def) (sd_Prev sd)) \<and>
     \<not> gd_DLQEnabled (wd_Definition def)"

lemma rollback_of_row:
  assumes wf: "wf_store w" and plugins: "en_plugins w = None" and def: "saga_row def (past @ [n])"
    and names: "step_names w i = past @ [n]" and st: "ws_StepName st = n"
  shows "rollbackToSavePointOrRoot i st def w = for_each (n # rev past) (roll_back_one def (build_step_map (steps_of w i))) w"
proof -
  from def have row: "row def rootStepName (past @ [n])" "[] \<notin> set (past @ [n])" "distinct (past @ [n])"
    "\<not> has_key (def_steps def) rootStepName" "all_tasks def" by (auto simp: saga_row_def)
  have keys: "has_key (def_steps def) k" if "k \<in> set (past @ [n])" for k using row_mem [OF row(1) that] .
  have "\<exists>x. map_of (build_step_map (steps_of w i)) n = Some x"
    using step_map_ids(2) [OF wf, of i n] names row(3) by auto
  then have "has_key (build_step_map (steps_of w i)) n" by (auto simp: has_key_def)
  moreover have "\<not> is_fork_like sd" if "sd_Type sd = StepTypeTask" for sd using that by (simp add: is_fork_like_def)
  then have "rollbackStepChain i n rootStepName def m False 0 w =
      for_each (takeWhile (\<lambda>k. k \<noteq> rootStepName) (step_chain def n)) (roll_back_one def m) w" for m
    using def row keys plugins by (intro rollbackStepChain_linear) (auto simp: saga_row_def all_tasks_def)
  moreover have "takeWhile (\<lambda>k. k \<noteq> rootStepName) (step_chain def n) = n # rev past"
    using step_chain_row [OF row(4,1-3)] keys row(4) by (auto simp: takeWhile_eq_all_conv)
  ultimately show ?thesis
    using st no_save_point [OF row(5)]
    by (simp add: rollbackToSavePointOrRoot_def rollbackStepsToSavePoint_def GetStepsByInstance_run [OF wf] run_simps Let_def)
qed

section \<open>The last failure\<close>

definition failed_state :: "workflow_instance \<Rightarrow> workflow_step \<Rightarrow> string \<Rightarrow> engine \<Rightarrow> engine" where
  "failed_state inst st msg s =
     logged (wi_ID inst) (Some (ws_ID st)) ''step_failed'' [(''step_name'', JString (ws_StepName st)), (''error'', JString msg)]
       (snd (UpdateStep (ws_ID st) StepStatusFailed RawNil (Some msg) s))"

lemma UpdateInstanceStatus_failed:
  assumes "map_of (ms_instances s) i = Some inst"
  shows "\<exists>t inst'. UpdateInstanceStatus i StatusFailed out err s = (Ok (), t) \<and> map_of (ms_instances t) i = Some inst' \<and>
    wi_Status inst' = StatusFailed \<and> wi_WorkflowID inst' = wi_WorkflowID inst \<and> wi_ID inst' = wi_ID inst \<and> wi_Error inst' = err \<and>
    t = s\<lparr>ms_instances := ms_instances t, ms_clock := ms_clock s + 2\<rparr>"
  using assms by (simp add: UpdateInstanceStatus_def GetInstance_def run_simps time_now_def Let_def)

lemma handleStepFailure_fails:
  assumes def: "all_tasks def" "\<not> gd_DLQEnabled (wd_Definition def)" "knows c inst def" "en_plugins c = None"
    and st: "map_of (ms_steps c) (ws_ID st) = Some su" and sd: "map_of (def_steps def) (ws_StepName st) = Some sd"
    and no: "\<not> may_retry st sd"
    and rolled: "rollbackToSavePointOrRoot (wi_ID inst) st def (failed_state inst st (error_text e) c) = (Ok (), v)"
    and v: "ms_instances v = ms_instances c" "en_plugins v = None"
  shows "handleStepFailure inst (StepCopy st) sd e c = UpdateInstanceStatus (wi_ID inst) StatusFailed RawNil (Some (error_text e)) v"
proof -
  define w where "w = failed_state inst st (error_text e) c"
  have w: "knows w inst def" using def(3) st by (simp add: w_def failed_state_def knows_def UpdateStep_run)
  have fork: "isStepInForkBranch (wi_ID inst) (ws_StepName st) w = (Ok False, w)"
    using w no_fork [OF def(1)]
    by (simp add: isStepInForkBranch_def findForkStepForParallelStep_def instance_def_def GetInstance_def GetWorkflowDefinition_def
        run_simps knows_def)
  have "map_of (ms_instances v) (wi_ID inst) = Some inst" using v def(3) by (simp add: knows_def)
  from UpdateInstanceStatus_failed [OF this, of RawNil "Some (error_text e)"] obtain t where
    t: "UpdateInstanceStatus (wi_ID inst) StatusFailed RawNil (Some (error_text e)) v = (Ok (), t)"
    and "en_plugins t = en_plugins (v\<lparr>ms_instances := ms_instances t, ms_clock := ms_clock v + 2\<rparr>)" by metis
  then have plug: "en_plugins t = None" using v(2) by simp
  have "roll_back_failure inst st def w = (Ok (), v)"
    using fork rolled by (simp add: roll_back_failure_def run_simps w_def)
  then have "fail_step inst st sd (error_text e) c = UpdateInstanceStatus (wi_ID inst) StatusFailed RawNil (Some (error_text e)) v"
    using def st no_condition [OF def(1)] notifyJoinSteps_tasks [OF def(1) w] t plug
    by (simp add: fail_step_def settle_join_failure_def findConditionStepInBranch_def GetWorkflowDefinition_def knows_def run_simps
        UpdateStep_run w_def failed_state_def final_hook_def)
  with no def show ?thesis
    by (simp add: handleStepFailure_def GetWorkflowDefinition_def knows_def run_simps Let_def)
qed

text \<open>
  The instance has failed and the compensations of the steps \<open>todo\<close> are queued, in this order; every other step of the instance
  is rolled back.
\<close>

definition in_compensation :: "engine \<Rightarrow> int \<Rightarrow> string \<Rightarrow> int \<Rightarrow> bool" where
  "in_compensation s i n k \<longleftrightarrow> (\<exists>su. map_of (ms_steps s) k = Some su \<and> ws_ID su = k \<and> ws_InstanceID su = i \<and> ws_StepName su = n \<and>
     ws_Status su = StepStatusCompensation)"

definition queue_is :: "engine \<Rightarrow> queue_item list \<Rightarrow> bool" where
  "queue_is s items \<longleftrightarrow> ms_queue s = map (\<lambda>x. (qi_ID x, x)) items \<and> (\<exists>a. scheduled_within a (ms_clock s) items)"

definition compensating :: "workflow_definition \<Rightarrow> int \<Rightarrow> string \<Rightarrow> string list \<Rightarrow> engine \<Rightarrow> bool" where
  "compensating def i wid todo s \<longleftrightarrow> wf_store s \<and> quiet s \<and> map_of (ms_definitions s) wid = Some def \<and>
     (\<exists>inst. map_of (ms_instances s) i = Some inst \<and> wi_Status inst = StatusFailed \<and> wi_WorkflowID inst = wid) \<and>
     (\<exists>ks items. distinct ks \<and> queue_is s items \<and> list_all2 (awaits i) ks items \<and> list_all2 (in_compensation s i) todo ks \<and>
        (\<forall>k su. map_of (ms_steps s) k = Some su \<and> ws_InstanceID su = i \<and> k \<notin> set ks \<longrightarrow> ws_Status su = StepStatusRolledBack))"

lemma failed_fields:
  assumes u: "started_from s item u" "ms_queue u = [(qi_ID item, item)]" and st: "map_of (ms_steps s) (ws_ID st) = Some st"
    and w: "w = failed_state inst st msg (called_state inst st sd u)"
  shows "kept s (w\<lparr>en_calls := en_calls s\<rparr>)" "ms_queue w = [(qi_ID item, item)]" "ms_nextQueueID w = ms_nextQueueID s"
    "en_calls w = en_calls s @ [\<lparr>hc_Handler = sd_Handler sd, hc_Context = task_context inst st sd, hc_Input = ws_Input st\<rparr>]"
    "wf_store w" "queue_bounded w"
    "\<exists>su. map_of (ms_steps w) = (map_of (ms_steps s))(ws_ID st \<mapsto> su) \<and> ws_Status su = StepStatusFailed \<and>
      ws_CompensationRetryCount su = ws_CompensationRetryCount st \<and> ws_StepName su = ws_StepName st \<and> ws_InstanceID su = ws_InstanceID st"
  using called_fields [OF u(1) st refl, of inst sd] wf_called [OF u(1), of inst st sd] u(2) u(1) [unfolded started_from_def, THEN conjunct2]
  by (simp_all add: w failed_state_def UpdateStep_run fun_eq_iff kept_def queue_bounded_def)
    (use wf_UpdateStep_state [OF wf_called [OF u(1), of inst st sd], of "ws_ID st" StepStatusFailed RawNil "Some msg"] in
      \<open>simp add: logged_wf UpdateStep_run\<close>)

lemma rolled_compensating:
  assumes rolled: "rolled def i m ns w v" and m: "m = build_step_map (steps_of w i)" and ns: "set ns = set (step_names w i)" "distinct (map (step_id m) ns)"
    and wf: "wf_store w" "distinct (step_names w i)" and q: "ms_queue w = [(j, item)]" "j < ms_nextQueueID w"
    and t: "wf_store t" "quiet t" "map_of (ms_definitions t) wid = Some def" "ms_steps t = ms_steps v"
      "ms_queue t = AList.delete j (ms_queue v)" "ms_clock v \<le> ms_clock t"
      "map_of (ms_instances t) i = Some inst" "wi_Status inst = StatusFailed" "wi_WorkflowID inst = wid"
  shows "compensating def i wid (to_compensate def ns) t"
proof -
  from rolled obtain items where items: "ms_queue v = ms_queue w @ map (\<lambda>x. (qi_ID x, x)) items"
    "scheduled_within (ms_clock w) (ms_clock v) items" "\<forall>x \<in> set items. ms_nextQueueID w \<le> qi_ID x"
    "list_all2 (\<lambda>n. awaits i (step_id m n)) (to_compensate def ns) items" by (auto simp: rolled_def)
  have "map (\<lambda>x. (qi_ID x, x)) items = AList.delete j (map (\<lambda>x. (qi_ID x, x)) items)"
    using items(3) q(2) by (induction items) auto
  then have "queue_is t items"
    using items(1,2) t(5,6) q by (fastforce simp: queue_is_def scheduled_within_def)
  moreover have "list_all2 (awaits i) (map (step_id m) (to_compensate def ns)) items"
    using items(4) by (simp add: list_all2_map1)
  moreover have state: "\<exists>su. map_of (ms_steps t) (step_id m n) = Some su \<and> ws_ID su = step_id m n \<and> ws_InstanceID su = i \<and> ws_StepName su = n \<and>
        ws_Status su = rolled_status def n" if "n \<in> set ns" for n using rolled that t(4) by (simp add: rolled_def)
  have "in_compensation t i n (step_id m n)" if "n \<in> set (to_compensate def ns)" for n
    using state [of n] that by (auto simp: in_compensation_def to_compensate_def rolled_status_def)
  then have "list_all2 (in_compensation t i) (to_compensate def ns) (map (step_id m) (to_compensate def ns))"
    by (simp add: list_all2_map2 list_all2_same)
  moreover have "distinct (map (step_id m) (to_compensate def ns))" using ns(2) by (simp add: to_compensate_def distinct_map_filter)
  moreover have "ws_Status su = StepStatusRolledBack"
    if su: "map_of (ms_steps t) k = Some su" "ws_InstanceID su = i" "k \<notin> set (map (step_id m) (to_compensate def ns))" for k su
  proof -
    have "k \<in> step_id m ` set ns"
    proof (rule ccontr)
      assume no: "k \<notin> step_id m ` set ns"
      then have "map_of (ms_steps w) k = Some su" using rolled su(1) t(4) unfolding rolled_def by metis
      from step_map_ids(3) [OF wf this su(2)] no ns(1) show False unfolding m by blast
    qed
    then obtain n where n: "n \<in> set ns" "k = step_id m n" by blast
    with su(3) have "compensation def n = None" by (auto simp: to_compensate_def)
    with state [OF n(1)] n(2) su(1) show ?thesis by (auto simp: rolled_status_def)
  qed
  ultimately show ?thesis using t unfolding compensating_def by blast
qed

lemma failed_rolls_back:
  assumes def: "saga_row def (past @ [n])" and u: "started_from s item u" "ms_queue u = [(qi_ID item, item)]" and quiet: "quiet s" and names: "step_names s (wi_ID inst) = past @ [n]"
    and st: "map_of (ms_steps s) (ws_ID st) = Some st" "ws_StepName st = n" "ws_CompensationRetryCount st = 0"
    and others: "others_done s (wi_ID inst) (ws_ID st)" and comp: "\<forall>k \<in> set (past @ [n]). compensable s def k"
    and w: "w = failed_state inst st msg (called_state inst st sd u)" and m: "m = build_step_map (steps_of w (wi_ID inst))"
  shows "\<exists>v. rollbackToSavePointOrRoot (wi_ID inst) st def w = (Ok (), v) \<and> rolled def (wi_ID inst) m (n # rev past) w v"
    "step_names w (wi_ID inst) = past @ [n]" "distinct (map (step_id m) (n # rev past))"
proof -
  note w = failed_fields [OF u st(1) w]
  from w(1) have kept: "ms_stepsByInstance w = ms_stepsByInstance s" "en_handlers w = en_handlers s" "en_plugins w = None"
    using quiet by (simp_all add: kept_def quiet_def)
  from w(7) obtain su where su: "map_of (ms_steps w) = (map_of (ms_steps s))(ws_ID st \<mapsto> su)" "ws_Status su = StepStatusFailed"
    "ws_CompensationRetryCount su = 0" "ws_StepName su = ws_StepName st" using st(3) by auto
  show wn: "step_names w (wi_ID inst) = past @ [n]" using step_names_update [OF su(1) st(1) su(4) kept(1)] names by simp
  have dist: "distinct (step_names w (wi_ID inst))" using def wn by (simp add: saga_row_def)
  show ids: "distinct (map (step_id m) (n # rev past))"
    using step_map_ids(1) [OF w(5) dist] wn by (auto simp: m rev_map [symmetric])
  have "rollable def (wi_ID inst) m w k" if k: "k \<in> set (n # rev past)" for k
  proof -
    from k step_map_ids(2) [OF w(5) dist, of k] wn obtain x where
      x: "map_of m k = Some x" "map_of (ms_steps w) (ws_ID x) = Some x" "ws_StepName x = k" "ws_InstanceID x = wi_ID inst"
      by (auto simp: m)
    have "ws_Status x \<in> {StepStatusCompleted, StepStatusFailed} \<and> ws_CompensationRetryCount x = 0"
      using x su others by (auto simp: others_done_def split: if_splits)
    moreover have "has_key (def_steps def) k" using def k row_mem [of def rootStepName "past @ [n]" k] by (auto simp: saga_row_def)
    moreover have "compensable w def k" using comp k kept(2) by (auto simp: compensable_def)
    ultimately show ?thesis using x unfolding rollable_def by blast
  qed
  from roll_back_row [OF this w(6) ids] rollback_of_row [OF w(5) kept(3) def wn st(2)]
  show "\<exists>v. rollbackToSavePointOrRoot (wi_ID inst) st def w = (Ok (), v) \<and> rolled def (wi_ID inst) m (n # rev past) w v" by (auto simp: m)
qed

lemma turn_fails:
  assumes def: "saga_row def (past @ [n])" and at: "stands_at def inst past n r s" and sd: "map_of (def_steps def) n = Some sd"
    and ans: "answers s def n is_failure" and lim: "\<not> r < retry_limit sd" and comp: "\<forall>k \<in> set (past @ [n]). compensable s def k"
  shows "\<exists>t c. ExecuteNext wk s = (Ok False, t) \<and> compensating def (wi_ID inst) (wi_WorkflowID inst) (to_compensate def (n # rev past)) t \<and>
    en_handlers t = en_handlers s \<and> en_calls t = en_calls s @ [c] \<and> call_of inst n sd c"
proof -
  have tasks: "all_tasks def" "\<not> gd_DLQEnabled (wd_Definition def)" "distinct (past @ [n])" using def by (auto simp: saga_row_def)
  obtain st item u answer where st: "map_of (ms_steps s) (ws_ID st) = Some st" "ws_InstanceID st = wi_ID inst" "attempted def n r st"
    and others: "others_done s (wi_ID inst) (ws_ID st)" and u: "started_from s item u" and q: "ms_queue u = [(qi_ID item, item)]" and "is_failure answer"
    and run: "\<And>v. settle_answer inst st sd answer (called_state inst st sd u) = (Ok (), v) \<Longrightarrow>
       \<exists>cs. ExecuteNext wk s = (Ok False, v\<lparr>en_cancelContexts := cs, ms_queue := AList.delete (qi_ID item) (ms_queue v),
         en_activeSteps := en_activeSteps v - 1\<rparr>)"
    by (rule turn_runs_step [OF tasks(1) at sd ans, of wk]) blast
  then obtain e where e: "settle_answer inst st sd answer = handleStepFailure inst (StepCopy st) sd e" using settle_failure by blast
  from at have parts: "wf_store s" "quiet s" "knows s inst def" "step_names s (wi_ID inst) = past @ [n]" by (simp_all add: stands_at_def)
  have name: "ws_StepName st = n" "ws_CompensationRetryCount st = 0" using st(3) by (simp_all add: attempted_def)
  define w where "w = failed_state inst st (error_text e) (called_state inst st sd u)"
  define m where "m = build_step_map (steps_of w (wi_ID inst))"
  note w = failed_fields [OF u q st(1) w_def]
  from w(1) have kept: "ms_instances w = ms_instances s" "ms_definitions w = ms_definitions s" "ms_cancelRequests w = ms_cancelRequests s"
    "en_handlers w = en_handlers s" "en_plugins w = en_plugins s" "en_isShuttingDown w = en_isShuttingDown s" by (simp_all add: kept_def)
  note rolls = failed_rolls_back [OF def u q parts(2,4) st(1) name others comp w_def m_def]
  from rolls(1) obtain v where v: "rollbackToSavePointOrRoot (wi_ID inst) st def w = (Ok (), v)"
    "rolled def (wi_ID inst) m (n # rev past) w v" by blast
  from v(2) have keptv: "kept w v" by (simp add: rolled_def)
  have "handleStepFailure inst (StepCopy st) sd e (called_state inst st sd u) =
      UpdateInstanceStatus (wi_ID inst) StatusFailed RawNil (Some (error_text e)) v"
    using tasks called_fields [OF u st(1) refl, of inst sd] parts st name sd attempted_may_retry [OF st(3) sd] lim kept keptv v(1)
    by (intro handleStepFailure_fails) (simp_all add: w_def knows_def quiet_def kept_def)
  moreover have "map_of (ms_instances v) (wi_ID inst) = Some inst" using keptv kept parts(3) by (simp add: kept_def knows_def)
  from UpdateInstanceStatus_failed [OF this, of RawNil "Some (error_text e)"] obtain x inst' where
    x: "UpdateInstanceStatus (wi_ID inst) StatusFailed RawNil (Some (error_text e)) v = (Ok (), x)"
      "map_of (ms_instances x) (wi_ID inst) = Some inst'" "wi_Status inst' = StatusFailed" "wi_WorkflowID inst' = wi_WorkflowID inst"
    and fields: "x = v\<lparr>ms_instances := ms_instances x, ms_clock := ms_clock v + 2\<rparr>" by blast
  ultimately obtain cs where
    t: "ExecuteNext wk s = (Ok False, x\<lparr>en_cancelContexts := cs, ms_queue := AList.delete (qi_ID item) (ms_queue x),
         en_activeSteps := en_activeSteps x - 1\<rparr>)" (is "_ = (_, ?t)") using run e by auto
  have eqs: "ms_steps x = ms_steps v" "ms_queue x = ms_queue v" "ms_definitions x = ms_definitions v" "ms_clock x = ms_clock v + 2"
    "ms_cancelRequests x = ms_cancelRequests v" "en_handlers x = en_handlers v" "en_plugins x = en_plugins v"
    "en_isShuttingDown x = en_isShuttingDown v" "en_calls x = en_calls v" by (subst fields, simp)+
  have "compensating def (wi_ID inst) (wi_WorkflowID inst) (to_compensate def (n # rev past)) ?t"
  proof (rule rolled_compensating [OF v(2) m_def _ rolls(3) w(5) _ w(2), where inst = inst'])
    show "wf_store ?t" by (rule wf_ExecuteNext [OF parts(1) t])
  qed (use rolls(2) tasks(3) u w(3) x eqs keptv kept parts in
      \<open>auto simp: started_from_def quiet_def kept_def knows_def\<close>)
  moreover have "en_calls ?t = en_calls s @ [\<lparr>hc_Handler = sd_Handler sd, hc_Context = task_context inst st sd, hc_Input = ws_Input st\<rparr>]"
    "en_handlers ?t = en_handlers s" using eqs keptv w(4) kept by (simp_all add: kept_def)
  ultimately show ?thesis using t name by (auto simp: call_of_def task_context_def)
qed

section \<open>One compensation\<close>

lemma trunc_rat_mono: "0 \<le> a \<Longrightarrow> a \<le> b \<Longrightarrow> trunc_rat a \<le> trunc_rat b"
  by (simp add: trunc_rat_def floor_mono)

lemma store_priority_older:
  assumes "qi_ScheduledAt x \<le> qi_ScheduledAt y" "qi_ScheduledAt y \<le> ms_clock s" "qi_Priority x = qi_Priority y" "0 \<le> qi_Priority y"
  shows "store_priority s y \<le> store_priority s x"
proof -
  have "of_int (ms_clock s - qi_ScheduledAt y) / 1000000000 * r \<le> of_int (ms_clock s - qi_ScheduledAt x) / 1000000000 * r"
    "0 \<le> of_int (ms_clock s - qi_ScheduledAt y) / 1000000000 * r" if "0 < r" for r :: rat
    using assms(1,2) that by (auto intro!: mult_right_mono divide_right_mono)
  then have "trunc_rat (of_int (qi_Priority y) + of_int (ms_clock s - qi_ScheduledAt y) / 1000000000 * r) \<le>
      trunc_rat (of_int (qi_Priority x) + of_int (ms_clock s - qi_ScheduledAt x) / 1000000000 * r)" if "0 < r" for r :: rat
    using that assms(3,4) by (intro trunc_rat_mono) (auto intro: add_nonneg_nonneg)
  from this [of "ms_agingRate s"] show ?thesis using assms(3) by (auto simp: store_priority_def effective_priority_def Let_def)
qed

lemma dequeue_head:
  assumes q: "queue_is s (x # xs)" and free: "\<And>y. y \<in> set (x # xs) \<Longrightarrow> qi_AttemptedAt y = None \<and> qi_Priority y = PriorityHigh"
  shows "DequeueStep wk s = (Ok (Some (claim wk (ms_clock s) x)),
    s\<lparr>ms_clock := ms_clock s + 1, ms_queue := (qi_ID x, claim wk (ms_clock s) x) # map (\<lambda>x. (qi_ID x, x)) xs\<rparr>)"
proof -
  have queue: "ms_queue s = map (\<lambda>x. (qi_ID x, x)) (x # xs)" and times: "\<And>y. y \<in> set (x # xs) \<Longrightarrow> qi_ScheduledAt y < ms_clock s"
    "\<And>y. y \<in> set xs \<Longrightarrow> qi_ScheduledAt x < qi_ScheduledAt y" using q by (auto simp: queue_is_def scheduled_within_def)
  have el: "eligible (ms_clock s) y" if "y \<in> set (x # xs)" for y using free [OF that] times(1) [OF that] by (simp add: eligible_def)
  have "0 \<le> store_priority s x" using free [of x] times(1) [of x] by (intro store_priority_nonneg) (simp_all add: PriorityHigh_def)
  then obtain b where b: "dequeue_select (store_priority s) (ms_clock s) (x # xs) = Some b"
    using dequeue_select_None [of "store_priority s" "ms_clock s" "x # xs"] el [of x] by (cases "dequeue_select (store_priority s) (ms_clock s) (x # xs)") auto
  note best = dequeue_select_Some [OF b]
  have "beats (store_priority s) b x" using best(4) [of x] el [of x] by simp
  moreover have "\<not> beats (store_priority s) b x" if "b \<in> set xs"
    using store_priority_older [of x b s] times(1) [of b] times(2) [OF that] free [of x] free [of b] that
    by (auto simp: beats_def PriorityHigh_def)
  ultimately have "b = x" using best(1) by auto
  moreover have "map snd (ms_queue s) = x # xs" using queue by (simp add: comp_def)
  ultimately have "DequeueStep wk s = (Ok (Some (claim wk (ms_clock s) x)), dequeued s wk x)" using b by (simp add: DequeueStep_run)
  with queue show ?thesis by (simp add: dequeued_def)
qed

lemma settle_compensation_run:
  assumes wf: "wf_store w" and w: "en_plugins w = None" "map_of (ms_instances w) i = Some inst" "wi_Status inst = StatusFailed"
  shows "\<exists>t inst'. settle_compensation inst i w = (Ok (), t) \<and> map_of (ms_instances t) i = Some inst' \<and> wi_Status inst' = StatusFailed \<and>
    wi_WorkflowID inst' = wi_WorkflowID inst \<and> ms_steps t = ms_steps w \<and> ms_queue t = ms_queue w \<and> ms_definitions t = ms_definitions w \<and>
    ms_cancelRequests t = ms_cancelRequests w \<and> en_handlers t = en_handlers w \<and> en_plugins t = en_plugins w \<and>
    en_isShuttingDown t = en_isShuttingDown w \<and> en_calls t = en_calls w \<and> ms_clock w \<le> ms_clock t"
  using w
  by (auto simp: settle_compensation_def hasUnfinishedSteps_def hasStepsInCompensation_def hasFailedOrRolledBackSteps_def
      any_step_run [OF wf] fail_workflow_def final_hook_def UpdateInstanceStatus_def GetInstance_def run_simps time_now_def Let_def)

definition compensation_call :: "workflow_instance \<Rightarrow> workflow_step \<Rightarrow> step_definition \<Rightarrow> handler_call" where
  "compensation_call inst st c =
     \<lparr>hc_Handler = sd_Handler c,
      hc_Context = \<lparr>ec_instanceID = ws_InstanceID st, ec_stepName = ws_StepName st, ec_idempotencyKey = ws_IdempotencyKey st,
        ec_retryCount = ws_CompensationRetryCount st, ec_variables = AList.update ''reason'' (JString ''compensation'') (sd_Metadata c)\<rparr>,
      hc_Input = ws_Input st\<rparr>"

lemma compensation_item_run:
  assumes wf: "wf_store u" "en_plugins u = None" and inst: "map_of (ms_instances u) i = Some inst" "wi_Status inst = StatusFailed"
    and def: "map_of (ms_definitions u) (wi_WorkflowID inst) = Some def" "compensation def (ws_StepName st) = Some c" "compensable u def (ws_StepName st)"
    and st: "map_of (ms_steps u) (ws_ID st) = Some st" "ws_InstanceID st = i"
  shows "\<exists>t inst' su. run_compensation_item item inst st u = (Ok True, t) \<and> map_of (ms_instances t) i = Some inst' \<and>
    wi_Status inst' = StatusFailed \<and> wi_WorkflowID inst' = wi_WorkflowID inst \<and> map_of (ms_steps t) = (map_of (ms_steps u))(ws_ID st \<mapsto> su) \<and>
    ws_Status su = StepStatusRolledBack \<and> ms_queue t = ms_queue u \<and> ms_definitions t = ms_definitions u \<and>
    ms_cancelRequests t = ms_cancelRequests u \<and> en_handlers t = en_handlers u \<and> en_plugins t = en_plugins u \<and>
    en_isShuttingDown t = en_isShuttingDown u \<and> en_calls t = en_calls u @ [compensation_call inst st c] \<and> ms_clock u \<le> ms_clock t"
proof -
  from def(2) obtain sd where sd: "map_of (def_steps def) (ws_StepName st) = Some sd" "map_of (def_steps def) (sd_OnFailure sd) = Some c"
    by (auto simp: compensation_def split: option.splits)
  from def(2,3) obtain h answer where h: "map_of (en_handlers u) (sd_Handler c) = Some h"
    "h (en_calls u) (hc_Context (compensation_call inst st c)) (ws_Input st) = (answer, [])" "is_success answer"
    by (auto simp: compensable_def) blast
  then obtain out where out: "answer = Returns out" by (auto simp: is_success_def)
  define w0 where "w0 = snd (UpdateStep (ws_ID st) StepStatusRolledBack (ws_Input st) None
    (u\<lparr>en_calls := en_calls u @ [compensation_call inst st c]\<rparr>))"
  define w where "w = logged (ws_InstanceID st) (Some (ws_ID st)) ''step_completed''
                   [(''step_name'', JString (ws_StepName st)), (''step_type'', JString (step_type_text (ws_StepType st))),
                    (''retry_count'', JInt (ws_CompensationRetryCount st)), (''reason'', JString ''compensation_success'')] w0"
  have "wf_store w" unfolding w_def w0_def using wf(1) by (simp add: logged_wf wf_UpdateStep_state)
  moreover have w: "en_plugins w = None" "map_of (ms_instances w) i = Some inst" "ms_queue w = ms_queue u" "ms_definitions w = ms_definitions u"
    "ms_cancelRequests w = ms_cancelRequests u" "en_handlers w = en_handlers u" "en_isShuttingDown w = en_isShuttingDown u"
    "en_calls w = en_calls u @ [compensation_call inst st c]" "ms_clock u \<le> ms_clock w"
    "map_of (ms_steps w) = (map_of (ms_steps u))(ws_ID st \<mapsto> step_after (ms_clock u) StepStatusRolledBack (ws_Input st) None st)"
    using wf(2) inst st by (simp_all add: w_def w0_def UpdateStep_run fun_eq_iff)
  ultimately obtain t inst' where t: "settle_compensation inst i w = (Ok (), t)" "map_of (ms_instances t) i = Some inst'"
     "wi_Status inst' = StatusFailed" "wi_WorkflowID inst' = wi_WorkflowID inst" "ms_steps t = ms_steps w" "ms_queue t = ms_queue w"
     "ms_definitions t = ms_definitions w" "ms_cancelRequests t = ms_cancelRequests w" "en_handlers t = en_handlers w"
     "en_plugins t = en_plugins w" "en_isShuttingDown t = en_isShuttingDown w" "en_calls t = en_calls w" "ms_clock w \<le> ms_clock t"
    using settle_compensation_run [of w i inst] inst(2) by auto
  have "executeCompensationStep inst st u = (Ok (), t)"
    using def(1) sd h(1,2) out st t(1)
    by (simp add: executeCompensationStep_def GetWorkflowDefinition_def call_handler_def run_simps Let_def compensation_call_def
        UpdateStep_run w_def w0_def)
  then have "run_compensation_item item inst st u = (Ok True, t)"
    using def(1) sd h(1)
    by (cases "sd_OnFailure sd = []") (simp_all add: run_compensation_item_def GetWorkflowDefinition_def has_handler_def has_key_def run_simps)
  then show ?thesis
    using t w wf(2) by (intro exI [of _ t] exI [of _ inst']) auto
qed

lemma awaits_all: "list_all2 (awaits i) ks items \<Longrightarrow> y \<in> set items \<Longrightarrow> qi_AttemptedAt y = None \<and> qi_Priority y = PriorityHigh"
  by (induction rule: list_all2_induct) (auto simp: awaits_def)

lemma turn_compensates:
  assumes at: "compensating def i wid (n # todo) s" and comp: "compensation def n = Some c" "compensable s def n"
  shows "\<exists>t call. ExecuteNext wk s = (Ok False, t) \<and> compensating def i wid todo t \<and> en_handlers t = en_handlers s \<and>
    en_calls t = en_calls s @ [call] \<and> hc_Handler call = sd_Handler c \<and> ec_stepName (hc_Context call) = n \<and> ec_instanceID (hc_Context call) = i"
proof -
  from at obtain inst k ks items where wf: "wf_store s" and quiet: "quiet s"
    and inst: "map_of (ms_definitions s) wid = Some def" "map_of (ms_instances s) i = Some inst" "wi_Status inst = StatusFailed" "wi_WorkflowID inst = wid"
    and ks: "distinct (k # ks)" "queue_is s items" "list_all2 (awaits i) (k # ks) items" "in_compensation s i n k" "list_all2 (in_compensation s i) todo ks"
      "\<And>j su. map_of (ms_steps s) j = Some su \<Longrightarrow> ws_InstanceID su = i \<Longrightarrow> j \<notin> set (k # ks) \<Longrightarrow> ws_Status su = StepStatusRolledBack"
    by (auto simp: compensating_def list_all2_Cons1)
  from ks(3) obtain x xs where xs: "items = x # xs" "awaits i k x" "list_all2 (awaits i) ks xs" by (auto simp: list_all2_Cons1)
  from ks(4) obtain st where st: "map_of (ms_steps s) k = Some st" "ws_ID st = k" "ws_InstanceID st = i" "ws_StepName st = n"
    "ws_Status st = StepStatusCompensation" by (auto simp: in_compensation_def)
  have "qi_AttemptedAt y = None \<and> qi_Priority y = PriorityHigh" if "y \<in> set (x # xs)" for y
    using that awaits_all [OF ks(3)] by (simp add: xs(1))
  from dequeue_head [OF ks(2) [unfolded xs(1)] this, of wk] obtain item s1 where
    item: "item = claim wk (ms_clock s) x" and s1: "s1 = s\<lparr>ms_clock := ms_clock s + 1, ms_queue := (qi_ID x, item) # map (\<lambda>x. (qi_ID x, x)) xs\<rparr>"
    and deq: "DequeueStep wk s = (Ok (Some item), s1)" by simp
  define u where "u = s1\<lparr>en_activeSteps := en_activeSteps s1 + 1\<rparr>"
  have "wf_store s1" using movesD [OF wf_DequeueStep, of s wk] wf deq by (simp add: keeps_def)
  then have wfu: "wf_store u" by (simp add: u_def wf_store_def)
  obtain sd where sd: "map_of (def_steps def) n = Some sd" using comp(1) by (auto simp: compensation_def split: option.splits)
  have "runnable u item inst st def sd"
    using wfu inst st sd xs(2) by (simp add: runnable_def u_def s1 item claim_def awaits_def)
  from run_item_cases [OF this] st(5) have item_run: "run_item item u = run_compensation_item item inst st u" by simp
  have "compensable u def n" using comp(2) by (simp add: compensable_def u_def s1)
  then obtain v inst' su where v: "run_compensation_item item inst st u = (Ok True, v)" "map_of (ms_instances v) i = Some inst'"
      "wi_Status inst' = StatusFailed" "wi_WorkflowID inst' = wid" "map_of (ms_steps v) = (map_of (ms_steps s))(k \<mapsto> su)"
      "ws_Status su = StepStatusRolledBack" "ms_queue v = ms_queue u" "ms_definitions v = ms_definitions s" "ms_cancelRequests v = ms_cancelRequests s"
      "en_handlers v = en_handlers s" "en_plugins v = en_plugins s" "en_isShuttingDown v = en_isShuttingDown s"
      "en_calls v = en_calls s @ [compensation_call inst st c]" "ms_clock u \<le> ms_clock v"
    using compensation_item_run [OF wfu, of i inst def st c item] inst st comp(1) quiet by (auto simp: u_def s1 quiet_def)
  have fin: "finish_item item (run_item item) s1 =
      (Ok (), v\<lparr>ms_queue := AList.delete (qi_ID item) (ms_queue v), en_activeSteps := en_activeSteps v - 1\<rparr>)"
    using item_run v(1) by (simp add: finish_item_run u_def)
  have t: "ExecuteNext wk s = (Ok False, v\<lparr>ms_queue := AList.delete (qi_ID item) (ms_queue v), en_activeSteps := en_activeSteps v - 1\<rparr>)"
    (is "_ = (_, ?t)")
    using fin deq quiet by (simp add: ExecuteNext_def isShutdown_def ReadCommitted_def run_simps quiet_def s1)
  have "distinct (keys (ms_queue s))" using wf by (simp add: wf_store_def numbered_def keyed_def)
  then have "AList.delete (qi_ID x) (map (\<lambda>x. (qi_ID x, x)) xs) = map (\<lambda>x. (qi_ID x, x)) xs"
    using ks(2) by (simp add: queue_is_def xs(1) keys_def comp_def delete_idem image_image)
  then have "queue_is ?t xs"
    using ks(2) v(7,14) by (fastforce simp: queue_is_def xs(1) u_def s1 item claim_def scheduled_within_def)
  moreover have "list_all2 (in_compensation ?t i) todo ks"
    using ks(1) v(5) by (intro list.rel_mono_strong [OF ks(5)]) (auto simp: in_compensation_def)
  moreover have "ws_Status sv = StepStatusRolledBack" if "map_of (ms_steps ?t) j = Some sv" "ws_InstanceID sv = i" "j \<notin> set ks" for j sv
    using that ks(6) [of j sv] v(5,6) by (auto split: if_splits)
  moreover have "quiet ?t" "map_of (ms_definitions ?t) wid = Some def" "map_of (ms_instances ?t) i = Some inst'" "distinct ks"
    using quiet inst v ks(1) by (simp_all add: quiet_def)
  ultimately have "compensating def i wid todo ?t"
    using wf_ExecuteNext [OF wf t] v(3,4) xs(3) unfolding compensating_def by blast
  moreover have "hc_Handler (compensation_call inst st c) = sd_Handler c" "ec_stepName (hc_Context (compensation_call inst st c)) = n"
    "ec_instanceID (hc_Context (compensation_call inst st c)) = i" using st by (simp_all add: compensation_call_def)
  ultimately show ?thesis using t v by (intro exI [of _ ?t] exI [of _ "compensation_call inst st c"]) simp
qed

section \<open>The whole saga\<close>

lemma worker_turns_add: "worker_turns (a + b) wk s = worker_turns b wk (worker_turns a wk s)"
  by (induction a arbitrary: s) simp_all

lemma worker_turns_sound: "sound_step s (worker_turns k wk s)"
proof (induction k arbitrary: s)
  case (Suc k)
  have "sound_step s (snd (ExecuteNext wk s))" by (rule movesD [OF frame.ExecuteNext])
  from sound.R_trans [OF this Suc] show ?case by simp
qed (simp add: sound.R_refl)

text \<open>The handler calls made for an instance between two states: the handler and the step, in order.\<close>

definition calls_made :: "int \<Rightarrow> engine \<Rightarrow> engine \<Rightarrow> (string \<times> string) list \<Rightarrow> bool" where
  "calls_made i s t tr \<longleftrightarrow> (\<exists>calls. en_calls t = en_calls s @ calls \<and>
     map (\<lambda>c. (hc_Handler c, ec_stepName (hc_Context c))) calls = tr \<and> (\<forall>c \<in> set calls. ec_instanceID (hc_Context c) = i))"

lemma calls_made_append: "calls_made i s t a \<Longrightarrow> calls_made i t u b \<Longrightarrow> calls_made i s u (a @ b)"
  unfolding calls_made_def by (elim exE) (rule_tac x = "calls @ callsa" in exI, auto)

lemma calls_made_none: "calls_made i s s []"
  by (simp add: calls_made_def)

definition handler_of :: "workflow_definition \<Rightarrow> string \<Rightarrow> string \<times> string" where
  "handler_of def n = (case map_of (def_steps def) n of None \<Rightarrow> [] | Some sd \<Rightarrow> sd_Handler sd, n)"

definition compensator_of :: "workflow_definition \<Rightarrow> string \<Rightarrow> string \<times> string" where
  "compensator_of def n = (case compensation def n of None \<Rightarrow> [] | Some c \<Rightarrow> sd_Handler c, n)"

lemma call_of_made:
  "en_calls t = en_calls s @ [c] \<Longrightarrow> call_of inst n sd c \<Longrightarrow> map_of (def_steps def) n = Some sd \<Longrightarrow> calls_made (wi_ID inst) s t [handler_of def n]"
  by (simp add: calls_made_def call_of_def handler_of_def)

lemma forward_runs:
  assumes def: "all_tasks def"
  shows "stands_at def inst past (hd (ms @ [n])) 0 s \<Longrightarrow> willing s def ms \<Longrightarrow> row def p (ms @ [n]) \<Longrightarrow>
    \<exists>t. worker_turns (length ms) wk s = t \<and> stands_at def inst (past @ ms) n 0 t \<and> en_handlers t = en_handlers s \<and>
      calls_made (wi_ID inst) s t (map (handler_of def) ms)"
proof (induction ms arbitrary: past s p)
  case (Cons m ms)
  from Cons.prems(3) obtain sd where sd: "map_of (def_steps def) m = Some sd" "sd_Next sd = [hd (ms @ [n])]" "row def m (ms @ [n])" by auto
  then obtain sd' where sd': "map_of (def_steps def) (hd (ms @ [n])) = Some sd'" "sd_Delay sd' \<le> 0" by (cases ms) auto
  have "answers s def m is_success" using Cons.prems(2) by (simp add: willing_def)
  with turn_next [OF def _ sd(1) _ sd(2) sd', of inst past 0 s wk] Cons.prems(1) obtain t c where
    t: "ExecuteNext wk s = (Ok False, t)" "stands_at def inst (past @ [m]) (hd (ms @ [n])) 0 t" "en_handlers t = en_handlers s"
      "en_calls t = en_calls s @ [c]" "call_of inst m sd c" by auto
  have "willing t def ms" using Cons.prems(2) t(3) by (simp add: willing_def answers_def)
  from Cons.IH [OF t(2) this sd(3)] t call_of_made [OF t(4,5) sd(1)] show ?case
    by (auto dest: calls_made_append)
qed (simp add: calls_made_none)

lemma retries_run:
  assumes def: "all_tasks def" and sd: "map_of (def_steps def) n = Some sd" "sd_Delay sd \<le> 0"
  shows "stands_at def inst past n r s \<Longrightarrow> answers s def n is_failure \<Longrightarrow> r + d = retry_limit sd \<Longrightarrow>
    \<exists>t. worker_turns d wk s = t \<and> stands_at def inst past n (retry_limit sd) t \<and> en_handlers t = en_handlers s \<and>
      calls_made (wi_ID inst) s t (replicate d (handler_of def n))"
proof (induction d arbitrary: r s)
  case (Suc d)
  from turn_retry [OF def Suc.prems(1) sd(1) Suc.prems(2) _ sd(2), of wk] Suc.prems(3) obtain t c where
    t: "ExecuteNext wk s = (Ok False, t)" "stands_at def inst past n (Suc r) t" "en_handlers t = en_handlers s"
      "en_calls t = en_calls s @ [c]" "call_of inst n sd c" by auto
  have "answers t def n is_failure" using Suc.prems(2) t(3) by (simp add: answers_def)
  from Suc.IH [OF t(2) this] Suc.prems(3) t call_of_made [OF t(4,5) sd(1)] show ?case
    by (auto dest: calls_made_append)
qed (simp add: calls_made_none)

lemma compensations_run:
  "compensating def i wid todo s \<Longrightarrow> (\<forall>n \<in> set todo. compensation def n \<noteq> None \<and> compensable s def n) \<Longrightarrow>
    \<exists>t. worker_turns (length todo) wk s = t \<and> compensating def i wid [] t \<and> calls_made i s t (map (compensator_of def) todo)"
proof (induction todo arbitrary: s)
  case (Cons n todo)
  then obtain c where c: "compensation def n = Some c" "compensable s def n" by auto
  from turn_compensates [OF Cons.prems(1) c, of wk] obtain t call where
    t: "ExecuteNext wk s = (Ok False, t)" "compensating def i wid todo t" "en_handlers t = en_handlers s" "en_calls t = en_calls s @ [call]"
      "hc_Handler call = sd_Handler c" "ec_stepName (hc_Context call) = n" "ec_instanceID (hc_Context call) = i" by blast
  have "calls_made i s t [compensator_of def n]" using t c(1) by (simp add: calls_made_def compensator_of_def)
  moreover have "\<forall>n \<in> set todo. compensation def n \<noteq> None \<and> compensable t def n" using Cons.prems(2) t(3) by (simp add: compensable_def)
  ultimately show ?case using Cons.IH [OF t(2)] t(1) by (auto dest: calls_made_append)
qed (simp add: calls_made_none)

lemma names_survive:
  assumes wf: "wf_store s" and n: "n \<in> set (step_names s i)"
  shows "\<exists>su \<in> set (steps_of (worker_turns k wk s) i). ws_StepName su = n"
proof -
  have t: "wf_store (worker_turns k wk s)" "grows s (worker_turns k wk s)" using worker_turns_sound wf by (auto simp: sound_step_def)
  from n steps_of_set [OF wf, of i] obtain st where st: "map_of (ms_steps s) (ws_ID st) = Some st" "ws_InstanceID st = i" "ws_StepName st = n"
    by (auto simp: step_names_def)
  with t(2) obtain su where "map_of (ms_steps (worker_turns k wk s)) (ws_ID st) = Some su" "same_identity st su"
    unfolding grows_def steps_grow_def by blast
  with st steps_of_set [OF t(1), of i] show ?thesis by (intro bexI [of _ su]) (auto simp: same_identity_def)
qed

definition rolled_back_run :: "int \<Rightarrow> string list \<Rightarrow> engine \<Rightarrow> bool" where
  "rolled_back_run i ns t \<longleftrightarrow> ms_queue t = [] \<and> (\<exists>fin. map_of (ms_instances t) i = Some fin \<and> wi_Status fin = StatusFailed) \<and>
     (\<forall>st \<in> set (steps_of t i). ws_Status st = StepStatusRolledBack) \<and> (\<forall>n \<in> set ns. \<exists>st \<in> set (steps_of t i). ws_StepName st = n)"

lemma compensated_end:
  assumes at: "compensating def i wid [] u" and b: "wf_store b" "step_names b i = ns" "u = worker_turns k wk b"
  shows "rolled_back_run i ns u"
proof -
  have wf: "wf_store u" and "ms_queue u = []" "\<exists>fin. map_of (ms_instances u) i = Some fin \<and> wi_Status fin = StatusFailed"
    using at by (auto simp: compensating_def queue_is_def)
  moreover have "ws_Status st = StepStatusRolledBack" if "st \<in> set (steps_of u i)" for st
    using that at steps_of_set [OF wf, of i] by (auto simp: compensating_def)
  moreover have "\<exists>st \<in> set (steps_of u i). ws_StepName st = n" if "n \<in> set ns" for n
    unfolding b(3) using b(1,2) that by (intro names_survive) simp_all
  ultimately show ?thesis by (auto simp: rolled_back_run_def)
qed

text \<open>
  C4: a saga whose last task fails is rolled back completely.  Take a well-formed store with an empty queue, no plugins and no stop
  requests, a registered valid definition of tasks in a row without delays and without dead letters, handlers that succeed
  for all steps but the last one, which fails or panics whenever it is called, and compensations that may be retried and
  succeed.  After \<open>Start\<close> and enough turns of a worker (one for each step before the last, one for each attempt at
  the last, one for each compensation) the queue is empty, the instance has failed, every step of the row was created
  and is rolled back, and the handlers were called in this order: the steps of the row, the last one once more than its
  retries, then the compensations of the steps that have one, from the last step of the row to the first.
\<close>

theorem saga_rolls_back:
  assumes wf: "wf_store s" and quiet: "quiet s" and queue: "ms_queue s = []" and unused: "steps_of s (ms_nextInstanceID s) = []"
    and reg: "map_of (ms_definitions s) w = Some def" "validateDefinition def = Ok ()"
    and def: "saga_row def (past @ [n])" "def_start def = hd (past @ [n])" "map_of (def_steps def) n = Some sd"
    and handlers: "willing s def past" "answers s def n is_failure" "\<forall>k \<in> set (past @ [n]). compensable s def k"
  shows "\<exists>t u. Start w inp s = (Ok (ms_nextInstanceID s), t) \<and>
    u = worker_turns (length past + Suc (retry_limit sd) + length (to_compensate def (past @ [n]))) wk t \<and>
    rolled_back_run (ms_nextInstanceID s) (past @ [n]) u \<and>
    calls_made (ms_nextInstanceID s) s u (map (handler_of def) past @ replicate (Suc (retry_limit sd)) (handler_of def n) @
      map (compensator_of def) (to_compensate def (n # rev past)))"
proof -
  have tasks: "all_tasks def" and row: "row def rootStepName (past @ [n])" using def(1) by (auto simp: saga_row_def)
  have delay: "sd_Delay sd \<le> 0" using row_delay [OF row _ def(3)] by simp
  obtain sd0 where sd0: "map_of (def_steps def) (def_start def) = Some sd0" "sd_Delay sd0 \<le> 0" using row def(2) by (cases past) auto
  from Start_stands [OF wf quiet queue unused reg sd0, of inp] obtain t inst where
    t: "Start w inp s = (Ok (ms_nextInstanceID s), t)" "wi_ID inst = ms_nextInstanceID s" "stands_at def inst [] (hd (past @ [n])) 0 t"
      "en_calls t = en_calls s" "en_handlers t = en_handlers s" using def(2) by auto
  have "willing t def past" using handlers(1) t(5) by (simp add: willing_def answers_def)
  from forward_runs [OF tasks t(3) this row, of wk] obtain a where
    a: "worker_turns (length past) wk t = a" "stands_at def inst past n 0 a" "en_handlers a = en_handlers s"
      "calls_made (wi_ID inst) t a (map (handler_of def) past)" using t(5) by auto
  have "answers a def n is_failure" using handlers(2) a(3) by (simp add: answers_def)
  from retries_run [OF tasks def(3) delay a(2) this, of "retry_limit sd" wk] obtain b where
    b: "worker_turns (retry_limit sd) wk a = b" "stands_at def inst past n (retry_limit sd) b" "en_handlers b = en_handlers s"
      "calls_made (wi_ID inst) a b (replicate (retry_limit sd) (handler_of def n))" using a(3) by auto
  have "answers b def n is_failure" "\<forall>k \<in> set (past @ [n]). compensable b def k"
    using handlers b(3) by (simp_all add: answers_def compensable_def)
  from turn_fails [OF def(1) b(2) def(3) this(1) _ this(2), of wk] obtain c call where
    c: "ExecuteNext wk b = (Ok False, c)" "compensating def (wi_ID inst) (wi_WorkflowID inst) (to_compensate def (n # rev past)) c"
      "en_handlers c = en_handlers s" "en_calls c = en_calls b @ [call]" "call_of inst n sd call" using b(3) by auto
  have "\<forall>k \<in> set (to_compensate def (n # rev past)). compensation def k \<noteq> None \<and> compensable c def k"
    using handlers(3) c(3) by (auto simp: to_compensate_def compensable_def)
  from compensations_run [OF c(2) this, of wk] obtain u where
    u: "worker_turns (length (to_compensate def (n # rev past))) wk c = u" "compensating def (wi_ID inst) (wi_WorkflowID inst) [] u"
      "calls_made (wi_ID inst) c u (map (compensator_of def) (to_compensate def (n # rev past)))" by blast
  have len: "length (to_compensate def (n # rev past)) = length (to_compensate def (past @ [n]))"
    by (simp add: to_compensate_def rev_filter [symmetric])
  have turns: "u = worker_turns (length past + Suc (retry_limit sd) + length (to_compensate def (past @ [n]))) wk t"
  proof -
    have "length past + Suc (retry_limit sd) + k = length past + (retry_limit sd + Suc k)" for k by simp
    then have "worker_turns (length past + Suc (retry_limit sd) + k) wk t = worker_turns (Suc k) wk b" for k
      using a(1) b(1) by (simp only: worker_turns_add)
    with c(1) u(1) show ?thesis by (simp add: len)
  qed
  have "u = worker_turns (Suc (length (to_compensate def (n # rev past)))) wk b" using c(1) u(1) by simp
  moreover have "wf_store b" "step_names b (wi_ID inst) = past @ [n]" using b(2) by (simp_all add: stands_at_def)
  ultimately have "rolled_back_run (wi_ID inst) (past @ [n]) u" using compensated_end [OF u(2)] by blast
  moreover have "calls_made (wi_ID inst) t u (map (handler_of def) past @ replicate (retry_limit sd) (handler_of def n) @ [handler_of def n] @
      map (compensator_of def) (to_compensate def (n # rev past)))"
    by (rule calls_made_append [OF a(4) calls_made_append [OF b(4) calls_made_append [OF call_of_made [OF c(4,5) def(3)] u(3)]]])
  then have "calls_made (wi_ID inst) s u (map (handler_of def) past @ replicate (Suc (retry_limit sd)) (handler_of def n) @
      map (compensator_of def) (to_compensate def (n # rev past)))"
    using t(4) by (simp add: calls_made_def replicate_app_Cons_same)
  ultimately show ?thesis using t(1,2) turns by auto
qed

text \<open>Two tasks with a compensation each; the second one is retried once and fails.\<close>

definition demo_saga :: workflow_definition where
  "demo_saga = \<lparr>wd_ID = ''s-v1'', wd_Name = ''s'', wd_Version = 1,
     wd_Definition = \<lparr>gd_Steps =
       [(''a'', zero_step\<lparr>sd_Name := ''a'', sd_Type := StepTypeTask, sd_Handler := ''h'', sd_Next := [''b''], sd_Prev := rootStepName,
                 sd_OnFailure := ''ua''\<rparr>),
        (''b'', zero_step\<lparr>sd_Name := ''b'', sd_Type := StepTypeTask, sd_Handler := ''bad'', sd_MaxRetries := 1, sd_Prev := ''a'',
                 sd_OnFailure := ''ub''\<rparr>),
        (''ua'', zero_step\<lparr>sd_Name := ''ua'', sd_Type := StepTypeTask, sd_Handler := ''undo_a'', sd_MaxRetries := 3\<rparr>),
        (''ub'', zero_step\<lparr>sd_Name := ''ub'', sd_Type := StepTypeTask, sd_Handler := ''undo_b'', sd_MaxRetries := 3\<rparr>)],
       gd_Start = ''a'', gd_DLQEnabled = False\<rparr>, wd_CreatedAt = 0\<rparr>"

definition demo_saga_engine :: engine where
  "demo_saga_engine = (snd (RegisterWorkflow demo_saga demo_engine))
     \<lparr>en_handlers := [(''h'', \<lambda>calls ctx inp. (Returns inp, [])), (''bad'', \<lambda>calls ctx inp. (Fails (Errorf ''no''), [])),
        (''undo_a'', \<lambda>calls ctx inp. (Returns inp, [])), (''undo_b'', \<lambda>calls ctx inp. (Returns inp, []))]\<rparr>"

theorem saga_rolls_back_witness:
  "\<exists>t. Start ''s-v1'' RawNil demo_saga_engine = (Ok 1, t) \<and> rolled_back_run 1 [''a'', ''b''] (worker_turns 5 ''worker'' t) \<and>
    calls_made 1 demo_saga_engine (worker_turns 5 ''worker'' t)
      [(''h'', ''a''), (''bad'', ''b''), (''bad'', ''b''), (''undo_b'', ''b''), (''undo_a'', ''a'')]"
proof -
  have "wf_store (snd (RegisterWorkflow demo_saga demo_engine))"
    using movesD [OF sound_RegisterWorkflow, of demo_engine demo_saga] wf_NewEngine by (simp add: demo_engine_def sound_step_def)
  then have wf: "wf_store demo_saga_engine" by (simp add: demo_saga_engine_def wf_store_def)
  have facts: "ms_queue demo_saga_engine = []" "steps_of demo_saga_engine 1 = []" "ms_nextInstanceID demo_saga_engine = 1"
    "ms_cancelRequests demo_saga_engine = []" "\<not> en_isShuttingDown demo_saga_engine" "en_plugins demo_saga_engine = None"
    "map_of (ms_definitions demo_saga_engine) ''s-v1'' = Some demo_saga" "validateDefinition demo_saga = Ok ()"
    by code_simp+
  have row: "saga_row demo_saga ([''a''] @ [''b''])" "def_start demo_saga = hd ([''a''] @ [''b''])"
    by (simp_all add: saga_row_def all_tasks_def demo_saga_def zero_step_def has_key_def rootStepName_def)
  obtain sd where sd: "map_of (def_steps demo_saga) ''b'' = Some sd" "retry_limit sd = 1"
    by (simp add: demo_saga_def zero_step_def retry_limit_def)
  have "willing demo_saga_engine demo_saga [''a'']" "answers demo_saga_engine demo_saga ''b'' is_failure"
    by (simp_all add: willing_def answers_def is_success_def demo_saga_engine_def demo_saga_def zero_step_def)
  moreover have "\<forall>k \<in> set ([''a''] @ [''b'']). compensable demo_saga_engine demo_saga k"
    by (simp add: compensable_def compensation_def is_success_def demo_saga_engine_def demo_saga_def zero_step_def
        compensation_delay_def CalculateRetryDelay_def)
  moreover have "to_compensate demo_saga [''a'', ''b''] = [''a'', ''b'']" "to_compensate demo_saga [''b'', ''a''] = [''b'', ''a'']"
    "handler_of demo_saga ''a'' = (''h'', ''a'')" "handler_of demo_saga ''b'' = (''bad'', ''b'')"
    "compensator_of demo_saga ''a'' = (''undo_a'', ''a'')" "compensator_of demo_saga ''b'' = (''undo_b'', ''b'')"
    by (simp_all add: to_compensate_def compensation_def handler_of_def compensator_of_def demo_saga_def zero_step_def)
  ultimately show ?thesis
    using saga_rolls_back [of demo_saga_engine "''s-v1''" demo_saga "[''a'']" "''b''" sd RawNil "''worker''"] wf facts row sd
    by (auto simp: quiet_def numeral_eq_Suc)
qed

end
