(* ===== verification/Worker_Pool.thy ===== *)
theory Worker_Pool
  imports Engine_Laws
begin

text \<open>
  The workers, \<open>src/worker.go\<close>: each worker is a loop that waits for the first of three events, the end
  of its context, its stop signal, or the next tick of its timer, and on a tick asks the engine for one step.

  The loops run side by side, and \<open>select\<close> picks any event that has happened: a step relation on the state of
  the pool.  On a tick the engine's turn happens as a whole; what other clients of the engine do is
  a step too.  A turn that panics ends the program; a turn that never returns keeps its loop for good.
\<close>

section \<open>Workers and pools\<close>

record worker =
  wk_workerID :: string
  wk_stopOnce :: bool
  wk_stopClosed :: bool
  wk_loops :: nat

record worker_pool =
  wp_workers :: "worker list"
  wp_ctxDone :: bool
  wp_crashed :: bool
  wp_engine :: engine

text \<open>\<open>wk_loops\<close> counts the running calls of \<open>Start\<close>; \<open>ids\<close> are the generated worker identifiers.\<close>

definition NewWorker :: "string \<Rightarrow> worker" where
  "NewWorker ident = \<lparr>wk_workerID = ident, wk_stopOnce = False, wk_stopClosed = False, wk_loops = 0\<rparr>"

definition NewWorkerPool :: "engine \<Rightarrow> string list \<Rightarrow> worker_pool" where
  "NewWorkerPool e ids = \<lparr>wp_workers = map NewWorker ids, wp_ctxDone = False, wp_crashed = False, wp_engine = e\<rparr>"

text \<open>Closing a closed channel panics; \<open>stopOnce\<close> is what prevents it.\<close>

definition close_stop :: "worker \<Rightarrow> worker option" where
  "close_stop w = (if wk_stopClosed w then None else Some (w\<lparr>wk_stopClosed := True\<rparr>))"

definition Worker_Stop :: "worker \<Rightarrow> worker option" where
  "Worker_Stop w = (if wk_stopOnce w then Some w else close_stop (w\<lparr>wk_stopOnce := True\<rparr>))"

definition start_loop :: "worker \<Rightarrow> worker" where
  "start_loop w = w\<lparr>wk_loops := Suc (wk_loops w)\<rparr>"

definition leave_loop :: "worker \<Rightarrow> worker" where
  "leave_loop w = w\<lparr>wk_loops := wk_loops w - 1\<rparr>"

definition WorkerPool_Start :: "worker_pool \<Rightarrow> worker_pool" where
  "WorkerPool_Start p = p\<lparr>wp_workers := map start_loop (wp_workers p)\<rparr>"

fun stop_all :: "worker list \<Rightarrow> worker list option" where
  "stop_all [] = Some []"
| "stop_all (w # ws) =
     (case Worker_Stop w of None \<Rightarrow> None | Some w' \<Rightarrow> map_option (Cons w') (stop_all ws))"

definition WorkerPool_Stop :: "worker_pool \<Rightarrow> worker_pool" where
  "WorkerPool_Stop p =
     (case stop_all (wp_workers p) of
        None \<Rightarrow> p\<lparr>wp_crashed := True\<rparr>
      | Some ws \<Rightarrow> p\<lparr>wp_workers := ws\<rparr>)"

definition WorkerPool_Shutdown :: "(int \<Rightarrow> string) \<Rightarrow> bool \<Rightarrow> int \<Rightarrow> worker_pool \<Rightarrow> unit outcome \<times> worker_pool" where
  "WorkerPool_Shutdown show_duration drained timeout p =
     (let q = WorkerPool_Stop p; (r, e) = Shutdown show_duration drained (Some timeout) (wp_engine q)
      in (r, q\<lparr>wp_engine := e\<rparr>))"

definition WorkerPool_Size :: "worker_pool \<Rightarrow> nat" where
  "WorkerPool_Size p = length (wp_workers p)"

section \<open>The loop\<close>

text \<open>A tick: \<open>processNext\<close>; an error is only logged.\<close>

definition tick :: "nat \<Rightarrow> worker_pool \<Rightarrow> worker_pool" where
  "tick i p =
     (let (r, e) = ExecuteNext (wk_workerID (wp_workers p ! i)) (wp_engine p) in
      case r of
        Panic m \<Rightarrow> p\<lparr>wp_engine := e, wp_crashed := True\<rparr>
      | Stuck \<Rightarrow> p\<lparr>wp_engine := e, wp_workers := (wp_workers p)[i := leave_loop (wp_workers p ! i)]\<rparr>
      | _ \<Rightarrow> p\<lparr>wp_engine := e\<rparr>)"

inductive worker_step :: "worker_pool \<Rightarrow> worker_pool \<Rightarrow> bool" where
  tick: "\<not> wp_crashed p \<Longrightarrow> i < WorkerPool_Size p \<Longrightarrow> wk_loops (wp_workers p ! i) > 0 \<Longrightarrow> worker_step p (tick i p)"
| leave: "\<not> wp_crashed p \<Longrightarrow> i < WorkerPool_Size p \<Longrightarrow> wk_loops (wp_workers p ! i) > 0 \<Longrightarrow>
    wp_ctxDone p \<or> wk_stopClosed (wp_workers p ! i) \<Longrightarrow>
    worker_step p (p\<lparr>wp_workers := (wp_workers p)[i := leave_loop (wp_workers p ! i)]\<rparr>)"
| start: "\<not> wp_crashed p \<Longrightarrow> worker_step p (WorkerPool_Start p)"
| stop: "\<not> wp_crashed p \<Longrightarrow> worker_step p (WorkerPool_Stop p)"
| cancel: "\<not> wp_crashed p \<Longrightarrow> worker_step p (p\<lparr>wp_ctxDone := True\<rparr>)"

inductive pool_step :: "worker_pool \<Rightarrow> worker_pool \<Rightarrow> bool" where
  worker: "worker_step p q \<Longrightarrow> pool_step p q"
| shutdown: "\<not> wp_crashed p \<Longrightarrow> pool_step p (snd (WorkerPool_Shutdown show_duration drained timeout p))"
| client: "\<not> wp_crashed p \<Longrightarrow> engine_step (wp_engine p) e \<Longrightarrow> pool_step p (p\<lparr>wp_engine := e\<rparr>)"

section \<open>A pool drives the engine, and only through its public operations\<close>

lemma WorkerPool_Stop_engine [simp]: "wp_engine (WorkerPool_Stop p) = wp_engine p"
  by (simp add: WorkerPool_Stop_def split: option.split)

lemma tick_engine [simp]: "wp_engine (tick i p) = snd (ExecuteNext (wk_workerID (wp_workers p ! i)) (wp_engine p))"
  by (simp add: tick_def split: prod.split outcome.split)

lemma worker_step_engine: "worker_step p q \<Longrightarrow> engine_step\<^sup>*\<^sup>* (wp_engine p) (wp_engine q)"
  by (induction rule: worker_step.induct)
    (auto simp: WorkerPool_Start_def intro: r_into_rtranclp engine_step.ExecuteNext)

lemma pool_step_engine: "pool_step p q \<Longrightarrow> engine_step\<^sup>*\<^sup>* (wp_engine p) (wp_engine q)"
proof (induction rule: pool_step.induct)
  case (shutdown p show_duration drained timeout)
  have "wp_engine (snd (WorkerPool_Shutdown show_duration drained timeout p)) =
      snd (Shutdown show_duration drained (Some timeout) (wp_engine p))"
    by (simp add: WorkerPool_Shutdown_def Let_def split: prod.split)
  then show ?case by (simp add: r_into_rtranclp engine_step.Shutdown)
qed (auto intro: worker_step_engine)

lemma engine_steps_reachable: "engine_step\<^sup>*\<^sup>* s t \<Longrightarrow> reachable s \<Longrightarrow> reachable t"
  by (induction rule: rtranclp_induct) (auto intro: reachable.step)



section \<open>Stopping\<close>

text \<open>The signal is closed exactly when \<open>stopOnce\<close> has run, so stopping never closes twice.\<close>

definition signals_ok :: "worker_pool \<Rightarrow> bool" where
  "signals_ok p \<longleftrightarrow> (\<forall>w \<in> set (wp_workers p). wk_stopClosed w \<longleftrightarrow> wk_stopOnce w)"

definition all_stopped :: "worker_pool \<Rightarrow> bool" where
  "all_stopped p \<longleftrightarrow> (\<forall>w \<in> set (wp_workers p). wk_stopClosed w)"

lemma stop_all_ok:
  "(\<forall>w \<in> set ws. wk_stopClosed w \<longleftrightarrow> wk_stopOnce w) \<Longrightarrow>
   stop_all ws = Some (map (\<lambda>w. w\<lparr>wk_stopOnce := True, wk_stopClosed := True\<rparr>) ws)"
  by (induction ws) (auto simp: Worker_Stop_def close_stop_def)

lemma Stop_result: "signals_ok p \<Longrightarrow>
    WorkerPool_Stop p = p\<lparr>wp_workers := map (\<lambda>w. w\<lparr>wk_stopOnce := True, wk_stopClosed := True\<rparr>) (wp_workers p)\<rparr>"
  by (simp add: WorkerPool_Stop_def signals_ok_def stop_all_ok)

lemma ball_list_update: "(\<forall>x \<in> set xs. P x) \<Longrightarrow> P y \<Longrightarrow> \<forall>x \<in> set (xs[i := y]). P x"
  using set_update_subset_insert [of xs i y] by blast

lemma worker_step_signals: "worker_step p q \<Longrightarrow> signals_ok p \<Longrightarrow> signals_ok q"
proof (induction rule: worker_step.induct)
  case (tick p i)
  then show ?case
    by (auto simp: tick_def signals_ok_def leave_loop_def WorkerPool_Size_def Let_def
        split: prod.splits outcome.splits dest!: set_update_subset_insert [THEN subsetD])
next
  case (leave p i)
  then show ?case
    by (auto simp: signals_ok_def leave_loop_def WorkerPool_Size_def dest!: set_update_subset_insert [THEN subsetD])
next
  case (stop p)
  then show ?case by (simp add: Stop_result) (simp add: signals_ok_def)
qed (auto simp: signals_ok_def WorkerPool_Start_def start_loop_def)

lemma Shutdown_flag: "en_isShuttingDown (snd (Shutdown show_duration drained timeoutOpt e))"
  by (auto simp: Shutdown_def isShutdown_def run_simps Let_def split: if_splits option.splits)

lemma ExecuteNext_down: "en_isShuttingDown e \<Longrightarrow> ExecuteNext w e = (Ok True, e)"
  by (simp add: ExecuteNext_def isShutdown_def run_simps)

lemma worker_step_down: "worker_step p q \<Longrightarrow> en_isShuttingDown (wp_engine p) \<Longrightarrow> wp_engine q = wp_engine p"
  by (induction rule: worker_step.induct) (simp_all add: ExecuteNext_down WorkerPool_Start_def)



definition loops :: "worker_pool \<Rightarrow> nat" where
  "loops p = sum_list (map wk_loops (wp_workers p))"

lemma leave_loops: "i < length ws \<Longrightarrow> wk_loops (ws ! i) > 0 \<Longrightarrow>
    sum_list (map wk_loops (ws[i := leave_loop (ws ! i)])) < sum_list (map wk_loops ws)"
proof (induction ws arbitrary: i)
  case (Cons w ws)
  then show ?case by (cases i) (simp_all add: leave_loop_def)
qed simp

lemma stopped_pool_drains:
  assumes "all_stopped p" and "\<not> wp_crashed p"
  shows "\<exists>q. worker_step\<^sup>*\<^sup>* p q \<and> loops q = 0 \<and> wp_engine q = wp_engine p"
  using assms
proof (induction "loops p" arbitrary: p rule: less_induct)
  case less
  show ?case
  proof (cases "loops p = 0")
    case False
    then obtain i where i: "i < WorkerPool_Size p" "wk_loops (wp_workers p ! i) > 0"
      by (auto simp: loops_def WorkerPool_Size_def sum_list_eq_0_iff in_set_conv_nth)
    let ?q = "p\<lparr>wp_workers := (wp_workers p)[i := leave_loop (wp_workers p ! i)]\<rparr>"
    have st: "wk_stopClosed (wp_workers p ! i)" using less.prems(1) i(1) by (simp add: all_stopped_def WorkerPool_Size_def)
    then have step: "worker_step p ?q" using less.prems(2) i by (intro worker_step.leave) auto
    have "loops ?q < loops p" using leave_loops i by (simp add: loops_def WorkerPool_Size_def)
    moreover have "all_stopped ?q"
      using ball_list_update [of "wp_workers p" wk_stopClosed "leave_loop (wp_workers p ! i)" i] less.prems(1) st
      by (simp add: all_stopped_def leave_loop_def)
    ultimately obtain t where "worker_step\<^sup>*\<^sup>* ?q t" "loops t = 0" "wp_engine t = wp_engine ?q"
      using less.hyps [of ?q] less.prems(2) by fastforce
    then show ?thesis using converse_rtranclp_into_rtranclp [of worker_step, OF step] by (intro exI [of _ t]) simp
  qed auto
qed

lemma pool_step_signals: "pool_step p q \<Longrightarrow> signals_ok p \<Longrightarrow> signals_ok q"
proof (induction rule: pool_step.induct)
  case (worker p q)
  then show ?case by (rule worker_step_signals)
next
  case (shutdown p show_duration drained timeout)
  then show ?case
    by (simp add: WorkerPool_Shutdown_def Stop_result Let_def split: prod.split) (simp add: signals_ok_def)
qed (simp add: signals_ok_def)


definition demo_pool :: worker_pool where
  "demo_pool = WorkerPool_Start (NewWorkerPool demo_engine [''w1'', ''w2''])"

lemma demo_pool_run: "pool_step\<^sup>*\<^sup>* (NewWorkerPool demo_engine [''w1'', ''w2'']) demo_pool"
  unfolding demo_pool_def
  by (intro r_into_rtranclp pool_step.worker worker_step.start) (simp add: NewWorkerPool_def)

lemma demo_pool_facts: "\<not> wp_crashed demo_pool" "WorkerPool_Size demo_pool = 2" "wk_loops (wp_workers demo_pool ! 1) = 1"
    "wp_engine demo_pool = demo_engine"
  by (simp_all add: demo_pool_def NewWorkerPool_def WorkerPool_Start_def WorkerPool_Size_def start_loop_def NewWorker_def)


end
