(* ===== verification/Join_Readiness.thy ===== *)
theory Join_Readiness
  imports Store_Invariant
begin

text \<open>
  What a join state promises.  The specification is a map of verdicts: the last notification about each
  branch.  The two lists of a join state implement it, and a join is ready when every awaited branch has
  a verdict (or, for the strategy \<open>any\<close>, when some branch has one).
\<close>

section \<open>Keys\<close>

lemma append_colon_inj: "CHR '':'' \<notin> set a \<Longrightarrow> CHR '':'' \<notin> set b \<Longrightarrow>
    a @ CHR '':'' # x = b @ CHR '':'' # y \<Longrightarrow> a = b \<and> x = y"
  by (induction a arbitrary: b) (auto simp: Cons_eq_append_conv append_eq_Cons_conv)

lemma joinStateKey_inj: "joinStateKey i n = joinStateKey j m \<longleftrightarrow> i = j \<and> n = m"
  using append_colon_inj [of "show_int i" "show_int j" n m] colon_not_in_show_int show_int_inj
  by (auto simp: joinStateKey_def)

section \<open>Verdicts\<close>

definition note_verdict :: "string \<times> bool \<Rightarrow> join_state \<Rightarrow> join_state" where
  "note_verdict = (\<lambda>(n, success) js. if success then mark_success n js else mark_failure n js)"

text \<open>The verdicts of a list of notifications, the newest last.\<close>

definition verdicts :: "(string \<times> bool) list \<Rightarrow> string \<Rightarrow> bool option" where
  "verdicts ns = map_of (rev ns)"

definition implements :: "join_state \<Rightarrow> (string \<Rightarrow> bool option) \<Rightarrow> bool" where
  "implements js v \<longleftrightarrow> lists_ok js \<and>
     set (js_Completed js) = {n. v n = Some True} \<and> set (js_Failed js) = {n. v n = Some False}"

lemma implements_note: "implements js v \<Longrightarrow> implements (note_verdict (n, b) js) (v(n \<mapsto> b))"
proof -
  assume *: "implements js v"
  then have "lists_ok (note_verdict (n, b) js)"
    by (auto simp: note_verdict_def implements_def mark_success_lists mark_failure_lists)
  with * show ?thesis
    by (auto simp: implements_def note_verdict_def mark_success_def mark_failure_def lists_ok_def split: if_splits)
qed

lemma implements_count:
  assumes "implements js v"
  shows "length (js_Completed js) + length (js_Failed js) = card (dom v)"
proof -
  have "dom v = set (js_Completed js) \<union> set (js_Failed js)"
    using assms by (auto simp: implements_def dom_def)
  moreover have "card (set (js_Completed js) \<union> set (js_Failed js)) = length (js_Completed js) + length (js_Failed js)"
    using assms unfolding implements_def lists_ok_def by (metis card_Un_disjoint distinct_card List.finite_set)
  ultimately show ?thesis by simp
qed

lemma ready_iff:
  assumes "implements js v" and "dom v \<subseteq> set (js_WaitingFor js)" and "distinct (js_WaitingFor js)"
  shows "checkJoinReady (js_WaitingFor js) (js_Completed js) (js_Failed js) strategy \<longleftrightarrow>
    (if strategy = JoinStrategyAny then dom v \<noteq> {} else dom v = set (js_WaitingFor js))"
proof -
  have fin: "finite (dom v)" using assms(2) finite_subset by blast
  have "card (dom v) \<ge> length (js_WaitingFor js) \<longleftrightarrow> dom v = set (js_WaitingFor js)"
    using card_seteq [OF _ assms(2)] by (metis List.finite_set assms(3) distinct_card order_refl)
  moreover have "length (js_Completed js) > 0 \<or> length (js_Failed js) > 0 \<longleftrightarrow> dom v \<noteq> {}"
    by (simp only: add_gr_0 [symmetric] implements_count [OF assms(1)] card_gt_0_iff fin simp_thms)
  ultimately show ?thesis
    using implements_count [OF assms(1)] by (simp add: checkJoinReady_def)
qed

section \<open>A join in the store\<close>

definition notify_all :: "int \<Rightarrow> string \<Rightarrow> (string \<times> bool) list \<Rightarrow> ('x, unit) sprog" where
  "notify_all i j ns = for_each ns (\<lambda>(n, success). thn (UpdateJoinState i j n success) (ret ()))"

definition open_join :: "int \<Rightarrow> string \<Rightarrow> string list \<Rightarrow> join_strategy \<Rightarrow> 'x memory_store_scheme \<Rightarrow> join_state \<Rightarrow> bool" where
  "open_join i j ws strategy s js \<longleftrightarrow> map_of (ms_joinStates s) (joinStateKey i j) = Some js \<and>
     js_WaitingFor js = ws \<and> js_JoinStrategy js = strategy"

definition up_to_date :: "(string \<times> bool) list \<Rightarrow> join_state \<Rightarrow> bool" where
  "up_to_date ns js \<longleftrightarrow> implements js (verdicts ns) \<and>
     (js_IsReady js \<longleftrightarrow> ns \<noteq> [] \<and>
        checkJoinReady (js_WaitingFor js) (js_Completed js) (js_Failed js) (js_JoinStrategy js))"

lemma UpdateJoinState_step:
  assumes "open_join i j ws strategy s js" and "up_to_date ns js"
  shows "\<exists>r t js'. UpdateJoinState i j n b s = (Ok r, t) \<and> open_join i j ws strategy t js' \<and>
    up_to_date (ns @ [(n, b)]) js'"
proof -
  define js' where "js' = refresh_ready (ms_clock s) (note_verdict (n, b) js)"
  have "implements js' ((verdicts ns)(n \<mapsto> b))"
    using implements_note [of js "verdicts ns" n b] assms(2)
    by (auto simp: js'_def up_to_date_def implements_def lists_ok_def refresh_ready_def)
  moreover have "verdicts (ns @ [(n, b)]) = (verdicts ns)(n \<mapsto> b)"
    by (auto simp: verdicts_def)
  ultimately have "up_to_date (ns @ [(n, b)]) js'"
    by (simp add: up_to_date_def js'_def refresh_ready_def)
  moreover have "UpdateJoinState i j n b s = (Ok (js_IsReady js'), s\<lparr>ms_clock := ms_clock s + 1,
      ms_joinStates := AList.update (joinStateKey i j) js' (ms_joinStates s)\<rparr>)"
    using assms(1)
    by (simp add: UpdateJoinState_def open_join_def run_simps time_now_def put_join_def Let_def js'_def
        note_verdict_def)
  moreover have "js_WaitingFor js' = ws" "js_JoinStrategy js' = strategy"
    using assms(1) by (simp_all add: js'_def refresh_ready_def note_verdict_def mark_success_def
        mark_failure_def open_join_def)
  ultimately show ?thesis by (auto simp: open_join_def)
qed

lemma notify_all_result:
  assumes "open_join i j ws strategy s js" and "up_to_date seen js"
  shows "\<exists>t js'. notify_all i j ns s = (Ok (), t) \<and> open_join i j ws strategy t js' \<and> up_to_date (seen @ ns) js'"
  using assms
proof (induction ns arbitrary: s js seen)
  case Nil
  then show ?case by (auto simp: notify_all_def ret_def)
next
  case (Cons nb ns)
  obtain n b where nb: "nb = (n, b)" by fastforce
  from UpdateJoinState_step [OF Cons.prems, of n b] obtain r t js' where
    run: "UpdateJoinState i j n b s = (Ok r, t)" and "open_join i j ws strategy t js'"
    "up_to_date (seen @ [(n, b)]) js'" by blast
  from Cons.IH [OF this(2,3)] run show ?case
    by (simp add: notify_all_def run_simps nb)
qed

section \<open>Properties\<close>

text \<open>
  The key of a join state tells instance and join step apart, also for step names that contain
  the separator: two joins share a key only if they are the same join of the same instance.
\<close>

theorem join_keys_distinct: "joinStateKey i n = joinStateKey j m \<longleftrightarrow> i = j \<and> n = m"
  by (rule joinStateKey_inj)

text \<open>
  C18: a join is ready exactly when it should be.  After a join has been created to wait for distinct
  steps and has been notified any number of times, in any order and with repetitions, about some of
  them, it has recorded each notified step once, as completed or failed by its last notification, and
  it is ready iff every awaited step was notified (strategy \<open>any\<close>: at least one was).
\<close>

theorem join_ready_exact:
  assumes fresh: "\<not> has_key (ms_joinStates s) (joinStateKey i j)" and ws: "distinct ws" "ws \<noteq> []"
    and known: "set (map fst ns) \<subseteq> set ws" and strategy: "strategy \<noteq> JoinStrategyOther []"
  shows "\<exists>t js. thn (CreateJoinState i j ws strategy) (thn (notify_all i j ns) (GetJoinState i j)) s = (Ok js, t) \<and>
    distinct (js_Completed js) \<and> distinct (js_Failed js) \<and>
    set (js_Completed js) = {n. verdicts ns n = Some True} \<and>
    set (js_Failed js) = {n. verdicts ns n = Some False} \<and>
    (js_IsReady js \<longleftrightarrow> (if strategy = JoinStrategyAny then ns \<noteq> [] else set (map fst ns) = set ws))"
proof -
  define js0 where "js0 = \<lparr>js_InstanceID = i, js_JoinStepName = j, js_WaitingFor = ws, js_Completed = [],
     js_Failed = [], js_JoinStrategy = strategy, js_IsReady = False, js_CreatedAt = ms_clock s,
     js_UpdatedAt = ms_clock s\<rparr>"
  define s0 where "s0 = s\<lparr>ms_clock := ms_clock s + 1,
    ms_joinStates := AList.update (joinStateKey i j) js0 (ms_joinStates s)\<rparr>"
  have create: "CreateJoinState i j ws strategy s = (Ok (), s0)"
    using fresh strategy
    by (simp add: CreateJoinState_def run_simps time_now_def put_join_def Let_def s0_def js0_def)
  have "open_join i j ws strategy s0 js0" "up_to_date [] js0"
    by (auto simp: open_join_def up_to_date_def s0_def js0_def implements_def lists_ok_def verdicts_def)
  from notify_all_result [OF this, of ns] obtain t js where
    notify: "notify_all i j ns s0 = (Ok (), t)" and join: "open_join i j ws strategy t js"
    and upd: "up_to_date ns js" by auto
  have dom: "dom (verdicts ns) = set (map fst ns)"
    by (simp add: verdicts_def dom_map_of_conv_image_fst)
  have impl: "implements js (verdicts ns)" using upd by (simp add: up_to_date_def)
  have "js_IsReady js \<longleftrightarrow> ns \<noteq> [] \<and> (if strategy = JoinStrategyAny then dom (verdicts ns) \<noteq> {}
      else dom (verdicts ns) = set ws)"
    using upd join ready_iff [OF impl, of strategy] known ws(1) dom by (simp add: up_to_date_def open_join_def)
  then have "js_IsReady js \<longleftrightarrow> (if strategy = JoinStrategyAny then ns \<noteq> [] else set (map fst ns) = set ws)"
    using ws(2) dom by auto
  moreover have "thn (CreateJoinState i j ws strategy) (thn (notify_all i j ns) (GetJoinState i j)) s = (Ok js, t)"
    using create notify join by (simp add: run_simps GetJoinState_def open_join_def)
  ultimately show ?thesis using impl by (auto simp: implements_def lists_ok_def)
qed

theorem join_ready_exact_witness:
  "\<exists>t js. thn (CreateJoinState 1 ''j'' [''a'', ''b''] JoinStrategyAll)
      (thn (notify_all 1 ''j'' [(''a'', False), (''b'', True), (''a'', True)]) (GetJoinState 1 ''j''))
      (NewMemoryStore 0 (\<lambda>_. [])) = (Ok js, t) \<and>
    distinct (js_Completed js) \<and> distinct (js_Failed js) \<and>
    set (js_Completed js) = {n. verdicts [(''a'', False), (''b'', True), (''a'', True)] n = Some True} \<and>
    set (js_Failed js) = {n. verdicts [(''a'', False), (''b'', True), (''a'', True)] n = Some False} \<and>
    (js_IsReady js \<longleftrightarrow> True)"
  using join_ready_exact [of "NewMemoryStore 0 (\<lambda>_. [])" 1 "''j''" "[''a'', ''b'']"
      "[(''a'', False), (''b'', True), (''a'', True)]" JoinStrategyAll]
  by (simp add: NewMemoryStore_def has_key_def insert_commute)

text \<open>
  The two operations that change what a join waits for never return when the join state does not
  exist yet (they call \<open>CreateJoinState\<close> while they hold the mutex it takes), and return otherwise.
\<close>

theorem join_wait_operations_block:
  "(fst (AddToJoinWaitFor i j n s) = Stuck \<longleftrightarrow> \<not> has_key (ms_joinStates s) (joinStateKey i j)) \<and>
   (fst (ReplaceInJoinWaitFor i j v n s) = Stuck \<longleftrightarrow> \<not> has_key (ms_joinStates s) (joinStateKey i j))"
  by (auto simp: AddToJoinWaitFor_def ReplaceInJoinWaitFor_def run_simps time_now_def put_join_def has_key_def
      split: option.split)

end
