(* ===== verification/Slice_Joins.thy ===== *)
theory Slice_Joins
  imports Join_Readiness
begin

text \<open>
  The lists of a join state as Go slices.  \<open>Join_State\<close> keeps the three lists of a join state by value; the
  code of \<open>src/memory_store.go\<close> keeps slices, and \<open>CreateJoinState\<close> stores the slice its caller passes
  without copying it.  Here the arrays behind the slices are an explicit store, and the four operations
  that change a join state act on it as the code does: an append writes in place while the array has
  room, a removal moves the tail down in place, and \<open>ReplaceInJoinWaitFor\<close> writes one element.

  As long as no two lists share an array these operations are those of \<open>Join_State\<close>.  The wait lists that
  \<open>executeFork\<close> passes are those of the workflow definition, so two instances of a definition do share them.
\<close>

section \<open>Arrays and slices\<close>

text \<open>Every slice here starts at the first element of its array and reaches to its end: the capacity is the array's length.\<close>

record slice =
  sl_arr :: nat
  sl_len :: nat

type_synonym arrays = "string list list"

definition sl_val :: "arrays \<Rightarrow> slice \<Rightarrow> string list" where
  "sl_val A sl = take (sl_len sl) (A ! sl_arr sl)"

definition sl_literal :: "string list \<Rightarrow> arrays \<Rightarrow> slice \<times> arrays" where
  "sl_literal xs A = (\<lparr>sl_arr = length A, sl_len = length xs\<rparr>, A @ [xs])"

text \<open>\<open>append(sl, x)\<close>; \<open>room n\<close> is the spare capacity the runtime gives to an array grown from length \<open>n\<close>.\<close>

definition sl_append :: "(nat \<Rightarrow> nat) \<Rightarrow> string \<Rightarrow> slice \<times> arrays \<Rightarrow> slice \<times> arrays" where
  "sl_append room x = (\<lambda>(sl, A).
     let a = A ! sl_arr sl; n = sl_len sl
     in if n < length a then (sl\<lparr>sl_len := Suc n\<rparr>, A[sl_arr sl := a[n := x]])
        else (\<lparr>sl_arr = length A, sl_len = Suc n\<rparr>, A @ [take n a @ x # replicate (room n) []]))"

definition sl_set :: "nat \<Rightarrow> string \<Rightarrow> slice \<times> arrays \<Rightarrow> slice \<times> arrays" where
  "sl_set i x = (\<lambda>(sl, A). (sl, A[sl_arr sl := (A ! sl_arr sl)[i := x]]))"

text \<open>\<open>append(sl[:i], sl[i+1:]...)\<close>: always within the capacity; the last element stays behind the new end.\<close>

definition sl_remove :: "nat \<Rightarrow> slice \<times> arrays \<Rightarrow> slice \<times> arrays" where
  "sl_remove i = (\<lambda>(sl, A).
     let a = A ! sl_arr sl; n = sl_len sl
     in (sl\<lparr>sl_len := n - 1\<rparr>,
         A[sl_arr sl := take i a @ drop (Suc i) (take n a) @ drop (n - 1) a]))"

fun first_at :: "'a \<Rightarrow> 'a list \<Rightarrow> nat option" where
  "first_at x [] = None"
| "first_at x (y # ys) = (if y = x then Some 0 else map_option Suc (first_at x ys))"

definition add_once :: "(nat \<Rightarrow> nat) \<Rightarrow> string \<Rightarrow> slice \<times> arrays \<Rightarrow> slice \<times> arrays" where
  "add_once room x = (\<lambda>(sl, A). if x \<in> set (sl_val A sl) then (sl, A) else sl_append room x (sl, A))"

definition drop_first :: "string \<Rightarrow> slice \<times> arrays \<Rightarrow> slice \<times> arrays" where
  "drop_first x = (\<lambda>(sl, A). case first_at x (sl_val A sl) of
     None \<Rightarrow> (sl, A) | Some i \<Rightarrow> sl_remove i (sl, A))"

definition replace_elem :: "(nat \<Rightarrow> nat) \<Rightarrow> string \<Rightarrow> string \<Rightarrow> slice \<times> arrays \<Rightarrow> slice \<times> arrays" where
  "replace_elem room x y = (\<lambda>(sl, A). case first_at x (sl_val A sl) of
     None \<Rightarrow> sl_append room y (sl, A) | Some i \<Rightarrow> sl_set i y (sl, A))"

section \<open>Join states with slices\<close>

record slice_join =
  sj_InstanceID :: int
  sj_JoinStepName :: string
  sj_WaitingFor :: slice
  sj_Completed :: slice
  sj_Failed :: slice
  sj_JoinStrategy :: join_strategy
  sj_IsReady :: bool
  sj_CreatedAt :: int
  sj_UpdatedAt :: int

text \<open>The memory store with its join states in slices; the field \<open>ms_joinStates\<close> is not used.\<close>

record slice_store = memory_store +
  sv_arrays :: arrays
  sv_joins :: "(string, slice_join) gomap"

type_synonym 'a slprog = "(slice_store, 'a) prog"

definition put_slice_join :: "string \<Rightarrow> slice_join \<Rightarrow> arrays \<Rightarrow> unit slprog" where
  "put_slice_join key sj A = modify (\<lambda>s. s\<lparr>sv_joins := AList.update key sj (sv_joins s), sv_arrays := A\<rparr>)"

definition slice_literal :: "string list \<Rightarrow> slice slprog" where
  "slice_literal xs = (\<lambda>s. (Ok (fst (sl_literal xs (sv_arrays s))), s\<lparr>sv_arrays := snd (sl_literal xs (sv_arrays s))\<rparr>))"

definition slice_CreateJoinState :: "int \<Rightarrow> string \<Rightarrow> slice \<Rightarrow> join_strategy \<Rightarrow> unit slprog" where
  "slice_CreateJoinState instanceID joinStepName waitingFor strategy0 =
     bnd (gets sv_joins) (\<lambda>m.
     if has_key m (joinStateKey instanceID joinStepName) then ret ()
     else
       let strategy = (if strategy0 = JoinStrategyOther [] then JoinStrategyAll else strategy0)
       in bnd time_now (\<lambda>now.
          bnd (slice_literal []) (\<lambda>completed.
          bnd (slice_literal []) (\<lambda>failed.
          bnd (gets sv_arrays) (\<lambda>A.
          put_slice_join (joinStateKey instanceID joinStepName)
            \<lparr>sj_InstanceID = instanceID, sj_JoinStepName = joinStepName, sj_WaitingFor = waitingFor,
             sj_Completed = completed, sj_Failed = failed, sj_JoinStrategy = strategy, sj_IsReady = False,
             sj_CreatedAt = now, sj_UpdatedAt = now\<rparr> A)))))"

definition slice_refresh :: "int \<Rightarrow> arrays \<Rightarrow> slice_join \<Rightarrow> slice_join" where
  "slice_refresh now A sj =
     sj\<lparr>sj_IsReady := checkJoinReady (sl_val A (sj_WaitingFor sj)) (sl_val A (sj_Completed sj))
          (sl_val A (sj_Failed sj)) (sj_JoinStrategy sj),
        sj_UpdatedAt := now\<rparr>"

definition slice_mark :: "(nat \<Rightarrow> nat) \<Rightarrow> string \<Rightarrow> bool \<Rightarrow> slice_join \<times> arrays \<Rightarrow> slice_join \<times> arrays" where
  "slice_mark room x success = (\<lambda>(sj, A).
     if success then
       let (c, A1) = add_once room x (sj_Completed sj, A); (f, A2) = drop_first x (sj_Failed sj, A1)
       in (sj\<lparr>sj_Completed := c, sj_Failed := f\<rparr>, A2)
     else
       let (f, A1) = add_once room x (sj_Failed sj, A); (c, A2) = drop_first x (sj_Completed sj, A1)
       in (sj\<lparr>sj_Failed := f, sj_Completed := c\<rparr>, A2))"

definition slice_UpdateJoinState :: "(nat \<Rightarrow> nat) \<Rightarrow> int \<Rightarrow> string \<Rightarrow> string \<Rightarrow> bool \<Rightarrow> bool slprog" where
  "slice_UpdateJoinState room instanceID joinStepName completedStep success =
     bnd (gets sv_joins) (\<lambda>m.
     case map_of m (joinStateKey instanceID joinStepName) of
       None \<Rightarrow> throw ErrEntityNotFound
     | Some sj \<Rightarrow>
         bnd (gets sv_arrays) (\<lambda>A.
         bnd time_now (\<lambda>now.
         let (sj1, A1) = slice_mark room completedStep success (sj, A);
             sj2 = slice_refresh now A1 sj1
         in thn (put_slice_join (joinStateKey instanceID joinStepName) sj2 A1) (ret (sj_IsReady sj2)))))"

definition slice_AddToJoinWaitFor :: "(nat \<Rightarrow> nat) \<Rightarrow> int \<Rightarrow> string \<Rightarrow> string \<Rightarrow> unit slprog" where
  "slice_AddToJoinWaitFor room instanceID joinStepName stepToAdd =
     bnd (gets sv_joins) (\<lambda>m.
     case map_of m (joinStateKey instanceID joinStepName) of
       None \<Rightarrow> stuck
     | Some sj \<Rightarrow>
         bnd (gets sv_arrays) (\<lambda>A.
         if stepToAdd \<in> set (sl_val A (sj_WaitingFor sj)) then ret ()
         else bnd time_now (\<lambda>now.
           let (w, A1) = sl_append room stepToAdd (sj_WaitingFor sj, A)
           in put_slice_join (joinStateKey instanceID joinStepName)
                (slice_refresh now A1 (sj\<lparr>sj_WaitingFor := w\<rparr>)) A1)))"

definition slice_absorb ::
  "(nat \<Rightarrow> nat) \<Rightarrow> string \<Rightarrow> workflow_step list \<Rightarrow> slice_join \<times> arrays \<Rightarrow> slice_join \<times> arrays" where
  "slice_absorb room realStep sts = (\<lambda>(sj, A).
     case find (\<lambda>st. ws_StepName st = realStep) sts of
       None \<Rightarrow> (sj, A)
     | Some st \<Rightarrow>
         if realStep \<in> set (sl_val A (sj_Completed sj)) \<or> realStep \<in> set (sl_val A (sj_Failed sj)) then (sj, A)
         else if ws_Status st = StepStatusCompleted
           then let (c, A1) = sl_append room realStep (sj_Completed sj, A) in (sj\<lparr>sj_Completed := c\<rparr>, A1)
         else if ws_Status st = StepStatusFailed \<or> ws_Status st = StepStatusRolledBack
           then let (f, A1) = sl_append room realStep (sj_Failed sj, A) in (sj\<lparr>sj_Failed := f\<rparr>, A1)
         else (sj, A))"

definition slice_ReplaceInJoinWaitFor :: "(nat \<Rightarrow> nat) \<Rightarrow> int \<Rightarrow> string \<Rightarrow> string \<Rightarrow> string \<Rightarrow> unit slprog" where
  "slice_ReplaceInJoinWaitFor room instanceID joinStepName virtualStep realStep =
     bnd (gets sv_joins) (\<lambda>m.
     case map_of m (joinStateKey instanceID joinStepName) of
       None \<Rightarrow> stuck
     | Some sj \<Rightarrow>
         bnd (gets sv_arrays) (\<lambda>A.
         bnd (gets (\<lambda>s. steps_of s instanceID)) (\<lambda>sts.
         bnd time_now (\<lambda>now.
         let (w, A1) = replace_elem room virtualStep realStep (sj_WaitingFor sj, A);
             (sj2, A2) = slice_absorb room realStep sts (sj\<lparr>sj_WaitingFor := w\<rparr>, A1)
         in put_slice_join (joinStateKey instanceID joinStepName) (slice_refresh now A2 sj2) A2))))"

section \<open>The abstraction\<close>

definition abs_join :: "arrays \<Rightarrow> slice_join \<Rightarrow> join_state" where
  "abs_join A sj = \<lparr>js_InstanceID = sj_InstanceID sj, js_JoinStepName = sj_JoinStepName sj,
     js_WaitingFor = sl_val A (sj_WaitingFor sj), js_Completed = sl_val A (sj_Completed sj),
     js_Failed = sl_val A (sj_Failed sj), js_JoinStrategy = sj_JoinStrategy sj, js_IsReady = sj_IsReady sj,
     js_CreatedAt = sj_CreatedAt sj, js_UpdatedAt = sj_UpdatedAt sj\<rparr>"

definition abs_joins :: "arrays \<Rightarrow> (string, slice_join) gomap \<Rightarrow> (string, join_state) gomap" where
  "abs_joins A m = map (\<lambda>(k, sj). (k, abs_join A sj)) m"

definition abs_store :: "slice_store \<Rightarrow> memory_store" where
  "abs_store s = (memory_store.truncate s)\<lparr>ms_joinStates := abs_joins (sv_arrays s) (sv_joins s)\<rparr>"

definition in_array :: "arrays \<Rightarrow> slice \<Rightarrow> bool" where
  "in_array A sl \<longleftrightarrow> sl_arr sl < length A \<and> sl_len sl \<le> length (A ! sl_arr sl)"

definition slices :: "slice_join \<Rightarrow> slice list" where
  "slices sj = [sj_WaitingFor sj, sj_Completed sj, sj_Failed sj]"

definition arrs :: "slice_join \<Rightarrow> nat list" where
  "arrs sj = map sl_arr (slices sj)"

text \<open>Every slice lies within its array, and no two slices share one.\<close>

definition join_ok :: "arrays \<Rightarrow> slice_join \<Rightarrow> bool" where
  "join_ok A sj \<longleftrightarrow> (\<forall>sl \<in> set (slices sj). in_array A sl) \<and> distinct (arrs sj)"

definition unshared :: "slice_store \<Rightarrow> bool" where
  "unshared s \<longleftrightarrow> distinct (map fst (sv_joins s)) \<and>
     (\<forall>(k, sj) \<in> set (sv_joins s). join_ok (sv_arrays s) sj) \<and>
     (\<forall>(k, sj) \<in> set (sv_joins s). \<forall>(k', sj') \<in> set (sv_joins s).
        k \<noteq> k' \<longrightarrow> set (arrs sj) \<inter> set (arrs sj') = {})"

section \<open>What an operation on one slice changes\<close>

text \<open>Only the array of the slice, or a new one.\<close>

definition local_to :: "slice \<times> arrays \<Rightarrow> slice \<times> arrays \<Rightarrow> bool" where
  "local_to = (\<lambda>(sl, A) (sl', A').
     length A \<le> length A' \<and> (\<forall>k < length A. k \<noteq> sl_arr sl \<longrightarrow> A' ! k = A ! k) \<and>
     (sl_arr sl' = sl_arr sl \<or> length A \<le> sl_arr sl') \<and> in_array A' sl')"

lemma first_at_SomeD: "first_at x xs = Some i \<Longrightarrow> i < length xs"
  by (induction xs arbitrary: i) (auto split: if_splits)

lemma first_at_remove: "remove1 x xs = (case first_at x xs of None \<Rightarrow> xs | Some i \<Rightarrow> take i xs @ drop (Suc i) xs)"
  by (induction xs) (auto split: option.splits)

lemma first_at_replace: "replace_first x y xs = map_option (\<lambda>i. xs[i := y]) (first_at x xs)"
  by (induction xs) (auto split: option.splits simp: option.map_comp comp_def)

lemma sl_append_val: "in_array A sl \<Longrightarrow> sl_append room x (sl, A) = (sl', A') \<Longrightarrow>
    sl_val A' sl' = sl_val A sl @ [x] \<and> local_to (sl, A) (sl', A')"
  by (auto simp: sl_append_def sl_val_def local_to_def in_array_def Let_def nth_append
      take_Suc_conv_app_nth split: if_splits)

lemma sl_set_val: "in_array A sl \<Longrightarrow> sl_set i x (sl, A) = (sl', A') \<Longrightarrow>
    sl_val A' sl' = (sl_val A sl)[i := x] \<and> local_to (sl, A) (sl', A')"
  by (auto simp: sl_set_def sl_val_def local_to_def in_array_def take_update_swap)

lemma sl_remove_val: "in_array A sl \<Longrightarrow> i < sl_len sl \<Longrightarrow> sl_remove i (sl, A) = (sl', A') \<Longrightarrow>
    sl_val A' sl' = take i (sl_val A sl) @ drop (Suc i) (sl_val A sl) \<and> local_to (sl, A) (sl', A')"
  by (auto simp: sl_remove_def sl_val_def local_to_def in_array_def Let_def min_def)
    (subgoal_tac "i = sl_len sl - 1", simp, linarith)

lemma add_once_val: "in_array A sl \<Longrightarrow> add_once room x (sl, A) = (sl', A') \<Longrightarrow>
    sl_val A' sl' = (if x \<in> set (sl_val A sl) then sl_val A sl else sl_val A sl @ [x]) \<and> local_to (sl, A) (sl', A')"
  using sl_append_val [of A sl room x sl' A'] by (auto simp: add_once_def local_to_def split: if_splits)

lemma drop_first_val:
  assumes "in_array A sl" and "drop_first x (sl, A) = (sl', A')"
  shows "sl_val A' sl' = remove1 x (sl_val A sl) \<and> local_to (sl, A) (sl', A')"
proof (cases "first_at x (sl_val A sl)")
  case None
  with assms show ?thesis by (auto simp: drop_first_def first_at_remove local_to_def)
next
  case (Some i)
  then have "i < sl_len sl" using first_at_SomeD [OF Some] by (simp add: sl_val_def)
  with Some assms sl_remove_val [OF assms(1), of i sl' A'] show ?thesis
    by (simp add: drop_first_def first_at_remove)
qed

lemma replace_elem_val:
  assumes "in_array A sl" and "replace_elem room x y (sl, A) = (sl', A')"
  shows "sl_val A' sl' = replace_or_append x y (sl_val A sl) \<and> local_to (sl, A) (sl', A')"
  using assms sl_append_val [of A sl room y sl' A'] sl_set_val [of A sl _ y sl' A']
  by (auto simp: replace_elem_def replace_or_append_def first_at_replace split: option.splits)

lemma local_frame: "local_to (sl, A) (sl', A') \<Longrightarrow> in_array A sl2 \<Longrightarrow> sl_arr sl2 \<noteq> sl_arr sl \<Longrightarrow>
    in_array A' sl2 \<and> sl_val A' sl2 = sl_val A sl2 \<and> sl_arr sl2 \<noteq> sl_arr sl'"
  by (auto simp: local_to_def in_array_def sl_val_def)

section \<open>What an operation on one join state changes\<close>

definition join_local :: "slice_join \<times> arrays \<Rightarrow> slice_join \<times> arrays \<Rightarrow> bool" where
  "join_local = (\<lambda>(sj, A) (sj', A').
     length A \<le> length A' \<and> (\<forall>k < length A. k \<notin> set (arrs sj) \<longrightarrow> A' ! k = A ! k) \<and>
     (\<forall>k \<in> set (arrs sj'). k \<in> set (arrs sj) \<or> length A \<le> k) \<and> join_ok A' sj')"

lemma join_local_refl: "join_ok A sj \<Longrightarrow> join_local (sj, A) (sj, A)"
  by (auto simp: join_local_def)

lemma join_local_trans: "join_local (sj, A) (sj1, A1) \<Longrightarrow> join_local (sj1, A1) (sj2, A2) \<Longrightarrow> join_local (sj, A) (sj2, A2)"
  unfolding join_local_def by (auto simp: not_le)

text \<open>One of the three lists changes within its own array.\<close>

lemma local_triple:
  assumes loc: "local_to (a, A) (a', A')" and ok: "in_array A b" "in_array A c"
    and "sl_arr b \<noteq> sl_arr a" "sl_arr c \<noteq> sl_arr a"
  shows "in_array A' a' \<and> in_array A' b \<and> in_array A' c \<and> sl_arr b \<noteq> sl_arr a' \<and> sl_arr c \<noteq> sl_arr a' \<and>
    sl_val A' b = sl_val A b \<and> sl_val A' c = sl_val A c"
  using local_frame [OF loc ok(1)] local_frame [OF loc ok(2)] assms by (simp add: local_to_def)

lemma local_arrays: "local_to (a, A) (a', A') \<Longrightarrow> length A \<le> length A' \<and>
    (\<forall>k < length A. k \<noteq> sl_arr a \<longrightarrow> A' ! k = A ! k) \<and> (sl_arr a' = sl_arr a \<or> length A \<le> sl_arr a')"
  by (simp add: local_to_def)

lemmas join_local_defs = join_local_def join_ok_def slices_def arrs_def

lemma join_local_WaitingFor:
  assumes "join_ok A sj" and "local_to (sj_WaitingFor sj, A) (w, A')"
  shows "join_local (sj, A) (sj\<lparr>sj_WaitingFor := w\<rparr>, A') \<and>
    abs_join A' (sj\<lparr>sj_WaitingFor := w\<rparr>) = (abs_join A sj)\<lparr>js_WaitingFor := sl_val A' w\<rparr>"
  using assms(1) local_triple [OF assms(2), of "sj_Completed sj" "sj_Failed sj"] local_arrays [OF assms(2)]
  by (auto simp: join_local_defs abs_join_def)

lemma join_local_Completed:
  assumes "join_ok A sj" and "local_to (sj_Completed sj, A) (c, A')"
  shows "join_local (sj, A) (sj\<lparr>sj_Completed := c\<rparr>, A') \<and>
    abs_join A' (sj\<lparr>sj_Completed := c\<rparr>) = (abs_join A sj)\<lparr>js_Completed := sl_val A' c\<rparr>"
  using assms(1) local_triple [OF assms(2), of "sj_WaitingFor sj" "sj_Failed sj"] local_arrays [OF assms(2)]
  by (auto simp: join_local_defs abs_join_def)

lemma join_local_Failed:
  assumes "join_ok A sj" and "local_to (sj_Failed sj, A) (f, A')"
  shows "join_local (sj, A) (sj\<lparr>sj_Failed := f\<rparr>, A') \<and>
    abs_join A' (sj\<lparr>sj_Failed := f\<rparr>) = (abs_join A sj)\<lparr>js_Failed := sl_val A' f\<rparr>"
  using assms(1) local_triple [OF assms(2), of "sj_WaitingFor sj" "sj_Completed sj"] local_arrays [OF assms(2)]
  by (auto simp: join_local_defs abs_join_def)

lemma slice_refresh_ok: "join_local x (slice_refresh now A sj, A) \<longleftrightarrow> join_local x (sj, A)"
    "abs_join A (slice_refresh now A sj) = refresh_ready now (abs_join A sj)"
  by (cases x, simp add: slice_refresh_def join_local_defs)
    (simp add: slice_refresh_def refresh_ready_def abs_join_def)

lemma join_local_fields:
  assumes "join_local x (sj, A)"
  shows "join_ok A sj" "in_array A (sj_WaitingFor sj)" "in_array A (sj_Completed sj)" "in_array A (sj_Failed sj)"
  using assms by (auto simp: join_local_def join_ok_def slices_def split: prod.splits)

lemma slice_mark_ok:
  assumes ok: "join_ok A sj" and run: "slice_mark room x b (sj, A) = (sj', A')"
  shows "join_local (sj, A) (sj', A') \<and> abs_join A' sj' = note_verdict (x, b) (abs_join A sj)"
proof (cases b)
  case True
  obtain c A1 where c: "add_once room x (sj_Completed sj, A) = (c, A1)" by fastforce
  obtain f A2 where f: "drop_first x (sj_Failed sj, A1) = (f, A2)" by fastforce
  let ?sj1 = "sj\<lparr>sj_Completed := c\<rparr>"
  note v1 = add_once_val [OF join_local_fields(3) [OF join_local_refl [OF ok]] c]
  note u1 = join_local_Completed [OF ok conjunct2 [OF v1]]
  have f': "drop_first x (sj_Failed ?sj1, A1) = (f, A2)" using f by simp
  note v2 = drop_first_val [OF join_local_fields(4) [OF conjunct1 [OF u1]] f']
  note u2 = join_local_Failed [OF join_local_fields(1) [OF conjunct1 [OF u1]] conjunct2 [OF v2]]
  have "sl_val A1 (sj_Failed ?sj1) = sl_val A (sj_Failed sj)"
    using arg_cong [OF conjunct2 [OF u1], of js_Failed] by (simp add: abs_join_def)
  with v1 v2 u1 u2 run True c f join_local_trans [OF conjunct1 [OF u1] conjunct1 [OF u2]] show ?thesis
    by (auto simp: slice_mark_def note_verdict_def mark_success_def abs_join_def)
next
  case False
  obtain f A1 where f: "add_once room x (sj_Failed sj, A) = (f, A1)" by fastforce
  obtain c A2 where c: "drop_first x (sj_Completed sj, A1) = (c, A2)" by fastforce
  let ?sj1 = "sj\<lparr>sj_Failed := f\<rparr>"
  note v1 = add_once_val [OF join_local_fields(4) [OF join_local_refl [OF ok]] f]
  note u1 = join_local_Failed [OF ok conjunct2 [OF v1]]
  have c': "drop_first x (sj_Completed ?sj1, A1) = (c, A2)" using c by simp
  note v2 = drop_first_val [OF join_local_fields(3) [OF conjunct1 [OF u1]] c']
  note u2 = join_local_Completed [OF join_local_fields(1) [OF conjunct1 [OF u1]] conjunct2 [OF v2]]
  have "sl_val A1 (sj_Completed ?sj1) = sl_val A (sj_Completed sj)"
    using arg_cong [OF conjunct2 [OF u1], of js_Completed] by (simp add: abs_join_def)
  with v1 v2 u1 u2 run False c f join_local_trans [OF conjunct1 [OF u1] conjunct1 [OF u2]] show ?thesis
    by (auto simp: slice_mark_def note_verdict_def mark_failure_def abs_join_def)
qed

lemma slice_absorb_ok:
  assumes ok: "join_ok A sj" and run: "slice_absorb room x sts (sj, A) = (sj', A')"
  shows "join_local (sj, A) (sj', A') \<and> abs_join A' sj' = absorb_status x sts (abs_join A sj)"
proof -
  note fields = join_local_fields(3,4) [OF join_local_refl [OF ok]]
  obtain c A1 where c: "sl_append room x (sj_Completed sj, A) = (c, A1)" by fastforce
  obtain f A2 where f: "sl_append room x (sj_Failed sj, A) = (f, A2)" by fastforce
  note vc = sl_append_val [OF fields(1) c]
  note vf = sl_append_val [OF fields(2) f]
  show ?thesis
    using run c f vc vf join_local_Completed [OF ok conjunct2 [OF vc]] join_local_Failed [OF ok conjunct2 [OF vf]]
      join_local_refl [OF ok]
    by (auto simp: slice_absorb_def absorb_status_def abs_join_def split: option.splits if_splits)
qed

section \<open>Refinement of programs\<close>

text \<open>From a state with \<open>I\<close>, the concrete program returns what the abstract one returns on the abstraction, and keeps \<open>I\<close>.\<close>

definition refines :: "('s \<Rightarrow> bool) \<Rightarrow> ('s \<Rightarrow> 't) \<Rightarrow> ('s, 'a) prog \<Rightarrow> ('t, 'a) prog \<Rightarrow> bool" where
  "refines I view m n \<longleftrightarrow> (\<forall>s. I s \<longrightarrow> I (snd (m s)) \<and> n (view s) = (fst (m s), view (snd (m s))))"

lemma refinesI: "(\<And>s r t. I s \<Longrightarrow> m s = (r, t) \<Longrightarrow> I t \<and> n (view s) = (r, view t)) \<Longrightarrow> refines I view m n"
  unfolding refines_def by (metis prod.collapse)

lemma refinesD: "refines I view m n \<Longrightarrow> I s \<Longrightarrow> m s = (r, t) \<Longrightarrow> I t \<and> n (view s) = (r, view t)"
  unfolding refines_def by (metis fst_conv snd_conv)

lemma refines_ret: "refines I view (ret x) (ret x)"
  by (simp add: refines_def ret_def)

lemma refines_bnd:
  assumes "refines I view m n" and "\<And>x. refines I view (f x) (g x)"
  shows "refines I view (bnd m f) (bnd n g)"
proof (rule refinesI)
  fix s r t
  assume I: "I s" and run: "bnd m f s = (r, t)"
  obtain r1 s1 where 1: "m s = (r1, s1)" by fastforce
  with refinesD [OF assms(1) I] have "I s1" "n (view s) = (r1, view s1)" by auto
  with run 1 refinesD [OF assms(2)] show "I t \<and> bnd n g (view s) = (r, view t)"
    by (cases r1) (auto simp: bnd_def)
qed

lemma refines_thn: "refines I view m n \<Longrightarrow> refines I view m' n' \<Longrightarrow> refines I view (thn m m') (thn n n')"
  unfolding thn_def by (rule refines_bnd)

lemma refines_attempt: "refines I view m n \<Longrightarrow> refines I view (attempt m) (attempt n)"
  by (auto simp: refines_def attempt_def split: prod.splits outcome.splits)

lemmas refines_rules = refines_ret refines_bnd refines_thn refines_attempt

section \<open>Sequences of calls\<close>

datatype join_call =
    CallCreate int string "string list" join_strategy
  | CallUpdate int string string bool
  | CallAdd int string string
  | CallReplace int string string string

record 's join_ops =
  op_create :: "int \<Rightarrow> string \<Rightarrow> string list \<Rightarrow> join_strategy \<Rightarrow> ('s, unit) prog"
  op_update :: "int \<Rightarrow> string \<Rightarrow> string \<Rightarrow> bool \<Rightarrow> ('s, bool) prog"
  op_add :: "int \<Rightarrow> string \<Rightarrow> string \<Rightarrow> ('s, unit) prog"
  op_replace :: "int \<Rightarrow> string \<Rightarrow> string \<Rightarrow> string \<Rightarrow> ('s, unit) prog"

text \<open>The boolean is what \<open>UpdateJoinState\<close> returns.\<close>

fun call_join :: "'s join_ops \<Rightarrow> join_call \<Rightarrow> ('s, bool) prog" where
  "call_join ops (CallCreate i j ws strategy) = thn (op_create ops i j ws strategy) (ret False)"
| "call_join ops (CallUpdate i j n success) = op_update ops i j n success"
| "call_join ops (CallAdd i j n) = thn (op_add ops i j n) (ret False)"
| "call_join ops (CallReplace i j v n) = thn (op_replace ops i j v n) (ret False)"

text \<open>Every call is made, and its error or result noted, until one panics or blocks.\<close>

fun call_joins :: "'s join_ops \<Rightarrow> join_call list \<Rightarrow> ('s, (goerror + bool) list) prog" where
  "call_joins ops [] = ret []"
| "call_joins ops (c # cs) =
     bnd (attempt (call_join ops c)) (\<lambda>r. bnd (call_joins ops cs) (\<lambda>rs. ret (r # rs)))"

text \<open>The contract: an implementation of the four operations and what it stands for.\<close>

locale join_implementation =
  fixes conc :: "'s join_ops" and spec :: "'t join_ops" and I :: "'s \<Rightarrow> bool" and view :: "'s \<Rightarrow> 't"
  assumes create: "refines I view (op_create conc i j ws strategy) (op_create spec i j ws strategy)"
    and update: "refines I view (op_update conc i j n success) (op_update spec i j n success)"
    and add: "refines I view (op_add conc i j n) (op_add spec i j n)"
    and replace: "refines I view (op_replace conc i j v n) (op_replace spec i j v n)"
begin

lemma one_call: "refines I view (call_join conc c) (call_join spec c)"
  by (cases c) (auto intro!: refines_rules create update add replace)

lemma all_calls: "refines I view (call_joins conc cs) (call_joins spec cs)"
  by (induction cs) (auto intro!: refines_rules one_call)

end

section \<open>The slices implement the lists\<close>

lemma map_of_abs_joins: "map_of (abs_joins A m) k = map_option (abs_join A) (map_of m k)"
  by (simp add: abs_joins_def map_of_map)

lemma has_key_abs_joins: "has_key (abs_joins A m) k \<longleftrightarrow> has_key m k"
  by (simp add: has_key_def map_of_abs_joins)

lemma abs_joins_update:
  "distinct (map fst m) \<Longrightarrow> (\<And>k' sj'. (k', sj') \<in> set m \<Longrightarrow> k' \<noteq> k \<Longrightarrow> abs_join A' sj' = abs_join A sj') \<Longrightarrow>
   abs_joins A' (AList.update k sj m) = AList.update k (abs_join A' sj) (abs_joins A m)"
proof (induction m)
  case (Cons p m)
  obtain k1 sj1 where p: "p = (k1, sj1)" by fastforce
  show ?case
  proof (cases "k1 = k")
    case True
    then have "\<And>k' sj'. (k', sj') \<in> set m \<Longrightarrow> k' \<noteq> k" using Cons.prems(1) p by force
    then have "abs_joins A' m = abs_joins A m" using Cons.prems(2) by (auto simp: abs_joins_def)
    with True p show ?thesis by (simp add: abs_joins_def)
  next
    case False
    with Cons p show ?thesis by (auto simp: abs_joins_def)
  qed
qed (simp add: abs_joins_def)

lemma join_local_other:
  assumes loc: "join_local (sj, A) (sj', A')" and ok: "join_ok A sj2" and sep: "set (arrs sj) \<inter> set (arrs sj2) = {}"
  shows "join_ok A' sj2 \<and> abs_join A' sj2 = abs_join A sj2 \<and> set (arrs sj') \<inter> set (arrs sj2) = {}"
proof -
  have same: "A' ! sl_arr sl = A ! sl_arr sl \<and> sl_arr sl < length A'" if "sl \<in> set (slices sj2)" for sl
  proof -
    have "sl_arr sl \<notin> set (arrs sj)" using that sep by (auto simp: arrs_def)
    moreover have "sl_arr sl < length A" using that ok by (auto simp: join_ok_def in_array_def)
    ultimately show ?thesis using loc by (auto simp: join_local_def)
  qed
  have "abs_join A' sj2 = abs_join A sj2" "join_ok A' sj2"
    using same ok by (auto simp: abs_join_def sl_val_def slices_def join_ok_def in_array_def)
  moreover have "k \<notin> set (arrs sj2)" if "k \<in> set (arrs sj')" for k
    using that loc ok sep by (fastforce simp: join_local_def join_ok_def in_array_def arrs_def)
  ultimately show ?thesis by blast
qed

definition with_join :: "string \<Rightarrow> slice_join \<Rightarrow> arrays \<Rightarrow> slice_store \<Rightarrow> slice_store" where
  "with_join key sj A s = s\<lparr>sv_joins := AList.update key sj (sv_joins s), sv_arrays := A\<rparr>"

lemma abs_store_simps [simp]:
  "ms_joinStates (abs_store s) = abs_joins (sv_arrays s) (sv_joins s)"
  "ms_clock (abs_store s) = ms_clock s"
  "steps_of (abs_store s) i = steps_of s i"
  "abs_store (s\<lparr>ms_clock := c\<rparr>) = (abs_store s)\<lparr>ms_clock := c\<rparr>"
  by (simp_all add: abs_store_def memory_store.truncate_def steps_of_def)

lemma unshared_clock [simp]: "unshared (s\<lparr>ms_clock := c\<rparr>) \<longleftrightarrow> unshared s"
  by (simp add: unshared_def)

lemma unshared_with_join:
  assumes un: "unshared s" and sj: "map_of (sv_joins s) key = Some sj"
    and loc: "join_local (sj, sv_arrays s) (sj', A')"
  shows "unshared (with_join key sj' A' s)"
    and "abs_store (with_join key sj' A' s) =
      (abs_store s)\<lparr>ms_joinStates := AList.update key (abs_join A' sj') (ms_joinStates (abs_store s))\<rparr>"
proof -
  have mem: "(key, sj) \<in> set (sv_joins s)" using sj by (rule map_of_SomeD)
  have other: "join_ok A' sj2 \<and> abs_join A' sj2 = abs_join (sv_arrays s) sj2 \<and> set (arrs sj') \<inter> set (arrs sj2) = {}"
    if "(k, sj2) \<in> set (sv_joins s)" "k \<noteq> key" for k sj2
    using that un mem by (intro join_local_other [OF loc]) (fastforce simp: unshared_def)+
  have d: "distinct (map fst (sv_joins s))" using un by (simp add: unshared_def)
  have ok': "join_ok A' sj'" using loc by (simp add: join_local_def)
  have upd: "(k, x) \<in> set (AList.update key sj' (sv_joins s)) \<longleftrightarrow>
      (if k = key then x = sj' else (k, x) \<in> set (sv_joins s))" for k x
    using map_of_eq_Some_iff [OF distinct_update [OF d]] map_of_eq_Some_iff [OF d] by (metis map_of_update option.inject)
  have "set (arrs a) \<inter> set (arrs b) = {}"
    if "(k, a) \<in> set (sv_joins s)" "(k', b) \<in> set (sv_joins s)" "k \<noteq> k'" for k a k' b
    using that un by (fastforce simp: unshared_def)
  with upd other ok' distinct_update [OF d] show "unshared (with_join key sj' A' s)"
    by (auto simp: unshared_def with_join_def split: if_splits) blast+
  show "abs_store (with_join key sj' A' s) =
      (abs_store s)\<lparr>ms_joinStates := AList.update key (abs_join A' sj') (ms_joinStates (abs_store s))\<rparr>"
    using abs_joins_update [OF d, of key A' "sv_arrays s" sj'] other
    by (simp add: abs_store_def with_join_def memory_store.truncate_def)
qed

lemma join_ok_more_arrays: "join_ok A sj \<Longrightarrow> join_ok (A @ X) sj \<and> abs_join (A @ X) sj = abs_join A sj"
  by (auto simp: join_ok_def in_array_def slices_def abs_join_def sl_val_def nth_append)

lemma unshared_more_arrays:
  assumes "unshared s"
  shows "unshared (s\<lparr>sv_arrays := sv_arrays s @ X\<rparr>)" and "abs_store (s\<lparr>sv_arrays := sv_arrays s @ X\<rparr>) = abs_store s"
proof -
  have ok: "join_ok (sv_arrays s) sj" if "(k, sj) \<in> set (sv_joins s)" for k sj
    using that assms by (auto simp: unshared_def)
  show "unshared (s\<lparr>sv_arrays := sv_arrays s @ X\<rparr>)"
    using assms join_ok_more_arrays [of "sv_arrays s"] by (auto simp: unshared_def)
  have "abs_joins (sv_arrays s @ X) (sv_joins s) = abs_joins (sv_arrays s) (sv_joins s)"
    using ok join_ok_more_arrays by (auto simp: abs_joins_def)
  then show "abs_store (s\<lparr>sv_arrays := sv_arrays s @ X\<rparr>) = abs_store s"
    by (simp add: abs_store_def memory_store.truncate_def)
qed

lemma update_new_key: "k \<notin> fst ` set m \<Longrightarrow> AList.update k v m = m @ [(k, v)]"
  by (induction m) auto

lemma unshared_new_join:
  assumes un: "unshared s" and new: "\<not> has_key (sv_joins s) key" and ok: "join_ok (sv_arrays s) sj"
    and sep: "\<And>k sj2. (k, sj2) \<in> set (sv_joins s) \<Longrightarrow> set (arrs sj) \<inter> set (arrs sj2) = {}"
  shows "unshared (with_join key sj (sv_arrays s) s)"
    and "abs_store (with_join key sj (sv_arrays s) s) =
      (abs_store s)\<lparr>ms_joinStates := AList.update key (abs_join (sv_arrays s) sj) (ms_joinStates (abs_store s))\<rparr>"
proof -
  have k: "key \<notin> fst ` set (sv_joins s)" using new by (simp add: has_key_def map_of_eq_None_iff)
  then have u: "AList.update key sj (sv_joins s) = sv_joins s @ [(key, sj)]" by (simp add: update_new_key)
  have "key \<notin> fst ` set (abs_joins (sv_arrays s) (sv_joins s))" using k by (force simp: abs_joins_def)
  then have "AList.update key x (abs_joins (sv_arrays s) (sv_joins s)) = abs_joins (sv_arrays s) (sv_joins s) @ [(key, x)]" for x
    by (simp add: update_new_key)
  with u show "abs_store (with_join key sj (sv_arrays s) s) =
      (abs_store s)\<lparr>ms_joinStates := AList.update key (abs_join (sv_arrays s) sj) (ms_joinStates (abs_store s))\<rparr>"
    by (simp add: abs_store_def with_join_def memory_store.truncate_def abs_joins_def)
  show "unshared (with_join key sj (sv_arrays s) s)"
    using un ok sep u k by (auto simp: unshared_def with_join_def) blast+
qed

text \<open>What \<open>CreateJoinState\<close> stores is unshared when the caller's slice is the caller's alone.\<close>

definition private_slice :: "slice_store \<Rightarrow> slice \<Rightarrow> bool" where
  "private_slice s sl \<longleftrightarrow> in_array (sv_arrays s) sl \<and>
     (\<forall>(k, sj) \<in> set (sv_joins s). sl_arr sl \<notin> set (arrs sj))"

definition new_slice_join :: "int \<Rightarrow> string \<Rightarrow> slice \<Rightarrow> join_strategy \<Rightarrow> slice_store \<Rightarrow> slice_join" where
  "new_slice_join i j sl strategy s = \<lparr>sj_InstanceID = i, sj_JoinStepName = j, sj_WaitingFor = sl,
     sj_Completed = \<lparr>sl_arr = length (sv_arrays s), sl_len = 0\<rparr>,
     sj_Failed = \<lparr>sl_arr = Suc (length (sv_arrays s)), sl_len = 0\<rparr>,
     sj_JoinStrategy = (if strategy = JoinStrategyOther [] then JoinStrategyAll else strategy),
     sj_IsReady = False, sj_CreatedAt = ms_clock s, sj_UpdatedAt = ms_clock s\<rparr>"

lemma slice_CreateJoinState_new:
  "\<not> has_key (sv_joins s) (joinStateKey i j) \<Longrightarrow> slice_CreateJoinState i j sl strategy s =
    (Ok (), with_join (joinStateKey i j) (new_slice_join i j sl strategy s) (sv_arrays s @ [[], []])
      (s\<lparr>ms_clock := ms_clock s + 1\<rparr>))"
  by (simp add: slice_CreateJoinState_def run_simps time_now_def slice_literal_def sl_literal_def
      put_slice_join_def with_join_def new_slice_join_def Let_def)

lemma slice_CreateJoinState_refines:
  assumes un: "unshared s" and sl: "private_slice s sl"
    and run: "slice_CreateJoinState i j sl strategy s = (r, t)"
  shows "unshared t \<and> CreateJoinState i j (sl_val (sv_arrays s) sl) strategy (abs_store s) = (r, abs_store t)"
proof (cases "has_key (sv_joins s) (joinStateKey i j)")
  case True
  with un run show ?thesis
    by (auto simp: slice_CreateJoinState_def CreateJoinState_def run_simps has_key_abs_joins)
next
  case False
  define A where "A = sv_arrays s @ [[], []]"
  define s1 where "s1 = (s\<lparr>ms_clock := ms_clock s + 1\<rparr>)\<lparr>sv_arrays := A\<rparr>"
  define sj where "sj = new_slice_join i j sl strategy s"
  have t: "r = Ok ()" "t = with_join (joinStateKey i j) sj (sv_arrays s1) s1"
    using run slice_CreateJoinState_new [OF False, of sl strategy] by (auto simp: with_join_def s1_def sj_def A_def)
  have un1: "unshared s1" "abs_store s1 = (abs_store s)\<lparr>ms_clock := ms_clock s + 1\<rparr>"
    using unshared_more_arrays [of "s\<lparr>ms_clock := ms_clock s + 1\<rparr>" "[[], []]"] un by (auto simp: s1_def A_def)
  have key: "\<not> has_key (sv_joins s1) (joinStateKey i j)" using False by (simp add: s1_def)
  have ok: "join_ok (sv_arrays s1) sj"
    using sl by (auto simp: s1_def A_def sj_def new_slice_join_def private_slice_def join_ok_def slices_def arrs_def in_array_def nth_append)
  have sep: "set (arrs sj) \<inter> set (arrs sj2) = {}" if "(k, sj2) \<in> set (sv_joins s1)" for k sj2
  proof -
    have "join_ok (sv_arrays s) sj2" "sl_arr sl \<notin> set (arrs sj2)"
      using that un sl by (auto simp: s1_def unshared_def private_slice_def)
    then show ?thesis by (auto simp: sj_def new_slice_join_def arrs_def slices_def join_ok_def in_array_def)
  qed
  have "abs_join (sv_arrays s1) sj = \<lparr>js_InstanceID = i, js_JoinStepName = j, js_WaitingFor = sl_val (sv_arrays s) sl,
     js_Completed = [], js_Failed = [], js_JoinStrategy = sj_JoinStrategy sj, js_IsReady = False,
     js_CreatedAt = ms_clock s, js_UpdatedAt = ms_clock s\<rparr>"
    using sl by (auto simp: abs_join_def sj_def new_slice_join_def s1_def A_def sl_val_def private_slice_def in_array_def nth_append)
  with unshared_new_join [OF un1(1) key ok sep] t un1(2) False show ?thesis
    by (simp add: CreateJoinState_def run_simps has_key_abs_joins time_now_def put_join_def Let_def sj_def new_slice_join_def)
qed

definition create_literal :: "int \<Rightarrow> string \<Rightarrow> string list \<Rightarrow> join_strategy \<Rightarrow> unit slprog" where
  "create_literal i j ws strategy = bnd (slice_literal ws) (\<lambda>sl. slice_CreateJoinState i j sl strategy)"

lemma create_literal_refines: "refines unshared abs_store (create_literal i j ws strategy) (CreateJoinState i j ws strategy)"
proof (rule refinesI)
  fix s r t
  assume un: "unshared s" and run: "create_literal i j ws strategy s = (r, t)"
  let ?s1 = "s\<lparr>sv_arrays := sv_arrays s @ [ws]\<rparr>" and ?sl = "\<lparr>sl_arr = length (sv_arrays s), sl_len = length ws\<rparr>"
  have "private_slice ?s1 ?sl"
    using un by (fastforce simp: private_slice_def in_array_def unshared_def join_ok_def arrs_def)
  moreover have "slice_CreateJoinState i j ?sl strategy ?s1 = (r, t)"
    using run by (simp add: create_literal_def run_simps slice_literal_def sl_literal_def)
  ultimately show "unshared t \<and> CreateJoinState i j ws strategy (abs_store s) = (r, abs_store t)"
    using slice_CreateJoinState_refines [OF unshared_more_arrays(1) [OF un]] unshared_more_arrays(2) [OF un, of "[ws]"]
    by (fastforce simp: sl_val_def)
qed

lemma unshared_join_ok: "unshared s \<Longrightarrow> map_of (sv_joins s) key = Some sj \<Longrightarrow> join_ok (sv_arrays s) sj"
  by (auto simp: unshared_def dest: map_of_SomeD)

text \<open>The three operations on an existing join state end in the same way.\<close>

lemma stored_join_refines:
  assumes "unshared s" and "map_of (sv_joins s) key = Some sj" and "join_local (sj, sv_arrays s) (sj', A')"
    and "abs_join A' sj' = js'"
  defines "t \<equiv> with_join key (slice_refresh (ms_clock s) A' sj') A' (s\<lparr>ms_clock := ms_clock s + 1\<rparr>)"
  shows "unshared t" and "abs_store t =
    (abs_store s)\<lparr>ms_clock := ms_clock s + 1,
      ms_joinStates := AList.update key (refresh_ready (ms_clock s) js') (ms_joinStates (abs_store s))\<rparr>"
  using unshared_with_join [of "s\<lparr>ms_clock := ms_clock s + 1\<rparr>" key sj "slice_refresh (ms_clock s) A' sj'" A'] assms
  by (simp_all add: slice_refresh_ok)

lemmas slice_op_run = run_simps time_now_def put_slice_join_def put_join_def Let_def map_of_abs_joins
  with_join_def [symmetric]

lemma slice_UpdateJoinState_refines:
  "refines unshared abs_store (slice_UpdateJoinState room i j n success) (UpdateJoinState i j n success)"
proof (rule refinesI)
  fix s r t
  assume un: "unshared s" and run: "slice_UpdateJoinState room i j n success s = (r, t)"
  show "unshared t \<and> UpdateJoinState i j n success (abs_store s) = (r, abs_store t)"
  proof (cases "map_of (sv_joins s) (joinStateKey i j)")
    case None
    with un run show ?thesis
      by (auto simp: slice_UpdateJoinState_def UpdateJoinState_def slice_op_run)
  next
    case (Some sj)
    obtain sj' A' where m: "slice_mark room n success (sj, sv_arrays s) = (sj', A')" by fastforce
    note mk = slice_mark_ok [OF unshared_join_ok [OF un Some] m]
    note st = stored_join_refines [OF un Some conjunct1 [OF mk] conjunct2 [OF mk]]
    have "sj_IsReady (slice_refresh now A' sj') = js_IsReady (refresh_ready now (abs_join A' sj'))" for now
      by (simp add: slice_refresh_def refresh_ready_def abs_join_def)
    with Some run m mk st show ?thesis
      by (auto simp: slice_UpdateJoinState_def UpdateJoinState_def slice_op_run note_verdict_def)
  qed
qed

lemma slice_AddToJoinWaitFor_refines:
  "refines unshared abs_store (slice_AddToJoinWaitFor room i j n) (AddToJoinWaitFor i j n)"
proof (rule refinesI)
  fix s r t
  assume un: "unshared s" and run: "slice_AddToJoinWaitFor room i j n s = (r, t)"
  show "unshared t \<and> AddToJoinWaitFor i j n (abs_store s) = (r, abs_store t)"
  proof (cases "map_of (sv_joins s) (joinStateKey i j)")
    case None
    with un run show ?thesis
      by (auto simp: slice_AddToJoinWaitFor_def AddToJoinWaitFor_def slice_op_run)
  next
    case (Some sj)
    note ok = unshared_join_ok [OF un Some]
    obtain w A' where m: "sl_append room n (sj_WaitingFor sj, sv_arrays s) = (w, A')" by fastforce
    note v = sl_append_val [OF join_local_fields(2) [OF join_local_refl [OF ok]] m]
    note mk = join_local_WaitingFor [OF ok conjunct2 [OF v]]
    note st = stored_join_refines [OF un Some conjunct1 [OF mk] conjunct2 [OF mk]]
    have "js_WaitingFor (abs_join (sv_arrays s) sj) = sl_val (sv_arrays s) (sj_WaitingFor sj)"
      by (simp add: abs_join_def)
    with Some un run m v st show ?thesis
      by (auto simp: slice_AddToJoinWaitFor_def AddToJoinWaitFor_def slice_op_run split: if_splits)
  qed
qed

lemma slice_ReplaceInJoinWaitFor_refines:
  "refines unshared abs_store (slice_ReplaceInJoinWaitFor room i j v n) (ReplaceInJoinWaitFor i j v n)"
proof (rule refinesI)
  fix s r t
  assume un: "unshared s" and run: "slice_ReplaceInJoinWaitFor room i j v n s = (r, t)"
  show "unshared t \<and> ReplaceInJoinWaitFor i j v n (abs_store s) = (r, abs_store t)"
  proof (cases "map_of (sv_joins s) (joinStateKey i j)")
    case None
    with un run show ?thesis
      by (auto simp: slice_ReplaceInJoinWaitFor_def ReplaceInJoinWaitFor_def slice_op_run)
  next
    case (Some sj)
    note ok = unshared_join_ok [OF un Some]
    obtain w A1 where m: "replace_elem room v n (sj_WaitingFor sj, sv_arrays s) = (w, A1)" by fastforce
    note vw = replace_elem_val [OF join_local_fields(2) [OF join_local_refl [OF ok]] m]
    note u1 = join_local_WaitingFor [OF ok conjunct2 [OF vw]]
    obtain sj' A' where a: "slice_absorb room n (steps_of s i) (sj\<lparr>sj_WaitingFor := w\<rparr>, A1) = (sj', A')" by fastforce
    note u2 = slice_absorb_ok [OF join_local_fields(1) [OF conjunct1 [OF u1]] a]
    note st = stored_join_refines [OF un Some join_local_trans [OF conjunct1 [OF u1] conjunct1 [OF u2]] conjunct2 [OF u2]]
    have "js_WaitingFor (abs_join (sv_arrays s) sj) = sl_val (sv_arrays s) (sj_WaitingFor sj)"
      by (simp add: abs_join_def)
    with Some run m a vw u1 st show ?thesis
      by (auto simp: slice_ReplaceInJoinWaitFor_def ReplaceInJoinWaitFor_def slice_op_run)
  qed
qed

definition value_joins :: "memory_store join_ops" where
  "value_joins = \<lparr>op_create = CreateJoinState, op_update = UpdateJoinState, op_add = AddToJoinWaitFor,
     op_replace = ReplaceInJoinWaitFor\<rparr>"

definition slice_joins :: "(nat \<Rightarrow> nat) \<Rightarrow> slice_store join_ops" where
  "slice_joins room = \<lparr>op_create = create_literal, op_update = slice_UpdateJoinState room,
     op_add = slice_AddToJoinWaitFor room, op_replace = slice_ReplaceInJoinWaitFor room\<rparr>"

interpretation by_slices: join_implementation "slice_joins room" value_joins unshared abs_store for room
  by unfold_locales
    (simp_all add: slice_joins_def value_joins_def create_literal_refines slice_UpdateJoinState_refines
      slice_AddToJoinWaitFor_refines slice_ReplaceInJoinWaitFor_refines)

text \<open>
  C11: Whatever spare capacity the runtime gives to grown arrays, any sequence of the four join state
  operations, on wait lists that the caller does not share, returns on the slices of the code the errors
  and results it returns on plain lists, and leaves the join states with the same lists.
\<close>

theorem slices_refine_lists:
  assumes "unshared s" and "call_joins (slice_joins room) cs s = (r, t)"
  shows "call_joins value_joins cs (abs_store s) = (r, abs_store t) \<and> unshared t"
  using refinesD [OF by_slices.all_calls assms] by blast

definition empty_slice_store :: slice_store where
  "empty_slice_store = memory_store.extend (NewMemoryStore 0 (\<lambda>n. show_nat n))
     \<lparr>sv_arrays = [], sv_joins = []\<rparr>"

lemma empty_slice_store_unshared: "unshared empty_slice_store"
  by (simp add: unshared_def empty_slice_store_def memory_store.extend_def)

theorem slices_refine_lists_witness:
  "let cs = [CallCreate 1 ''join'' [''a'', ''b''] JoinStrategyAll, CallAdd 1 ''join'' ''c'',
             CallUpdate 1 ''join'' ''a'' True, CallReplace 1 ''join'' ''b'' ''d'',
             CallUpdate 1 ''join'' ''d'' False, CallUpdate 1 ''join'' ''c'' True, CallUpdate 2 ''join'' ''a'' True];
       (r, t) = call_joins (slice_joins (\<lambda>n. n)) cs empty_slice_store
   in unshared empty_slice_store \<and> call_joins value_joins cs (abs_store empty_slice_store) = (r, abs_store t) \<and>
      r = Ok [Inr False, Inr False, Inr False, Inr False, Inr False, Inr True, Inl ErrEntityNotFound]"
proof -
  let ?cs = "[CallCreate 1 ''join'' [''a'', ''b''] JoinStrategyAll, CallAdd 1 ''join'' ''c'',
             CallUpdate 1 ''join'' ''a'' True, CallReplace 1 ''join'' ''b'' ''d'',
             CallUpdate 1 ''join'' ''d'' False, CallUpdate 1 ''join'' ''c'' True, CallUpdate 2 ''join'' ''a'' True]"
  obtain r t where run: "call_joins (slice_joins (\<lambda>n. n)) ?cs empty_slice_store = (r, t)" by fastforce
  have "fst (call_joins (slice_joins (\<lambda>n. n)) ?cs empty_slice_store) =
      Ok [Inr False, Inr False, Inr False, Inr False, Inr False, Inr True, Inl ErrEntityNotFound]"
    by code_simp
  with run slices_refine_lists [OF empty_slice_store_unshared run] show ?thesis
    by (simp add: empty_slice_store_unshared)
qed

section \<open>Shared wait lists\<close>

definition waiting :: "slice_store \<Rightarrow> int \<Rightarrow> string \<Rightarrow> string list option" where
  "waiting s i j = map_option (\<lambda>sj. sl_val (sv_arrays s) (sj_WaitingFor sj)) (map_of (sv_joins s) (joinStateKey i j))"

text \<open>Two instances reach the same join of their workflow: \<open>executeFork\<close> passes both the definition's slice.\<close>

definition two_instances :: "int \<Rightarrow> int \<Rightarrow> string \<Rightarrow> slice \<Rightarrow> join_strategy \<Rightarrow> unit slprog" where
  "two_instances i k j sl strategy =
     thn (slice_CreateJoinState i j sl strategy) (slice_CreateJoinState k j sl strategy)"

lemma two_instances_run:
  assumes "i \<noteq> k" and "waiting s i j = None" and "waiting s k j = None" and "in_array (sv_arrays s) sl"
  obtains t a b where "two_instances i k j sl strategy s = (Ok (), t)"
    and "map_of (sv_joins t) (joinStateKey i j) = Some a" and "map_of (sv_joins t) (joinStateKey k j) = Some b"
    and "sj_WaitingFor a = sl" and "sj_WaitingFor b = sl" and "sv_arrays t = sv_arrays s @ [[], [], [], []]"
    and "join_ok (sv_arrays t) a"
proof -
  let ?t1 = "with_join (joinStateKey i j) (new_slice_join i j sl strategy s) (sv_arrays s @ [[], []]) (s\<lparr>ms_clock := ms_clock s + 1\<rparr>)"
  have 1: "slice_CreateJoinState i j sl strategy s = (Ok (), ?t1)"
    using assms(2) by (intro slice_CreateJoinState_new) (simp add: waiting_def has_key_def)
  have 2: "\<not> has_key (sv_joins ?t1) (joinStateKey k j)"
    using assms(1,3) by (simp add: has_key_def joinStateKey_inj with_join_def waiting_def)
  show ?thesis
    by (rule that)
      (use 1 slice_CreateJoinState_new [OF 2, of sl strategy] assms(1,4) in
        \<open>auto simp: two_instances_def run_simps with_join_def joinStateKey_inj new_slice_join_def
          join_ok_def slices_def arrs_def in_array_def nth_append\<close>)
qed

text \<open>An append and a replacement that stay within the array write to it in place.\<close>

lemma add_in_place:
  assumes "map_of (sv_joins s) (joinStateKey i j) = Some a" and "x \<notin> set (sl_val (sv_arrays s) (sj_WaitingFor a))"
    and "sl_len (sj_WaitingFor a) < length (sv_arrays s ! sl_arr (sj_WaitingFor a))"
  obtains a' where "slice_AddToJoinWaitFor room i j x s =
      (Ok (), with_join (joinStateKey i j) a'
        ((sv_arrays s)[sl_arr (sj_WaitingFor a) := (sv_arrays s ! sl_arr (sj_WaitingFor a))[sl_len (sj_WaitingFor a) := x]])
        (s\<lparr>ms_clock := ms_clock s + 1\<rparr>))"
    and "sj_WaitingFor a' = (sj_WaitingFor a)\<lparr>sl_len := Suc (sl_len (sj_WaitingFor a))\<rparr>"
  by (rule that, use assms in \<open>simp add: slice_AddToJoinWaitFor_def slice_op_run sl_append_def slice_refresh_def\<close>) simp

lemma first_at_mem: "x \<in> set xs \<Longrightarrow> \<exists>i. first_at x xs = Some i"
  by (induction xs) auto

lemma absorb_WaitingFor:
  "slice_absorb room n sts (a\<lparr>sj_WaitingFor := w\<rparr>, A) = (a', A') \<Longrightarrow> w = sl \<Longrightarrow> sj_WaitingFor a' = sl"
  by (auto simp: slice_absorb_def split: option.splits if_splits prod.splits)

definition shared_demo :: slice_store where
  "shared_demo = empty_slice_store\<lparr>sv_arrays := [[''a'', ''cond#v'', []]]\<rparr>"

lemma shared_demo_facts:
  "waiting shared_demo i j = None" "in_array (sv_arrays shared_demo) \<lparr>sl_arr = 0, sl_len = 2\<rparr>"
  "sl_val (sv_arrays shared_demo) \<lparr>sl_arr = 0, sl_len = 2\<rparr> = [''a'', ''cond#v'']"
  "sl_len \<lparr>sl_arr = 0, sl_len = 2\<rparr> < length (sv_arrays shared_demo ! sl_arr \<lparr>sl_arr = 0, sl_len = 2\<rparr>)"
  by (simp_all add: shared_demo_def empty_slice_store_def memory_store.extend_def waiting_def in_array_def sl_val_def)

text \<open>
  Two instances of one definition share the wait list of a join.  Replacing a step that the first
  waits for replaces it for the second too, and in the definition.
\<close>

theorem shared_wait_list_replaced:
  assumes "i \<noteq> k" and "waiting s i j = None" and "waiting s k j = None"
    and "in_array (sv_arrays s) sl" and "v \<in> set (sl_val (sv_arrays s) sl)"
    and "thn (two_instances i k j sl strategy) (slice_ReplaceInJoinWaitFor room i j v n) s = (r, t)"
  shows "waiting t i j = Some (replace_or_append v n (sl_val (sv_arrays s) sl)) \<and>
    waiting t k j = waiting t i j \<and> sl_val (sv_arrays t) sl = replace_or_append v n (sl_val (sv_arrays s) sl)"
proof -
  obtain u a b where u: "two_instances i k j sl strategy s = (Ok (), u)"
    "map_of (sv_joins u) (joinStateKey i j) = Some a" "map_of (sv_joins u) (joinStateKey k j) = Some b"
    "sj_WaitingFor a = sl" "sj_WaitingFor b = sl" "sv_arrays u = sv_arrays s @ [[], [], [], []]"
    "join_ok (sv_arrays u) a"
    by (rule two_instances_run [OF assms(1-4)])
  have val: "sl_val (sv_arrays u) sl = sl_val (sv_arrays s) sl"
    using assms(4) u(6) by (simp add: in_array_def sl_val_def nth_append)
  obtain w A1 where m: "replace_elem room v n (sj_WaitingFor a, sv_arrays u) = (w, A1)" by fastforce
  note vw = replace_elem_val [OF join_local_fields(2) [OF join_local_refl [OF u(7)]] m]
  note u1 = join_local_WaitingFor [OF u(7) conjunct2 [OF vw]]
  have w: "w = sl" using m u(4) val first_at_mem [OF assms(5)] by (auto simp: replace_elem_def sl_set_def)
  obtain a' A' where ab: "slice_absorb room n (steps_of u i) (a\<lparr>sj_WaitingFor := w\<rparr>, A1) = (a', A')" by fastforce
  note u2 = slice_absorb_ok [OF join_local_fields(1) [OF conjunct1 [OF u1]] ab]
  have a': "sj_WaitingFor a' = sl" using ab w by (rule absorb_WaitingFor)
  have "js_WaitingFor (abs_join A' a') = js_WaitingFor (abs_join A1 (a\<lparr>sj_WaitingFor := w\<rparr>))"
    using u2 by (auto simp: absorb_status_def split: option.splits)
  then have fin: "sl_val A' sl = replace_or_append v n (sl_val (sv_arrays s) sl)"
    using a' w vw u(4) val by (simp add: abs_join_def)
  have "t = with_join (joinStateKey i j) (slice_refresh (ms_clock u) A' a') A' (u\<lparr>ms_clock := ms_clock u + 1\<rparr>)"
    using assms(6) u(1,2) m ab by (simp add: slice_ReplaceInJoinWaitFor_def slice_op_run)
  then show ?thesis
    using fin a' u(3,5) assms(1) by (simp add: waiting_def with_join_def joinStateKey_inj slice_refresh_def)
qed

theorem shared_wait_list_replaced_witness:
  "let sl = \<lparr>sl_arr = 0, sl_len = 2\<rparr>;
       (r, t) = thn (two_instances 1 2 ''join'' sl JoinStrategyAll)
         (slice_ReplaceInJoinWaitFor (\<lambda>n. n) 1 ''join'' ''cond#v'' ''b'') shared_demo
   in waiting t 1 ''join'' = Some [''a'', ''b''] \<and> waiting t 2 ''join'' = Some [''a'', ''b'']"
proof -
  obtain r t where run: "thn (two_instances 1 2 ''join'' \<lparr>sl_arr = 0, sl_len = 2\<rparr> JoinStrategyAll)
         (slice_ReplaceInJoinWaitFor (\<lambda>n. n) 1 ''join'' ''cond#v'' ''b'') shared_demo = (r, t)" by fastforce
  from shared_wait_list_replaced [OF _ shared_demo_facts(1,1,2) _ run] run show ?thesis
    by (simp add: shared_demo_facts(3) replace_or_append_def)
qed

text \<open>
  When the shared array has room, adding a step for the first instance and then one for the second
  leaves the first waiting for the step of the second: its own is overwritten.
\<close>

theorem shared_wait_list_overwritten:
  assumes "i \<noteq> k" and "waiting s i j = None" and "waiting s k j = None"
    and "in_array (sv_arrays s) sl" and "sl_len sl < length (sv_arrays s ! sl_arr sl)"
    and "x \<notin> set (sl_val (sv_arrays s) sl)" and "y \<notin> set (sl_val (sv_arrays s) sl)"
    and "thn (two_instances i k j sl strategy)
      (thn (slice_AddToJoinWaitFor room i j x) (slice_AddToJoinWaitFor room k j y)) s = (r, t)"
  shows "waiting t i j = Some (sl_val (sv_arrays s) sl @ [y]) \<and> waiting t k j = waiting t i j"
proof -
  obtain u a b where u: "two_instances i k j sl strategy s = (Ok (), u)"
    "map_of (sv_joins u) (joinStateKey i j) = Some a" "map_of (sv_joins u) (joinStateKey k j) = Some b"
    "sj_WaitingFor a = sl" "sj_WaitingFor b = sl" "sv_arrays u = sv_arrays s @ [[], [], [], []]"
    by (rule two_instances_run [OF assms(1-4)])
  have A: "sv_arrays u ! sl_arr sl = sv_arrays s ! sl_arr sl" using assms(4) u(6) by (simp add: in_array_def nth_append)
  let ?arr = "sv_arrays s ! sl_arr sl"
  let ?sl = "sl\<lparr>sl_len := Suc (sl_len sl)\<rparr>"
  obtain a' where 1: "slice_AddToJoinWaitFor room i j x u =
      (Ok (), with_join (joinStateKey i j) a' ((sv_arrays u)[sl_arr sl := ?arr[sl_len sl := x]]) (u\<lparr>ms_clock := ms_clock u + 1\<rparr>))"
      "sj_WaitingFor a' = ?sl"
    using add_in_place [OF u(2), of x room] u(4) A assms(5,6) by (auto simp: sl_val_def)
  let ?u1 = "with_join (joinStateKey i j) a' ((sv_arrays u)[sl_arr sl := ?arr[sl_len sl := x]]) (u\<lparr>ms_clock := ms_clock u + 1\<rparr>)"
  have b: "map_of (sv_joins ?u1) (joinStateKey k j) = Some b"
    using u(3) assms(1) by (simp add: with_join_def joinStateKey_inj)
  have A1: "sv_arrays ?u1 ! sl_arr sl = ?arr[sl_len sl := x]" "sl_arr sl < length (sv_arrays ?u1)"
    using assms(4) u(6) by (simp_all add: with_join_def in_array_def)
  obtain b' where 2: "slice_AddToJoinWaitFor room k j y ?u1 =
      (Ok (), with_join (joinStateKey k j) b' ((sv_arrays ?u1)[sl_arr sl := ?arr[sl_len sl := y]])
        (?u1\<lparr>ms_clock := ms_clock ?u1 + 1\<rparr>))" "sj_WaitingFor b' = ?sl"
    using add_in_place [OF b, of y room] u(5) A1 assms(5,7) by (auto simp: sl_val_def)
  have "t = with_join (joinStateKey k j) b' ((sv_arrays ?u1)[sl_arr sl := ?arr[sl_len sl := y]])
        (?u1\<lparr>ms_clock := ms_clock ?u1 + 1\<rparr>)"
    using assms(8) u(1) 1 2 by (simp add: run_simps)
  then show ?thesis
    using 1(2) 2(2) assms(1,5) A1
    by (simp add: waiting_def with_join_def joinStateKey_inj sl_val_def take_Suc_conv_app_nth)
qed

theorem shared_wait_list_overwritten_witness:
  "let sl = \<lparr>sl_arr = 0, sl_len = 2\<rparr>;
       (r, t) = thn (two_instances 1 2 ''join'' sl JoinStrategyAll)
         (thn (slice_AddToJoinWaitFor (\<lambda>n. n) 1 ''join'' ''x'') (slice_AddToJoinWaitFor (\<lambda>n. n) 2 ''join'' ''y'')) shared_demo
   in waiting t 1 ''join'' = Some [''a'', ''cond#v'', ''y'']"
proof -
  obtain r t where run: "thn (two_instances 1 2 ''join'' \<lparr>sl_arr = 0, sl_len = 2\<rparr> JoinStrategyAll)
         (thn (slice_AddToJoinWaitFor (\<lambda>n. n) 1 ''join'' ''x'') (slice_AddToJoinWaitFor (\<lambda>n. n) 2 ''join'' ''y'')) shared_demo
       = (r, t)" by fastforce
  from shared_wait_list_overwritten [OF _ shared_demo_facts(1,1,2,4) _ _ run] run show ?thesis
    by (simp add: shared_demo_facts(3))
qed

end
