(* ===== verification/Sqlite_Store.thy ===== *)
theory Sqlite_Store
  imports Join_State Store_Admin
begin

text \<open>
  The SQLite implementation of the \<open>Store\<close> interface, \<open>src/sqlite_store.go\<close>, over the schema of
  \<open>src/migrations_sqlite/0001_init.sql\<close>: every table is a list of rows, and every operation is the effect of its SQL
  statements on the tables.  A query is a filter, \<open>ORDER BY\<close> a sort, an update a map over the rows, and an insert
  appends a row whose number is one more than the largest ever used (\<open>AUTOINCREMENT\<close>).

  What the database is taken to do: a statement succeeds unless it breaks a uniqueness constraint of the schema or a
  scan meets \<open>NULL\<close>; times compare as points in time; the JSON columns give back what was stored.  Rows that
  a query leaves unordered come in the order of insertion.  The store's mutex and the transactions make
  \<open>DequeueStep\<close> and \<open>RequeueDeadLetter\<close> atomic.
\<close>

section \<open>Tables\<close>

record sqlite_store =
  sq_definitions :: "workflow_definition list"
  sq_instances :: "workflow_instance list"
  sq_steps :: "workflow_step list"
  sq_queue :: "queue_item list"
  sq_events :: "workflow_event list"
  sq_joinStates :: "join_state list"
  sq_cancelRequests :: "cancel_request list"
  sq_humanDecisions :: "human_decision_record list"
  sq_deadLetters :: "dead_letter_record list"
  sq_instanceSeq :: int
  sq_stepSeq :: int
  sq_queueSeq :: int
  sq_eventSeq :: int
  sq_decisionSeq :: int
  sq_dlqSeq :: int
  sq_agingEnabled :: bool
  sq_agingRate :: rat
  sq_clock :: int

type_synonym 'a qprog = "(sqlite_store, 'a) prog"

definition newSQLiteStore :: "int \<Rightarrow> sqlite_store" where
  "newSQLiteStore now =
     \<lparr>sq_definitions = [], sq_instances = [], sq_steps = [], sq_queue = [], sq_events = [], sq_joinStates = [],
      sq_cancelRequests = [], sq_humanDecisions = [], sq_deadLetters = [], sq_instanceSeq = 0, sq_stepSeq = 0,
      sq_queueSeq = 0, sq_eventSeq = 0, sq_decisionSeq = 0, sq_dlqSeq = 0, sq_agingEnabled = True,
      sq_agingRate = 1 / 2, sq_clock = now\<rparr>"

definition sql_now :: "int qprog" where
  "sql_now s = (Ok (sq_clock s), s\<lparr>sq_clock := sq_clock s + 1\<rparr>)"

text \<open>\<open>QueryRow(...).Scan(...)\<close>: the first row, or \<open>sql.ErrNoRows\<close> turned into \<open>e\<close>.\<close>

definition query_row :: "goerror \<Rightarrow> (sqlite_store \<Rightarrow> 'a list) \<Rightarrow> 'a qprog" where
  "query_row e rows =
     bnd (gets rows) (\<lambda>rs. case rs of [] \<Rightarrow> throw e | r # _ \<Rightarrow> ret r)"

definition ErrNoRows :: goerror where
  "ErrNoRows = Errorf ''sql: no rows in result set''"

text \<open>\<open>UPDATE ... SET f WHERE p\<close>.\<close>

definition update_rows :: "('a \<Rightarrow> bool) \<Rightarrow> ('a \<Rightarrow> 'a) \<Rightarrow> 'a list \<Rightarrow> 'a list" where
  "update_rows p f rows = map (\<lambda>r. if p r then f r else r) rows"

section \<open>Settings\<close>

definition MinAgingRate :: rat where "MinAgingRate = 0"
definition MaxAgingRate :: rat where "MaxAgingRate = 100"

text \<open>\<open>None\<close> is a rate that is not a finite number.\<close>

definition clampAgingRate :: "rat option \<Rightarrow> rat" where
  "clampAgingRate rate =
     (case rate of
        None \<Rightarrow> MinAgingRate
      | Some r \<Rightarrow> if r < MinAgingRate then MinAgingRate else if r > MaxAgingRate then MaxAgingRate else r)"

definition sql_SetAgingEnabled :: "bool \<Rightarrow> unit qprog" where
  "sql_SetAgingEnabled enabled = modify (\<lambda>s. s\<lparr>sq_agingEnabled := enabled\<rparr>)"

definition sql_SetAgingRate :: "rat option \<Rightarrow> unit qprog" where
  "sql_SetAgingRate rate = modify (\<lambda>s. s\<lparr>sq_agingRate := clampAgingRate rate\<rparr>)"

section \<open>Definitions and instances\<close>

text \<open>The conflict on name and version is looked at before the one on the identifier.\<close>

definition sql_SaveWorkflowDefinition :: "workflow_definition \<Rightarrow> unit qprog" where
  "sql_SaveWorkflowDefinition def =
     bnd sql_now (\<lambda>now.
     bnd (gets sq_definitions) (\<lambda>defs.
     if \<exists>d \<in> set defs. wd_Name d = wd_Name def \<and> wd_Version d = wd_Version def
     then modify (\<lambda>s. s\<lparr>sq_definitions := update_rows
            (\<lambda>d. wd_Name d = wd_Name def \<and> wd_Version d = wd_Version def)
            (\<lambda>d. d\<lparr>wd_Definition := wd_Definition def\<rparr>) (sq_definitions s)\<rparr>)
     else if \<exists>d \<in> set defs. wd_ID d = wd_ID def
     then throw (Errorf ''UNIQUE constraint failed: workflow_definitions.id'')
     else modify (\<lambda>s. s\<lparr>sq_definitions := sq_definitions s @ [def\<lparr>wd_CreatedAt := now\<rparr>]\<rparr>)))"

definition sql_GetWorkflowDefinition :: "string \<Rightarrow> workflow_definition qprog" where
  "sql_GetWorkflowDefinition ident =
     query_row ErrEntityNotFound (\<lambda>s. filter (\<lambda>d. wd_ID d = ident) (sq_definitions s))"

definition sql_GetInstance :: "int \<Rightarrow> workflow_instance qprog" where
  "sql_GetInstance instanceID =
     query_row ErrEntityNotFound (\<lambda>s. filter (\<lambda>i. wi_ID i = instanceID) (sq_instances s))"

definition sql_CreateInstance :: "string \<Rightarrow> raw \<Rightarrow> workflow_instance qprog" where
  "sql_CreateInstance workflowID input =
     bnd sql_now (\<lambda>now.
     bnd (gets (\<lambda>s. sq_instanceSeq s + 1)) (\<lambda>ident.
     thn (modify (\<lambda>s. s\<lparr>sq_instanceSeq := ident,
       sq_instances := sq_instances s @
         [\<lparr>wi_ID = ident, wi_WorkflowID = workflowID, wi_Status = StatusPending, wi_Input = input,
           wi_Output = RawNil, wi_Error = None, wi_StartedAt = None, wi_CompletedAt = None,
           wi_CreatedAt = now, wi_UpdatedAt = now\<rparr>]\<rparr>))
     (sql_GetInstance ident)))"

definition sql_UpdateInstanceStatus :: "int \<Rightarrow> workflow_status \<Rightarrow> raw \<Rightarrow> string option \<Rightarrow> unit qprog" where
  "sql_UpdateInstanceStatus instanceID status output errMsg =
     bnd sql_now (\<lambda>now.
     modify (\<lambda>s. s\<lparr>sq_instances := update_rows (\<lambda>i. wi_ID i = instanceID)
       (\<lambda>i. i\<lparr>wi_Status := status, wi_Output := output, wi_Error := errMsg, wi_UpdatedAt := now,
          wi_CompletedAt := (if status \<in> {StatusCompleted, StatusFailed, StatusCancelled} then Some now
                             else wi_CompletedAt i),
          wi_StartedAt := (if wi_StartedAt i = None \<and> status = StatusRunning then Some now
                           else wi_StartedAt i)\<rparr>) (sq_instances s)\<rparr>))"

section \<open>Steps\<close>

definition sql_CreateStep :: "workflow_step \<Rightarrow> workflow_step qprog" where
  "sql_CreateStep st0 =
     bnd sql_now (\<lambda>now.
     bnd (gets (\<lambda>s. sq_stepSeq s + 1)) (\<lambda>ident.
     let st = st0\<lparr>ws_ID := ident, ws_CreatedAt := now\<rparr> in
     thn (modify (\<lambda>s. s\<lparr>sq_stepSeq := ident, sq_steps := sq_steps s @ [st]\<rparr>)) (ret st)))"

definition sql_update_step :: "int \<Rightarrow> (workflow_step \<Rightarrow> workflow_step) \<Rightarrow> unit qprog" where
  "sql_update_step stepID f =
     modify (\<lambda>s. s\<lparr>sq_steps := update_rows (\<lambda>st. ws_ID st = stepID) f (sq_steps s)\<rparr>)"

definition sql_UpdateStep :: "int \<Rightarrow> step_status \<Rightarrow> raw \<Rightarrow> string option \<Rightarrow> unit qprog" where
  "sql_UpdateStep stepID status output errMsg =
     bnd sql_now (\<lambda>now.
     sql_update_step stepID (\<lambda>st. st\<lparr>ws_Status := status, ws_Output := output, ws_Error := errMsg,
       ws_CompletedAt := (if status \<in> {StepStatusCompleted, StepStatusFailed, StepStatusSkipped, StepStatusRolledBack}
                          then Some now else ws_CompletedAt st),
       ws_StartedAt := (if ws_StartedAt st = None \<and> status = StepStatusRunning then Some now else ws_StartedAt st),
       ws_RetryCount := (if status = StepStatusFailed then ws_RetryCount st + 1 else ws_RetryCount st)\<rparr>))"

definition sql_UpdateStepStatus :: "int \<Rightarrow> step_status \<Rightarrow> unit qprog" where
  "sql_UpdateStepStatus stepID status = sql_update_step stepID (\<lambda>st. st\<lparr>ws_Status := status\<rparr>)"

definition sql_UpdateStepCompensationRetry :: "int \<Rightarrow> int \<Rightarrow> step_status \<Rightarrow> unit qprog" where
  "sql_UpdateStepCompensationRetry stepID retryCount status =
     sql_update_step stepID (\<lambda>st. st\<lparr>ws_CompensationRetryCount := retryCount, ws_Status := status\<rparr>)"

definition sql_steps_of :: "int \<Rightarrow> sqlite_store \<Rightarrow> workflow_step list" where
  "sql_steps_of instanceID s = filter (\<lambda>st. ws_InstanceID st = instanceID) (sq_steps s)"

definition sql_GetStepsByInstance :: "int \<Rightarrow> workflow_step list qprog" where
  "sql_GetStepsByInstance instanceID = gets (\<lambda>s. sort_key ws_ID (sql_steps_of instanceID s))"

definition sql_GetWorkflowSteps :: "int \<Rightarrow> workflow_step list qprog" where
  "sql_GetWorkflowSteps instanceID = sql_GetStepsByInstance instanceID"

definition sql_GetActiveStepsForUpdate :: "int \<Rightarrow> workflow_step list qprog" where
  "sql_GetActiveStepsForUpdate instanceID =
     gets (\<lambda>s. sort_key (\<lambda>st. - ws_CreatedAt st) (filter step_is_active (sql_steps_of instanceID s)))"

definition sql_GetStepByID :: "int \<Rightarrow> workflow_step qprog" where
  "sql_GetStepByID stepID = query_row ErrEntityNotFound (\<lambda>s. filter (\<lambda>st. ws_ID st = stepID) (sq_steps s))"

definition sql_GetHumanDecisionStepByInstanceID :: "int \<Rightarrow> workflow_step qprog" where
  "sql_GetHumanDecisionStepByInstanceID instanceID =
     query_row ErrEntityNotFound (\<lambda>s. sort_key (\<lambda>st. - ws_CreatedAt st)
       (filter (\<lambda>st. ws_StepType st = StepTypeHuman) (sql_steps_of instanceID s)))"

section \<open>The queue\<close>

definition sql_enqueue :: "int \<Rightarrow> int option \<Rightarrow> int \<Rightarrow> int \<Rightarrow> unit qprog" where
  "sql_enqueue instanceID stepID scheduledAt priority =
     modify (\<lambda>s. s\<lparr>sq_queueSeq := sq_queueSeq s + 1,
       sq_queue := sq_queue s @
         [\<lparr>qi_ID = sq_queueSeq s + 1, qi_InstanceID = instanceID, qi_StepID = stepID, qi_ScheduledAt = scheduledAt,
           qi_AttemptedAt = None, qi_AttemptedBy = None, qi_Priority = priority\<rparr>]\<rparr>)"

definition sql_EnqueueStep :: "int \<Rightarrow> int option \<Rightarrow> int \<Rightarrow> int \<Rightarrow> unit qprog" where
  "sql_EnqueueStep instanceID stepID priority delay =
     bnd sql_now (\<lambda>now. sql_enqueue instanceID stepID (now + delay) priority)"

text \<open>
  The ordering expression: \<open>strftime\<close> gives whole seconds, \<open>%.6f\<close> rounds the rate to six digits, and
  \<open>CAST ... AS INTEGER\<close> drops the fraction.
\<close>

definition seconds :: "int \<Rightarrow> int" where
  "seconds t = t div 1000000000"

definition six_digits :: "rat \<Rightarrow> rat" where
  "six_digits r = of_int (round (r * 1000000)) / 1000000"

definition sql_effective_priority :: "bool \<Rightarrow> rat \<Rightarrow> int \<Rightarrow> queue_item \<Rightarrow> int" where
  "sql_effective_priority agingEnabled agingRate now item =
     (if agingEnabled
      then min 100 (qi_Priority item +
        trunc_rat (of_int (seconds now - seconds (qi_ScheduledAt item)) * six_digits (clampAgingRate (Some agingRate))))
      else qi_Priority item)"

definition sql_due :: "int \<Rightarrow> queue_item \<Rightarrow> bool" where
  "sql_due now item \<longleftrightarrow> qi_ScheduledAt item \<le> now \<and> qi_AttemptedBy item = None"

definition sql_select :: "(queue_item \<Rightarrow> int) \<Rightarrow> int \<Rightarrow> queue_item list \<Rightarrow> queue_item list" where
  "sql_select prio now rows =
     take 1 (sort_key (\<lambda>item. (- prio item, qi_ScheduledAt item, qi_ID item)) (filter (sql_due now) rows))"

definition sql_DequeueStep :: "string \<Rightarrow> queue_item option qprog" where
  "sql_DequeueStep workerID =
     bnd sql_now (\<lambda>t.
     bnd (gets (\<lambda>s. sql_select (sql_effective_priority (sq_agingEnabled s) (sq_agingRate s) t) t (sq_queue s))) (\<lambda>rows.
     case rows of
       [] \<Rightarrow> ret None
     | item # _ \<Rightarrow>
         bnd sql_now (\<lambda>now.
         let claim = (\<lambda>q. q\<lparr>qi_AttemptedAt := Some now, qi_AttemptedBy := Some workerID\<rparr>);
             free = (\<lambda>q. qi_ID q = qi_ID item \<and> qi_AttemptedBy q = None)
         in bnd (gets (\<lambda>s. length (filter free (sq_queue s)))) (\<lambda>affected.
            if affected = 0 then ret None
            else thn (modify (\<lambda>s. s\<lparr>sq_queue := update_rows free claim (sq_queue s)\<rparr>)) (ret (Some (claim item)))))))"

definition sql_RemoveFromQueue :: "int \<Rightarrow> unit qprog" where
  "sql_RemoveFromQueue queueID =
     modify (\<lambda>s. s\<lparr>sq_queue := filter (\<lambda>q. qi_ID q \<noteq> queueID) (sq_queue s)\<rparr>)"

definition sql_ReleaseQueueItem :: "int \<Rightarrow> unit qprog" where
  "sql_ReleaseQueueItem queueID =
     modify (\<lambda>s. s\<lparr>sq_queue := update_rows (\<lambda>q. qi_ID q = queueID)
       (\<lambda>q. q\<lparr>qi_AttemptedAt := None, qi_AttemptedBy := None\<rparr>) (sq_queue s)\<rparr>)"

definition sql_RescheduleAndReleaseQueueItem :: "int \<Rightarrow> int \<Rightarrow> unit qprog" where
  "sql_RescheduleAndReleaseQueueItem queueID delay =
     bnd sql_now (\<lambda>now.
     modify (\<lambda>s. s\<lparr>sq_queue := update_rows (\<lambda>q. qi_ID q = queueID)
       (\<lambda>q. q\<lparr>qi_ScheduledAt := now + delay, qi_AttemptedAt := None, qi_AttemptedBy := None\<rparr>) (sq_queue s)\<rparr>))"

section \<open>Events\<close>

definition sql_LogEvent :: "int \<Rightarrow> int option \<Rightarrow> string \<Rightarrow> goerror + json \<Rightarrow> unit qprog" where
  "sql_LogEvent instanceID stepID eventType payload =
     (case payload of
        Inl e \<Rightarrow> throw e
      | Inr doc \<Rightarrow>
          bnd sql_now (\<lambda>now.
          modify (\<lambda>s. s\<lparr>sq_eventSeq := sq_eventSeq s + 1,
            sq_events := sq_events s @
              [\<lparr>we_ID = sq_eventSeq s + 1, we_InstanceID = instanceID, we_StepID = stepID, we_EventType = eventType,
                we_Payload = doc, we_CreatedAt = now\<rparr>]\<rparr>)))"

definition sql_GetWorkflowEvents :: "int \<Rightarrow> workflow_event list qprog" where
  "sql_GetWorkflowEvents instanceID =
     gets (\<lambda>s. sort_key we_ID (filter (\<lambda>ev. we_InstanceID ev = instanceID) (sq_events s)))"

section \<open>Join states\<close>

definition join_row :: "int \<Rightarrow> string \<Rightarrow> join_state \<Rightarrow> bool" where
  "join_row instanceID joinStepName js \<longleftrightarrow> js_InstanceID js = instanceID \<and> js_JoinStepName js = joinStepName"

definition sql_find_join :: "int \<Rightarrow> string \<Rightarrow> sqlite_store \<Rightarrow> join_state option" where
  "sql_find_join instanceID joinStepName s = find (join_row instanceID joinStepName) (sq_joinStates s)"

definition sql_CreateJoinState :: "int \<Rightarrow> string \<Rightarrow> string list \<Rightarrow> join_strategy \<Rightarrow> unit qprog" where
  "sql_CreateJoinState instanceID joinStepName waitingFor strategy =
     bnd sql_now (\<lambda>now.
     bnd (gets (sql_find_join instanceID joinStepName)) (\<lambda>old.
     if old \<noteq> None
     then throw (Errorf ''UNIQUE constraint failed: join_states.instance_id, join_states.join_step_name'')
     else modify (\<lambda>s. s\<lparr>sq_joinStates := sq_joinStates s @
       [\<lparr>js_InstanceID = instanceID, js_JoinStepName = joinStepName, js_WaitingFor = waitingFor, js_Completed = [],
         js_Failed = [], js_JoinStrategy = strategy, js_IsReady = False, js_CreatedAt = now, js_UpdatedAt = now\<rparr>]\<rparr>)))"

definition sql_update_join :: "int \<Rightarrow> string \<Rightarrow> (join_state \<Rightarrow> join_state) \<Rightarrow> unit qprog" where
  "sql_update_join instanceID joinStepName f =
     modify (\<lambda>s. s\<lparr>sq_joinStates := update_rows (join_row instanceID joinStepName) f (sq_joinStates s)\<rparr>)"

definition add_if_absent :: "'a \<Rightarrow> 'a list \<Rightarrow> 'a list" where
  "add_if_absent x xs = (if x \<in> set xs then xs else xs @ [x])"

text \<open>
  Without a row one is created that waits for the completed step only; the text \<open>["name"]\<close> put together by the
  code stands for that list (step names have no characters that JSON escapes).
\<close>

definition sql_UpdateJoinState :: "int \<Rightarrow> string \<Rightarrow> string \<Rightarrow> bool \<Rightarrow> bool qprog" where
  "sql_UpdateJoinState instanceID joinStepName completedStep success =
     bnd (gets (sql_find_join instanceID joinStepName)) (\<lambda>row.
     bnd (case row of
            Some js \<Rightarrow> ret (js_WaitingFor js, js_Completed js, js_Failed js, js_JoinStrategy js)
          | None \<Rightarrow>
              thn (ignore (sql_CreateJoinState instanceID joinStepName [completedStep] JoinStrategyAll))
              (ret ([completedStep], [], [], JoinStrategyAll))) (\<lambda>(waitingFor, completed0, failed0, strategy).
     let completed = (if success then add_if_absent completedStep completed0 else completed0);
         failed = (if success then failed0 else add_if_absent completedStep failed0);
         isReady = checkJoinReady waitingFor completed failed strategy
     in bnd sql_now (\<lambda>now.
        thn (sql_update_join instanceID joinStepName (\<lambda>js. js\<lparr>js_Completed := completed, js_Failed := failed,
               js_IsReady := isReady, js_UpdatedAt := now\<rparr>))
        (ret isReady))))"

definition sql_GetJoinState :: "int \<Rightarrow> string \<Rightarrow> join_state qprog" where
  "sql_GetJoinState instanceID joinStepName =
     bnd (gets (sql_find_join instanceID joinStepName)) (\<lambda>row.
     case row of None \<Rightarrow> throw ErrEntityNotFound | Some js \<Rightarrow> ret js)"

definition sql_set_waiting :: "int \<Rightarrow> string \<Rightarrow> join_state \<Rightarrow> string list \<Rightarrow> unit qprog" where
  "sql_set_waiting instanceID joinStepName js waitingFor =
     bnd sql_now (\<lambda>now.
     sql_update_join instanceID joinStepName (\<lambda>r. r\<lparr>js_WaitingFor := waitingFor,
       js_IsReady := checkJoinReady waitingFor (js_Completed js) (js_Failed js) (js_JoinStrategy js),
       js_UpdatedAt := now\<rparr>))"

definition sql_AddToJoinWaitFor :: "int \<Rightarrow> string \<Rightarrow> string \<Rightarrow> unit qprog" where
  "sql_AddToJoinWaitFor instanceID joinStepName stepToAdd =
     bnd (gets (sql_find_join instanceID joinStepName)) (\<lambda>row.
     case row of
       None \<Rightarrow> sql_CreateJoinState instanceID joinStepName [stepToAdd] (JoinStrategyOther [])
     | Some js \<Rightarrow> sql_set_waiting instanceID joinStepName js (js_WaitingFor js @ [stepToAdd]))"

definition sql_ReplaceInJoinWaitFor :: "int \<Rightarrow> string \<Rightarrow> string \<Rightarrow> string \<Rightarrow> unit qprog" where
  "sql_ReplaceInJoinWaitFor instanceID joinStepName virtualStep realStep =
     bnd (gets (sql_find_join instanceID joinStepName)) (\<lambda>row.
     case row of
       None \<Rightarrow> sql_CreateJoinState instanceID joinStepName [realStep] JoinStrategyAll
     | Some js \<Rightarrow> sql_set_waiting instanceID joinStepName js (replace_or_append virtualStep realStep (js_WaitingFor js)))"

section \<open>Cancel requests and human decisions\<close>

definition sql_CreateCancelRequest :: "cancel_request \<Rightarrow> unit qprog" where
  "sql_CreateCancelRequest req =
     bnd sql_now (\<lambda>now.
     modify (\<lambda>s. s\<lparr>sq_cancelRequests :=
       filter (\<lambda>r. cr_InstanceID r \<noteq> cr_InstanceID req) (sq_cancelRequests s) @
         [req\<lparr>cr_ID := 0, cr_CreatedAt := now\<rparr>]\<rparr>))"

definition sql_GetCancelRequest :: "int \<Rightarrow> cancel_request qprog" where
  "sql_GetCancelRequest instanceID =
     query_row ErrEntityNotFound (\<lambda>s. filter (\<lambda>r. cr_InstanceID r = instanceID) (sq_cancelRequests s))"

definition sql_DeleteCancelRequest :: "int \<Rightarrow> unit qprog" where
  "sql_DeleteCancelRequest instanceID =
     modify (\<lambda>s. s\<lparr>sq_cancelRequests := filter (\<lambda>r. cr_InstanceID r \<noteq> instanceID) (sq_cancelRequests s)\<rparr>)"

definition sql_CreateHumanDecision :: "human_decision_record \<Rightarrow> unit qprog" where
  "sql_CreateHumanDecision decision =
     bnd sql_now (\<lambda>now.
     modify (\<lambda>s. s\<lparr>sq_decisionSeq := sq_decisionSeq s + 1,
       sq_humanDecisions := sq_humanDecisions s @
         [decision\<lparr>hd_ID := sq_decisionSeq s + 1, hd_CreatedAt := now\<rparr>]\<rparr>))"

definition sql_GetHumanDecision :: "int \<Rightarrow> human_decision_record qprog" where
  "sql_GetHumanDecision stepID =
     query_row ErrEntityNotFound (\<lambda>s. filter (\<lambda>d. hd_StepID d = stepID) (sq_humanDecisions s))"

section \<open>Dead letters\<close>

definition sql_CreateDeadLetterRecord :: "dead_letter_record \<Rightarrow> unit qprog" where
  "sql_CreateDeadLetterRecord rec =
     bnd sql_now (\<lambda>now.
     modify (\<lambda>s. s\<lparr>sq_dlqSeq := sq_dlqSeq s + 1,
       sq_deadLetters := sq_deadLetters s @ [rec\<lparr>dl_ID := sq_dlqSeq s + 1, dl_CreatedAt := now\<rparr>]\<rparr>))"

definition sql_GetDeadLetterByID :: "int \<Rightarrow> dead_letter_record qprog" where
  "sql_GetDeadLetterByID ident =
     query_row ErrEntityNotFound (\<lambda>s. filter (\<lambda>r. dl_ID r = ident) (sq_deadLetters s))"

definition sql_RequeueDeadLetter :: "int \<Rightarrow> raw option \<Rightarrow> unit qprog" where
  "sql_RequeueDeadLetter dlqID newInput =
     bnd (query_row ErrNoRows (\<lambda>s. filter (\<lambda>r. dl_ID r = dlqID) (sq_deadLetters s))) (\<lambda>rec.
     thn (sql_update_step (dl_StepID rec)
       (reset_step (Some (case newInput of Some inp \<Rightarrow> inp | None \<Rightarrow> dl_Input rec))))
    (bnd sql_now (\<lambda>now.
     thn (sql_enqueue (dl_InstanceID rec) (Some (dl_StepID rec)) now PriorityNormal)
    (thn (modify (\<lambda>s. s\<lparr>sq_instances := update_rows (\<lambda>i. wi_ID i = dl_InstanceID rec) resume_instance (sq_instances s)\<rparr>))
     (modify (\<lambda>s. s\<lparr>sq_deadLetters := filter (\<lambda>r. dl_ID r \<noteq> dlqID) (sq_deadLetters s)\<rparr>))))))"

text \<open>\<open>LIMIT ? OFFSET ?\<close>: a negative limit is none, a negative offset is zero.\<close>

definition sql_page :: "int \<Rightarrow> int \<Rightarrow> 'a list \<Rightarrow> 'a list" where
  "sql_page limit offset rows =
     (let rest = drop (nat offset) rows in if limit < 0 then rest else take (nat limit) rest)"

definition sql_ListDeadLetters :: "int \<Rightarrow> int \<Rightarrow> (dead_letter_record list \<times> int) qprog" where
  "sql_ListDeadLetters offset limit =
     gets (\<lambda>s. (sql_page limit offset (sort_key (\<lambda>r. - dl_CreatedAt r) (sq_deadLetters s)), int (length (sq_deadLetters s))))"

definition sql_PauseActiveStepsAndClearQueue :: "int \<Rightarrow> unit qprog" where
  "sql_PauseActiveStepsAndClearQueue instanceID =
     thn (modify (\<lambda>s. s\<lparr>sq_steps := update_rows
            (\<lambda>st. ws_InstanceID st = instanceID \<and>
              ws_Status st \<in> {StepStatusRunning, StepStatusPending, StepStatusCompensation})
            (\<lambda>st. st\<lparr>ws_Status := StepStatusPaused\<rparr>) (sq_steps s)\<rparr>))
     (modify (\<lambda>s. s\<lparr>sq_queue := filter (\<lambda>q. qi_InstanceID q \<noteq> instanceID) (sq_queue s)\<rparr>))"

section \<open>Listings, statistics, clean-up\<close>

definition count_status :: "workflow_status \<Rightarrow> workflow_instance list \<Rightarrow> nat" where
  "count_status status is = length (filter (\<lambda>i. wi_Status i = status) is)"

text \<open>\<open>SUM\<close> over no rows is \<open>NULL\<close>, which does not scan into a number.\<close>

definition sql_GetSummaryStats :: "summary_stats qprog" where
  "sql_GetSummaryStats =
     bnd (gets sq_instances) (\<lambda>is.
     if is = [] then throw (Errorf ''sql: Scan error: converting NULL to uint is unsupported'')
     else ret \<lparr>ss_TotalWorkflows = length is, ss_CompletedWorkflows = count_status StatusCompleted is,
       ss_FailedWorkflows = count_status StatusFailed is, ss_RunningWorkflows = count_status StatusRunning is,
       ss_PendingWorkflows = count_status StatusPending is,
       ss_ActiveWorkflows = count_status StatusRunning is + count_status StatusPending is\<rparr>)"

definition count_steps :: "step_status \<Rightarrow> workflow_step list \<Rightarrow> int" where
  "count_steps status sts = int (length (filter (\<lambda>st. ws_Status st = status) sts))"

definition sql_active_instance :: "sqlite_store \<Rightarrow> workflow_instance \<Rightarrow> active_instance" where
  "sql_active_instance s i =
     (let sts = sql_steps_of (wi_ID i) s in
      \<lparr>ai_ID = wi_ID i, ai_WorkflowID = wi_WorkflowID i,
       ai_WorkflowName = (case find (\<lambda>d. wd_ID d = wi_WorkflowID i) (sq_definitions s) of None \<Rightarrow> [] | Some d \<Rightarrow> wd_Name d),
       ai_Status = workflow_status_text (wi_Status i), ai_StartedAt = wi_CreatedAt i, ai_UpdatedAt = wi_UpdatedAt i,
       ai_CurrentStep = (case find (\<lambda>st. ws_Status st = StepStatusRunning) sts of None \<Rightarrow> [] | Some st \<Rightarrow> ws_StepName st),
       ai_TotalSteps = int (length sts), ai_CompletedSteps = count_steps StepStatusCompleted sts,
       ai_RolledBackSteps = count_steps StepStatusRolledBack sts\<rparr>)"

definition sql_GetActiveInstances :: "active_instance list qprog" where
  "sql_GetActiveInstances =
     gets (\<lambda>s. map (sql_active_instance s) (by_created_desc (filter is_listed_active (sq_instances s))))"

definition sql_GetWorkflowDefinitions :: "workflow_definition list qprog" where
  "sql_GetWorkflowDefinitions = gets (\<lambda>s. sort_key (\<lambda>d. - wd_CreatedAt d) (sq_definitions s))"

definition sql_instances_of :: "string \<Rightarrow> sqlite_store \<Rightarrow> workflow_instance list" where
  "sql_instances_of workflowID s = filter (\<lambda>i. wi_WorkflowID i = workflowID) (sq_instances s)"

definition sql_GetWorkflowInstances :: "string \<Rightarrow> workflow_instance list qprog" where
  "sql_GetWorkflowInstances workflowID = gets (\<lambda>s. sort_key wi_ID (sql_instances_of workflowID s))"

definition sql_GetAllWorkflowInstances :: "workflow_instance list qprog" where
  "sql_GetAllWorkflowInstances = gets (\<lambda>s. sort_key wi_ID (sq_instances s))"

definition sql_GetWorkflowInstancesPaginated :: "string \<Rightarrow> int \<Rightarrow> int \<Rightarrow> (workflow_instance list \<times> int) qprog" where
  "sql_GetWorkflowInstancesPaginated workflowID offset limit =
     gets (\<lambda>s. let rows = sql_instances_of workflowID s
               in (sql_page limit offset (by_created_desc rows), int (length rows)))"

definition sql_GetAllWorkflowInstancesPaginated :: "int \<Rightarrow> int \<Rightarrow> (workflow_instance list \<times> int) qprog" where
  "sql_GetAllWorkflowInstancesPaginated offset limit =
     gets (\<lambda>s. (sql_page limit offset (by_created_desc (sq_instances s)), int (length (sq_instances s))))"

definition sql_workflow_stats :: "sqlite_store \<Rightarrow> workflow_definition \<Rightarrow> workflow_stats" where
  "sql_workflow_stats s d =
     (let is = sql_instances_of (wd_ID d) s in
      \<lparr>wst_WorkflowName = wd_Name d, wst_Version = wd_Version d, wst_TotalInstances = int (length is),
       wst_CompletedInstances = int (count_status StatusCompleted is),
       wst_FailedInstances = int (count_status StatusFailed is),
       wst_RunningInstances = int (count_status StatusRunning is), wst_AverageDuration = 0\<rparr>)"

definition sql_GetWorkflowStats :: "workflow_stats list qprog" where
  "sql_GetWorkflowStats = gets (\<lambda>s. map (sql_workflow_stats s) (sq_definitions s))"

definition stale :: "int \<Rightarrow> workflow_instance \<Rightarrow> bool" where
  "stale cutoff i \<longleftrightarrow> wi_UpdatedAt i < cutoff"

definition stale_ids :: "int \<Rightarrow> sqlite_store \<Rightarrow> int set" where
  "stale_ids cutoff s = wi_ID ` set (filter (stale cutoff) (sq_instances s))"

definition sql_CleanupOldWorkflows :: "int \<Rightarrow> int qprog" where
  "sql_CleanupOldWorkflows daysToKeep =
     bnd sql_now (\<lambda>now.
     let cutoff = now - daysToKeep * day_ns in
     thn (modify (\<lambda>s. s\<lparr>sq_events := filter (\<lambda>ev. we_InstanceID ev \<notin> stale_ids cutoff s) (sq_events s)\<rparr>))
    (thn (modify (\<lambda>s. s\<lparr>sq_steps := filter (\<lambda>st. ws_InstanceID st \<notin> stale_ids cutoff s) (sq_steps s)\<rparr>))
    (bnd (gets (\<lambda>s. int (length (filter (stale cutoff) (sq_instances s))))) (\<lambda>deleted.
     thn (modify (\<lambda>s. s\<lparr>sq_instances := filter (\<lambda>i. \<not> stale cutoff i) (sq_instances s)\<rparr>)) (ret deleted)))))"

end
