(* ===== verification/Postgres_Store.thy ===== *)
theory Postgres_Store
  imports Sqlite_Store
begin

text \<open>
  The PostgreSQL implementation of the \<open>Store\<close> interface, \<open>src/store.go\<close>, with the transaction manager of
  \<open>src/tx_manager.go\<close>, over the schema that the migrations in \<open>src/migrations\<close> leave behind.  As in the theory
  \<open>Sqlite_Store\<close> a table is a list of rows and an operation is the effect of its SQL statements; here the schema
  has foreign keys, checks, a trigger and stored functions, and statements run inside transactions.

  What the server is taken to do:
  \<^item> a statement either has its whole effect or, when it breaks a constraint, none; a number drawn from a sequence
    is used up either way;
  \<^item> inside a transaction a failed statement makes every later one fail, and a commit then rolls back;
  \<^item> \<open>NOW()\<close> is the start of the transaction; points in time are kept to the microsecond;
  \<^item> a \<open>JSONB\<close> column accepts JSON documents only and gives back the document that was stored; a nil message is
    \<open>NULL\<close>;
  \<^item> rows that \<open>ORDER BY\<close> leaves tied come in the order of insertion, texts compare byte by byte.

  Transactions of other connections show only in the rows they hold locked (\<open>pg_lockedQueue\<close>, \<open>pg_lockedSteps\<close>),
  which the statements with \<open>SKIP LOCKED\<close> pass over.  A context that carries a transaction is a state with \<open>pg_tx\<close> set.
\<close>

section \<open>Tables, transactions, the store\<close>

record pg_tables =
  t_definitions :: "workflow_definition list"
  t_instances :: "workflow_instance list"
  t_steps :: "workflow_step list"
  t_queue :: "queue_item list"
  t_events :: "workflow_event list"
  t_joins :: "join_state list"
  t_cancels :: "cancel_request list"
  t_decisions :: "human_decision_record list"
  t_letters :: "dead_letter_record list"

datatype pg_sequence = InstanceSeq | StepSeq | QueueSeq | EventSeq | CancelSeq | DecisionSeq | LetterSeq

record transaction =
  tx_saved :: pg_tables
  tx_start :: int
  tx_failed :: bool

record workflowDefCacheEntry =
  ce_def :: workflow_definition
  ce_expiresAt :: int

record pg_store =
  pg_db :: pg_tables
  pg_seq :: "pg_sequence \<Rightarrow> int"
  pg_tx :: "transaction option"
  pg_lockedQueue :: "int list"
  pg_lockedSteps :: "int list"
  pg_agingEnabled :: bool
  pg_agingRate :: rat
  pg_defCache :: "(string, workflowDefCacheEntry) gomap"
  pg_defCacheTTL :: int
  pg_clock :: int
  pg_uuid :: "nat \<Rightarrow> string"
  pg_uuidCount :: nat
  pg_parseUUID :: "string \<Rightarrow> string option"

type_synonym 'a pprog = "(pg_store, 'a) prog"

definition empty_tables :: pg_tables where
  "empty_tables = \<lparr>t_definitions = [], t_instances = [], t_steps = [], t_queue = [], t_events = [], t_joins = [],
     t_cancels = [], t_decisions = [], t_letters = []\<rparr>"

text \<open>A store over a freshly migrated database.\<close>

definition pg_NewStore :: "int \<Rightarrow> (nat \<Rightarrow> string) \<Rightarrow> (string \<Rightarrow> string option) \<Rightarrow> pg_store" where
  "pg_NewStore now uuids parse =
     \<lparr>pg_db = empty_tables, pg_seq = (\<lambda>_. 0), pg_tx = None, pg_lockedQueue = [], pg_lockedSteps = [],
      pg_agingEnabled = True, pg_agingRate = 1 / 2, pg_defCache = [], pg_defCacheTTL = 3600 * 1000000000,
      pg_clock = now, pg_uuid = uuids, pg_uuidCount = 0, pg_parseUUID = parse\<rparr>"

definition pg_time_now :: "int pprog" where
  "pg_time_now s = (Ok (pg_clock s), s\<lparr>pg_clock := pg_clock s + 1\<rparr>)"

definition pg_new_uuid :: "string pprog" where
  "pg_new_uuid s = (Ok (pg_uuid s (pg_uuidCount s)), s\<lparr>pg_uuidCount := Suc (pg_uuidCount s)\<rparr>)"

definition micro :: "int \<Rightarrow> int" where
  "micro t = t div 1000 * 1000"

text \<open>\<open>NOW()\<close>.\<close>

definition db_now :: "pg_store \<Rightarrow> int" where
  "db_now s = micro (case pg_tx s of None \<Rightarrow> pg_clock s | Some tx \<Rightarrow> tx_start tx)"

definition nextval :: "pg_sequence \<Rightarrow> int pprog" where
  "nextval q s = (Ok (pg_seq s q + 1), s\<lparr>pg_seq := (pg_seq s)(q := pg_seq s q + 1)\<rparr>)"

definition on_db :: "(pg_tables \<Rightarrow> pg_tables) \<Rightarrow> unit pprog" where
  "on_db f = modify (\<lambda>s. s\<lparr>pg_db := f (pg_db s)\<rparr>)"

definition from_db :: "(pg_tables \<Rightarrow> 'a) \<Rightarrow> 'a pprog" where
  "from_db f = gets (\<lambda>s. f (pg_db s))"

text \<open>A constraint of the schema.\<close>

definition require :: "string \<Rightarrow> (pg_tables \<Rightarrow> bool) \<Rightarrow> unit pprog" where
  "require msg c = bnd (from_db c) (\<lambda>b. if b then ret () else throw (Errorf msg))"

definition PgErrNoRows :: goerror where
  "PgErrNoRows = Errorf ''no rows in result set''"

definition ErrTxAborted :: goerror where
  "ErrTxAborted = Errorf ''current transaction is aborted, commands ignored until end of transaction block''"

definition ErrTxCommitRollback :: goerror where
  "ErrTxCommitRollback = Errorf ''commit unexpectedly resulted in rollback''"

text \<open>
  One SQL statement, sent to the transaction of the context if there is one and to the pool otherwise
  (\<open>getExecutor\<close>).
\<close>

definition exec_sql :: "'a pprog \<Rightarrow> 'a pprog" where
  "exec_sql q s =
     (case pg_tx s of
        None \<Rightarrow>
          (case q s of
             (Ok x, t) \<Rightarrow> (Ok x, t)
           | (r, t) \<Rightarrow> (r, t\<lparr>pg_db := pg_db s\<rparr>))
      | Some tx \<Rightarrow>
          if tx_failed tx then (Err ErrTxAborted, s)
          else (case q s of
             (Ok x, t) \<Rightarrow> (Ok x, t)
           | (r, t) \<Rightarrow> (r, t\<lparr>pg_db := pg_db s, pg_tx := Some (tx\<lparr>tx_failed := True\<rparr>)\<rparr>)))"

text \<open>\<open>QueryRow(...).Scan(...)\<close> of a query; no row is an error of the client, not of the server.\<close>

definition pg_query_row :: "goerror \<Rightarrow> (pg_tables \<Rightarrow> 'a list) \<Rightarrow> 'a pprog" where
  "pg_query_row e rows =
     bnd (exec_sql (from_db rows)) (\<lambda>rs. case rs of [] \<Rightarrow> throw e | r # _ \<Rightarrow> ret r)"

text \<open>A value for a \<open>JSONB\<close> column.\<close>

definition jsonb :: "raw \<Rightarrow> unit pprog" where
  "jsonb r = (case r of RawText _ \<Rightarrow> throw (Errorf ''invalid input syntax for type json'') | _ \<Rightarrow> ret ())"

section \<open>The transaction manager\<close>

definition tx_rollback :: "pg_store \<Rightarrow> pg_store" where
  "tx_rollback s = (case pg_tx s of None \<Rightarrow> s | Some tx \<Rightarrow> s\<lparr>pg_db := tx_saved tx, pg_tx := None\<rparr>)"

definition tx_commit :: "'a \<Rightarrow> 'a pprog" where
  "tx_commit x s =
     (case pg_tx s of
        None \<Rightarrow> (Ok x, s)
      | Some tx \<Rightarrow> if tx_failed tx then (Err ErrTxCommitRollback, tx_rollback s) else (Ok x, s\<lparr>pg_tx := None\<rparr>))"

definition pg_run :: "'a pprog \<Rightarrow> 'a pprog" where
  "pg_run fn s =
     (if pg_tx s \<noteq> None then fn s
      else case fn (s\<lparr>pg_tx := Some \<lparr>tx_saved = pg_db s, tx_start = pg_clock s, tx_failed = False\<rparr>\<rparr>) of
        (Ok x, t) \<Rightarrow> tx_commit x t
      | (Err e, t) \<Rightarrow> (Err e, tx_rollback t)
      | (Panic p, t) \<Rightarrow> (Panic p, tx_rollback t)
      | (Stuck, t) \<Rightarrow> (Stuck, t))"

definition pg_ReadCommitted :: "'a pprog \<Rightarrow> 'a pprog" where
  "pg_ReadCommitted fn = pg_run fn"

definition pg_RepeatableRead :: "'a pprog \<Rightarrow> 'a pprog" where
  "pg_RepeatableRead fn = pg_run fn"

section \<open>Constraints\<close>

definition has_definition :: "string \<Rightarrow> pg_tables \<Rightarrow> bool" where
  "has_definition ident t \<longleftrightarrow> ident \<in> wd_ID ` set (t_definitions t)"

definition has_instance :: "int \<Rightarrow> pg_tables \<Rightarrow> bool" where
  "has_instance ident t \<longleftrightarrow> ident \<in> wi_ID ` set (t_instances t)"

definition has_step :: "int \<Rightarrow> pg_tables \<Rightarrow> bool" where
  "has_step ident t \<longleftrightarrow> ident \<in> ws_ID ` set (t_steps t)"

definition opt_step :: "int option \<Rightarrow> pg_tables \<Rightarrow> bool" where
  "opt_step ident t \<longleftrightarrow> set_option ident \<subseteq> ws_ID ` set (t_steps t)"

definition known_step_status :: "step_status \<Rightarrow> bool" where
  "known_step_status st \<longleftrightarrow> (case st of StepStatusOther _ \<Rightarrow> False | _ \<Rightarrow> True)"

definition known_step_type :: "step_type \<Rightarrow> bool" where
  "known_step_type ty \<longleftrightarrow> (case ty of StepTypeOther _ \<Rightarrow> False | _ \<Rightarrow> True)"

definition known_decision :: "human_decision \<Rightarrow> bool" where
  "known_decision d \<longleftrightarrow> (case d of HumanDecisionOther _ \<Rightarrow> False | _ \<Rightarrow> True)"

definition fk_instance :: "int \<Rightarrow> unit pprog" where
  "fk_instance ident = require ''violates foreign key constraint: instance_id'' (has_instance ident)"

definition fk_step :: "int option \<Rightarrow> unit pprog" where
  "fk_step ident = require ''violates foreign key constraint: step_id'' (opt_step ident)"

definition fk_definition :: "string \<Rightarrow> unit pprog" where
  "fk_definition ident = require ''violates foreign key constraint: workflow_id'' (has_definition ident)"

definition check_step_status :: "step_status \<Rightarrow> unit pprog" where
  "check_step_status st = require ''violates check constraint: workflow_steps_status_check'' (\<lambda>_. known_step_status st)"

section \<open>Settings and the definition cache\<close>

definition pg_SetAgingEnabled :: "bool \<Rightarrow> unit pprog" where
  "pg_SetAgingEnabled enabled = modify (\<lambda>s. s\<lparr>pg_agingEnabled := enabled\<rparr>)"

definition pg_SetAgingRate :: "rat \<Rightarrow> unit pprog" where
  "pg_SetAgingRate rate = modify (\<lambda>s. s\<lparr>pg_agingRate := rate\<rparr>)"

definition pg_ClearDefinitionCache :: "unit pprog" where
  "pg_ClearDefinitionCache = modify (\<lambda>s. s\<lparr>pg_defCache := []\<rparr>)"

definition pg_SetDefinitionCacheTTL :: "int \<Rightarrow> unit pprog" where
  "pg_SetDefinitionCacheTTL ttl =
     thn (modify (\<lambda>s. s\<lparr>pg_defCacheTTL := ttl\<rparr>)) (when_true (ttl = 0) pg_ClearDefinitionCache)"

definition pg_InvalidateDefinitionCache :: "string \<Rightarrow> unit pprog" where
  "pg_InvalidateDefinitionCache ident = modify (\<lambda>s. s\<lparr>pg_defCache := AList.delete ident (pg_defCache s)\<rparr>)"

text \<open>
  A nil pointer is \<open>None\<close>.  The statement returns the identifier and creation time of the row, new or old, which
  the code writes into the caller's definition.
\<close>

definition same_version :: "workflow_definition \<Rightarrow> workflow_definition \<Rightarrow> bool" where
  "same_version def d \<longleftrightarrow> wd_Name d = wd_Name def \<and> wd_Version d = wd_Version def"

definition upsert_definition :: "workflow_definition \<Rightarrow> int \<Rightarrow> (string \<times> int) pprog" where
  "upsert_definition def now =
     bnd (from_db (\<lambda>t. find (same_version def) (t_definitions t))) (\<lambda>old.
     case old of
       Some d \<Rightarrow>
         thn (on_db (\<lambda>t. t\<lparr>t_definitions := update_rows (same_version def)
                (\<lambda>d. d\<lparr>wd_Definition := wd_Definition def\<rparr>) (t_definitions t)\<rparr>))
         (ret (wd_ID d, wd_CreatedAt d))
     | None \<Rightarrow>
         thn (require ''duplicate key value violates unique constraint: workflow_definitions_pkey''
                (\<lambda>t. \<not> has_definition (wd_ID def) t))
        (thn (on_db (\<lambda>t. t\<lparr>t_definitions := t_definitions t @ [def\<lparr>wd_CreatedAt := now\<rparr>]\<rparr>))
         (ret (wd_ID def, now))))"

definition pg_SaveWorkflowDefinition :: "workflow_definition option \<Rightarrow> workflow_definition pprog" where
  "pg_SaveWorkflowDefinition arg =
     (case arg of
        None \<Rightarrow> throw (Errorf ''workflow definition is nil'')
      | Some def \<Rightarrow>
          bnd pg_time_now (\<lambda>now.
          bnd (exec_sql (upsert_definition def (micro now))) (\<lambda>(ident, created).
          thn (pg_InvalidateDefinitionCache ident)
          (ret (def\<lparr>wd_ID := ident, wd_CreatedAt := created\<rparr>)))))"

text \<open>The cached entry, if caching is on and the entry has not expired; an expired entry is dropped.\<close>

definition cached_definition :: "string \<Rightarrow> workflow_definition option pprog" where
  "cached_definition ident =
     bnd (gets (\<lambda>s. if pg_defCacheTTL s > 0 then map_of (pg_defCache s) ident else None)) (\<lambda>entry.
     case entry of
       None \<Rightarrow> ret None
     | Some e \<Rightarrow>
         bnd pg_time_now (\<lambda>now.
         if now < ce_expiresAt e then ret (Some (ce_def e))
         else thn (pg_InvalidateDefinitionCache ident) (ret None)))"

definition pg_GetWorkflowDefinition :: "string \<Rightarrow> workflow_definition pprog" where
  "pg_GetWorkflowDefinition ident =
     bnd (cached_definition ident) (\<lambda>hit.
     case hit of
       Some def \<Rightarrow> ret def
     | None \<Rightarrow>
         bnd (pg_query_row ErrEntityNotFound (\<lambda>t. filter (\<lambda>d. wd_ID d = ident) (t_definitions t))) (\<lambda>def.
         bnd (gets pg_defCacheTTL) (\<lambda>ttl.
         thn (when_true (ttl > 0)
                (bnd pg_time_now (\<lambda>now.
                 modify (\<lambda>s. s\<lparr>pg_defCache := AList.update ident
                   \<lparr>ce_def = def, ce_expiresAt = now + ttl\<rparr> (pg_defCache s)\<rparr>))))
         (ret def))))"

section \<open>Instances\<close>

definition pg_CreateInstance :: "string \<Rightarrow> raw \<Rightarrow> workflow_instance pprog" where
  "pg_CreateInstance workflowID input =
     bnd pg_time_now (\<lambda>now.
     exec_sql
       (bnd (nextval InstanceSeq) (\<lambda>ident.
        thn (jsonb input)
       (thn (fk_definition workflowID)
        (let inst = \<lparr>wi_ID = ident, wi_WorkflowID = workflowID, wi_Status = StatusPending, wi_Input = input,
               wi_Output = RawNil, wi_Error = None, wi_StartedAt = None, wi_CompletedAt = None,
               wi_CreatedAt = micro now, wi_UpdatedAt = micro now\<rparr>
         in thn (on_db (\<lambda>t. t\<lparr>t_instances := t_instances t @ [inst]\<rparr>)) (ret inst))))))"

text \<open>An update of instances; the trigger of the table sets \<open>updated_at\<close> to \<open>NOW()\<close>.\<close>

definition pg_update_instances :: "(workflow_instance \<Rightarrow> bool) \<Rightarrow> (workflow_instance \<Rightarrow> workflow_instance) \<Rightarrow> unit pprog" where
  "pg_update_instances p f =
     bnd (gets db_now) (\<lambda>now.
     on_db (\<lambda>t. t\<lparr>t_instances := update_rows p (\<lambda>i. (f i)\<lparr>wi_UpdatedAt := now\<rparr>) (t_instances t)\<rparr>))"

definition pg_UpdateInstanceStatus :: "int \<Rightarrow> workflow_status \<Rightarrow> raw \<Rightarrow> string option \<Rightarrow> unit pprog" where
  "pg_UpdateInstanceStatus instanceID status output errMsg =
     bnd pg_time_now (\<lambda>now.
     exec_sql (thn (jsonb output)
       (pg_update_instances (\<lambda>i. wi_ID i = instanceID)
         (\<lambda>i. i\<lparr>wi_Status := status, wi_Output := output, wi_Error := errMsg,
            wi_CompletedAt := (if status \<in> {StatusCompleted, StatusFailed, StatusCancelled} then Some (micro now)
                               else wi_CompletedAt i),
            wi_StartedAt := (if wi_StartedAt i = None \<and> status = StatusRunning then Some (micro now)
                             else wi_StartedAt i)\<rparr>))))"

definition pg_GetInstance :: "int \<Rightarrow> workflow_instance pprog" where
  "pg_GetInstance instanceID =
     pg_query_row ErrEntityNotFound (\<lambda>t. filter (\<lambda>i. wi_ID i = instanceID) (t_instances t))"

section \<open>Steps\<close>

text \<open>The columns that the insert does not name take their defaults.\<close>

definition pg_CreateStep :: "workflow_step option \<Rightarrow> workflow_step pprog" where
  "pg_CreateStep arg =
     (case arg of
        None \<Rightarrow> throw (Errorf ''workflow step is nil'')
      | Some st0 \<Rightarrow>
          bnd (if ws_IdempotencyKey st0 = [] then pg_new_uuid else ret (ws_IdempotencyKey st0)) (\<lambda>key.
          bnd pg_time_now (\<lambda>now.
          exec_sql
            (bnd (nextval StepSeq) (\<lambda>ident.
             bnd (gets (\<lambda>s. pg_parseUUID s key)) (\<lambda>uuid.
             case uuid of
               None \<Rightarrow> throw (Errorf ''invalid input syntax for type uuid'')
             | Some u \<Rightarrow>
                 let st = st0\<lparr>ws_ID := ident, ws_CreatedAt := micro now, ws_IdempotencyKey := key\<rparr>
                 in thn (jsonb (ws_Input st))
                   (thn (check_step_status (ws_Status st))
                   (thn (require ''violates check constraint: workflow_steps_step_type_check''
                          (\<lambda>_. known_step_type (ws_StepType st)))
                   (thn (fk_instance (ws_InstanceID st))
                   (thn (on_db (\<lambda>t. t\<lparr>t_steps := t_steps t @
                          [st\<lparr>ws_IdempotencyKey := u, ws_Output := RawNil, ws_Error := None, ws_RetryCount := 0,
                             ws_CompensationRetryCount := 0, ws_StartedAt := None, ws_CompletedAt := None\<rparr>]\<rparr>))
                    (ret st)))))))))))"

definition pg_update_steps :: "(workflow_step \<Rightarrow> bool) \<Rightarrow> (workflow_step \<Rightarrow> workflow_step) \<Rightarrow> unit pprog" where
  "pg_update_steps p f = on_db (\<lambda>t. t\<lparr>t_steps := update_rows p f (t_steps t)\<rparr>)"

text \<open>A check on the new status is made for the rows that are updated.\<close>

definition pg_set_status :: "int \<Rightarrow> step_status \<Rightarrow> (workflow_step \<Rightarrow> workflow_step) \<Rightarrow> unit pprog" where
  "pg_set_status stepID status f =
     thn (require ''violates check constraint: workflow_steps_status_check''
            (\<lambda>t. has_step stepID t \<longrightarrow> known_step_status status))
     (pg_update_steps (\<lambda>st. ws_ID st = stepID) (\<lambda>st. (f st)\<lparr>ws_Status := status\<rparr>))"

definition pg_UpdateStep :: "int \<Rightarrow> step_status \<Rightarrow> raw \<Rightarrow> string option \<Rightarrow> unit pprog" where
  "pg_UpdateStep stepID status output errMsg =
     bnd pg_time_now (\<lambda>now.
     exec_sql (thn (jsonb output)
       (pg_set_status stepID status (\<lambda>st. st\<lparr>ws_Output := output, ws_Error := errMsg,
          ws_CompletedAt := (if status \<in> {StepStatusCompleted, StepStatusFailed, StepStatusSkipped}
                             then Some (micro now) else ws_CompletedAt st),
          ws_StartedAt := (if ws_StartedAt st = None \<and> status = StepStatusRunning then Some (micro now)
                           else ws_StartedAt st),
          ws_RetryCount := (if status = StepStatusFailed then ws_RetryCount st + 1 else ws_RetryCount st)\<rparr>))))"

definition pg_UpdateStepStatus :: "int \<Rightarrow> step_status \<Rightarrow> unit pprog" where
  "pg_UpdateStepStatus stepID status = exec_sql (pg_set_status stepID status (\<lambda>st. st))"

definition pg_UpdateStepCompensationRetry :: "int \<Rightarrow> int \<Rightarrow> step_status \<Rightarrow> unit pprog" where
  "pg_UpdateStepCompensationRetry stepID retryCount status =
     exec_sql (pg_set_status stepID status (\<lambda>st. st\<lparr>ws_CompensationRetryCount := retryCount\<rparr>))"

definition pg_steps_of :: "int \<Rightarrow> pg_tables \<Rightarrow> workflow_step list" where
  "pg_steps_of instanceID t = filter (\<lambda>st. ws_InstanceID st = instanceID) (t_steps t)"

text \<open>Two listings leave out a column each, which then has the zero value in the result.\<close>

definition pg_GetStepsByInstance :: "int \<Rightarrow> workflow_step list pprog" where
  "pg_GetStepsByInstance instanceID =
     exec_sql (from_db (\<lambda>t. map (\<lambda>st. st\<lparr>ws_CompensationRetryCount := 0\<rparr>)
       (sort_key ws_CreatedAt (pg_steps_of instanceID t))))"

definition pg_GetWorkflowSteps :: "int \<Rightarrow> workflow_step list pprog" where
  "pg_GetWorkflowSteps instanceID =
     exec_sql (from_db (\<lambda>t. map (\<lambda>st. st\<lparr>ws_IdempotencyKey := []\<rparr>)
       (sort_key ws_CreatedAt (pg_steps_of instanceID t))))"

definition pg_GetActiveStepsForUpdate :: "int \<Rightarrow> workflow_step list pprog" where
  "pg_GetActiveStepsForUpdate instanceID =
     exec_sql (gets (\<lambda>s. sort_key (\<lambda>st. - ws_CreatedAt st)
       (filter (\<lambda>st. step_is_active st \<and> ws_ID st \<notin> set (pg_lockedSteps s)) (pg_steps_of instanceID (pg_db s)))))"

definition pg_GetStepByID :: "int \<Rightarrow> workflow_step pprog" where
  "pg_GetStepByID stepID = pg_query_row ErrEntityNotFound (\<lambda>t. filter (\<lambda>st. ws_ID st = stepID) (t_steps t))"

definition pg_GetHumanDecisionStepByInstanceID :: "int \<Rightarrow> workflow_step pprog" where
  "pg_GetHumanDecisionStepByInstanceID instanceID =
     pg_query_row ErrEntityNotFound (\<lambda>t. sort_key (\<lambda>st. - ws_CreatedAt st)
       (filter (\<lambda>st. ws_StepType st = StepTypeHuman) (pg_steps_of instanceID t)))"

section \<open>The queue\<close>

definition pg_enqueue :: "int \<Rightarrow> int option \<Rightarrow> int \<Rightarrow> int \<Rightarrow> unit pprog" where
  "pg_enqueue instanceID stepID scheduledAt priority =
     bnd (nextval QueueSeq) (\<lambda>ident.
     thn (fk_instance instanceID)
    (thn (fk_step stepID)
     (on_db (\<lambda>t. t\<lparr>t_queue := t_queue t @
       [\<lparr>qi_ID = ident, qi_InstanceID = instanceID, qi_StepID = stepID, qi_ScheduledAt = scheduledAt,
         qi_AttemptedAt = None, qi_AttemptedBy = None, qi_Priority = priority\<rparr>]\<rparr>))))"

definition pg_EnqueueStep :: "int \<Rightarrow> int option \<Rightarrow> int \<Rightarrow> int \<Rightarrow> unit pprog" where
  "pg_EnqueueStep instanceID stepID priority delay =
     bnd pg_time_now (\<lambda>now. exec_sql (pg_enqueue instanceID stepID (micro (now + delay)) priority))"

text \<open>The two queries differ in the order only; the aging rate is taken as an exact number.\<close>

definition pg_effective_priority :: "bool \<Rightarrow> rat \<Rightarrow> int \<Rightarrow> queue_item \<Rightarrow> int" where
  "pg_effective_priority agingEnabled agingRate now item =
     (if agingEnabled \<and> agingRate > 0
      then min 100 (qi_Priority item + \<lfloor>of_int (now - qi_ScheduledAt item) / 1000000000 * agingRate\<rfloor>)
      else qi_Priority item)"

definition pg_due :: "int list \<Rightarrow> int \<Rightarrow> queue_item \<Rightarrow> bool" where
  "pg_due locked now item \<longleftrightarrow>
     qi_ScheduledAt item \<le> now \<and> qi_AttemptedAt item = None \<and> qi_ID item \<notin> set locked"

definition pg_next_item :: "(queue_item \<Rightarrow> int) \<Rightarrow> int list \<Rightarrow> int \<Rightarrow> queue_item list \<Rightarrow> queue_item list" where
  "pg_next_item prio locked now rows =
     take 1 (sort_key (\<lambda>item. (- prio item, qi_ScheduledAt item)) (filter (pg_due locked now) rows))"

definition pg_DequeueStep :: "string \<Rightarrow> queue_item option pprog" where
  "pg_DequeueStep workerID =
     bnd pg_time_now (\<lambda>t.
     let now = micro t in
     exec_sql
       (bnd (gets (\<lambda>s. pg_next_item (pg_effective_priority (pg_agingEnabled s) (pg_agingRate s) now)
              (pg_lockedQueue s) now (t_queue (pg_db s)))) (\<lambda>next_item.
        case next_item of
          [] \<Rightarrow> ret None
        | item # _ \<Rightarrow>
            let claim = (\<lambda>q. q\<lparr>qi_AttemptedAt := Some now, qi_AttemptedBy := Some workerID\<rparr>)
            in thn (on_db (\<lambda>t. t\<lparr>t_queue := update_rows (\<lambda>q. qi_ID q = qi_ID item) claim (t_queue t)\<rparr>))
               (ret (Some (claim item))))))"

definition pg_RemoveFromQueue :: "int \<Rightarrow> unit pprog" where
  "pg_RemoveFromQueue queueID =
     exec_sql (on_db (\<lambda>t. t\<lparr>t_queue := filter (\<lambda>q. qi_ID q \<noteq> queueID) (t_queue t)\<rparr>))"

definition pg_ReleaseQueueItem :: "int \<Rightarrow> unit pprog" where
  "pg_ReleaseQueueItem queueID =
     exec_sql (on_db (\<lambda>t. t\<lparr>t_queue := update_rows (\<lambda>q. qi_ID q = queueID)
       (\<lambda>q. q\<lparr>qi_AttemptedAt := None, qi_AttemptedBy := None\<rparr>) (t_queue t)\<rparr>))"

definition pg_RescheduleAndReleaseQueueItem :: "int \<Rightarrow> int \<Rightarrow> unit pprog" where
  "pg_RescheduleAndReleaseQueueItem queueID delay =
     bnd pg_time_now (\<lambda>now.
     exec_sql (on_db (\<lambda>t. t\<lparr>t_queue := update_rows (\<lambda>q. qi_ID q = queueID)
       (\<lambda>q. q\<lparr>qi_ScheduledAt := max (qi_ScheduledAt q) (micro (now + delay)), qi_AttemptedAt := None,
            qi_AttemptedBy := None\<rparr>) (t_queue t)\<rparr>)))"

section \<open>Events\<close>

definition pg_LogEvent :: "int \<Rightarrow> int option \<Rightarrow> string \<Rightarrow> goerror + json \<Rightarrow> unit pprog" where
  "pg_LogEvent instanceID stepID eventType payload =
     (case payload of
        Inl e \<Rightarrow> throw e
      | Inr doc \<Rightarrow>
          bnd pg_time_now (\<lambda>now.
          exec_sql
            (bnd (nextval EventSeq) (\<lambda>ident.
             thn (fk_instance instanceID)
            (thn (fk_step stepID)
             (on_db (\<lambda>t. t\<lparr>t_events := t_events t @
               [\<lparr>we_ID = ident, we_InstanceID = instanceID, we_StepID = stepID, we_EventType = eventType,
                 we_Payload = doc, we_CreatedAt = micro now\<rparr>]\<rparr>)))))))"

definition pg_GetWorkflowEvents :: "int \<Rightarrow> workflow_event list pprog" where
  "pg_GetWorkflowEvents instanceID =
     exec_sql (from_db (\<lambda>t. sort_key we_CreatedAt (filter (\<lambda>ev. we_InstanceID ev = instanceID) (t_events t))))"

section \<open>Join states\<close>

definition pg_find_join :: "int \<Rightarrow> string \<Rightarrow> pg_tables \<Rightarrow> join_state option" where
  "pg_find_join instanceID joinStepName t = find (join_row instanceID joinStepName) (t_joins t)"

definition pg_CreateJoinState :: "int \<Rightarrow> string \<Rightarrow> string list \<Rightarrow> join_strategy \<Rightarrow> unit pprog" where
  "pg_CreateJoinState instanceID joinStepName waitingFor strategy0 =
     (let strategy = (if strategy0 = JoinStrategyOther [] then JoinStrategyAll else strategy0)
      in bnd pg_time_now (\<lambda>now.
         exec_sql
           (bnd (from_db (pg_find_join instanceID joinStepName)) (\<lambda>old.
            if old \<noteq> None then ret ()
            else thn (fk_instance instanceID)
              (on_db (\<lambda>t. t\<lparr>t_joins := t_joins t @
                [\<lparr>js_InstanceID = instanceID, js_JoinStepName = joinStepName, js_WaitingFor = waitingFor,
                  js_Completed = [], js_Failed = [], js_JoinStrategy = strategy, js_IsReady = False,
                  js_CreatedAt = micro now, js_UpdatedAt = micro now\<rparr>]\<rparr>))))))"

text \<open>The update that ends each of the three operations below writes the lists they worked out.\<close>

definition pg_update_join :: "int \<Rightarrow> string \<Rightarrow> (join_state \<Rightarrow> join_state) \<Rightarrow> unit pprog" where
  "pg_update_join instanceID joinStepName f =
     exec_sql (on_db (\<lambda>t. t\<lparr>t_joins := update_rows (join_row instanceID joinStepName) f (t_joins t)\<rparr>))"

definition pg_UpdateJoinState :: "int \<Rightarrow> string \<Rightarrow> string \<Rightarrow> bool \<Rightarrow> bool pprog" where
  "pg_UpdateJoinState instanceID joinStepName completedStep success =
     bnd (exec_sql (from_db (pg_find_join instanceID joinStepName))) (\<lambda>row.
     case row of
       None \<Rightarrow> throw PgErrNoRows
     | Some js \<Rightarrow>
         bnd pg_time_now (\<lambda>now.
         let js' = refresh_ready (micro now)
               (if success then mark_success completedStep js else mark_failure completedStep js)
         in thn (pg_update_join instanceID joinStepName (\<lambda>r. r\<lparr>js_Completed := js_Completed js',
                   js_Failed := js_Failed js', js_IsReady := js_IsReady js', js_UpdatedAt := js_UpdatedAt js'\<rparr>))
            (ret (js_IsReady js'))))"

definition pg_GetJoinState :: "int \<Rightarrow> string \<Rightarrow> join_state pprog" where
  "pg_GetJoinState instanceID joinStepName =
     bnd (exec_sql (from_db (pg_find_join instanceID joinStepName))) (\<lambda>row.
     case row of None \<Rightarrow> throw ErrEntityNotFound | Some js \<Rightarrow> ret js)"

definition pg_AddToJoinWaitFor :: "int \<Rightarrow> string \<Rightarrow> string \<Rightarrow> unit pprog" where
  "pg_AddToJoinWaitFor instanceID joinStepName stepToAdd =
     bnd (exec_sql (from_db (pg_find_join instanceID joinStepName))) (\<lambda>row.
     case row of
       None \<Rightarrow> pg_CreateJoinState instanceID joinStepName [stepToAdd] JoinStrategyAll
     | Some js \<Rightarrow>
         if stepToAdd \<in> set (js_WaitingFor js) then ret ()
         else bnd pg_time_now (\<lambda>now.
           let js' = refresh_ready (micro now) (js\<lparr>js_WaitingFor := js_WaitingFor js @ [stepToAdd]\<rparr>)
           in pg_update_join instanceID joinStepName (\<lambda>r. r\<lparr>js_WaitingFor := js_WaitingFor js',
                js_IsReady := js_IsReady js', js_UpdatedAt := js_UpdatedAt js'\<rparr>)))"

text \<open>
  The status of the latest step with the name decides; the error of that query is dropped, as if there were no such step.
\<close>

definition pg_ReplaceInJoinWaitFor :: "int \<Rightarrow> string \<Rightarrow> string \<Rightarrow> string \<Rightarrow> unit pprog" where
  "pg_ReplaceInJoinWaitFor instanceID joinStepName virtualStep realStep =
     bnd (exec_sql (from_db (pg_find_join instanceID joinStepName))) (\<lambda>row.
     case row of
       None \<Rightarrow> pg_CreateJoinState instanceID joinStepName [realStep] JoinStrategyAll
     | Some js \<Rightarrow>
         bnd (attempt (exec_sql (from_db (\<lambda>t. sort_key (\<lambda>st. - ws_CreatedAt st)
                (filter (\<lambda>st. ws_StepName st = realStep) (pg_steps_of instanceID t)))))) (\<lambda>found.
         bnd pg_time_now (\<lambda>now.
         let sts = (case found of Inl _ \<Rightarrow> [] | Inr sts \<Rightarrow> sts);
             js' = refresh_ready (micro now) (absorb_status realStep sts
               (js\<lparr>js_WaitingFor := replace_or_append virtualStep realStep (js_WaitingFor js)\<rparr>))
         in pg_update_join instanceID joinStepName (\<lambda>r. r\<lparr>js_WaitingFor := js_WaitingFor js',
              js_Completed := js_Completed js', js_Failed := js_Failed js', js_IsReady := js_IsReady js',
              js_UpdatedAt := js_UpdatedAt js'\<rparr>))))"

section \<open>Cancel requests and human decisions\<close>

text \<open>With a request for the instance the insert does nothing and returns no row, which the scan reports as an error.\<close>

definition pg_CreateCancelRequest :: "cancel_request option \<Rightarrow> cancel_request pprog" where
  "pg_CreateCancelRequest arg =
     (case arg of
        None \<Rightarrow> throw (Errorf ''cancel request is nil'')
      | Some req0 \<Rightarrow>
          bnd pg_time_now (\<lambda>now.
          bnd (exec_sql
            (bnd (nextval CancelSeq) (\<lambda>ident.
             bnd (from_db (\<lambda>t. find (\<lambda>r. cr_InstanceID r = cr_InstanceID req0) (t_cancels t))) (\<lambda>old.
             if old \<noteq> None then ret None
             else let req = req0\<lparr>cr_ID := ident, cr_CreatedAt := micro now\<rparr>
               in thn (fk_instance (cr_InstanceID req0))
                 (thn (on_db (\<lambda>t. t\<lparr>t_cancels := t_cancels t @ [req]\<rparr>)) (ret (Some req))))))) (\<lambda>row.
          case row of None \<Rightarrow> throw PgErrNoRows | Some req \<Rightarrow> ret req)))"

definition pg_GetCancelRequest :: "int \<Rightarrow> cancel_request pprog" where
  "pg_GetCancelRequest instanceID =
     pg_query_row ErrEntityNotFound (\<lambda>t. filter (\<lambda>r. cr_InstanceID r = instanceID) (t_cancels t))"

definition pg_DeleteCancelRequest :: "int \<Rightarrow> unit pprog" where
  "pg_DeleteCancelRequest instanceID =
     exec_sql (on_db (\<lambda>t. t\<lparr>t_cancels := filter (\<lambda>r. cr_InstanceID r \<noteq> instanceID) (t_cancels t)\<rparr>))"

definition pg_CreateHumanDecision :: "human_decision_record option \<Rightarrow> human_decision_record pprog" where
  "pg_CreateHumanDecision arg =
     (case arg of
        None \<Rightarrow> throw (Errorf ''human decision is nil'')
      | Some d0 \<Rightarrow>
          bnd pg_time_now (\<lambda>now.
          exec_sql
            (bnd (nextval DecisionSeq) (\<lambda>ident.
             let d = d0\<lparr>hd_ID := ident, hd_CreatedAt := micro now\<rparr>
             in thn (require ''violates check constraint: workflow_human_decisions_decision_check''
                      (\<lambda>_. known_decision (hd_Decision d)))
               (thn (require ''duplicate key value violates unique constraint: step_id, decided_by''
                      (\<lambda>t. \<forall>r \<in> set (t_decisions t). \<not> (hd_StepID r = hd_StepID d \<and> hd_DecidedBy r = hd_DecidedBy d)))
               (thn (fk_instance (hd_InstanceID d))
               (thn (fk_step (Some (hd_StepID d)))
               (thn (on_db (\<lambda>t. t\<lparr>t_decisions := t_decisions t @ [d\<lparr>hd_DecidedAt := micro (hd_DecidedAt d)\<rparr>]\<rparr>))
                (ret d)))))))))"

definition pg_GetHumanDecision :: "int \<Rightarrow> human_decision_record pprog" where
  "pg_GetHumanDecision stepID =
     pg_query_row ErrEntityNotFound (\<lambda>t. filter (\<lambda>d. hd_StepID d = stepID) (t_decisions t))"

section \<open>Dead letters\<close>

definition pg_CreateDeadLetterRecord :: "dead_letter_record option \<Rightarrow> unit pprog" where
  "pg_CreateDeadLetterRecord arg =
     (case arg of
        None \<Rightarrow> throw (Errorf ''dead letter record is nil'')
      | Some rec \<Rightarrow>
          exec_sql
            (bnd (nextval LetterSeq) (\<lambda>ident.
             bnd (gets db_now) (\<lambda>now.
             thn (jsonb (dl_Input rec))
            (thn (fk_instance (dl_InstanceID rec))
            (thn (fk_definition (dl_WorkflowID rec))
            (thn (fk_step (Some (dl_StepID rec)))
             (on_db (\<lambda>t. t\<lparr>t_letters := t_letters t @ [rec\<lparr>dl_ID := ident, dl_CreatedAt := now\<rparr>]\<rparr>)))))))))"

text \<open>
  One statement of common table expressions, which all see the tables as they were before it: the step of the letter
  is reset, with \<open>COALESCE\<close> of the new input, the letter's and its own; it is queued with the defaults of the queue
  table; a failed or dead instance runs again; its paused joins are pending again; the letter is deleted.
  The step itself is reset only, also when it is a paused join.
\<close>

definition coalesce_input :: "raw option \<Rightarrow> raw \<Rightarrow> raw option" where
  "coalesce_input newInput old =
     (case newInput of
        Some inp \<Rightarrow> if inp \<noteq> RawNil then Some inp else if old \<noteq> RawNil then Some old else None
      | None \<Rightarrow> if old \<noteq> RawNil then Some old else None)"

definition requeue_step :: "workflow_step \<Rightarrow> raw option \<Rightarrow> workflow_step \<Rightarrow> workflow_step" where
  "requeue_step target input st =
     (if ws_ID st = ws_ID target then reset_step input st
      else if ws_InstanceID st = ws_InstanceID target then resume_join st else st)"

definition pg_RequeueDeadLetter :: "int \<Rightarrow> raw option \<Rightarrow> unit pprog" where
  "pg_RequeueDeadLetter dlqID newInput =
     exec_sql
       (thn (case newInput of None \<Rightarrow> ret () | Some inp \<Rightarrow> jsonb inp)
       (bnd (from_db (\<lambda>t. find (\<lambda>r. dl_ID r = dlqID) (t_letters t))) (\<lambda>dlq.
        case dlq of
          None \<Rightarrow> ret ()
        | Some rec \<Rightarrow>
            bnd (from_db (\<lambda>t. find (\<lambda>st. ws_ID st = dl_StepID rec) (t_steps t))) (\<lambda>upd_step.
            thn (case upd_step of
                   None \<Rightarrow> ret ()
                 | Some target \<Rightarrow>
                     bnd (gets db_now) (\<lambda>now.
                     thn (pg_update_steps (\<lambda>_. True) (requeue_step target (coalesce_input newInput (dl_Input rec))))
                    (thn (pg_enqueue (ws_InstanceID target) (Some (ws_ID target)) now 0)
                     (pg_update_instances
                       (\<lambda>i. wi_ID i = ws_InstanceID target \<and> wi_Status i \<in> {StatusFailed, StatusDLQ})
                       (\<lambda>i. i\<lparr>wi_Status := StatusRunning, wi_Error := None\<rparr>)))))
            (on_db (\<lambda>t. t\<lparr>t_letters := filter (\<lambda>r. dl_ID r \<noteq> dlqID) (t_letters t)\<rparr>))))))"

text \<open>\<open>OFFSET\<close> and \<open>LIMIT\<close>: a negative number is an error.\<close>

definition pg_page :: "int \<Rightarrow> int \<Rightarrow> (pg_tables \<Rightarrow> 'a list) \<Rightarrow> 'a list pprog" where
  "pg_page limit offset rows =
     thn (require ''LIMIT must not be negative'' (\<lambda>_. 0 \<le> limit))
    (thn (require ''OFFSET must not be negative'' (\<lambda>_. 0 \<le> offset))
     (from_db (\<lambda>t. take (nat limit) (drop (nat offset) (rows t)))))"

definition pg_ListDeadLetters :: "int \<Rightarrow> int \<Rightarrow> (dead_letter_record list \<times> int) pprog" where
  "pg_ListDeadLetters offset limit =
     bnd (exec_sql (from_db (\<lambda>t. int (length (t_letters t))))) (\<lambda>total.
     bnd (exec_sql (pg_page limit offset (\<lambda>t. sort_key (\<lambda>r. - dl_CreatedAt r) (t_letters t)))) (\<lambda>records.
     ret (records, total)))"

definition pg_GetDeadLetterByID :: "int \<Rightarrow> dead_letter_record pprog" where
  "pg_GetDeadLetterByID ident =
     pg_query_row ErrEntityNotFound (\<lambda>t. filter (\<lambda>r. dl_ID r = ident) (t_letters t))"

definition pg_PauseActiveStepsAndClearQueue :: "int \<Rightarrow> unit pprog" where
  "pg_PauseActiveStepsAndClearQueue instanceID =
     thn (exec_sql (pg_update_steps (\<lambda>st. ws_InstanceID st = instanceID) pause_running))
     (exec_sql (on_db (\<lambda>t. t\<lparr>t_queue := filter (\<lambda>q. qi_InstanceID q \<noteq> instanceID) (t_queue t)\<rparr>)))"

section \<open>Listings and statistics\<close>

text \<open>The rows of the view \<open>active_workflows\<close>.\<close>

definition active_rows :: "pg_tables \<Rightarrow> workflow_instance list" where
  "active_rows t = filter is_listed_active (t_instances t)"

definition pg_GetSummaryStats :: "summary_stats pprog" where
  "pg_GetSummaryStats =
     bnd (exec_sql (from_db t_instances)) (\<lambda>is.
     bnd (exec_sql (from_db (\<lambda>t. length (active_rows t)))) (\<lambda>active.
     ret \<lparr>ss_TotalWorkflows = length is, ss_CompletedWorkflows = count_status StatusCompleted is,
       ss_FailedWorkflows = count_status StatusFailed is, ss_RunningWorkflows = count_status StatusRunning is,
       ss_PendingWorkflows = count_status StatusPending is, ss_ActiveWorkflows = active\<rparr>))"

text \<open>An inner join: an instance without a definition would be left out.\<close>

definition pg_active_instance :: "pg_tables \<Rightarrow> workflow_instance \<Rightarrow> active_instance list" where
  "pg_active_instance t i =
     (let sts = pg_steps_of (wi_ID i) t in
      map (\<lambda>d. \<lparr>ai_ID = wi_ID i, ai_WorkflowID = wi_WorkflowID i, ai_WorkflowName = wd_Name d,
             ai_Status = workflow_status_text (wi_Status i), ai_StartedAt = wi_CreatedAt i, ai_UpdatedAt = wi_UpdatedAt i,
             ai_CurrentStep = (case find (\<lambda>st. ws_Status st = StepStatusRunning) sts of
                None \<Rightarrow> [] | Some st \<Rightarrow> ws_StepName st),
             ai_TotalSteps = int (length sts), ai_CompletedSteps = count_steps StepStatusCompleted sts,
             ai_RolledBackSteps = count_steps StepStatusRolledBack sts\<rparr>)
        (filter (\<lambda>d. wd_ID d = wi_WorkflowID i) (t_definitions t)))"

definition pg_GetActiveInstances :: "active_instance list pprog" where
  "pg_GetActiveInstances =
     exec_sql (from_db (\<lambda>t. concat (map (pg_active_instance t) (by_created_desc (active_rows t)))))"

definition pg_GetWorkflowDefinitions :: "workflow_definition list pprog" where
  "pg_GetWorkflowDefinitions =
     exec_sql (from_db (\<lambda>t. sort_key (\<lambda>d. (wd_Name d, - wd_Version d)) (t_definitions t)))"

definition pg_instances_of :: "string \<Rightarrow> pg_tables \<Rightarrow> workflow_instance list" where
  "pg_instances_of workflowID t = filter (\<lambda>i. wi_WorkflowID i = workflowID) (t_instances t)"

definition pg_GetWorkflowInstances :: "string \<Rightarrow> workflow_instance list pprog" where
  "pg_GetWorkflowInstances workflowID = exec_sql (from_db (\<lambda>t. by_created_desc (pg_instances_of workflowID t)))"

definition pg_GetAllWorkflowInstances :: "workflow_instance list pprog" where
  "pg_GetAllWorkflowInstances = exec_sql (from_db (\<lambda>t. by_created_desc (t_instances t)))"

definition pg_GetWorkflowInstancesPaginated :: "string \<Rightarrow> int \<Rightarrow> int \<Rightarrow> (workflow_instance list \<times> int) pprog" where
  "pg_GetWorkflowInstancesPaginated workflowID offset limit =
     bnd (exec_sql (from_db (\<lambda>t. int (length (pg_instances_of workflowID t))))) (\<lambda>total.
     bnd (exec_sql (pg_page limit offset (\<lambda>t. by_created_desc (pg_instances_of workflowID t)))) (\<lambda>instances.
     ret (instances, total)))"

definition pg_GetAllWorkflowInstancesPaginated :: "int \<Rightarrow> int \<Rightarrow> (workflow_instance list \<times> int) pprog" where
  "pg_GetAllWorkflowInstancesPaginated offset limit =
     bnd (exec_sql (from_db (\<lambda>t. int (length (t_instances t))))) (\<lambda>total.
     bnd (exec_sql (pg_page limit offset (\<lambda>t. by_created_desc (t_instances t)))) (\<lambda>instances.
     ret (instances, total)))"

text \<open>
  The view \<open>workflow_stats\<close>; the average duration is \<open>NULL\<close>, and the result zero, when no instance is completed.
  It is computed without the rounding of floats.
\<close>

definition completed_durations :: "workflow_instance list \<Rightarrow> int list" where
  "completed_durations is =
     concat (map (\<lambda>i. case wi_CompletedAt i of
        None \<Rightarrow> []
      | Some c \<Rightarrow> if wi_Status i = StatusCompleted then [c - wi_CreatedAt i] else []) is)"

definition stats_row :: "pg_tables \<Rightarrow> workflow_definition \<Rightarrow> workflow_stats" where
  "stats_row t d =
     (let is = pg_instances_of (wd_ID d) t; ds = completed_durations is in
      \<lparr>wst_WorkflowName = wd_Name d, wst_Version = wd_Version d, wst_TotalInstances = int (length is),
       wst_CompletedInstances = int (count_status StatusCompleted is),
       wst_FailedInstances = int (count_status StatusFailed is),
       wst_RunningInstances = int (count_status StatusRunning is),
       wst_AverageDuration = (if ds = [] then 0 else trunc_rat (of_int (sum_list ds) / of_nat (length ds)))\<rparr>)"

definition pg_GetWorkflowStats :: "workflow_stats list pprog" where
  "pg_GetWorkflowStats = exec_sql (from_db (\<lambda>t. map (stats_row t) (t_definitions t)))"

section \<open>Clean-up\<close>

definition pg_is_old :: "int \<Rightarrow> workflow_instance \<Rightarrow> bool" where
  "pg_is_old cutoff i \<longleftrightarrow>
     wi_Status i \<in> {StatusCompleted, StatusFailed, StatusCancelled, StatusAborted} \<and>
     (case wi_CompletedAt i of None \<Rightarrow> False | Some t \<Rightarrow> t < cutoff)"

text \<open>Deleting instances deletes, through \<open>ON DELETE CASCADE\<close>, every row that refers to them or to their steps.\<close>

definition delete_instances :: "(workflow_instance \<Rightarrow> bool) \<Rightarrow> pg_tables \<Rightarrow> pg_tables" where
  "delete_instances p t =
     (let gone = (\<lambda>k. \<exists>i \<in> set (t_instances t). wi_ID i = k \<and> p i);
          gone_step = (\<lambda>k. \<exists>st \<in> set (t_steps t). ws_ID st = k \<and> gone (ws_InstanceID st));
          gone_opt = (\<lambda>k. case k of None \<Rightarrow> False | Some j \<Rightarrow> gone_step j)
      in t\<lparr>t_instances := filter (\<lambda>i. \<not> p i) (t_instances t),
           t_steps := filter (\<lambda>st. \<not> gone (ws_InstanceID st)) (t_steps t),
           t_queue := filter (\<lambda>q. \<not> (gone (qi_InstanceID q) \<or> gone_opt (qi_StepID q))) (t_queue t),
           t_events := filter (\<lambda>ev. \<not> (gone (we_InstanceID ev) \<or> gone_opt (we_StepID ev))) (t_events t),
           t_joins := filter (\<lambda>js. \<not> gone (js_InstanceID js)) (t_joins t),
           t_cancels := filter (\<lambda>r. \<not> gone (cr_InstanceID r)) (t_cancels t),
           t_decisions := filter (\<lambda>d. \<not> (gone (hd_InstanceID d) \<or> gone_step (hd_StepID d))) (t_decisions t),
           t_letters := filter (\<lambda>r. \<not> (gone (dl_InstanceID r) \<or> gone_step (dl_StepID r))) (t_letters t)\<rparr>)"

text \<open>The stored function \<open>cleanup_old_workflows\<close>.\<close>

definition cleanup_old_workflows :: "int \<Rightarrow> int pprog" where
  "cleanup_old_workflows days_to_keep =
     bnd (gets (\<lambda>s. db_now s - days_to_keep * day_ns)) (\<lambda>cutoff.
     bnd (from_db (\<lambda>t. int (length (filter (pg_is_old cutoff) (t_instances t))))) (\<lambda>result.
     thn (on_db (delete_instances (pg_is_old cutoff))) (ret result)))"

definition pg_CleanupOldWorkflows :: "int \<Rightarrow> int pprog" where
  "pg_CleanupOldWorkflows daysToKeep =
     wrap_err ''failed to cleanup old workflows'' (exec_sql (cleanup_old_workflows daysToKeep))"

end
