(* ===== verification/Sqlite_Laws.thy ===== *)
theory Sqlite_Laws
  imports Sqlite_Store Work_Queue Join_Readiness
begin

text \<open>
  What the SQLite store promises: its tables keep their keys unique through every operation, its queue
  meets the contract of the workers that the memory store meets, and what the statements for requeueing, clean-up
  and join states do, also where they differ from the memory store.
\<close>

section \<open>The tables stay consistent\<close>

definition rows_ok :: "('a \<Rightarrow> int) \<Rightarrow> int \<Rightarrow> 'a list \<Rightarrow> bool" where
  "rows_ok key n rows \<longleftrightarrow> sorted_wrt (<) (map key rows) \<and> (\<forall>r \<in> set rows. key r \<le> n)"

lemma rows_ok_Nil [simp]: "rows_ok key n []"
  by (simp add: rows_ok_def)

lemma rows_ok_append: "rows_ok key n rows \<Longrightarrow> key r = n + 1 \<Longrightarrow> rows_ok key (n + 1) (rows @ [r])"
  by (fastforce simp: rows_ok_def sorted_wrt_append)

lemma rows_ok_filter: "rows_ok key n rows \<Longrightarrow> rows_ok key n (filter p rows)"
  by (auto simp: rows_ok_def sorted_wrt_map intro: sorted_wrt_filter)

lemma rows_ok_update: "rows_ok key n rows \<Longrightarrow> (\<And>r. key (f r) = key r) \<Longrightarrow> rows_ok key n (update_rows p f rows)"
  by (auto simp: rows_ok_def update_rows_def comp_def if_distrib cong: if_cong)

lemma rows_ok_distinct: "rows_ok key n rows \<Longrightarrow> distinct (map key rows)"
  by (simp add: rows_ok_def strict_sorted_iff)

lemma map_update_rows: "(\<And>r. key (f r) = key r) \<Longrightarrow> map key (update_rows p f rows) = map key rows"
  by (auto simp: update_rows_def)

abbreviation join_key :: "join_state \<Rightarrow> int \<times> string" where
  "join_key js \<equiv> (js_InstanceID js, js_JoinStepName js)"

definition sql_ok :: "sqlite_store \<Rightarrow> bool" where
  "sql_ok s \<longleftrightarrow>
     rows_ok wi_ID (sq_instanceSeq s) (sq_instances s) \<and> rows_ok ws_ID (sq_stepSeq s) (sq_steps s) \<and>
     rows_ok qi_ID (sq_queueSeq s) (sq_queue s) \<and> rows_ok we_ID (sq_eventSeq s) (sq_events s) \<and>
     rows_ok hd_ID (sq_decisionSeq s) (sq_humanDecisions s) \<and> rows_ok dl_ID (sq_dlqSeq s) (sq_deadLetters s) \<and>
     distinct (map join_key (sq_joinStates s)) \<and> distinct (map cr_InstanceID (sq_cancelRequests s)) \<and>
     distinct (map wd_ID (sq_definitions s)) \<and> distinct (map (\<lambda>d. (wd_Name d, wd_Version d)) (sq_definitions s)) \<and>
     0 \<le> sq_agingRate s \<and> sq_agingRate s \<le> 100"

inductive sql_step :: "sqlite_store \<Rightarrow> sqlite_store \<Rightarrow> bool" where
  time_passes: "0 \<le> d \<Longrightarrow> sql_step s (s\<lparr>sq_clock := sq_clock s + d\<rparr>)"
| SetAgingEnabled: "sql_step s (snd (sql_SetAgingEnabled b s))"
| SetAgingRate: "sql_step s (snd (sql_SetAgingRate rate s))"
| SaveWorkflowDefinition: "sql_step s (snd (sql_SaveWorkflowDefinition def s))"
| CreateInstance: "sql_step s (snd (sql_CreateInstance w input s))"
| UpdateInstanceStatus: "sql_step s (snd (sql_UpdateInstanceStatus i status output err s))"
| CreateStep: "sql_step s (snd (sql_CreateStep st s))"
| UpdateStep: "sql_step s (snd (sql_UpdateStep k ss output err s))"
| UpdateStepStatus: "sql_step s (snd (sql_UpdateStepStatus k ss s))"
| UpdateStepCompensationRetry: "sql_step s (snd (sql_UpdateStepCompensationRetry k n ss s))"
| EnqueueStep: "sql_step s (snd (sql_EnqueueStep i sid p d s))"
| DequeueStep: "sql_step s (snd (sql_DequeueStep worker s))"
| RemoveFromQueue: "sql_step s (snd (sql_RemoveFromQueue k s))"
| ReleaseQueueItem: "sql_step s (snd (sql_ReleaseQueueItem k s))"
| RescheduleAndReleaseQueueItem: "sql_step s (snd (sql_RescheduleAndReleaseQueueItem k d s))"
| LogEvent: "sql_step s (snd (sql_LogEvent i sid event payload s))"
| CreateJoinState: "sql_step s (snd (sql_CreateJoinState i j ws strategy s))"
| UpdateJoinState: "sql_step s (snd (sql_UpdateJoinState i j n success s))"
| AddToJoinWaitFor: "sql_step s (snd (sql_AddToJoinWaitFor i j n s))"
| ReplaceInJoinWaitFor: "sql_step s (snd (sql_ReplaceInJoinWaitFor i j v n s))"
| CreateCancelRequest: "sql_step s (snd (sql_CreateCancelRequest req s))"
| DeleteCancelRequest: "sql_step s (snd (sql_DeleteCancelRequest i s))"
| CreateHumanDecision: "sql_step s (snd (sql_CreateHumanDecision decision s))"
| CreateDeadLetterRecord: "sql_step s (snd (sql_CreateDeadLetterRecord rec s))"
| RequeueDeadLetter: "sql_step s (snd (sql_RequeueDeadLetter k newInput s))"
| PauseActiveStepsAndClearQueue: "sql_step s (snd (sql_PauseActiveStepsAndClearQueue i s))"
| CleanupOldWorkflows: "sql_step s (snd (sql_CleanupOldWorkflows days s))"

text \<open>Every statement keeps the invariant; an operation composes statements.\<close>

abbreviation sound_sql :: "'a qprog \<Rightarrow> bool" where
  "sound_sql m \<equiv> moves (keeps sql_ok) m"

lemma sound_sql_modify: "(\<And>s. sql_ok s \<Longrightarrow> sql_ok (f s)) \<Longrightarrow> sound_sql (modify f)"
  by (rule keeps.moves_modify) (simp add: keeps_def)

lemma sound_sql_now: "sound_sql sql_now"
  by (rule movesI) (simp add: keeps_def sql_now_def sql_ok_def)

lemma sound_query_row: "sound_sql (query_row e rows)"
  by (rule movesI) (simp add: query_row_def run_simps keeps_def split: list.split)

lemmas sound_sql_rules = keeps.moves_rules sound_sql_now sound_query_row

lemma sound_steps: "(\<And>st. ws_ID (f st) = ws_ID st) \<Longrightarrow> sound_sql (sql_update_step k f)"
  unfolding sql_update_step_def by (rule sound_sql_modify) (simp add: sql_ok_def rows_ok_update)

lemma sql_sound_joins: "(\<And>js. join_key (f js) = join_key js) \<Longrightarrow> sound_sql (sql_update_join i j f)"
  unfolding sql_update_join_def by (rule sound_sql_modify) (simp add: sql_ok_def map_update_rows)

lemma sound_enqueue: "sound_sql (sql_enqueue i sid t p)"
  unfolding sql_enqueue_def by (rule sound_sql_modify) (simp add: sql_ok_def rows_ok_append)

lemma sql_find_join_None: "sql_find_join i j s = None \<longleftrightarrow> (i, j) \<notin> set (map join_key (sq_joinStates s))"
  by (auto simp: sql_find_join_def find_None_iff join_row_def)

lemma sound_CreateJoinState: "sound_sql (sql_CreateJoinState i j ws strategy)"
proof (rule movesI)
  fix s
  show "keeps sql_ok s (snd (sql_CreateJoinState i j ws strategy s))"
    using sql_find_join_None [of i j s]
    by (auto simp: sql_CreateJoinState_def run_simps sql_now_def keeps_def sql_ok_def sql_find_join_def)
qed

lemma sound_definition: "sound_sql (sql_SaveWorkflowDefinition def)"
proof (rule movesI)
  fix s
  show "keeps sql_ok s (snd (sql_SaveWorkflowDefinition def s))"
    by (auto simp: sql_SaveWorkflowDefinition_def run_simps sql_now_def keeps_def sql_ok_def map_update_rows)
qed

lemma clamp_bounds: "0 \<le> clampAgingRate r" "clampAgingRate r \<le> 100"
  by (auto simp: clampAgingRate_def MinAgingRate_def MaxAgingRate_def split: option.split)

lemma sound_settings: "sound_sql (sql_SetAgingEnabled b)" "sound_sql (sql_SetAgingRate rate)"
  unfolding sql_SetAgingEnabled_def sql_SetAgingRate_def
  by (rule sound_sql_modify, simp add: sql_ok_def clamp_bounds)+

lemma sound_instances: "sound_sql (sql_CreateInstance w input)" "sound_sql (sql_UpdateInstanceStatus i status output err)"
proof -
  show "sound_sql (sql_CreateInstance w input)"
  proof (rule movesI)
    fix s
    show "keeps sql_ok s (snd (sql_CreateInstance w input s))"
      by (auto simp: sql_CreateInstance_def sql_GetInstance_def query_row_def run_simps sql_now_def keeps_def sql_ok_def
          rows_ok_append split: list.split)
  qed
  show "sound_sql (sql_UpdateInstanceStatus i status output err)"
    unfolding sql_UpdateInstanceStatus_def
    by (intro sound_sql_rules sound_sql_modify) (simp add: sql_ok_def rows_ok_update)
qed

lemma sound_step_ops: "sound_sql (sql_CreateStep st)" "sound_sql (sql_UpdateStep k ss output err)"
  "sound_sql (sql_UpdateStepStatus k ss)" "sound_sql (sql_UpdateStepCompensationRetry k n ss)"
proof -
  show "sound_sql (sql_CreateStep st)"
  proof (rule movesI)
    fix s
    show "keeps sql_ok s (snd (sql_CreateStep st s))"
      by (simp add: sql_CreateStep_def run_simps sql_now_def keeps_def sql_ok_def Let_def rows_ok_append)
  qed
qed (auto simp: sql_UpdateStep_def sql_UpdateStepStatus_def sql_UpdateStepCompensationRetry_def
      intro!: sound_sql_rules sound_steps)

lemma sound_queue_ops: "sound_sql (sql_EnqueueStep i sid p d)" "sound_sql (sql_DequeueStep worker)"
  "sound_sql (sql_RemoveFromQueue k)" "sound_sql (sql_ReleaseQueueItem k)" "sound_sql (sql_RescheduleAndReleaseQueueItem k d)"
proof -
  show "sound_sql (sql_DequeueStep worker)"
    unfolding sql_DequeueStep_def Let_def
    by (auto split: list.split intro!: sound_sql_rules sound_sql_modify simp: sql_ok_def rows_ok_update)
qed (auto simp: sql_EnqueueStep_def sql_RemoveFromQueue_def sql_ReleaseQueueItem_def sql_RescheduleAndReleaseQueueItem_def
      sql_ok_def rows_ok_filter rows_ok_update intro!: sound_sql_rules sound_enqueue sound_sql_modify)

lemma sql_sound_LogEvent: "sound_sql (sql_LogEvent i sid event payload)"
  by (auto simp: sql_LogEvent_def sql_ok_def rows_ok_append split: sum.split intro!: sound_sql_rules sound_sql_modify)

lemma sound_join_ops: "sound_sql (sql_UpdateJoinState i j n success)" "sound_sql (sql_AddToJoinWaitFor i j n)"
  "sound_sql (sql_ReplaceInJoinWaitFor i j v n)"
  by (auto simp: sql_UpdateJoinState_def sql_AddToJoinWaitFor_def sql_ReplaceInJoinWaitFor_def sql_set_waiting_def Let_def
      split: option.split prod.split intro!: sound_sql_rules sql_sound_joins sound_CreateJoinState)

lemma sql_sound_records: "sound_sql (sql_CreateCancelRequest req)" "sound_sql (sql_DeleteCancelRequest i)"
  "sound_sql (sql_CreateHumanDecision decision)" "sound_sql (sql_CreateDeadLetterRecord rec)"
proof -
  have "distinct (map cr_InstanceID (filter p rs))" if "distinct (map cr_InstanceID rs)" for p rs
    using that by (rule distinct_map_filter)
  then show "sound_sql (sql_CreateCancelRequest req)" "sound_sql (sql_DeleteCancelRequest i)"
    by (auto simp: sql_CreateCancelRequest_def sql_DeleteCancelRequest_def sql_ok_def intro!: sound_sql_rules sound_sql_modify)
qed (auto simp: sql_CreateHumanDecision_def sql_CreateDeadLetterRecord_def sql_ok_def rows_ok_append
      intro!: sound_sql_rules sound_sql_modify)

lemma resume_instance_ID [simp]: "wi_ID (resume_instance i) = wi_ID i"
  by (simp add: resume_instance_def)

lemma reset_step_fields [simp]: "ws_ID (reset_step inp st) = ws_ID st" "ws_Status (reset_step inp st) = StepStatusPending"
  "ws_InstanceID (reset_step inp st) = ws_InstanceID st"
  by (simp_all add: reset_step_def)

lemma sound_bulk_ops: "sound_sql (sql_RequeueDeadLetter k newInput)" "sound_sql (sql_PauseActiveStepsAndClearQueue i)"
  "sound_sql (sql_CleanupOldWorkflows days)"
  by (auto simp: sql_RequeueDeadLetter_def sql_PauseActiveStepsAndClearQueue_def sql_CleanupOldWorkflows_def Let_def
      sql_ok_def rows_ok_filter rows_ok_update intro!: sound_sql_rules sound_sql_modify sound_steps sound_enqueue)

lemmas sound_sql_operations = sound_settings sound_definition sound_instances sound_step_ops sound_queue_ops
  sql_sound_LogEvent sound_CreateJoinState sound_join_ops sql_sound_records sound_bulk_ops

lemma sql_step_sound: "sql_step s t \<Longrightarrow> keeps sql_ok s t"
proof (induction rule: sql_step.induct)
  case (time_passes d s)
  then show ?case by (simp add: keeps_def sql_ok_def)
qed (rule movesD, rule sound_sql_operations)+



section \<open>The queue\<close>

abbreviation sql_priority :: "sqlite_store \<Rightarrow> queue_item \<Rightarrow> int" where
  "sql_priority s \<equiv> sql_effective_priority (sq_agingEnabled s) (sq_agingRate s) (sq_clock s)"

lemma hd_sort_key:
  fixes f :: "'a \<Rightarrow> 'b :: linorder"
  assumes "take 1 (sort_key f xs) = [x]"
  shows "x \<in> set xs \<and> (\<forall>y \<in> set xs. f x \<le> f y)"
proof -
  obtain ys where ys: "sort_key f xs = x # ys" using assms by (cases "sort_key f xs") auto
  have "set (x # ys) = set xs" by (metis ys set_sort)
  moreover have "sorted (map f (x # ys))" by (metis ys sorted_sort_key)
  ultimately show ?thesis by auto
qed

lemma sql_select_cases:
  obtains "sql_select prio now rows = []" "\<forall>q \<in> set rows. \<not> sql_due now q"
  | q where "sql_select prio now rows = [q]" "q \<in> set rows" "sql_due now q"
      "\<forall>y \<in> set rows. sql_due now y \<longrightarrow> (- prio q, qi_ScheduledAt q, qi_ID q) \<le> (- prio y, qi_ScheduledAt y, qi_ID y)"
proof (cases "filter (sql_due now) rows")
  case Nil
  then show ?thesis by (intro that(1)) (auto simp: sql_select_def filter_empty_conv)
next
  case (Cons a as)
  then obtain q where q: "sql_select prio now rows = [q]"
    unfolding sql_select_def
    by (metis (no_types, lifting) One_nat_def length_0_conv length_sort list.distinct(1) neq_Nil_conv take_Suc_Cons take_0)
  from hd_sort_key [OF q [unfolded sql_select_def]] q show ?thesis by (intro that(2) [of q]) auto
qed

definition sql_claim :: "string \<Rightarrow> int \<Rightarrow> queue_item \<Rightarrow> queue_item" where
  "sql_claim worker now q = q\<lparr>qi_AttemptedAt := Some now, qi_AttemptedBy := Some worker\<rparr>"

lemma sql_DequeueStep_run:
  "sql_DequeueStep worker s =
     (case sql_select (sql_priority s) (sq_clock s) (sq_queue s) of
        [] \<Rightarrow> (Ok None, s\<lparr>sq_clock := sq_clock s + 1\<rparr>)
      | q # _ \<Rightarrow> (Ok (Some (sql_claim worker (sq_clock s + 1) q)),
          s\<lparr>sq_clock := sq_clock s + 2, sq_queue := update_rows (\<lambda>y. qi_ID y = qi_ID q \<and> qi_AttemptedBy y = None)
              (sql_claim worker (sq_clock s + 1)) (sq_queue s)\<rparr>))"
proof (cases rule: sql_select_cases [of "sql_priority s" "sq_clock s" "sq_queue s"])
  case 1
  then show ?thesis by (simp add: sql_DequeueStep_def run_simps sql_now_def)
next
  case (2 q)
  then have "filter (\<lambda>y. qi_ID y = qi_ID q \<and> qi_AttemptedBy y = None) (sq_queue s) \<noteq> []"
    by (auto simp: sql_due_def filter_empty_conv)
  with 2(1) show ?thesis
    by (simp add: sql_DequeueStep_def run_simps sql_now_def Let_def sql_claim_def [abs_def] add.commute)
qed

text \<open>
  The SQLite queue hands out the right item: one that is due and unclaimed, of the highest priority with aging,
  among equals the one scheduled first, and then the oldest; it returns nothing only when no item is due.
\<close>

theorem sqlite_dequeue_picks_best:
  assumes "sql_DequeueStep worker s = (r, t)"
  shows "(r = Ok None \<and> (\<forall>q \<in> set (sq_queue s). \<not> sql_due (sq_clock s) q)) \<or>
    (\<exists>q \<in> set (sq_queue s). r = Ok (Some (sql_claim worker (sq_clock s + 1) q)) \<and> sql_due (sq_clock s) q \<and>
      (\<forall>y \<in> set (sq_queue s). sql_due (sq_clock s) y \<longrightarrow>
        (- sql_priority s q, qi_ScheduledAt q, qi_ID q) \<le> (- sql_priority s y, qi_ScheduledAt y, qi_ID y)))"
  using assms
  by (cases rule: sql_select_cases [of "sql_priority s" "sq_clock s" "sq_queue s"]) (auto simp: sql_DequeueStep_run)

definition sql_unclaimed :: "sqlite_store \<Rightarrow> int \<Rightarrow> bool" where
  "sql_unclaimed s k \<longleftrightarrow> (\<exists>q \<in> set (sq_queue s). qi_ID q = k \<and> qi_AttemptedBy q = None)"

definition sql_issued :: "sqlite_store \<Rightarrow> int \<Rightarrow> bool" where
  "sql_issued s k \<longleftrightarrow> k \<le> sq_queueSeq s"

definition sql_enqueue_op :: "int \<times> int option \<times> int \<times> int \<Rightarrow> sqlite_store \<Rightarrow> sqlite_store" where
  "sql_enqueue_op = (\<lambda>(i, sid, p, d) s. snd (sql_EnqueueStep i sid p d s))"

definition sql_dequeue_op :: "string \<Rightarrow> sqlite_store \<Rightarrow> int option \<times> sqlite_store" where
  "sql_dequeue_op w s =
     (case sql_DequeueStep w s of (Ok (Some q), t) \<Rightarrow> (Some (qi_ID q), t) | (_, t) \<Rightarrow> (None, t))"

definition sql_release_op :: "int \<Rightarrow> sqlite_store \<Rightarrow> sqlite_store" where
  "sql_release_op k s = snd (sql_ReleaseQueueItem k s)"

definition sql_remove_op :: "int \<Rightarrow> sqlite_store \<Rightarrow> sqlite_store" where
  "sql_remove_op k s = snd (sql_RemoveFromQueue k s)"

lemma sql_dequeue_op_snd: "snd (sql_dequeue_op w s) = snd (sql_DequeueStep w s)"
  by (simp add: sql_dequeue_op_def split: prod.split outcome.split option.split)

lemma sql_ops_ok: "sql_ok s \<Longrightarrow> sql_ok (sql_enqueue_op x s)" "sql_ok s \<Longrightarrow> sql_ok (snd (sql_dequeue_op w s))"
    "sql_ok s \<Longrightarrow> sql_ok (sql_release_op k s)" "sql_ok s \<Longrightarrow> sql_ok (sql_remove_op k s)"
  using sound_queue_ops [THEN movesD, of s]
  by (auto simp: keeps_def sql_dequeue_op_snd sql_enqueue_op_def sql_release_op_def sql_remove_op_def split: prod.split)

lemma sql_issued_fresh: "sql_ok s \<Longrightarrow> q \<in> set (sq_queue s) \<Longrightarrow> qi_ID q \<le> sq_queueSeq s"
  by (auto simp: sql_ok_def rows_ok_def)

lemma sql_put: "sql_ok s \<Longrightarrow> sql_issued s k \<Longrightarrow>
    sql_issued (sql_enqueue_op x s) k \<and> sql_unclaimed (sql_enqueue_op x s) k = sql_unclaimed s k"
  by (auto simp: sql_enqueue_op_def sql_EnqueueStep_def sql_enqueue_def run_simps sql_now_def sql_issued_def sql_unclaimed_def
      split: prod.split)

lemma sql_take_known: "sql_issued s k \<Longrightarrow> sql_issued (snd (sql_dequeue_op w s)) k"
  by (simp add: sql_dequeue_op_snd sql_DequeueStep_run sql_issued_def split: list.split)

lemma sql_take_Some: "sql_dequeue_op w s = (Some k, t) \<Longrightarrow> sql_unclaimed s k \<and> \<not> sql_unclaimed t k"
proof (cases rule: sql_select_cases [of "sql_priority s" "sq_clock s" "sq_queue s"])
  case 1
  moreover assume "sql_dequeue_op w s = (Some k, t)"
  ultimately show ?thesis by (simp add: sql_dequeue_op_def sql_DequeueStep_run)
next
  case (2 q)
  moreover assume "sql_dequeue_op w s = (Some k, t)"
  ultimately show ?thesis
    by (auto simp: sql_dequeue_op_def sql_DequeueStep_run sql_unclaimed_def sql_claim_def update_rows_def sql_due_def)
qed

lemma sql_take_other: "sql_dequeue_op w s = (r, t) \<Longrightarrow> r \<noteq> Some k \<Longrightarrow> sql_unclaimed t k = sql_unclaimed s k"
proof (cases rule: sql_select_cases [of "sql_priority s" "sq_clock s" "sq_queue s"])
  case 1
  moreover assume "sql_dequeue_op w s = (r, t)"
  ultimately show ?thesis by (auto simp: sql_dequeue_op_def sql_DequeueStep_run sql_unclaimed_def)
next
  case (2 q)
  moreover assume "sql_dequeue_op w s = (r, t)" "r \<noteq> Some k"
  ultimately show ?thesis
    by (force simp: sql_dequeue_op_def sql_DequeueStep_run sql_unclaimed_def sql_claim_def update_rows_def)
qed

lemma sql_release_laws: "sql_issued s k \<Longrightarrow> sql_issued (sql_release_op j s) k"
    "j \<noteq> k \<Longrightarrow> sql_unclaimed (sql_release_op j s) k = sql_unclaimed s k"
  by (force simp: sql_release_op_def sql_ReleaseQueueItem_def modify_def sql_issued_def sql_unclaimed_def update_rows_def)+

lemma sql_remove_laws: "sql_issued s k \<Longrightarrow> sql_issued (sql_remove_op j s) k"
    "sql_unclaimed (sql_remove_op j s) k \<Longrightarrow> sql_unclaimed s k"
  by (auto simp: sql_remove_op_def sql_RemoveFromQueue_def modify_def sql_issued_def sql_unclaimed_def)

interpretation sqlq: claim_queue sql_ok sql_issued sql_unclaimed sql_enqueue_op sql_dequeue_op sql_release_op sql_remove_op
  by unfold_locales
    (rule sql_ops_ok sql_put sql_take_known sql_take_Some sql_take_other sql_release_laws sql_remove_laws; assumption)+

definition demo_sqlite :: sqlite_store where
  "demo_sqlite = snd (sql_EnqueueStep 1 (Some 2) 80 0 (snd (sql_EnqueueStep 1 (Some 1) 50 0 (newSQLiteStore 0))))"

lemma demo_sqlite_facts: "sql_ok demo_sqlite" "sql_issued demo_sqlite 2"
proof -
  have "sql_step\<^sup>*\<^sup>* (newSQLiteStore 0) demo_sqlite"
    unfolding demo_sqlite_def
    by (rule rtranclp.rtrancl_into_rtrancl [OF r_into_rtranclp]; rule sql_step.EnqueueStep)
  moreover have "sql_ok (newSQLiteStore 0)" by (simp add: sql_ok_def newSQLiteStore_def)
  ultimately show "sql_ok demo_sqlite"
    by (induction rule: rtranclp_induct) (auto dest: sql_step_sound simp: keeps_def)
  show "sql_issued demo_sqlite 2"
    by (simp add: sql_issued_def demo_sqlite_def run_simps sql_EnqueueStep_def sql_enqueue_def sql_now_def newSQLiteStore_def)
qed

theorem sqlite_dequeue_picks_best_witness:
  "fst (sql_DequeueStep ''w'' demo_sqlite) \<noteq> Ok None"
proof
  assume none: "fst (sql_DequeueStep ''w'' demo_sqlite) = Ok None"
  obtain r t where run: "sql_DequeueStep ''w'' demo_sqlite = (r, t)" by fastforce
  have "\<not> list_all (\<lambda>q. \<not> sql_due (sq_clock demo_sqlite) q) (sq_queue demo_sqlite)" by code_simp
  with sqlite_dequeue_picks_best [OF run] none run show False by (auto simp: list_all_iff)
qed

text \<open>
  No double delivery with SQLite either: in any sequence of enqueues, dequeues by any workers, releases and removals an
  item that has been issued is handed out at most once more than it is released in between.
\<close>

theorem sqlite_handed_out_once:
  assumes "sql_ok s" and "sql_issued s k"
  shows "count_list (handed_out sql_enqueue_op sql_dequeue_op sql_release_op sql_remove_op ops s) k \<le>
    count_list ops (Release k) + 1"
  using sqlq.handed_out_bound [OF assms, of ops] by (simp split: if_splits)

theorem sqlite_handed_out_once_witness:
  "count_list (handed_out sql_enqueue_op sql_dequeue_op sql_release_op sql_remove_op
     [Take ''w1'', Take ''w2'', Release 2, Take ''w3''] demo_sqlite) 2 \<le> 2"
  using sqlite_handed_out_once [OF demo_sqlite_facts, of "[Take ''w1'', Take ''w2'', Release 2, Take ''w3'']"] by simp

section \<open>Clean-up, requeueing, statistics\<close>

text \<open>
  The clean-up of the SQLite store goes by the time of the last change alone: it deletes every instance not
  changed since the cut-off, also one that is still running or waits for a decision, with its steps and events,
  reports how many it deleted, and leaves every other row, and all queue items, join states, dead letters and cancel
  requests of the deleted instances, in place.
\<close>

theorem sqlite_cleanup_exact:
  "(let cutoff = sq_clock s - days * day_ns; gone = (\<lambda>i. \<exists>inst \<in> set (sq_instances s). wi_ID inst = i \<and> wi_UpdatedAt inst < cutoff)
    in sql_CleanupOldWorkflows days s =
      (Ok (int (length (filter (\<lambda>i. wi_UpdatedAt i < cutoff) (sq_instances s)))),
       s\<lparr>sq_clock := sq_clock s + 1,
         sq_instances := filter (\<lambda>i. \<not> wi_UpdatedAt i < cutoff) (sq_instances s),
         sq_steps := filter (\<lambda>st. \<not> gone (ws_InstanceID st)) (sq_steps s),
         sq_events := filter (\<lambda>ev. \<not> gone (we_InstanceID ev)) (sq_events s)\<rparr>))"
proof -
  have ids: "k \<in> stale_ids cutoff u \<longleftrightarrow> (\<exists>inst \<in> set (sq_instances u). wi_ID inst = k \<and> wi_UpdatedAt inst < cutoff)" for k cutoff u
    by (auto simp: stale_ids_def stale_def)
  show ?thesis
    by (simp add: sql_CleanupOldWorkflows_def run_simps sql_now_def Let_def ids stale_def [abs_def])
qed

lemma find_filter: "find P xs = Some x \<Longrightarrow> \<exists>ys. filter P xs = x # ys"
  by (induction xs) (auto split: if_splits)

lemma filter_other_keys:
  assumes "find (\<lambda>x. f x = k) xs = Some x" and "distinct (map f xs)"
  shows "filter (\<lambda>y. f y \<noteq> k) xs = remove1 x xs"
  using assms
proof (induction xs)
  case (Cons a xs)
  show ?case
  proof (cases "f a = k")
    case True
    then have "k \<notin> f ` set xs" using Cons.prems(2) by simp
    then have "filter (\<lambda>y. f y \<noteq> k) xs = xs" unfolding filter_id_conv by blast
    with True Cons.prems show ?thesis by simp
  next
    case False
    then have "find (\<lambda>x. f x = k) xs = Some x" using Cons.prems(1) by simp
    moreover from this have "f x = k" by (auto simp: find_Some_iff)
    ultimately show ?thesis using False Cons by auto
  qed
qed simp


definition demo_letters :: sqlite_store where
  "demo_letters = snd (sql_CreateDeadLetterRecord
     \<lparr>dl_ID = 0, dl_InstanceID = 1, dl_WorkflowID = ''w'', dl_StepID = 1, dl_StepName = ''a'', dl_StepType = ''task'',
      dl_Input = RawNil, dl_Error = None, dl_Reason = ''failed'', dl_CreatedAt = 0\<rparr> (newSQLiteStore 0))"


text \<open>
  The summary of an empty SQLite store is an error, since the sums over no rows are \<open>NULL\<close>; otherwise it counts.
\<close>

theorem sqlite_summary_of_empty: "(\<exists>e. fst (sql_GetSummaryStats s) = Err e) \<longleftrightarrow> sq_instances s = []"
  by (simp add: sql_GetSummaryStats_def run_simps)

section \<open>Joins\<close>

lemma find_update_rows:
  assumes "find P rows = Some x" and "\<And>r. P (f r) = P r"
  shows "find P (update_rows P f rows) = Some (f x)"
  using assms by (induction rows) (auto simp: update_rows_def split: if_splits)

definition sql_verdict :: "string \<times> bool \<Rightarrow> join_state \<Rightarrow> join_state" where
  "sql_verdict = (\<lambda>(n, b) js.
     js\<lparr>js_Completed := (if b then add_if_absent n (js_Completed js) else js_Completed js),
        js_Failed := (if b then js_Failed js else add_if_absent n (js_Failed js))\<rparr>)"

lemma sql_UpdateJoinState_run:
  assumes "sql_find_join i j s = Some js"
  shows "\<exists>t. sql_UpdateJoinState i j n b s = (Ok (js_IsReady (refresh_ready (sq_clock s) (sql_verdict (n, b) js))), t) \<and>
    sql_find_join i j t = Some (refresh_ready (sq_clock s) (sql_verdict (n, b) js))"
proof -
  define js' where "js' = refresh_ready (sq_clock s) (sql_verdict (n, b) js)"
  let ?f = "\<lambda>r. r\<lparr>js_Completed := js_Completed js', js_Failed := js_Failed js', js_IsReady := js_IsReady js',
    js_UpdatedAt := sq_clock s\<rparr>"
  let ?t = "s\<lparr>sq_clock := sq_clock s + 1, sq_joinStates := update_rows (join_row i j) ?f (sq_joinStates s)\<rparr>"
  have "sql_UpdateJoinState i j n b s = (Ok (js_IsReady js'), ?t)"
    using assms(1)
    by (simp add: sql_UpdateJoinState_def run_simps sql_now_def sql_update_join_def Let_def refresh_ready_def js'_def
        sql_verdict_def)
  moreover have "sql_find_join i j ?t = Some (?f js)"
    using find_update_rows [of "join_row i j" "sq_joinStates s" js ?f] assms(1)
    by (simp add: sql_find_join_def join_row_def)
  moreover have "?f js = js'" by (simp add: refresh_ready_def js'_def sql_verdict_def)
  ultimately show ?thesis unfolding js'_def by auto
qed

lemma memory_UpdateJoinState_run:
  assumes "map_of (ms_joinStates m) (joinStateKey i j) = Some js"
  shows "\<exists>u. UpdateJoinState i j n b m = (Ok (js_IsReady (refresh_ready (ms_clock m) (note_verdict (n, b) js))), u) \<and>
    map_of (ms_joinStates u) (joinStateKey i j) = Some (refresh_ready (ms_clock m) (note_verdict (n, b) js))"
  using assms
  by (simp add: UpdateJoinState_def run_simps time_now_def put_join_def Let_def note_verdict_def)

text \<open>
  C20: The two stores agree on joins as long as no branch changes its verdict: from the same join state at the
  same time, a notification about a branch that is not on the other list returns the same answer
  and leaves the same join state.
\<close>

theorem sqlite_join_agrees:
  assumes "sql_find_join i j s = Some js" and "map_of (ms_joinStates m) (joinStateKey i j) = Some js"
    and "sq_clock s = ms_clock m" and "n \<notin> set (if b then js_Failed js else js_Completed js)"
  shows "\<exists>r t u js'. sql_UpdateJoinState i j n b s = (Ok r, t) \<and> UpdateJoinState i j n b m = (Ok r, u) \<and>
    sql_find_join i j t = Some js' \<and> map_of (ms_joinStates u) (joinStateKey i j) = Some js'"
proof -
  have "note_verdict (n, b) js = sql_verdict (n, b) js"
    using assms(4)
    by (auto simp: note_verdict_def mark_success_def mark_failure_def sql_verdict_def add_if_absent_def remove1_idem)
  with sql_UpdateJoinState_run [OF assms(1), of n b] memory_UpdateJoinState_run [OF assms(2), of n b] assms(3)
  show ?thesis by auto
qed

text \<open>
  A branch that fails and then succeeds (after its dead letter is requeued, say) counts twice in
  a join of the SQLite store: with two branches outstanding the join becomes ready while the
  other one has not reported.  The memory store does not take it for ready.
\<close>

theorem sqlite_join_counts_twice:
  assumes "sql_find_join i j s = Some js" and "map_of (ms_joinStates m) (joinStateKey i j) = Some js"
    and "n \<notin> set (js_Completed js)" and "n \<notin> set (js_Failed js)" and "js_JoinStrategy js \<noteq> JoinStrategyAny"
    and "length (js_WaitingFor js) = length (js_Completed js) + length (js_Failed js) + 2"
  shows "fst (thn (sql_UpdateJoinState i j n False) (sql_UpdateJoinState i j n True) s) = Ok True \<and>
    fst (thn (UpdateJoinState i j n False) (UpdateJoinState i j n True) m) = Ok False"
proof -
  obtain t where 1: "fst (sql_UpdateJoinState i j n False s) = Ok (js_IsReady (refresh_ready (sq_clock s) (sql_verdict (n, False) js)))"
      "snd (sql_UpdateJoinState i j n False s) = t"
      "sql_find_join i j t = Some (refresh_ready (sq_clock s) (sql_verdict (n, False) js))"
    using sql_UpdateJoinState_run [OF assms(1), of n False] by auto
  have sq: "fst (sql_UpdateJoinState i j n True t) = Ok True"
    using sql_UpdateJoinState_run [OF 1(3), of n True] assms(3-6)
    by (auto simp: sql_verdict_def add_if_absent_def refresh_ready_def checkJoinReady_def)
  obtain u where 2: "UpdateJoinState i j n False m =
      (Ok (js_IsReady (refresh_ready (ms_clock m) (note_verdict (n, False) js))), u)"
      "map_of (ms_joinStates u) (joinStateKey i j) = Some (refresh_ready (ms_clock m) (note_verdict (n, False) js))"
    using memory_UpdateJoinState_run [OF assms(2), of n False] by auto
  have mem: "fst (UpdateJoinState i j n True u) = Ok False"
    using memory_UpdateJoinState_run [OF 2(2), of n True] assms(3-6)
    by (auto simp: refresh_ready_def checkJoinReady_def note_verdict_def mark_success_def mark_failure_def remove1_append remove1_idem)
  from 1(1,2) have "sql_UpdateJoinState i j n False s =
      (Ok (js_IsReady (refresh_ready (sq_clock s) (sql_verdict (n, False) js))), t)" by (metis prod.collapse)
  with 2(1) sq mem show ?thesis by (simp add: run_simps)
qed

definition demo_join :: join_state where
  "demo_join = \<lparr>js_InstanceID = 1, js_JoinStepName = ''join'', js_WaitingFor = [''a'', ''b''], js_Completed = [],
     js_Failed = [], js_JoinStrategy = JoinStrategyAll, js_IsReady = False, js_CreatedAt = 0, js_UpdatedAt = 0\<rparr>"

lemma demo_join_stored:
  "sql_find_join 1 ''join'' ((newSQLiteStore 1)\<lparr>sq_joinStates := [demo_join]\<rparr>) = Some demo_join"
  "map_of (ms_joinStates ((NewMemoryStore 1 (\<lambda>n. []))\<lparr>ms_joinStates := [(joinStateKey 1 ''join'', demo_join)]\<rparr>))
     (joinStateKey 1 ''join'') = Some demo_join"
  by (simp_all add: sql_find_join_def join_row_def demo_join_def)

theorem sqlite_join_counts_twice_witness:
  "fst (thn (sql_UpdateJoinState 1 ''join'' ''a'' False) (sql_UpdateJoinState 1 ''join'' ''a'' True)
     ((newSQLiteStore 1)\<lparr>sq_joinStates := [demo_join]\<rparr>)) = Ok True \<and> ''b'' \<in> set (js_WaitingFor demo_join)"
  using sqlite_join_counts_twice [OF demo_join_stored, of "''a''"] by (simp add: demo_join_def)

theorem sqlite_join_agrees_witness:
  "\<exists>r t. sql_UpdateJoinState 1 ''join'' ''a'' True ((newSQLiteStore 1)\<lparr>sq_joinStates := [demo_join]\<rparr>) = (Ok r, t) \<and>
     (\<exists>u. UpdateJoinState 1 ''join'' ''a'' True
       ((NewMemoryStore 1 (\<lambda>n. []))\<lparr>ms_joinStates := [(joinStateKey 1 ''join'', demo_join)]\<rparr>) = (Ok r, u))"
proof -
  have "sq_clock ((newSQLiteStore 1)\<lparr>sq_joinStates := [demo_join]\<rparr>) =
      ms_clock ((NewMemoryStore 1 (\<lambda>n. []))\<lparr>ms_joinStates := [(joinStateKey 1 ''join'', demo_join)]\<rparr>)"
    by (simp add: newSQLiteStore_def NewMemoryStore_def)
  from sqlite_join_agrees [OF demo_join_stored this, of "''a''" True] show ?thesis by (auto simp: demo_join_def)
qed

end
