(* ===== verification/Postgres_Integrity.thy ===== *)
theory Postgres_Integrity
  imports Postgres_Store Sqlite_Laws
begin

text \<open>
  The schema of the PostgreSQL store as an invariant (keys, references, checks), and that every operation keeps it,
  inside transactions and outside, whether its statements succeed or fail; and what a transaction promises.
\<close>

section \<open>The schema\<close>

definition keys_ok :: "pg_tables \<Rightarrow> (pg_sequence \<Rightarrow> int) \<Rightarrow> bool" where
  "keys_ok t seq \<longleftrightarrow>
     rows_ok wi_ID (seq InstanceSeq) (t_instances t) \<and> rows_ok ws_ID (seq StepSeq) (t_steps t) \<and>
     rows_ok qi_ID (seq QueueSeq) (t_queue t) \<and> rows_ok we_ID (seq EventSeq) (t_events t) \<and>
     rows_ok cr_ID (seq CancelSeq) (t_cancels t) \<and> rows_ok hd_ID (seq DecisionSeq) (t_decisions t) \<and>
     rows_ok dl_ID (seq LetterSeq) (t_letters t) \<and>
     distinct (map wd_ID (t_definitions t)) \<and> distinct (map (\<lambda>d. (wd_Name d, wd_Version d)) (t_definitions t)) \<and>
     distinct (map join_key (t_joins t)) \<and> distinct (map cr_InstanceID (t_cancels t)) \<and>
     distinct (map (\<lambda>d. (hd_StepID d, hd_DecidedBy d)) (t_decisions t))"

definition refs_ok :: "pg_tables \<Rightarrow> bool" where
  "refs_ok t \<longleftrightarrow>
     (\<forall>i \<in> set (t_instances t). has_definition (wi_WorkflowID i) t) \<and>
     (\<forall>st \<in> set (t_steps t). has_instance (ws_InstanceID st) t) \<and>
     (\<forall>q \<in> set (t_queue t). has_instance (qi_InstanceID q) t \<and> opt_step (qi_StepID q) t) \<and>
     (\<forall>ev \<in> set (t_events t). has_instance (we_InstanceID ev) t \<and> opt_step (we_StepID ev) t) \<and>
     (\<forall>js \<in> set (t_joins t). has_instance (js_InstanceID js) t) \<and>
     (\<forall>r \<in> set (t_cancels t). has_instance (cr_InstanceID r) t) \<and>
     (\<forall>d \<in> set (t_decisions t). has_instance (hd_InstanceID d) t \<and> has_step (hd_StepID d) t) \<and>
     (\<forall>r \<in> set (t_letters t). has_instance (dl_InstanceID r) t \<and> has_definition (dl_WorkflowID r) t \<and>
        has_step (dl_StepID r) t)"

definition checks_ok :: "pg_tables \<Rightarrow> bool" where
  "checks_ok t \<longleftrightarrow>
     (\<forall>st \<in> set (t_steps t). known_step_status (ws_Status st) \<and> known_step_type (ws_StepType st)) \<and>
     (\<forall>d \<in> set (t_decisions t). known_decision (hd_Decision d))"

definition schema_ok :: "pg_tables \<Rightarrow> (pg_sequence \<Rightarrow> int) \<Rightarrow> bool" where
  "schema_ok t seq \<longleftrightarrow> keys_ok t seq \<and> refs_ok t \<and> checks_ok t"

definition pg_ok :: "pg_store \<Rightarrow> bool" where
  "pg_ok s \<longleftrightarrow> schema_ok (pg_db s) (pg_seq s) \<and>
     (\<forall>tx \<in> set_option (pg_tx s). schema_ok (tx_saved tx) (pg_seq s))"

lemmas has_defs = has_definition_def has_instance_def has_step_def

lemmas schema_defs = schema_ok_def keys_ok_def refs_ok_def checks_ok_def

lemma rows_ok_mono: "rows_ok key n rows \<Longrightarrow> n \<le> m \<Longrightarrow> rows_ok key m rows"
  by (auto simp: rows_ok_def)

lemma schema_ok_mono: "schema_ok t seq \<Longrightarrow> (\<And>q. seq q \<le> seq' q) \<Longrightarrow> schema_ok t seq'"
  unfolding schema_ok_def keys_ok_def by (auto intro: rows_ok_mono)

lemma image_update_rows: "(\<And>r. key (f r) = key r) \<Longrightarrow> key ` set (update_rows p f rows) = key ` set rows"
  by (metis list.set_map map_update_rows)

lemma ball_update_rows:
  "(\<forall>r \<in> set (update_rows p f rows). P r) \<longleftrightarrow> (\<forall>r \<in> set rows. P (if p r then f r else r))"
  by (auto simp: update_rows_def)

section \<open>Statements keep it\<close>

text \<open>
  What a statement may do from a good state: leave the transaction alone, use up numbers, and, when it succeeds,
  leave tables that fit the schema.
\<close>

definition good_stmt :: "'a pprog \<Rightarrow> bool" where
  "good_stmt q \<longleftrightarrow>
     (\<forall>s. schema_ok (pg_db s) (pg_seq s) \<longrightarrow>
        pg_tx (snd (q s)) = pg_tx s \<and> (\<forall>k. pg_seq s k \<le> pg_seq (snd (q s)) k) \<and>
        (\<forall>x. fst (q s) = Ok x \<longrightarrow> schema_ok (pg_db (snd (q s))) (pg_seq (snd (q s)))))"

abbreviation sound_pg :: "'a pprog \<Rightarrow> bool" where
  "sound_pg m \<equiv> moves (keeps pg_ok) m"

lemma good_stmtI:
  assumes "\<And>s r t. schema_ok (pg_db s) (pg_seq s) \<Longrightarrow> q s = (r, t) \<Longrightarrow>
     pg_tx t = pg_tx s \<and> (\<forall>k. pg_seq s k \<le> pg_seq t k) \<and> (\<forall>x. r = Ok x \<longrightarrow> schema_ok (pg_db t) (pg_seq t))"
  shows "good_stmt q"
  using assms unfolding good_stmt_def by (metis prod.collapse)

lemma sound_exec:
  assumes "good_stmt q"
  shows "sound_pg (exec_sql q)"
proof (rule movesI)
  fix s
  obtain r t where qs: "q s = (r, t)" by fastforce
  show "keeps pg_ok s (snd (exec_sql q s))"
  proof (cases "pg_ok s")
    case True
    then have "schema_ok (pg_db s) (pg_seq s)" by (simp add: pg_ok_def)
    with assms qs have t: "pg_tx t = pg_tx s" "\<And>k. pg_seq s k \<le> pg_seq t k"
        "\<And>x. r = Ok x \<Longrightarrow> schema_ok (pg_db t) (pg_seq t)"
      by (auto simp: good_stmt_def)
    have mono: "schema_ok u (pg_seq s) \<Longrightarrow> schema_ok u (pg_seq t)" for u
      by (erule schema_ok_mono) (rule t(2))
    from True t mono qs show ?thesis
      by (cases r) (auto simp: keeps_def pg_ok_def exec_sql_def split: option.splits)
  qed (simp add: keeps_def)
qed

lemma good_from_db: "good_stmt (from_db f)"
  by (rule good_stmtI) (auto simp: from_db_def gets_def)

lemma good_gets: "good_stmt (gets f)"
  by (rule good_stmtI) (auto simp: gets_def)

lemma good_ret: "good_stmt (ret x)"
  by (rule good_stmtI) (auto simp: ret_def)

lemma good_throw: "good_stmt (throw e)"
  by (rule good_stmtI) (auto simp: throw_def)

lemma good_on_db: "(\<And>t seq. schema_ok t seq \<Longrightarrow> schema_ok (f t) seq) \<Longrightarrow> good_stmt (on_db f)"
  by (rule good_stmtI) (auto simp: on_db_def modify_def)

lemma good_bnd:
  assumes m: "good_stmt m" and f: "\<And>x. good_stmt (f x)"
  shows "good_stmt (bnd m f)"
proof (rule good_stmtI)
  fix s r t
  assume ok: "schema_ok (pg_db s) (pg_seq s)" and run: "bnd m f s = (r, t)"
  obtain q u where mu: "m s = (q, u)" by fastforce
  with m ok have u: "pg_tx u = pg_tx s" "\<And>k. pg_seq s k \<le> pg_seq u k" "\<And>x. q = Ok x \<Longrightarrow> schema_ok (pg_db u) (pg_seq u)"
    by (auto simp: good_stmt_def)
  show "pg_tx t = pg_tx s \<and> (\<forall>k. pg_seq s k \<le> pg_seq t k) \<and> (\<forall>x. r = Ok x \<longrightarrow> schema_ok (pg_db t) (pg_seq t))"
  proof (cases q)
    case (Ok x)
    with run mu have "f x u = (r, t)" by (simp add: bnd_def)
    with f [of x] u Ok have "pg_tx t = pg_tx u" "\<And>k. pg_seq u k \<le> pg_seq t k" "\<And>x. r = Ok x \<Longrightarrow> schema_ok (pg_db t) (pg_seq t)"
      by (auto simp: good_stmt_def)
    with u show ?thesis by (metis order_trans)
  qed (use run mu u in \<open>auto simp: bnd_def\<close>)
qed

lemma good_thn: "good_stmt m \<Longrightarrow> good_stmt n \<Longrightarrow> good_stmt (thn m n)"
  unfolding thn_def by (rule good_bnd)

lemma good_require: "good_stmt (require msg c)"
  unfolding require_def by (intro good_bnd good_from_db) (simp add: good_ret good_throw)

lemma good_jsonb: "good_stmt (jsonb r)"
  by (cases r) (simp_all add: jsonb_def good_ret good_throw)

lemmas good_rules = good_from_db good_gets good_ret good_throw good_bnd good_thn good_require good_jsonb


section \<open>Inserts and updates\<close>

lemmas stmt_run = run_simps nextval_def require_def from_db_def on_db_def jsonb_def

lemma schema_steps:
  assumes "schema_ok t seq"
    and "\<And>st. ws_ID (f st) = ws_ID st \<and> ws_InstanceID (f st) = ws_InstanceID st \<and> ws_StepType (f st) = ws_StepType st"
    and "\<And>st. st \<in> set (t_steps t) \<Longrightarrow> p st \<Longrightarrow> known_step_status (ws_Status (f st))"
  shows "schema_ok (t\<lparr>t_steps := update_rows p f (t_steps t)\<rparr>) seq"
  using assms by (auto simp: schema_defs has_defs opt_step_def image_update_rows ball_update_rows rows_ok_update)

lemma schema_definitions:
  assumes "schema_ok t seq" and "\<And>d. wd_ID (f d) = wd_ID d \<and> wd_Name (f d) = wd_Name d \<and> wd_Version (f d) = wd_Version d"
  shows "schema_ok (t\<lparr>t_definitions := update_rows p f (t_definitions t)\<rparr>) seq"
  using assms by (auto simp: schema_defs has_defs opt_step_def image_update_rows map_update_rows)

lemma good_update_instances:
  assumes "\<And>i. wi_ID (f i) = wi_ID i \<and> wi_WorkflowID (f i) = wi_WorkflowID i"
  shows "good_stmt (pg_update_instances p f)"
  unfolding pg_update_instances_def
proof (intro good_bnd good_gets good_on_db)
  fix t seq now
  assume "schema_ok t seq"
  then show "schema_ok (t\<lparr>t_instances := update_rows p (\<lambda>i. (f i)\<lparr>wi_UpdatedAt := now\<rparr>) (t_instances t)\<rparr>) seq"
    using assms
    by (auto simp: schema_defs has_defs opt_step_def image_update_rows ball_update_rows rows_ok_update)
qed

lemma schema_queue:
  assumes "schema_ok t seq" and "\<And>q. qi_ID (f q) = qi_ID q \<and> qi_InstanceID (f q) = qi_InstanceID q \<and> qi_StepID (f q) = qi_StepID q"
  shows "schema_ok (t\<lparr>t_queue := update_rows p f (t_queue t)\<rparr>) seq"
  using assms by (auto simp: schema_defs has_defs opt_step_def ball_update_rows rows_ok_update)

lemma schema_filter:
  assumes "schema_ok t seq"
  shows "schema_ok (t\<lparr>t_queue := filter p (t_queue t)\<rparr>) seq" "schema_ok (t\<lparr>t_cancels := filter p' (t_cancels t)\<rparr>) seq"
    "schema_ok (t\<lparr>t_letters := filter p'' (t_letters t)\<rparr>) seq"
  using assms by (auto simp: schema_defs has_defs opt_step_def rows_ok_filter distinct_map_filter)

lemma schema_joins:
  assumes "schema_ok t seq" and "\<And>js. join_key (f js) = join_key js"
  shows "schema_ok (t\<lparr>t_joins := update_rows p f (t_joins t)\<rparr>) seq"
  using assms by (auto simp: schema_defs has_defs opt_step_def ball_update_rows map_update_rows)

lemma schema_insert_definition:
  assumes "schema_ok t seq" and "find (same_version def) (t_definitions t) = None" and "\<not> has_definition (wd_ID def) t"
  shows "schema_ok (t\<lparr>t_definitions := t_definitions t @ [def\<lparr>wd_CreatedAt := now\<rparr>]\<rparr>) seq"
proof -
  have "(wd_Name def, wd_Version def) \<notin> (\<lambda>d. (wd_Name d, wd_Version d)) ` set (t_definitions t)"
    using assms(2) by (auto simp: find_None_iff same_version_def)
  with assms(1,3) show ?thesis by (auto simp: schema_defs has_defs opt_step_def)
qed

lemma good_upsert: "good_stmt (upsert_definition def now)"
proof (rule good_stmtI)
  fix s r t
  assume ok: "schema_ok (pg_db s) (pg_seq s)" and run: "upsert_definition def now s = (r, t)"
  show "pg_tx t = pg_tx s \<and> (\<forall>k. pg_seq s k \<le> pg_seq t k) \<and> (\<forall>x. r = Ok x \<longrightarrow> schema_ok (pg_db t) (pg_seq t))"
  proof (cases "find (same_version def) (t_definitions (pg_db s))")
    case None
    with run schema_insert_definition [OF ok None, of now] show ?thesis
      by (auto simp: upsert_definition_def stmt_run split: if_splits)
  next
    case (Some d)
    with run schema_definitions [OF ok, of "\<lambda>d. d\<lparr>wd_Definition := wd_Definition def\<rparr>" "same_version def"] show ?thesis
      by (auto simp: upsert_definition_def stmt_run)
  qed
qed

lemma sound_pg_modify: "(\<And>s. pg_db (f s) = pg_db s \<and> pg_seq (f s) = pg_seq s \<and> pg_tx (f s) = pg_tx s) \<Longrightarrow> sound_pg (modify f)"
  by (rule keeps.moves_modify) (simp add: keeps_def pg_ok_def)

lemma sound_pg_time_now: "sound_pg pg_time_now"
  by (rule movesI) (simp add: keeps_def pg_time_now_def pg_ok_def)

lemma sound_pg_new_uuid: "sound_pg pg_new_uuid"
  by (rule movesI) (simp add: keeps_def pg_new_uuid_def pg_ok_def)

lemma sound_pg_query_row: "sound_pg (pg_query_row e rows)"
  unfolding pg_query_row_def
  by (auto intro!: keeps.moves_rules sound_exec good_from_db split: list.split)

lemmas sound_pg_rules = keeps.moves_rules sound_pg_time_now sound_pg_new_uuid sound_pg_query_row sound_exec

lemma sound_pg_settings: "sound_pg (pg_SetAgingEnabled b)" "sound_pg (pg_SetAgingRate rate)"
  "sound_pg pg_ClearDefinitionCache" "sound_pg (pg_SetDefinitionCacheTTL ttl)" "sound_pg (pg_InvalidateDefinitionCache w)"
  by (auto simp: pg_SetAgingEnabled_def pg_SetAgingRate_def pg_ClearDefinitionCache_def pg_SetDefinitionCacheTTL_def
      pg_InvalidateDefinitionCache_def intro!: keeps.moves_thn keeps.moves_when_true sound_pg_modify)

lemma sound_pg_definitions: "sound_pg (pg_SaveWorkflowDefinition d)" "sound_pg (pg_GetWorkflowDefinition w)"
  by (auto simp: pg_SaveWorkflowDefinition_def pg_GetWorkflowDefinition_def cached_definition_def
      intro!: sound_pg_rules good_upsert sound_pg_settings sound_pg_modify split: option.split prod.split)

lemma sound_pg_instances: "sound_pg (pg_CreateInstance w input)" "sound_pg (pg_UpdateInstanceStatus i status output err)"
proof -
  show "sound_pg (pg_CreateInstance w input)"
    unfolding pg_CreateInstance_def
    by (intro keeps.moves_bnd sound_pg_time_now sound_exec, rule good_stmtI)
      (auto simp: stmt_run fk_definition_def schema_defs has_defs opt_step_def rows_ok_append Let_def split: raw.splits if_splits)
  show "sound_pg (pg_UpdateInstanceStatus i status output err)"
    unfolding pg_UpdateInstanceStatus_def
    by (intro keeps.moves_bnd sound_pg_time_now sound_exec good_thn good_jsonb good_update_instances) simp
qed

lemma good_set_status:
  assumes "\<And>st. ws_ID (f st) = ws_ID st \<and> ws_InstanceID (f st) = ws_InstanceID st \<and> ws_StepType (f st) = ws_StepType st"
  shows "good_stmt (pg_set_status k ss f)"
proof (rule good_stmtI)
  fix s r t
  assume ok: "schema_ok (pg_db s) (pg_seq s)" and run: "pg_set_status k ss f s = (r, t)"
  have "schema_ok ((pg_db s)\<lparr>t_steps := update_rows (\<lambda>st. ws_ID st = k) (\<lambda>st. (f st)\<lparr>ws_Status := ss\<rparr>) (t_steps (pg_db s))\<rparr>)
      (pg_seq s)" if "has_step k (pg_db s) \<longrightarrow> known_step_status ss"
    by (rule schema_steps [OF ok]) (use assms that in \<open>auto simp: has_step_def\<close>)
  with run show "pg_tx t = pg_tx s \<and> (\<forall>k. pg_seq s k \<le> pg_seq t k) \<and> (\<forall>x. r = Ok x \<longrightarrow> schema_ok (pg_db t) (pg_seq t))"
    by (auto simp: pg_set_status_def pg_update_steps_def stmt_run split: if_splits)
qed

lemma sound_pg_CreateStep: "sound_pg (pg_CreateStep arg)"
proof (cases arg)
  case None
  then show ?thesis by (simp add: pg_CreateStep_def keeps.moves_throw)
next
  case (Some st0)
  show ?thesis
    unfolding pg_CreateStep_def Some option.case
    apply (intro keeps.moves_bnd sound_pg_time_now sound_exec)
    subgoal by (simp add: sound_pg_new_uuid keeps.moves_ret)
    subgoal
      by (rule good_stmtI)
        (auto simp: stmt_run check_step_status_def fk_instance_def schema_defs has_defs opt_step_def rows_ok_append Let_def
          split: raw.splits if_splits option.splits)
    done
qed

lemma sound_pg_steps: "sound_pg (pg_UpdateStep k ss output err)" "sound_pg (pg_UpdateStepStatus k ss)"
  "sound_pg (pg_UpdateStepCompensationRetry k n ss)"
  by (auto simp: pg_UpdateStep_def pg_UpdateStepStatus_def pg_UpdateStepCompensationRetry_def
      intro!: keeps.moves_bnd sound_pg_time_now sound_exec good_thn good_jsonb good_set_status)

lemma good_enqueue: "good_stmt (pg_enqueue i sid t p)"
  unfolding pg_enqueue_def
  by (rule good_stmtI)
    (auto simp: stmt_run fk_instance_def fk_step_def schema_defs has_defs opt_step_def rows_ok_append split: if_splits)

lemma sound_pg_queue: "sound_pg (pg_EnqueueStep i sid p d)" "sound_pg (pg_DequeueStep worker)" "sound_pg (pg_RemoveFromQueue k)"
  "sound_pg (pg_ReleaseQueueItem k)" "sound_pg (pg_RescheduleAndReleaseQueueItem k d)"
proof -
  show "sound_pg (pg_DequeueStep worker)"
    unfolding pg_DequeueStep_def Let_def
    by (auto intro!: keeps.moves_bnd sound_pg_time_now sound_exec good_rules good_on_db schema_queue split: list.split)
qed (auto simp: pg_EnqueueStep_def pg_RemoveFromQueue_def pg_ReleaseQueueItem_def pg_RescheduleAndReleaseQueueItem_def
    intro!: keeps.moves_bnd sound_pg_time_now sound_exec good_enqueue good_on_db schema_queue schema_filter)

lemma sound_pg_LogEvent: "sound_pg (pg_LogEvent i sid event payload)"
proof (cases payload)
  case (Inr doc)
  show ?thesis
    unfolding pg_LogEvent_def Inr sum.case
    by (intro keeps.moves_bnd sound_pg_time_now sound_exec, rule good_stmtI)
      (auto simp: stmt_run fk_instance_def fk_step_def schema_defs has_defs opt_step_def rows_ok_append split: if_splits)
qed (simp add: pg_LogEvent_def keeps.moves_throw)

lemma pg_find_join_None: "pg_find_join i j t = None \<longleftrightarrow> (i, j) \<notin> join_key ` set (t_joins t)"
  by (auto simp: pg_find_join_def find_None_iff join_row_def)

lemma sound_pg_CreateJoinState: "sound_pg (pg_CreateJoinState i j ws strategy)"
  unfolding pg_CreateJoinState_def Let_def
proof (intro keeps.moves_bnd sound_pg_time_now sound_exec)
  fix now
  define js where "js = \<lparr>js_InstanceID = i, js_JoinStepName = j, js_WaitingFor = ws, js_Completed = [], js_Failed = [],
    js_JoinStrategy = (if strategy = JoinStrategyOther [] then JoinStrategyAll else strategy), js_IsReady = False,
    js_CreatedAt = micro now, js_UpdatedAt = micro now\<rparr>"
  have new: "schema_ok (t\<lparr>t_joins := t_joins t @ [js]\<rparr>) seq"
    if "schema_ok t seq" "pg_find_join i j t = None" "has_instance i t" for t seq
    using that by (auto simp: schema_defs has_defs opt_step_def js_def pg_find_join_None)
  have "good_stmt (bnd (from_db (pg_find_join i j)) (\<lambda>old. if old \<noteq> None then ret () else
      thn (fk_instance i) (on_db (\<lambda>t. t\<lparr>t_joins := t_joins t @ [js]\<rparr>))))"
    by (rule good_stmtI) (auto simp: stmt_run fk_instance_def new split: if_splits)
  then show "good_stmt (bnd (from_db (pg_find_join i j)) (\<lambda>old. if old \<noteq> None then ret () else
      thn (fk_instance i) (on_db (\<lambda>t. t\<lparr>t_joins := t_joins t @
        [\<lparr>js_InstanceID = i, js_JoinStepName = j, js_WaitingFor = ws, js_Completed = [], js_Failed = [],
          js_JoinStrategy = (if strategy = JoinStrategyOther [] then JoinStrategyAll else strategy), js_IsReady = False,
          js_CreatedAt = micro now, js_UpdatedAt = micro now\<rparr>]\<rparr>))))"
    unfolding js_def .
qed

lemma sound_pg_update_join: "(\<And>js. join_key (f js) = join_key js) \<Longrightarrow> sound_pg (pg_update_join i j f)"
  unfolding pg_update_join_def by (intro sound_exec good_on_db schema_joins)

lemma sound_pg_joins: "sound_pg (pg_UpdateJoinState i j n success)" "sound_pg (pg_AddToJoinWaitFor i j n)"
  "sound_pg (pg_ReplaceInJoinWaitFor i j v n)"
  unfolding pg_UpdateJoinState_def pg_AddToJoinWaitFor_def pg_ReplaceInJoinWaitFor_def Let_def
  by (auto intro!: sound_pg_rules good_from_db sound_pg_update_join sound_pg_CreateJoinState split: option.split)

lemma sound_pg_CreateCancelRequest: "sound_pg (pg_CreateCancelRequest arg)"
proof (cases arg)
  case (Some req)
  show ?thesis
    unfolding pg_CreateCancelRequest_def Some option.case
    apply (intro keeps.moves_bnd sound_pg_time_now sound_exec)
    subgoal
      by (rule good_stmtI)
        (auto simp: stmt_run fk_instance_def schema_defs has_defs opt_step_def rows_ok_append Let_def find_None_iff image_iff
          intro: rows_ok_mono split: if_splits)
    subgoal by (auto intro!: sound_pg_rules split: option.split)
    done
qed (simp add: pg_CreateCancelRequest_def keeps.moves_throw)

lemma sound_pg_CreateHumanDecision: "sound_pg (pg_CreateHumanDecision arg)"
proof (cases arg)
  case (Some d)
  show ?thesis
    unfolding pg_CreateHumanDecision_def Some option.case
    by (intro keeps.moves_bnd sound_pg_time_now sound_exec, rule good_stmtI)
      (auto simp: stmt_run fk_instance_def fk_step_def schema_defs has_defs opt_step_def rows_ok_append Let_def image_iff
        split: if_splits)
qed (simp add: pg_CreateHumanDecision_def keeps.moves_throw)

lemma sound_pg_CreateDeadLetterRecord: "sound_pg (pg_CreateDeadLetterRecord arg)"
proof (cases arg)
  case (Some rec)
  show ?thesis
    unfolding pg_CreateDeadLetterRecord_def Some option.case
    by (rule sound_exec, rule good_stmtI)
      (auto simp: stmt_run fk_instance_def fk_step_def fk_definition_def schema_defs has_defs opt_step_def rows_ok_append
        split: if_splits raw.splits)
qed (simp add: pg_CreateDeadLetterRecord_def keeps.moves_throw)

lemma sound_pg_DeleteCancelRequest: "sound_pg (pg_DeleteCancelRequest i)"
  unfolding pg_DeleteCancelRequest_def by (intro sound_exec good_on_db schema_filter)

lemma good_bulk_steps:
  assumes "\<And>st. ws_ID (f st) = ws_ID st \<and> ws_InstanceID (f st) = ws_InstanceID st \<and> ws_StepType (f st) = ws_StepType st"
    and "\<And>st. known_step_status (ws_Status st) \<Longrightarrow> known_step_status (ws_Status (f st))"
  shows "good_stmt (pg_update_steps p f)"
  unfolding pg_update_steps_def
proof (intro good_on_db schema_steps)
  fix t seq st
  assume "schema_ok t seq" "st \<in> set (t_steps t)"
  then have "known_step_status (ws_Status st)" by (auto simp: schema_ok_def checks_ok_def)
  then show "known_step_status (ws_Status (f st))" by (rule assms(2))
qed (use assms(1) in auto)

lemma requeue_step_keeps: "ws_ID (requeue_step target input st) = ws_ID st" "ws_StepType (requeue_step target input st) = ws_StepType st"
  "ws_InstanceID (requeue_step target input st) = ws_InstanceID st"
  "known_step_status (ws_Status st) \<Longrightarrow> known_step_status (ws_Status (requeue_step target input st))"
  by (simp_all add: requeue_step_def reset_step_def resume_join_def known_step_status_def)

lemma sound_pg_RequeueDeadLetter: "sound_pg (pg_RequeueDeadLetter k newInput)"
  unfolding pg_RequeueDeadLetter_def
  by (auto intro!: sound_exec good_rules good_bulk_steps good_enqueue good_update_instances good_on_db schema_filter
      simp: requeue_step_keeps split: option.split)

lemma sound_pg_Pause: "sound_pg (pg_PauseActiveStepsAndClearQueue i)"
  unfolding pg_PauseActiveStepsAndClearQueue_def
  by (auto intro!: keeps.moves_thn sound_exec good_bulk_steps good_on_db schema_filter
      simp: pause_running_def known_step_status_def)

text \<open>A cascading delete leaves no reference without its row.\<close>

lemma schema_delete_instances: "schema_ok t seq \<Longrightarrow> schema_ok (delete_instances p t) seq"
proof -
  assume ok: "schema_ok t seq"
  define gone where "gone k \<longleftrightarrow> (\<exists>i \<in> set (t_instances t). wi_ID i = k \<and> p i)" for k
  define gone_step where "gone_step k \<longleftrightarrow> (\<exists>st \<in> set (t_steps t). ws_ID st = k \<and> gone (ws_InstanceID st))" for k
  let ?t = "delete_instances p t"
  have t: "?t = t\<lparr>t_instances := filter (\<lambda>i. \<not> p i) (t_instances t),
      t_steps := filter (\<lambda>st. \<not> gone (ws_InstanceID st)) (t_steps t),
      t_queue := filter (\<lambda>q. \<not> (gone (qi_InstanceID q) \<or> (case qi_StepID q of None \<Rightarrow> False | Some j \<Rightarrow> gone_step j))) (t_queue t),
      t_events := filter (\<lambda>ev. \<not> (gone (we_InstanceID ev) \<or> (case we_StepID ev of None \<Rightarrow> False | Some j \<Rightarrow> gone_step j))) (t_events t),
      t_joins := filter (\<lambda>js. \<not> gone (js_InstanceID js)) (t_joins t),
      t_cancels := filter (\<lambda>r. \<not> gone (cr_InstanceID r)) (t_cancels t),
      t_decisions := filter (\<lambda>d. \<not> (gone (hd_InstanceID d) \<or> gone_step (hd_StepID d))) (t_decisions t),
      t_letters := filter (\<lambda>r. \<not> (gone (dl_InstanceID r) \<or> gone_step (dl_StepID r))) (t_letters t)\<rparr>"
    unfolding delete_instances_def Let_def gone_step_def gone_def ..
  have inst: "has_instance k ?t" if "has_instance k t" "\<not> gone k" for k
    using that by (auto simp: t has_instance_def gone_def)
  have st: "has_step k ?t" if "has_step k t" "\<not> gone_step k" for k
    using that by (auto simp: t has_step_def gone_step_def)
  have opt: "opt_step k ?t" if "opt_step k t" "\<not> (case k of None \<Rightarrow> False | Some j \<Rightarrow> gone_step j)" for k
    using that st by (cases k) (auto simp: opt_step_def has_step_def)
  have defs: "has_definition d ?t \<longleftrightarrow> has_definition d t" for d by (simp add: t has_definition_def)
  have "keys_ok ?t seq" using ok by (auto simp: t schema_ok_def keys_ok_def rows_ok_filter distinct_map_filter)
  moreover have "checks_ok ?t" using ok by (auto simp: t schema_ok_def checks_ok_def)
  moreover have "refs_ok ?t"
    using ok inst st opt unfolding schema_ok_def refs_ok_def defs by (auto simp: t)
  ultimately show ?thesis by (simp add: schema_ok_def)
qed

lemma sound_pg_Cleanup: "sound_pg (pg_CleanupOldWorkflows days)"
  unfolding pg_CleanupOldWorkflows_def cleanup_old_workflows_def
  by (intro keeps.moves_wrap_err sound_exec good_rules good_on_db schema_delete_instances)

lemmas sound_pg_operations = sound_pg_settings sound_pg_definitions sound_pg_instances sound_pg_CreateStep sound_pg_steps
  sound_pg_queue sound_pg_LogEvent sound_pg_CreateJoinState sound_pg_joins sound_pg_CreateCancelRequest
  sound_pg_DeleteCancelRequest sound_pg_CreateHumanDecision sound_pg_CreateDeadLetterRecord sound_pg_RequeueDeadLetter
  sound_pg_Pause sound_pg_Cleanup

section \<open>Runs of the store\<close>

text \<open>
  The transitions of a store: one for each operation that writes, the beginning and the two ends of a transaction, and
  what goes on outside (time, and the rows that other transactions hold locked).
\<close>

inductive pg_step :: "pg_store \<Rightarrow> pg_store \<Rightarrow> bool" where
  time_passes: "0 \<le> d \<Longrightarrow> pg_step s (s\<lparr>pg_clock := pg_clock s + d\<rparr>)"
| others_lock: "pg_step s (s\<lparr>pg_lockedQueue := ql, pg_lockedSteps := sl\<rparr>)"
| begin_tx: "pg_tx s = None \<Longrightarrow> pg_step s (s\<lparr>pg_tx := Some \<lparr>tx_saved = pg_db s, tx_start = pg_clock s, tx_failed = False\<rparr>\<rparr>)"
| commit_tx: "pg_step s (snd (tx_commit () s))"
| rollback_tx: "pg_step s (tx_rollback s)"
| SetAgingEnabled: "pg_step s (snd (pg_SetAgingEnabled b s))"
| SetAgingRate: "pg_step s (snd (pg_SetAgingRate rate s))"
| SetDefinitionCacheTTL: "pg_step s (snd (pg_SetDefinitionCacheTTL ttl s))"
| SaveWorkflowDefinition: "pg_step s (snd (pg_SaveWorkflowDefinition def s))"
| GetWorkflowDefinition: "pg_step s (snd (pg_GetWorkflowDefinition w s))"
| CreateInstance: "pg_step s (snd (pg_CreateInstance w input s))"
| UpdateInstanceStatus: "pg_step s (snd (pg_UpdateInstanceStatus i status output err s))"
| CreateStep: "pg_step s (snd (pg_CreateStep st s))"
| UpdateStep: "pg_step s (snd (pg_UpdateStep k ss output err s))"
| UpdateStepStatus: "pg_step s (snd (pg_UpdateStepStatus k ss s))"
| UpdateStepCompensationRetry: "pg_step s (snd (pg_UpdateStepCompensationRetry k n ss s))"
| EnqueueStep: "pg_step s (snd (pg_EnqueueStep i sid p d s))"
| DequeueStep: "pg_step s (snd (pg_DequeueStep worker s))"
| RemoveFromQueue: "pg_step s (snd (pg_RemoveFromQueue k s))"
| ReleaseQueueItem: "pg_step s (snd (pg_ReleaseQueueItem k s))"
| RescheduleAndReleaseQueueItem: "pg_step s (snd (pg_RescheduleAndReleaseQueueItem k d s))"
| LogEvent: "pg_step s (snd (pg_LogEvent i sid event payload s))"
| CreateJoinState: "pg_step s (snd (pg_CreateJoinState i j ws strategy s))"
| UpdateJoinState: "pg_step s (snd (pg_UpdateJoinState i j n success s))"
| AddToJoinWaitFor: "pg_step s (snd (pg_AddToJoinWaitFor i j n s))"
| ReplaceInJoinWaitFor: "pg_step s (snd (pg_ReplaceInJoinWaitFor i j v n s))"
| CreateCancelRequest: "pg_step s (snd (pg_CreateCancelRequest req s))"
| DeleteCancelRequest: "pg_step s (snd (pg_DeleteCancelRequest i s))"
| CreateHumanDecision: "pg_step s (snd (pg_CreateHumanDecision decision s))"
| CreateDeadLetterRecord: "pg_step s (snd (pg_CreateDeadLetterRecord rec s))"
| RequeueDeadLetter: "pg_step s (snd (pg_RequeueDeadLetter k newInput s))"
| PauseActiveStepsAndClearQueue: "pg_step s (snd (pg_PauseActiveStepsAndClearQueue i s))"
| CleanupOldWorkflows: "pg_step s (snd (pg_CleanupOldWorkflows days s))"

lemma pg_step_sound: "pg_step s t \<Longrightarrow> keeps pg_ok s t"
proof (induction rule: pg_step.induct)
  case (commit_tx s)
  show ?case by (auto simp: keeps_def pg_ok_def tx_commit_def tx_rollback_def split: option.split)
next
  case (rollback_tx s)
  show ?case by (auto simp: keeps_def pg_ok_def tx_rollback_def split: option.split)
qed (rule movesD, rule sound_pg_operations | simp add: keeps_def pg_ok_def)+

lemma pg_ok_new: "pg_ok (pg_NewStore now uuids parse)"
  by (simp add: pg_ok_def pg_NewStore_def empty_tables_def schema_defs)


definition demo_definition :: workflow_definition where
  "demo_definition = \<lparr>wd_ID = ''w'', wd_Name = ''order'', wd_Version = 1,
     wd_Definition = \<lparr>gd_Steps = [], gd_Start = ''a'', gd_DLQEnabled = False\<rparr>, wd_CreatedAt = 0\<rparr>"

definition demo_pg :: pg_store where
  "demo_pg = snd (pg_CreateInstance ''w'' RawNil
     (snd (pg_SaveWorkflowDefinition (Some demo_definition) (pg_NewStore 5000 (\<lambda>n. ''u'') Some))))"

lemma demo_pg_run: "pg_step\<^sup>*\<^sup>* (pg_NewStore 5000 (\<lambda>n. ''u'') Some) demo_pg"
  unfolding demo_pg_def
  by (rule rtranclp.rtrancl_into_rtrancl [OF r_into_rtranclp]) (rule pg_step.SaveWorkflowDefinition, rule pg_step.CreateInstance)


section \<open>Transactions\<close>

text \<open>
  What a program made of store operations may do to a transaction: it never ends it and never changes what it
  would roll back to; a failure is not taken back, and after one the tables do not change any more.
\<close>

definition tx_safe :: "pg_store \<Rightarrow> pg_store \<Rightarrow> bool" where
  "tx_safe s t \<longleftrightarrow>
     (case pg_tx s of
        None \<Rightarrow> pg_tx t = None
      | Some tx \<Rightarrow> \<exists>tx'. pg_tx t = Some tx' \<and> tx_saved tx' = tx_saved tx \<and> tx_start tx' = tx_start tx \<and>
          (tx_failed tx \<longrightarrow> tx_failed tx' \<and> pg_db t = pg_db s))"

interpretation txs: step_preorder tx_safe
  by unfold_locales (auto simp: tx_safe_def split: option.splits)

text \<open>The body of a statement leaves the transaction alone.\<close>

abbreviation plain_stmt :: "'a pprog \<Rightarrow> bool" where
  "plain_stmt q \<equiv> moves (same pg_tx) q"

lemma plain_modify: "(\<And>s. pg_tx (f s) = pg_tx s) \<Longrightarrow> plain_stmt (modify f)"
  by (rule same.moves_modify) (simp add: same_def)

lemma plain_on_db: "plain_stmt (on_db f)"
  unfolding on_db_def by (rule plain_modify) simp

lemma plain_from_db: "plain_stmt (from_db f)"
  unfolding from_db_def by (rule same.moves_gets)

lemma plain_nextval: "plain_stmt (nextval q)"
  by (rule movesI) (simp add: same_def nextval_def)

lemma plain_require: "plain_stmt (require msg c)"
  unfolding require_def by (auto intro!: same.moves_rules plain_from_db)

lemma plain_jsonb: "plain_stmt (jsonb r)"
  by (cases r) (simp_all add: jsonb_def same.moves_ret same.moves_throw)

lemmas plain_rules = same.moves_rules plain_on_db plain_from_db plain_nextval plain_require plain_jsonb

lemma tx_safe_exec:
  assumes "plain_stmt q"
  shows "moves tx_safe (exec_sql q)"
proof (rule movesI)
  fix s
  obtain r t where qs: "q s = (r, t)" by fastforce
  with assms have "pg_tx t = pg_tx s" by (rule same_result)
  with qs show "tx_safe s (snd (exec_sql q s))"
    by (cases r) (auto simp: tx_safe_def exec_sql_def split: option.split)
qed

lemma tx_safe_modify: "(\<And>s. pg_db (f s) = pg_db s \<and> pg_tx (f s) = pg_tx s) \<Longrightarrow> moves tx_safe (modify f)"
  by (rule txs.moves_modify) (auto simp: tx_safe_def split: option.split)

lemma tx_safe_time: "moves tx_safe pg_time_now" "moves tx_safe pg_new_uuid"
  by (rule movesI, auto simp: tx_safe_def pg_time_now_def pg_new_uuid_def split: option.split)+

lemma tx_safe_query_row: "moves tx_safe (pg_query_row e rows)"
  unfolding pg_query_row_def by (auto intro!: txs.moves_rules tx_safe_exec plain_from_db split: list.split)

lemma plain_enqueue: "plain_stmt (pg_enqueue i sid t p)"
  unfolding pg_enqueue_def fk_instance_def fk_step_def by (intro plain_rules)

lemmas tx_safe_rules = txs.moves_rules tx_safe_time tx_safe_query_row tx_safe_exec plain_rules plain_enqueue tx_safe_modify

lemmas pg_op_defs = pg_SetAgingEnabled_def pg_SetAgingRate_def pg_ClearDefinitionCache_def pg_SetDefinitionCacheTTL_def
  pg_InvalidateDefinitionCache_def pg_SaveWorkflowDefinition_def pg_GetWorkflowDefinition_def cached_definition_def
  pg_CreateInstance_def pg_UpdateInstanceStatus_def pg_CreateStep_def pg_UpdateStep_def pg_UpdateStepStatus_def
  pg_UpdateStepCompensationRetry_def pg_EnqueueStep_def pg_DequeueStep_def pg_RemoveFromQueue_def pg_ReleaseQueueItem_def
  pg_RescheduleAndReleaseQueueItem_def pg_LogEvent_def pg_CreateJoinState_def pg_UpdateJoinState_def pg_AddToJoinWaitFor_def
  pg_ReplaceInJoinWaitFor_def pg_CreateCancelRequest_def pg_DeleteCancelRequest_def pg_CreateHumanDecision_def
  pg_CreateDeadLetterRecord_def pg_RequeueDeadLetter_def pg_PauseActiveStepsAndClearQueue_def pg_CleanupOldWorkflows_def
  pg_GetInstance_def pg_GetStepsByInstance_def pg_GetStepByID_def pg_GetJoinState_def pg_GetCancelRequest_def

lemmas pg_stmt_defs = upsert_definition_def pg_update_instances_def pg_set_status_def pg_update_steps_def pg_update_join_def
  cleanup_old_workflows_def fk_instance_def fk_step_def fk_definition_def check_step_status_def

lemma tx_safe_definitions: "moves tx_safe (pg_SaveWorkflowDefinition def)" "moves tx_safe (pg_GetWorkflowDefinition w)"
  unfolding pg_op_defs pg_stmt_defs Let_def
  by (auto intro!: tx_safe_rules split: option.split prod.split)

lemma tx_safe_instances: "moves tx_safe (pg_CreateInstance w input)" "moves tx_safe (pg_UpdateInstanceStatus i status output err)"
  "moves tx_safe (pg_GetInstance i)"
  unfolding pg_op_defs pg_stmt_defs Let_def by (auto intro!: tx_safe_rules)

lemma tx_safe_steps: "moves tx_safe (pg_CreateStep st)" "moves tx_safe (pg_UpdateStep k ss output err)"
  "moves tx_safe (pg_UpdateStepStatus k ss)" "moves tx_safe (pg_UpdateStepCompensationRetry k n ss)"
  "moves tx_safe (pg_GetStepsByInstance i)" "moves tx_safe (pg_GetStepByID k)"
  unfolding pg_op_defs pg_stmt_defs Let_def by (auto intro!: tx_safe_rules split: option.split)

lemma tx_safe_queue: "moves tx_safe (pg_EnqueueStep i sid p d)" "moves tx_safe (pg_DequeueStep worker)"
  "moves tx_safe (pg_RemoveFromQueue k)" "moves tx_safe (pg_ReleaseQueueItem k)"
  "moves tx_safe (pg_RescheduleAndReleaseQueueItem k d)" "moves tx_safe (pg_LogEvent i sid event payload)"
  unfolding pg_op_defs pg_stmt_defs Let_def by (auto intro!: tx_safe_rules split: list.split sum.split)

lemma tx_safe_joins: "moves tx_safe (pg_CreateJoinState i j ws strategy)" "moves tx_safe (pg_UpdateJoinState i j name success)"
  "moves tx_safe (pg_AddToJoinWaitFor i j name)" "moves tx_safe (pg_ReplaceInJoinWaitFor i j v name)"
  "moves tx_safe (pg_GetJoinState i j)"
  unfolding pg_op_defs pg_stmt_defs Let_def by (auto intro!: tx_safe_rules split: option.split)

lemma tx_safe_records: "moves tx_safe (pg_CreateCancelRequest req)" "moves tx_safe (pg_DeleteCancelRequest i)"
  "moves tx_safe (pg_GetCancelRequest i)" "moves tx_safe (pg_CreateHumanDecision decision)"
  "moves tx_safe (pg_CreateDeadLetterRecord rec)"
  unfolding pg_op_defs pg_stmt_defs Let_def by (auto intro!: tx_safe_rules split: option.split)

lemma tx_safe_bulk: "moves tx_safe (pg_RequeueDeadLetter k newInput)" "moves tx_safe (pg_PauseActiveStepsAndClearQueue i)"
  "moves tx_safe (pg_CleanupOldWorkflows days)"
  unfolding pg_op_defs pg_stmt_defs Let_def by (auto intro!: tx_safe_rules split: option.split)

lemmas tx_safe_operations = tx_safe_definitions tx_safe_instances tx_safe_steps tx_safe_queue tx_safe_joins tx_safe_records
  tx_safe_bulk

lemma pg_run_nested: "pg_tx s \<noteq> None \<Longrightarrow> pg_run fn s = fn s"
  by (simp add: pg_run_def)

abbreviation begun :: "pg_store \<Rightarrow> pg_store" where
  "begun s \<equiv> s\<lparr>pg_tx := Some \<lparr>tx_saved = pg_db s, tx_start = pg_clock s, tx_failed = False\<rparr>\<rparr>"

text \<open>
  C10: A transaction is all or nothing.  When the function that \<open>ReadCommitted\<close> runs returns an error or panics, or when any of its
  statements failed (even if the function dropped that error and went on), the tables are afterwards
  exactly what they were before; only a function that returns normally with no failed statement changes them, and then
  they are exactly what the function left.  In any case the transaction is over.
\<close>

theorem postgres_transaction_atomic:
  assumes "moves tx_safe fn" and "pg_tx s = None" and "pg_ReadCommitted fn s = (r, t)" and "r \<noteq> Stuck"
  shows "pg_tx t = None \<and>
    (case r of
       Ok x \<Rightarrow> \<exists>u tx. fn (begun s) = (Ok x, u) \<and> pg_tx u = Some tx \<and> \<not> tx_failed tx \<and> pg_db t = pg_db u
     | _ \<Rightarrow> pg_db t = pg_db s)"
proof -
  obtain q u where qu: "fn (begun s) = (q, u)" by fastforce
  with assms(1) have "tx_safe (begun s) u" by (rule moves_result)
  then obtain tx where tx: "pg_tx u = Some tx" "tx_saved tx = pg_db s" by (auto simp: tx_safe_def)
  from assms(2-4) qu tx show ?thesis
    by (cases q) (auto simp: pg_ReadCommitted_def pg_run_def tx_commit_def tx_rollback_def split: if_splits)
qed

text \<open>An event for an unknown instance, its error dropped, takes the enqueued item with it.\<close>

definition doomed_tx :: "unit pprog" where
  "doomed_tx = thn (pg_EnqueueStep 1 None 50 0) (ignore (pg_LogEvent 2 None ''note'' (Inr JNull)))"

theorem postgres_transaction_atomic_witness:
  "fst (pg_ReadCommitted doomed_tx demo_pg) = Err ErrTxCommitRollback \<and>
   pg_db (snd (pg_ReadCommitted doomed_tx demo_pg)) = pg_db demo_pg"
proof -
  obtain r t where rt: "pg_ReadCommitted doomed_tx demo_pg = (r, t)" by fastforce
  have "fst (pg_ReadCommitted doomed_tx demo_pg) = Err ErrTxCommitRollback" by code_simp
  with rt have r: "r = Err ErrTxCommitRollback" by simp
  have "moves tx_safe doomed_tx" unfolding doomed_tx_def by (intro txs.moves_thn txs.moves_ignore tx_safe_operations)
  moreover have "pg_tx demo_pg = None" by code_simp
  ultimately have "pg_db t = pg_db demo_pg" using postgres_transaction_atomic [OF _ _ rt] r by simp
  with rt r show ?thesis by simp
qed

end
