(* ===== verification/Postgres_Laws.thy ===== *)
theory Postgres_Laws
  imports Postgres_Integrity
begin

text \<open>
  What the PostgreSQL store promises its clients: the contract of the work queue, with rows that other transactions hold;
  joins that behave as those of the memory store; a definition cache that shows what the database holds, as long as no
  transaction is rolled back; and what requeueing, clean-up and the step listings do to the row.
\<close>

lemma exec_auto: "pg_tx s = None \<Longrightarrow> exec_sql q s = (case q s of (Ok x, t) \<Rightarrow> (Ok x, t) | (r, t) \<Rightarrow> (r, t\<lparr>pg_db := pg_db s\<rparr>))"
  by (simp add: exec_sql_def)

section \<open>The queue\<close>

abbreviation pg_priority :: "pg_store \<Rightarrow> queue_item \<Rightarrow> int" where
  "pg_priority s \<equiv> pg_effective_priority (pg_agingEnabled s) (pg_agingRate s) (micro (pg_clock s))"

abbreviation pg_is_due :: "pg_store \<Rightarrow> queue_item \<Rightarrow> bool" where
  "pg_is_due s \<equiv> pg_due (pg_lockedQueue s) (micro (pg_clock s))"

lemma pg_next_item_cases:
  obtains "pg_next_item prio locked now rows = []" "\<forall>q \<in> set rows. \<not> pg_due locked now q"
  | q where "pg_next_item prio locked now rows = [q]" "q \<in> set rows" "pg_due locked now q"
      "\<forall>y \<in> set rows. pg_due locked now y \<longrightarrow> (- prio q, qi_ScheduledAt q) \<le> (- prio y, qi_ScheduledAt y)"
proof (cases "filter (pg_due locked now) rows")
  case Nil
  then show ?thesis by (intro that(1)) (auto simp: pg_next_item_def filter_empty_conv)
next
  case (Cons a as)
  then obtain q where q: "pg_next_item prio locked now rows = [q]"
    unfolding pg_next_item_def
    by (metis (no_types, lifting) One_nat_def length_0_conv length_sort list.distinct(1) neq_Nil_conv take_Suc_Cons take_0)
  from hd_sort_key [OF q [unfolded pg_next_item_def]] q show ?thesis by (intro that(2) [of q]) auto
qed

lemma pg_DequeueStep_run:
  assumes "pg_tx s = None"
  shows "pg_DequeueStep worker s =
     (case pg_next_item (pg_priority s) (pg_lockedQueue s) (micro (pg_clock s)) (t_queue (pg_db s)) of
        [] \<Rightarrow> (Ok None, s\<lparr>pg_clock := pg_clock s + 1\<rparr>)
      | q # _ \<Rightarrow> (Ok (Some (sql_claim worker (micro (pg_clock s)) q)),
          s\<lparr>pg_clock := pg_clock s + 1,
            pg_db := (pg_db s)\<lparr>t_queue := update_rows (\<lambda>y. qi_ID y = qi_ID q) (sql_claim worker (micro (pg_clock s))) (t_queue (pg_db s))\<rparr>\<rparr>))"
  using assms
  by (simp add: pg_DequeueStep_def stmt_run pg_time_now_def exec_auto Let_def sql_claim_def [abs_def] split: list.split)

text \<open>
  A worker on PostgreSQL gets the right item: one that is due, that nobody has claimed and that no other open transaction
  holds locked; of those one with the highest aged priority, and among equals one scheduled first.  It gets nothing
  only when there is no such item.
\<close>

theorem postgres_dequeue_picks_best:
  assumes "pg_tx s = None" and "pg_DequeueStep worker s = (r, t)"
  shows "(r = Ok None \<and> (\<forall>q \<in> set (t_queue (pg_db s)). \<not> pg_is_due s q)) \<or>
    (\<exists>q \<in> set (t_queue (pg_db s)). r = Ok (Some (sql_claim worker (micro (pg_clock s)) q)) \<and> pg_is_due s q \<and>
      (\<forall>y \<in> set (t_queue (pg_db s)). pg_is_due s y \<longrightarrow>
        (- pg_priority s q, qi_ScheduledAt q) \<le> (- pg_priority s y, qi_ScheduledAt y)))"
  using assms
  by (cases rule: pg_next_item_cases [of "pg_priority s" "pg_lockedQueue s" "micro (pg_clock s)" "t_queue (pg_db s)"])
    (auto simp: pg_DequeueStep_run)

definition pg_auto_ok :: "pg_store \<Rightarrow> bool" where
  "pg_auto_ok s \<longleftrightarrow> pg_ok s \<and> pg_tx s = None"

definition pg_unclaimed :: "pg_store \<Rightarrow> int \<Rightarrow> bool" where
  "pg_unclaimed s k \<longleftrightarrow> (\<exists>q \<in> set (t_queue (pg_db s)). qi_ID q = k \<and> qi_AttemptedAt q = None)"

definition pg_issued :: "pg_store \<Rightarrow> int \<Rightarrow> bool" where
  "pg_issued s k \<longleftrightarrow> k \<le> pg_seq s QueueSeq"

definition pg_enqueue_op :: "int \<times> int option \<times> int \<times> int \<Rightarrow> pg_store \<Rightarrow> pg_store" where
  "pg_enqueue_op = (\<lambda>(i, sid, p, d) s. snd (pg_EnqueueStep i sid p d s))"

definition pg_dequeue_op :: "string \<Rightarrow> pg_store \<Rightarrow> int option \<times> pg_store" where
  "pg_dequeue_op w s =
     (case pg_DequeueStep w s of (Ok (Some q), t) \<Rightarrow> (Some (qi_ID q), t) | (_, t) \<Rightarrow> (None, t))"

definition pg_release_op :: "int \<Rightarrow> pg_store \<Rightarrow> pg_store" where
  "pg_release_op k s = snd (pg_ReleaseQueueItem k s)"

definition pg_remove_op :: "int \<Rightarrow> pg_store \<Rightarrow> pg_store" where
  "pg_remove_op k s = snd (pg_RemoveFromQueue k s)"

lemma pg_dequeue_op_snd: "snd (pg_dequeue_op w s) = snd (pg_DequeueStep w s)"
  by (simp add: pg_dequeue_op_def split: prod.split outcome.split option.split)

lemma pg_auto_keeps:
  assumes "sound_pg m" and "moves tx_safe m" and "pg_auto_ok s"
  shows "pg_auto_ok (snd (m s))"
  using movesD [OF assms(1), of s] movesD [OF assms(2), of s] assms(3)
  by (auto simp: keeps_def tx_safe_def pg_auto_ok_def)

lemma pg_ops_ok: "pg_auto_ok s \<Longrightarrow> pg_auto_ok (pg_enqueue_op x s)" "pg_auto_ok s \<Longrightarrow> pg_auto_ok (snd (pg_dequeue_op w s))"
    "pg_auto_ok s \<Longrightarrow> pg_auto_ok (pg_release_op k s)" "pg_auto_ok s \<Longrightarrow> pg_auto_ok (pg_remove_op k s)"
  by (auto simp: pg_dequeue_op_snd pg_enqueue_op_def pg_release_op_def pg_remove_op_def split: prod.split
      intro: pg_auto_keeps sound_pg_queue tx_safe_queue)

lemma pg_issued_fresh: "pg_auto_ok s \<Longrightarrow> q \<in> set (t_queue (pg_db s)) \<Longrightarrow> qi_ID q \<le> pg_seq s QueueSeq"
  by (auto simp: pg_auto_ok_def pg_ok_def schema_ok_def keys_ok_def rows_ok_def)

lemma pg_put: "pg_auto_ok s \<Longrightarrow> pg_issued s k \<Longrightarrow>
    pg_issued (pg_enqueue_op x s) k \<and> pg_unclaimed (pg_enqueue_op x s) k = pg_unclaimed s k"
  by (auto simp: pg_enqueue_op_def pg_EnqueueStep_def pg_enqueue_def stmt_run pg_time_now_def fk_instance_def fk_step_def
      pg_auto_ok_def exec_auto pg_issued_def pg_unclaimed_def split: prod.split if_splits)

lemma pg_take_known: "pg_auto_ok s \<Longrightarrow> pg_issued s k \<Longrightarrow> pg_issued (snd (pg_dequeue_op w s)) k"
  by (simp add: pg_auto_ok_def pg_dequeue_op_snd pg_DequeueStep_run pg_issued_def split: list.split)

lemma pg_take_Some: "pg_auto_ok s \<Longrightarrow> pg_dequeue_op w s = (Some k, t) \<Longrightarrow> pg_unclaimed s k \<and> \<not> pg_unclaimed t k"
proof (cases rule: pg_next_item_cases [of "pg_priority s" "pg_lockedQueue s" "micro (pg_clock s)" "t_queue (pg_db s)"])
  case 1
  moreover assume "pg_auto_ok s" "pg_dequeue_op w s = (Some k, t)"
  ultimately show ?thesis by (simp add: pg_auto_ok_def pg_dequeue_op_def pg_DequeueStep_run)
next
  case (2 q)
  moreover assume "pg_auto_ok s" "pg_dequeue_op w s = (Some k, t)"
  ultimately show ?thesis
    by (auto simp: pg_auto_ok_def pg_dequeue_op_def pg_DequeueStep_run pg_unclaimed_def sql_claim_def update_rows_def pg_due_def)
qed

lemma pg_take_other: "pg_auto_ok s \<Longrightarrow> pg_dequeue_op w s = (r, t) \<Longrightarrow> r \<noteq> Some k \<Longrightarrow> pg_unclaimed t k = pg_unclaimed s k"
proof (cases rule: pg_next_item_cases [of "pg_priority s" "pg_lockedQueue s" "micro (pg_clock s)" "t_queue (pg_db s)"])
  case 1
  moreover assume "pg_auto_ok s" "pg_dequeue_op w s = (r, t)"
  ultimately show ?thesis by (auto simp: pg_auto_ok_def pg_dequeue_op_def pg_DequeueStep_run pg_unclaimed_def)
next
  case (2 q)
  moreover assume "pg_auto_ok s" "pg_dequeue_op w s = (r, t)" "r \<noteq> Some k"
  ultimately show ?thesis
    by (force simp: pg_auto_ok_def pg_dequeue_op_def pg_DequeueStep_run pg_unclaimed_def sql_claim_def update_rows_def)
qed

lemma pg_release_laws: "pg_auto_ok s \<Longrightarrow> pg_issued s k \<Longrightarrow> pg_issued (pg_release_op j s) k"
    "pg_auto_ok s \<Longrightarrow> j \<noteq> k \<Longrightarrow> pg_unclaimed (pg_release_op j s) k = pg_unclaimed s k"
  by (force simp: pg_auto_ok_def pg_release_op_def pg_ReleaseQueueItem_def stmt_run exec_auto pg_issued_def pg_unclaimed_def
      update_rows_def)+

lemma pg_remove_laws: "pg_auto_ok s \<Longrightarrow> pg_issued s k \<Longrightarrow> pg_issued (pg_remove_op j s) k"
    "pg_auto_ok s \<Longrightarrow> pg_unclaimed (pg_remove_op j s) k \<Longrightarrow> pg_unclaimed s k"
  by (auto simp: pg_auto_ok_def pg_remove_op_def pg_RemoveFromQueue_def stmt_run exec_auto pg_issued_def pg_unclaimed_def)

interpretation pgq: claim_queue pg_auto_ok pg_issued pg_unclaimed pg_enqueue_op pg_dequeue_op pg_release_op pg_remove_op
  by unfold_locales
    (rule pg_ops_ok pg_put pg_take_known pg_take_Some pg_take_other pg_release_laws pg_remove_laws; assumption)+


definition demo_pg_queue :: pg_store where
  "demo_pg_queue = snd (pg_EnqueueStep 1 None 80 0 (snd (pg_EnqueueStep 1 None 50 0 demo_pg)))"

lemma demo_pg_ok: "pg_ok demo_pg"
  using demo_pg_run by (induction rule: rtranclp_induct) (auto dest: pg_step_sound simp: keeps_def pg_ok_new)

lemma demo_pg_queue_facts: "pg_ok demo_pg_queue" "pg_tx demo_pg_queue = None" "pg_issued demo_pg_queue 2"
proof -
  have "pg_tx demo_pg = None" by code_simp
  with demo_pg_ok have "pg_auto_ok demo_pg" by (simp add: pg_auto_ok_def)
  then have "pg_auto_ok demo_pg_queue"
    unfolding demo_pg_queue_def by (intro pg_auto_keeps sound_pg_queue tx_safe_queue)
  then show "pg_ok demo_pg_queue" "pg_tx demo_pg_queue = None" by (auto simp: pg_auto_ok_def)
  show "pg_issued demo_pg_queue 2" by code_simp
qed


theorem postgres_dequeue_picks_best_witness: "fst (pg_DequeueStep ''w'' demo_pg_queue) \<noteq> Ok None"
proof
  assume none: "fst (pg_DequeueStep ''w'' demo_pg_queue) = Ok None"
  obtain r t where run: "pg_DequeueStep ''w'' demo_pg_queue = (r, t)" by fastforce
  have "\<not> list_all (\<lambda>q. \<not> pg_is_due demo_pg_queue q) (t_queue (pg_db demo_pg_queue))" by code_simp
  with postgres_dequeue_picks_best [OF demo_pg_queue_facts(2) run] none run show False by (auto simp: list_all_iff)
qed

section \<open>Joins\<close>

lemma pg_find_join_update:
  assumes "pg_find_join i j t = Some js" and "\<And>r. join_row i j (f r) = join_row i j r"
  shows "pg_find_join i j (t\<lparr>t_joins := update_rows (join_row i j) f (t_joins t)\<rparr>) = Some (f js)"
  using find_update_rows [of "join_row i j" "t_joins t" js f] assms by (simp add: pg_find_join_def)

text \<open>What a join shows its clients: everything but the time of its last change.\<close>

definition join_view :: "join_state \<Rightarrow> join_state" where
  "join_view js = js\<lparr>js_UpdatedAt := 0\<rparr>"

lemma pg_UpdateJoinState_run:
  assumes "pg_tx s = None" and "pg_find_join i j (pg_db s) = Some js"
  shows "\<exists>t. pg_UpdateJoinState i j n b s = (Ok (js_IsReady (refresh_ready (micro (pg_clock s)) (note_verdict (n, b) js))), t) \<and>
    pg_find_join i j (pg_db t) = Some (refresh_ready (micro (pg_clock s)) (note_verdict (n, b) js))"
proof -
  define js' where "js' = refresh_ready (micro (pg_clock s)) (note_verdict (n, b) js)"
  define f :: "join_state \<Rightarrow> join_state" where "f r = r\<lparr>js_Completed := js_Completed js', js_Failed := js_Failed js', js_IsReady := js_IsReady js',
    js_UpdatedAt := js_UpdatedAt js'\<rparr>" for r
  let ?t = "s\<lparr>pg_clock := pg_clock s + 1,
    pg_db := (pg_db s)\<lparr>t_joins := update_rows (join_row i j) f (t_joins (pg_db s))\<rparr>\<rparr>"
  have "pg_UpdateJoinState i j n b s = (Ok (js_IsReady js'), ?t)"
    using assms
    by (simp add: pg_UpdateJoinState_def pg_update_join_def stmt_run exec_auto pg_time_now_def Let_def js'_def f_def [abs_def]
        note_verdict_def)
  moreover have "pg_find_join i j (pg_db ?t) = Some (f js)"
    using pg_find_join_update [OF assms(2), of f] by (simp add: f_def join_row_def)
  moreover have "f js = js'"
    by (simp add: f_def js'_def refresh_ready_def note_verdict_def mark_success_def mark_failure_def)
  ultimately show ?thesis unfolding js'_def by auto
qed

lemma pg_AddToJoinWaitFor_run:
  assumes "pg_tx s = None" and "pg_find_join i j (pg_db s) = Some js"
  shows "\<exists>t js'. pg_AddToJoinWaitFor i j n s = (Ok (), t) \<and> pg_find_join i j (pg_db t) = Some js' \<and>
    join_view js' = join_view (if n \<in> set (js_WaitingFor js) then js
      else refresh_ready 0 (js\<lparr>js_WaitingFor := js_WaitingFor js @ [n]\<rparr>))"
proof (cases "n \<in> set (js_WaitingFor js)")
  case True
  with assms show ?thesis by (auto simp: pg_AddToJoinWaitFor_def stmt_run exec_auto)
next
  case False
  define js' where "js' = refresh_ready (micro (pg_clock s)) (js\<lparr>js_WaitingFor := js_WaitingFor js @ [n]\<rparr>)"
  define f :: "join_state \<Rightarrow> join_state" where "f r = r\<lparr>js_WaitingFor := js_WaitingFor js', js_IsReady := js_IsReady js', js_UpdatedAt := js_UpdatedAt js'\<rparr>" for r
  have "pg_AddToJoinWaitFor i j n s = (Ok (), s\<lparr>pg_clock := pg_clock s + 1,
      pg_db := (pg_db s)\<lparr>t_joins := update_rows (join_row i j) f (t_joins (pg_db s))\<rparr>\<rparr>)"
    using assms False
    by (simp add: pg_AddToJoinWaitFor_def pg_update_join_def stmt_run exec_auto pg_time_now_def Let_def js'_def f_def [abs_def])
  moreover have "f js = js'" by (simp add: f_def js'_def refresh_ready_def)
  moreover have "join_row i j (f r) = join_row i j r" for r by (simp add: f_def join_row_def)
  ultimately show ?thesis
    using pg_find_join_update [OF assms(2), of f] False by (simp add: js'_def join_view_def refresh_ready_def)
qed

text \<open>
  C21: The joins of the PostgreSQL store are those of the memory store: from the same join state, a notification about any branch
  (also one that changes its verdict) returns the same answer in both and leaves the same join state up to the time of
  the change, and so does adding a step to wait for.
\<close>

theorem postgres_join_agrees:
  assumes "pg_tx s = None" and "pg_find_join i j (pg_db s) = Some js"
    and "map_of (ms_joinStates m) (joinStateKey i j) = Some js"
  shows "(\<exists>r t u a b. pg_UpdateJoinState i j n success s = (Ok r, t) \<and> UpdateJoinState i j n success m = (Ok r, u) \<and>
      pg_find_join i j (pg_db t) = Some a \<and> map_of (ms_joinStates u) (joinStateKey i j) = Some b \<and> join_view a = join_view b) \<and>
    (\<exists>t u a b. pg_AddToJoinWaitFor i j n s = (Ok (), t) \<and> AddToJoinWaitFor i j n m = (Ok (), u) \<and>
      pg_find_join i j (pg_db t) = Some a \<and> map_of (ms_joinStates u) (joinStateKey i j) = Some b \<and> join_view a = join_view b)"
proof (rule conjI)
  show "\<exists>r t u a b. pg_UpdateJoinState i j n success s = (Ok r, t) \<and> UpdateJoinState i j n success m = (Ok r, u) \<and>
      pg_find_join i j (pg_db t) = Some a \<and> map_of (ms_joinStates u) (joinStateKey i j) = Some b \<and> join_view a = join_view b"
    using pg_UpdateJoinState_run [OF assms(1,2), of n success] memory_UpdateJoinState_run [OF assms(3), of n success]
    by (auto simp: join_view_def refresh_ready_def)
  have "\<exists>u b. AddToJoinWaitFor i j n m = (Ok (), u) \<and> map_of (ms_joinStates u) (joinStateKey i j) = Some b \<and>
    join_view b = join_view (if n \<in> set (js_WaitingFor js) then js
      else refresh_ready 0 (js\<lparr>js_WaitingFor := js_WaitingFor js @ [n]\<rparr>))"
    using assms(3) by (simp add: AddToJoinWaitFor_def run_simps time_now_def put_join_def join_view_def refresh_ready_def)
  with pg_AddToJoinWaitFor_run [OF assms(1,2), of n]
  show "\<exists>t u a b. pg_AddToJoinWaitFor i j n s = (Ok (), t) \<and> AddToJoinWaitFor i j n m = (Ok (), u) \<and>
      pg_find_join i j (pg_db t) = Some a \<and> map_of (ms_joinStates u) (joinStateKey i j) = Some b \<and> join_view a = join_view b"
    by metis
qed

definition demo_pg_join :: pg_store where
  "demo_pg_join = demo_pg\<lparr>pg_db := (pg_db demo_pg)\<lparr>t_joins := [demo_join]\<rparr>\<rparr>"

theorem postgres_join_agrees_witness:
  "\<exists>r t u. pg_UpdateJoinState 1 ''join'' ''a'' False demo_pg_join = (Ok r, t) \<and>
     UpdateJoinState 1 ''join'' ''a'' False
       ((NewMemoryStore 1 (\<lambda>n. []))\<lparr>ms_joinStates := [(joinStateKey 1 ''join'', demo_join)]\<rparr>) = (Ok r, u)"
proof -
  have "pg_tx demo_pg_join = None" by code_simp
  moreover have "pg_find_join 1 ''join'' (pg_db demo_pg_join) = Some demo_join"
    by (simp add: demo_pg_join_def pg_find_join_def join_row_def demo_join_def)
  ultimately show ?thesis
    using postgres_join_agrees [OF _ _ demo_join_stored(2), of demo_pg_join "''a''" False] by blast
qed

end
