(* ===== verification/Postgres_Records.thy ===== *)
theory Postgres_Records
  imports Postgres_Laws
begin

text \<open>
  The PostgreSQL store, continued: the definition cache, requeueing of dead letters, clean-up, the count of
  compensation attempts and repeated cancel requests.
\<close>

section \<open>The definition cache\<close>

definition coherent :: "pg_store \<Rightarrow> bool" where
  "coherent s \<longleftrightarrow> (\<forall>k e. map_of (pg_defCache s) k = Some e \<longrightarrow>
     ce_def e \<in> set (t_definitions (pg_db s)) \<and> wd_ID (ce_def e) = k)"

text \<open>Most operations touch neither the definitions nor the cache.\<close>

abbreviation def_part :: "pg_store \<Rightarrow> workflow_definition list \<times> (string, workflowDefCacheEntry) gomap" where
  "def_part s \<equiv> (t_definitions (pg_db s), pg_defCache s)"

abbreviation off_defs :: "'a pprog \<Rightarrow> bool" where
  "off_defs m \<equiv> moves (same def_part) m"

lemma off_modify: "(\<And>s. def_part (f s) = def_part s) \<Longrightarrow> off_defs (modify f)"
  by (rule same.moves_modify) (simp add: same_def)

lemma off_on_db: "(\<And>t. t_definitions (f t) = t_definitions t) \<Longrightarrow> off_defs (on_db f)"
  unfolding on_db_def by (rule off_modify) simp

lemma off_from_db: "off_defs (from_db f)"
  unfolding from_db_def by (rule same.moves_gets)

lemma off_nextval: "off_defs (nextval q)"
  by (rule movesI) (simp add: same_def nextval_def)

lemma off_require: "off_defs (require msg c)"
  unfolding require_def by (auto intro!: same.moves_rules off_from_db)

lemma off_jsonb: "off_defs (jsonb r)"
  by (cases r) (simp_all add: jsonb_def same.moves_ret same.moves_throw)

lemma off_time: "off_defs pg_time_now" "off_defs pg_new_uuid"
  by (rule movesI, simp add: same_def pg_time_now_def pg_new_uuid_def)+

lemma off_exec:
  assumes "off_defs q"
  shows "off_defs (exec_sql q)"
proof (rule movesI)
  fix s
  obtain r t where qs: "q s = (r, t)" by fastforce
  with assms have "def_part t = def_part s" by (rule same_result)
  with qs show "same def_part s (snd (exec_sql q s))"
    by (cases r) (auto simp: same_def exec_sql_def split: option.split)
qed

lemma off_enqueue: "off_defs (pg_enqueue i sid t p)"
  unfolding pg_enqueue_def fk_instance_def fk_step_def by (intro same.moves_rules off_nextval off_require off_on_db) simp

lemma delete_instances_definitions [simp]: "t_definitions (delete_instances p t) = t_definitions t"
  by (simp add: delete_instances_def Let_def)

lemmas off_rules = same.moves_rules off_time off_exec off_on_db off_from_db off_nextval off_require off_jsonb off_enqueue

lemma off_instances: "off_defs (pg_CreateInstance w input)" "off_defs (pg_UpdateInstanceStatus i status output err)"
  unfolding pg_op_defs pg_stmt_defs Let_def by (auto intro!: off_rules)

lemma off_steps: "off_defs (pg_CreateStep st)" "off_defs (pg_UpdateStep k ss output err)" "off_defs (pg_UpdateStepStatus k ss)"
  "off_defs (pg_UpdateStepCompensationRetry k n ss)"
  unfolding pg_op_defs pg_stmt_defs Let_def by (auto intro!: off_rules split: option.split)

lemma off_queue: "off_defs (pg_EnqueueStep i sid p d)" "off_defs (pg_DequeueStep worker)" "off_defs (pg_RemoveFromQueue k)"
  "off_defs (pg_ReleaseQueueItem k)" "off_defs (pg_RescheduleAndReleaseQueueItem k d)" "off_defs (pg_LogEvent i sid event payload)"
  unfolding pg_op_defs pg_stmt_defs Let_def by (auto intro!: off_rules split: list.split sum.split)

lemma off_joins: "off_defs (pg_CreateJoinState i j ws strategy)" "off_defs (pg_UpdateJoinState i j name success)"
  "off_defs (pg_AddToJoinWaitFor i j name)" "off_defs (pg_ReplaceInJoinWaitFor i j v name)"
  unfolding pg_op_defs pg_stmt_defs Let_def by (auto intro!: off_rules split: option.split)

lemma off_records: "off_defs (pg_CreateCancelRequest req)" "off_defs (pg_DeleteCancelRequest i)"
  "off_defs (pg_CreateHumanDecision decision)" "off_defs (pg_CreateDeadLetterRecord rec)"
  unfolding pg_op_defs pg_stmt_defs Let_def by (auto intro!: off_rules split: option.split)

lemma off_bulk: "off_defs (pg_RequeueDeadLetter k newInput)" "off_defs (pg_PauseActiveStepsAndClearQueue i)"
  "off_defs (pg_CleanupOldWorkflows days)"
  unfolding pg_op_defs pg_stmt_defs Let_def by (auto intro!: off_rules split: option.split)

lemma off_aging: "off_defs (pg_SetAgingEnabled b)" "off_defs (pg_SetAgingRate rate)"
  unfolding pg_op_defs by (rule off_modify, simp)+

lemmas off_operations = off_instances off_steps off_queue off_joins off_records off_bulk off_aging

lemma coherent_off: "off_defs m \<Longrightarrow> coherent s \<Longrightarrow> coherent (snd (m s))"
  using movesD [of "same def_part" m s] by (simp add: same_def coherent_def)

lemma coherent_delete: "coherent s \<Longrightarrow> coherent (s\<lparr>pg_defCache := AList.delete k (pg_defCache s)\<rparr>)"
  by (auto simp: coherent_def delete_conv')

lemma coherent_Save:
  assumes ok: "pg_ok s" and tx: "pg_tx s = None" and coh: "coherent s"
  shows "coherent (snd (pg_SaveWorkflowDefinition arg s))"
proof (cases arg)
  case (Some def)
  have dist: "distinct (map wd_ID (t_definitions (pg_db s)))" using ok by (simp add: pg_ok_def schema_ok_def keys_ok_def)
  show ?thesis
  proof (cases "find (same_version def) (t_definitions (pg_db s))")
    case None
    with Some tx coh show ?thesis
      by (auto simp: pg_SaveWorkflowDefinition_def upsert_definition_def stmt_run pg_time_now_def exec_auto
          pg_InvalidateDefinitionCache_def coherent_def delete_conv')
  next
    case (Some d)
    then have d: "d \<in> set (t_definitions (pg_db s))" "same_version def d" by (auto simp: find_Some_iff)
    have other: "\<not> same_version def x" if "x \<in> set (t_definitions (pg_db s))" "wd_ID x \<noteq> wd_ID d" for x
    proof
      assume "same_version def x"
      with d have "(wd_Name x, wd_Version x) = (wd_Name d, wd_Version d)" by (simp add: same_version_def)
      moreover have "inj_on (\<lambda>d. (wd_Name d, wd_Version d)) (set (t_definitions (pg_db s)))"
        using ok by (simp add: pg_ok_def schema_ok_def keys_ok_def distinct_map)
      ultimately have "x = d" using d(1) that(1) by (auto dest: inj_onD)
      with that(2) show False by simp
    qed
    from Some \<open>arg = Some def\<close> tx coh other show ?thesis
      by (auto simp: pg_SaveWorkflowDefinition_def upsert_definition_def stmt_run pg_time_now_def exec_auto
          pg_InvalidateDefinitionCache_def coherent_def delete_conv' update_rows_def image_iff split: if_splits)
  qed
qed (use coh in \<open>simp add: pg_SaveWorkflowDefinition_def throw_def\<close>)

lemma GetWorkflowDefinition_run:
  assumes ok: "pg_ok s" and tx: "pg_tx s = None" and coh: "coherent s"
  shows "fst (pg_GetWorkflowDefinition w s) =
      (case find (\<lambda>d. wd_ID d = w) (t_definitions (pg_db s)) of None \<Rightarrow> Err ErrEntityNotFound | Some d \<Rightarrow> Ok d) \<and>
    coherent (snd (pg_GetWorkflowDefinition w s))"
proof -
  have dist: "distinct (map wd_ID (t_definitions (pg_db s)))" using ok by (simp add: pg_ok_def schema_ok_def keys_ok_def)
  have found: "find (\<lambda>d. wd_ID d = w) (t_definitions (pg_db s)) = Some (ce_def e)" if "map_of (pg_defCache s) w = Some e" for e
  proof -
    from coh that have e: "ce_def e \<in> set (t_definitions (pg_db s))" "wd_ID (ce_def e) = w" by (auto simp: coherent_def)
    obtain d where d: "find (\<lambda>d. wd_ID d = w) (t_definitions (pg_db s)) = Some d"
      using e by (cases "find (\<lambda>d. wd_ID d = w) (t_definitions (pg_db s))") (auto simp: find_None_iff)
    then have "d \<in> set (t_definitions (pg_db s))" "wd_ID d = w" by (auto simp: find_Some_iff)
    with e dist have "d = ce_def e" by (auto simp: distinct_map dest: inj_onD)
    with d show ?thesis by simp
  qed
  have filt: "(case filter (\<lambda>d. wd_ID d = w) ds of [] \<Rightarrow> a | d # _ \<Rightarrow> b d) =
      (case find (\<lambda>d. wd_ID d = w) ds of None \<Rightarrow> a | Some d \<Rightarrow> b d)" for ds a and b :: "workflow_definition \<Rightarrow> 'c"
    by (induction ds) auto
  have mem: "d \<in> set ds \<and> wd_ID d = w" if "find (\<lambda>d. wd_ID d = w) ds = Some d" for d ds
    using that by (auto simp: find_Some_iff)
  show ?thesis
    using found coh tx
    by (auto dest: mem simp: pg_GetWorkflowDefinition_def cached_definition_def pg_query_row_def stmt_run exec_auto filt
        pg_time_now_def pg_InvalidateDefinitionCache_def coherent_def delete_conv' update_conv'
        split: option.splits if_splits)
qed

text \<open>Steps outside transactions.\<close>

definition auto_step :: "pg_store \<Rightarrow> pg_store \<Rightarrow> bool" where
  "auto_step s t \<longleftrightarrow> pg_step s t \<and> pg_tx s = None \<and> pg_tx t = None"

lemma coherent_TTL: "coherent s \<Longrightarrow> coherent (snd (pg_SetDefinitionCacheTTL ttl s))"
  by (simp add: pg_SetDefinitionCacheTTL_def pg_ClearDefinitionCache_def run_simps coherent_def)

lemma coherent_step: "pg_step s t \<Longrightarrow> pg_tx s = None \<Longrightarrow> pg_tx t = None \<Longrightarrow> pg_ok s \<Longrightarrow> coherent s \<Longrightarrow> coherent t"
proof (induction rule: pg_step.induct)
  case (SaveWorkflowDefinition s def)
  then show ?case by (intro coherent_Save)
next
  case (GetWorkflowDefinition s w)
  then show ?case using GetWorkflowDefinition_run [of s w] by simp
next
  case (SetDefinitionCacheTTL s ttl)
  then show ?case by (intro coherent_TTL)
next
  case (commit_tx s)
  then show ?case by (simp add: tx_commit_def)
next
  case (rollback_tx s)
  then show ?case by (simp add: tx_rollback_def)
qed (simp_all add: coherent_off off_operations, simp_all add: coherent_def)

lemma auto_run:
  assumes "auto_step\<^sup>*\<^sup>* (pg_NewStore now uuids parse) s"
  shows "pg_ok s \<and> pg_tx s = None \<and> coherent s"
  using assms
proof (induction rule: rtranclp_induct)
  case base
  have "pg_tx (pg_NewStore now uuids parse) = None" "coherent (pg_NewStore now uuids parse)"
    by (simp_all add: pg_NewStore_def coherent_def)
  then show ?case by (simp add: pg_ok_new)
next
  case (step y z)
  then have "pg_step y z" "pg_tx y = None" "pg_tx z = None" by (simp_all add: auto_step_def)
  moreover from \<open>pg_step y z\<close> have "keeps pg_ok y z" by (rule pg_step_sound)
  ultimately show ?case using step.IH coherent_step by (auto simp: keeps_def)
qed

text \<open>
  C22: The definition cache is transparent: after any operations outside transactions, at any time and with any expiry setting,
  \<open>GetWorkflowDefinition\<close> returns exactly the stored definition with the identifier, also when it was saved again
  under its name and version in between, and reports a missing one as not found.
\<close>

theorem postgres_cache_transparent:
  assumes "auto_step\<^sup>*\<^sup>* (pg_NewStore now uuids parse) s"
  shows "fst (pg_GetWorkflowDefinition w s) =
    (case find (\<lambda>d. wd_ID d = w) (t_definitions (pg_db s)) of None \<Rightarrow> Err ErrEntityNotFound | Some d \<Rightarrow> Ok d)"
  using auto_run [OF assms] GetWorkflowDefinition_run [of s w] by simp

definition demo_saved_again :: pg_store where
  "demo_saved_again = snd (pg_SaveWorkflowDefinition (Some (demo_definition\<lparr>wd_ID := ''x'', wd_Definition := \<lparr>gd_Steps = [], gd_Start = ''b'',
     gd_DLQEnabled = True\<rparr>\<rparr>)) (snd (pg_GetWorkflowDefinition ''w''
       (snd (pg_SaveWorkflowDefinition (Some demo_definition) (pg_NewStore 5000 (\<lambda>n. ''u'') Some))))))"

theorem postgres_cache_transparent_witness:
  "map_option def_start (case fst (pg_GetWorkflowDefinition ''w'' demo_saved_again) of Ok d \<Rightarrow> Some d | _ \<Rightarrow> None) = Some ''b''"
proof -
  let ?s0 = "pg_NewStore 5000 (\<lambda>n. ''u'') Some"
  let ?s1 = "snd (pg_SaveWorkflowDefinition (Some demo_definition) ?s0)"
  let ?s2 = "snd (pg_GetWorkflowDefinition ''w'' ?s1)"
  have tx: "pg_tx ?s0 = None" "pg_tx ?s1 = None" "pg_tx ?s2 = None" "pg_tx demo_saved_again = None" by code_simp+
  have "auto_step ?s0 ?s1" using tx by (simp add: auto_step_def pg_step.SaveWorkflowDefinition)
  moreover have "auto_step ?s1 ?s2" using tx by (simp add: auto_step_def pg_step.GetWorkflowDefinition)
  moreover have "auto_step ?s2 demo_saved_again"
    unfolding auto_step_def using tx by (auto simp: demo_saved_again_def intro: pg_step.SaveWorkflowDefinition)
  ultimately have "auto_step\<^sup>*\<^sup>* ?s0 demo_saved_again" by (meson converse_rtranclp_into_rtranclp rtranclp.rtrancl_refl)
  from postgres_cache_transparent [OF this, of "''w''"]
  have "fst (pg_GetWorkflowDefinition ''w'' demo_saved_again) =
    (case find (\<lambda>d. wd_ID d = ''w'') (t_definitions (pg_db demo_saved_again)) of None \<Rightarrow> Err ErrEntityNotFound | Some d \<Rightarrow> Ok d)" .
  moreover have "map_option def_start (find (\<lambda>d. wd_ID d = ''w'') (t_definitions (pg_db demo_saved_again))) = Some ''b''"
    by code_simp
  ultimately show ?thesis by (cases "find (\<lambda>d. wd_ID d = ''w'') (t_definitions (pg_db demo_saved_again))") auto
qed

text \<open>
  The cache does not follow a rollback.  A transaction that saves a new graph under the name and version of a stored definition,
  reads the definition and then fails leaves the tables as they were, but the cache with the graph that was never
  committed: the next reader, outside the transaction, gets that one.
\<close>

theorem postgres_cache_survives_rollback:
  assumes "pg_ok s" and "pg_tx s = None" and "1 < pg_defCacheTTL s"
    and "find (same_version new) (t_definitions (pg_db s)) = Some old" and "wd_ID old = w"
    and "pg_ReadCommitted (thn (pg_SaveWorkflowDefinition (Some new)) (thn (pg_GetWorkflowDefinition w) (throw e))) s = (r, t)"
  shows "r = Err e \<and> pg_db t = pg_db s \<and>
    fst (pg_GetWorkflowDefinition w t) = Ok (old\<lparr>wd_Definition := wd_Definition new\<rparr>)"
proof -
  have old: "old \<in> set (t_definitions (pg_db s))" "same_version new old" using assms(4) by (auto simp: find_Some_iff)
  have dist: "distinct (map wd_ID (t_definitions (pg_db s)))"
    using assms(1) by (simp add: pg_ok_def schema_ok_def keys_ok_def)
  have row: "filter (\<lambda>d. wd_ID d = w) (update_rows (same_version new) (\<lambda>d. d\<lparr>wd_Definition := wd_Definition new\<rparr>) ds) =
      [old\<lparr>wd_Definition := wd_Definition new\<rparr>]" if "old \<in> set ds" "distinct (map wd_ID ds)" for ds
    using that
  proof (induction ds)
    case (Cons d ds)
    show ?case
    proof (cases "d = old")
      case True
      then have "w \<notin> wd_ID ` set ds" using Cons.prems(2) assms(5) by simp
      then have "filter (\<lambda>d. wd_ID d = w) (update_rows (same_version new) (\<lambda>d. d\<lparr>wd_Definition := wd_Definition new\<rparr>) ds) = []"
        by (auto simp: filter_empty_conv update_rows_def image_iff)
      with True old(2) assms(5) show ?thesis by (simp add: update_rows_def)
    next
      case False
      then have "old \<in> set ds" using Cons.prems(1) by simp
      with Cons.prems(2) have "wd_ID d \<noteq> w" using assms(5) by (metis distinct.simps(2) image_eqI list.set_map list.simps(9))
      with Cons False show ?thesis by (simp add: update_rows_def)
    qed
  qed simp
  from row [OF old(1) dist] assms(2-6) show ?thesis
    by (auto simp: pg_ReadCommitted_def pg_run_def tx_rollback_def pg_SaveWorkflowDefinition_def upsert_definition_def stmt_run
        pg_time_now_def exec_sql_def pg_InvalidateDefinitionCache_def pg_GetWorkflowDefinition_def cached_definition_def
        pg_query_row_def delete_conv' update_conv')
qed

theorem postgres_cache_survives_rollback_witness:
  "\<exists>t. pg_db t = pg_db demo_pg \<and> fst (pg_GetWorkflowDefinition ''w'' t) = Ok (demo_definition\<lparr>wd_CreatedAt := 5000,
     wd_Definition := \<lparr>gd_Steps = [], gd_Start = ''b'', gd_DLQEnabled = True\<rparr>\<rparr>)"
proof -
  let ?new = "demo_definition\<lparr>wd_Definition := \<lparr>gd_Steps = [], gd_Start = ''b'', gd_DLQEnabled = True\<rparr>\<rparr>"
  obtain r t where rt: "pg_ReadCommitted (thn (pg_SaveWorkflowDefinition (Some ?new))
      (thn (pg_GetWorkflowDefinition ''w'') (throw ErrEntityNotFound :: unit pprog))) demo_pg = (r, t)" by fastforce
  have "pg_tx demo_pg = None" "1 < pg_defCacheTTL demo_pg"
    "find (same_version ?new) (t_definitions (pg_db demo_pg)) = Some (demo_definition\<lparr>wd_CreatedAt := 5000\<rparr>)" by code_simp+
  from postgres_cache_survives_rollback [OF demo_pg_ok this _ rt]
  have "pg_db t = pg_db demo_pg" "fst (pg_GetWorkflowDefinition ''w'' t) =
      Ok (demo_definition\<lparr>wd_CreatedAt := 5000, wd_Definition := wd_Definition ?new\<rparr>)"
    by (simp_all add: demo_definition_def)
  then show ?thesis by (intro exI [of _ t]) simp
qed

section \<open>Dead letters\<close>

lemma letter_step:
  assumes "refs_ok t" and "rec \<in> set (t_letters t)"
  obtains target where "find (\<lambda>st. ws_ID st = dl_StepID rec) (t_steps t) = Some target" "ws_ID target = dl_StepID rec"
    "has_instance (ws_InstanceID target) t" "has_step (dl_StepID rec) t"
proof -
  from assms have st: "has_step (dl_StepID rec) t" by (auto simp: refs_ok_def)
  then obtain target where "find (\<lambda>st. ws_ID st = dl_StepID rec) (t_steps t) = Some target"
    by (cases "find (\<lambda>st. ws_ID st = dl_StepID rec) (t_steps t)") (auto simp: has_step_def find_None_iff)
  moreover from this have "target \<in> set (t_steps t)" "ws_ID target = dl_StepID rec" by (auto simp: find_Some_iff)
  moreover from this assms(1) have "has_instance (ws_InstanceID target) t" by (auto simp: refs_ok_def)
  ultimately show ?thesis using st by (intro that)
qed

text \<open>
  Requeueing a dead letter with PostgreSQL, one statement: the step is pending again with its counters reset and the
  new input if there is one, else the one kept with the letter, else its own; it is queued, due at once, with the lowest priority; the
  paused joins of its instance are pending again, a failed or dead instance runs, and the letter is gone.  A letter that does not
  exist changes nothing, and is no error.
\<close>

theorem postgres_requeue_exact:
  assumes "pg_ok s" and "pg_tx s = None" and "\<And>txt. newInput \<noteq> Some (RawText txt)"
  shows "(case find (\<lambda>r. dl_ID r = k) (t_letters (pg_db s)) of
      None \<Rightarrow> pg_RequeueDeadLetter k newInput s = (Ok (), s)
    | Some rec \<Rightarrow> \<exists>target. find (\<lambda>st. ws_ID st = dl_StepID rec) (t_steps (pg_db s)) = Some target \<and>
        (let t = pg_db s; now = micro (pg_clock s) in
         pg_RequeueDeadLetter k newInput s =
          (Ok (), s\<lparr>pg_seq := (pg_seq s)(QueueSeq := pg_seq s QueueSeq + 1),
             pg_db := t\<lparr>
               t_steps := map (\<lambda>st. if ws_ID st = ws_ID target then reset_step (coalesce_input newInput (dl_Input rec)) st
                  else if ws_InstanceID st = ws_InstanceID target then resume_join st else st) (t_steps t),
               t_queue := t_queue t @ [\<lparr>qi_ID = pg_seq s QueueSeq + 1, qi_InstanceID = ws_InstanceID target,
                  qi_StepID = Some (ws_ID target), qi_ScheduledAt = now, qi_AttemptedAt = None, qi_AttemptedBy = None,
                  qi_Priority = PriorityLow\<rparr>],
               t_instances := map (\<lambda>i. if wi_ID i = ws_InstanceID target \<and> wi_Status i \<in> {StatusFailed, StatusDLQ}
                  then i\<lparr>wi_Status := StatusRunning, wi_Error := None, wi_UpdatedAt := now\<rparr> else i) (t_instances t),
               t_letters := remove1 rec (t_letters t)\<rparr>\<rparr>)))"
proof -
  have json: "(case newInput of None \<Rightarrow> ret () | Some inp \<Rightarrow> jsonb inp) = (ret () :: unit pprog)"
    using assms(3) by (auto simp: jsonb_def split: option.split raw.split)
  show ?thesis
  proof (cases "find (\<lambda>r. dl_ID r = k) (t_letters (pg_db s))")
    case None
    with assms(2) json show ?thesis by (simp add: pg_RequeueDeadLetter_def stmt_run exec_auto)
  next
    case (Some rec)
    then have rec: "rec \<in> set (t_letters (pg_db s))" by (auto simp: find_Some_iff)
    have refs: "refs_ok (pg_db s)" using assms(1) by (simp add: pg_ok_def schema_ok_def)
    obtain target where t: "find (\<lambda>st. ws_ID st = dl_StepID rec) (t_steps (pg_db s)) = Some target"
        "ws_ID target = dl_StepID rec" "has_instance (ws_InstanceID target) (pg_db s)" "has_step (dl_StepID rec) (pg_db s)"
      using letter_step [OF refs rec] by blast
    have "distinct (map dl_ID (t_letters (pg_db s)))"
      using assms(1) by (auto simp: pg_ok_def schema_ok_def keys_ok_def intro: rows_ok_distinct)
    then have letters: "filter (\<lambda>r. dl_ID r \<noteq> k) (t_letters (pg_db s)) = remove1 rec (t_letters (pg_db s))"
      by (rule filter_other_keys [OF Some])
    have ids: "ws_ID ` set (update_rows (\<lambda>_. True) (requeue_step target inp) (t_steps (pg_db s))) = ws_ID ` set (t_steps (pg_db s))" for inp
      by (rule image_update_rows) (rule requeue_step_keeps)
    from Some t assms(2) json letters ids show ?thesis
      by (simp add: pg_RequeueDeadLetter_def stmt_run exec_auto pg_update_steps_def pg_enqueue_def pg_update_instances_def
          fk_instance_def fk_step_def has_defs opt_step_def db_now_def Let_def update_rows_def requeue_step_def [abs_def]
          PriorityLow_def cong: if_cong)
  qed
qed

definition demo_pg_letters :: pg_store where
  "demo_pg_letters =
     snd (pg_CreateDeadLetterRecord (Some \<lparr>dl_ID = 0, dl_InstanceID = 1, dl_WorkflowID = ''w'', dl_StepID = 1, dl_StepName = ''a'',
       dl_StepType = ''task'', dl_Input = RawNil, dl_Error = None, dl_Reason = ''failed'', dl_CreatedAt = 0\<rparr>)
     (snd (pg_CreateStep (Some (new_step 1 ''a'' StepTypeTask StepStatusPaused (RawJSON JNull) 3)) demo_pg)))"

lemma demo_pg_letters_facts: "pg_ok demo_pg_letters" "pg_tx demo_pg_letters = None"
proof -
  have "pg_tx demo_pg = None" by code_simp
  with demo_pg_ok have "pg_auto_ok demo_pg" by (simp add: pg_auto_ok_def)
  then have "pg_auto_ok demo_pg_letters"
    unfolding demo_pg_letters_def
    by (intro pg_auto_keeps sound_pg_CreateDeadLetterRecord sound_pg_CreateStep tx_safe_operations)
  then show "pg_ok demo_pg_letters" "pg_tx demo_pg_letters = None" by (auto simp: pg_auto_ok_def)
qed

theorem postgres_requeue_exact_witness:
  "\<exists>t. pg_RequeueDeadLetter 1 None demo_pg_letters = (Ok (), t) \<and> map qi_StepID (t_queue (pg_db t)) = [Some 1] \<and> t_letters (pg_db t) = []"
proof -
  have "map dl_ID (t_letters (pg_db demo_pg_letters)) = [1]" "t_queue (pg_db demo_pg_letters) = []"
    "map ws_ID (t_steps (pg_db demo_pg_letters)) = [1]" "map dl_StepID (t_letters (pg_db demo_pg_letters)) = [1]" by code_simp+
  then obtain rec st where demo: "t_letters (pg_db demo_pg_letters) = [rec]" "dl_ID rec = 1" "dl_StepID rec = 1"
      "t_queue (pg_db demo_pg_letters) = []" "t_steps (pg_db demo_pg_letters) = [st]" "ws_ID st = 1"
    by (auto simp: map_eq_Cons_conv)
  then show ?thesis using postgres_requeue_exact [OF demo_pg_letters_facts, of None 1] by (simp add: Let_def)
qed

section \<open>Clean-up\<close>

text \<open>A row stays exactly if the rows it refers to stay.\<close>

lemma delete_instances_exact:
  assumes ok: "schema_ok a seq" and b_def: "b = delete_instances p a"
  shows "t_steps b = filter (\<lambda>st. has_instance (ws_InstanceID st) b) (t_steps a) \<and>
    t_queue b = filter (\<lambda>q. has_instance (qi_InstanceID q) b \<and> opt_step (qi_StepID q) b) (t_queue a) \<and>
    t_events b = filter (\<lambda>ev. has_instance (we_InstanceID ev) b \<and> opt_step (we_StepID ev) b) (t_events a) \<and>
    t_joins b = filter (\<lambda>js. has_instance (js_InstanceID js) b) (t_joins a) \<and>
    t_cancels b = filter (\<lambda>c. has_instance (cr_InstanceID c) b) (t_cancels a) \<and>
    t_decisions b = filter (\<lambda>d. has_instance (hd_InstanceID d) b \<and> has_step (hd_StepID d) b) (t_decisions a) \<and>
    t_letters b = filter (\<lambda>l. has_instance (dl_InstanceID l) b \<and> has_step (dl_StepID l) b) (t_letters a)"
proof -
  define gone where "gone k \<longleftrightarrow> (\<exists>i \<in> set (t_instances a). wi_ID i = k \<and> p i)" for k
  define gone_step where "gone_step k \<longleftrightarrow> (\<exists>st \<in> set (t_steps a). ws_ID st = k \<and> gone (ws_InstanceID st))" for k
  note b = b_def [unfolded delete_instances_def Let_def, folded gone_def, folded gone_step_def]
  have inj: "inj_on wi_ID (set (t_instances a))" "inj_on ws_ID (set (t_steps a))"
    using ok by (auto simp: schema_ok_def keys_ok_def dest!: rows_ok_distinct simp: distinct_map)
  have inst: "has_instance k b \<longleftrightarrow> \<not> gone k" if "has_instance k a" for k
    using that inj(1) unfolding b gone_def by (auto simp: has_instance_def dest: inj_onD)
  have st: "has_step k b \<longleftrightarrow> \<not> gone_step k" if "has_step k a" for k
    using that inj(2) unfolding b gone_step_def by (auto simp: has_step_def dest: inj_onD)
  have opt: "opt_step k b \<longleftrightarrow> \<not> (case k of None \<Rightarrow> False | Some j \<Rightarrow> gone_step j)" if "opt_step k a" for k
    using that st by (cases k) (auto simp: opt_step_def has_step_def)
  have "refs_ok a" using ok by (simp add: schema_ok_def)
  with inst st opt show ?thesis by (auto simp: refs_ok_def b intro!: filter_cong)
qed



section \<open>Compensation attempts\<close>

text \<open>
  What \<open>ExecuteNext\<close> and \<open>executeCompensationStep\<close> do with the count when the compensation handler of step \<open>k\<close> fails: the
  step is looked up in the list of its instance, and while the count is below the limit it is raised by one and
  the step is tried again (\<open>True\<close>).
\<close>

definition pg_failed_compensation :: "int \<Rightarrow> int \<Rightarrow> int \<Rightarrow> bool pprog" where
  "pg_failed_compensation maxRetries instanceID k =
     bnd (pg_GetStepsByInstance instanceID) (\<lambda>steps.
     case find (\<lambda>st. ws_ID st = k) steps of
       None \<Rightarrow> throw (Errorf ''step not found'')
     | Some st \<Rightarrow>
         if ws_CompensationRetryCount st < maxRetries
         then thn (pg_UpdateStepCompensationRetry k (ws_CompensationRetryCount st + 1) StepStatusCompensation) (ret True)
         else ret False)"

fun pg_attempts :: "nat \<Rightarrow> int \<Rightarrow> int \<Rightarrow> int \<Rightarrow> pg_store \<Rightarrow> pg_store" where
  "pg_attempts 0 maxRetries i k s = s"
| "pg_attempts (Suc n) maxRetries i k s = snd (pg_failed_compensation maxRetries i k (pg_attempts n maxRetries i k s))"

definition stored_step :: "int \<Rightarrow> int \<Rightarrow> pg_store \<Rightarrow> bool" where
  "stored_step i k s \<longleftrightarrow> pg_tx s = None \<and> (i, k) \<in> (\<lambda>st. (ws_InstanceID st, ws_ID st)) ` set (t_steps (pg_db s))"

lemma failed_compensation_run:
  assumes "stored_step i k s" and "0 < maxRetries"
  shows "fst (pg_failed_compensation maxRetries i k s) = Ok True" "stored_step i k (snd (pg_failed_compensation maxRetries i k s))"
    "\<forall>st \<in> set (t_steps (pg_db (snd (pg_failed_compensation maxRetries i k s)))). ws_ID st = k \<longrightarrow> ws_CompensationRetryCount st = 1"
proof -
  let ?steps = "map (\<lambda>st. st\<lparr>ws_CompensationRetryCount := 0\<rparr>) (sort_key ws_CreatedAt (pg_steps_of i (pg_db s)))"
  from assms(1) obtain st0 where "st0 \<in> set (t_steps (pg_db s))" "ws_InstanceID st0 = i" "ws_ID st0 = k"
    by (auto simp: stored_step_def)
  then have "st0\<lparr>ws_CompensationRetryCount := 0\<rparr> \<in> set ?steps" "ws_ID (st0\<lparr>ws_CompensationRetryCount := 0\<rparr>) = k"
    by (auto simp: pg_steps_of_def)
  then obtain st' where st': "find (\<lambda>st. ws_ID st = k) ?steps = Some st'"
    by (cases "find (\<lambda>st. ws_ID st = k) ?steps") (blast dest: find_None_iff [THEN iffD1], blast)
  then have "st' \<in> set ?steps" by (metis find_Some_iff nth_mem)
  then have zero: "ws_CompensationRetryCount st' = 0" by auto
  have run: "pg_failed_compensation maxRetries i k s = (Ok True, s\<lparr>pg_db := (pg_db s)\<lparr>t_steps := update_rows (\<lambda>st. ws_ID st = k)
      (\<lambda>st. st\<lparr>ws_CompensationRetryCount := 1, ws_Status := StepStatusCompensation\<rparr>) (t_steps (pg_db s))\<rparr>\<rparr>)"
    using assms st' zero
    by (simp add: pg_failed_compensation_def pg_GetStepsByInstance_def pg_UpdateStepCompensationRetry_def pg_set_status_def
        pg_update_steps_def stmt_run exec_auto stored_step_def known_step_status_def)
  show "fst (pg_failed_compensation maxRetries i k s) = Ok True" by (simp add: run)
  show "stored_step i k (snd (pg_failed_compensation maxRetries i k s))"
    using assms(1) by (simp add: run stored_step_def image_update_rows)
  show "\<forall>st \<in> set (t_steps (pg_db (snd (pg_failed_compensation maxRetries i k s)))). ws_ID st = k \<longrightarrow> ws_CompensationRetryCount st = 1"
    by (simp add: run ball_update_rows)
qed

text \<open>
  With PostgreSQL a failing compensation is retried for ever: \<open>GetStepsByInstance\<close> does not read the count of compensation attempts, so
  the engine sees zero each time; whatever the limit, if it is positive, the next attempt is always allowed, and the
  stored count never passes one.
\<close>

theorem postgres_compensation_unbounded:
  assumes "stored_step i k s" and "0 < maxRetries"
  shows "fst (pg_failed_compensation maxRetries i k (pg_attempts n maxRetries i k s)) = Ok True \<and>
    (\<forall>st \<in> set (t_steps (pg_db (pg_attempts (Suc n) maxRetries i k s))). ws_ID st = k \<longrightarrow> ws_CompensationRetryCount st = 1)"
proof -
  have "stored_step i k (pg_attempts n maxRetries i k s)"
    by (induction n) (simp_all add: assms failed_compensation_run(2))
  from failed_compensation_run [OF this assms(2)] show ?thesis by simp
qed

theorem postgres_compensation_unbounded_witness:
  "fst (pg_failed_compensation 3 1 1 (pg_attempts 100 3 1 1 demo_pg_letters)) = Ok True"
proof -
  have "list_ex (\<lambda>st. ws_InstanceID st = 1 \<and> ws_ID st = 1) (t_steps (pg_db demo_pg_letters))" by code_simp
  with demo_pg_letters_facts(2) have "stored_step 1 1 demo_pg_letters" by (auto simp: stored_step_def list_ex_iff)
  from postgres_compensation_unbounded [OF this, of 3 100] show ?thesis by simp
qed

section \<open>Cancel requests\<close>

text \<open>
  A second cancel request for an instance fails with the error of a query without rows, where the memory store accepts
  it and keeps the first; the first request stays either way.
\<close>

lemma postgres_second_cancel_fails:
  assumes "pg_tx s = None" and "find (\<lambda>r. cr_InstanceID r = cr_InstanceID req) (t_cancels (pg_db s)) = Some first"
  shows "\<exists>t. pg_CreateCancelRequest (Some req) s = (Err PgErrNoRows, t) \<and> pg_db t = pg_db s"
  using assms by (simp add: pg_CreateCancelRequest_def stmt_run pg_time_now_def exec_auto)

end
