(* ===== verification/Store_Contract.thy ===== *)
theory Store_Contract
  imports Postgres_Records
begin

text \<open>
  The contract that the engine relies on, whichever store is behind the interface \<open>Store\<close> (\<open>src/store_interface.go\<close>): an abstract
  store of definitions, instances, steps, queue items and events, without points in time and idempotency keys, and
  what each call that writes or reads them does to it.  The locale \<open>store_contract\<close> states that a store implements it; the
  memory store, the SQLite store and the PostgreSQL store are instances, so a client that makes only valid calls cannot
  tell them apart.
\<close>

section \<open>The abstract store\<close>

record core =
  c_definitions :: "workflow_definition list"
  c_instances :: "workflow_instance list"
  c_steps :: "workflow_step list"
  c_queue :: "queue_item list"
  c_events :: "workflow_event list"
  c_nextInstance :: int
  c_nextStep :: int
  c_nextQueue :: int
  c_nextEvent :: int

definition era_def :: "workflow_definition \<Rightarrow> workflow_definition" where
  "era_def d = d\<lparr>wd_CreatedAt := 0\<rparr>"

definition era_inst :: "workflow_instance \<Rightarrow> workflow_instance" where
  "era_inst i = i\<lparr>wi_StartedAt := None, wi_CompletedAt := None, wi_CreatedAt := 0, wi_UpdatedAt := 0\<rparr>"

definition era_step :: "workflow_step \<Rightarrow> workflow_step" where
  "era_step st = st\<lparr>ws_IdempotencyKey := [], ws_StartedAt := None, ws_CompletedAt := None, ws_CreatedAt := 0\<rparr>"

definition era_item :: "queue_item \<Rightarrow> queue_item" where
  "era_item q = q\<lparr>qi_ScheduledAt := 0, qi_AttemptedAt := None\<rparr>"

definition era_event :: "workflow_event \<Rightarrow> workflow_event" where
  "era_event ev = ev\<lparr>we_CreatedAt := 0\<rparr>"

lemma era_fields [simp]: "wd_ID (era_def d) = wd_ID d" "wd_Name (era_def d) = wd_Name d" "wd_Version (era_def d) = wd_Version d"
  "wi_ID (era_inst i) = wi_ID i" "ws_ID (era_step st) = ws_ID st" "qi_ID (era_item q) = qi_ID q"
  by (simp_all add: era_def_def era_inst_def era_step_def era_item_def)

datatype store_call =
    SaveDefinition workflow_definition
  | NewInstance string raw
  | SetInstance int workflow_status raw "string option"
  | NewStep int string step_type step_status raw int
  | SetStep int step_status raw "string option"
  | SetStepStatus int step_status
  | SetCompensation int int step_status
  | Enqueue int "int option" int int
  | RemoveItem int
  | ReleaseItem int
  | RescheduleItem int int
  | Log int "int option" string json
  | ReadInstance int
  | ReadStep int

datatype store_reply = Done | Number int | Instance workflow_instance | Step workflow_step

definition set_instance :: "workflow_status \<Rightarrow> raw \<Rightarrow> string option \<Rightarrow> workflow_instance \<Rightarrow> workflow_instance" where
  "set_instance status output err i = i\<lparr>wi_Status := status, wi_Output := output, wi_Error := err\<rparr>"

definition set_step :: "step_status \<Rightarrow> raw \<Rightarrow> string option \<Rightarrow> workflow_step \<Rightarrow> workflow_step" where
  "set_step status output err st = st\<lparr>ws_Status := status, ws_Output := output, ws_Error := err,
     ws_RetryCount := (if status = StepStatusFailed then ws_RetryCount st + 1 else ws_RetryCount st)\<rparr>"

fun spec_call :: "store_call \<Rightarrow> core \<Rightarrow> store_reply \<times> core" where
  "spec_call (SaveDefinition d) c = (Done, c\<lparr>c_definitions := c_definitions c @ [era_def d]\<rparr>)"
| "spec_call (NewInstance w input) c =
     (Number (c_nextInstance c),
      c\<lparr>c_instances := c_instances c @ [\<lparr>wi_ID = c_nextInstance c, wi_WorkflowID = w, wi_Status = StatusPending,
           wi_Input = input, wi_Output = RawNil, wi_Error = None, wi_StartedAt = None, wi_CompletedAt = None,
           wi_CreatedAt = 0, wi_UpdatedAt = 0\<rparr>],
        c_nextInstance := c_nextInstance c + 1\<rparr>)"
| "spec_call (SetInstance i status output err) c =
     (Done, c\<lparr>c_instances := update_rows (\<lambda>x. wi_ID x = i) (set_instance status output err) (c_instances c)\<rparr>)"
| "spec_call (NewStep i name ty st input maxr) c =
     (Number (c_nextStep c),
      c\<lparr>c_steps := c_steps c @ [(new_step i name ty st input maxr)\<lparr>ws_ID := c_nextStep c\<rparr>],
        c_nextStep := c_nextStep c + 1\<rparr>)"
| "spec_call (SetStep k status output err) c =
     (Done, c\<lparr>c_steps := update_rows (\<lambda>x. ws_ID x = k) (set_step status output err) (c_steps c)\<rparr>)"
| "spec_call (SetStepStatus k status) c =
     (Done, c\<lparr>c_steps := update_rows (\<lambda>x. ws_ID x = k) (\<lambda>x. x\<lparr>ws_Status := status\<rparr>) (c_steps c)\<rparr>)"
| "spec_call (SetCompensation k n status) c =
     (Done, c\<lparr>c_steps := update_rows (\<lambda>x. ws_ID x = k)
        (\<lambda>x. x\<lparr>ws_CompensationRetryCount := n, ws_Status := status\<rparr>) (c_steps c)\<rparr>)"
| "spec_call (Enqueue i sid priority delay) c =
     (Done, c\<lparr>c_queue := c_queue c @ [\<lparr>qi_ID = c_nextQueue c, qi_InstanceID = i, qi_StepID = sid, qi_ScheduledAt = 0,
           qi_AttemptedAt = None, qi_AttemptedBy = None, qi_Priority = priority\<rparr>],
        c_nextQueue := c_nextQueue c + 1\<rparr>)"
| "spec_call (RemoveItem k) c = (Done, c\<lparr>c_queue := filter (\<lambda>q. qi_ID q \<noteq> k) (c_queue c)\<rparr>)"
| "spec_call (ReleaseItem k) c =
     (Done, c\<lparr>c_queue := update_rows (\<lambda>q. qi_ID q = k) (\<lambda>q. q\<lparr>qi_AttemptedBy := None\<rparr>) (c_queue c)\<rparr>)"
| "spec_call (RescheduleItem k delay) c =
     (Done, c\<lparr>c_queue := update_rows (\<lambda>q. qi_ID q = k) (\<lambda>q. q\<lparr>qi_AttemptedBy := None\<rparr>) (c_queue c)\<rparr>)"
| "spec_call (Log i sid event payload) c =
     (Done, c\<lparr>c_events := c_events c @ [\<lparr>we_ID = c_nextEvent c, we_InstanceID = i, we_StepID = sid, we_EventType = event,
           we_Payload = payload, we_CreatedAt = 0\<rparr>],
        c_nextEvent := c_nextEvent c + 1\<rparr>)"
| "spec_call (ReadInstance i) c =
     (case find (\<lambda>x. wi_ID x = i) (c_instances c) of None \<Rightarrow> (Done, c) | Some x \<Rightarrow> (Instance x, c))"
| "spec_call (ReadStep k) c =
     (case find (\<lambda>x. ws_ID x = k) (c_steps c) of None \<Rightarrow> (Done, c) | Some x \<Rightarrow> (Step x, c))"

text \<open>A valid call: it names things that exist, and its documents and statuses are proper ones.\<close>

definition is_json :: "raw \<Rightarrow> bool" where
  "is_json r \<longleftrightarrow> (case r of RawText _ \<Rightarrow> False | _ \<Rightarrow> True)"

definition c_has_instance :: "int \<Rightarrow> core \<Rightarrow> bool" where
  "c_has_instance i c \<longleftrightarrow> i \<in> wi_ID ` set (c_instances c)"

definition c_has_step :: "int \<Rightarrow> core \<Rightarrow> bool" where
  "c_has_step k c \<longleftrightarrow> k \<in> ws_ID ` set (c_steps c)"

fun valid_call :: "store_call \<Rightarrow> core \<Rightarrow> bool" where
  "valid_call (SaveDefinition d) c \<longleftrightarrow> wd_ID d \<noteq> [] \<and> wd_ID d \<notin> wd_ID ` set (c_definitions c) \<and>
     (wd_Name d, wd_Version d) \<notin> (\<lambda>d. (wd_Name d, wd_Version d)) ` set (c_definitions c)"
| "valid_call (NewInstance w input) c \<longleftrightarrow> w \<in> wd_ID ` set (c_definitions c) \<and> is_json input"
| "valid_call (SetInstance i status output err) c \<longleftrightarrow> c_has_instance i c \<and> is_json output"
| "valid_call (NewStep i name ty st input maxr) c \<longleftrightarrow>
     c_has_instance i c \<and> known_step_type ty \<and> known_step_status st \<and> is_json input"
| "valid_call (SetStep k status output err) c \<longleftrightarrow> c_has_step k c \<and> known_step_status status \<and> is_json output"
| "valid_call (SetStepStatus k status) c \<longleftrightarrow> c_has_step k c \<and> known_step_status status"
| "valid_call (SetCompensation k n status) c \<longleftrightarrow> c_has_step k c \<and> known_step_status status"
| "valid_call (Enqueue i sid priority delay) c \<longleftrightarrow> c_has_instance i c \<and> (\<forall>k \<in> set_option sid. c_has_step k c)"
| "valid_call (RemoveItem k) c \<longleftrightarrow> True"
| "valid_call (ReleaseItem k) c \<longleftrightarrow> k \<in> qi_ID ` set (c_queue c)"
| "valid_call (RescheduleItem k delay) c \<longleftrightarrow> k \<in> qi_ID ` set (c_queue c)"
| "valid_call (Log i sid event payload) c \<longleftrightarrow> c_has_instance i c \<and> (\<forall>k \<in> set_option sid. c_has_step k c)"
| "valid_call (ReadInstance i) c \<longleftrightarrow> c_has_instance i c"
| "valid_call (ReadStep k) c \<longleftrightarrow> c_has_step k c"

fun spec_calls :: "store_call list \<Rightarrow> core \<Rightarrow> store_reply list \<times> core" where
  "spec_calls [] c = ([], c)"
| "spec_calls (x # xs) c =
     (let (r, d) = spec_call x c; (rs, e) = spec_calls xs d in (r # rs, e))"

fun valid_calls :: "store_call list \<Rightarrow> core \<Rightarrow> bool" where
  "valid_calls [] c = True"
| "valid_calls (x # xs) c = (valid_call x c \<and> valid_calls xs (snd (spec_call x c)))"

fun run_calls :: "(store_call \<Rightarrow> ('s, store_reply) prog) \<Rightarrow> store_call list \<Rightarrow> ('s, store_reply list) prog" where
  "run_calls call [] = ret []"
| "run_calls call (x # xs) = bnd (call x) (\<lambda>r. bnd (run_calls call xs) (\<lambda>rs. ret (r # rs)))"

locale store_contract =
  fixes ok :: "'s \<Rightarrow> bool" and view :: "'s \<Rightarrow> core" and call :: "store_call \<Rightarrow> ('s, store_reply) prog"
  assumes call_ok: "ok s \<Longrightarrow> valid_call x (view s) \<Longrightarrow> ok (snd (call x s))"
    and call_reply: "ok s \<Longrightarrow> valid_call x (view s) \<Longrightarrow> fst (call x s) = Ok (fst (spec_call x (view s)))"
    and call_view: "ok s \<Longrightarrow> valid_call x (view s) \<Longrightarrow> view (snd (call x s)) = snd (spec_call x (view s))"
begin

lemma calls_implement:
  "ok s \<Longrightarrow> valid_calls xs (view s) \<Longrightarrow>
   \<exists>t. run_calls call xs s = (Ok (fst (spec_calls xs (view s))), t) \<and> ok t \<and> view t = snd (spec_calls xs (view s))"
proof (induction xs arbitrary: s)
  case (Cons x xs)
  obtain r u where ru: "call x s = (r, u)" by fastforce
  from Cons.prems have v: "valid_call x (view s)" "valid_calls xs (snd (spec_call x (view s)))" by simp_all
  with Cons.prems(1) ru have u: "ok u" "r = Ok (fst (spec_call x (view s)))" "view u = snd (spec_call x (view s))"
    using call_ok [of s x] call_reply [of s x] call_view [of s x] by auto
  with v Cons.IH [of u] ru show ?case
    by (auto simp: run_simps Let_def split: prod.split)
qed (simp add: ret_def)

end

lemma map_update_view:
  assumes "\<And>x. p' (e x) = p x" and "\<And>x. e (f x) = g (e x)"
  shows "map e (update_rows p f xs) = update_rows p' g (map e xs)"
  by (simp add: update_rows_def assms)

lemma find_map_view: "(\<And>x. p (e x) = q x) \<Longrightarrow> find p (map e xs) = map_option e (find q xs)"
  by (induction xs) auto

section \<open>PostgreSQL\<close>

definition pg_view :: "pg_store \<Rightarrow> core" where
  "pg_view s = \<lparr>c_definitions = map era_def (t_definitions (pg_db s)), c_instances = map era_inst (t_instances (pg_db s)),
     c_steps = map era_step (t_steps (pg_db s)), c_queue = map era_item (t_queue (pg_db s)),
     c_events = map era_event (t_events (pg_db s)), c_nextInstance = pg_seq s InstanceSeq + 1,
     c_nextStep = pg_seq s StepSeq + 1, c_nextQueue = pg_seq s QueueSeq + 1, c_nextEvent = pg_seq s EventSeq + 1\<rparr>"

fun pg_call :: "store_call \<Rightarrow> store_reply pprog" where
  "pg_call (SaveDefinition d) = thn (pg_SaveWorkflowDefinition (Some d)) (ret Done)"
| "pg_call (NewInstance w input) = bnd (pg_CreateInstance w input) (\<lambda>i. ret (Number (wi_ID i)))"
| "pg_call (SetInstance i status output err) = thn (pg_UpdateInstanceStatus i status output err) (ret Done)"
| "pg_call (NewStep i name ty st input maxr) =
     bnd (pg_CreateStep (Some (new_step i name ty st input maxr))) (\<lambda>su. ret (Number (ws_ID su)))"
| "pg_call (SetStep k status output err) = thn (pg_UpdateStep k status output err) (ret Done)"
| "pg_call (SetStepStatus k status) = thn (pg_UpdateStepStatus k status) (ret Done)"
| "pg_call (SetCompensation k n status) = thn (pg_UpdateStepCompensationRetry k n status) (ret Done)"
| "pg_call (Enqueue i sid priority delay) = thn (pg_EnqueueStep i sid priority delay) (ret Done)"
| "pg_call (RemoveItem k) = thn (pg_RemoveFromQueue k) (ret Done)"
| "pg_call (ReleaseItem k) = thn (pg_ReleaseQueueItem k) (ret Done)"
| "pg_call (RescheduleItem k delay) = thn (pg_RescheduleAndReleaseQueueItem k delay) (ret Done)"
| "pg_call (Log i sid event payload) = thn (pg_LogEvent i sid event (Inr payload)) (ret Done)"
| "pg_call (ReadInstance i) = bnd (pg_GetInstance i) (\<lambda>x. ret (Instance (era_inst x)))"
| "pg_call (ReadStep k) = bnd (pg_GetStepByID k) (\<lambda>x. ret (Step (era_step x)))"

definition pg_contract_ok :: "pg_store \<Rightarrow> bool" where
  "pg_contract_ok s \<longleftrightarrow> pg_auto_ok s \<and> (\<forall>n. pg_parseUUID s (pg_uuid s n) \<noteq> None)"

lemmas era_defs = era_def_def era_inst_def era_step_def era_item_def era_event_def

definition meets_spec :: "('s \<Rightarrow> core) \<Rightarrow> (store_call \<Rightarrow> ('s, store_reply) prog) \<Rightarrow> store_call \<Rightarrow> 's \<Rightarrow> bool" where
  "meets_spec view call x s \<longleftrightarrow>
     fst (call x s) = Ok (fst (spec_call x (view s))) \<and> view (snd (call x s)) = snd (spec_call x (view s))"

lemma jsonb_ok: "is_json r \<Longrightarrow> jsonb r s = (Ok (), s)"
  by (cases r) (simp_all add: is_json_def jsonb_def ret_def)

lemmas pg_stmt = run_simps nextval_def require_def from_db_def on_db_def jsonb_ok exec_auto pg_time_now_def pg_new_uuid_def
  fk_instance_def fk_step_def fk_definition_def check_step_status_def pg_set_status_def pg_update_steps_def
  pg_update_instances_def

lemma pg_view_has:
  "c_has_instance i (pg_view s) = has_instance i (pg_db s)" "c_has_step k (pg_view s) = has_step k (pg_db s)"
  by (auto simp: c_has_instance_def c_has_step_def pg_view_def has_defs image_image)

lemma opt_step_ball: "opt_step sid t \<longleftrightarrow> (\<forall>k \<in> set_option sid. has_step k t)"
  by (auto simp: opt_step_def has_step_def)

lemma pg_writes:
  assumes "pg_tx s = None" and "\<And>n. pg_parseUUID s (pg_uuid s n) \<noteq> None"
  shows "valid_call (NewInstance w input) (pg_view s) \<Longrightarrow> meets_spec pg_view pg_call (NewInstance w input) s"
    and "valid_call (NewStep i name ty st input maxr) (pg_view s) \<Longrightarrow> meets_spec pg_view pg_call (NewStep i name ty st input maxr) s"
    and "valid_call (Enqueue i sid priority delay) (pg_view s) \<Longrightarrow> meets_spec pg_view pg_call (Enqueue i sid priority delay) s"
    and "valid_call (Log i sid event payload) (pg_view s) \<Longrightarrow> meets_spec pg_view pg_call (Log i sid event payload) s"
    and "valid_call (RemoveItem k) (pg_view s) \<Longrightarrow> meets_spec pg_view pg_call (RemoveItem k) s"
  subgoal using assms by (auto simp: meets_spec_def pg_CreateInstance_def pg_stmt Let_def pg_view_def has_defs era_defs)
  subgoal using assms(1) assms(2) [of "pg_uuidCount s"] by (auto simp: meets_spec_def pg_CreateStep_def pg_stmt Let_def pg_view_def has_defs era_defs new_step_def c_has_instance_def)
  subgoal using assms by (simp add: pg_view_has opt_step_ball meets_spec_def pg_EnqueueStep_def pg_enqueue_def pg_stmt) (simp add: pg_view_def era_defs)
  subgoal using assms by (simp add: pg_view_has opt_step_ball meets_spec_def pg_LogEvent_def pg_stmt) (simp add: pg_view_def era_defs)
  subgoal using assms by (simp add: meets_spec_def pg_RemoveFromQueue_def pg_stmt pg_view_def filter_map comp_def)
  done

lemma pg_updates:
  assumes "pg_tx s = None"
  shows "valid_call (SetInstance i status output err) (pg_view s) \<Longrightarrow> meets_spec pg_view pg_call (SetInstance i status output err) s"
    and "valid_call (SetStep k ss output err) (pg_view s) \<Longrightarrow> meets_spec pg_view pg_call (SetStep k ss output err) s"
    and "valid_call (SetStepStatus k ss) (pg_view s) \<Longrightarrow> meets_spec pg_view pg_call (SetStepStatus k ss) s"
    and "valid_call (SetCompensation k n ss) (pg_view s) \<Longrightarrow> meets_spec pg_view pg_call (SetCompensation k n ss) s"
    and "valid_call (ReleaseItem j) (pg_view s) \<Longrightarrow> meets_spec pg_view pg_call (ReleaseItem j) s"
    and "valid_call (RescheduleItem j delay) (pg_view s) \<Longrightarrow> meets_spec pg_view pg_call (RescheduleItem j delay) s"
  subgoal using assms by (simp add: meets_spec_def pg_UpdateInstanceStatus_def pg_stmt pg_view_def)
    (rule map_update_view; simp add: era_inst_def set_instance_def)
  subgoal using assms by (simp add: meets_spec_def pg_UpdateStep_def pg_stmt pg_view_def)
    (rule map_update_view; simp add: era_step_def set_step_def)
  subgoal using assms by (simp add: meets_spec_def pg_UpdateStepStatus_def pg_stmt pg_view_def)
    (rule map_update_view; simp add: era_step_def)
  subgoal using assms by (simp add: meets_spec_def pg_UpdateStepCompensationRetry_def pg_stmt pg_view_def)
    (rule map_update_view; simp add: era_step_def)
  subgoal using assms by (simp add: meets_spec_def pg_ReleaseQueueItem_def pg_stmt pg_view_def)
    (rule map_update_view; simp add: era_item_def)
  subgoal using assms by (simp add: meets_spec_def pg_RescheduleAndReleaseQueueItem_def pg_stmt pg_view_def)
    (rule map_update_view; simp add: era_item_def)
  done

lemma find_key_map: "(\<And>x. key (e x) = key x) \<Longrightarrow> find (\<lambda>x. key x = k) (map e xs) = map_option e (find (\<lambda>x. key x = k) xs)"
  by (rule find_map_view) simp

lemma first_row: "(case filter p xs of [] \<Rightarrow> f | x # ys \<Rightarrow> g x) = (case find p xs of None \<Rightarrow> f | Some x \<Rightarrow> g x)"
  by (induction xs) auto

lemma find_present: "k \<in> key ` set xs \<Longrightarrow> \<exists>x. find (\<lambda>x. key x = k) xs = Some x"
  by (cases "find (\<lambda>x. key x = k) xs") (auto simp: find_None_iff)

lemma pg_reads:
  assumes "pg_tx s = None"
  shows "valid_call (ReadInstance i) (pg_view s) \<Longrightarrow> meets_spec pg_view pg_call (ReadInstance i) s"
    and "valid_call (ReadStep k) (pg_view s) \<Longrightarrow> meets_spec pg_view pg_call (ReadStep k) s"
proof -
  assume "valid_call (ReadInstance i) (pg_view s)"
  then obtain x where "find (\<lambda>x. wi_ID x = i) (t_instances (pg_db s)) = Some x"
    using find_present [of i wi_ID "t_instances (pg_db s)"] by (auto simp: pg_view_has has_instance_def)
  with assms show "meets_spec pg_view pg_call (ReadInstance i) s"
    by (simp add: meets_spec_def pg_GetInstance_def pg_query_row_def pg_stmt first_row)
      (simp add: pg_view_def find_key_map [of wi_ID])
next
  assume "valid_call (ReadStep k) (pg_view s)"
  then obtain x where "find (\<lambda>x. ws_ID x = k) (t_steps (pg_db s)) = Some x"
    using find_present [of k ws_ID "t_steps (pg_db s)"] by (auto simp: pg_view_has has_step_def)
  with assms show "meets_spec pg_view pg_call (ReadStep k) s"
    by (simp add: meets_spec_def pg_GetStepByID_def pg_query_row_def pg_stmt first_row)
      (simp add: pg_view_def find_key_map [of ws_ID])
qed

lemma pg_definitions:
  assumes "pg_tx s = None"
  shows "valid_call (SaveDefinition d) (pg_view s) \<Longrightarrow> meets_spec pg_view pg_call (SaveDefinition d) s"
proof -
  assume v: "valid_call (SaveDefinition d) (pg_view s)"
  then have "find (same_version d) (t_definitions (pg_db s)) = None"
    by (fastforce simp: pg_view_def same_version_def find_None_iff image_iff)
  with v assms show ?thesis
    by (auto simp: meets_spec_def pg_SaveWorkflowDefinition_def upsert_definition_def pg_InvalidateDefinitionCache_def pg_stmt
      pg_view_def has_definition_def image_image era_def_def)
qed

lemma pg_meets_spec: "pg_contract_ok s \<Longrightarrow> valid_call x (pg_view s) \<Longrightarrow> meets_spec pg_view pg_call x s"
  unfolding pg_contract_ok_def pg_auto_ok_def
  by (cases x) (simp_all only: pg_writes pg_updates pg_reads pg_definitions not_False_eq_True)

text \<open>No call opens a transaction or touches the source of identifiers.\<close>

abbreviation env_part :: "pg_store \<Rightarrow> bool \<times> (string \<Rightarrow> string option) \<times> (nat \<Rightarrow> string)" where
  "env_part s \<equiv> (pg_tx s = None, pg_parseUUID s, pg_uuid s)"

abbreviation env_kept :: "'a pprog \<Rightarrow> bool" where
  "env_kept m \<equiv> moves (same env_part) m"

lemma env_modify: "(\<And>s. env_part (f s) = env_part s) \<Longrightarrow> env_kept (modify f)"
  by (rule same.moves_modify) (simp add: same_def)

lemma env_stmts: "env_kept (on_db f)" "env_kept (from_db g)" "env_kept (nextval q)" "env_kept (require msg c)" "env_kept (jsonb r)"
  "env_kept pg_time_now" "env_kept pg_new_uuid"
  by (rule movesI, auto simp: same_def stmt_run pg_time_now_def pg_new_uuid_def split: raw.split)+

lemma env_exec:
  assumes "env_kept q"
  shows "env_kept (exec_sql q)"
proof (rule movesI)
  fix s
  obtain r t where qs: "q s = (r, t)" by fastforce
  with assms have "env_part t = env_part s" by (rule same_result)
  with qs show "same env_part s (snd (exec_sql q s))"
    by (cases r) (auto simp: same_def exec_sql_def split: option.split)
qed

lemmas env_rules = same.moves_rules env_exec env_stmts

lemma env_call: "env_kept (pg_call x)"
  by (cases x) (auto simp: pg_op_defs pg_stmt_defs pg_GetInstance_def pg_GetStepByID_def pg_query_row_def upsert_definition_def pg_enqueue_def
      intro!: env_rules env_modify split: option.split list.split sum.split)

lemma sound_pg_call: "sound_pg (pg_call x)"
  by (cases x) (auto simp: pg_GetInstance_def pg_GetStepByID_def intro!: sound_pg_rules sound_pg_definitions sound_pg_instances sound_pg_CreateStep sound_pg_steps
     sound_pg_queue sound_pg_LogEvent)

interpretation pgs: store_contract pg_contract_ok pg_view pg_call
proof
  fix s x assume ok: "pg_contract_ok s" and v: "valid_call x (pg_view s)"
  from pg_meets_spec [OF ok v]
  show "fst (pg_call x s) = Ok (fst (spec_call x (pg_view s)))" "pg_view (snd (pg_call x s)) = snd (spec_call x (pg_view s))"
    by (simp_all add: meets_spec_def)
  show "pg_contract_ok (snd (pg_call x s))"
    using ok movesD [OF env_call, of s x] movesD [OF sound_pg_call, of s x] by (auto simp: pg_contract_ok_def pg_auto_ok_def keeps_def same_def)
qed

section \<open>SQLite\<close>

definition sql_view :: "sqlite_store \<Rightarrow> core" where
  "sql_view s = \<lparr>c_definitions = map era_def (sq_definitions s), c_instances = map era_inst (sq_instances s),
     c_steps = map era_step (sq_steps s), c_queue = map era_item (sq_queue s), c_events = map era_event (sq_events s),
     c_nextInstance = sq_instanceSeq s + 1, c_nextStep = sq_stepSeq s + 1, c_nextQueue = sq_queueSeq s + 1,
     c_nextEvent = sq_eventSeq s + 1\<rparr>"

fun sql_call :: "store_call \<Rightarrow> store_reply qprog" where
  "sql_call (SaveDefinition d) = thn (sql_SaveWorkflowDefinition d) (ret Done)"
| "sql_call (NewInstance w input) = bnd (sql_CreateInstance w input) (\<lambda>i. ret (Number (wi_ID i)))"
| "sql_call (SetInstance i status output err) = thn (sql_UpdateInstanceStatus i status output err) (ret Done)"
| "sql_call (NewStep i name ty st input maxr) =
     bnd (sql_CreateStep (new_step i name ty st input maxr)) (\<lambda>su. ret (Number (ws_ID su)))"
| "sql_call (SetStep k status output err) = thn (sql_UpdateStep k status output err) (ret Done)"
| "sql_call (SetStepStatus k status) = thn (sql_UpdateStepStatus k status) (ret Done)"
| "sql_call (SetCompensation k n status) = thn (sql_UpdateStepCompensationRetry k n status) (ret Done)"
| "sql_call (Enqueue i sid priority delay) = thn (sql_EnqueueStep i sid priority delay) (ret Done)"
| "sql_call (RemoveItem k) = thn (sql_RemoveFromQueue k) (ret Done)"
| "sql_call (ReleaseItem k) = thn (sql_ReleaseQueueItem k) (ret Done)"
| "sql_call (RescheduleItem k delay) = thn (sql_RescheduleAndReleaseQueueItem k delay) (ret Done)"
| "sql_call (Log i sid event payload) = thn (sql_LogEvent i sid event (Inr payload)) (ret Done)"
| "sql_call (ReadInstance i) = bnd (sql_GetInstance i) (\<lambda>x. ret (Instance (era_inst x)))"
| "sql_call (ReadStep k) = bnd (sql_GetStepByID k) (\<lambda>x. ret (Step (era_step x)))"

lemma sql_view_has:
  "c_has_instance i (sql_view s) \<longleftrightarrow> i \<in> wi_ID ` set (sq_instances s)"
  "c_has_step k (sql_view s) \<longleftrightarrow> k \<in> ws_ID ` set (sq_steps s)"
  by (auto simp: c_has_instance_def c_has_step_def sql_view_def image_image)

lemmas sql_stmt = run_simps sql_now_def query_row_def first_row sql_update_step_def

lemma find_appended: "rows_ok key n xs \<Longrightarrow> key x = n + 1 \<Longrightarrow> find (\<lambda>y. key y = n + 1) (xs @ [x]) = Some x"
  by (induction xs) (auto simp: rows_ok_def)

lemma sql_writes:
  assumes "sql_ok s"
  shows "valid_call (NewInstance w input) (sql_view s) \<Longrightarrow> meets_spec sql_view sql_call (NewInstance w input) s"
    and "meets_spec sql_view sql_call (NewStep i name ty st input maxr) s"
    and "meets_spec sql_view sql_call (Enqueue i sid priority delay) s"
    and "meets_spec sql_view sql_call (Log i sid event payload) s"
    and "meets_spec sql_view sql_call (RemoveItem k) s"
  subgoal using assms by (simp add: meets_spec_def sql_CreateInstance_def sql_GetInstance_def sql_stmt sql_ok_def find_appended)
     (simp add: sql_view_def era_defs)
  by (simp_all add: meets_spec_def sql_CreateStep_def sql_EnqueueStep_def sql_enqueue_def sql_LogEvent_def sql_RemoveFromQueue_def
     sql_stmt Let_def sql_view_def era_defs new_step_def filter_map comp_def)

lemma sql_updates:
  "meets_spec sql_view sql_call (SetInstance i status output err) s"
  "meets_spec sql_view sql_call (SetStep k ss output err) s"
  "meets_spec sql_view sql_call (SetStepStatus k ss) s"
  "meets_spec sql_view sql_call (SetCompensation k n ss) s"
  "meets_spec sql_view sql_call (ReleaseItem j) s"
  "meets_spec sql_view sql_call (RescheduleItem j delay) s"
  by (simp_all add: meets_spec_def sql_UpdateInstanceStatus_def sql_UpdateStep_def sql_UpdateStepStatus_def
       sql_UpdateStepCompensationRetry_def sql_ReleaseQueueItem_def sql_RescheduleAndReleaseQueueItem_def sql_stmt sql_view_def)
    (rule map_update_view; simp add: era_inst_def era_step_def era_item_def set_instance_def set_step_def)+

lemma sql_reads:
  shows "valid_call (ReadInstance i) (sql_view s) \<Longrightarrow> meets_spec sql_view sql_call (ReadInstance i) s"
    and "valid_call (ReadStep k) (sql_view s) \<Longrightarrow> meets_spec sql_view sql_call (ReadStep k) s"
proof -
  assume "valid_call (ReadInstance i) (sql_view s)"
  then obtain x where "find (\<lambda>x. wi_ID x = i) (sq_instances s) = Some x"
    using find_present [of i wi_ID "sq_instances s"] by (auto simp: sql_view_has)
  then show "meets_spec sql_view sql_call (ReadInstance i) s"
    by (simp add: meets_spec_def sql_GetInstance_def sql_stmt) (simp add: sql_view_def find_key_map [of wi_ID])
next
  assume "valid_call (ReadStep k) (sql_view s)"
  then obtain x where "find (\<lambda>x. ws_ID x = k) (sq_steps s) = Some x"
    using find_present [of k ws_ID "sq_steps s"] by (auto simp: sql_view_has)
  then show "meets_spec sql_view sql_call (ReadStep k) s"
    by (simp add: meets_spec_def sql_GetStepByID_def sql_stmt) (simp add: sql_view_def find_key_map [of ws_ID])
qed

lemma sql_definitions:
  "valid_call (SaveDefinition d) (sql_view s) \<Longrightarrow> meets_spec sql_view sql_call (SaveDefinition d) s"
  by (force simp: meets_spec_def sql_SaveWorkflowDefinition_def sql_stmt sql_view_def era_def_def image_iff)

lemma sql_meets_spec: "sql_ok s \<Longrightarrow> valid_call x (sql_view s) \<Longrightarrow> meets_spec sql_view sql_call x s"
  by (cases x) (simp_all only: sql_writes sql_updates sql_reads sql_definitions)

lemma sound_sql_call: "sound_sql (sql_call x)"
  by (cases x) (auto simp: sql_GetInstance_def sql_GetStepByID_def intro!: sound_sql_rules sound_sql_operations)

interpretation sqs: store_contract sql_ok sql_view sql_call
proof
  fix s x assume ok: "sql_ok s" and v: "valid_call x (sql_view s)"
  from sql_meets_spec [OF ok v]
  show "fst (sql_call x s) = Ok (fst (spec_call x (sql_view s)))" "sql_view (snd (sql_call x s)) = snd (spec_call x (sql_view s))"
    by (simp_all add: meets_spec_def)
  show "sql_ok (snd (sql_call x s))" using ok movesD [OF sound_sql_call, of s x] by (auto simp: keeps_def)
qed

section \<open>The memory store\<close>

definition mem_view :: "memory_store \<Rightarrow> core" where
  "mem_view s = \<lparr>c_definitions = map era_def (map snd (ms_definitions s)), c_instances = map era_inst (map snd (ms_instances s)),
     c_steps = map era_step (map snd (ms_steps s)), c_queue = map era_item (map snd (ms_queue s)),
     c_events = map era_event (ms_events s), c_nextInstance = ms_nextInstanceID s, c_nextStep = ms_nextStepID s,
     c_nextQueue = ms_nextQueueID s, c_nextEvent = ms_nextEventID s\<rparr>"

fun mem_call :: "store_call \<Rightarrow> (memory_store, store_reply) prog" where
  "mem_call (SaveDefinition d) = thn (SaveWorkflowDefinition d) (ret Done)"
| "mem_call (NewInstance w input) = bnd (CreateInstance w input) (\<lambda>i. ret (Number (wi_ID i)))"
| "mem_call (SetInstance i status output err) = thn (UpdateInstanceStatus i status output err) (ret Done)"
| "mem_call (NewStep i name ty st input maxr) =
     bnd (CreateStep (new_step i name ty st input maxr)) (\<lambda>su. ret (Number (ws_ID su)))"
| "mem_call (SetStep k status output err) = thn (UpdateStep k status output err) (ret Done)"
| "mem_call (SetStepStatus k status) = thn (UpdateStepStatus k status) (ret Done)"
| "mem_call (SetCompensation k n status) = thn (UpdateStepCompensationRetry k n status) (ret Done)"
| "mem_call (Enqueue i sid priority delay) = thn (EnqueueStep i sid priority delay) (ret Done)"
| "mem_call (RemoveItem k) = thn (RemoveFromQueue k) (ret Done)"
| "mem_call (ReleaseItem k) = thn (ReleaseQueueItem k) (ret Done)"
| "mem_call (RescheduleItem k delay) = thn (RescheduleAndReleaseQueueItem k delay) (ret Done)"
| "mem_call (Log i sid event payload) = thn (LogEvent i sid event (Inr payload)) (ret Done)"
| "mem_call (ReadInstance i) = bnd (GetInstance i) (\<lambda>x. ret (Instance (era_inst x)))"
| "mem_call (ReadStep k) = bnd (GetStepByID k) (\<lambda>x. ret (Step (era_step x)))"

text \<open>A keyed table and the list of its values.\<close>

lemma keyed_Cons: "keyed key ((k, v) # m) \<longleftrightarrow> key v = k \<and> k \<notin> fst ` set m \<and> keyed key m"
  by (auto simp: keyed_def keys_def dest: map_of_SomeD split: if_splits)
    (metis fst_conv image_eqI)+

lemma keyed_other: "k \<notin> fst ` set m \<Longrightarrow> keyed key m \<Longrightarrow> v \<in> set (map snd m) \<Longrightarrow> key v \<noteq> k"
  by (force simp: keyed_def keys_def dest: map_of_is_SomeI)

lemma values_update:
  assumes "keyed key m" and "map_of m k = Some v" and "\<And>x. key (e x) = key x" and "e w = g (e v)"
  shows "map e (map snd (AList.update k w m)) = update_rows (\<lambda>x. key x = k) g (map e (map snd m))"
  using assms(1,2)
proof (induction m)
  case (Cons p m)
  obtain j u where p: "p = (j, u)" by fastforce
  show ?case
  proof (cases "j = k")
    case True
    with Cons.prems p have "v = u" "key u = k" and other: "\<And>x. x \<in> set (map snd m) \<Longrightarrow> key x \<noteq> k"
      using keyed_other [of k m key] by (auto simp: keyed_Cons)
    then have "update_rows (\<lambda>x. key x = k) g (map e (map snd m)) = map e (map snd m)"
      by (auto simp: update_rows_def assms(3))
    with True p \<open>v = u\<close> \<open>key u = k\<close> assms(3,4) show ?thesis by (simp add: update_rows_def)
  next
    case False
    with Cons p assms(3) show ?thesis by (auto simp: keyed_Cons update_rows_def)
  qed
qed simp

lemma values_insert: "map_of m k = None \<Longrightarrow> map snd (AList.update k v m) = map snd m @ [v]"
  by (induction m) auto

lemma values_delete: "keyed key m \<Longrightarrow> map snd (AList.delete k m) = filter (\<lambda>x. key x \<noteq> k) (map snd m)"
  by (induction m) (auto simp: keyed_Cons)

lemma values_find: "keyed key m \<Longrightarrow> find (\<lambda>x. key x = k) (map snd m) = map_of m k"
  by (induction m) (auto simp: keyed_Cons)

lemma mem_tables:
  assumes "wf_store s"
  shows "keyed wd_ID (ms_definitions s)" "keyed wi_ID (ms_instances s)" "keyed ws_ID (ms_steps s)" "keyed qi_ID (ms_queue s)"
    and "map_of (ms_instances s) (ms_nextInstanceID s) = None" "map_of (ms_steps s) (ms_nextStepID s) = None"
    and "map_of (ms_queue s) (ms_nextQueueID s) = None"
  using assms by (auto simp: wf_store_def numbered_def steps_ok_def has_key_def)

lemma keyed_values: "keyed key m \<Longrightarrow> k \<in> key ` set (map snd m) \<longleftrightarrow> (\<exists>x. map_of m k = Some x)"
  using values_find [of key m k] find_None_iff [of "\<lambda>x. key x = k" "map snd m"] by (cases "map_of m k") auto

lemma mem_view_has:
  assumes "wf_store s"
  shows "c_has_instance i (mem_view s) \<longleftrightarrow> (\<exists>x. map_of (ms_instances s) i = Some x)"
    and "c_has_step k (mem_view s) \<longleftrightarrow> (\<exists>x. map_of (ms_steps s) k = Some x)"
    and "j \<in> qi_ID ` set (c_queue (mem_view s)) \<longleftrightarrow> (\<exists>x. map_of (ms_queue s) j = Some x)"
    and "w \<in> wd_ID ` set (c_definitions (mem_view s)) \<longleftrightarrow> (\<exists>x. map_of (ms_definitions s) w = Some x)"
  using mem_tables(1-4) [OF assms, THEN keyed_values]
  by (simp_all add: c_has_instance_def c_has_step_def mem_view_def image_image)

lemma mem_writes:
  assumes "wf_store s"
  shows "meets_spec mem_view mem_call (NewInstance w input) s"
    and "meets_spec mem_view mem_call (NewStep i name ty st input maxr) s"
    and "meets_spec mem_view mem_call (Enqueue i sid priority delay) s"
    and "meets_spec mem_view mem_call (Log i sid event payload) s"
    and "meets_spec mem_view mem_call (RemoveItem k) s"
  using mem_tables [OF assms]
  by (simp_all add: meets_spec_def CreateInstance_def put_instance_def CreateStep_def EnqueueStep_def LogEvent_def
     RemoveFromQueue_def run_simps time_now_def new_uuid_def Let_def mem_view_def values_insert values_delete era_defs new_step_def filter_map comp_def)

lemma mem_definitions:
  assumes "wf_store s" and "valid_call (SaveDefinition d) (mem_view s)"
  shows "meets_spec mem_view mem_call (SaveDefinition d) s"
proof -
  from assms(2) have "wd_ID d \<notin> wd_ID ` set (c_definitions (mem_view s))" "wd_ID d \<noteq> []" by simp_all
  with mem_view_has(4) [OF assms(1)] have "map_of (ms_definitions s) (wd_ID d) = None" "wd_ID d \<noteq> []" by simp_all
  then show ?thesis
    by (simp add: meets_spec_def SaveWorkflowDefinition_def put_definition_def run_simps time_now_def mem_view_def values_insert
        era_def_def)
qed

lemmas mem_ops = meets_spec_def UpdateInstanceStatus_def GetInstance_def UpdateStep_def UpdateStepStatus_def
  UpdateStepCompensationRetry_def GetStepByID_def put_step_def ReleaseQueueItem_def RescheduleAndReleaseQueueItem_def
  run_simps time_now_def Let_def mem_view_def

lemma mem_instance_updates:
  assumes "wf_store s" and "valid_call (SetInstance i status output err) (mem_view s)"
  shows "meets_spec mem_view mem_call (SetInstance i status output err) s"
proof -
  from assms obtain x where "map_of (ms_instances s) i = Some x" using mem_view_has by auto
  then show ?thesis
    by (auto simp: mem_ops simp del: map_map intro!: values_update [OF mem_tables(2) [OF assms(1)]])
      (auto simp: era_inst_def set_instance_def)
qed

lemma mem_step_updates:
  assumes "wf_store s" and "c_has_step k (mem_view s)"
  shows "meets_spec mem_view mem_call (SetStep k ss output err) s"
    and "meets_spec mem_view mem_call (SetStepStatus k ss) s"
    and "meets_spec mem_view mem_call (SetCompensation k n ss) s"
proof -
  from assms obtain x where "map_of (ms_steps s) k = Some x" using mem_view_has by auto
  note found = this and put = values_update [OF mem_tables(3) [OF assms(1)] this]
  from found show "meets_spec mem_view mem_call (SetStep k ss output err) s"
    by (auto simp: mem_ops simp del: map_map intro!: put) (auto simp: era_step_def set_step_def)
  from found show "meets_spec mem_view mem_call (SetStepStatus k ss) s"
    by (auto simp: mem_ops simp del: map_map intro!: put) (auto simp: era_step_def)
  from found show "meets_spec mem_view mem_call (SetCompensation k n ss) s"
    by (auto simp: mem_ops simp del: map_map intro!: put) (auto simp: era_step_def)
qed

lemma mem_queue_updates:
  assumes "wf_store s" and "j \<in> qi_ID ` set (c_queue (mem_view s))"
  shows "meets_spec mem_view mem_call (ReleaseItem j) s" and "meets_spec mem_view mem_call (RescheduleItem j delay) s"
proof -
  from assms obtain x where "map_of (ms_queue s) j = Some x" using mem_view_has by auto
  note found = this and put = values_update [OF mem_tables(4) [OF assms(1)] this]
  from found show "meets_spec mem_view mem_call (ReleaseItem j) s"
    by (auto simp: mem_ops simp del: map_map intro!: put) (auto simp: era_item_def)
  from found show "meets_spec mem_view mem_call (RescheduleItem j delay) s"
    by (auto simp: mem_ops simp del: map_map intro!: put) (auto simp: era_item_def)
qed

lemma mem_updates:
  assumes "wf_store s"
  shows "valid_call (SetStep k ss output err) (mem_view s) \<Longrightarrow> meets_spec mem_view mem_call (SetStep k ss output err) s"
    and "valid_call (SetStepStatus k ss) (mem_view s) \<Longrightarrow> meets_spec mem_view mem_call (SetStepStatus k ss) s"
    and "valid_call (SetCompensation k n ss) (mem_view s) \<Longrightarrow> meets_spec mem_view mem_call (SetCompensation k n ss) s"
    and "valid_call (ReleaseItem j) (mem_view s) \<Longrightarrow> meets_spec mem_view mem_call (ReleaseItem j) s"
    and "valid_call (RescheduleItem j delay) (mem_view s) \<Longrightarrow> meets_spec mem_view mem_call (RescheduleItem j delay) s"
  using mem_step_updates [OF assms] mem_queue_updates [OF assms] by simp_all

lemma mem_reads:
  assumes "wf_store s"
  shows "valid_call (ReadInstance i) (mem_view s) \<Longrightarrow> meets_spec mem_view mem_call (ReadInstance i) s"
    and "valid_call (ReadStep k) (mem_view s) \<Longrightarrow> meets_spec mem_view mem_call (ReadStep k) s"
proof -
  assume "valid_call (ReadInstance i) (mem_view s)"
  then obtain x where x: "map_of (ms_instances s) i = Some x" using mem_view_has [OF assms] by auto
  with values_find [OF mem_tables(2) [OF assms], of i] show "meets_spec mem_view mem_call (ReadInstance i) s"
    by (simp add: meets_spec_def GetInstance_def run_simps) (simp add: mem_view_def find_key_map [of wi_ID] del: map_map)
next
  assume "valid_call (ReadStep k) (mem_view s)"
  then obtain x where x: "map_of (ms_steps s) k = Some x" using mem_view_has [OF assms] by auto
  with values_find [OF mem_tables(3) [OF assms], of k] show "meets_spec mem_view mem_call (ReadStep k) s"
    by (simp add: meets_spec_def GetStepByID_def run_simps) (simp add: mem_view_def find_key_map [of ws_ID] del: map_map)
qed

lemma mem_meets_spec: "wf_store s \<Longrightarrow> valid_call x (mem_view s) \<Longrightarrow> meets_spec mem_view mem_call x s"
  by (cases x) (simp_all only: mem_writes mem_instance_updates mem_updates mem_reads mem_definitions)

lemma wf_mem_call: "moves (keeps wf_store) (mem_call x)"
  by (cases x) (auto simp: GetInstance_def GetStepByID_def intro!: keeps.moves_rules wf_CreateInstance wf_UpdateInstanceStatus wf_CreateStep
    wf_UpdateStep wf_UpdateStepStatus wf_UpdateStepCompensationRetry wf_EnqueueStep wf_RemoveFromQueue wf_ReleaseQueueItem
    wf_RescheduleAndReleaseQueueItem wf_LogEvent wf_SaveWorkflowDefinition split: option.split)

interpretation mes: store_contract wf_store mem_view mem_call
proof
  fix s :: memory_store and x assume ok: "wf_store s" and v: "valid_call x (mem_view s)"
  from mem_meets_spec [OF ok v]
  show "fst (mem_call x s) = Ok (fst (spec_call x (mem_view s)))" "mem_view (snd (mem_call x s)) = snd (spec_call x (mem_view s))"
    by (simp_all add: meets_spec_def)
  show "wf_store (snd (mem_call x s))" using ok movesD [OF wf_mem_call, of s x] by (auto simp: keeps_def)
qed

section \<open>The stores are interchangeable\<close>


definition demo_calls :: "store_call list" where
  "demo_calls =
     [SaveDefinition demo_definition, NewInstance (wd_ID demo_definition) RawNil,
      NewStep 1 ''pay'' StepTypeTask StepStatusPending RawNil 3, Enqueue 1 (Some 1) 100 0,
      SetInstance 1 StatusRunning RawNil None, SetStep 1 StepStatusFailed RawNil (Some ''no funds''),
      RescheduleItem 1 5000, Log 1 (Some 1) ''step_failed'' JNull, ReadStep 1, ReadInstance 1, RemoveItem 1]"


end
