(* ===== verification/Monitor.thy ===== *)
theory Monitor
  imports Postgres_Records
begin

text \<open>
  \<open>MonitorImpl\<close> and \<open>CleanupService\<close> of \<open>src/monitor.go\<close>.  They send their queries to the connection pool, never to the
  transaction of a context, so they see committed data only.  The views they read are those of \<open>src/migrations\<close>: a view is
  a list of columns and of rows, and a query that names a column the view does not have is an error, as is an argument that
  the driver cannot encode as the type of the parameter.
\<close>

section \<open>Views, queries, scanning\<close>

datatype sql_value = SqlInt int | SqlNumeric rat | SqlText string | SqlTime int | SqlNull

record db_view =
  vw_columns :: "string list"
  vw_rows :: "sql_value list list"

definition column :: "db_view \<Rightarrow> sql_value list \<Rightarrow> string \<Rightarrow> sql_value" where
  "column v row name = (case map_of (zip (vw_columns v) row) name of None \<Rightarrow> SqlNull | Some x \<Rightarrow> x)"

text \<open>\<open>SELECT names FROM v\<close>.\<close>

definition select :: "string list \<Rightarrow> db_view \<Rightarrow> goerror + sql_value list list" where
  "select names v =
     (case find (\<lambda>n. n \<notin> set (vw_columns v)) names of
        Some n \<Rightarrow> Inl (Errorf (''column '' @ n @ '' does not exist''))
      | None \<Rightarrow> Inr (map (\<lambda>row. map (column v row) names) (vw_rows v)))"

text \<open>What other connections see of the database, and the time of a statement of their own.\<close>

definition pool_db :: "pg_store \<Rightarrow> pg_tables" where
  "pool_db s = (case pg_tx s of None \<Rightarrow> pg_db s | Some tx \<Rightarrow> tx_saved tx)"

definition pool_query :: "(int \<Rightarrow> pg_tables \<Rightarrow> db_view) \<Rightarrow> string list \<Rightarrow> sql_value list list pprog" where
  "pool_query view names =
     bnd (gets (\<lambda>s. select names (view (micro (pg_clock s)) (pool_db s)))) (\<lambda>r.
     case r of Inl e \<Rightarrow> throw e | Inr rows \<Rightarrow> ret rows)"

text \<open>The loop \<open>for rows.Next()\<close>: the first row that cannot be scanned ends it with an error.\<close>

fun scan_rows :: "(sql_value list \<Rightarrow> goerror + 'a) \<Rightarrow> sql_value list list \<Rightarrow> goerror + 'a list" where
  "scan_rows scan [] = Inr []"
| "scan_rows scan (row # rows) =
     (case scan row of
        Inl e \<Rightarrow> Inl e
      | Inr x \<Rightarrow> (case scan_rows scan rows of Inl e \<Rightarrow> Inl e | Inr xs \<Rightarrow> Inr (x # xs)))"

definition ErrScan :: goerror where
  "ErrScan = Errorf ''can't scan into dest''"

text \<open>\<open>Scan\<close> assigns the values of a row to the variables, from left to right.\<close>

definition scanned :: "goerror + 'a \<Rightarrow> ('a \<Rightarrow> goerror + 'b) \<Rightarrow> goerror + 'b" where
  "scanned r f = (case r of Inl e \<Rightarrow> Inl e | Inr x \<Rightarrow> f x)"

definition as_int :: "sql_value \<Rightarrow> goerror + int" where
  "as_int v = (case v of SqlInt n \<Rightarrow> Inr n | _ \<Rightarrow> Inl ErrScan)"

definition as_text :: "sql_value \<Rightarrow> goerror + string" where
  "as_text v = (case v of SqlText n \<Rightarrow> Inr n | _ \<Rightarrow> Inl ErrScan)"

definition as_time :: "sql_value \<Rightarrow> goerror + int" where
  "as_time v = (case v of SqlTime n \<Rightarrow> Inr n | _ \<Rightarrow> Inl ErrScan)"

definition as_float :: "sql_value \<Rightarrow> goerror + rat" where
  "as_float v = (case v of SqlNumeric n \<Rightarrow> Inr n | _ \<Rightarrow> Inl ErrScan)"

definition as_nullable :: "sql_value \<Rightarrow> goerror + rat option" where
  "as_nullable v = (case v of SqlNull \<Rightarrow> Inr None | SqlNumeric n \<Rightarrow> Inr (Some n) | _ \<Rightarrow> Inl ErrScan)"

lemmas scan_defs = scanned_def as_int_def as_text_def as_time_def as_float_def as_nullable_def

definition lift_result :: "goerror + 'a \<Rightarrow> 'a pprog" where
  "lift_result r = (case r of Inl e \<Rightarrow> throw e | Inr x \<Rightarrow> ret x)"

text \<open>\<open>time.Duration(x * float64(time.Second))\<close>, without the rounding of floats.\<close>

definition seconds_duration :: "rat \<Rightarrow> int" where
  "seconds_duration x = trunc_rat (x * 1000000000)"

section \<open>Workflow statistics\<close>

text \<open>The view \<open>workflow_stats\<close> of the first migration.\<close>

definition average_seconds :: "workflow_instance list \<Rightarrow> sql_value" where
  "average_seconds is =
     (let ds = completed_durations is in
      if ds = [] then SqlNull else SqlNumeric (of_int (sum_list ds) / of_nat (length ds) / 1000000000))"

definition stats_columns :: "string list" where
  "stats_columns = [''name'', ''version'', ''total_instances'', ''completed'', ''failed'', ''running'', ''avg_duration_seconds'']"

definition stats_view_row :: "pg_tables \<Rightarrow> workflow_definition \<Rightarrow> sql_value list" where
  "stats_view_row t d =
     (let is = pg_instances_of (wd_ID d) t in
      [SqlText (wd_Name d), SqlInt (wd_Version d), SqlInt (int (length is)), SqlInt (int (count_status StatusCompleted is)),
       SqlInt (int (count_status StatusFailed is)), SqlInt (int (count_status StatusRunning is)), average_seconds is])"

definition workflow_stats_view :: "int \<Rightarrow> pg_tables \<Rightarrow> db_view" where
  "workflow_stats_view now t = \<lparr>vw_columns = stats_columns, vw_rows = map (stats_view_row t) (t_definitions t)\<rparr>"

definition scan_stats :: "sql_value list \<Rightarrow> goerror + workflow_stats" where
  "scan_stats row =
     (if length row \<noteq> 7 then Inl ErrScan
      else scanned (as_text (row ! 0)) (\<lambda>name. scanned (as_int (row ! 1)) (\<lambda>version.
        scanned (as_int (row ! 2)) (\<lambda>tot. scanned (as_int (row ! 3)) (\<lambda>completed.
        scanned (as_int (row ! 4)) (\<lambda>failed. scanned (as_int (row ! 5)) (\<lambda>running.
        scanned (as_nullable (row ! 6)) (\<lambda>avgSeconds.
        Inr \<lparr>wst_WorkflowName = name, wst_Version = version, wst_TotalInstances = tot,
          wst_CompletedInstances = completed, wst_FailedInstances = failed, wst_RunningInstances = running,
          wst_AverageDuration = (case avgSeconds of None \<Rightarrow> 0 | Some a \<Rightarrow> seconds_duration a)\<rparr>))))))))"

definition monitor_GetWorkflowStats :: "workflow_stats list pprog" where
  "monitor_GetWorkflowStats =
     bnd (pool_query workflow_stats_view
       [''name'', ''version'', ''total_instances'', ''completed'', ''failed'', ''running'', ''avg_duration_seconds'']) (\<lambda>rows.
     lift_result (scan_rows scan_stats rows))"

section \<open>Active workflows\<close>

record active_workflow =
  aw_InstanceID :: int
  aw_WorkflowID :: string
  aw_Status :: string
  aw_CreatedAt :: int
  aw_Duration :: int
  aw_TotalSteps :: int
  aw_CompletedSteps :: int
  aw_FailedSteps :: int
  aw_RunningSteps :: int
  aw_CompensationSteps :: int
  aw_RolledBackSteps :: int

text \<open>
  The view \<open>active_workflows\<close> as migration 004 creates it and as migration 010 creates it again.  The columns that both have
  come first.
\<close>

definition active_columns :: "string list" where
  "active_columns = [''id'', ''workflow_id'', ''status'', ''created_at'', ''updated_at'', ''duration_seconds'', ''total_steps'',
     ''completed_steps'', ''failed_steps'', ''running_steps'']"

definition active_row :: "int \<Rightarrow> pg_tables \<Rightarrow> workflow_instance \<Rightarrow> sql_value list" where
  "active_row now t i =
     (let sts = pg_steps_of (wi_ID i) t in
      [SqlInt (wi_ID i), SqlText (wi_WorkflowID i), SqlText (workflow_status_text (wi_Status i)), SqlTime (wi_CreatedAt i),
       SqlTime (wi_UpdatedAt i), SqlNumeric (of_int (now - wi_CreatedAt i) / 1000000000), SqlInt (int (length sts)),
       SqlInt (count_steps StepStatusCompleted sts), SqlInt (count_steps StepStatusFailed sts),
       SqlInt (count_steps StepStatusRunning sts)])"

definition active_before :: "pg_tables \<Rightarrow> workflow_instance \<Rightarrow> bool" where
  "active_before t i \<longleftrightarrow> wi_Status i \<in> {StatusPending, StatusRunning} \<or>
     (wi_Status i = StatusFailed \<and> (\<exists>st \<in> set (pg_steps_of (wi_ID i) t). ws_Status st = StepStatusCompensation))"

definition active_view_004 :: "int \<Rightarrow> pg_tables \<Rightarrow> db_view" where
  "active_view_004 now t =
     \<lparr>vw_columns = active_columns @ [''compensation_steps'', ''rolled_back_steps''],
      vw_rows = map (\<lambda>i. let sts = pg_steps_of (wi_ID i) t in
        active_row now t i @ [SqlInt (count_steps StepStatusCompensation sts), SqlInt (count_steps StepStatusRolledBack sts)])
        (filter (active_before t) (t_instances t))\<rparr>"

definition active_view_010 :: "int \<Rightarrow> pg_tables \<Rightarrow> db_view" where
  "active_view_010 now t = \<lparr>vw_columns = active_columns, vw_rows = map (active_row now t) (active_rows t)\<rparr>"

definition scan_active :: "sql_value list \<Rightarrow> goerror + active_workflow" where
  "scan_active row =
     (if length row \<noteq> 11 then Inl ErrScan
      else scanned (as_int (row ! 0)) (\<lambda>ident. scanned (as_text (row ! 1)) (\<lambda>workflowID.
        scanned (as_text (row ! 2)) (\<lambda>status. scanned (as_time (row ! 3)) (\<lambda>created.
        scanned (as_float (row ! 4)) (\<lambda>duration. scanned (as_int (row ! 5)) (\<lambda>tot.
        scanned (as_int (row ! 6)) (\<lambda>completed. scanned (as_int (row ! 7)) (\<lambda>failed.
        scanned (as_int (row ! 8)) (\<lambda>running. scanned (as_int (row ! 9)) (\<lambda>compensation.
        scanned (as_int (row ! 10)) (\<lambda>rolled_back.
        Inr \<lparr>aw_InstanceID = ident, aw_WorkflowID = workflowID, aw_Status = status, aw_CreatedAt = created,
          aw_Duration = seconds_duration duration, aw_TotalSteps = tot, aw_CompletedSteps = completed,
          aw_FailedSteps = failed, aw_RunningSteps = running, aw_CompensationSteps = compensation,
          aw_RolledBackSteps = rolled_back\<rparr>))))))))))))"

text \<open>The query, over the view that the database has.\<close>

definition monitor_active_over :: "(int \<Rightarrow> pg_tables \<Rightarrow> db_view) \<Rightarrow> active_workflow list pprog" where
  "monitor_active_over view =
     bnd (pool_query view
       [''id'', ''workflow_id'', ''status'', ''created_at'', ''duration_seconds'', ''total_steps'', ''completed_steps'',
        ''failed_steps'', ''running_steps'', ''compensation_steps'', ''rolled_back_steps'']) (\<lambda>rows.
     lift_result (scan_rows scan_active rows))"

definition monitor_GetActiveWorkflows :: "active_workflow list pprog" where
  "monitor_GetActiveWorkflows = monitor_active_over active_view_010"

section \<open>Queue length, clean-up\<close>

definition monitor_GetQueueLength :: "int pprog" where
  "monitor_GetQueueLength = gets (\<lambda>s. int (length (filter (\<lambda>q. qi_AttemptedAt q = None) (t_queue (pool_db s)))))"

text \<open>
  The stored function takes an \<open>INT\<close>, and an argument of another type has no encoding.  The statement is a \<open>SELECT\<close>
  without columns from a function that returns one row, so it would affect one row.
\<close>

definition int4_param :: "sql_value \<Rightarrow> goerror + int" where
  "int4_param v =
     (case v of
        SqlInt n \<Rightarrow> if - (2 ^ 31) \<le> n \<and> n < 2 ^ 31 then Inr n else Inl (Errorf ''is greater than maximum value for int4'')
      | _ \<Rightarrow> Inl (Errorf ''unable to encode into binary format for int4''))"

definition select_cleanup :: "sql_value \<Rightarrow> int pprog" where
  "select_cleanup arg =
     bnd (lift_result (int4_param arg)) (\<lambda>days. thn (exec_sql (cleanup_old_workflows days)) (ret 1))"

definition cleanup_CleanupOldWorkflows :: "int \<Rightarrow> int pprog" where
  "cleanup_CleanupOldWorkflows olderThan = bnd pg_time_now (\<lambda>now. select_cleanup (SqlTime (now - olderThan)))"

section \<open>What the monitor reports\<close>

lemma select_all: "set names \<subseteq> set (vw_columns v) \<Longrightarrow> select names v = Inr (map (\<lambda>row. map (column v row) names) (vw_rows v))"
  by (auto simp: select_def find_None_iff split: option.split dest: find_Some_iff [THEN iffD1])

lemma scan_rows_map: "(\<And>x. x \<in> set xs \<Longrightarrow> scan (f x) = Inr (g x)) \<Longrightarrow> scan_rows scan (map f xs) = Inr (map g xs)"
  by (induction xs) auto

lemma trunc_seconds: "seconds_duration (a / (b * 1000000000)) = trunc_rat (a / b)"
  by (simp add: seconds_duration_def)

lemma stats_row_scanned:
  "vw_columns v = stats_columns \<Longrightarrow>
   scan_stats [column v (stats_view_row t d) ''name'', column v (stats_view_row t d) ''version'',
     column v (stats_view_row t d) ''total_instances'', column v (stats_view_row t d) ''completed'',
     column v (stats_view_row t d) ''failed'', column v (stats_view_row t d) ''running'',
     column v (stats_view_row t d) ''avg_duration_seconds''] = Inr (stats_row t d)"
  by (simp add: scan_stats_def stats_view_row_def stats_columns_def column_def Let_def scan_defs average_seconds_def stats_row_def
      trunc_seconds)

text \<open>
  The statistics of the monitor are those that the store reports.  \<open>MonitorImpl.GetWorkflowStats\<close>, which reads the view
  \<open>workflow_stats\<close> through the pool, succeeds in every state and returns exactly what \<open>StoreImpl.GetWorkflowStats\<close> returns
  for the committed tables, one row per definition: the rows that an open transaction has written do not show.
\<close>

theorem monitor_stats_agree:
  "monitor_GetWorkflowStats s = (fst (pg_GetWorkflowStats (s\<lparr>pg_db := pool_db s, pg_tx := None\<rparr>)), s) \<and>
   fst (monitor_GetWorkflowStats s) = Ok (map (stats_row (pool_db s)) (t_definitions (pool_db s)))"
proof -
  have "scan_rows scan_stats (map (\<lambda>row. map (column (workflow_stats_view now t) row) stats_columns) (vw_rows (workflow_stats_view now t)))
      = Inr (map (stats_row t) (t_definitions t))" for now t
    by (simp add: workflow_stats_view_def comp_def stats_columns_def)
      (rule scan_rows_map, rule stats_row_scanned, simp add: stats_columns_def)
  then have "monitor_GetWorkflowStats s = (Ok (map (stats_row (pool_db s)) (t_definitions (pool_db s))), s)"
    by (simp add: monitor_GetWorkflowStats_def pool_query_def select_all run_simps lift_result_def stats_columns_def
       workflow_stats_view_def [of _ _, THEN arg_cong, of vw_columns])
  then show ?thesis
    by (simp add: pg_GetWorkflowStats_def stmt_run exec_auto)
qed

lemma active_row_scanned:
  assumes "vw_columns v = active_columns @ [''compensation_steps'', ''rolled_back_steps'']"
  shows "\<exists>w. scan_active (map (column v (active_row now t i @ [SqlInt a, SqlInt b]))
       [''id'', ''workflow_id'', ''status'', ''created_at'', ''duration_seconds'', ''total_steps'', ''completed_steps'',
        ''failed_steps'', ''running_steps'', ''compensation_steps'', ''rolled_back_steps'']) = Inr w \<and> aw_InstanceID w = wi_ID i"
  by (simp add: assms scan_active_def active_row_def active_columns_def column_def Let_def scan_defs)

lemma scan_rows_ids:
  assumes "\<And>x. \<exists>y. scan (f x) = Inr y \<and> k y = h x"
  shows "\<exists>ys. scan_rows scan (map f xs) = Inr ys \<and> map k ys = map h xs"
proof (induction xs)
  case (Cons x xs)
  from assms [of x] obtain y where "scan (f x) = Inr y" "k y = h x" by blast
  with Cons show ?case by auto
qed simp

text \<open>
  \<open>MonitorImpl.GetActiveWorkflows\<close> cannot work on a fully migrated database: it asks the view \<open>active_workflows\<close> for two columns
  that migration 004 gave it and migration 010 took away, so it fails in every state.  Over the view of migration 004 the same query
  succeeds, with one entry per active instance.
\<close>

theorem monitor_active_broken:
  "monitor_GetActiveWorkflows s = (Err (Errorf ''column compensation_steps does not exist''), s) \<and>
   (\<exists>ws. monitor_active_over active_view_004 s = (Ok ws, s) \<and>
     map aw_InstanceID ws = map wi_ID (filter (active_before (pool_db s)) (t_instances (pool_db s))))"
proof
  show "monitor_GetActiveWorkflows s = (Err (Errorf ''column compensation_steps does not exist''), s)"
    by (simp add: monitor_GetActiveWorkflows_def monitor_active_over_def pool_query_def run_simps select_def active_view_010_def active_columns_def)
  let ?names = "[''id'', ''workflow_id'', ''status'', ''created_at'', ''duration_seconds'', ''total_steps'', ''completed_steps'',
        ''failed_steps'', ''running_steps'', ''compensation_steps'', ''rolled_back_steps'']"
  let ?v = "active_view_004 (micro (pg_clock s)) (pool_db s)"
  have v: "vw_columns ?v = active_columns @ [''compensation_steps'', ''rolled_back_steps'']" by (simp add: active_view_004_def)
  have "\<exists>ws. scan_rows scan_active (map (\<lambda>row. map (column ?v row) ?names) (vw_rows ?v)) = Inr ws \<and>
     map aw_InstanceID ws = map wi_ID (filter (active_before (pool_db s)) (t_instances (pool_db s)))"
    by (subst active_view_004_def, simp only: db_view.simps map_map comp_def Let_def, rule scan_rows_ids, rule active_row_scanned [OF v])
  moreover have "select ?names ?v = Inr (map (\<lambda>row. map (column ?v row) ?names) (vw_rows ?v))"
    by (rule select_all) (simp add: v active_columns_def)
  ultimately show "\<exists>ws. monitor_active_over active_view_004 s = (Ok ws, s) \<and>
     map aw_InstanceID ws = map wi_ID (filter (active_before (pool_db s)) (t_instances (pool_db s)))"
    by (auto simp: monitor_active_over_def pool_query_def run_simps lift_result_def)
qed

lemma update_rows_other: "k \<notin> key ` set xs \<Longrightarrow> update_rows (\<lambda>y. key y = k) f xs = xs"
  by (auto simp: update_rows_def intro!: map_idI)

lemma length_filter_claim:
  "distinct (map key xs) \<Longrightarrow> q \<in> set xs \<Longrightarrow> P q \<Longrightarrow> \<not> P (f q) \<Longrightarrow>
   length (filter P xs) = Suc (length (filter P (update_rows (\<lambda>y. key y = key q) f xs)))"
proof (induction xs)
  case (Cons x xs)
  show ?case
  proof (cases "x = q")
    case True
    with Cons.prems have "update_rows (\<lambda>y. key y = key q) f xs = xs" by (intro update_rows_other) auto
    with True Cons.prems show ?thesis by (simp add: update_rows_def)
  next
    case False
    with Cons.prems have "key x \<noteq> key q" "q \<in> set xs" by auto
    with Cons show ?thesis by (simp add: update_rows_def)
  qed
qed simp

text \<open>
  The length of the queue that the monitor reports counts what no worker has claimed.  Enqueueing an item adds one, handing
  an item to a worker takes one away, a worker that finds nothing due changes nothing, and whatever a transaction has
  done to the queue does not show before it is committed.
\<close>

theorem monitor_queue_length:
  assumes "pg_ok s" and "pg_tx s = None" and "fst (monitor_GetQueueLength s) = Ok n"
  shows "(pg_EnqueueStep i sid priority delay s = (Ok (), t) \<longrightarrow> fst (monitor_GetQueueLength t) = Ok (n + 1)) \<and>
    (pg_DequeueStep worker s = (Ok None, u) \<longrightarrow> fst (monitor_GetQueueLength u) = Ok n) \<and>
    (pg_DequeueStep worker s = (Ok (Some item), v) \<longrightarrow> fst (monitor_GetQueueLength v) = Ok (n - 1)) \<and>
    fst (monitor_GetQueueLength (s\<lparr>pg_db := db, pg_tx := Some \<lparr>tx_saved = pg_db s, tx_start = start, tx_failed = failed\<rparr>\<rparr>)) = Ok n"
proof (intro conjI impI)
  show "fst (monitor_GetQueueLength t) = Ok (n + 1)" if "pg_EnqueueStep i sid priority delay s = (Ok (), t)"
    using that assms(2,3)
    by (auto simp: monitor_GetQueueLength_def pool_db_def pg_EnqueueStep_def pg_enqueue_def stmt_run exec_auto pg_time_now_def
      fk_instance_def fk_step_def split: if_splits)
  show "fst (monitor_GetQueueLength u) = Ok n" if "pg_DequeueStep worker s = (Ok None, u)"
    using that assms(2,3) by (auto simp: pg_DequeueStep_run monitor_GetQueueLength_def pool_db_def run_simps split: list.splits)
  show "fst (monitor_GetQueueLength v) = Ok (n - 1)" if d: "pg_DequeueStep worker s = (Ok (Some item), v)"
  proof (cases rule: pg_next_item_cases [of "pg_priority s" "pg_lockedQueue s" "micro (pg_clock s)" "t_queue (pg_db s)"])
    case 1
    with d assms(2) show ?thesis by (simp add: pg_DequeueStep_run)
  next
    case (2 q)
    from assms(1) have "distinct (map qi_ID (t_queue (pg_db s)))"
      by (auto simp: pg_ok_def schema_ok_def keys_ok_def intro: rows_ok_distinct)
    with 2 have "length (filter (\<lambda>q. qi_AttemptedAt q = None) (t_queue (pg_db s))) = Suc (length (filter (\<lambda>q. qi_AttemptedAt q = None)
        (update_rows (\<lambda>y. qi_ID y = qi_ID q) (sql_claim worker (micro (pg_clock s))) (t_queue (pg_db s)))))"
      by (intro length_filter_claim) (auto simp: pg_due_def sql_claim_def)
    with 2 d assms(2,3) show ?thesis
      by (auto simp: pg_DequeueStep_run monitor_GetQueueLength_def pool_db_def run_simps)
  qed
qed (use assms in \<open>simp add: monitor_GetQueueLength_def pool_db_def run_simps\<close>)

theorem monitor_queue_length_witness:
  "fst (monitor_GetQueueLength demo_pg_queue) = Ok 2 \<and>
   fst (monitor_GetQueueLength (snd (pg_DequeueStep ''w'' demo_pg_queue))) = Ok 1"
proof
  show two: "fst (monitor_GetQueueLength demo_pg_queue) = Ok 2" by code_simp
  have "\<exists>item. fst (pg_DequeueStep ''w'' demo_pg_queue) = Ok (Some item)"
  proof -
    have "case fst (pg_DequeueStep ''w'' demo_pg_queue) of Ok (Some _) \<Rightarrow> True | _ \<Rightarrow> False" by code_simp
    then show ?thesis by (auto split: outcome.splits option.splits)
  qed
  then obtain item v where "pg_DequeueStep ''w'' demo_pg_queue = (Ok (Some item), v)" by (metis prod.collapse)
  with monitor_queue_length [OF demo_pg_queue_facts(1,2) two, of 0 None 0 0 v "''w''" v item]
  show "fst (monitor_GetQueueLength (snd (pg_DequeueStep ''w'' demo_pg_queue))) = Ok 1" by simp
qed

text \<open>
  The clean-up service deletes nothing: it hands a point in time to a function that takes a number of days, the driver refuses the
  argument, and the call is an error in every state and for every age, with all tables untouched.
\<close>

theorem cleanup_service_refused:
  "\<exists>e. fst (cleanup_CleanupOldWorkflows olderThan s) = Err e \<and> pg_db (snd (cleanup_CleanupOldWorkflows olderThan s)) = pg_db s"
  by (simp add: cleanup_CleanupOldWorkflows_def select_cleanup_def int4_param_def lift_result_def run_simps pg_time_now_def)

end
