(* ===== verification/Migrations.thy ===== *)
theory Migrations
  imports Engine_Exec "HOL-Library.List_Lexorder" "HOL-Library.Char_ord"
begin

text \<open>
  The migrations: \<open>RunSQLiteMigrations\<close> and \<open>splitSQLStatements\<close> of \<open>src/migrations_sqlite.go\<close>, and \<open>RunMigrations\<close> of
  \<open>src/migrations.go\<close>.  The embedded directory, the database driver and the migration library are parameters.  A database is
  any type; the driver says what a statement does to it.  White space is that of ASCII.
\<close>

section \<open>Splitting a file into statements\<close>

text \<open>\<open>strings.Split\<close> with a separator of one character.\<close>

fun go_split :: "char \<Rightarrow> string \<Rightarrow> string list" where
  "go_split sep [] = [[]]"
| "go_split sep (c # cs) =
     (if c = sep then [] # go_split sep cs
      else case go_split sep cs of [] \<Rightarrow> [[c]] | p # ps \<Rightarrow> (c # p) # ps)"

definition is_comment_line :: "string \<Rightarrow> bool" where
  "is_comment_line txt = (let l = trim_space txt in l = [] \<or> take 2 l = ''--'')"

definition all_comment :: "string \<Rightarrow> bool" where
  "all_comment stmt = list_all is_comment_line (go_split CHR 0x0A stmt)"

fun split_loop :: "string list \<Rightarrow> string list \<Rightarrow> string list" where
  "split_loop res [] = res"
| "split_loop res (p # ps) =
     (let stmt = trim_space p in
      if stmt = [] then split_loop res ps
      else if all_comment stmt then split_loop res ps
      else split_loop (res @ [stmt]) ps)"

definition splitSQLStatements :: "string \<Rightarrow> string list" where
  "splitSQLStatements sqlText = split_loop [] (go_split CHR '';'' sqlText)"

section \<open>Running the SQLite migrations\<close>

record dir_entry =
  de_name :: string
  de_isDir :: bool
  de_content :: "goerror + string"

record 'db sql_driver =
  dr_begin :: "'db \<Rightarrow> goerror option"
  dr_exec :: "string \<Rightarrow> 'db \<Rightarrow> goerror + 'db"
  dr_commit :: "'db \<Rightarrow> goerror option"

fun exec_all :: "'db sql_driver \<Rightarrow> string \<Rightarrow> string list \<Rightarrow> 'db \<Rightarrow> goerror + 'db" where
  "exec_all drv name [] d = Inr d"
| "exec_all drv name (stmt # stmts) d =
     (case dr_exec drv stmt d of
        Inl e \<Rightarrow> Inl (Wrap (''exec migration '' @ name) e)
      | Inr d' \<Rightarrow> exec_all drv name stmts d')"

fun run_entries :: "'db sql_driver \<Rightarrow> dir_entry list \<Rightarrow> 'db \<Rightarrow> goerror + 'db" where
  "run_entries drv [] d = Inr d"
| "run_entries drv (e # es) d =
     (if de_isDir e then run_entries drv es d
      else case de_content e of
        Inl err \<Rightarrow> Inl (Wrap (''read migration '' @ de_name e) err)
      | Inr content \<Rightarrow>
          (case exec_all drv (de_name e) (splitSQLStatements content) d of
             Inl err \<Rightarrow> Inl err
           | Inr d' \<Rightarrow> run_entries drv es d'))"

text \<open>The statements run on a database of the transaction's own, which a commit makes the committed one.\<close>

definition RunSQLiteMigrations :: "'db sql_driver \<Rightarrow> goerror + dir_entry list \<Rightarrow> ('db, unit) prog" where
  "RunSQLiteMigrations drv dir =
     (case dir of
        Inl e \<Rightarrow> throw (Wrap ''read migrations dir'' e)
      | Inr entries \<Rightarrow>
          if entries = [] then ret ()
          else bnd (gets (\<lambda>d. (d, dr_begin drv d))) (\<lambda>(d, begun).
            case begun of
              Some e \<Rightarrow> throw (Wrap ''begin tx'' e)
            | None \<Rightarrow>
                (case run_entries drv (sort_key de_name entries) d of
                   Inl e \<Rightarrow> throw e
                 | Inr d' \<Rightarrow>
                     (case dr_commit drv d' of
                        Some e \<Rightarrow> throw (Wrap ''commit migrations'' e)
                      | None \<Rightarrow> modify (\<lambda>_. d')))))"

section \<open>The PostgreSQL migrations\<close>

text \<open>The connection, the URL parser and the migration library, by what their calls return; \<open>NoChange\<close> is \<open>migrate.ErrNoChange\<close>.\<close>

record migration_api =
  ma_exec :: "string \<Rightarrow> goerror option"
  ma_parseURL :: "string \<Rightarrow> goerror option"
  ma_iofs :: "goerror option"
  ma_init :: "string \<Rightarrow> goerror option"
  ma_setSearchPath :: "string \<Rightarrow> string \<Rightarrow> string"

datatype up_result = Migrated | NoChange | UpError goerror

definition dbSchema :: string where
  "dbSchema = ''workflows''"

definition RunMigrations :: "migration_api \<Rightarrow> string \<Rightarrow> up_result \<Rightarrow> goerror option" where
  "RunMigrations api connString up =
     (case ma_exec api (''CREATE SCHEMA IF NOT EXISTS '' @ dbSchema) of
        Some e \<Rightarrow> Some e
      | None \<Rightarrow>
          (case ma_parseURL api connString of
             Some e \<Rightarrow> Some (Wrap ''parsing connection string'' e)
           | None \<Rightarrow>
               (case ma_iofs api of
                  Some e \<Rightarrow> Some (Wrap ''open migration files'' e)
                | None \<Rightarrow>
                    (case ma_init api (ma_setSearchPath api connString dbSchema) of
                       Some e \<Rightarrow> Some (Wrap ''init migrator'' e)
                     | None \<Rightarrow>
                         (case up of
                            Migrated \<Rightarrow> None
                          | NoChange \<Rightarrow> None
                          | UpError e \<Rightarrow> Some (Wrap ''run migrations'' e))))))"

section \<open>Properties\<close>

lemma go_split_nonempty [simp]: "go_split sep s \<noteq> []"
  by (induction s) (auto split: list.split)

lemma go_split_append: "sep \<notin> set s \<Longrightarrow> go_split sep (s @ sep # t) = s # go_split sep t"
  by (induction s) (auto split: list.split)

lemma go_split_single: "sep \<notin> set s \<Longrightarrow> go_split sep s = [s]"
  by (induction s) auto

lemma split_loop_append: "split_loop res ps = res @ split_loop [] ps"
proof (induction ps arbitrary: res)
  case (Cons p ps)
  show ?case using Cons [of res] Cons [of "res @ [trim_space p]"] Cons [of "[trim_space p]"] by (simp add: Let_def)
qed simp

text \<open>
  A statement as it stands in a migration file: no semicolon in it, no white space around it, and a line, after
  any comment lines, that is neither empty nor a comment.
\<close>

definition code_line :: "string \<Rightarrow> bool" where
  "code_line l \<longleftrightarrow> CHR 0x0A \<notin> set l \<and> trim_space l \<noteq> [] \<and> take 2 (trim_space l) \<noteq> ''--''"

definition has_code :: "string \<Rightarrow> bool" where
  "has_code s \<longleftrightarrow> (\<exists>before l after. code_line l \<and> s = before @ l @ after \<and>
     (before = [] \<or> last before = CHR 0x0A) \<and> (after = [] \<or> hd after = CHR 0x0A))"

definition proper_stmt :: "string \<Rightarrow> bool" where
  "proper_stmt s \<longleftrightarrow> CHR '';'' \<notin> set s \<and> trim_space s = s \<and> s \<noteq> [] \<and> has_code s"

definition blank :: "string \<Rightarrow> bool" where
  "blank s \<longleftrightarrow> list_all is_space s"

text \<open>What may follow the last semicolon: white space, or a comment on one line.\<close>

definition tail_ok :: "string \<Rightarrow> bool" where
  "tail_ok s \<longleftrightarrow> blank s \<or> (\<exists>pad t. s = pad @ ''--'' @ t \<and> blank pad \<and> CHR 0x0A \<notin> set t \<and> CHR '';'' \<notin> set t)"

lemma go_split_join: "go_split sep (a @ sep # b) = go_split sep a @ go_split sep b"
  by (induction a) (auto split: list.split)

lemma go_split_has_line:
  assumes "sep \<notin> set l" and "before = [] \<or> last before = sep" and "after = [] \<or> hd after = sep"
  shows "l \<in> set (go_split sep (before @ l @ after))"
proof -
  have tail: "l \<in> set (go_split sep (l @ after))"
  proof (cases after)
    case (Cons c cs)
    with assms show ?thesis using go_split_append [of sep l cs] by simp
  qed (use assms in \<open>simp add: go_split_single\<close>)
  show ?thesis
  proof (cases "before = []")
    case False
    with assms(2) obtain b where "before = b @ [sep]" by (metis append_butlast_last_id)
    with tail show ?thesis using go_split_join [of sep b "l @ after"] by simp
  qed (use tail in simp)
qed

lemma has_code_not_comment: "has_code s \<Longrightarrow> \<not> all_comment s"
  using go_split_has_line [of "CHR 0x0A"]
  by (fastforce simp: has_code_def code_line_def all_comment_def list_all_iff is_comment_line_def Let_def)

lemma trim_pad: "blank pad \<Longrightarrow> trim_space (pad @ s) = trim_space s"
  by (simp add: blank_def list_all_iff trim_space_def dropWhile_append)

lemma blank_no_separator: "blank pad \<Longrightarrow> CHR '';'' \<notin> set pad"
proof
  assume "blank pad" "CHR '';'' \<in> set pad"
  then have "is_space CHR '';''" by (simp add: blank_def list_all_iff)
  then show False by (simp add: is_space_def)
qed

lemma trim_blank: "blank s \<Longrightarrow> trim_space s = []"
  using trim_pad [of s "[]"] by (simp add: trim_space_def)

lemma trim_comment: "\<exists>u. trim_space (''--'' @ t) = ''--'' @ u \<and> set u \<subseteq> set t"
proof -
  have "trim_space (''--'' @ t) = ''--'' @ rev (dropWhile is_space (rev t))"
    by (auto simp: trim_space_def is_space_def dropWhile_append dropWhile_eq_Nil_conv)
  then show ?thesis by (auto dest: set_dropWhileD)
qed

lemma tail_skipped: "tail_ok rest \<Longrightarrow> trim_space rest = [] \<or> all_comment (trim_space rest)"
proof -
  assume "tail_ok rest"
  then consider "blank rest" | pad t where "rest = pad @ ''--'' @ t" "blank pad" "CHR 0x0A \<notin> set t"
    by (auto simp: tail_ok_def)
  then show ?thesis
  proof cases
    case 2
    obtain u where u: "trim_space rest = ''--'' @ u" "set u \<subseteq> set t" using trim_comment [of t] trim_pad [OF 2(2)] 2(1) by metis
    with 2(3) have "go_split CHR 0x0A (trim_space rest) = [''--'' @ u]" by (subst go_split_single) auto
    moreover obtain v where "trim_space (''--'' @ u) = ''--'' @ v" using trim_comment by blast
    ultimately show ?thesis by (simp add: all_comment_def is_comment_line_def)
  qed (simp add: trim_blank)
qed

lemma tail_no_separator: "tail_ok rest \<Longrightarrow> CHR '';'' \<notin> set rest"
  by (auto simp: tail_ok_def dest: blank_no_separator)

definition print_stmts :: "(string \<times> string) list \<Rightarrow> string \<Rightarrow> string" where
  "print_stmts xs rest = concat (map (\<lambda>(pad, stmt). pad @ stmt @ '';'') xs) @ rest"

text \<open>
  C30: A migration file is split back into its statements.  Write proper statements one after the other, each after any
  white space and followed by a semicolon, and after the last one white space or a comment on one line:
  \<open>splitSQLStatements\<close> returns exactly the statements, in their order.
\<close>

theorem split_print_roundtrip:
  assumes "\<forall>(pad, stmt) \<in> set xs. blank pad \<and> proper_stmt stmt" and "tail_ok rest"
  shows "splitSQLStatements (print_stmts xs rest) = map snd xs"
  using assms(1)
proof (induction xs)
  case Nil
  with tail_skipped [OF assms(2)] tail_no_separator [OF assms(2)] show ?case
    by (auto simp: splitSQLStatements_def print_stmts_def go_split_single Let_def)
next
  case (Cons x xs)
  obtain pad stmt where x: "x = (pad, stmt)" by fastforce
  with Cons.prems have p: "blank pad" "proper_stmt stmt" by auto
  then have "go_split CHR '';'' (print_stmts (x # xs) rest) = (pad @ stmt) # go_split CHR '';'' (print_stmts xs rest)"
    using go_split_append [of "CHR '';''" "pad @ stmt" "print_stmts xs rest"] blank_no_separator
    by (auto simp: print_stmts_def x proper_stmt_def)
  with p Cons x show ?case
    by (auto simp: splitSQLStatements_def trim_pad proper_stmt_def has_code_not_comment Let_def split_loop_append [of "[stmt]"])
qed

theorem split_print_roundtrip_witness:
  "splitSQLStatements (print_stmts [([], ''-- s'' @ [CHR 0x0A] @ ''CREATE TABLE t (id INTEGER)''), ([CHR 0x0A], ''CREATE INDEX i ON t(id)'')]
     ([CHR 0x0A] @ ''-- end'')) =
   [''-- s'' @ [CHR 0x0A] @ ''CREATE TABLE t (id INTEGER)'', ''CREATE INDEX i ON t(id)'']"
proof -
  have "has_code (''-- s'' @ [CHR 0x0A] @ ''CREATE TABLE t (id INTEGER)'')" "has_code ''CREATE INDEX i ON t(id)''"
    unfolding has_code_def
    by (rule exI [of _ "''-- s'' @ [CHR 0x0A]"], rule exI [of _ "''CREATE TABLE t (id INTEGER)''"], rule exI [of _ "[]"], code_simp)
      (rule exI [of _ "[]"], rule exI [of _ "''CREATE INDEX i ON t(id)''"], rule exI [of _ "[]"], code_simp)
  moreover have "CHR '';'' \<notin> set (''-- s'' @ [CHR 0x0A] @ ''CREATE TABLE t (id INTEGER)'')" "CHR '';'' \<notin> set ''CREATE INDEX i ON t(id)''"
    "trim_space (''-- s'' @ [CHR 0x0A] @ ''CREATE TABLE t (id INTEGER)'') = ''-- s'' @ [CHR 0x0A] @ ''CREATE TABLE t (id INTEGER)''"
    "trim_space ''CREATE INDEX i ON t(id)'' = ''CREATE INDEX i ON t(id)''" "blank []" "blank [CHR 0x0A]" by code_simp+
  moreover have "tail_ok ([CHR 0x0A] @ ''-- end'')"
    unfolding tail_ok_def by (rule disjI2, rule exI [of _ "[CHR 0x0A]"], rule exI [of _ "'' end''"]) code_simp
  ultimately show ?thesis by (subst split_print_roundtrip) (simp_all add: proper_stmt_def)
qed

text \<open>The statements of a directory, and running them one after the other.\<close>

fun exec_seq :: "'db sql_driver \<Rightarrow> string list \<Rightarrow> 'db \<Rightarrow> 'db option" where
  "exec_seq drv [] d = Some d"
| "exec_seq drv (stmt # stmts) d = (case dr_exec drv stmt d of Inl e \<Rightarrow> None | Inr d' \<Rightarrow> exec_seq drv stmts d')"

definition entry_stmts :: "dir_entry \<Rightarrow> string list" where
  "entry_stmts e = (if de_isDir e then [] else case de_content e of Inl _ \<Rightarrow> [] | Inr content \<Rightarrow> splitSQLStatements content)"

lemma exec_seq_append: "exec_seq drv (xs @ ys) d = Option.bind (exec_seq drv xs d) (exec_seq drv ys)"
  by (induction xs arbitrary: d) (auto split: sum.split)

lemma exec_all_seq: "exec_all drv name stmts d = Inr d' \<Longrightarrow> exec_seq drv stmts d = Some d'"
  by (induction stmts arbitrary: d) (auto split: sum.splits)

lemma run_entries_seq: "run_entries drv es d = Inr d' \<Longrightarrow> exec_seq drv (concat (map entry_stmts es)) d = Some d'"
  by (induction es arbitrary: d)
    (auto simp: entry_stmts_def exec_seq_append dest!: exec_all_seq split: sum.splits if_splits)

lemma run_entries_read: "run_entries drv es d = Inr d' \<Longrightarrow> e \<in> set es \<Longrightarrow> de_isDir e \<or> (\<exists>c. de_content e = Inr c)"
  by (induction es arbitrary: d) (auto split: sum.splits if_splits)

text \<open>
  C29: The SQLite migrations are applied completely or not at all.  An error, wherever it comes from, leaves the database as it was;
  success means that every statement of every file has been executed, the files in the order of their names and the statements
  in the order of the file.
\<close>

theorem sqlite_migrations_atomic:
  assumes "RunSQLiteMigrations drv dir d = (r, d')"
  shows "(\<exists>e. r = Err e) \<and> d' = d \<or>
    r = Ok () \<and> (\<exists>entries. dir = Inr entries \<and> (\<forall>e \<in> set entries. de_isDir e \<or> (\<exists>c. de_content e = Inr c)) \<and>
      exec_seq drv (concat (map entry_stmts (sort_key de_name entries))) d = Some d')"
proof (cases dir)
  case (Inr entries)
  with assms show ?thesis
    using run_entries_seq [of drv "sort_key de_name entries" d] run_entries_read [of drv "sort_key de_name entries" d]
    by (auto simp: RunSQLiteMigrations_def run_simps split: if_splits option.splits sum.splits)
qed (use assms in \<open>auto simp: RunSQLiteMigrations_def run_simps\<close>)

definition demo_driver :: "string list sql_driver" where
  "demo_driver = \<lparr>dr_begin = (\<lambda>_. None), dr_exec = (\<lambda>stmt d. if stmt \<in> set d then Inl (Errorf ''exists'') else Inr (d @ [stmt])),
     dr_commit = (\<lambda>_. None)\<rparr>"

definition demo_dir :: "dir_entry list" where
  "demo_dir = [\<lparr>de_name = ''0002'', de_isDir = False, de_content = Inr ''B; A''\<rparr>,
     \<lparr>de_name = ''0001'', de_isDir = False, de_content = Inr ''A;''\<rparr>]"

theorem sqlite_migrations_atomic_witness:
  "snd (RunSQLiteMigrations demo_driver (Inr demo_dir) [''C'']) = [''C''] \<and>
   fst (RunSQLiteMigrations demo_driver (Inr demo_dir) [''C'']) \<noteq> Ok ()"
proof -
  obtain r d' where run: "RunSQLiteMigrations demo_driver (Inr demo_dir) [''C''] = (r, d')" by fastforce
  have "fst (RunSQLiteMigrations demo_driver (Inr demo_dir) [''C'']) \<noteq> Ok ()" by code_simp
  with sqlite_migrations_atomic [OF run] run show ?thesis by auto
qed

lemma RunMigrations_no_change:
  "ma_exec api (''CREATE SCHEMA IF NOT EXISTS '' @ dbSchema) = None \<Longrightarrow> ma_parseURL api conn = None \<Longrightarrow> ma_iofs api = None \<Longrightarrow>
   ma_init api (ma_setSearchPath api conn dbSchema) = None \<Longrightarrow>
   RunMigrations api conn up = (case up of UpError e \<Rightarrow> Some (Wrap ''run migrations'' e) | _ \<Rightarrow> None)"
  by (simp add: RunMigrations_def split: up_result.split)

end
