(* ===== verification/Api_Handlers.thy ===== *)
theory Api_Handlers
  imports Engine_Api Retry_Delay
begin

text \<open>
  The HTTP interface: the read-only routes of \<open>src/api/routes_core.go\<close>, the error responses of
  \<open>src/api/errors.go\<close>, the routes of the API plugins under \<open>src/plugins/api\<close> (dead letters, human
  decisions, cancel, abort, clean-up) and the server of \<open>src/api/server.go\<close> that collects them.

  A handler turns a request into a response and acts on the engine state.  A request has its path
  values, its query and what \<open>json.Decoder\<close> finds in its body; a response has its status and the value handed
  to the JSON encoder.  The function that extracts the user from a request is a parameter.  A panic in a
  handler is the outcome \<open>Panic\<close> (the HTTP server drops the connection).
\<close>

section \<open>Numbers in paths and queries\<close>

text \<open>\<open>strconv.ParseUint\<close> in base ten: it stops at the first bad character or when the value leaves 64 bits.\<close>

definition digit_value :: "char \<Rightarrow> int option" where
  "digit_value c = (let n = of_char c :: int in if 48 \<le> n \<and> n \<le> 57 then Some (n - 48) else None)"

fun parse_uint :: "int \<Rightarrow> string \<Rightarrow> string + int" where
  "parse_uint acc [] = Inr acc"
| "parse_uint acc (c # cs) =
     (case digit_value c of
        None \<Rightarrow> Inl ''invalid syntax''
      | Some d \<Rightarrow> if acc * 10 + d > 2 ^ 64 - 1 then Inl ''value out of range'' else parse_uint (acc * 10 + d) cs)"

definition parse_sign :: "string \<Rightarrow> bool \<times> string" where
  "parse_sign s =
     (case s of
        [] \<Rightarrow> (False, [])
      | c # cs \<Rightarrow> if c = CHR ''+'' then (False, cs) else if c = CHR ''-'' then (True, cs) else (False, s))"

text \<open>\<open>strconv.ParseInt(s, 10, 64)\<close>; \<open>strconv.Atoi\<close> accepts the same texts.\<close>

definition ParseInt :: "string \<Rightarrow> goerror + int" where
  "ParseInt s =
     (let fail = (\<lambda>why. Inl (Errorf (''strconv.ParseInt: parsing '' @ quote s @ '': '' @ why)));
          (neg, digits) = parse_sign s
      in if digits = [] then fail ''invalid syntax''
         else case parse_uint 0 digits of
           Inl why \<Rightarrow> fail why
         | Inr n \<Rightarrow>
             if \<not> neg \<and> n \<ge> 2 ^ 63 then fail ''value out of range''
             else if neg \<and> n > 2 ^ 63 then fail ''value out of range''
             else Inr (if neg then - n else n))"

section \<open>Requests and responses\<close>

datatype body = BodyEmpty | BodyInvalid goerror | BodyDoc json

record http_request =
  rq_Path :: "(string, string) gomap"
  rq_Query :: "(string, string) gomap"
  rq_Body :: body

definition PathValue :: "http_request \<Rightarrow> string \<Rightarrow> string" where
  "PathValue req name = (case map_of (rq_Path req) name of None \<Rightarrow> [] | Some v \<Rightarrow> v)"

definition query_value :: "http_request \<Rightarrow> string \<Rightarrow> string" where
  "query_value req name = (case map_of (rq_Query req) name of None \<Rightarrow> [] | Some v \<Rightarrow> v)"

record 'a paginated_response =
  pr_Items :: "'a list"
  pr_Page :: int
  pr_PageSize :: int
  pr_Total :: int

datatype payload =
    PNone
  | PError string
  | PDefinitions "workflow_definition list"
  | PDefinition workflow_definition
  | PInstances "workflow_instance paginated_response"
  | PInstance workflow_instance
  | PSteps "workflow_step list"
  | PEvents "workflow_event list"
  | PStats "workflow_stats list"
  | PSummary summary_stats
  | PActive "active_instance list"
  | PDeadLetters "dead_letter_record paginated_response"
  | PDeadLetter dead_letter_record
  | PCleanup int int

record http_response =
  hr_Status :: nat
  hr_Payload :: payload

type_synonym 'x http_handler = "http_request \<Rightarrow> ('x, http_response) sprog"

definition respond :: "nat \<Rightarrow> payload \<Rightarrow> ('s, http_response) prog" where
  "respond status p = ret \<lparr>hr_Status = status, hr_Payload = p\<rparr>"

definition WriteErrorResponse :: "goerror \<Rightarrow> nat \<Rightarrow> ('s, http_response) prog" where
  "WriteErrorResponse e status = respond status (PError (error_text e))"

text \<open>The answer of a handler to an error of the store or the engine.\<close>

definition missing_or_internal :: "goerror \<Rightarrow> goerror \<Rightarrow> goerror \<Rightarrow> ('s, http_response) prog" where
  "missing_or_internal e missing internal =
     (if is_not_found e then WriteErrorResponse missing 404 else WriteErrorResponse internal 500)"

section \<open>The core routes\<close>

definition HandleGetWorkflowDefinitions :: "'x http_handler" where
  "HandleGetWorkflowDefinitions req =
     bnd (attempt GetWorkflowDefinitions) (\<lambda>r.
     case r of
       Inl e \<Rightarrow> WriteErrorResponse (Wrap ''failed to fetch workflow definitions'' e) 500
     | Inr defs \<Rightarrow> respond 200 (PDefinitions defs))"

definition HandleGetWorkflowDefinition :: "'x http_handler" where
  "HandleGetWorkflowDefinition req =
     bnd (attempt (GetWorkflowDefinition (PathValue req ''id''))) (\<lambda>r.
     case r of
       Inl e \<Rightarrow> missing_or_internal e (Errorf ''workflow definition not found'')
         (Wrap ''failed to fetch workflow definition'' e)
     | Inr def \<Rightarrow> respond 200 (PDefinition def))"

text \<open>\<open>page\<close> and \<open>page_size\<close> with their defaults; the offset is computed in 64 bits.\<close>

definition page_of :: "http_request \<Rightarrow> int" where
  "page_of req =
     (let v = query_value req ''page'' in
      if v = [] then 1 else case ParseInt v of Inr n \<Rightarrow> if n > 0 then n else 1 | Inl e \<Rightarrow> 1)"

definition page_size_of :: "http_request \<Rightarrow> int" where
  "page_size_of req =
     (let v = query_value req ''page_size'' in
      if v = [] then 20 else case ParseInt v of Inr n \<Rightarrow> if n > 0 \<and> n \<le> 1000 then n else 20 | Inl e \<Rightarrow> 20)"

definition offset_of :: "http_request \<Rightarrow> int" where
  "offset_of req = mul_int64 (page_of req - 1) (page_size_of req)"

definition page_response :: "http_request \<Rightarrow> 'a list \<Rightarrow> int \<Rightarrow> 'a paginated_response" where
  "page_response req items count =
     \<lparr>pr_Items = items, pr_Page = page_of req, pr_PageSize = page_size_of req, pr_Total = count\<rparr>"

definition HandleGetWorkflowInstances :: "'x http_handler" where
  "HandleGetWorkflowInstances req =
     bnd (attempt (GetWorkflowDefinition (PathValue req ''id''))) (\<lambda>d.
     case d of
       Inl e \<Rightarrow> missing_or_internal e (Errorf ''workflow not found'') (Wrap ''failed to fetch workflow'' e)
     | Inr _ \<Rightarrow>
         bnd (attempt (GetWorkflowInstancesPaginated (PathValue req ''id'') (offset_of req) (page_size_of req))) (\<lambda>r.
         case r of
           Inl e \<Rightarrow> WriteErrorResponse (Wrap ''failed to fetch workflow instances'' e) 500
         | Inr (instances, count) \<Rightarrow> respond 200 (PInstances (page_response req instances count))))"

definition HandleGetAllInstances :: "'x http_handler" where
  "HandleGetAllInstances req =
     bnd (attempt (GetAllWorkflowInstancesPaginated (offset_of req) (page_size_of req))) (\<lambda>r.
     case r of
       Inl e \<Rightarrow> WriteErrorResponse (Wrap ''failed to fetch instances'' e) 500
     | Inr (instances, count) \<Rightarrow> respond 200 (PInstances (page_response req instances count)))"

text \<open>The instance a path names: a bad number is answered at once, so is an instance that does not exist.\<close>

definition with_instance :: "http_request \<Rightarrow> (workflow_instance \<Rightarrow> ('x, http_response) sprog) \<Rightarrow> ('x, http_response) sprog" where
  "with_instance req f =
     (case ParseInt (PathValue req ''id'') of
        Inl e \<Rightarrow> WriteErrorResponse (Errorf ''invalid instance ID'') 400
      | Inr instanceID \<Rightarrow>
          bnd (attempt (GetInstance instanceID)) (\<lambda>r.
          case r of
            Inl e \<Rightarrow> missing_or_internal e (Errorf ''workflow instance not found'')
              (Wrap ''failed to fetch workflow instance'' e)
          | Inr inst \<Rightarrow> f inst))"

definition path_instance :: "http_request \<Rightarrow> int" where
  "path_instance req = (case ParseInt (PathValue req ''id'') of Inl e \<Rightarrow> 0 | Inr i \<Rightarrow> i)"

definition HandleGetWorkflowInstance :: "'x http_handler" where
  "HandleGetWorkflowInstance req = with_instance req (\<lambda>inst. respond 200 (PInstance inst))"

definition HandleGetWorkflowSteps :: "'x http_handler" where
  "HandleGetWorkflowSteps req =
     with_instance req (\<lambda>inst.
     bnd (attempt (GetWorkflowSteps (path_instance req))) (\<lambda>r.
     case r of
       Inl e \<Rightarrow> WriteErrorResponse (Wrap ''failed to fetch workflow steps'' e) 500
     | Inr sts \<Rightarrow> respond 200 (PSteps sts)))"

definition HandleGetWorkflowEvents :: "'x http_handler" where
  "HandleGetWorkflowEvents req =
     with_instance req (\<lambda>inst.
     bnd (attempt (GetWorkflowEvents (path_instance req))) (\<lambda>r.
     case r of
       Inl e \<Rightarrow> WriteErrorResponse (Wrap ''failed to fetch workflow events'' e) 500
     | Inr evs \<Rightarrow> respond 200 (PEvents evs)))"

definition HandleGetStats :: "'x http_handler" where
  "HandleGetStats req =
     bnd (attempt GetWorkflowStats) (\<lambda>r.
     case r of
       Inl e \<Rightarrow> WriteErrorResponse (Wrap ''failed to fetch workflow stats'' e) 500
     | Inr stats \<Rightarrow> respond 200 (PStats stats))"

definition HandleGetSummaryStats :: "'x http_handler" where
  "HandleGetSummaryStats req =
     bnd (attempt GetSummaryStats) (\<lambda>r.
     case r of
       Inl e \<Rightarrow> WriteErrorResponse (Wrap ''failed to fetch summary stats'' e) 500
     | Inr stats \<Rightarrow> respond 200 (PSummary stats))"

definition HandleGetActiveInstances :: "'x http_handler" where
  "HandleGetActiveInstances req =
     bnd (attempt GetActiveInstances) (\<lambda>r.
     case r of
       Inl e \<Rightarrow> WriteErrorResponse (Wrap ''failed to fetch active instances'' e) 500
     | Inr instances \<Rightarrow> respond 200 (PActive instances))"

section \<open>Request bodies\<close>

text \<open>
  \<open>Decode\<close> into a struct with one field.  Keys match without regard to case, a later entry overwrites an earlier
  one, \<open>null\<close> leaves the field alone, a value of another type is an error; so is a document that is not an object.
\<close>

definition lower_char :: "char \<Rightarrow> char" where
  "lower_char c = (let n = of_char c :: int in if 65 \<le> n \<and> n \<le> 90 then char_of (n + 32) else c)"

definition field_values :: "string \<Rightarrow> (string \<times> json) list \<Rightarrow> json list" where
  "field_values key kvs = map snd (filter (\<lambda>(k, v). map lower_char k = key) kvs)"

definition type_error :: goerror where
  "type_error = Errorf ''json: cannot unmarshal value into Go struct field''"

definition decode_field :: "string \<Rightarrow> (json \<Rightarrow> 'v option) \<Rightarrow> 'v \<Rightarrow> body \<Rightarrow> goerror + 'v" where
  "decode_field key conv dflt b =
     (case b of
        BodyEmpty \<Rightarrow> Inl (Errorf ''EOF'')
      | BodyInvalid e \<Rightarrow> Inl e
      | BodyDoc JNull \<Rightarrow> Inr dflt
      | BodyDoc (JObject kvs) \<Rightarrow>
          (let vals = map conv (filter (\<lambda>v. v \<noteq> JNull) (field_values key kvs))
           in if None \<in> set vals then Inl type_error
              else Inr (case vals of [] \<Rightarrow> dflt | _ \<Rightarrow> (case last vals of None \<Rightarrow> dflt | Some x \<Rightarrow> x)))
      | BodyDoc _ \<Rightarrow> Inl type_error)"

definition string_value :: "json \<Rightarrow> string option" where
  "string_value v = (case v of JString s \<Rightarrow> Some s | _ \<Rightarrow> None)"

definition int_value :: "json \<Rightarrow> int option" where
  "int_value v = (case v of JInt n \<Rightarrow> if fits_int64 n then Some n else None | _ \<Rightarrow> None)"

text \<open>\<open>RequeueRequest\<close>: the field is a pointer, which \<open>null\<close> sets to nil; an empty body is accepted.\<close>

definition decode_requeue :: "body \<Rightarrow> goerror + raw option" where
  "decode_requeue b =
     (case b of
        BodyEmpty \<Rightarrow> Inr None
      | BodyInvalid e \<Rightarrow> Inl e
      | BodyDoc JNull \<Rightarrow> Inr None
      | BodyDoc (JObject kvs) \<Rightarrow>
          (let vals = field_values ''new_input'' kvs
           in Inr (if vals = [] \<or> last vals = JNull then None else Some (RawJSON (last vals))))
      | BodyDoc _ \<Rightarrow> Inl type_error)"

section \<open>Dead letters\<close>

definition HandleList :: "'x http_handler" where
  "HandleList req =
     bnd (attempt (ListDeadLetters (offset_of req) (page_size_of req))) (\<lambda>r.
     case r of
       Inl e \<Rightarrow> WriteErrorResponse e 500
     | Inr (items, count) \<Rightarrow> respond 200 (PDeadLetters (page_response req items count)))"

definition HandleGet :: "'x http_handler" where
  "HandleGet req =
     (case ParseInt (PathValue req ''id'') of
        Inl e \<Rightarrow> WriteErrorResponse e 400
      | Inr ident \<Rightarrow>
          bnd (attempt (GetDeadLetterByID ident)) (\<lambda>r.
          case r of Inl e \<Rightarrow> missing_or_internal e e e | Inr rec \<Rightarrow> respond 200 (PDeadLetter rec)))"

type_synonym engine_handler = "http_request \<Rightarrow> http_response eprog"

definition HandleRequeue :: engine_handler where
  "HandleRequeue req =
     (case ParseInt (PathValue req ''id'') of
        Inl e \<Rightarrow> WriteErrorResponse e 400
      | Inr ident \<Rightarrow>
          (case decode_requeue (rq_Body req) of
             Inl e \<Rightarrow> WriteErrorResponse e 400
           | Inr newInput \<Rightarrow>
               bnd (attempt (RequeueFromDLQ ident newInput)) (\<lambda>r.
               case r of Inl e \<Rightarrow> missing_or_internal e e e | Inr _ \<Rightarrow> respond 204 PNone)))"

section \<open>Human decisions\<close>

type_synonym extract_user = "http_request \<Rightarrow> goerror + string"

definition HandleHumanDecision :: "extract_user \<Rightarrow> human_decision \<Rightarrow> engine_handler" where
  "HandleHumanDecision extractUser decision req =
     (case ParseInt (PathValue req ''instance_id'') of
        Inl e \<Rightarrow> WriteErrorResponse e 400
      | Inr instanceID \<Rightarrow>
          (case extractUser req of
             Inl e \<Rightarrow> missing_or_internal e e e
           | Inr user \<Rightarrow>
               bnd (attempt (GetHumanDecisionStepByInstanceID instanceID)) (\<lambda>r.
               case r of
                 Inl e \<Rightarrow> missing_or_internal e e e
               | Inr st \<Rightarrow>
                   if ws_Status st \<noteq> StepStatusWaitingDecision
                   then WriteErrorResponse (Errorf ''step is not waiting for human decision'') 409
                   else
                     let comment = (case decode_field ''message'' string_value [] (rq_Body req) of
                                      Inr msg \<Rightarrow> if msg \<noteq> [] then Some msg else None
                                    | Inl e \<Rightarrow> None)
                     in bnd (attempt (MakeHumanDecision (ws_ID st) user decision comment)) (\<lambda>q.
                        case q of Inl e \<Rightarrow> missing_or_internal e e e | Inr _ \<Rightarrow> respond 204 PNone))))"

section \<open>Cancel, abort and clean-up\<close>

text \<open>\<open>strings.Contains\<close>\<close>

fun contains_text :: "string \<Rightarrow> string \<Rightarrow> bool" where
  "contains_text sub [] \<longleftrightarrow> sub = []"
| "contains_text sub (c # cs) \<longleftrightarrow> take (length sub) (c # cs) = sub \<or> contains_text sub cs"

text \<open>The two handlers differ in the engine operation only.\<close>

definition handle_stop :: "(int \<Rightarrow> string \<Rightarrow> string \<Rightarrow> unit eprog) \<Rightarrow> extract_user \<Rightarrow> engine_handler" where
  "handle_stop stop extractUser req =
     (case ParseInt (PathValue req ''instance_id'') of
        Inl e \<Rightarrow> WriteErrorResponse e 400
      | Inr instanceID \<Rightarrow>
          (case extractUser req of
             Inl e \<Rightarrow> missing_or_internal e e e
           | Inr user \<Rightarrow>
               (case decode_field ''reason'' string_value [] (rq_Body req) of
                  Inl e \<Rightarrow> WriteErrorResponse e 400
                | Inr reason \<Rightarrow>
                    if reason = [] then WriteErrorResponse (Errorf ''reason is required'') 400
                    else bnd (attempt (stop instanceID user reason)) (\<lambda>r.
                      case r of
                        Inl e \<Rightarrow>
                          if is_not_found e then WriteErrorResponse e 404
                          else if contains_text ''already in terminal state'' (error_text e)
                          then WriteErrorResponse e 409
                          else WriteErrorResponse e 500
                      | Inr _ \<Rightarrow> respond 204 PNone))))"

definition HandleCancelWorkflow :: "extract_user \<Rightarrow> engine_handler" where
  "HandleCancelWorkflow = handle_stop CancelWorkflow"

definition HandleAbortWorkflow :: "extract_user \<Rightarrow> engine_handler" where
  "HandleAbortWorkflow = handle_stop AbortWorkflow"

definition HandleCleanupWorkflows :: "'x http_handler" where
  "HandleCleanupWorkflows req =
     (case decode_field ''days_to_keep'' int_value 0 (rq_Body req) of
        Inl e \<Rightarrow> WriteErrorResponse e 400
      | Inr days \<Rightarrow>
          if days \<le> 0 then WriteErrorResponse (Errorf ''days_to_keep must be greater than 0'') 400
          else bnd (attempt (CleanupOldWorkflows days)) (\<lambda>r.
            case r of Inl e \<Rightarrow> WriteErrorResponse e 500 | Inr n \<Rightarrow> respond 200 (PCleanup n days)))"

section \<open>The server\<close>

text \<open>
  A route is a method and a pattern of literal and wildcard segments.  \<open>http.ServeMux\<close> serves a request by
  the most specific matching pattern, the one with a literal where others have a wildcard; a \<open>GET\<close> pattern
  also serves \<open>HEAD\<close>.  No match is 404, a match for other methods only is 405.
\<close>

datatype segment = Lit string | Wild string

record route =
  ro_Method :: string
  ro_Pattern :: "segment list"
  ro_Handler :: engine_handler

fun match_path :: "segment list \<Rightarrow> string list \<Rightarrow> (string, string) gomap option" where
  "match_path [] [] = Some []"
| "match_path (Lit a # ps) (x # xs) = (if a = x then match_path ps xs else None)"
| "match_path (Wild n # ps) (x # xs) = (if x = [] then None else map_option (\<lambda>m. (n, x) # m) (match_path ps xs))"
| "match_path _ _ = None"

definition method_matches :: "string \<Rightarrow> string \<Rightarrow> bool" where
  "method_matches pattern m \<longleftrightarrow> pattern = m \<or> (pattern = ''GET'' \<and> m = ''HEAD'')"

fun literals :: "segment list \<Rightarrow> nat" where
  "literals [] = 0"
| "literals (Lit a # ps) = Suc (literals ps)"
| "literals (Wild n # ps) = literals ps"

definition most_specific :: "route list \<Rightarrow> route option" where
  "most_specific rs = fold (\<lambda>r best. case best of
      None \<Rightarrow> Some r
    | Some b \<Rightarrow> if literals (ro_Pattern b) < literals (ro_Pattern r) then Some r else Some b) rs None"

definition api_pattern :: "string list \<Rightarrow> segment list" where
  "api_pattern names = Lit ''api'' # map Lit names"

definition core_route :: "segment list \<Rightarrow> engine_handler \<Rightarrow> route" where
  "core_route p h = \<lparr>ro_Method = ''GET'', ro_Pattern = p, ro_Handler = h\<rparr>"

definition RegisterCoreRoutes :: "route list" where
  "RegisterCoreRoutes =
     [core_route (api_pattern [''workflows'']) HandleGetWorkflowDefinitions,
      core_route (api_pattern [''workflows''] @ [Wild ''id'']) HandleGetWorkflowDefinition,
      core_route (api_pattern [''workflows''] @ [Wild ''id'', Lit ''instances'']) HandleGetWorkflowInstances,
      core_route (api_pattern [''instances'']) HandleGetAllInstances,
      core_route (api_pattern [''instances''] @ [Wild ''id'']) HandleGetWorkflowInstance,
      core_route (api_pattern [''instances''] @ [Wild ''id'', Lit ''steps'']) HandleGetWorkflowSteps,
      core_route (api_pattern [''instances''] @ [Wild ''id'', Lit ''events'']) HandleGetWorkflowEvents,
      core_route (api_pattern [''stats'']) HandleGetStats,
      core_route (api_pattern [''stats'', ''summary'']) HandleGetSummaryStats,
      core_route (api_pattern [''instances'', ''active'']) HandleGetActiveInstances]"

definition post_route :: "segment list \<Rightarrow> engine_handler \<Rightarrow> route" where
  "post_route p h = \<lparr>ro_Method = ''POST'', ro_Pattern = p, ro_Handler = h\<rparr>"

definition instance_pattern :: "string list \<Rightarrow> segment list" where
  "instance_pattern names = api_pattern [''instances''] @ Wild ''instance_id'' # map Lit names"

definition dlq_routes :: "route list" where
  "dlq_routes =
     [core_route (api_pattern [''dlq'']) HandleList,
      core_route (api_pattern [''dlq''] @ [Wild ''id'']) HandleGet,
      post_route (api_pattern [''dlq''] @ [Wild ''id'', Lit ''requeue'']) HandleRequeue]"

definition human_decision_routes :: "extract_user \<Rightarrow> route list" where
  "human_decision_routes extractUser =
     [post_route (instance_pattern [''make-decision'', ''confirm'']) (HandleHumanDecision extractUser HumanDecisionConfirmed),
      post_route (instance_pattern [''make-decision'', ''reject'']) (HandleHumanDecision extractUser HumanDecisionRejected)]"

definition cancel_routes :: "extract_user \<Rightarrow> route list" where
  "cancel_routes extractUser = [post_route (instance_pattern [''cancel'']) (HandleCancelWorkflow extractUser)]"

definition abort_routes :: "extract_user \<Rightarrow> route list" where
  "abort_routes extractUser = [post_route (instance_pattern [''abort'']) (HandleAbortWorkflow extractUser)]"

definition cleanup_routes :: "route list" where
  "cleanup_routes = [post_route (api_pattern [''cleanup'']) HandleCleanupWorkflows]"

text \<open>A server with plugins; each plugin is the routes it registers.\<close>

definition api_server :: "route list list \<Rightarrow> route list" where
  "api_server plugins = RegisterCoreRoutes @ concat plugins"

definition serve :: "route list \<Rightarrow> string \<Rightarrow> string list \<Rightarrow> http_request \<Rightarrow> http_response eprog" where
  "serve routes m path req =
     (let fits = filter (\<lambda>r. match_path (ro_Pattern r) path \<noteq> None) routes in
      case most_specific (filter (\<lambda>r. method_matches (ro_Method r) m) fits) of
        None \<Rightarrow> respond (if fits = [] then 404 else 405) PNone
      | Some r \<Rightarrow>
          (case match_path (ro_Pattern r) path of
             None \<Rightarrow> respond 404 PNone
           | Some vals \<Rightarrow> ro_Handler r (req\<lparr>rq_Path := vals\<rparr>)))"

end
