(* ===== verification/Api_Laws.thy ===== *)
theory Api_Laws
  imports Api_Handlers Engine_Laws
begin

text \<open>
  Properties of the HTTP interface: which requests change nothing, how the handlers answer errors of the
  engine, pages and their overflow, and numbers in paths.
\<close>

section \<open>Numbers\<close>

lemma parse_uint_append:
  "parse_uint a (xs @ ys) = (case parse_uint a xs of Inl e \<Rightarrow> Inl e | Inr b \<Rightarrow> parse_uint b ys)"
  by (induction xs arbitrary: a) (auto split: option.split)

lemma digit_value_char: "d < 10 \<Longrightarrow> digit_value (digit_char d) = Some (int d)"
  using digit_char_range [of d] of_nat_of_char [of "digit_char d", where 'a = int]
  by (simp add: digit_value_def Let_def)

lemma parse_show_nat: "n < 2 ^ 64 \<Longrightarrow> parse_uint 0 (show_nat n) = Inr (int n)"
proof (induction n rule: show_nat.induct)
  case (1 n)
  show ?case
  proof (cases "n < 10")
    case True
    with "1.prems" show ?thesis by (simp add: show_nat.simps [of n] digit_value_char)
  next
    case False
    moreover have "n div 10 < 2 ^ 64" using "1.prems" by linarith
    ultimately have "parse_uint 0 (show_nat (n div 10)) = Inr (int (n div 10))" using "1.IH" by blast
    moreover have "int (n div 10) * 10 + int (n mod 10) = int n"
      by (metis div_mult_mod_eq of_nat_add of_nat_mult of_nat_numeral)
    ultimately show ?thesis
      using False "1.prems" by (simp add: show_nat.simps [of n] parse_uint_append digit_value_char)
  qed
qed

lemma show_nat_unsigned: "parse_sign (show_nat n) = (False, show_nat n)"
proof -
  obtain c cs where s: "show_nat n = c # cs" using show_nat_nonempty [of n] by (cases "show_nat n") auto
  then obtain d where "d < 10" "c = digit_char d" using show_nat_digits [of c n] by auto
  then have "c \<noteq> CHR ''+''" "c \<noteq> CHR ''-''"
    by (auto simp: digit_char_def dest: arg_cong [of _ _ "of_char :: char \<Rightarrow> nat"])
  with s show ?thesis by (simp add: parse_sign_def)
qed

text \<open>
  Numbers in paths and queries survive printing: every 64-bit integer, printed in base ten, is parsed back to
  itself.
\<close>

theorem ParseInt_show_int: "fits_int64 i \<Longrightarrow> ParseInt (show_int i) = Inr i"
proof -
  assume fits: "fits_int64 i"
  have nonempty: "show_nat n \<noteq> []" for n by (rule show_nat_nonempty)
  show "ParseInt (show_int i) = Inr i"
  proof (cases "i < 0")
    case True
    with fits have "nat (- i) \<le> 2 ^ 63" by (simp add: fits_int64_def nat_le_iff)
    then have "parse_uint 0 (show_nat (nat (- i))) = Inr (- i)" using True parse_show_nat [of "nat (- i)"] by simp
    with True nonempty \<open>nat (- i) \<le> 2 ^ 63\<close> show ?thesis
      by (simp add: ParseInt_def show_int_def parse_sign_def Let_def)
  next
    case False
    with fits have "nat i < 2 ^ 63" by (simp add: fits_int64_def nat_less_iff)
    then have "parse_uint 0 (show_nat (nat i)) = Inr i" using False parse_show_nat [of "nat i"] by simp
    with False nonempty \<open>nat i < 2 ^ 63\<close> show ?thesis
      by (simp add: ParseInt_def show_int_def show_nat_unsigned Let_def)
  qed
qed

theorem ParseInt_show_int_witness: "ParseInt (show_int (- 9223372036854775808)) = Inr (- 9223372036854775808)"
  by (rule ParseInt_show_int) (simp add: fits_int64_def)

section \<open>Requests that change nothing\<close>

definition all_routes :: "extract_user \<Rightarrow> route list" where
  "all_routes u = api_server [dlq_routes, human_decision_routes u, cancel_routes u, abort_routes u, cleanup_routes]"

lemmas query_defs =
  HandleGetWorkflowDefinitions_def HandleGetWorkflowDefinition_def HandleGetWorkflowInstances_def
  HandleGetAllInstances_def HandleGetWorkflowInstance_def HandleGetWorkflowSteps_def HandleGetWorkflowEvents_def
  HandleGetStats_def HandleGetSummaryStats_def HandleGetActiveInstances_def HandleList_def HandleGet_def
  with_instance_def

lemmas store_query_defs =
  GetWorkflowDefinitions_def GetWorkflowDefinition_def GetWorkflowInstancesPaginated_def
  GetAllWorkflowInstancesPaginated_def GetWorkflowInstances_def GetAllWorkflowInstances_def paginate_def go_slice_def
  GetInstance_def GetWorkflowSteps_def GetStepsByInstance_def GetWorkflowEvents_def GetWorkflowStats_def
  GetSummaryStats_def GetActiveInstances_def ListDeadLetters_def GetDeadLetterByID_def

lemmas same_flow = same.moves_ret same.moves_throw same.moves_panic same.moves_gets same.moves_bnd same.moves_attempt
  same.moves_if same.moves_option same.moves_sum same.moves_prod same.moves_let

lemma answers_keep: "moves (same id) (respond n p)" "moves (same id) (WriteErrorResponse e n)"
  "moves (same id) (missing_or_internal e e1 e2)"
  unfolding respond_def WriteErrorResponse_def missing_or_internal_def by (intro same_flow)+

lemma core_handlers_keep:
  "moves (same id) (HandleGetWorkflowDefinitions req)" "moves (same id) (HandleGetWorkflowDefinition req)"
  "moves (same id) (HandleGetWorkflowInstances req)" "moves (same id) (HandleGetAllInstances req)"
  "moves (same id) (HandleGetWorkflowInstance req)" "moves (same id) (HandleGetWorkflowSteps req)"
  "moves (same id) (HandleGetWorkflowEvents req)" "moves (same id) (HandleGetStats req)"
  "moves (same id) (HandleGetSummaryStats req)" "moves (same id) (HandleGetActiveInstances req)"
  "moves (same id) (HandleList req)" "moves (same id) (HandleGet req)"
  unfolding query_defs store_query_defs by (intro same_flow answers_keep)+

lemma get_routes_keep:
  assumes "r \<in> set (all_routes u)" and "ro_Method r \<noteq> ''POST''"
  shows "moves (same id) (ro_Handler r req)"
proof -
  have "r \<in> set (RegisterCoreRoutes @ dlq_routes) - {r. ro_Method r = ''POST''}"
    using assms by (auto simp: all_routes_def api_server_def human_decision_routes_def cancel_routes_def
        abort_routes_def cleanup_routes_def post_route_def)
  then show ?thesis
    unfolding RegisterCoreRoutes_def dlq_routes_def
    by (auto simp: core_route_def post_route_def intro: core_handlers_keep)
qed

lemma most_specific_mem: "most_specific rs = Some r \<Longrightarrow> r \<in> set rs"
proof -
  have "fold (\<lambda>r best. case best of None \<Rightarrow> Some r
      | Some b \<Rightarrow> if literals (ro_Pattern b) < literals (ro_Pattern r) then Some r else Some b) rs acc = Some r \<Longrightarrow>
      r \<in> set rs \<or> acc = Some r" for acc
    by (induction rs arbitrary: acc) (fastforce split: option.splits if_splits)+
  from this [of None] show "most_specific rs = Some r \<Longrightarrow> r \<in> set rs" by (simp add: most_specific_def)
qed

text \<open>
  Reading is free of effects.  On a server with all plugins, a \<open>GET\<close> or \<open>HEAD\<close> request, to whatever path and with
  whatever query and body, leaves the whole engine state as it is, also when it is answered with an error
  or panics.
\<close>

theorem get_requests_change_nothing:
  "snd (serve (all_routes u) ''GET'' path req s) = s \<and> snd (serve (all_routes u) ''HEAD'' path req s) = s"
proof -
  have "snd (serve (all_routes u) m path req s) = s" if "m \<noteq> ''POST''" for m
  proof (cases "most_specific (filter (\<lambda>r. method_matches (ro_Method r) m)
      (filter (\<lambda>r. match_path (ro_Pattern r) path \<noteq> None) (all_routes u)))")
    case None
    then show ?thesis by (simp add: serve_def respond_def ret_def)
  next
    case (Some r)
    from most_specific_mem [OF this] that have r: "r \<in> set (all_routes u)" "ro_Method r \<noteq> ''POST''"
      by (auto simp: method_matches_def)
    have "snd (ro_Handler r req' s) = s" for req'
      using movesD [OF get_routes_keep [OF r], of s req'] by (simp add: same_def)
    with Some show ?thesis by (auto simp: serve_def respond_def ret_def split: option.split)
  qed
  then show ?thesis by simp
qed

text \<open>
  The list of active instances is not shadowed: a \<open>GET\<close> of the path \<open>api/instances/active\<close> is answered by the
  active-instances handler and not as an instance with the number \<open>active\<close>, and every other single segment
  there goes to the instance handler.
\<close>

theorem active_route_wins:
  "serve (all_routes u) ''GET'' [''api'', ''instances'', x] req =
    (if x = ''active'' then HandleGetActiveInstances (req\<lparr>rq_Path := []\<rparr>)
     else if x = [] then respond 404 PNone
     else HandleGetWorkflowInstance (req\<lparr>rq_Path := [(''id'', x)]\<rparr>))"
  by (auto simp: serve_def all_routes_def api_server_def RegisterCoreRoutes_def dlq_routes_def human_decision_routes_def
      cancel_routes_def abort_routes_def cleanup_routes_def core_route_def post_route_def api_pattern_def
      instance_pattern_def method_matches_def most_specific_def)

section \<open>Pages\<close>

lemma page_of_pos: "1 \<le> page_of req" "1 \<le> page_size_of req" "page_size_of req \<le> 1000"
  by (auto simp: page_of_def page_size_of_def Let_def split: sum.split)

lemma offset_fits:
  assumes "(page_of req - 1) * page_size_of req < 2 ^ 63"
  shows "offset_of req = (page_of req - 1) * page_size_of req"
proof -
  have "0 \<le> (page_of req - 1) * page_size_of req" using page_of_pos [of req] by simp
  with assms have "fits_int64 ((page_of req - 1) * page_size_of req)" by (simp add: fits_int64_def)
  from mul_int64_exact [OF this] show ?thesis by (simp add: offset_of_def)
qed

text \<open>
  The instance listing returns the asked page.  While page number times page size fits into 64 bits, the answer is 200
  with exactly that page of all instances, newest first, and the total number.
\<close>

theorem instance_page_exact:
  assumes "(page_of req - 1) * page_size_of req < 2 ^ 63"
  shows "\<exists>all. GetAllWorkflowInstances s = (Ok all, s) \<and>
    HandleGetAllInstances req s = (Ok \<lparr>hr_Status = 200, hr_Payload = PInstances
      \<lparr>pr_Items = take (nat (page_size_of req)) (drop (nat ((page_of req - 1) * page_size_of req)) all),
       pr_Page = page_of req, pr_PageSize = page_size_of req, pr_Total = int (length all)\<rparr>\<rparr>, s)"
proof -
  have "0 \<le> offset_of req" using page_of_pos [of req] by (simp add: offset_fits [OF assms])
  with page_of_pos [of req] show ?thesis
    by (simp add: paginate_run HandleGetAllInstances_def GetAllWorkflowInstancesPaginated_def GetAllWorkflowInstances_def run_simps
        respond_def page_response_def offset_fits [OF assms])
qed

definition page_request :: "string \<Rightarrow> http_request" where
  "page_request n = \<lparr>rq_Path = [], rq_Query = [(''page'', n)], rq_Body = BodyEmpty\<rparr>"

theorem instance_page_exact_witness:
  "\<exists>all. HandleGetAllInstances (page_request ''2'') demo_started = (Ok \<lparr>hr_Status = 200, hr_Payload = PInstances
      \<lparr>pr_Items = take 20 (drop 20 all), pr_Page = 2, pr_PageSize = 20, pr_Total = int (length all)\<rparr>\<rparr>, demo_started)"
proof -
  have "page_of (page_request ''2'') = 2" "page_size_of (page_request ''2'') = 20" by code_simp+
  with instance_page_exact [of "page_request ''2''" demo_started] show ?thesis by auto
qed

text \<open>
  A page number near the end of 64 bits breaks the listing: the offset wraps around to a negative
  number, which the store uses as a slice bound, and the handler panics, whatever the store holds.
\<close>

theorem page_overflow_panics:
  "offset_of (page_request ''9223372036854775807'') = - 40 \<and>
   fst (HandleGetAllInstances (page_request ''9223372036854775807'') s) = Panic ''slice bounds out of range''"
proof -
  have offset: "offset_of (page_request ''9223372036854775807'') = - 40" by code_simp
  then show ?thesis
    by (simp add: HandleGetAllInstances_def GetAllWorkflowInstancesPaginated_def GetAllWorkflowInstances_def run_simps
        paginate_def go_slice_def Let_def)
qed

section \<open>Cancel and abort\<close>

lemma contains_text_append: "contains_text sub (xs @ sub @ ys)"
proof (induction xs)
  case Nil
  show ?case by (cases sub; cases ys) auto
qed simp

declare contains_text.simps [simp del]

lemma stop_answers:
  assumes req: "ParseInt (PathValue req ''instance_id'') = Inr i" "extractUser req = Inr user"
      "decode_field ''reason'' string_value [] (rq_Body req) = Inr why" "why \<noteq> []"
  shows "case map_of (ms_instances s) i of
     None \<Rightarrow> \<exists>msg. handle_stop (request_stop kind ev) extractUser req s = (Ok \<lparr>hr_Status = 404, hr_Payload = PError msg\<rparr>, s)
   | Some inst \<Rightarrow>
       if is_final (wi_Status inst)
       then \<exists>msg. handle_stop (request_stop kind ev) extractUser req s = (Ok \<lparr>hr_Status = 409, hr_Payload = PError msg\<rparr>, s)
       else \<exists>t. handle_stop (request_stop kind ev) extractUser req s = (Ok \<lparr>hr_Status = 204, hr_Payload = PNone\<rparr>, t) \<and>
         has_key (ms_cancelRequests t) i \<and> ms_instances t = ms_instances s \<and> ms_steps t = ms_steps s"
proof -
  have final: "contains_text ''already in terminal state'' (error_text (Errorf (''workflow '' @ show_int i @
      '' is already in terminal state: '' @ st)))" for st
    using contains_text_append [of "''already in terminal state''" "''workflow '' @ show_int i @ '' is ''" "'': '' @ st"] by simp
  show ?thesis
    using req final
    by (auto simp: handle_stop_def request_stop_def GetInstance_def CreateCancelRequest_def run_simps time_now_def
        has_key_def WriteErrorResponse_def respond_def split: option.split)
qed

text \<open>
  C36: how cancel and abort requests are answered over HTTP.  For a request with a number, a user and a reason: an unknown
  instance gives 404, an instance that is completed, failed, cancelled or aborted gives 409, both without any
  change; otherwise the answer is 204 and the instance has a pending stop request.  The 409 rests on the text of the
  engine's error.
\<close>

theorem stop_requests_answered:
  assumes "ParseInt (PathValue req ''instance_id'') = Inr i" and "extractUser req = Inr user"
    and "decode_field ''reason'' string_value [] (rq_Body req) = Inr why" and "why \<noteq> []"
    and "handler = HandleCancelWorkflow \<or> handler = HandleAbortWorkflow"
  shows "case map_of (ms_instances s) i of
     None \<Rightarrow> \<exists>msg. handler extractUser req s = (Ok \<lparr>hr_Status = 404, hr_Payload = PError msg\<rparr>, s)
   | Some inst \<Rightarrow>
       if is_final (wi_Status inst)
       then \<exists>msg. handler extractUser req s = (Ok \<lparr>hr_Status = 409, hr_Payload = PError msg\<rparr>, s)
       else \<exists>t. handler extractUser req s = (Ok \<lparr>hr_Status = 204, hr_Payload = PNone\<rparr>, t) \<and>
         has_key (ms_cancelRequests t) i \<and> ms_instances t = ms_instances s \<and> ms_steps t = ms_steps s"
  using assms(5) stop_answers [where extractUser = extractUser and s = s, OF assms(1-4)]
  by (auto simp only: HandleCancelWorkflow_def HandleAbortWorkflow_def CancelWorkflow_def AbortWorkflow_def)

definition cancel_request_body :: http_request where
  "cancel_request_body = \<lparr>rq_Path = [(''instance_id'', ''7'')], rq_Query = [],
     rq_Body = BodyDoc (JObject [(''Reason'', JString ''late'')])\<rparr>"

theorem stop_requests_answered_witness:
  "\<exists>msg. HandleCancelWorkflow (\<lambda>_. Inr ''op'') cancel_request_body demo_engine =
     (Ok \<lparr>hr_Status = 404, hr_Payload = PError msg\<rparr>, demo_engine)"
proof -
  have "ParseInt (PathValue cancel_request_body ''instance_id'') = Inr 7"
    "decode_field ''reason'' string_value [] (rq_Body cancel_request_body) = Inr ''late''"
    "map_of (ms_instances demo_engine) 7 = None"
    by code_simp+
  with stop_requests_answered [OF this(1) _ this(2), of "\<lambda>_. Inr ''op''" "''op''" HandleCancelWorkflow demo_engine]
  show ?thesis by simp
qed

end
