(* ===== verification/Engine_Plugins.thy ===== *)
theory Engine_Plugins
  imports Engine_Laws
begin

text \<open>
  The engine plugins under \<open>src/plugins/engine\<close>: rate limiter, rollback depth, input validation, audit,
  notifications and metrics, with the default hooks of \<open>BasePlugin\<close> (\<open>src/plugins.go\<close>).

  A plugin with state of its own is a record with its operations.  As a plugin of the engine it is a record of
  hooks; a hook gets the number of the hook call, and what happened to the plugin before that call is a
  function of this number.  Audit writer, notification channel and metrics collector are parameters.
\<close>

section \<open>The default hooks\<close>

definition BasePlugin :: "string \<Rightarrow> int \<Rightarrow> plugin" where
  "BasePlugin name priority =
     \<lparr>pl_Name = name, pl_Priority = priority, pl_OnWorkflowStart = \<lambda>n inst. None,
      pl_OnWorkflowComplete = \<lambda>n inst. None, pl_OnWorkflowFailed = \<lambda>n inst. None,
      pl_OnStepStart = \<lambda>n inst st. None, pl_OnStepComplete = \<lambda>n inst st. None,
      pl_OnStepFailed = \<lambda>n inst st e. None, pl_OnRollbackStepChain = \<lambda>n i name depth. None\<rparr>"

section \<open>Rate limiter\<close>

record rate_limiter =
  rl_tokens :: "(string, int) gomap"
  rl_maxTokens :: int

definition rate_limiter_New :: "int \<Rightarrow> rate_limiter" where
  "rate_limiter_New maxTokens = \<lparr>rl_tokens = [], rl_maxTokens = maxTokens\<rparr>"

definition rate_key :: "string \<Rightarrow> string \<Rightarrow> string" where
  "rate_key workflowID stepName = workflowID @ '':'' @ stepName"

definition rate_limiter_OnStepStart :: "string \<Rightarrow> (rate_limiter, unit) prog" where
  "rate_limiter_OnStepStart key =
     thn (modify (\<lambda>p. if has_key (rl_tokens p) key then p
                      else p\<lparr>rl_tokens := AList.update key (rl_maxTokens p) (rl_tokens p)\<rparr>))
    (bnd (gets (\<lambda>p. case map_of (rl_tokens p) key of None \<Rightarrow> 0 | Some n \<Rightarrow> n)) (\<lambda>n.
     if n \<le> 0 then throw (Errorf (''rate limit exceeded for '' @ key))
     else modify (\<lambda>p. p\<lparr>rl_tokens := AList.update key (n - 1) (rl_tokens p)\<rparr>)))"

text \<open>One tick of \<open>refillTokens\<close>.\<close>

definition refillTokens :: "(rate_limiter, unit) prog" where
  "refillTokens = modify (\<lambda>p. p\<lparr>rl_tokens :=
     map (\<lambda>(key, n). (key, if n < rl_maxTokens p then n + 1 else n)) (rl_tokens p)\<rparr>)"

datatype rate_event = StepStarts string | RefillTick

fun rate_run :: "rate_event list \<Rightarrow> rate_limiter \<Rightarrow> rate_limiter" where
  "rate_run [] p = p"
| "rate_run (StepStarts key # evs) p = rate_run evs (snd (rate_limiter_OnStepStart key p))"
| "rate_run (RefillTick # evs) p = rate_run evs (snd (refillTokens p))"

text \<open>How many of the starts under a key are let through.\<close>

fun admitted :: "string \<Rightarrow> rate_event list \<Rightarrow> rate_limiter \<Rightarrow> nat" where
  "admitted key [] p = 0"
| "admitted key (StepStarts k # evs) p =
     (case rate_limiter_OnStepStart k p of
        (r, q) \<Rightarrow> (if k = key \<and> r = Ok () then 1 else 0) + admitted key evs q)"
| "admitted key (RefillTick # evs) p = admitted key evs (snd (refillTokens p))"

definition rate_limiter_plugin :: "(nat \<Rightarrow> rate_event list) \<Rightarrow> int \<Rightarrow> plugin" where
  "rate_limiter_plugin history maxTokens =
     (BasePlugin ''rate_limiter'' PriorityHigh)\<lparr>pl_OnStepStart := \<lambda>n inst st.
        (case fst (rate_limiter_OnStepStart (rate_key (wi_WorkflowID inst) (ws_StepName st))
                 (rate_run (history n) (rate_limiter_New maxTokens))) of
           Err e \<Rightarrow> Some e | _ \<Rightarrow> None)\<rparr>"

section \<open>Rollback depth\<close>

record rollback_depth =
  rd_maxDepthByInstance :: "(int, int) gomap"

definition rollback_depth_New :: rollback_depth where
  "rollback_depth_New = \<lparr>rd_maxDepthByInstance = []\<rparr>"

definition rollback_depth_OnRollbackStepChain :: "int \<Rightarrow> int \<Rightarrow> (rollback_depth, unit) prog" where
  "rollback_depth_OnRollbackStepChain instanceID depth =
     modify (\<lambda>p. case map_of (rd_maxDepthByInstance p) instanceID of
         None \<Rightarrow> p\<lparr>rd_maxDepthByInstance := AList.update instanceID depth (rd_maxDepthByInstance p)\<rparr>
       | Some currentMax \<Rightarrow>
           if depth > currentMax
           then p\<lparr>rd_maxDepthByInstance := AList.update instanceID depth (rd_maxDepthByInstance p)\<rparr>
           else p)"

definition GetMaxDepth :: "int \<Rightarrow> (rollback_depth, int) prog" where
  "GetMaxDepth instanceID = gets (\<lambda>p. case map_of (rd_maxDepthByInstance p) instanceID of None \<Rightarrow> 0 | Some d \<Rightarrow> d)"

definition ResetMaxDepth :: "int \<Rightarrow> (rollback_depth, unit) prog" where
  "ResetMaxDepth instanceID =
     modify (\<lambda>p. p\<lparr>rd_maxDepthByInstance := AList.delete instanceID (rd_maxDepthByInstance p)\<rparr>)"

definition GetAllMaxDepths :: "(rollback_depth, (int, int) gomap) prog" where
  "GetAllMaxDepths = gets (\<lambda>p. fold (\<lambda>(k, v) m. AList.update k v m) (rd_maxDepthByInstance p) [])"

section \<open>Input validation\<close>

type_synonym validation_rule = "raw \<Rightarrow> goerror option"

record validation_plugin =
  vp_rules :: "(string, validation_rule list) gomap"

definition AddRule :: "string \<Rightarrow> validation_rule \<Rightarrow> (validation_plugin, unit) prog" where
  "AddRule stepName rule =
     modify (\<lambda>p. p\<lparr>vp_rules := AList.update stepName
       ((case map_of (vp_rules p) stepName of None \<Rightarrow> [] | Some rs \<Rightarrow> rs) @ [rule]) (vp_rules p)\<rparr>)"

fun check_rules :: "nat \<Rightarrow> string \<Rightarrow> raw \<Rightarrow> validation_rule list \<Rightarrow> goerror option" where
  "check_rules i stepName input [] = None"
| "check_rules i stepName input (r # rs) =
     (case r input of
        Some e \<Rightarrow> Some (Wrap (''validation rule '' @ show_nat i @ '' failed for step '' @ quote stepName) e)
      | None \<Rightarrow> check_rules (Suc i) stepName input rs)"

definition validation_OnStepStart :: "validation_plugin \<Rightarrow> workflow_step \<Rightarrow> goerror option" where
  "validation_OnStepStart p st =
     (case map_of (vp_rules p) (ws_StepName st) of
        None \<Rightarrow> None
      | Some rules \<Rightarrow> check_rules 0 (ws_StepName st) (ws_Input st) rules)"

definition validation_hooks :: "validation_plugin \<Rightarrow> plugin" where
  "validation_hooks p =
     (BasePlugin ''validation'' PriorityHigh)\<lparr>pl_OnStepStart := \<lambda>n inst st. validation_OnStepStart p st\<rparr>"

section \<open>Audit\<close>

record audit_log_entry =
  al_Timestamp :: int
  al_EventType :: string
  al_InstanceID :: int
  al_WorkflowID :: string
  al_StepID :: "int option"
  al_StepName :: string
  al_Status :: string
  al_Error :: string
  al_Metadata :: raw

definition error_or_empty :: "string option \<Rightarrow> string" where
  "error_or_empty e = (case e of None \<Rightarrow> [] | Some m \<Rightarrow> m)"

definition workflow_entry :: "int \<Rightarrow> string \<Rightarrow> workflow_instance \<Rightarrow> string \<Rightarrow> raw \<Rightarrow> audit_log_entry" where
  "workflow_entry now event inst err meta =
     \<lparr>al_Timestamp = now, al_EventType = event, al_InstanceID = wi_ID inst, al_WorkflowID = wi_WorkflowID inst,
      al_StepID = None, al_StepName = [], al_Status = workflow_status_text (wi_Status inst), al_Error = err,
      al_Metadata = meta\<rparr>"

definition step_entry :: "int \<Rightarrow> string \<Rightarrow> workflow_instance \<Rightarrow> workflow_step \<Rightarrow> string \<Rightarrow> raw \<Rightarrow> audit_log_entry" where
  "step_entry now event inst st err meta =
     \<lparr>al_Timestamp = now, al_EventType = event, al_InstanceID = ws_InstanceID st, al_WorkflowID = wi_WorkflowID inst,
      al_StepID = Some (ws_ID st), al_StepName = ws_StepName st, al_Status = step_status_text (ws_Status st),
      al_Error = err, al_Metadata = meta\<rparr>"

text \<open>The error of a failed step: the one stored with it, else the one the engine passes.\<close>

definition step_error :: "workflow_step \<Rightarrow> goerror \<Rightarrow> string" where
  "step_error st e = (case ws_Error st of Some m \<Rightarrow> m | None \<Rightarrow> error_text e)"

definition AuditPlugin :: "(nat \<Rightarrow> int) \<Rightarrow> (nat \<Rightarrow> audit_log_entry \<Rightarrow> goerror option) \<Rightarrow> plugin" where
  "AuditPlugin now write =
     (BasePlugin ''audit'' PriorityNormal)
       \<lparr>pl_OnWorkflowStart := \<lambda>n inst. write n (workflow_entry (now n) ''workflow_start'' inst [] (wi_Input inst)),
        pl_OnWorkflowComplete := \<lambda>n inst. write n (workflow_entry (now n) ''workflow_complete'' inst [] (wi_Output inst)),
        pl_OnWorkflowFailed := \<lambda>n inst.
          write n (workflow_entry (now n) ''workflow_failed'' inst (error_or_empty (wi_Error inst)) (wi_Output inst)),
        pl_OnStepStart := \<lambda>n inst st. write n (step_entry (now n) ''step_start'' inst st [] (ws_Input st)),
        pl_OnStepComplete := \<lambda>n inst st. write n (step_entry (now n) ''step_complete'' inst st [] (ws_Output st)),
        pl_OnStepFailed := \<lambda>n inst st e. write n (step_entry (now n) ''step_failed'' inst st (step_error st e) (ws_Input st))\<rparr>"

section \<open>Notifications\<close>

datatype notification_type =
  NotificationTypeWorkflowStarted | NotificationTypeWorkflowCompleted | NotificationTypeWorkflowFailed
| NotificationTypeStepStarted | NotificationTypeStepCompleted | NotificationTypeStepFailed

record notification =
  no_Type :: notification_type
  no_InstanceID :: int
  no_WorkflowID :: string
  no_StepID :: "int option"
  no_StepName :: string
  no_Status :: string
  no_Error :: string

definition workflow_notification :: "notification_type \<Rightarrow> workflow_instance \<Rightarrow> string \<Rightarrow> notification" where
  "workflow_notification ty inst err =
     \<lparr>no_Type = ty, no_InstanceID = wi_ID inst, no_WorkflowID = wi_WorkflowID inst, no_StepID = None, no_StepName = [],
      no_Status = workflow_status_text (wi_Status inst), no_Error = err\<rparr>"

definition step_notification :: "notification_type \<Rightarrow> workflow_instance \<Rightarrow> workflow_step \<Rightarrow> string \<Rightarrow> notification" where
  "step_notification ty inst st err =
     \<lparr>no_Type = ty, no_InstanceID = ws_InstanceID st, no_WorkflowID = wi_WorkflowID inst, no_StepID = Some (ws_ID st),
      no_StepName = ws_StepName st, no_Status = step_status_text (ws_Status st), no_Error = err\<rparr>"

text \<open>Without a channel every hook returns nil.\<close>

definition send_on :: "(nat \<Rightarrow> notification \<Rightarrow> goerror option) option \<Rightarrow> nat \<Rightarrow> notification \<Rightarrow> goerror option" where
  "send_on channel n msg = (case channel of None \<Rightarrow> None | Some send \<Rightarrow> send n msg)"

definition NotificationsPlugin :: "(nat \<Rightarrow> notification \<Rightarrow> goerror option) option \<Rightarrow> plugin" where
  "NotificationsPlugin channel =
     (BasePlugin ''notifications'' PriorityNormal)
       \<lparr>pl_OnWorkflowStart := \<lambda>n inst. send_on channel n (workflow_notification NotificationTypeWorkflowStarted inst []),
        pl_OnWorkflowComplete := \<lambda>n inst. send_on channel n (workflow_notification NotificationTypeWorkflowCompleted inst []),
        pl_OnWorkflowFailed := \<lambda>n inst.
          send_on channel n (workflow_notification NotificationTypeWorkflowFailed inst (error_or_empty (wi_Error inst))),
        pl_OnStepStart := \<lambda>n inst st. send_on channel n (step_notification NotificationTypeStepStarted inst st []),
        pl_OnStepComplete := \<lambda>n inst st. send_on channel n (step_notification NotificationTypeStepCompleted inst st []),
        pl_OnStepFailed := \<lambda>n inst st e.
          send_on channel n (step_notification NotificationTypeStepFailed inst st (step_error st e))\<rparr>"

section \<open>Metrics\<close>

text \<open>What the hooks report to the collector, in order; they never return an error.\<close>

datatype metric =
    RecordWorkflowStarted int string
  | RecordWorkflowCompleted int string int workflow_status
  | RecordWorkflowFailed int string int
  | RecordStepStarted int string string step_type
  | RecordStepCompleted int string string step_type int
  | RecordStepFailed int string string step_type int
  | RecordWorkflowStatus int string workflow_status
  | RecordStepStatus int string string step_status

definition status_metric :: "workflow_instance \<Rightarrow> metric" where
  "status_metric inst = RecordWorkflowStatus (wi_ID inst) (wi_WorkflowID inst) (wi_Status inst)"

definition step_status_metric :: "workflow_instance \<Rightarrow> workflow_step \<Rightarrow> metric" where
  "step_status_metric inst st = RecordStepStatus (ws_InstanceID st) (wi_WorkflowID inst) (ws_StepName st) (ws_Status st)"

definition step_duration :: "int \<Rightarrow> workflow_step \<Rightarrow> int" where
  "step_duration now st = now - (case ws_StartedAt st of Some t \<Rightarrow> t | None \<Rightarrow> ws_CreatedAt st)"

definition metrics_OnWorkflowStart :: "workflow_instance \<Rightarrow> metric list" where
  "metrics_OnWorkflowStart inst = [RecordWorkflowStarted (wi_ID inst) (wi_WorkflowID inst), status_metric inst]"

definition metrics_OnWorkflowComplete :: "int \<Rightarrow> workflow_instance \<Rightarrow> metric list" where
  "metrics_OnWorkflowComplete now inst =
     [RecordWorkflowCompleted (wi_ID inst) (wi_WorkflowID inst) (now - wi_CreatedAt inst) (wi_Status inst),
      status_metric inst]"

definition metrics_OnWorkflowFailed :: "int \<Rightarrow> workflow_instance \<Rightarrow> metric list" where
  "metrics_OnWorkflowFailed now inst =
     [RecordWorkflowFailed (wi_ID inst) (wi_WorkflowID inst) (now - wi_CreatedAt inst), status_metric inst]"

definition metrics_OnStepStart :: "workflow_instance \<Rightarrow> workflow_step \<Rightarrow> metric list" where
  "metrics_OnStepStart inst st =
     [RecordStepStarted (ws_InstanceID st) (wi_WorkflowID inst) (ws_StepName st) (ws_StepType st),
      step_status_metric inst st]"

definition metrics_OnStepComplete :: "int \<Rightarrow> workflow_instance \<Rightarrow> workflow_step \<Rightarrow> metric list" where
  "metrics_OnStepComplete now inst st =
     [RecordStepCompleted (ws_InstanceID st) (wi_WorkflowID inst) (ws_StepName st) (ws_StepType st) (step_duration now st),
      step_status_metric inst st]"

definition metrics_OnStepFailed :: "int \<Rightarrow> workflow_instance \<Rightarrow> workflow_step \<Rightarrow> metric list" where
  "metrics_OnStepFailed now inst st =
     [RecordStepFailed (ws_InstanceID st) (wi_WorkflowID inst) (ws_StepName st) (ws_StepType st) (step_duration now st),
      step_status_metric inst st]"

end
