(* ===== verification/Plugin_Laws.thy ===== *)
theory Plugin_Laws
  imports Engine_Plugins
begin

text \<open>
  Properties of the engine plugins, and what the engine does when a plugin refuses a step.
\<close>

section \<open>Rate limiter\<close>

definition rate_budget :: "rate_limiter \<Rightarrow> string \<Rightarrow> nat" where
  "rate_budget p key = nat (case map_of (rl_tokens p) key of None \<Rightarrow> rl_maxTokens p | Some n \<Rightarrow> n)"

lemma OnStepStart_max [simp]: "rl_maxTokens (snd (rate_limiter_OnStepStart k p)) = rl_maxTokens p"
  by (simp add: rate_limiter_OnStepStart_def run_simps)

lemma OnStepStart_budget:
  "rate_budget (snd (rate_limiter_OnStepStart k p)) key + (if k = key \<and> fst (rate_limiter_OnStepStart k p) = Ok () then 1 else 0) =
   rate_budget p key"
  by (auto simp: rate_limiter_OnStepStart_def run_simps rate_budget_def has_key_def split: option.split)

lemma OnStepStart_admits: "fst (rate_limiter_OnStepStart k p) = Ok () \<longleftrightarrow> 0 < rate_budget p k"
  by (auto simp: rate_limiter_OnStepStart_def run_simps rate_budget_def has_key_def split: option.split)

lemma refill_budget: "rate_budget (snd (refillTokens p)) key \<le> Suc (rate_budget p key)"
  by (auto simp: refillTokens_def modify_def rate_budget_def map_of_map [of "\<lambda>n. if n < rl_maxTokens p then n + 1 else n"]
      split: option.split)

lemma admitted_bound: "admitted key evs p \<le> rate_budget p key + count_list evs RefillTick"
proof (induction evs arbitrary: p)
  case (Cons ev evs)
  show ?case
  proof (cases ev)
    case (StepStarts k)
    obtain r q where rq: "rate_limiter_OnStepStart k p = (r, q)" by fastforce
    then show ?thesis using Cons [of q] OnStepStart_budget [of k p key] StepStarts by (auto split: if_splits)
  next
    case RefillTick
    then show ?thesis using Cons [of "snd (refillTokens p)"] refill_budget [of p key] by simp
  qed
qed simp

lemma admitted_exact:
  "RefillTick \<notin> set evs \<Longrightarrow> admitted key evs p = min (count_list evs (StepStarts key)) (rate_budget p key)"
proof (induction evs arbitrary: p)
  case (Cons ev evs)
  then obtain k where ev: "ev = StepStarts k" by (cases ev) auto
  obtain r q where rq: "rate_limiter_OnStepStart k p = (r, q)" by fastforce
  with Cons ev OnStepStart_budget [of k p key] OnStepStart_admits [of k p] show ?case by auto
qed simp

text \<open>
  The rate limiter keeps its promise per workflow and step: in any sequence of step starts and refill ticks, the
  number of starts it lets through under a key is at most the configured maximum plus the number of ticks; and
  as long as there is no tick it lets through exactly the first ones up to the maximum, whatever happens
  under other keys.
\<close>

theorem rate_limit_bound:
  "admitted key evs (rate_limiter_New m) \<le> nat m + count_list evs RefillTick \<and>
   (RefillTick \<notin> set evs \<longrightarrow> admitted key evs (rate_limiter_New m) = min (count_list evs (StepStarts key)) (nat m))"
  using admitted_bound [of key evs "rate_limiter_New m"] admitted_exact [of evs key "rate_limiter_New m"]
  by (simp add: rate_limiter_New_def rate_budget_def)

theorem rate_limit_bound_witness:
  "admitted ''k'' [StepStarts ''k'', StepStarts ''j'', StepStarts ''k'', StepStarts ''k''] (rate_limiter_New 2) = 2"
  using rate_limit_bound [of "''k''" "[StepStarts ''k'', StepStarts ''j'', StepStarts ''k'', StepStarts ''k'']" 2] by simp

section \<open>Rollback depth\<close>

definition deeper :: "int \<Rightarrow> int option \<Rightarrow> int option" where
  "deeper d acc = Some (case acc of None \<Rightarrow> d | Some a \<Rightarrow> max a d)"

lemma depth_reports:
  "map_of (rd_maxDepthByInstance (fold (\<lambda>(j, d) p. snd (rollback_depth_OnRollbackStepChain j d p)) rs p)) i =
     fold deeper (map snd (filter (\<lambda>(j, d). j = i) rs)) (map_of (rd_maxDepthByInstance p) i)"
proof (induction rs arbitrary: p)
  case (Cons r rs)
  obtain j d where r: "r = (j, d)" by fastforce
  have "map_of (rd_maxDepthByInstance (snd (rollback_depth_OnRollbackStepChain j d p))) i =
      (if j = i then deeper d (map_of (rd_maxDepthByInstance p) i) else map_of (rd_maxDepthByInstance p) i)"
    by (auto simp: rollback_depth_OnRollbackStepChain_def modify_def deeper_def split: option.split)
  with Cons show ?case by (simp add: r)
qed simp

lemma fold_deeper: "fold deeper ds (Some a) = Some (Max (insert a (set ds)))"
proof (induction ds arbitrary: a)
  case (Cons d ds)
  have "fold deeper (d # ds) (Some a) = fold deeper ds (Some (max a d))" by (simp add: deeper_def)
  also note Cons
  also have "Max (insert (max a d) (set ds)) = Max (insert a (set (d # ds)))" by (cases "ds = []") (simp_all add: max.assoc)
  finally show ?case .
qed simp

text \<open>
  The rollback depth plugin reports, for each instance, the greatest depth the rollback traversal told
  it, and 0 if it heard nothing of the instance.
\<close>

theorem rollback_depth_exact:
  "fst (GetMaxDepth i (fold (\<lambda>(j, d) p. snd (rollback_depth_OnRollbackStepChain j d p)) rs rollback_depth_New)) =
     Ok (case map snd (filter (\<lambda>(j, d). j = i) rs) of [] \<Rightarrow> 0 | ds \<Rightarrow> Max (set ds))"
  using depth_reports [of rs rollback_depth_New i]
  by (simp add: GetMaxDepth_def gets_def rollback_depth_New_def fold_deeper split: list.split) (simp add: deeper_def fold_deeper)

section \<open>Input validation\<close>

lemma check_rules_None: "check_rules i n inp rs = None \<longleftrightarrow> (\<forall>r \<in> set rs. r inp = None)"
  by (induction rs arbitrary: i) (auto split: option.split)

lemma check_rules_Some:
  "check_rules i n inp rs = Some e \<Longrightarrow> \<exists>k e'. k < length rs \<and> (rs ! k) inp = Some e' \<and> (\<forall>j < k. (rs ! j) inp = None) \<and>
     e = Wrap (''validation rule '' @ show_nat (i + k) @ '' failed for step '' @ quote n) e'"
proof (induction rs arbitrary: i)
  case (Cons r rs)
  show ?case
  proof (cases "r inp")
    case None
    with Cons.prems Cons.IH [of "Suc i"] obtain k e' where "k < length rs" "(rs ! k) inp = Some e'"
      "\<forall>j < k. (rs ! j) inp = None" "e = Wrap (''validation rule '' @ show_nat (Suc i + k) @ '' failed for step '' @ quote n) e'"
      by auto
    with None show ?thesis by (intro exI [of _ "Suc k"] exI [of _ e']) (auto simp: less_Suc_eq_0_disj)
  next
    case (Some e')
    with Cons.prems show ?thesis by (intro exI [of _ 0]) auto
  qed
qed simp

text \<open>
  The validation plugin runs the rules of a step in the order they were added: it accepts the input exactly when
  every rule does, and otherwise reports the first rule that fails, with its position and its error.
\<close>

theorem validation_rules_exact:
  "case validation_OnStepStart p st of
     None \<Rightarrow> \<forall>r \<in> set (case map_of (vp_rules p) (ws_StepName st) of None \<Rightarrow> [] | Some rs \<Rightarrow> rs). r (ws_Input st) = None
   | Some e \<Rightarrow> \<exists>rs k e'. map_of (vp_rules p) (ws_StepName st) = Some rs \<and> k < length rs \<and> (rs ! k) (ws_Input st) = Some e' \<and>
       (\<forall>j < k. (rs ! j) (ws_Input st) = None) \<and>
       e = Wrap (''validation rule '' @ show_nat k @ '' failed for step '' @ quote (ws_StepName st)) e'"
proof (cases "map_of (vp_rules p) (ws_StepName st)")
  case None
  then show ?thesis by (simp add: validation_OnStepStart_def)
next
  case (Some rs)
  then have run: "validation_OnStepStart p st = check_rules 0 (ws_StepName st) (ws_Input st) rs"
    by (simp add: validation_OnStepStart_def)
  show ?thesis
  proof (cases "check_rules 0 (ws_StepName st) (ws_Input st) rs")
    case None
    then show ?thesis using Some run check_rules_None [of 0 "ws_StepName st" "ws_Input st" rs] by simp
  next
    case (Some e)
    from check_rules_Some [OF this] show ?thesis using Some run \<open>map_of (vp_rules p) (ws_StepName st) = Some rs\<close> by simp
  qed
qed

definition demo_rules :: validation_plugin where
  "demo_rules = snd (thn (AddRule ''a'' (\<lambda>_. None)) (AddRule ''a'' (\<lambda>_. Some (Errorf ''no''))) \<lparr>vp_rules = []\<rparr>)"

theorem validation_rules_exact_witness: "\<exists>k. validation_OnStepStart demo_rules demo_step =
    Some (Wrap (''validation rule '' @ show_nat k @ '' failed for step '' @ quote ''a'') (Errorf ''no''))"
proof -
  have "ws_StepName demo_step = ''a''" by code_simp
  moreover have "map_of (vp_rules demo_rules) ''a'' = Some [\<lambda>_. None, \<lambda>_. Some (Errorf ''no'')]"
    by (simp add: demo_rules_def AddRule_def run_simps)
  ultimately show ?thesis
    using validation_rules_exact [of demo_rules demo_step]
    by (auto split: option.splits simp: less_Suc_eq nth_Cons')
qed

end
