(* ===== verification/Telemetry.thy ===== *)
theory Telemetry
  imports Engine_Plugins
begin

text \<open>
  The telemetry plugin of \<open>src/plugins/engine/telemetry/plugin.go\<close>.  The tracer of OpenTelemetry is modelled by the calls
  made to it: \<open>Start\<close> hands out a new span, and \<open>tp_log\<close> lists, in order, what has been done to which span.  A context is the span it
  carries, if any.  The mutex makes the hooks run one at a time; none of them returns an error.
\<close>

section \<open>State\<close>

datatype span_kind = SpanKindServer | SpanKindInternal

datatype span_code = CodeOk | CodeError

datatype attribute = AttrInt string int | AttrString string string

datatype span_event =
    SpanStart nat "nat option" string span_kind
  | SpanAttributes nat "attribute list"
  | SpanError nat goerror
  | SpanStatus nat span_code string
  | SpanEnd nat

record spanEntry =
  se_span :: nat
  se_createdAt :: int
  se_stepType :: step_type

record workflowCtxEntry =
  we_ctx :: "nat option"
  we_createdAt :: int

record telemetry =
  tp_spans :: "(string, spanEntry) gomap"
  tp_workflowCtxs :: "(int, workflowCtxEntry) gomap"
  tp_defaultTTL :: int
  tp_humanStepTTL :: int
  tp_nextSpan :: nat
  tp_log :: "span_event list"
  tp_clock :: int

type_synonym 'a tprog = "(telemetry, 'a) prog"

definition WithDefaultTTL :: "int \<Rightarrow> telemetry \<Rightarrow> telemetry" where
  "WithDefaultTTL ttl p = p\<lparr>tp_defaultTTL := ttl\<rparr>"

definition WithHumanStepTTL :: "int \<Rightarrow> telemetry \<Rightarrow> telemetry" where
  "WithHumanStepTTL ttl p = p\<lparr>tp_humanStepTTL := ttl\<rparr>"

definition telemetry_New :: "int \<Rightarrow> (telemetry \<Rightarrow> telemetry) list \<Rightarrow> telemetry" where
  "telemetry_New now opts =
     fold (\<lambda>opt p. opt p) opts
       \<lparr>tp_spans = [], tp_workflowCtxs = [], tp_defaultTTL = 3600 * 1000000000, tp_humanStepTTL = 24 * 3600 * 1000000000,
        tp_nextSpan = 0, tp_log = [], tp_clock = now\<rparr>"

section \<open>The tracer and the clock\<close>

definition tele_now :: "int tprog" where
  "tele_now p = (Ok (tp_clock p), p\<lparr>tp_clock := tp_clock p + 1\<rparr>)"

definition emit :: "span_event list \<Rightarrow> unit tprog" where
  "emit evs = modify (\<lambda>p. p\<lparr>tp_log := tp_log p @ evs\<rparr>)"

definition tracer_Start :: "nat option \<Rightarrow> string \<Rightarrow> span_kind \<Rightarrow> nat tprog" where
  "tracer_Start ctx name kind =
     bnd (gets tp_nextSpan) (\<lambda>n.
     thn (modify (\<lambda>p. p\<lparr>tp_nextSpan := Suc n\<rparr>))
    (thn (emit [SpanStart n ctx name kind]) (ret n)))"

section \<open>Hooks\<close>

definition workflow_key :: "int \<Rightarrow> string" where
  "workflow_key i = ''workflow:'' @ show_int i"

definition step_key :: "int \<Rightarrow> string" where
  "step_key i = ''step:'' @ show_int i"

definition entry_ttl :: "telemetry \<Rightarrow> spanEntry \<Rightarrow> int" where
  "entry_ttl p e = (if se_stepType e = StepTypeHuman then tp_humanStepTTL p else tp_defaultTTL p)"

definition end_expired :: "int \<Rightarrow> string \<times> spanEntry \<Rightarrow> unit tprog" where
  "end_expired now = (\<lambda>(key, e).
     bnd (gets (\<lambda>p. entry_ttl p e)) (\<lambda>ttl.
     when_true (now - se_createdAt e > ttl)
       (thn (emit [SpanStatus (se_span e) CodeError ''span expired due to TTL'', SpanEnd (se_span e)])
        (modify (\<lambda>p. p\<lparr>tp_spans := AList.delete key (tp_spans p)\<rparr>)))))"

definition cleanupExpired :: "unit tprog" where
  "cleanupExpired =
     bnd tele_now (\<lambda>now.
     bnd (gets tp_spans) (\<lambda>entries.
     thn (for_each entries (end_expired now))
     (modify (\<lambda>p. p\<lparr>tp_workflowCtxs :=
        filter (\<lambda>(i, e). \<not> now - we_createdAt e > tp_defaultTTL p) (tp_workflowCtxs p)\<rparr>))))"

definition put_span :: "string \<Rightarrow> nat \<Rightarrow> step_type \<Rightarrow> unit tprog" where
  "put_span key sp ty =
     bnd tele_now (\<lambda>now.
     modify (\<lambda>p. p\<lparr>tp_spans := AList.update key \<lparr>se_span = sp, se_createdAt = now, se_stepType = ty\<rparr> (tp_spans p)\<rparr>))"

definition tele_OnWorkflowStart :: "nat option \<Rightarrow> workflow_instance \<Rightarrow> unit tprog" where
  "tele_OnWorkflowStart ctx inst =
     bnd (tracer_Start ctx (''workflow.'' @ wi_WorkflowID inst) SpanKindServer) (\<lambda>span.
     thn (emit [SpanAttributes span
       [AttrInt ''instance.id'' (wi_ID inst), AttrString ''instance.workflow_id'' (wi_WorkflowID inst),
        AttrString ''instance.status'' (workflow_status_text (wi_Status inst))]])
    (thn (put_span (workflow_key (wi_ID inst)) span (StepTypeOther []))
    (bnd tele_now (\<lambda>now.
     thn (modify (\<lambda>p. p\<lparr>tp_workflowCtxs := AList.update (wi_ID inst) \<lparr>we_ctx = Some span, we_createdAt = now\<rparr> (tp_workflowCtxs p)\<rparr>))
     cleanupExpired))))"

text \<open>The end of a span under a key, if there is one: the last attributes, the status, \<open>End\<close>, and the entry is dropped.\<close>

definition close_span :: "string \<Rightarrow> (nat \<Rightarrow> span_event list) \<Rightarrow> unit tprog" where
  "close_span key closing =
     bnd (gets (\<lambda>p. map_of (tp_spans p) key)) (\<lambda>r.
     case r of
       None \<Rightarrow> ret ()
     | Some e \<Rightarrow>
         thn (emit (closing (se_span e) @ [SpanEnd (se_span e)]))
         (modify (\<lambda>p. p\<lparr>tp_spans := AList.delete key (tp_spans p)\<rparr>)))"

definition drop_ctx :: "int \<Rightarrow> unit tprog" where
  "drop_ctx i = modify (\<lambda>p. p\<lparr>tp_workflowCtxs := AList.delete i (tp_workflowCtxs p)\<rparr>)"

definition tele_OnWorkflowComplete :: "workflow_instance \<Rightarrow> unit tprog" where
  "tele_OnWorkflowComplete inst =
     thn (close_span (workflow_key (wi_ID inst)) (\<lambda>span.
       [SpanAttributes span [AttrString ''instance.status'' (workflow_status_text (wi_Status inst))],
        SpanStatus span CodeOk ''workflow completed'']))
     (drop_ctx (wi_ID inst))"

definition tele_OnWorkflowFailed :: "workflow_instance \<Rightarrow> unit tprog" where
  "tele_OnWorkflowFailed inst =
     thn (close_span (workflow_key (wi_ID inst)) (\<lambda>span.
       [SpanAttributes span [AttrString ''instance.status'' (workflow_status_text (wi_Status inst))]] @
       (case wi_Error inst of None \<Rightarrow> [] | Some e \<Rightarrow> [SpanAttributes span [AttrString ''instance.error'' e]]) @
       [SpanStatus span CodeError ''workflow failed'']))
     (drop_ctx (wi_ID inst))"

text \<open>The context of the workflow's span if it is known, otherwise the caller's.\<close>

definition linked_ctx :: "nat option \<Rightarrow> int \<Rightarrow> telemetry \<Rightarrow> nat option" where
  "linked_ctx ctx i p = (case map_of (tp_workflowCtxs p) i of None \<Rightarrow> ctx | Some e \<Rightarrow> we_ctx e)"

definition step_attributes :: "workflow_instance \<Rightarrow> workflow_step \<Rightarrow> attribute list" where
  "step_attributes inst st =
     [AttrInt ''step.id'' (ws_ID st), AttrInt ''step.instance_id'' (ws_InstanceID st), AttrString ''step.step_name'' (ws_StepName st),
      AttrString ''step.step_type'' (step_type_text (ws_StepType st)), AttrString ''step.status'' (step_status_text (ws_Status st)),
      AttrInt ''step.retry_count'' (ws_RetryCount st), AttrInt ''step.compensation_retry_count'' (ws_CompensationRetryCount st),
      AttrString ''step.idempotency_key'' (ws_IdempotencyKey st), AttrInt ''instance.id'' (wi_ID inst),
      AttrString ''instance.workflow_id'' (wi_WorkflowID inst), AttrString ''instance.status'' (workflow_status_text (wi_Status inst))] @
     (case ws_Error st of None \<Rightarrow> [] | Some e \<Rightarrow> [AttrString ''step.error'' e])"

definition tele_OnStepStart :: "nat option \<Rightarrow> workflow_instance \<Rightarrow> workflow_step \<Rightarrow> unit tprog" where
  "tele_OnStepStart ctx inst st =
     bnd (gets (linked_ctx ctx (wi_ID inst))) (\<lambda>stepCtx.
     bnd (tracer_Start stepCtx (''step.'' @ ws_StepName st) SpanKindInternal) (\<lambda>span.
     thn (emit [SpanAttributes span (step_attributes inst st)])
    (thn (put_span (step_key (ws_ID st)) span (ws_StepType st))
     cleanupExpired)))"

definition last_step_attributes :: "workflow_step \<Rightarrow> attribute list" where
  "last_step_attributes st =
     [AttrString ''step.status'' (step_status_text (ws_Status st)), AttrInt ''step.retry_count'' (ws_RetryCount st),
      AttrInt ''step.compensation_retry_count'' (ws_CompensationRetryCount st)]"

definition tele_OnStepComplete :: "workflow_step \<Rightarrow> unit tprog" where
  "tele_OnStepComplete st =
     close_span (step_key (ws_ID st)) (\<lambda>span.
       [SpanAttributes span (last_step_attributes st), SpanStatus span CodeOk ''step completed''])"

definition tele_OnStepFailed :: "workflow_step \<Rightarrow> goerror option \<Rightarrow> unit tprog" where
  "tele_OnStepFailed st err =
     close_span (step_key (ws_ID st)) (\<lambda>span.
       [SpanAttributes span (last_step_attributes st)] @
       (case ws_Error st of None \<Rightarrow> [] | Some e \<Rightarrow> [SpanAttributes span [AttrString ''step.error'' e]]) @
       (case err of None \<Rightarrow> [] | Some e \<Rightarrow> [SpanError span e]) @
       [SpanStatus span CodeError ''step failed''])"

definition tele_OnRollbackStepChain :: "nat option \<Rightarrow> int \<Rightarrow> string \<Rightarrow> int \<Rightarrow> unit tprog" where
  "tele_OnRollbackStepChain ctx instanceID stepName depth =
     bnd (gets (linked_ctx ctx instanceID)) (\<lambda>rollbackCtx.
     bnd (tracer_Start rollbackCtx (''rollback.'' @ stepName) SpanKindInternal) (\<lambda>span.
     emit [SpanAttributes span [AttrInt ''instance.id'' instanceID, AttrString ''step.step_name'' stepName,
             AttrInt ''rollback.depth'' depth],
           SpanStatus span CodeOk ''rollback completed'', SpanEnd span]))"

section \<open>Runs\<close>

datatype hook_call =
    CallWorkflowStart "nat option" workflow_instance
  | CallWorkflowComplete workflow_instance
  | CallWorkflowFailed workflow_instance
  | CallStepStart "nat option" workflow_instance workflow_step
  | CallStepComplete workflow_step
  | CallStepFailed workflow_step "goerror option"
  | CallRollbackStepChain "nat option" int string int
  | TimePasses nat

fun tele_hook :: "hook_call \<Rightarrow> unit tprog" where
  "tele_hook (CallWorkflowStart ctx inst) = tele_OnWorkflowStart ctx inst"
| "tele_hook (CallWorkflowComplete inst) = tele_OnWorkflowComplete inst"
| "tele_hook (CallWorkflowFailed inst) = tele_OnWorkflowFailed inst"
| "tele_hook (CallStepStart ctx inst st) = tele_OnStepStart ctx inst st"
| "tele_hook (CallStepComplete st) = tele_OnStepComplete st"
| "tele_hook (CallStepFailed st err) = tele_OnStepFailed st err"
| "tele_hook (CallRollbackStepChain ctx i name depth) = tele_OnRollbackStepChain ctx i name depth"
| "tele_hook (TimePasses d) = modify (\<lambda>p. p\<lparr>tp_clock := tp_clock p + int d\<rparr>)"

definition tele_run :: "hook_call list \<Rightarrow> telemetry \<Rightarrow> telemetry" where
  "tele_run calls p = fold (\<lambda>c p. snd (tele_hook c p)) calls p"

text \<open>
  The rules of tracing, as a reference machine that reads a log: the state is the spans that are open and those that
  have ended.
\<close>

fun track_event :: "span_event \<Rightarrow> (nat list \<times> nat list) option \<Rightarrow> (nat list \<times> nat list) option" where
  "track_event e None = None"
| "track_event (SpanStart n ctx name kind) (Some (opn, done)) =
     (if n \<in> set opn \<or> n \<in> set done then None else Some (n # opn, done))"
| "track_event (SpanAttributes n as) (Some (opn, done)) = (if n \<in> set opn then Some (opn, done) else None)"
| "track_event (SpanError n e) (Some (opn, done)) = (if n \<in> set opn then Some (opn, done) else None)"
| "track_event (SpanStatus n c msg) (Some (opn, done)) = (if n \<in> set opn then Some (opn, done) else None)"
| "track_event (SpanEnd n) (Some (opn, done)) = (if n \<in> set opn then Some (removeAll n opn, n # done) else None)"

definition track :: "span_event list \<Rightarrow> (nat list \<times> nat list) option" where
  "track evs = fold track_event evs (Some ([], []))"

section \<open>Every span is used as it should be\<close>

fun handles :: "(string, spanEntry) gomap \<Rightarrow> nat list" where
  "handles [] = []"
| "handles ((k, e) # m) = se_span e # handles m"

definition tele_ok :: "telemetry \<Rightarrow> bool" where
  "tele_ok p \<longleftrightarrow> (\<exists>opn fin. track (tp_log p) = Some (opn, fin) \<and> set (handles (tp_spans p)) \<subseteq> set opn \<and>
     distinct (handles (tp_spans p)) \<and> (\<forall>n \<in> set opn \<union> set fin. n < tp_nextSpan p)) \<and> distinct (map fst (tp_spans p))"

lemma tele_okI:
  "track (tp_log p) = Some (opn, fin) \<Longrightarrow> set (handles (tp_spans p)) \<subseteq> set opn \<Longrightarrow> distinct (handles (tp_spans p)) \<Longrightarrow>
   (\<And>n. n \<in> set opn \<Longrightarrow> n < tp_nextSpan p) \<Longrightarrow> (\<And>n. n \<in> set fin \<Longrightarrow> n < tp_nextSpan p) \<Longrightarrow> distinct (map fst (tp_spans p)) \<Longrightarrow> tele_ok p"
  unfolding tele_ok_def by blast

lemma track_append: "track (xs @ ys) = fold track_event ys (track xs)"
  by (simp add: track_def)

lemma handles_in: "(k, e) \<in> set m \<Longrightarrow> se_span e \<in> set (handles m)"
  by (induction m rule: handles.induct) auto

lemma handles_update_set: "set (handles (AList.update k e m)) \<subseteq> insert (se_span e) (set (handles m))"
  by (induction m rule: handles.induct) auto

lemma handles_update_distinct:
  "distinct (handles m) \<Longrightarrow> se_span e \<notin> set (handles m) \<Longrightarrow> distinct (handles (AList.update k e m))"
  by (induction m rule: handles.induct) (auto dest: handles_update_set [THEN subsetD])

lemma handles_delete_set: "set (handles (AList.delete k m)) \<subseteq> set (handles m)"
  by (induction m rule: handles.induct) auto

lemma handles_delete_distinct: "distinct (handles m) \<Longrightarrow> distinct (handles (AList.delete k m))"
  by (induction m rule: handles.induct) (auto dest: handles_delete_set [THEN subsetD])

lemma handles_deleted: "distinct (handles m) \<Longrightarrow> (k, e) \<in> set m \<Longrightarrow> se_span e \<notin> set (handles (AList.delete k m))"
  by (induction m rule: handles.induct) (auto dest: handles_delete_set [THEN subsetD] handles_in)

text \<open>Events on one open span that do not end it.\<close>

fun on_span :: "nat \<Rightarrow> span_event \<Rightarrow> bool" where
  "on_span n (SpanAttributes m as) \<longleftrightarrow> m = n"
| "on_span n (SpanError m e) \<longleftrightarrow> m = n"
| "on_span n (SpanStatus m c msg) \<longleftrightarrow> m = n"
| "on_span n _ \<longleftrightarrow> False"

lemma track_on_span: "list_all (on_span n) evs \<Longrightarrow> n \<in> set opn \<Longrightarrow> fold track_event evs (Some (opn, fin)) = Some (opn, fin)"
proof (induction evs)
  case (Cons e evs)
  then show ?case by (cases e) auto
qed simp

lemma tele_ok_close:
  assumes "tele_ok p" and "(key, e) \<in> set (tp_spans p)" and "list_all (on_span (se_span e)) evs"
  shows "tele_ok (p\<lparr>tp_log := tp_log p @ evs @ [SpanEnd (se_span e)], tp_spans := AList.delete key (tp_spans p)\<rparr>)"
proof -
  from assms(1) obtain opn fin where t: "track (tp_log p) = Some (opn, fin)" "set (handles (tp_spans p)) \<subseteq> set opn"
    "distinct (handles (tp_spans p))" "\<forall>n \<in> set opn \<union> set fin. n < tp_nextSpan p" "distinct (map fst (tp_spans p))" by (auto simp: tele_ok_def)
  from t(2) assms(2) have "se_span e \<in> set opn" by (auto dest: handles_in)
  with t assms(3) have "track (tp_log p @ evs @ [SpanEnd (se_span e)]) = Some (removeAll (se_span e) opn, se_span e # fin)"
    by (simp add: track_append track_on_span)
  with t \<open>se_span e \<in> set opn\<close> handles_delete_set [of key "tp_spans p"] handles_delete_distinct [OF t(3), of key]
    handles_deleted [OF t(3) assms(2)]
  show ?thesis by (intro tele_okI [of _ "removeAll (se_span e) opn" "se_span e # fin"]) (auto simp: distinct_delete)
qed

lemma tele_ok_open:
  assumes "tele_ok p" and "list_all (on_span (tp_nextSpan p)) evs"
  shows "tele_ok (p\<lparr>tp_nextSpan := Suc (tp_nextSpan p), tp_log := tp_log p @ SpanStart (tp_nextSpan p) ctx name kind # evs,
      tp_spans := AList.update key \<lparr>se_span = tp_nextSpan p, se_createdAt = c, se_stepType = ty\<rparr> (tp_spans p)\<rparr>)"
    and "tele_ok (p\<lparr>tp_nextSpan := Suc (tp_nextSpan p),
      tp_log := tp_log p @ SpanStart (tp_nextSpan p) ctx name kind # evs @ [SpanEnd (tp_nextSpan p)]\<rparr>)"
proof -
  let ?n = "tp_nextSpan p"
  from assms(1) obtain opn fin where t: "track (tp_log p) = Some (opn, fin)" "set (handles (tp_spans p)) \<subseteq> set opn"
    "distinct (handles (tp_spans p))" "\<forall>n \<in> set opn \<union> set fin. n < ?n" "distinct (map fst (tp_spans p))" by (auto simp: tele_ok_def)
  then have fresh: "?n \<notin> set opn" "?n \<notin> set fin" "?n \<notin> set (handles (tp_spans p))" by auto
  with t assms(2) have started: "track (tp_log p @ SpanStart ?n ctx name kind # evs) = Some (?n # opn, fin)"
    by (simp add: track_append track_on_span)
  with t fresh handles_update_set [of key "\<lparr>se_span = ?n, se_createdAt = c, se_stepType = ty\<rparr>" "tp_spans p"]
    handles_update_distinct [of "tp_spans p" "\<lparr>se_span = ?n, se_createdAt = c, se_stepType = ty\<rparr>" key]
  show "tele_ok (p\<lparr>tp_nextSpan := Suc ?n, tp_log := tp_log p @ SpanStart ?n ctx name kind # evs,
      tp_spans := AList.update key \<lparr>se_span = ?n, se_createdAt = c, se_stepType = ty\<rparr> (tp_spans p)\<rparr>)"
    by (intro tele_okI [of _ "?n # opn" fin]) (auto simp: less_SucI distinct_update)
  have "track ((tp_log p @ SpanStart ?n ctx name kind # evs) @ [SpanEnd ?n]) = Some (opn, ?n # fin)"
    using started fresh(1) by (simp only: track_append) simp
  with t show "tele_ok (p\<lparr>tp_nextSpan := Suc ?n,
      tp_log := tp_log p @ SpanStart ?n ctx name kind # evs @ [SpanEnd ?n]\<rparr>)"
    by (intro tele_okI [of _ opn "?n # fin"]) (auto simp: less_SucI)
qed

lemma tele_ok_fields [simp]: "tele_ok (p\<lparr>tp_clock := c\<rparr>) = tele_ok p" "tele_ok (p\<lparr>tp_workflowCtxs := ws\<rparr>) = tele_ok p"
  by (simp_all add: tele_ok_def)

text \<open>Ending the expired spans: what the loop leaves, and that it keeps the rules.\<close>

definition expired :: "telemetry \<Rightarrow> int \<Rightarrow> spanEntry \<Rightarrow> bool" where
  "expired p now e \<longleftrightarrow> now - se_createdAt e > entry_ttl p e"

abbreviation tele_kept :: "'a tprog \<Rightarrow> bool" where
  "tele_kept m \<equiv> moves (keeps tele_ok) m"

lemma end_expired_run:
  "end_expired now (key, e) p =
     (Ok (), if expired p now e
        then p\<lparr>tp_log := tp_log p @ [SpanStatus (se_span e) CodeError ''span expired due to TTL'', SpanEnd (se_span e)],
          tp_spans := AList.delete key (tp_spans p)\<rparr> else p)"
  by (simp add: end_expired_def run_simps emit_def expired_def)

text \<open>The loop runs over the entries as they were: an entry not yet handled is still in the table.\<close>

lemma cleanup_loop:
  "tele_ok p \<Longrightarrow> distinct (map fst es) \<Longrightarrow> set es \<subseteq> set (tp_spans p) \<Longrightarrow>
   \<exists>q. for_each es (end_expired now) p = (Ok (), q) \<and> tele_ok q \<and>
     tp_clock q = tp_clock p \<and> tp_defaultTTL q = tp_defaultTTL p \<and> tp_humanStepTTL q = tp_humanStepTTL p \<and>
     tp_spans q = filter (\<lambda>x. x \<notin> set es \<or> \<not> expired p now (snd x)) (tp_spans p)"
proof (induction es arbitrary: p)
  case (Cons x es)
  obtain k e where x: "x = (k, e)" by fastforce
  define p' where "p' = snd (end_expired now x p)"
  have run: "end_expired now x p = (Ok (), p')" by (simp add: p'_def x end_expired_run)
  have ttl: "expired p' = expired p" "tp_clock p' = tp_clock p" "tp_defaultTTL p' = tp_defaultTTL p" "tp_humanStepTTL p' = tp_humanStepTTL p"
    by (simp_all add: p'_def x end_expired_run expired_def [abs_def] entry_ttl_def)
  have ok: "tele_ok p'"
    using tele_ok_close [of p k e "[SpanStatus (se_span e) CodeError ''span expired due to TTL'']"] Cons.prems
    by (simp add: p'_def x end_expired_run)
  have spans: "tp_spans p' = filter (\<lambda>y. y \<noteq> x \<or> \<not> expired p now (snd y)) (tp_spans p)"
  proof -
    have "AList.delete k m = filter (\<lambda>y. y \<noteq> (k, e)) m" if "distinct (map fst m)" "(k, e) \<in> set m" for m
      using that by (auto simp: AList.delete_eq intro!: filter_cong dest: eq_key_imp_eq_value)
    with Cons.prems x show ?thesis by (auto simp: p'_def end_expired_run tele_ok_def intro!: filter_cong)
  qed
  have "set es \<subseteq> set (tp_spans p')" using Cons.prems x by (force simp: spans)
  with Cons.IH [of p'] ok ttl Cons.prems(2) obtain q where q: "for_each es (end_expired now) p' = (Ok (), q)" "tele_ok q"
    "tp_clock q = tp_clock p" "tp_defaultTTL q = tp_defaultTTL p" "tp_humanStepTTL q = tp_humanStepTTL p"
    "tp_spans q = filter (\<lambda>y. y \<notin> set es \<or> \<not> expired p now (snd y)) (tp_spans p')" by auto
  with run spans show ?case by (auto simp: run_simps intro!: filter_cong)
qed (simp add: ret_def)

lemma cleanupExpired_run:
  assumes "tele_ok p"
  shows "\<exists>q. cleanupExpired p = (Ok (), q) \<and> tele_ok q \<and> tp_clock q = tp_clock p + 1 \<and> tp_defaultTTL q = tp_defaultTTL p \<and>
    tp_humanStepTTL q = tp_humanStepTTL p \<and> tp_spans q = filter (\<lambda>x. \<not> expired p (tp_clock p) (snd x)) (tp_spans p)"
proof -
  let ?p = "p\<lparr>tp_clock := tp_clock p + 1\<rparr>"
  have e: "expired ?p = expired p" by (simp add: expired_def [abs_def] entry_ttl_def)
  from assms have "distinct (map fst (tp_spans ?p))" "tele_ok ?p" by (simp_all add: tele_ok_def)
  with cleanup_loop [of ?p "tp_spans p" "tp_clock p"] e obtain q where
    "for_each (tp_spans p) (end_expired (tp_clock p)) ?p = (Ok (), q)" "tele_ok q" "tp_clock q = tp_clock p + 1"
    "tp_defaultTTL q = tp_defaultTTL p" "tp_humanStepTTL q = tp_humanStepTTL p"
    "tp_spans q = filter (\<lambda>x. x \<notin> set (tp_spans p) \<or> \<not> expired p (tp_clock p) (snd x)) (tp_spans p)" by auto
  then show ?thesis by (auto simp: cleanupExpired_def run_simps tele_now_def intro!: filter_cong)
qed

lemma kept_cleanup: "tele_kept cleanupExpired"
  by (rule movesI) (use cleanupExpired_run in \<open>fastforce simp: keeps_def\<close>)

lemma kept_modify: "(\<And>p. tele_ok p \<Longrightarrow> tele_ok (f p)) \<Longrightarrow> tele_kept (modify f)"
  by (rule keeps.moves_modify) (simp add: keeps_def)

lemma kept_close:
  assumes "\<And>n. list_all (on_span n) (closing n)"
  shows "tele_kept (close_span key closing)"
proof (rule movesI)
  fix p
  show "keeps tele_ok p (snd (close_span key closing p))"
  proof (cases "map_of (tp_spans p) key")
    case (Some e)
    then have "(key, e) \<in> set (tp_spans p)" by (rule map_of_SomeD)
    with tele_ok_close [of p key e "closing (se_span e)"] assms Some show ?thesis
      by (simp add: keeps_def close_span_def run_simps emit_def)
  qed (simp add: keeps_def close_span_def run_simps)
qed

lemma kept_now: "tele_kept tele_now"
  by (rule movesI) (simp add: keeps_def tele_now_def)

text \<open>Starting a span: attributes and registration, then the clean-up.\<close>

definition opened :: "string \<Rightarrow> nat option \<Rightarrow> string \<Rightarrow> span_kind \<Rightarrow> attribute list \<Rightarrow> step_type \<Rightarrow> telemetry \<Rightarrow> telemetry" where
  "opened key ctx name kind as ty p =
     p\<lparr>tp_nextSpan := Suc (tp_nextSpan p),
       tp_log := tp_log p @ SpanStart (tp_nextSpan p) ctx name kind # [SpanAttributes (tp_nextSpan p) as],
       tp_spans := AList.update key \<lparr>se_span = tp_nextSpan p, se_createdAt = tp_clock p, se_stepType = ty\<rparr> (tp_spans p),
       tp_clock := tp_clock p + 1\<rparr>"

lemma opened_ok: "tele_ok p \<Longrightarrow> tele_ok (opened key ctx name kind as ty p)"
  using tele_ok_open(1) [of p "[SpanAttributes (tp_nextSpan p) as]"] by (simp add: opened_def)

lemma OnStepStart_run:
  "tele_OnStepStart ctx inst st p =
     cleanupExpired (opened (step_key (ws_ID st)) (linked_ctx ctx (wi_ID inst) p) (''step.'' @ ws_StepName st) SpanKindInternal
       (step_attributes inst st) (ws_StepType st) p)"
  by (simp add: tele_OnStepStart_def run_simps tracer_Start_def emit_def put_span_def tele_now_def opened_def,
      rule arg_cong [of _ _ cleanupExpired], rule telemetry.equality, simp_all)

lemma OnWorkflowStart_run:
  "tele_OnWorkflowStart ctx inst p =
     cleanupExpired (let q = opened (workflow_key (wi_ID inst)) ctx (''workflow.'' @ wi_WorkflowID inst) SpanKindServer
         [AttrInt ''instance.id'' (wi_ID inst), AttrString ''instance.workflow_id'' (wi_WorkflowID inst),
          AttrString ''instance.status'' (workflow_status_text (wi_Status inst))] (StepTypeOther []) p
       in q\<lparr>tp_workflowCtxs := AList.update (wi_ID inst) \<lparr>we_ctx = Some (tp_nextSpan p), we_createdAt = tp_clock q\<rparr> (tp_workflowCtxs p),
            tp_clock := tp_clock q + 1\<rparr>)"
  by (simp add: tele_OnWorkflowStart_def run_simps tracer_Start_def emit_def put_span_def tele_now_def opened_def Let_def,
      rule arg_cong [of _ _ cleanupExpired], rule telemetry.equality, simp_all)

lemma kept_starts: "tele_kept (tele_OnStepStart ctx inst st)" "tele_kept (tele_OnWorkflowStart ctx inst)"
  using kept_cleanup opened_ok
  by (auto simp: moves_def keeps_def OnStepStart_run OnWorkflowStart_run Let_def)

lemma kept_rollback: "tele_kept (tele_OnRollbackStepChain ctx i name depth)"
proof (rule movesI)
  fix p
  show "keeps tele_ok p (snd (tele_OnRollbackStepChain ctx i name depth p))"
    using tele_ok_open(2) [of p "[SpanAttributes (tp_nextSpan p) [AttrInt ''instance.id'' i, AttrString ''step.step_name'' name,
             AttrInt ''rollback.depth'' depth], SpanStatus (tp_nextSpan p) CodeOk ''rollback completed'']"]
    by (simp add: keeps_def tele_OnRollbackStepChain_def run_simps tracer_Start_def emit_def)
qed

lemma kept_ends: "tele_kept (tele_OnWorkflowComplete inst)" "tele_kept (tele_OnWorkflowFailed inst)"
  "tele_kept (tele_OnStepComplete st)" "tele_kept (tele_OnStepFailed st err)"
  unfolding tele_OnWorkflowComplete_def tele_OnWorkflowFailed_def tele_OnStepComplete_def tele_OnStepFailed_def drop_ctx_def
  by (auto intro!: keeps.moves_rules kept_close kept_modify split: option.split)

lemma kept_hook: "tele_kept (tele_hook c)"
  by (cases c) (auto intro: kept_starts kept_rollback kept_ends kept_modify)

lemma kept_run: "tele_ok p \<Longrightarrow> tele_ok (tele_run calls p)"
  unfolding tele_run_def
proof (induction calls arbitrary: p)
  case (Cons c calls)
  with movesD [OF kept_hook, of p c] show ?case by (simp add: keeps_def)
qed simp

lemma tele_ok_New: "tele_ok (telemetry_New now [WithDefaultTTL ttl, WithHumanStepTTL human])"
  by (simp add: tele_ok_def telemetry_New_def WithDefaultTTL_def WithHumanStepTTL_def track_def)

text \<open>
  C31: The plugin follows the rules of tracing, whatever hooks the engine calls and however much time passes: every span is
  started once, attributes, errors and statuses are set on open spans only, no span is ended twice, and nothing happens to a
  span after its end.  The spans in the table of the plugin are open and belong to one key each.
\<close>

theorem telemetry_span_discipline:
  "\<exists>opn fin. let p = tele_run calls (telemetry_New now [WithDefaultTTL ttl, WithHumanStepTTL human]) in
     track (tp_log p) = Some (opn, fin) \<and> set (handles (tp_spans p)) \<subseteq> set opn \<and> distinct (handles (tp_spans p)) \<and>
     distinct (map fst (tp_spans p))"
  using kept_run [OF tele_ok_New, of calls now ttl human] by (auto simp: tele_ok_def Let_def)

text \<open>
  No span outlives its time in the table: right after a hook that starts a span, every span in the table of the plugin is
  at most as old as its time to live (the longer one for human steps).
\<close>

theorem telemetry_spans_young:
  assumes "p = tele_run calls (telemetry_New now [WithDefaultTTL ttl, WithHumanStepTTL human])"
    and "tele_OnStepStart ctx inst st p = (r, q)" and "(key, e) \<in> set (tp_spans q)"
  shows "tp_clock q - 1 - se_createdAt e \<le> entry_ttl q e"
proof -
  have "tele_ok p" unfolding assms(1) by (intro kept_run tele_ok_New)
  moreover define o' where "o' = opened (step_key (ws_ID st)) (linked_ctx ctx (wi_ID inst) p) (''step.'' @ ws_StepName st)
    SpanKindInternal (step_attributes inst st) (ws_StepType st) p"
  ultimately have "tele_ok o'" by (simp add: opened_ok)
  moreover have "cleanupExpired o' = (r, q)" using assms(2) by (simp only: OnStepStart_run o'_def)
  ultimately show ?thesis using cleanupExpired_run [of o'] assms(3) by (auto simp: expired_def entry_ttl_def)
qed

section \<open>A span that is started again\<close>

lemma end_means_fin: "track l = Some (opn, fin) \<Longrightarrow> SpanEnd n \<in> set l \<Longrightarrow> n \<in> set fin"
proof (induction l arbitrary: opn fin rule: rev_induct)
  case (snoc e l)
  then obtain opn' fin' where t: "track l = Some (opn', fin')" by (cases "track l") (auto simp: track_append)
  with snoc show ?case by (cases e) (auto simp: track_append split: if_splits)
qed simp

lemma handles_map_of: "map_of m k = Some e \<Longrightarrow> se_span e \<in> set (handles m)"
  by (blast dest: map_of_SomeD handles_in)

lemma handles_inj:
  "distinct (handles m) \<Longrightarrow> (k, e) \<in> set m \<Longrightarrow> (k', e') \<in> set m \<Longrightarrow> se_span e = n \<Longrightarrow> se_span e' = n \<Longrightarrow> e' = e"
proof (induction m rule: handles.induct)
  case (2 j f m)
  then show ?case using handles_in [of k e m] handles_in [of k' e' m] by (cases "f = e"; cases "f = e'") simp_all
qed simp

lemma handles_overwritten:
  "distinct (handles m) \<Longrightarrow> map_of m k = Some e \<Longrightarrow> se_span e' \<noteq> se_span e \<Longrightarrow> se_span e \<notin> set (handles (AList.update k e' m))"
proof (induction m rule: handles.induct)
  case (2 j f m)
  then show ?case using handles_map_of [of m k e] by auto
qed simp

definition lost :: "nat \<Rightarrow> telemetry \<Rightarrow> bool" where
  "lost n p \<longleftrightarrow> (\<exists>ctx name kind. SpanStart n ctx name kind \<in> set (tp_log p)) \<and> SpanEnd n \<notin> set (tp_log p) \<and>
     n \<notin> set (handles (tp_spans p)) \<and> n < tp_nextSpan p"

lemma loop_effects:
  "for_each es (end_expired now) p = (r, q) \<Longrightarrow>
   tp_nextSpan q = tp_nextSpan p \<and> set (tp_log p) \<subseteq> set (tp_log q) \<and> set (handles (tp_spans q)) \<subseteq> set (handles (tp_spans p)) \<and>
   (SpanEnd n \<in> set (tp_log q) \<longrightarrow> SpanEnd n \<in> set (tp_log p) \<or> (\<exists>x \<in> set es. se_span (snd x) = n \<and> expired p now (snd x)))"
proof (induction es arbitrary: p)
  case (Cons x es)
  obtain k e where x: "x = (k, e)" by fastforce
  define p' where "p' = snd (end_expired now x p)"
  have run: "end_expired now x p = (Ok (), p')" by (simp add: p'_def x end_expired_run)
  have p': "tp_nextSpan p' = tp_nextSpan p" "set (tp_log p) \<subseteq> set (tp_log p')" "expired p' = expired p"
      "set (handles (tp_spans p')) \<subseteq> set (handles (tp_spans p))"
      "SpanEnd n \<in> set (tp_log p') \<Longrightarrow> SpanEnd n \<in> set (tp_log p) \<or> (se_span e = n \<and> expired p now e)"
    using handles_delete_set [of k "tp_spans p"]
    by (auto simp: p'_def x end_expired_run expired_def [abs_def] entry_ttl_def split: if_splits)
  from Cons.IH [of p'] Cons.prems run p' x show ?case by (auto simp: run_simps)
qed (simp add: ret_def)

lemma lost_cleanup:
  assumes "lost n p"
  shows "lost n (snd (cleanupExpired p))"
proof -
  obtain r q where run: "for_each (tp_spans p) (end_expired (tp_clock p)) (p\<lparr>tp_clock := tp_clock p + 1\<rparr>) = (r, q)" by fastforce
  from assms have "\<forall>x \<in> set (tp_spans p). se_span (snd x) \<noteq> n" by (force simp: lost_def dest: handles_in)
  with assms loop_effects [OF run, of n] have "lost n q" by (auto simp: lost_def) blast
  with run show ?thesis by (cases r) (simp_all add: cleanupExpired_def run_simps tele_now_def lost_def)
qed

lemma lost_opened: "lost n p \<Longrightarrow> lost n (opened key ctx name kind as ty p)"
  using handles_update_set [of key "\<lparr>se_span = tp_nextSpan p, se_createdAt = tp_clock p, se_stepType = ty\<rparr>" "tp_spans p"]
  by (auto simp: lost_def opened_def)

lemma lost_fields [simp]: "lost n (p\<lparr>tp_clock := c\<rparr>) = lost n p" "lost n (p\<lparr>tp_workflowCtxs := ws\<rparr>) = lost n p"
  by (simp_all add: lost_def)

lemma lost_close:
  assumes "\<And>m. list_all (on_span m) (closing m)" and "lost n p"
  shows "lost n (snd (close_span key closing p))"
proof (cases "map_of (tp_spans p) key")
  case (Some e)
  then have "se_span e \<in> set (handles (tp_spans p))" by (blast dest: map_of_SomeD handles_in)
  moreover have "SpanEnd n \<notin> set (closing (se_span e))"
    using assms(1) [of "se_span e"] by (auto simp: list_all_iff)
  ultimately show ?thesis using assms(2) Some handles_delete_set [of key "tp_spans p"]
    by (auto simp: close_span_def run_simps emit_def lost_def)
qed (use assms in \<open>simp add: close_span_def run_simps\<close>)

lemma lost_ends:
  assumes "lost n p"
  shows "lost n (snd (tele_OnWorkflowComplete inst p))" "lost n (snd (tele_OnWorkflowFailed inst p))"
    "lost n (snd (tele_OnStepComplete st p))" "lost n (snd (tele_OnStepFailed st err p))"
proof -
  have dropped: "lost n (snd (thn (close_span key closing) (drop_ctx i) p))" if "\<And>m. list_all (on_span m) (closing m)" for key closing i
    using lost_close [of closing n p key, OF that assms]
    by (cases "map_of (tp_spans p) key") (simp_all add: close_span_def drop_ctx_def run_simps emit_def)
  show "lost n (snd (tele_OnWorkflowComplete inst p))" "lost n (snd (tele_OnWorkflowFailed inst p))"
    unfolding tele_OnWorkflowComplete_def tele_OnWorkflowFailed_def by (rule dropped, simp split: option.split)+
  show "lost n (snd (tele_OnStepComplete st p))" "lost n (snd (tele_OnStepFailed st err p))"
    unfolding tele_OnStepComplete_def tele_OnStepFailed_def by (rule lost_close [OF _ assms], simp split: option.split)+
qed

lemma lost_hook: "lost n p \<Longrightarrow> lost n (snd (tele_hook c p))"
  by (cases c) (auto simp: OnStepStart_run OnWorkflowStart_run Let_def tele_OnRollbackStepChain_def run_simps tracer_Start_def emit_def
      intro!: lost_cleanup lost_opened lost_ends, auto simp: lost_def)

lemma lost_run: "lost n p \<Longrightarrow> lost n (tele_run calls p)"
  unfolding tele_run_def by (induction calls arbitrary: p) (auto intro: lost_hook)

lemma tele_run_Cons: "tele_run (c # calls) p = tele_run calls (snd (tele_hook c p))"
  by (simp add: tele_run_def)

abbreviation ttl_part :: "telemetry \<Rightarrow> int \<times> int" where
  "ttl_part p \<equiv> (tp_defaultTTL p, tp_humanStepTTL p)"

lemma ttl_modify: "(\<And>p. ttl_part (f p) = ttl_part p) \<Longrightarrow> moves (same ttl_part) (modify f)"
  by (rule same.moves_modify) (simp add: same_def)

lemma ttl_now: "moves (same ttl_part) tele_now"
  by (rule movesI) (simp add: same_def tele_now_def)

lemmas tele_defs = tele_OnWorkflowStart_def tele_OnWorkflowComplete_def tele_OnWorkflowFailed_def tele_OnStepStart_def
  tele_OnStepComplete_def tele_OnStepFailed_def tele_OnRollbackStepChain_def cleanupExpired_def end_expired_def close_span_def
  drop_ctx_def put_span_def tracer_Start_def emit_def

lemma ttl_hook: "moves (same ttl_part) (tele_hook c)"
  by (cases c) (auto simp: tele_defs intro!: same.moves_rules ttl_modify ttl_now split: option.split prod.split)

lemma run_ttl: "tp_defaultTTL (tele_run calls p) = tp_defaultTTL p" "tp_humanStepTTL (tele_run calls p) = tp_humanStepTTL p"
proof -
  have "ttl_part (tele_run calls p) = ttl_part p"
  proof (induction calls arbitrary: p)
    case (Cons c calls)
    with movesD [OF ttl_hook, of p c] show ?case by (simp add: tele_run_Cons same_def)
  qed (simp add: tele_run_def)
  then show "tp_defaultTTL (tele_run calls p) = tp_defaultTTL p" "tp_humanStepTTL (tele_run calls p) = tp_humanStepTTL p" by simp_all
qed

lemma New_ttl: "tp_defaultTTL (telemetry_New now [WithDefaultTTL ttl, WithHumanStepTTL human]) = ttl"
  "tp_humanStepTTL (telemetry_New now [WithDefaultTTL ttl, WithHumanStepTTL human]) = human"
  by (simp_all add: telemetry_New_def WithDefaultTTL_def WithHumanStepTTL_def)

text \<open>The span that a step start registers is in the table afterwards, open, unless its time to live is no time at all.\<close>

lemma started_registered:
  assumes "tele_ok p" and "1 \<le> tp_defaultTTL p" and "1 \<le> tp_humanStepTTL p" and "tele_OnStepStart ctx inst st p = (r, q)"
  shows "tele_ok q" "\<exists>e. map_of (tp_spans q) (step_key (ws_ID st)) = Some e \<and> se_span e = tp_nextSpan p"
    "\<exists>c name kind. SpanStart (tp_nextSpan p) c name kind \<in> set (tp_log q)" "SpanEnd (tp_nextSpan p) \<notin> set (tp_log q)"
    "tp_nextSpan p < tp_nextSpan q"
proof -
  define e where "e = \<lparr>se_span = tp_nextSpan p, se_createdAt = tp_clock p, se_stepType = ws_StepType st\<rparr>"
  define o' where "o' = opened (step_key (ws_ID st)) (linked_ctx ctx (wi_ID inst) p) (''step.'' @ ws_StepName st)
    SpanKindInternal (step_attributes inst st) (ws_StepType st) p"
  have ok: "tele_ok o'" using assms(1) by (simp add: o'_def opened_ok)
  have run: "cleanupExpired o' = (r, q)" using assms(4) by (simp only: OnStepStart_run o'_def)
  have young: "\<not> expired o' (tp_clock o') e" using assms(2,3) by (simp add: expired_def entry_ttl_def e_def o'_def opened_def)
  have entry: "map_of (tp_spans o') (step_key (ws_ID st)) = Some e" by (simp add: o'_def opened_def e_def update_conv)
  from cleanupExpired_run [OF ok] run have q: "tele_ok q" "tp_spans q = filter (\<lambda>x. \<not> expired o' (tp_clock o') (snd x)) (tp_spans o')" by auto
  from entry young ok show "\<exists>e. map_of (tp_spans q) (step_key (ws_ID st)) = Some e \<and> se_span e = tp_nextSpan p"
    by (intro exI [of _ e]) (auto simp: q(2) e_def tele_ok_def map_of_eq_Some_iff distinct_map_filter dest: map_of_SomeD)
  show "tele_ok q" by (rule q(1))
  obtain r' u where loop: "for_each (tp_spans o') (end_expired (tp_clock o')) (o'\<lparr>tp_clock := tp_clock o' + 1\<rparr>) = (r', u)" by fastforce
  with run have u: "tp_log q = tp_log u" "tp_nextSpan q = tp_nextSpan u"
    by (cases r'; auto simp: cleanupExpired_def run_simps tele_now_def)+
  note eff = loop_effects [OF loop, of "tp_nextSpan p"]
  from eff show "\<exists>c name kind. SpanStart (tp_nextSpan p) c name kind \<in> set (tp_log q)" "tp_nextSpan p < tp_nextSpan q"
    by (auto simp: u o'_def opened_def)
  have "SpanEnd (tp_nextSpan p) \<notin> set (tp_log p)"
    using assms(1) end_means_fin by (fastforce simp: tele_ok_def)
  then have "SpanEnd (tp_nextSpan p) \<notin> set (tp_log o')" by (simp add: o'_def opened_def)
  moreover have "snd x = e" if "x \<in> set (tp_spans o')" "se_span (snd x) = tp_nextSpan p" for x
    using handles_inj [of "tp_spans o'" "step_key (ws_ID st)" e "fst x" "snd x" "tp_nextSpan p"] that ok map_of_SomeD [OF entry]
    by (auto simp: tele_ok_def e_def)
  moreover have "expired (o'\<lparr>tp_clock := tp_clock o' + 1\<rparr>) = expired o'" by (simp add: expired_def [abs_def] entry_ttl_def)
  ultimately show "SpanEnd (tp_nextSpan p) \<notin> set (tp_log q)" using eff young by (auto simp: u)
qed

text \<open>
  A step that is started again before it has completed or failed loses its span.  This happens each time a worker looks at a
  human step that is still waiting for a decision.  The second \<open>OnStepStart\<close> overwrites the entry of the first, whose span is
  then never ended, whatever hooks follow and however much time passes: neither completion nor failure nor the
  expiry of spans reaches it.
\<close>

theorem telemetry_restart_loses_span:
  assumes "ws_ID st' = ws_ID st" and "1 \<le> ttl" and "1 \<le> human"
  shows "let p = tele_run earlier (telemetry_New now [WithDefaultTTL ttl, WithHumanStepTTL human]);
             q = tele_run (CallStepStart ctx inst st # TimePasses d # CallStepStart ctx' inst' st' # later) p
         in (\<exists>c name kind. SpanStart (tp_nextSpan p) c name kind \<in> set (tp_log q)) \<and> SpanEnd (tp_nextSpan p) \<notin> set (tp_log q)"
proof -
  define p where "p = tele_run earlier (telemetry_New now [WithDefaultTTL ttl, WithHumanStepTTL human])"
  have ok: "tele_ok p" unfolding p_def by (intro kept_run tele_ok_New)
  have ttl: "tp_defaultTTL p = ttl" "tp_humanStepTTL p = human" unfolding p_def by (simp_all add: run_ttl New_ttl)
  obtain r u where u: "tele_OnStepStart ctx inst st p = (r, u)" by fastforce
  define u' where "u' = u\<lparr>tp_clock := tp_clock u + int d\<rparr>"
  note first = started_registered [OF ok _ _ u, unfolded ttl, OF assms(2,3)]
  obtain e where e: "map_of (tp_spans u) (step_key (ws_ID st)) = Some e" "se_span e = tp_nextSpan p" using first(2) by blast
  let ?e' = "\<lparr>se_span = tp_nextSpan u', se_createdAt = tp_clock u', se_stepType = ws_StepType st'\<rparr>"
  have "tp_nextSpan p \<notin> set (handles (AList.update (step_key (ws_ID st')) ?e' (tp_spans u')))"
    using handles_overwritten [of "tp_spans u'" "step_key (ws_ID st')" e ?e'] e first(1,5) assms(1)
    by (auto simp: u'_def tele_ok_def)
  then have "lost (tp_nextSpan p) (opened (step_key (ws_ID st')) c (''step.'' @ ws_StepName st') SpanKindInternal
      (step_attributes inst' st') (ws_StepType st') u')" for c
    using first(3-5) by (auto simp: lost_def opened_def u'_def)
  then have "lost (tp_nextSpan p) (snd (tele_OnStepStart ctx' inst' st' u'))" by (simp only: OnStepStart_run lost_cleanup)
  then have "lost (tp_nextSpan p) (tele_run later (snd (tele_OnStepStart ctx' inst' st' u')))" by (rule lost_run)
  then show ?thesis
    unfolding p_def [symmetric] Let_def tele_run_Cons tele_hook.simps u snd_conv by (simp add: modify_def u'_def lost_def)
qed

definition demo_human :: workflow_step where
  "demo_human = (new_step 1 ''approve'' StepTypeHuman StepStatusPending RawNil 0)\<lparr>ws_ID := 4\<rparr>"

definition demo_inst :: workflow_instance where
  "demo_inst = \<lparr>wi_ID = 1, wi_WorkflowID = ''w'', wi_Status = StatusRunning, wi_Input = RawNil, wi_Output = RawNil, wi_Error = None,
     wi_StartedAt = None, wi_CompletedAt = None, wi_CreatedAt = 0, wi_UpdatedAt = 0\<rparr>"

theorem telemetry_restart_loses_span_witness:
  "SpanEnd 1 \<notin> set (tp_log (tele_run
     [CallStepStart None demo_inst demo_human, TimePasses 30, CallStepStart None demo_inst demo_human, CallStepComplete demo_human,
      CallWorkflowComplete demo_inst]
     (tele_run [CallWorkflowStart None demo_inst] (telemetry_New 0 [WithDefaultTTL 100, WithHumanStepTTL 1000]))))"
proof -
  have "tp_nextSpan (tele_run [CallWorkflowStart None demo_inst] (telemetry_New 0 [WithDefaultTTL 100, WithHumanStepTTL 1000])) = 1"
    by code_simp
  with telemetry_restart_loses_span [of demo_human demo_human 100 1000 "[CallWorkflowStart None demo_inst]" 0 None demo_inst 30 None demo_inst
      "[CallStepComplete demo_human, CallWorkflowComplete demo_inst]"]
  show ?thesis by (simp add: Let_def)
qed

theorem telemetry_spans_young_witness:
  "list_all (\<lambda>(k, e). 102 - se_createdAt e \<le> 5) (tp_spans (snd (tele_OnStepStart None demo_inst demo_human
     (tele_run [CallWorkflowStart None demo_inst, TimePasses 98] (telemetry_New 0 [WithDefaultTTL 5, WithHumanStepTTL 5])))))"
proof -
  let ?p = "tele_run [CallWorkflowStart None demo_inst, TimePasses 98] (telemetry_New 0 [WithDefaultTTL 5, WithHumanStepTTL 5])"
  obtain r q where run: "tele_OnStepStart None demo_inst demo_human ?p = (r, q)" by fastforce
  have "tp_clock (snd (tele_OnStepStart None demo_inst demo_human ?p)) = 103 \<and>
     tp_defaultTTL (snd (tele_OnStepStart None demo_inst demo_human ?p)) = 5 \<and>
     tp_humanStepTTL (snd (tele_OnStepStart None demo_inst demo_human ?p)) = 5" by code_simp
  with run have q: "tp_clock q = 103" "tp_defaultTTL q = 5" "tp_humanStepTTL q = 5" by simp_all
  have "102 - se_createdAt e \<le> 5" if "(key, e) \<in> set (tp_spans q)" for key e
    using telemetry_spans_young [OF refl run that] q by (simp add: entry_ttl_def split: if_splits)
  with run show ?thesis by (auto simp: list_all_iff)
qed

end
