(* ===== verification/Prometheus.thy ===== *)
theory Prometheus
  imports Engine_Plugins
begin

text \<open>
  The Prometheus collector of \<open>src/plugins/engine/metrics/prometheus.go\<close>, which the metrics plugin writes to.  Of the
  client library the code uses labelled vectors: a vector has a fixed list of label names, \<open>WithLabelValues\<close> panics when it is given
  another number of values, a counter counts \<open>Inc\<close> calls, a gauge keeps the value last set and a histogram takes in what it observes.
\<close>

section \<open>Vectors\<close>

record 'a metric_vec =
  mv_name :: string
  mv_labels :: "string list"
  mv_values :: "(string list, 'a) gomap"

definition new_vec :: "string \<Rightarrow> string list \<Rightarrow> 'a metric_vec" where
  "new_vec name labels = \<lparr>mv_name = name, mv_labels = labels, mv_values = []\<rparr>"

definition vec_value :: "'a \<Rightarrow> 'a metric_vec \<Rightarrow> string list \<Rightarrow> 'a" where
  "vec_value zero v values = (case map_of (mv_values v) values of None \<Rightarrow> zero | Some x \<Rightarrow> x)"

definition WithLabelValues :: "'a \<Rightarrow> string list \<Rightarrow> ('a \<Rightarrow> 'a) \<Rightarrow> 'a metric_vec \<Rightarrow> 'a metric_vec outcome" where
  "WithLabelValues zero values f v =
     (if length values \<noteq> length (mv_labels v) then Panic ''inconsistent label cardinality''
      else Ok (v\<lparr>mv_values := AList.update values (f (vec_value zero v values)) (mv_values v)\<rparr>))"

section \<open>The collector\<close>

record prometheus_collector =
  pc_workflowStarted :: "nat metric_vec"
  pc_workflowCompleted :: "nat metric_vec"
  pc_workflowDuration :: "rat list metric_vec"
  pc_workflowStatus :: "rat metric_vec"
  pc_stepStarted :: "nat metric_vec"
  pc_stepCompleted :: "nat metric_vec"
  pc_stepFailed :: "nat metric_vec"
  pc_stepDuration :: "rat list metric_vec"
  pc_stepStatus :: "rat metric_vec"

definition NewPrometheusCollector :: prometheus_collector where
  "NewPrometheusCollector =
     \<lparr>pc_workflowStarted = new_vec ''floxy_workflow_started_total'' [''instance_id'', ''workflow_id''],
      pc_workflowCompleted = new_vec ''floxy_workflow_completed_total'' [''instance_id'', ''workflow_id'', ''status''],
      pc_workflowDuration = new_vec ''floxy_workflow_duration_seconds'' [''instance_id'', ''workflow_id'', ''status''],
      pc_workflowStatus = new_vec ''floxy_workflow_current_status'' [''instance_id'', ''workflow_id'', ''status''],
      pc_stepStarted = new_vec ''floxy_step_started_total'' [''instance_id'', ''workflow_id'', ''step_name'', ''step_type''],
      pc_stepCompleted = new_vec ''floxy_step_completed_total'' [''instance_id'', ''workflow_id'', ''step_name'', ''step_type''],
      pc_stepFailed = new_vec ''floxy_step_failed_total'' [''instance_id'', ''workflow_id'', ''step_name'', ''step_type''],
      pc_stepDuration = new_vec ''floxy_step_duration_seconds'' [''instance_id'', ''workflow_id'', ''step_name'', ''step_type''],
      pc_stepStatus = new_vec ''floxy_step_current_status'' [''instance_id'', ''workflow_id'', ''step_name'', ''status'']\<rparr>"

type_synonym 'a mprog = "(prometheus_collector, 'a) prog"

text \<open>A method of a vector in a field of the collector.\<close>

definition on_vec :: "(prometheus_collector \<Rightarrow> 'a metric_vec) \<Rightarrow> (('a metric_vec \<Rightarrow> 'a metric_vec) \<Rightarrow> prometheus_collector \<Rightarrow> prometheus_collector) \<Rightarrow>
    'a \<Rightarrow> string list \<Rightarrow> ('a \<Rightarrow> 'a) \<Rightarrow> unit mprog" where
  "on_vec field put zero values f c =
     (case WithLabelValues zero values f (field c) of
        Ok v \<Rightarrow> (Ok (), put (\<lambda>_. v) c)
      | Err e \<Rightarrow> (Err e, c)
      | Panic p \<Rightarrow> (Panic p, c)
      | Stuck \<Rightarrow> (Stuck, c))"

abbreviation inc :: "nat \<Rightarrow> nat" where "inc n \<equiv> Suc n"

abbreviation observe :: "int \<Rightarrow> rat list \<Rightarrow> rat list" where
  "observe duration xs \<equiv> xs @ [of_int duration / 1000000000]"

definition intToString :: "int \<Rightarrow> string" where
  "intToString v = show_int v"

definition prom_RecordWorkflowStarted :: "int \<Rightarrow> string \<Rightarrow> unit mprog" where
  "prom_RecordWorkflowStarted instanceID workflowID =
     on_vec pc_workflowStarted pc_workflowStarted_update 0 [intToString instanceID, workflowID] inc"

definition prom_RecordWorkflowCompleted :: "int \<Rightarrow> string \<Rightarrow> int \<Rightarrow> workflow_status \<Rightarrow> unit mprog" where
  "prom_RecordWorkflowCompleted instanceID workflowID duration status =
     thn (on_vec pc_workflowCompleted pc_workflowCompleted_update 0
            [intToString instanceID, workflowID, workflow_status_text status] inc)
     (on_vec pc_workflowDuration pc_workflowDuration_update []
            [intToString instanceID, workflowID, workflow_status_text status] (observe duration))"

definition prom_RecordWorkflowFailed :: "int \<Rightarrow> string \<Rightarrow> int \<Rightarrow> unit mprog" where
  "prom_RecordWorkflowFailed instanceID workflowID duration =
     thn (on_vec pc_workflowCompleted pc_workflowCompleted_update 0
            [intToString instanceID, workflowID, workflow_status_text StatusFailed] inc)
     (on_vec pc_workflowDuration pc_workflowDuration_update []
            [intToString instanceID, workflowID, workflow_status_text StatusFailed] (observe duration))"

definition prom_RecordStepStarted :: "int \<Rightarrow> string \<Rightarrow> string \<Rightarrow> step_type \<Rightarrow> unit mprog" where
  "prom_RecordStepStarted instanceID workflowID stepName stepType =
     on_vec pc_stepStarted pc_stepStarted_update 0
       [intToString instanceID, workflowID, stepName, step_type_text stepType] inc"

definition prom_RecordStepCompleted :: "int \<Rightarrow> string \<Rightarrow> string \<Rightarrow> step_type \<Rightarrow> int \<Rightarrow> unit mprog" where
  "prom_RecordStepCompleted instanceID workflowID stepName stepType duration =
     thn (on_vec pc_stepCompleted pc_stepCompleted_update 0
            [intToString instanceID, workflowID, stepName, step_type_text stepType] inc)
     (on_vec pc_stepDuration pc_stepDuration_update []
            [intToString instanceID, workflowID, stepName, step_type_text stepType] (observe duration))"

definition prom_RecordStepFailed :: "int \<Rightarrow> string \<Rightarrow> string \<Rightarrow> step_type \<Rightarrow> int \<Rightarrow> unit mprog" where
  "prom_RecordStepFailed instanceID workflowID stepName stepType duration =
     thn (on_vec pc_stepFailed pc_stepFailed_update 0
            [intToString instanceID, workflowID, stepName, step_type_text stepType] inc)
     (on_vec pc_stepDuration pc_stepDuration_update []
            [intToString instanceID, workflowID, stepName, step_type_text stepType] (observe duration))"

definition prom_RecordWorkflowStatus :: "int \<Rightarrow> string \<Rightarrow> workflow_status \<Rightarrow> unit mprog" where
  "prom_RecordWorkflowStatus instanceID workflowID status =
     on_vec pc_workflowStatus pc_workflowStatus_update 0
       [intToString instanceID, workflowID, workflow_status_text status] (\<lambda>_. 1)"

definition prom_RecordStepStatus :: "int \<Rightarrow> string \<Rightarrow> string \<Rightarrow> step_status \<Rightarrow> unit mprog" where
  "prom_RecordStepStatus instanceID workflowID stepName status =
     on_vec pc_stepStatus pc_stepStatus_update 0
       [intToString instanceID, workflowID, stepName, step_status_text status] (\<lambda>_. 1)"

text \<open>The collector as the metrics plugin calls it, and a sequence of calls.\<close>

fun prom_record :: "metric \<Rightarrow> unit mprog" where
  "prom_record (RecordWorkflowStarted i w) = prom_RecordWorkflowStarted i w"
| "prom_record (RecordWorkflowCompleted i w d st) = prom_RecordWorkflowCompleted i w d st"
| "prom_record (RecordWorkflowFailed i w d) = prom_RecordWorkflowFailed i w d"
| "prom_record (RecordStepStarted i w n ty) = prom_RecordStepStarted i w n ty"
| "prom_record (RecordStepCompleted i w n ty d) = prom_RecordStepCompleted i w n ty d"
| "prom_record (RecordStepFailed i w n ty d) = prom_RecordStepFailed i w n ty d"
| "prom_record (RecordWorkflowStatus i w st) = prom_RecordWorkflowStatus i w st"
| "prom_record (RecordStepStatus i w n st) = prom_RecordStepStatus i w n st"

definition prom_records :: "metric list \<Rightarrow> unit mprog" where
  "prom_records ms = for_each ms prom_record"

section \<open>Properties\<close>

text \<open>A vector with \<open>n\<close> labels holds values for tuples of \<open>n\<close> label values only.\<close>

definition tuples_ok :: "nat \<Rightarrow> 'a metric_vec \<Rightarrow> bool" where
  "tuples_ok n v \<longleftrightarrow> (\<forall>values \<in> fst ` set (mv_values v). length values = n)"

definition vec_ok :: "nat \<Rightarrow> 'a metric_vec \<Rightarrow> bool" where
  "vec_ok n v \<longleftrightarrow> length (mv_labels v) = n \<and> tuples_ok n v"

definition collector_ok :: "prometheus_collector \<Rightarrow> bool" where
  "collector_ok c \<longleftrightarrow> vec_ok 2 (pc_workflowStarted c) \<and> vec_ok 3 (pc_workflowCompleted c) \<and> vec_ok 3 (pc_workflowDuration c) \<and>
     vec_ok 3 (pc_workflowStatus c) \<and> vec_ok 4 (pc_stepStarted c) \<and> vec_ok 4 (pc_stepCompleted c) \<and>
     vec_ok 4 (pc_stepFailed c) \<and> vec_ok 4 (pc_stepDuration c) \<and> vec_ok 4 (pc_stepStatus c)"

definition vec_put :: "'a \<Rightarrow> string list \<Rightarrow> ('a \<Rightarrow> 'a) \<Rightarrow> 'a metric_vec \<Rightarrow> 'a metric_vec" where
  "vec_put zero values f v = v\<lparr>mv_values := AList.update values (f (vec_value zero v values)) (mv_values v)\<rparr>"

lemma on_vec_run:
  "length (mv_labels (field c)) = length values \<Longrightarrow> on_vec field put zero values f c = (Ok (), put (\<lambda>_. vec_put zero values f (field c)) c)"
  by (simp add: on_vec_def WithLabelValues_def vec_put_def)

lemma vec_put_labels [simp]: "mv_labels (vec_put zero values f v) = mv_labels v"
  by (simp add: vec_put_def)

lemma vec_put_tuples [simp]: "tuples_ok n (vec_put zero values f v) \<longleftrightarrow> length values = n \<and> tuples_ok n v"
proof -
  have "fst ` set (mv_values (vec_put zero values f v)) = insert values (fst ` set (mv_values v))"
    by (simp add: vec_put_def dom_update)
  then show ?thesis by (auto simp: tuples_ok_def)
qed

lemma vec_value_put: "vec_value zero (vec_put zero values f v) other = (if other = values then f (vec_value zero v values) else vec_value zero v other)"
  by (simp add: vec_value_def vec_put_def update_conv)

lemmas prom_defs = prom_RecordWorkflowStarted_def prom_RecordWorkflowCompleted_def prom_RecordWorkflowFailed_def prom_RecordStepStarted_def
  prom_RecordStepCompleted_def prom_RecordStepFailed_def prom_RecordWorkflowStatus_def prom_RecordStepStatus_def

lemma NewPrometheusCollector_ok: "collector_ok NewPrometheusCollector"
  by (simp add: collector_ok_def NewPrometheusCollector_def new_vec_def vec_ok_def tuples_ok_def)

lemma prom_record_ok: "collector_ok c \<Longrightarrow> fst (prom_record m c) = Ok () \<and> collector_ok (snd (prom_record m c))"
  unfolding collector_ok_def vec_ok_def by (cases m) (simp_all add: prom_defs on_vec_run run_simps)

lemma prom_records_ok: "collector_ok c \<Longrightarrow> fst (prom_records ms c) = Ok () \<and> collector_ok (snd (prom_records ms c))"
proof (induction ms arbitrary: c)
  case (Cons m ms)
  obtain r d where "prom_record m c = (r, d)" by fastforce
  with prom_record_ok [OF Cons.prems, of m] Cons.IH [of d] show ?case by (simp add: prom_records_def run_simps)
qed (simp add: prom_records_def run_simps)


text \<open>The vectors of a collector, by what one metric adds.\<close>

lemma prom_records_append:
  assumes "collector_ok c"
  shows "snd (prom_records (ms @ [m]) c) = snd (prom_record m (snd (prom_records ms c)))"
  using assms
proof (induction ms arbitrary: c)
  case (Cons x xs)
  obtain r d where "prom_record x c = (r, d)" by fastforce
  with prom_record_ok [OF Cons.prems, of x] Cons.IH [of d] show ?case by (simp add: prom_records_def run_simps)
next
  case Nil
  obtain r d where "prom_record m c = (r, d)" by fastforce
  with prom_record_ok [OF Nil, of m] show ?case by (simp add: prom_records_def run_simps)
qed

definition step_labels :: "int \<Rightarrow> string \<Rightarrow> string \<Rightarrow> step_type \<Rightarrow> string list" where
  "step_labels i w n ty = [intToString i, w, n, step_type_text ty]"

fun is_step_failure :: "string list \<Rightarrow> metric \<Rightarrow> bool" where
  "is_step_failure ls (RecordStepFailed i w n ty d) \<longleftrightarrow> ls = step_labels i w n ty"
| "is_step_failure ls _ \<longleftrightarrow> False"

fun is_step_completion :: "string list \<Rightarrow> metric \<Rightarrow> bool" where
  "is_step_completion ls (RecordStepCompleted i w n ty d) \<longleftrightarrow> ls = step_labels i w n ty"
| "is_step_completion ls _ \<longleftrightarrow> False"

fun is_step_start :: "string list \<Rightarrow> metric \<Rightarrow> bool" where
  "is_step_start ls (RecordStepStarted i w n ty) \<longleftrightarrow> ls = step_labels i w n ty"
| "is_step_start ls _ \<longleftrightarrow> False"

lemma prom_record_counters:
  assumes "collector_ok c"
  shows "vec_value 0 (pc_stepStarted (snd (prom_record m c))) ls = vec_value 0 (pc_stepStarted c) ls + of_bool (is_step_start ls m)"
    and "vec_value 0 (pc_stepCompleted (snd (prom_record m c))) ls = vec_value 0 (pc_stepCompleted c) ls + of_bool (is_step_completion ls m)"
    and "vec_value 0 (pc_stepFailed (snd (prom_record m c))) ls = vec_value 0 (pc_stepFailed c) ls + of_bool (is_step_failure ls m)"
    and "length (vec_value [] (pc_stepDuration (snd (prom_record m c))) ls) =
      length (vec_value [] (pc_stepDuration c) ls) + of_bool (is_step_completion ls m) + of_bool (is_step_failure ls m)"
  using assms unfolding collector_ok_def vec_ok_def
  by (cases m; simp add: prom_defs on_vec_run run_simps vec_value_put step_labels_def)+

text \<open>
  The step counters count.  After any sequence of recorded metrics the counters of started, completed and failed
  executions of a step (by instance, workflow, step name and type) hold exactly the numbers of starts, completions and
  failures recorded under these labels, and the duration histogram has one observation for each completion and each failure.
\<close>

theorem prometheus_counts_exact:
  "let c = snd (prom_records ms NewPrometheusCollector) in
   vec_value 0 (pc_stepStarted c) ls = length (filter (is_step_start ls) ms) \<and>
   vec_value 0 (pc_stepCompleted c) ls = length (filter (is_step_completion ls) ms) \<and>
   vec_value 0 (pc_stepFailed c) ls = length (filter (is_step_failure ls) ms) \<and>
   length (vec_value [] (pc_stepDuration c) ls) =
     length (filter (is_step_completion ls) ms) + length (filter (is_step_failure ls) ms)"
proof (induction ms rule: rev_induct)
  case Nil
  show ?case by (simp add: prom_records_def run_simps NewPrometheusCollector_def new_vec_def vec_value_def)
next
  case (snoc m ms)
  from prom_records_ok [OF NewPrometheusCollector_ok, of ms]
  have "collector_ok (snd (prom_records ms NewPrometheusCollector))" ..
  with snoc show ?case
    by (simp add: prom_records_append [OF NewPrometheusCollector_ok] prom_record_counters Let_def)
qed

text \<open>
  The status gauges only grow: once a status of an instance has been recorded, its gauge shows 1 for ever, whatever is recorded
  afterwards.  An instance that has gone from one status to another shows both as its current status.
\<close>

theorem prometheus_status_stale:
  assumes "RecordWorkflowStatus i w st \<in> set ms"
  shows "vec_value 0 (pc_workflowStatus (snd (prom_records ms NewPrometheusCollector))) [intToString i, w, workflow_status_text st] = 1"
  using assms
proof (induction ms rule: rev_induct)
  case (snoc m ms)
  from prom_records_ok [OF NewPrometheusCollector_ok, of ms]
  have ok: "collector_ok (snd (prom_records ms NewPrometheusCollector))" ..
  have kept: "vec_value 0 (pc_workflowStatus (snd (prom_record m c))) ls = 1"
    if "collector_ok c" "vec_value 0 (pc_workflowStatus c) ls = 1 \<or> (m = RecordWorkflowStatus i w st \<and> ls = [intToString i, w, workflow_status_text st])" for c ls
    using that unfolding collector_ok_def vec_ok_def
    by (cases m; auto simp: prom_defs on_vec_run run_simps vec_value_put)
  from snoc kept [OF ok] show ?case by (auto simp: prom_records_append [OF NewPrometheusCollector_ok])
qed simp

theorem prometheus_status_stale_witness:
  "let c = snd (prom_records [RecordWorkflowStatus 7 ''w'' StatusRunning, RecordWorkflowStatus 7 ''w'' StatusCompleted] NewPrometheusCollector) in
   vec_value 0 (pc_workflowStatus c) [intToString 7, ''w'', ''running''] = 1 \<and>
   vec_value 0 (pc_workflowStatus c) [intToString 7, ''w'', ''completed''] = 1"
  using prometheus_status_stale [of 7 "''w''" StatusRunning "[RecordWorkflowStatus 7 ''w'' StatusRunning, RecordWorkflowStatus 7 ''w'' StatusCompleted]"]
    prometheus_status_stale [of 7 "''w''" StatusCompleted "[RecordWorkflowStatus 7 ''w'' StatusRunning, RecordWorkflowStatus 7 ''w'' StatusCompleted]"]
  by (simp add: Let_def)

end
