(* ===== verification/Conditions.thy ===== *)
theory Conditions
  imports Engine_Exec "HOL-Library.Word"
begin

text \<open>
  Conditions, \<open>src/evaluate_condition.go\<close>: the cache of compiled templates and the comparison functions a
  template may use.  The template engine (\<open>text/template\<close>) and the decimal package
  (\<open>shopspring/decimal\<close>) are arguments; \<open>decimal_ok\<close> says what the comparisons rely on.

  A value of type \<open>any\<close> is one constructor per case of the type switch of \<open>toDecimal\<close>; integers keep their width.
  Floating-point values are the finite ones, as JSON and template literals give them.
\<close>

section \<open>Values\<close>

datatype reflected =
    KindInt int | KindUint "64 word" | KindFloat rat | KindString string | KindBool bool

datatype 'd any =
    AnyNil
  | AnyDecimal 'd
  | AnyNumber string
  | AnyString string
  | AnyInt "64 word" | AnyInt8 "8 word" | AnyInt16 "16 word" | AnyInt32 "32 word" | AnyInt64 "64 word"
  | AnyUint "64 word" | AnyUint8 "8 word" | AnyUint16 "16 word" | AnyUint32 "32 word" | AnyUint64 "64 word"
  | AnyFloat32 rat | AnyFloat64 rat
  | AnyBool bool
  | AnyNamed string reflected
  | AnySlice "json list"
  | AnyMap "(string \<times> json) list"

record 'd decimal_package =
  dp_Zero :: 'd
  dp_NewFromInt :: "int \<Rightarrow> 'd"
  dp_NewFromFloat :: "rat \<Rightarrow> 'd"
  dp_NewFromFloat32 :: "rat \<Rightarrow> 'd"
  dp_NewFromString :: "string \<Rightarrow> goerror + 'd"
  dp_Cmp :: "'d \<Rightarrow> 'd \<Rightarrow> int"
  dp_Equal :: "'d \<Rightarrow> 'd \<Rightarrow> bool"
  dp_IsZero :: "'d \<Rightarrow> bool"

section \<open>Conversion to decimal\<close>

definition decimal_text :: "'d decimal_package \<Rightarrow> string \<Rightarrow> goerror + 'd" where
  "decimal_text P s =
     (let t = trim_space s in if t = [] then Inr (dp_Zero P) else dp_NewFromString P t)"

definition decimal_bool :: "'d decimal_package \<Rightarrow> bool \<Rightarrow> 'd" where
  "decimal_bool P b = (if b then dp_NewFromInt P 1 else dp_Zero P)"

fun reflect_decimal :: "'d decimal_package \<Rightarrow> reflected \<Rightarrow> goerror + 'd" where
  "reflect_decimal P (KindInt i) = Inr (dp_NewFromInt P i)"
| "reflect_decimal P (KindUint w) =
     (if w > 9223372036854775807 then dp_NewFromString P (show_nat (unat w))
      else Inr (dp_NewFromInt P (sint w)))"
| "reflect_decimal P (KindFloat q) = Inr (dp_NewFromFloat P q)"
| "reflect_decimal P (KindString s) = decimal_text P s"
| "reflect_decimal P (KindBool b) = Inr (decimal_bool P b)"

text \<open>A conversion \<open>int64(val)\<close> of an unsigned value of 64 bits reads its bits as a signed number.\<close>

fun toDecimal :: "'d decimal_package \<Rightarrow> 'd any \<Rightarrow> goerror + 'd" where
  "toDecimal P AnyNil = Inr (dp_Zero P)"
| "toDecimal P (AnyDecimal d) = Inr d"
| "toDecimal P (AnyNumber s) = dp_NewFromString P s"
| "toDecimal P (AnyString s) = decimal_text P s"
| "toDecimal P (AnyInt w) = Inr (dp_NewFromInt P (sint w))"
| "toDecimal P (AnyInt8 w) = Inr (dp_NewFromInt P (sint w))"
| "toDecimal P (AnyInt16 w) = Inr (dp_NewFromInt P (sint w))"
| "toDecimal P (AnyInt32 w) = Inr (dp_NewFromInt P (sint w))"
| "toDecimal P (AnyInt64 w) = Inr (dp_NewFromInt P (sint w))"
| "toDecimal P (AnyUint w) = Inr (dp_NewFromInt P (sint w))"
| "toDecimal P (AnyUint8 w) = Inr (dp_NewFromInt P (uint w))"
| "toDecimal P (AnyUint16 w) = Inr (dp_NewFromInt P (uint w))"
| "toDecimal P (AnyUint32 w) = Inr (dp_NewFromInt P (uint w))"
| "toDecimal P (AnyUint64 w) = Inr (dp_NewFromInt P (sint w))"
| "toDecimal P (AnyFloat32 q) = Inr (dp_NewFromFloat32 P q)"
| "toDecimal P (AnyFloat64 q) = Inr (dp_NewFromFloat P q)"
| "toDecimal P (AnyBool b) = Inr (decimal_bool P b)"
| "toDecimal P (AnyNamed ty k) = reflect_decimal P k"
| "toDecimal P (AnySlice js) = Inl (Errorf ''cannot convert []interface {} to decimal'')"
| "toDecimal P (AnyMap kvs) = Inl (Errorf ''cannot convert map[string]interface {} to decimal'')"

section \<open>Comparison\<close>

text \<open>\<open>a == b\<close> on interface values panics when both have the same type and it is not comparable.\<close>

fun interface_equal :: "'d any \<Rightarrow> 'd any \<Rightarrow> bool outcome" where
  "interface_equal (AnySlice a) (AnySlice b) = Panic ''comparing uncomparable type []interface {}''"
| "interface_equal (AnyMap a) (AnyMap b) = Panic ''comparing uncomparable type map[string]interface {}''"
| "interface_equal a b = Ok (a = b)"

definition zero_value :: "'d decimal_package \<Rightarrow> 'd any \<Rightarrow> bool" where
  "zero_value P a = (case toDecimal P a of Inl e \<Rightarrow> False | Inr d \<Rightarrow> dp_IsZero P d)"

text \<open>\<open>sprint\<close> is \<open>fmt.Sprint\<close>.\<close>

definition compareEqualDecimal :: "'d decimal_package \<Rightarrow> ('d any \<Rightarrow> string) \<Rightarrow> 'd any \<Rightarrow> 'd any \<Rightarrow> bool outcome" where
  "compareEqualDecimal P sprint a b =
     (if a = AnyNil \<and> b = AnyNil then Ok True
      else if a = AnyNil then Ok (zero_value P b)
      else if b = AnyNil then Ok (zero_value P a)
      else case (toDecimal P a, toDecimal P b) of
        (Inr x, Inr y) \<Rightarrow> Ok (dp_Equal P x y)
      | (Inr x, Inl e) \<Rightarrow> Ok False
      | (Inl e, Inr y) \<Rightarrow> Ok False
      | (Inl e, Inl e') \<Rightarrow>
          (case interface_equal a b of
             Ok True \<Rightarrow> Ok True
           | Ok False \<Rightarrow> Ok (sprint a = sprint b)
           | Err e \<Rightarrow> Err e | Panic p \<Rightarrow> Panic p | Stuck \<Rightarrow> Stuck))"

definition number_or_zero :: "'d decimal_package \<Rightarrow> 'd any \<Rightarrow> 'd" where
  "number_or_zero P a = (case toDecimal P a of Inl e \<Rightarrow> dp_Zero P | Inr d \<Rightarrow> d)"

definition compareNumbersDecimal :: "'d decimal_package \<Rightarrow> 'd any \<Rightarrow> 'd any \<Rightarrow> int" where
  "compareNumbersDecimal P a b = dp_Cmp P (number_or_zero P a) (number_or_zero P b)"

text \<open>The functions of the template language.\<close>

datatype comparison = Eq | Ne | Gt | Lt | Ge | Le

fun template_func :: "'d decimal_package \<Rightarrow> ('d any \<Rightarrow> string) \<Rightarrow> comparison \<Rightarrow> 'd any \<Rightarrow> 'd any \<Rightarrow> bool outcome" where
  "template_func P sprint Eq a b = compareEqualDecimal P sprint a b"
| "template_func P sprint Ne a b =
     (case compareEqualDecimal P sprint a b of Ok r \<Rightarrow> Ok (\<not> r) | Err e \<Rightarrow> Err e | Panic p \<Rightarrow> Panic p | Stuck \<Rightarrow> Stuck)"
| "template_func P sprint Gt a b = Ok (compareNumbersDecimal P a b > 0)"
| "template_func P sprint Lt a b = Ok (compareNumbersDecimal P a b < 0)"
| "template_func P sprint Ge a b = Ok (compareNumbersDecimal P a b \<ge> 0)"
| "template_func P sprint Le a b = Ok (compareNumbersDecimal P a b \<le> 0)"

section \<open>The template cache\<close>

text \<open>
  The state is the cache.  \<open>parse\<close> compiles an expression and \<open>exec\<close> runs a compiled template on the data; between
  the read lock and the write lock another goroutine may have filled the cache, so it is looked up again.
\<close>

definition cache_limit :: nat where
  "cache_limit = 1000"

definition compiled :: "(string \<Rightarrow> goerror + 't) \<Rightarrow> string \<Rightarrow> ((string, 't) gomap, 't) prog" where
  "compiled parse expr =
     bnd (gets (\<lambda>cache. map_of cache expr)) (\<lambda>found.
     case found of
       Some tpl \<Rightarrow> ret tpl
     | None \<Rightarrow>
         (case parse expr of
            Inl e \<Rightarrow> throw (Wrap ''parse condition'' e)
          | Inr tpl \<Rightarrow>
              thn (modify (\<lambda>cache. if length cache < cache_limit then AList.update expr tpl cache else cache))
              (ret tpl)))"

definition evaluateCondition ::
  "(string \<Rightarrow> goerror + 't) \<Rightarrow> ('t \<Rightarrow> (string, json) gomap \<Rightarrow> goerror + string) \<Rightarrow> string \<Rightarrow> exec_context \<Rightarrow>
   ((string, 't) gomap, bool) prog" where
  "evaluateCondition parse exec expr stepCtx =
     bnd (compiled parse expr) (\<lambda>tpl.
     case condition_value (map_sum (Wrap ''execute condition'') id (exec tpl (CloneData stepCtx))) of
       Inl e \<Rightarrow> throw e
     | Inr b \<Rightarrow> ret b)"

section \<open>What the comparisons mean\<close>

text \<open>
  What the decimal package promises, as far as the comparisons rely on it: every decimal has a value, the
  order and the equality are those of the values, and integers convert exactly.
\<close>

definition decimal_ok :: "'d decimal_package \<Rightarrow> ('d \<Rightarrow> rat) \<Rightarrow> bool" where
  "decimal_ok P val \<longleftrightarrow>
     (\<forall>a b. dp_Cmp P a b = (if val a < val b then - 1 else if val a = val b then 0 else 1)) \<and>
     (\<forall>a b. dp_Equal P a b \<longleftrightarrow> val a = val b) \<and> (\<forall>a. dp_IsZero P a \<longleftrightarrow> val a = 0) \<and>
     val (dp_Zero P) = 0 \<and> (\<forall>n. val (dp_NewFromInt P n) = of_int n)"

definition numeric :: "'d decimal_package \<Rightarrow> 'd any \<Rightarrow> bool" where
  "numeric P a \<longleftrightarrow> (\<exists>d. toDecimal P a = Inr d)"

text \<open>
  On values that convert to numbers, the six comparisons of a condition are those of the numbers;
  nil counts as zero on either side.
\<close>

theorem comparisons_exact:
  assumes "decimal_ok P val" and "numeric P a" and "numeric P b"
  shows "(let x = val (number_or_zero P a); y = val (number_or_zero P b) in
     map (\<lambda>c. template_func P sprint c a b) [Eq, Ne, Gt, Lt, Ge, Le] =
     [Ok (x = y), Ok (x \<noteq> y), Ok (x > y), Ok (x < y), Ok (x \<ge> y), Ok (x \<le> y)])"
proof -
  from assms obtain x y where xy: "toDecimal P a = Inr x" "toDecimal P b = Inr y" by (auto simp: numeric_def)
  have "compareEqualDecimal P sprint a b = Ok (val x = val y)"
    using assms(1) xy by (cases "a = AnyNil"; cases "b = AnyNil")
      (auto simp: compareEqualDecimal_def zero_value_def decimal_ok_def)
  with assms(1) xy show ?thesis
    by (auto simp: Let_def number_or_zero_def compareNumbersDecimal_def decimal_ok_def)
qed

text \<open>The rational numbers themselves, with a reader for decimal digits, are such a package.\<close>

definition digits_value :: "string \<Rightarrow> goerror + rat" where
  "digits_value s =
     (if s \<noteq> [] \<and> list_all (\<lambda>c. of_char c \<ge> (48::nat) \<and> of_char c \<le> (57::nat)) s
      then Inr (of_nat (foldl (\<lambda>n c. n * 10 + (of_char c - 48)) 0 s))
      else Inl (Errorf ''can't convert to decimal''))"

definition rat_package :: "rat decimal_package" where
  "rat_package = \<lparr>dp_Zero = 0, dp_NewFromInt = of_int, dp_NewFromFloat = id, dp_NewFromFloat32 = id,
     dp_NewFromString = digits_value,
     dp_Cmp = (\<lambda>a b. if a < b then - 1 else if a = b then 0 else 1), dp_Equal = (=), dp_IsZero = (\<lambda>a. a = 0)\<rparr>"

lemma rat_package_ok: "decimal_ok rat_package id"
  by (simp add: decimal_ok_def rat_package_def)

theorem comparisons_exact_witness:
  "decimal_ok rat_package id \<and>
   map (\<lambda>c. template_func rat_package (\<lambda>_. []) c (AnyString '' 12 '') (AnyInt 12)) [Eq, Ne, Gt, Lt, Ge, Le] =
     [Ok True, Ok False, Ok False, Ok False, Ok True, Ok True]"
proof -
  have v: "toDecimal rat_package (AnyString '' 12 '') = Inr 12" "toDecimal rat_package (AnyInt 12) = Inr 12"
    by code_simp+
  then have "numeric rat_package (AnyString '' 12 '')" "numeric rat_package (AnyInt 12)" by (auto simp: numeric_def)
  from comparisons_exact [OF rat_package_ok this, of "\<lambda>_. []"] v rat_package_ok show ?thesis
    by (simp add: Let_def number_or_zero_def)
qed

text \<open>
  An unsigned 64-bit value from 2^63 on compares as a negative number, so a condition finds
  it smaller than zero.
\<close>

theorem large_unsigned_is_negative:
  fixes w :: "64 word"
  assumes "decimal_ok P val" and "w \<ge> 9223372036854775808"
  shows "template_func P sprint Lt (AnyUint64 w) (AnyInt 0) = Ok True \<and>
    template_func P sprint Lt (AnyUint w) (AnyInt 0) = Ok True"
proof -
  have w: "uint w \<ge> 9223372036854775808" "uint w < 18446744073709551616"
    using assms(2) uint_lt2p [of w] by (simp_all add: word_le_def)
  then have "uint w div 9223372036854775808 = 1"
    using int_div_pos_eq [of "uint w" 9223372036854775808 1 "uint w - 9223372036854775808"] by simp
  then have "bit (uint w) 63" by (simp add: bit_iff_odd)
  then have "sint w < 0" by (simp add: sint_uint)
  with assms(1) show ?thesis
    by (simp add: compareNumbersDecimal_def number_or_zero_def decimal_ok_def del: of_int_sint)
qed

theorem large_unsigned_is_negative_witness:
  "template_func rat_package (\<lambda>_. []) Lt (AnyUint64 18446744073709551615) (AnyInt 0) = Ok True"
  using large_unsigned_is_negative [OF rat_package_ok, of 18446744073709551615 "\<lambda>_. []"] by simp

text \<open>
  The comparison of two lists or of two objects panics, so the comparison of their
  texts, meant as the last resort, is never reached for them.
\<close>

theorem composite_comparison_panics:
  "(\<exists>p. compareEqualDecimal P sprint (AnySlice xs) (AnySlice ys) = Panic p) \<and>
   (\<exists>p. compareEqualDecimal P sprint (AnyMap m) (AnyMap m') = Panic p)"
  by (simp add: compareEqualDecimal_def)

section \<open>The cache is transparent\<close>

definition cache_ok :: "(string \<Rightarrow> goerror + 't) \<Rightarrow> (string, 't) gomap \<Rightarrow> bool" where
  "cache_ok parse cache \<longleftrightarrow> length cache \<le> cache_limit \<and> (\<forall>(expr, tpl) \<in> set cache. parse expr = Inr tpl)"

text \<open>What a condition means without a cache.\<close>

definition condition_spec ::
  "(string \<Rightarrow> goerror + 't) \<Rightarrow> ('t \<Rightarrow> (string, json) gomap \<Rightarrow> goerror + string) \<Rightarrow> string \<Rightarrow> (string, json) gomap \<Rightarrow> bool outcome" where
  "condition_spec parse exec expr data =
     (case parse expr of
        Inl e \<Rightarrow> Err (Wrap ''parse condition'' e)
      | Inr tpl \<Rightarrow>
          (case condition_value (map_sum (Wrap ''execute condition'') id (exec tpl data)) of
             Inl e \<Rightarrow> Err e | Inr b \<Rightarrow> Ok b))"

text \<open>
  C38: The template cache is transparent: as long as it holds only compiled expressions, a condition
  yields what compiling it afresh would, the cache keeps that form, and it never exceeds its limit.
\<close>

theorem cache_transparent:
  assumes "cache_ok parse cache" and "evaluateCondition parse exec expr ctx cache = (r, cache')"
  shows "r = condition_spec parse exec expr (CloneData ctx) \<and> cache_ok parse cache'"
proof (cases "map_of cache expr")
  case None
  have "cache_ok parse (AList.update expr tpl cache)" if "parse expr = Inr tpl" "length cache < cache_limit" for tpl
  proof -
    have "AList.update expr tpl cache = cache @ [(expr, tpl)]"
      using None by (induction cache) (auto split: if_splits)
    with assms(1) that show ?thesis by (auto simp: cache_ok_def)
  qed
  with assms None show ?thesis
    by (auto simp: evaluateCondition_def compiled_def condition_spec_def run_simps split: sum.splits if_splits)
next
  case (Some tpl)
  then have "parse expr = Inr tpl" using assms(1) by (auto simp: cache_ok_def dest: map_of_SomeD)
  with assms Some show ?thesis
    by (auto simp: evaluateCondition_def compiled_def condition_spec_def run_simps split: sum.splits)
qed


theorem cache_transparent_witness:
  "let parse = (\<lambda>e. if e = ''bad'' then Inl (Errorf ''syntax'') else Inr e); exec = (\<lambda>tpl data. Inr ('' '' @ tpl));
       ctx = \<lparr>ec_instanceID = 1, ec_stepName = ''c'', ec_idempotencyKey = [], ec_retryCount = 0, ec_variables = []\<rparr>
   in cache_ok parse [(''true'', ''true'')] \<and>
      fst (evaluateCondition parse exec ''true'' ctx [(''true'', ''true'')]) = Ok True \<and>
      snd (evaluateCondition parse exec ''false'' ctx [(''true'', ''true'')]) = [(''true'', ''true''), (''false'', ''false'')]"
proof -
  let ?parse = "\<lambda>e. if e = ''bad'' then Inl (Errorf ''syntax'') else Inr e"
  let ?exec = "\<lambda>tpl (data :: (string, json) gomap). Inr ('' '' @ tpl) :: goerror + string"
  let ?ctx = "\<lparr>ec_instanceID = 1, ec_stepName = ''c'', ec_idempotencyKey = [], ec_retryCount = 0, ec_variables = []\<rparr>"
  have ok: "cache_ok ?parse [(''true'', ''true'')]" by (simp add: cache_ok_def cache_limit_def)
  obtain r c where run: "evaluateCondition ?parse ?exec ''true'' ?ctx [(''true'', ''true'')] = (r, c)" by fastforce
  have "condition_spec ?parse ?exec ''true'' (CloneData ?ctx) = Ok True" by code_simp
  moreover have "snd (evaluateCondition ?parse ?exec ''false'' ?ctx [(''true'', ''true'')]) = [(''true'', ''true''), (''false'', ''false'')]"
    by code_simp
  ultimately show ?thesis using cache_transparent [OF ok run] ok run by simp
qed

end
