(* ===== verification/Step_Handlers.thy ===== *)
theory Step_Handlers
  imports Engine_Exec
begin

text \<open>
  The handler adapters of \<open>src/helpers.go\<close> and the wrapper of \<open>src/step_handler.go\<close>: a function on maps
  (\<open>JSONHandler\<close>) or on values of Go types (\<open>TypedHandler\<close>) as a step handler.

  The user's function is an argument: it returns a result, an error, or panics.  A Go map may be nil
  (\<open>None\<close>).  For \<open>TypedHandler\<close> the JSON conversions of the two Go types are arguments too.
\<close>

section \<open>Handlers on maps\<close>

datatype 'a fn_result = FnReturns 'a | FnFails goerror | FnPanics string

type_synonym gomap_value = "(string, json) gomap option"

text \<open>\<open>len(input) > 0\<close>.\<close>

fun has_bytes :: "raw \<Rightarrow> bool" where
  "has_bytes RawNil = False"
| "has_bytes (RawText s) = (s \<noteq> [])"
| "has_bytes (RawJSON j) = True"

text \<open>\<open>json.Marshal\<close> of a map: a nil map is \<open>null\<close>.\<close>

definition marshal_map :: "gomap_value \<Rightarrow> raw" where
  "marshal_map m = RawJSON (case m of None \<Rightarrow> JNull | Some kvs \<Rightarrow> JObject kvs)"

definition json_input :: "raw \<Rightarrow> goerror + gomap_value" where
  "json_input input =
     (if has_bytes input then map_sum (Wrap ''unmarshal input'') id (unmarshal_map input) else Inr (Some []))"

definition JSONHandler_Execute ::
  "(exec_context \<Rightarrow> gomap_value \<Rightarrow> gomap_value fn_result) \<Rightarrow> exec_context \<Rightarrow> raw \<Rightarrow> handler_result" where
  "JSONHandler_Execute fn stepCtx input =
     (case json_input input of
        Inl e \<Rightarrow> Fails e
      | Inr data \<Rightarrow>
          (case fn stepCtx data of
             FnReturns out \<Rightarrow> Returns (marshal_map out)
           | FnFails e \<Rightarrow> Fails e
           | FnPanics p \<Rightarrow> Panics p))"

section \<open>Handlers on typed values\<close>

record ('i, 'o) codec =
  unmarshal_in :: "raw \<Rightarrow> goerror + 'i"
  marshal_out :: "'o \<Rightarrow> goerror + raw"

definition TypedHandler_Execute ::
  "('i, 'o) codec \<Rightarrow> (exec_context \<Rightarrow> 'i \<Rightarrow> 'o fn_result) \<Rightarrow> exec_context \<Rightarrow> raw \<Rightarrow> handler_result" where
  "TypedHandler_Execute c fn stepCtx input =
     (case unmarshal_in c input of
        Inl e \<Rightarrow> Fails (Wrap ''unmarshal input'' e)
      | Inr data \<Rightarrow>
          (case fn stepCtx data of
             FnReturns out \<Rightarrow> (case marshal_out c out of Inl e \<Rightarrow> Fails e | Inr raw \<Rightarrow> Returns raw)
           | FnFails e \<Rightarrow> Fails e
           | FnPanics p \<Rightarrow> Panics p))"

text \<open>\<open>noPanicStepHandler.Execute\<close>, less the stack trace in the message.\<close>

definition noPanic_Execute :: "string \<Rightarrow> (exec_context \<Rightarrow> raw \<Rightarrow> handler_result) \<Rightarrow> exec_context \<Rightarrow> raw \<Rightarrow> handler_result" where
  "noPanic_Execute name h stepCtx input =
     (case h stepCtx input of
        Panics p \<Rightarrow> Fails (Errorf (''panic in handler '' @ quote name @ '': '' @ p))
      | r \<Rightarrow> r)"

section \<open>Data flow between handlers\<close>

lemma json_input_marshal_map: "json_input (marshal_map m) = Inr m"
  by (cases m) (simp_all add: json_input_def marshal_map_def)

text \<open>
  What a map handler returns is what the next map handler in the workflow receives: its output
  message always decodes, to the very map that was returned, nil included.
\<close>

theorem json_handlers_compose:
  "JSONHandler_Execute fn stepCtx input = Returns out \<longleftrightarrow>
     (\<exists>data m. json_input input = Inr data \<and> fn stepCtx data = FnReturns m \<and> out = marshal_map m \<and>
       (\<forall>fn' ctx'. JSONHandler_Execute fn' ctx' out =
          (case fn' ctx' m of FnReturns m' \<Rightarrow> Returns (marshal_map m') | FnFails e \<Rightarrow> Fails e | FnPanics p \<Rightarrow> Panics p)))"
  by (auto simp: JSONHandler_Execute_def json_input_marshal_map split: sum.splits fn_result.splits)

text \<open>
  A wrapped handler never panics, whatever its function does: a step is handed an output or an error,
  and an error names the handler when the function panicked.
\<close>

theorem wrapped_handler_never_panics:
  "noPanic_Execute name (TypedHandler_Execute c fn) stepCtx input \<noteq> Panics p \<and>
   noPanic_Execute name (JSONHandler_Execute gn) stepCtx input \<noteq> Panics p"
  by (auto simp: noPanic_Execute_def split: handler_result.splits)

end
