(* ===== verification/Visualizer.thy ===== *)
theory Visualizer
  imports Graph_Walks "HOL-Library.Multiset"
begin

text \<open>
  The visualizer, \<open>src/visualizer.go\<close>: a workflow definition as an indented outline, and the steps
  of an instance grouped by status.  A rendering is a list of lines; \<open>line_text\<close> gives the bytes of a line, with
  the symbols of the source in UTF-8.

  \<open>renderStep\<close> recurs into the branches and successors of a step and shares one map \<open>visited\<close> with its
  recursive calls, so it is a function from the visited steps to lines and visited steps, with fuel
  for the depth of the recursion: one more than the number of steps is always enough.
\<close>

section \<open>Lines\<close>

definition utf8 :: "nat list \<Rightarrow> string" where
  "utf8 bytes = map char_of bytes"

definition newline :: string where
  "newline = [CHR 0x0A]"

definition indent :: "nat \<Rightarrow> string" where
  "indent level = concat (replicate level ''  '')"

fun getStepSymbol :: "step_type \<Rightarrow> string" where
  "getStepSymbol StepTypeHuman = utf8 [0xF0, 0x9F, 0x91, 0xA4]"
| "getStepSymbol StepTypeTask = utf8 [0xE2, 0x9A, 0x99]"
| "getStepSymbol StepTypeFork = utf8 [0xF0, 0x9F, 0x94, 0x80]"
| "getStepSymbol StepTypeJoin = utf8 [0xF0, 0x9F, 0x94, 0x97]"
| "getStepSymbol StepTypeCondition = utf8 [0xE2, 0x9D, 0x93]"
| "getStepSymbol StepTypeSavePoint = utf8 [0xF0, 0x9F, 0x92, 0xBE]"
| "getStepSymbol StepTypeParallel = utf8 [0xE2, 0x88, 0xA5]"
| "getStepSymbol (StepTypeOther s) = utf8 [0xE2, 0x86, 0x92]"

fun getStatusSymbol :: "step_status \<Rightarrow> string" where
  "getStatusSymbol StepStatusCompleted = utf8 [0xE2, 0x9C, 0x85]"
| "getStatusSymbol StepStatusConfirmed = utf8 [0xE2, 0x9C, 0x85]"
| "getStatusSymbol StepStatusRunning = utf8 [0xF0, 0x9F, 0x94, 0x84]"
| "getStatusSymbol StepStatusWaitingDecision = utf8 [0xE2, 0x8F, 0xB3]"
| "getStatusSymbol StepStatusPending = utf8 [0xE2, 0x8F, 0xB8]"
| "getStatusSymbol StepStatusFailed = utf8 [0xE2, 0x9D, 0x8C]"
| "getStatusSymbol StepStatusRejected = utf8 [0xE2, 0x9D, 0x8C]"
| "getStatusSymbol StepStatusSkipped = utf8 [0xE2, 0x8F, 0xAD]"
| "getStatusSymbol StepStatusRolledBack = utf8 [0xE2, 0x86, 0xA9]"
| "getStatusSymbol StepStatusCompensation = utf8 [0xF0, 0x9F, 0x94, 0x84]"
| "getStatusSymbol _ = utf8 [0xE2, 0x9D, 0x93]"

datatype line =
    VisitedLine nat string
  | NotFoundLine nat string
  | StepLine nat string step_type
  | HandlerLine nat string
  | HumanLine nat
  | OnFailureLine nat string
  | RetriesLine nat int
  | ParallelLine nat
  | ElseLine nat string

fun line_text :: "line \<Rightarrow> string" where
  "line_text (VisitedLine i n) = indent i @ utf8 [0xE2, 0x86, 0xBB] @ '' '' @ n @ '' (already visited)'' @ newline"
| "line_text (NotFoundLine i n) = indent i @ utf8 [0xE2, 0x9A, 0xA0] @ '' '' @ n @ '' (not found)'' @ newline"
| "line_text (StepLine i n ty) = indent i @ getStepSymbol ty @ '' '' @ n @ '' ['' @ step_type_text ty @ '']'' @ newline"
| "line_text (HandlerLine i h) = indent i @ ''  handler: '' @ h @ newline"
| "line_text (HumanLine i) =
     indent i @ ''  '' @ utf8 [0xF0, 0x9F, 0x91, 0xA5] @ '' requires human confirmation'' @ newline"
| "line_text (OnFailureLine i n) = indent i @ ''  '' @ utf8 [0xE2, 0x9A, 0xA1] @ '' on failure: '' @ n @ newline"
| "line_text (RetriesLine i k) =
     indent i @ ''  '' @ utf8 [0xF0, 0x9F, 0x94, 0x84] @ '' max retries: '' @ show_int k @ newline"
| "line_text (ParallelLine i) = indent i @ ''  '' @ utf8 [0xE2, 0x88, 0xA5] @ '' parallel:'' @ newline"
| "line_text (ElseLine i n) = indent i @ ''  '' @ utf8 [0xE2, 0x86, 0xB3] @ '' else: '' @ n @ newline"

section \<open>The graph of a definition\<close>

type_synonym rendering = "line list \<times> string list"

text \<open>The lines of a step before its branches.\<close>

definition step_lines :: "nat \<Rightarrow> string \<Rightarrow> step_definition \<Rightarrow> line list" where
  "step_lines i stepName step =
     StepLine i stepName (sd_Type step) #
     (if sd_Handler step \<noteq> [] then [HandlerLine i (sd_Handler step)] else []) @
     (if sd_Type step = StepTypeHuman then [HumanLine i] else []) @
     (if sd_OnFailure step \<noteq> [] then [OnFailureLine i (sd_OnFailure step)] else []) @
     (if sd_MaxRetries step > 0 then [RetriesLine i (sd_MaxRetries step)] else [])"

fun render_all :: "(string \<Rightarrow> string list \<Rightarrow> rendering option) \<Rightarrow> string list \<Rightarrow> string list \<Rightarrow> rendering option" where
  "render_all f [] visited = Some ([], visited)"
| "render_all f (n # ns) visited =
     (case f n visited of
        None \<Rightarrow> None
      | Some (ls, visited1) \<Rightarrow>
          (case render_all f ns visited1 of
             None \<Rightarrow> None
           | Some (ls', visited2) \<Rightarrow> Some (ls @ ls', visited2)))"

fun renderStep :: "nat \<Rightarrow> steps_map \<Rightarrow> nat \<Rightarrow> string \<Rightarrow> string list \<Rightarrow> rendering option" where
  "renderStep 0 steps i stepName visited = None"
| "renderStep (Suc fuel) steps i stepName visited =
     (if stepName \<in> set visited then Some ([VisitedLine i stepName], visited)
      else case map_of steps stepName of
        None \<Rightarrow> Some ([NotFoundLine i stepName], visited)
      | Some step \<Rightarrow>
          (case render_all (renderStep fuel steps (i + 2)) (sd_Parallel step) (stepName # visited) of
             None \<Rightarrow> None
           | Some (ps, visited1) \<Rightarrow>
          (case render_all (renderStep fuel steps (i + 1)) (sd_Next step) visited1 of
             None \<Rightarrow> None
           | Some (ns, visited2) \<Rightarrow>
          (case render_all (renderStep fuel steps (i + 2)) (if sd_Else step \<noteq> [] then [sd_Else step] else []) visited2 of
             None \<Rightarrow> None
           | Some (es, visited3) \<Rightarrow>
               Some (step_lines i stepName step @
                 (if sd_Parallel step \<noteq> [] then ParallelLine i # ps else []) @ ns @
                 (if sd_Else step \<noteq> [] then ElseLine i (sd_Else step) # es else []), visited3)))))"

definition graph_lines :: "workflow_definition \<Rightarrow> line list option" where
  "graph_lines def =
     map_option fst (renderStep (Suc (length (def_steps def))) (def_steps def) 0 (def_start def) [])"

definition RenderGraph :: "workflow_definition \<Rightarrow> string option" where
  "RenderGraph def =
     map_option (\<lambda>ls.
       ''Workflow: '' @ wd_Name def @ '' (v'' @ show_int (wd_Version def) @ '')'' @ newline @
       ''======================================'' @ newline @ newline @ concat (map line_text ls))
       (graph_lines def)"

section \<open>The status of an instance\<close>

definition statusOrder :: "step_status list" where
  "statusOrder = [StepStatusCompleted, StepStatusConfirmed, StepStatusRunning, StepStatusWaitingDecision,
     StepStatusPending, StepStatusFailed, StepStatusRejected, StepStatusSkipped, StepStatusRolledBack,
     StepStatusCompensation]"

text \<open>The groups in the order of \<open>statusOrder\<close>; a status without steps has no group.\<close>

definition status_groups :: "workflow_step list \<Rightarrow> (step_status \<times> workflow_step list) list" where
  "status_groups sts =
     filter (\<lambda>(status, group). group \<noteq> [])
       (map (\<lambda>status. (status, filter (\<lambda>st. ws_Status st = status) sts)) statusOrder)"

definition status_step_text :: "workflow_step \<Rightarrow> string" where
  "status_step_text st =
     ''  '' @ getStepSymbol (ws_StepType st) @ '' '' @ ws_StepName st @
     (if ws_StepType st = StepTypeHuman then
        (if ws_Status st = StepStatusWaitingDecision then '' '' @ utf8 [0xE2, 0x8F, 0xB3] @ '' waiting for human decision''
         else if ws_Status st = StepStatusConfirmed then '' '' @ utf8 [0xE2, 0x9C, 0x85] @ '' confirmed by human''
         else if ws_Status st = StepStatusRejected then '' '' @ utf8 [0xE2, 0x9D, 0x8C] @ '' rejected by human''
         else [])
      else []) @ newline"

definition group_text :: "step_status \<times> workflow_step list \<Rightarrow> string" where
  "group_text = (\<lambda>(status, group).
     getStatusSymbol status @ '' '' @ step_status_text status @ '' ('' @ show_nat (length group) @ '' steps):'' @ newline @
     concat (map status_step_text group) @ newline)"

definition RenderInstanceStatus :: "workflow_instance \<Rightarrow> workflow_step list \<Rightarrow> string" where
  "RenderInstanceStatus inst sts =
     ''Workflow Instance: '' @ show_int (wi_ID inst) @ newline @
     ''Status: '' @ workflow_status_text (wi_Status inst) @ newline @
     ''Workflow: '' @ wi_WorkflowID inst @ newline @
     ''======================================'' @ newline @ newline @
     concat (map group_text (status_groups sts))"

section \<open>The outline is complete\<close>

fun header_of :: "line \<Rightarrow> string option" where
  "header_of (StepLine i n ty) = Some n" | "header_of _ = None"

fun missing_of :: "line \<Rightarrow> string option" where
  "missing_of (NotFoundLine i n) = Some n" | "missing_of _ = None"

definition headers :: "line list \<Rightarrow> string list" where
  "headers ls = List.map_filter header_of ls"

definition missing :: "line list \<Rightarrow> string list" where
  "missing ls = List.map_filter missing_of ls"

lemma headers_simps [simp]: "headers [] = []" "headers (l # ls) = (case header_of l of None \<Rightarrow> headers ls | Some n \<Rightarrow> n # headers ls)"
    "headers (ls @ ls') = headers ls @ headers ls'"
  by (simp_all add: headers_def List.map_filter_def split: option.split)

lemma missing_simps [simp]: "missing [] = []" "missing (l # ls) = (case missing_of l of None \<Rightarrow> missing ls | Some n \<Rightarrow> n # missing ls)"
    "missing (ls @ ls') = missing ls @ missing ls'"
  by (simp_all add: missing_def List.map_filter_def split: option.split)

lemma step_lines_names [simp]: "headers (step_lines i n sd) = [n]" "missing (step_lines i n sd) = []"
  by (simp_all add: step_lines_def)

text \<open>
  What rendering the steps \<open>ns\<close> from \<open>visited\<close> guarantees: the steps newly visited are those with a line of their own,
  each has one line, hangs off some \<open>ns\<close>, and everything it leads to is visited or reported missing.
\<close>

definition covered :: "steps_map \<Rightarrow> string list \<Rightarrow> string list \<Rightarrow> string \<Rightarrow> bool" where
  "covered steps visited missed n \<longleftrightarrow> (if has_key steps n then n \<in> set visited else n \<in> set missed)"

definition renders :: "steps_map \<Rightarrow> string list \<Rightarrow> string list \<Rightarrow> line list \<Rightarrow> string list \<Rightarrow> bool" where
  "renders steps ns visited ls visited' \<longleftrightarrow>
     visited' = rev (headers ls) @ visited \<and> (distinct visited \<longrightarrow> distinct visited') \<and>
     (\<forall>m \<in> set (headers ls). has_key steps m \<and> (\<exists>n \<in> set ns. (leads_to steps)\<^sup>*\<^sup>* n m)) \<and>
     (\<forall>m \<in> set (missing ls). \<not> has_key steps m \<and> (\<exists>n \<in> set ns. (leads_to steps)\<^sup>*\<^sup>* n m)) \<and>
     (\<forall>n \<in> set ns. covered steps visited' (missing ls) n) \<and>
     (\<forall>m \<in> set (headers ls). \<forall>k. leads_to steps m k \<longrightarrow> covered steps visited' (missing ls) k)"


lemma renders_Nil: "renders steps [] visited [] visited"
  by (simp add: renders_def)

lemma covered_mono: "covered steps v m n \<Longrightarrow> set v \<subseteq> set v' \<Longrightarrow> set m \<subseteq> set m' \<Longrightarrow> covered steps v' m' n"
  by (auto simp: covered_def split: if_splits)

lemma rendersD:
  assumes "renders steps ns visited ls visited'"
  shows "visited' = rev (headers ls) @ visited" and "distinct visited \<Longrightarrow> distinct visited'"
    and "m \<in> set (headers ls) \<Longrightarrow> has_key steps m \<and> (\<exists>n \<in> set ns. (leads_to steps)\<^sup>*\<^sup>* n m)"
    and "m \<in> set (missing ls) \<Longrightarrow> \<not> has_key steps m \<and> (\<exists>n \<in> set ns. (leads_to steps)\<^sup>*\<^sup>* n m)"
    and "n \<in> set ns \<Longrightarrow> covered steps visited' (missing ls) n"
    and "m \<in> set (headers ls) \<Longrightarrow> leads_to steps m k \<Longrightarrow> covered steps visited' (missing ls) k"
  using assms unfolding renders_def by blast+

lemma renders_append:
  assumes 1: "renders steps ns1 visited ls visited1" and 2: "renders steps ns2 visited1 ls' visited2"
  shows "renders steps (ns1 @ ns2) visited (ls @ ls') visited2"
proof -
  have sub: "set visited1 \<subseteq> set visited2" using rendersD(1) [OF 2] by auto
  have c1: "covered steps visited2 (missing (ls @ ls')) n" if "covered steps visited1 (missing ls) n" for n
    by (rule covered_mono [OF that sub]) simp
  have c2: "covered steps visited2 (missing (ls @ ls')) n" if "covered steps visited2 (missing ls') n" for n
    by (rule covered_mono [OF that]) simp_all
  show ?thesis
    unfolding renders_def
  proof (intro conjI ballI allI impI)
    show "visited2 = rev (headers (ls @ ls')) @ visited" using rendersD(1) [OF 1] rendersD(1) [OF 2] by simp
    show "distinct visited2" if "distinct visited" using that rendersD(2) [OF 1] rendersD(2) [OF 2] by blast
    fix m
    assume "m \<in> set (headers (ls @ ls'))"
    then show "has_key steps m" "\<exists>n\<in>set (ns1 @ ns2). (leads_to steps)\<^sup>*\<^sup>* n m"
      using rendersD(3) [OF 1, of m] rendersD(3) [OF 2, of m] by auto
    show "covered steps visited2 (missing (ls @ ls')) k" if "leads_to steps m k" for k
      using \<open>m \<in> set (headers (ls @ ls'))\<close> c1 [OF rendersD(6) [OF 1 _ that]] c2 [OF rendersD(6) [OF 2 _ that]] by auto
  next
    fix m
    assume "m \<in> set (missing (ls @ ls'))"
    then show "\<not> has_key steps m" "\<exists>n\<in>set (ns1 @ ns2). (leads_to steps)\<^sup>*\<^sup>* n m"
      using rendersD(4) [OF 1, of m] rendersD(4) [OF 2, of m] by auto
  next
    fix n
    assume "n \<in> set (ns1 @ ns2)"
    then show "covered steps visited2 (missing (ls @ ls')) n"
      using c1 [OF rendersD(5) [OF 1]] c2 [OF rendersD(5) [OF 2]] by auto
  qed
qed

lemma renders_enter:
  assumes sub: "renders steps ns (n # visited) ls visited'" and step: "map_of steps n = Some sd" "n \<notin> set visited"
    and ns: "set ns = set (forward sd)" and L: "headers L = n # headers ls" "missing L = missing ls"
  shows "renders steps [n] visited L visited'"
proof -
  have lead: "leads_to steps n k \<longleftrightarrow> k \<in> set ns" for k using step(1) ns by (auto simp: leads_to_def)
  then have reach: "(leads_to steps)\<^sup>*\<^sup>* n m" if "\<exists>k \<in> set ns. (leads_to steps)\<^sup>*\<^sup>* k m" for m
    using that by (meson converse_rtranclp_into_rtranclp)
  have n: "n \<in> set visited'" "has_key steps n" using rendersD(1) [OF sub] step(1) by (auto simp: has_key_def)
  have c: "covered steps visited' (missing ls) k" if "m \<in> set (headers L)" "leads_to steps m k" for m k
    using that lead L(1) rendersD(5) [OF sub] rendersD(6) [OF sub] by auto
  show ?thesis
    unfolding renders_def L(2)
  proof (intro conjI ballI allI impI)
    show "visited' = rev (headers L) @ visited" using rendersD(1) [OF sub] L(1) by simp
    show "distinct visited'" if "distinct visited" using that step(2) rendersD(2) [OF sub] by simp
    fix m
    assume "m \<in> set (headers L)"
    then show "has_key steps m" "\<exists>n\<in>set [n]. (leads_to steps)\<^sup>*\<^sup>* n m"
      using L(1) n(2) rendersD(3) [OF sub, of m] reach by auto
  next
    fix m
    assume "m \<in> set (missing ls)"
    then show "\<not> has_key steps m" "\<exists>n\<in>set [n]. (leads_to steps)\<^sup>*\<^sup>* n m"
      using rendersD(4) [OF sub, of m] reach by auto
  qed (use n c in \<open>auto simp: covered_def\<close>)
qed

definition renderer :: "steps_map \<Rightarrow> nat \<Rightarrow> (string \<Rightarrow> string list \<Rightarrow> rendering option) \<Rightarrow> bool" where
  "renderer steps k f \<longleftrightarrow> (\<forall>n visited. set visited \<subseteq> set (keys steps) \<longrightarrow> unseen steps visited \<le> k \<longrightarrow>
     (\<exists>ls visited'. f n visited = Some (ls, visited') \<and> renders steps [n] visited ls visited'))"

lemma rendererD: "renderer steps k f \<Longrightarrow> set visited \<subseteq> set (keys steps) \<Longrightarrow> unseen steps visited \<le> k \<Longrightarrow>
    \<exists>ls visited'. f n visited = Some (ls, visited') \<and> renders steps [n] visited ls visited'"
  by (simp add: renderer_def)

lemma renders_within: "renders steps ns visited ls visited' \<Longrightarrow> set visited \<subseteq> set (keys steps) \<Longrightarrow>
    set visited' \<subseteq> set (keys steps) \<and> unseen steps visited' \<le> unseen steps visited"
  by (auto simp: renders_def has_key_iff intro!: unseen_mono)

lemma render_all_renders:
  assumes "renderer steps k f"
  shows "set visited \<subseteq> set (keys steps) \<Longrightarrow> unseen steps visited \<le> k \<Longrightarrow>
    \<exists>ls visited'. render_all f ns visited = Some (ls, visited') \<and> renders steps ns visited ls visited'"
proof (induction ns arbitrary: visited)
  case Nil
  then show ?case by (simp add: renders_Nil)
next
  case (Cons n ns)
  obtain ls1 v1 where 1: "f n visited = Some (ls1, v1)" "renders steps [n] visited ls1 v1"
    using rendererD [OF assms Cons.prems] by blast
  from renders_within [OF 1(2) Cons.prems(1)] Cons.prems(2)
  have "set v1 \<subseteq> set (keys steps)" "unseen steps v1 \<le> k" by auto
  from Cons.IH [OF this] obtain ls2 v2 where "render_all f ns v1 = Some (ls2, v2)" "renders steps ns v1 ls2 v2" by blast
  with 1 renders_append [OF 1(2), of ns ls2 v2] show ?case by simp
qed

lemma renderStep_leaf:
  assumes "n \<in> set visited \<or> map_of steps n = None" and "set visited \<subseteq> set (keys steps)"
  shows "\<exists>ls visited'. renderStep (Suc k) steps i n visited = Some (ls, visited') \<and> renders steps [n] visited ls visited'"
proof (cases "n \<in> set visited")
  case True
  with assms(2) show ?thesis by (auto simp: renders_def covered_def has_key_iff)
next
  case False
  with assms(1) show ?thesis by (simp add: renders_def covered_def has_key_def)
qed

lemma renderStep_renders: "renderer steps k (renderStep (Suc k) steps i)"
proof (induction k arbitrary: i)
  case 0
  have "n \<in> set visited \<or> map_of steps n = None" if "unseen steps visited \<le> 0" for n visited
    using that by (auto simp: unseen_def has_key_iff [symmetric] has_key_def)
  then show ?case unfolding renderer_def using renderStep_leaf by blast
next
  case (Suc k)
  show ?case unfolding renderer_def
  proof (intro allI impI)
    fix n visited
    assume v: "set visited \<subseteq> set (keys steps)" "unseen steps visited \<le> Suc k"
    show "\<exists>ls visited'. renderStep (Suc (Suc k)) steps i n visited = Some (ls, visited') \<and> renders steps [n] visited ls visited'"
    proof (cases "n \<in> set visited \<or> map_of steps n = None")
      case True
      with v(1) show ?thesis by (intro renderStep_leaf)
    next
      case False
      then obtain sd where sd: "map_of steps n = Some sd" "n \<notin> set visited" by auto
      let ?else = "if sd_Else sd \<noteq> [] then [sd_Else sd] else []"
      have k: "n \<in> set (keys steps)" using sd(1) by (simp add: has_key_iff [symmetric] has_key_def)
      have v0: "set (n # visited) \<subseteq> set (keys steps)" "unseen steps (n # visited) \<le> k"
        using v k unseen_Cons [of n steps visited] sd(2) by auto
      obtain ps v1 where p: "render_all (renderStep (Suc k) steps (i + 2)) (sd_Parallel sd) (n # visited) = Some (ps, v1)"
          "renders steps (sd_Parallel sd) (n # visited) ps v1"
        using render_all_renders [OF Suc v0] by blast
      with renders_within [OF p(2) v0(1)] v0(2) have v1: "set v1 \<subseteq> set (keys steps)" "unseen steps v1 \<le> k" by auto
      obtain xs v2 where x: "render_all (renderStep (Suc k) steps (i + 1)) (sd_Next sd) v1 = Some (xs, v2)"
          "renders steps (sd_Next sd) v1 xs v2"
        using render_all_renders [OF Suc v1] by blast
      with renders_within [OF x(2) v1(1)] v1(2) have v2: "set v2 \<subseteq> set (keys steps)" "unseen steps v2 \<le> k" by auto
      obtain es v3 where e: "render_all (renderStep (Suc k) steps (i + 2)) ?else v2 = Some (es, v3)"
          "renders steps ?else v2 es v3"
        using render_all_renders [OF Suc v2] by blast
      have none: "sd_Parallel sd = [] \<Longrightarrow> ps = []" "sd_Else sd = [] \<Longrightarrow> es = []" using p(1) e(1) by auto
      note all = renders_append [OF renders_append [OF p(2) x(2)] e(2)]
      let ?L = "step_lines i n sd @ (if sd_Parallel sd \<noteq> [] then ParallelLine i # ps else []) @ xs @
        (if sd_Else sd \<noteq> [] then ElseLine i (sd_Else sd) # es else [])"
      have "renderStep (Suc (Suc k)) steps i n visited = Some (?L, v3)"
        by (simp only: renderStep.simps(2) [of "Suc k"] sd p(1) x(1) e(1) if_False option.case prod.case)
      moreover have "renders steps [n] visited ?L v3"
        by (rule renders_enter [OF all [simplified] sd]) (use none in \<open>auto simp: forward_def\<close>)
      ultimately show ?thesis by blast
    qed
  qed
qed

text \<open>
  C35: Rendering a definition always ends, whatever cycles its steps form, and the outline is complete:
  every step reachable from the start has exactly one line of its own, no other step has one, and the names that are
  reached but not defined are exactly those reported as not found.
\<close>

theorem outline_complete:
  "\<exists>ls. graph_lines def = Some ls \<and> distinct (headers ls) \<and>
     set (headers ls) = {m. (leads_to (def_steps def))\<^sup>*\<^sup>* (def_start def) m \<and> has_key (def_steps def) m} \<and>
     set (missing ls) = {m. (leads_to (def_steps def))\<^sup>*\<^sup>* (def_start def) m \<and> \<not> has_key (def_steps def) m}"
proof -
  let ?steps = "def_steps def" and ?start = "def_start def"
  obtain ls v where r: "renderStep (Suc (length ?steps)) ?steps 0 ?start [] = Some (ls, v)" "renders ?steps [?start] [] ls v"
    using rendererD [OF renderStep_renders [of ?steps "length ?steps" 0], of "[]" ?start] unseen_bound [of ?steps "[]"]
    by (auto simp del: renderStep.simps)
  have all: "covered ?steps v (missing ls) m" if "(leads_to ?steps)\<^sup>*\<^sup>* ?start m" for m
    using that
  proof (induction rule: rtranclp_induct)
    case base
    show ?case by (rule rendersD(5) [OF r(2)]) simp
  next
    case (step a b)
    then have "has_key ?steps a" by (auto simp: leads_to_def has_key_def)
    with step.IH have "a \<in> set (headers ls)" using rendersD(1) [OF r(2)] by (simp add: covered_def)
    then show ?case using rendersD(6) [OF r(2)] step.hyps(2) by blast
  qed
  have "m \<in> set (headers ls) \<longleftrightarrow> (leads_to ?steps)\<^sup>*\<^sup>* ?start m \<and> has_key ?steps m"
      "m \<in> set (missing ls) \<longleftrightarrow> (leads_to ?steps)\<^sup>*\<^sup>* ?start m \<and> \<not> has_key ?steps m" for m
    using all [of m] rendersD(1) [OF r(2)] rendersD(3,4) [OF r(2), of m] by (auto simp: covered_def)
  then have "set (headers ls) = {m. (leads_to ?steps)\<^sup>*\<^sup>* ?start m \<and> has_key ?steps m}"
      "set (missing ls) = {m. (leads_to ?steps)\<^sup>*\<^sup>* ?start m \<and> \<not> has_key ?steps m}"
    by auto
  moreover have "distinct (headers ls)" using rendersD(1,2) [OF r(2)] by simp
  moreover have "graph_lines def = Some ls" using r(1) by (simp add: graph_lines_def del: renderStep.simps)
  ultimately show ?thesis by blast
qed

lemma drop_empty_groups: "concat (map snd (filter (\<lambda>(a, g). g \<noteq> []) gs)) = concat (map snd gs)"
  by (induction gs) auto

text \<open>
  The status view lists every step whose status it knows exactly once, and it does not know the
  status \<open>paused\<close>: the paused steps of an instance in the dead letter state are left out.
\<close>

theorem status_view_exact:
  "mset (concat (map snd (status_groups sts))) = filter_mset (\<lambda>st. ws_Status st \<in> set statusOrder) (mset sts) \<and>
   StepStatusPaused \<notin> set statusOrder"
proof -
  have order: "distinct statusOrder" "StepStatusPaused \<notin> set statusOrder" by (simp_all add: statusOrder_def)
  have "mset (concat (map (\<lambda>a. filter (\<lambda>st. ws_Status st = a) sts) order)) =
      filter_mset (\<lambda>st. ws_Status st \<in> set order) (mset sts)" if "distinct order" for order
    using that
  proof (induction order)
    case (Cons a order)
    then have "filter_mset (\<lambda>st. ws_Status st = a \<or> ws_Status st \<in> set order) (mset sts) =
        filter_mset (\<lambda>st. ws_Status st = a) (mset sts) + filter_mset (\<lambda>st. ws_Status st \<in> set order) (mset sts)"
      by (intro multiset_eqI) auto
    with Cons show ?case by simp
  qed simp
  then have "mset (concat (map snd (status_groups sts))) = filter_mset (\<lambda>st. ws_Status st \<in> set statusOrder) (mset sts)"
    using order(1) by (simp add: status_groups_def drop_empty_groups comp_def)
  with order(2) show ?thesis by blast
qed

end
