(* ===== verification/Spec2Isabelle.thy ===== *)
theory Spec2Isabelle
  imports Engine_Options Builder_Laws Fork_Run Saga_Run Worker_Pool Slice_Joins Store_Contract Monitor Migrations Api_Laws Plugin_Laws
    Telemetry Prometheus Conditions Step_Handlers Visualizer
begin

text \<open>
  Verification of floxy, a workflow engine with sagas (the Go package under \<open>src/\<close>).

  \<^bold>\<open>The program.\<close>  A client describes a workflow as a graph of named steps (tasks, forks, joins, conditions,
  save points, human decisions), with the builder of \<open>builder.go\<close>, and registers it with the engine
  (\<open>engine.go\<close>).  \<open>Start\<close> creates an instance and queues its first step.  Workers call \<open>ExecuteNext\<close>: it claims
  one queue item, runs the step (a registered handler for a task), and on success queues the next steps,
  updates the joins that wait for the step and completes the workflow when nothing is left.  On failure a step
  is retried; when the retries are used up, the workflow either goes to the dead letter state or its
  finished steps are compensated back to a save point.  Instances can be cancelled or aborted while they run.  All
  state that survives a call is in a store; the engine is modelled over the in-memory one (\<open>memory_store.go\<close>);
  the SQLite one (\<open>sqlite_store.go\<close>) and the PostgreSQL one (\<open>store.go\<close>), which implement the same interface, are
  modelled on their own and compared with it.

  \<^bold>\<open>The model.\<close>  A Go call is a function from a state to an outcome and a state (theory \<open>Prelude\<close>): the outcome is
  a value, an error, a panic, or \<open>Stuck\<close> for a call that never returns.  One combinator stands for each Go
  construct used (sequencing with early return, \<open>_ = f()\<close>, wrapping of errors, \<open>range\<close> loops, \<open>defer\<close>).  Every
  operation is one definition with the Go name; a Go map is an association list in an arbitrary
  order, so theorems hold for every iteration order.

  \<^item> \<open>Models\<close>: the records and enumerations of \<open>models.go\<close>, JSON documents and raw messages.
  \<^item> \<open>Memory_Store\<close>, \<open>Join_State\<close>, \<open>Store_Admin\<close>: \<open>memory_store.go\<close>: the record \<open>memory_store\<close> has its tables,
    counters, clock and identifier source.
  \<^item> \<open>Validation\<close>, \<open>Builder\<close>: \<open>builder.go\<close> and \<open>builder_opts.go\<close>.
  \<^item> \<open>Step_Graph\<close>: the walks over a definition in \<open>engine.go\<close>: save points, descendants, fork branches, joins.
  \<^item> \<open>Retry_Delay\<close>: \<open>CalculateRetryDelay\<close> of \<open>helpers.go\<close> at 64 bits.
  \<^item> \<open>Engine_State\<close>: the record \<open>engine\<close> (it extends \<open>memory_store\<close>, so every store operation acts on an
    engine state), handlers, plugins, cancel contexts, cool-down and log throttling.  \<open>Engine_Options\<close>: the options of
    \<open>engine_opts.go\<close> that choose store, transaction manager and intervals, and what their order decides.
  \<^item> \<open>Engine_Join\<close>, \<open>Engine_Rollback\<close>, \<open>Engine_Exec\<close>, \<open>Engine_Flow\<close>, \<open>Engine_Api\<close>: \<open>engine.go\<close> from the join
    notifications up to the public operations.
  \<^item> \<open>System\<close>: one transition for every public operation, and the reachable states.
  \<^item> \<open>Worker_Pool\<close>: \<open>worker.go\<close>: the loops of the workers as a step relation.
  \<^item> \<open>Slice_Joins\<close>: the join states of \<open>memory_store.go\<close> once more, as slices over an explicit store of arrays.
  \<^item> \<open>Sqlite_Store\<close>: \<open>sqlite_store.go\<close>: tables as lists of rows, one operation \<open>sql_\<dots>\<close> for each Go method.
  \<^item> \<open>Postgres_Store\<close>: \<open>store.go\<close> and \<open>tx_manager.go\<close> over the schema of \<open>migrations/\<close>: the record \<open>pg_store\<close> has the tables,
    the sequences, the open transaction with the tables to go back to, and the definition cache; one operation \<open>pg_\<dots>\<close> for
    each Go method.
  \<^item> \<open>Monitor\<close>: \<open>monitor.go\<close> over the views of \<open>migrations/\<close>.  \<open>Migrations\<close>: \<open>migrations_sqlite.go\<close> and \<open>migrations.go\<close>.
  \<^item> \<open>Conditions\<close>, \<open>Step_Handlers\<close>: \<open>evaluate_condition.go\<close>, and the handler adapters of \<open>helpers.go\<close> and \<open>step_handler.go\<close>.
  \<^item> \<open>Api_Handlers\<close>: the routes and handlers of \<open>api/\<close> and \<open>plugins/api/\<close>.
  \<^item> \<open>Engine_Plugins\<close>, \<open>Telemetry\<close>, \<open>Prometheus\<close>: the plugins of \<open>plugins/engine/\<close>.
  \<^item> \<open>Visualizer\<close>: \<open>visualizer.go\<close>.

  \<^bold>\<open>What is shown.\<close>
  \<^item> \<open>Store_Invariant\<close> and \<open>Engine_Frame\<close>: every store operation keeps the invariant \<open>wf_store\<close>; the locale
    \<open>engine_frame\<close> carries any preorder that the store writes respect to every operation of the engine.  \<open>System\<close>
    interprets it, so the invariant holds in all reachable states and a run loses no step, instance or event.
  \<^item> \<open>Work_Queue\<close>: the queue hands out the best due item, each once, and with aging no due item starves.  Its
    contract is the locale \<open>claim_queue\<close>, interpreted on the store.
  \<^item> \<open>Join_Readiness\<close>: when a join is ready; which join operations block for ever.
  \<^item> \<open>Graph_Walks\<close>: the loops of \<open>Step_Graph\<close> end and compute reachability, descendants, nearest save points.
  \<^item> \<open>Store_Laws\<close>: listings, pages, statistics, pausing, requeueing and clean-up.
  \<^item> \<open>Engine_Laws\<close>: starting, registering, retries, dead letters, stop requests, cool-down, plugins.
  \<^item> \<open>Worker_Turn\<close>, \<open>Turns\<close>, \<open>Linear_Run\<close>: what one turn of a worker does, case by case, and from the claim of an item to
    the answer of its handler; a workflow of tasks in a row whose handlers succeed completes after as many turns as it has steps.
  \<^item> \<open>Builder_Laws\<close>: what the builder makes of a row of tasks is valid and runs to completion; where \<open>Parallel\<close> puts its join.
  \<^item> \<open>Saga_Run\<close>: a workflow of tasks in a row whose last one fails for good ends, after its retries, with every step rolled back
    and the compensations called from the last step to the first.
  \<^item> \<open>In_Flight\<close>, \<open>Fork_Shape\<close>, \<open>Fork_Run\<close>: several steps of an instance under way at once, one queue item for each; a fork into rows of
    tasks runs every row in its order, the last row to end creates the join step, and the workflow completes, whatever the interleaving.
  \<^item> \<open>Rollback_Walk\<close>: a rollback ends and treats every step at most once; on a chain it is the expected sequence.
  \<^item> \<open>Slice_Joins\<close>: the slices implement the lists while no array is shared (locale \<open>join_implementation\<close>, interpreted
    on the operations of the store), and what happens to the wait lists of two instances that share one.
  \<^item> \<open>Sqlite_Laws\<close>: the operations of the SQLite store keep row numbers unique and below their sequences; its queue meets
    the contract \<open>claim_queue\<close> too; requeueing and clean-up to the row; where its joins agree with those of the memory
    store and where they do not.
  \<^item> \<open>Postgres_Integrity\<close>: every operation keeps keys, references and checks of the schema, inside and outside transactions, and a
    transaction takes place completely or not at all.  \<open>Postgres_Laws\<close>: its queue meets \<open>claim_queue\<close>, its joins agree with those of
    the memory store.  \<open>Postgres_Records\<close>: the definition cache is transparent outside transactions and not across a
    rolled back one; requeueing and clean-up to the row; retries of a compensation.
  \<^item> \<open>Store_Contract\<close>: an abstract store and the locale \<open>store_contract\<close>, interpreted on all three stores: a client cannot tell
    them apart by valid calls on definitions, instances, steps, queue and events.
  \<^item> \<open>Monitor\<close>, \<open>Migrations\<close>: statistics and queue length are those of the committed tables, and two calls that always fail;
    a migration file is split back into its statements, and the SQLite migrations are applied completely or not at all.
  \<^item> \<open>Worker_Pool\<close>: every run of a pool is a run of the engine; stopping brings it to rest, shutting down is final.
  \<^item> \<open>Api_Laws\<close>, \<open>Plugin_Laws\<close>: reading requests change nothing, pages, answers to stop requests; the bound of the
    rate limiter, the depth of rollbacks, validation rules.
  \<^item> \<open>Telemetry\<close>, \<open>Prometheus\<close>: spans are used as the rules of tracing ask, and which span is lost; metrics are well
    labelled and the counters exact.
  \<^item> \<open>Conditions\<close>, \<open>Step_Handlers\<close>, \<open>Visualizer\<close>: the template cache is transparent, the comparisons are those of the
    numbers; map handlers pass their data on; the outline of a definition shows every reachable step once.
  \<^item> \<open>Validation\<close>, \<open>Retry_Delay\<close>: validation accepts exactly the well-formed acyclic definitions; the retry delay.

  \<^bold>\<open>Fuel and parameters.\<close>  The graph walks of \<open>Step_Graph\<close>, the cycle search of \<open>Validation\<close>, the rollback
  traversal and the renderer of the visualizer carry fuel bounded by the number of steps of the definition; the theorems on each
  show that the fuel is enough.  Handlers, plugin hooks, the template engine, the decimal package,
  the random source and the identifier generator are parameters, arbitrary functions; while a handler runs,
  cancel and abort requests and the cancel worker may act (\<open>env_action\<close>).  Otherwise the operations of the engine run one after
  the other, in any interleaving of the workers and clients; floats of the queue aging are exact rationals.

  \<^bold>\<open>The databases.\<close>  A statement takes place completely or, when it breaks a constraint, not at all; ties of \<open>ORDER BY\<close> come in the
  order of insertion; PostgreSQL keeps microseconds, uses up a sequence number also when the insert fails, and refuses every
  statement of a transaction after one has failed.  Transactions of other clients show in the rows they hold locked only.

  \<^bold>\<open>What is not modelled.\<close>  Failures of the connection to a database, the interleaving of two open transactions, the HTTP
  transport below the handlers, the text of stack traces, the example programs, and generated mocks.
\<close>

section \<open>The system as a whole\<close>

text \<open>
  C1: in every state the engine can reach, through any sequence of public operations, worker turns and
  clean-ups, the store is well-formed: identifiers are unique and come from the counters, every record is filed under its own
  key, the steps listed for an instance are exactly its stored steps in the order of creation, the event log has
  no gaps, and each join state has disjoint duplicate-free lists and a sound readiness flag.
\<close>

theorem reachable_store_wellformed: "reachable s \<Longrightarrow> wf_store s"
  by (rule reachable_wf)

theorem reachable_store_wellformed_witness:
  "wf_store (snd (Start ''w'' RawNil (snd (ExecuteNext ''worker'' demo_engine))))"
proof (rule reachable_store_wellformed)
  have "reachable demo_engine" unfolding demo_engine_def by (rule reachable.new)
  from reachable.step [OF reachable.step [OF this engine_step.ExecuteNext] engine_step.Start]
  show "reachable (snd (Start ''w'' RawNil (snd (ExecuteNext ''worker'' demo_engine))))" .
qed

text \<open>
  C7: a run of the engine loses nothing.  From a reachable state, after any number of operations other than the
  clean-up, every step is still there with its identity (number, instance, name, type, retry limit, idempotency key and creation
  time), every instance is still there with its workflow and input, the event log has only grown at its end,
  and time has not gone back.
\<close>

theorem run_loses_nothing: "reachable s \<Longrightarrow> engine_step\<^sup>*\<^sup>* s t \<Longrightarrow> grows s t"
proof -
  assume "reachable s"
  assume "engine_step\<^sup>*\<^sup>* s t"
  then have "sound_step s t"
    by (induction rule: rtranclp_induct) (auto intro: sound.R_refl sound.R_trans engine_step_sound)
  with reachable_wf [OF \<open>reachable s\<close>] show "grows s t" by (simp add: sound_step_def)
qed

theorem run_loses_nothing_witness: "grows demo_engine (snd (Start ''w'' RawNil demo_engine))"
proof (rule run_loses_nothing)
  show "reachable demo_engine" unfolding demo_engine_def by (rule reachable.new)
  show "engine_step\<^sup>*\<^sup>* demo_engine (snd (Start ''w'' RawNil demo_engine))"
    by (rule r_into_rtranclp) (rule engine_step.Start)
qed

end
